(* ===== verification/Skai_Prelude.thy ===== *)
theory Skai_Prelude
  imports Main "HOL-Library.Word" "HOL-Library.Sublist"
begin

text \<open>
  Shared vocabulary of the skai-edge development: the machine integers of the C++ code, the
  drop-oldest discipline that four of its buffers follow, and the parts of
  \<^verbatim>\<open>std::string\<close> that several components use (\<^verbatim>\<open>find\<close>,
  \<^verbatim>\<open>rfind(prefix, 0)\<close>, \<^verbatim>\<open>substr\<close>,
  \<^verbatim>\<open>std::to_string\<close>).  A C++ \<^verbatim>\<open>std::string\<close> is a sequence of
  bytes, here a \<open>string\<close>.  Counters that the code only increments
  (\<^verbatim>\<open>std::uint64_t\<close>, \<^verbatim>\<open>std::size_t\<close>) are words and wrap;
  sizes of containers that live in memory are \<open>nat\<close>.  Points of
  \<^verbatim>\<open>std::chrono::steady_clock\<close> and durations are integers counting
  nanoseconds.
\<close>

named_theorems skai_defs \<open>definitions of operations, unfolded by the component proofs\<close>

type_synonym u8 = "8 word"
type_synonym u16 = "16 word"
type_synonym u32 = "32 word"
type_synonym u64 = "64 word"

type_synonym time_point = int
type_synonym duration = int

abbreviation milliseconds :: "int \<Rightarrow> duration" where
  "milliseconds n \<equiv> n * 1000000"

abbreviation seconds :: "int \<Rightarrow> duration" where
  "seconds n \<equiv> n * 1000000000"

text \<open>A call that may throw: \<open>Inl\<close> carries the exception's message.\<close>

type_synonym 'a result = "string + 'a"

text \<open>\<^verbatim>\<open>int\<close> limits of the target platform.\<close>

abbreviation int_max :: int where
  "int_max \<equiv> 2147483647"

abbreviation size_max :: nat where
  "size_max \<equiv> 18446744073709551615"

lemma word_less_succ:
  fixes a b :: "'a::len word"
  assumes "b \<noteq> - 1" and "a \<le> b"
  shows "a < b + 1"
proof -
  have "1 + b \<noteq> 0" using assms(1) by (metis add.commute eq_neg_iff_add_eq_0)
  then have "unat (b + 1) = Suc (unat b)" by (metis add.commute unatSuc)
  with assms(2) show ?thesis by (simp add: word_less_nat_alt word_le_nat_alt)
qed

lemma int_div_less_iff:
  fixes x b c :: int
  assumes "0 < b"
  shows "x div b < c \<longleftrightarrow> x < c * b"
proof -
  have x: "x = x div b * b + x mod b" by simp
  have m: "0 \<le> x mod b" "x mod b < b" using assms by simp_all
  show ?thesis
  proof (cases "x div b < c")
    case True
    then have "(x div b + 1) * b \<le> c * b" using assms by (intro mult_right_mono) simp_all
    then have "x div b * b + x mod b < c * b" using m unfolding distrib_right by linarith
    then show ?thesis using True x by simp
  next
    case False
    then have "c * b \<le> x div b * b" using assms by (intro mult_right_mono) simp_all
    then have "c * b \<le> x div b * b + x mod b" using m by linarith
    then show ?thesis using False x by simp
  qed
qed

section \<open>Keeping the newest elements\<close>

definition last_n :: "nat \<Rightarrow> 'a list \<Rightarrow> 'a list" where
  "last_n n xs = drop (length xs - n) xs"

lemma length_last_n [simp]: "length (last_n n xs) = min n (length xs)"
  by (simp add: last_n_def)

lemma last_n_all [simp]: "length xs \<le> n \<Longrightarrow> last_n n xs = xs"
  by (simp add: last_n_def)

lemma last_n_Nil [simp]: "last_n n [] = []"
  by (simp add: last_n_def)

lemma last_n_snoc_full:
  "length xs = n \<Longrightarrow> 0 < n \<Longrightarrow> last_n n (xs @ [x]) = tl xs @ [x]"
  by (cases xs) (auto simp: last_n_def)

lemma last_n_append_last_n: "last_n n (last_n n xs @ ys) = last_n n (xs @ ys)"
proof (cases "length xs \<le> n")
  case False
  then have "length (last_n n xs) = n" by simp
  then show ?thesis
    using False by (simp add: last_n_def add.commute not_le)
qed simp

lemma suffix_last_n: "suffix (last_n n xs) xs"
  by (simp add: last_n_def suffix_drop)

text \<open>
  The interface of a buffer that admits every element and keeps the newest \<open>cap\<close> of them.
  \<open>invar\<close> is the states the provider promises the laws for.
\<close>

locale drop_oldest_buffer =
  fixes push :: "'a \<Rightarrow> 'q \<Rightarrow> 'q"
    and contents :: "'q \<Rightarrow> 'a list"
    and cap :: "'q \<Rightarrow> nat"
    and invar :: "'q \<Rightarrow> bool"
  assumes contents_push: "invar q \<Longrightarrow> contents (push x q) = last_n (cap q) (contents q @ [x])"
    and cap_push: "invar q \<Longrightarrow> cap (push x q) = cap q"
    and invar_push: "invar q \<Longrightarrow> invar (push x q)"
    and invar_bound: "invar q \<Longrightarrow> length (contents q) \<le> cap q"
begin

lemma fold_push:
  "invar q \<Longrightarrow> invar (fold push xs q) \<and> cap (fold push xs q) = cap q \<and>
    contents (fold push xs q) = last_n (cap q) (contents q @ xs)"
proof (induction xs arbitrary: q)
  case Nil
  then show ?case by (simp add: invar_bound)
next
  case (Cons x xs)
  from Cons.IH [OF invar_push [OF Cons.prems]] Cons.prems show ?case
    by (simp add: contents_push cap_push last_n_append_last_n)
qed

lemma newest_kept:
  assumes "invar q" and "length xs \<le> cap q"
  shows "suffix xs (contents (fold push xs q))"
  using fold_push [OF assms(1)] assms(2)
  by (auto simp: last_n_def suffix_def)

lemma overrun:
  assumes "invar q" and "cap q \<le> length xs"
  shows "contents (fold push xs q) = last_n (cap q) xs"
  using fold_push [OF assms(1)] assms(2)
  by (simp add: last_n_def)

end

section \<open>Byte strings\<close>

primrec index_where :: "('a \<Rightarrow> bool) \<Rightarrow> 'a list \<Rightarrow> nat option" where
  "index_where P [] = None"
| "index_where P (x # xs) = (if P x then Some 0 else map_option Suc (index_where P xs))"

text \<open>\<^verbatim>\<open>s.find(c, pos)\<close> and \<^verbatim>\<open>s.find_first_of(set, pos)\<close>;
  \<open>None\<close> is \<^verbatim>\<open>npos\<close>.\<close>

definition find_from :: "('a \<Rightarrow> bool) \<Rightarrow> nat \<Rightarrow> 'a list \<Rightarrow> nat option" where
  "find_from P pos s = map_option ((+) pos) (index_where P (drop pos s))"

text \<open>\<^verbatim>\<open>s.rfind(c)\<close>: the last position.\<close>

definition rfind_char :: "'a \<Rightarrow> 'a list \<Rightarrow> nat option" where
  "rfind_char c s = map_option (\<lambda>i. length s - 1 - i) (index_where (\<lambda>x. x = c) (rev s))"

text \<open>\<^verbatim>\<open>s.substr(pos, n)\<close>, with \<open>None\<close> for \<^verbatim>\<open>npos\<close>.\<close>

definition substr :: "nat \<Rightarrow> nat option \<Rightarrow> 'a list \<Rightarrow> 'a list" where
  "substr pos n s = (case n of None \<Rightarrow> drop pos s | Some k \<Rightarrow> take k (drop pos s))"

text \<open>\<^verbatim>\<open>s.rfind(p, 0) == 0\<close>.\<close>

primrec starts_with :: "'a list \<Rightarrow> 'a list \<Rightarrow> bool" where
  "starts_with [] s = True"
| "starts_with (c # p) s = (case s of [] \<Rightarrow> False | d # s' \<Rightarrow> c = d \<and> starts_with p s')"

lemma starts_with_prefix: "starts_with p s \<longleftrightarrow> prefix p s"
  by (induction p arbitrary: s) (auto split: list.splits)

lemma index_where_None: "index_where P xs = None \<longleftrightarrow> (\<forall>x \<in> set xs. \<not> P x)"
  by (induction xs) auto

lemma index_where_Some:
  "index_where P xs = Some i \<longleftrightarrow> i < length xs \<and> P (xs ! i) \<and> (\<forall>j < i. \<not> P (xs ! j))"
proof (induction xs arbitrary: i)
  case Nil
  then show ?case by simp
next
  case (Cons x xs)
  then show ?case
    by (cases i) (auto simp: less_Suc_eq_0_disj)
qed

lemma index_where_append_hit:
  "(\<forall>x \<in> set xs. \<not> P x) \<Longrightarrow> P y \<Longrightarrow> index_where P (xs @ y # ys) = Some (length xs)"
  by (induction xs) auto

lemma find_append: "find P (xs @ ys) = (case find P xs of None \<Rightarrow> find P ys | Some x \<Rightarrow> Some x)"
  by (induction xs) auto

lemma find_from_0 [simp]: "find_from P 0 s = index_where P s"
  by (cases "index_where P s") (simp_all add: find_from_def)

lemma find_from_bound: "find_from P pos s = Some i \<Longrightarrow> pos \<le> i \<and> i < length s \<and> P (s ! i)"
  by (auto simp: find_from_def index_where_Some)

text \<open>\<^verbatim>\<open>std::to_string\<close> on an unsigned value and on a signed one.\<close>

definition digit_char :: "nat \<Rightarrow> char" where
  "digit_char d = char_of (48 + d)"

fun to_string :: "nat \<Rightarrow> string" where
  "to_string n = (if n < 10 then [digit_char n] else to_string (n div 10) @ [digit_char (n mod 10)])"

declare to_string.simps [simp del]

definition int_to_string :: "int \<Rightarrow> string" where
  "int_to_string i = (if i < 0 then CHR ''-'' # to_string (nat (- i)) else to_string (nat i))"

definition is_digit :: "char \<Rightarrow> bool" where
  "is_digit c = (48 \<le> (of_char c :: nat) \<and> (of_char c :: nat) \<le> 57)"

definition digit_value :: "char \<Rightarrow> nat" where
  "digit_value c = of_char c - 48"

definition decimal_value :: "string \<Rightarrow> nat" where
  "decimal_value s = fold (\<lambda>c v. 10 * v + digit_value c) s 0"

lemma of_digit_char [simp]: "d < 10 \<Longrightarrow> (of_char (digit_char d) :: nat) = 48 + d"
  by (simp add: digit_char_def)

lemma is_digit_digit_char [simp]: "d < 10 \<Longrightarrow> is_digit (digit_char d)"
  by (simp add: is_digit_def)

lemma digit_value_digit_char [simp]: "d < 10 \<Longrightarrow> digit_value (digit_char d) = d"
  by (simp add: digit_value_def)

lemma decimal_value_snoc [simp]: "decimal_value (s @ [c]) = 10 * decimal_value s + digit_value c"
  by (simp add: decimal_value_def)

lemma to_string_digits: "\<forall>c \<in> set (to_string n). is_digit c"
proof (induction n rule: to_string.induct)
  case (1 n)
  then show ?case by (subst to_string.simps) auto
qed

lemma to_string_nonempty [simp]: "to_string n \<noteq> []"
  by (subst to_string.simps) simp

lemma decimal_value_to_string [simp]: "decimal_value (to_string n) = n"
proof (induction n rule: to_string.induct)
  case (1 n)
  show ?case
  proof (cases "n < 10")
    case True
    then show ?thesis
      by (subst to_string.simps) (simp add: decimal_value_def)
  next
    case False
    with 1 show ?thesis
      by (subst to_string.simps) simp
  qed
qed

lemma to_string_inject [simp]: "to_string m = to_string n \<longleftrightarrow> m = n"
  by (metis decimal_value_to_string)

lemma length_to_string: "n < 10 ^ k \<Longrightarrow> 0 < k \<Longrightarrow> length (to_string n) \<le> k"
proof (induction k arbitrary: n)
  case (Suc k)
  show ?case
  proof (cases "n < 10")
    case True
    then show ?thesis by (subst to_string.simps) simp
  next
    case False
    with Suc.prems have "0 < k" by (cases k) auto
    moreover have "n div 10 < 10 ^ k" using Suc.prems by (simp add: div_less_iff_less_mult mult.commute)
    ultimately have "length (to_string (n div 10)) \<le> k" by (rule Suc.IH [rotated])
    with False show ?thesis by (subst to_string.simps) simp
  qed
qed simp

section \<open>Sorting\<close>

text \<open>\<^verbatim>\<open>std::stable_sort\<close> with a comparator that is a strict weak order.\<close>

fun insert_stable :: "('a \<Rightarrow> 'a \<Rightarrow> bool) \<Rightarrow> 'a \<Rightarrow> 'a list \<Rightarrow> 'a list" where
  "insert_stable lt x [] = [x]"
| "insert_stable lt x (y # ys) = (if lt y x then y # insert_stable lt x ys else x # y # ys)"

definition stable_sort :: "('a \<Rightarrow> 'a \<Rightarrow> bool) \<Rightarrow> 'a list \<Rightarrow> 'a list" where
  "stable_sort lt xs = foldr (insert_stable lt) xs []"

lemma set_insert_stable [simp]: "set (insert_stable lt x xs) = insert x (set xs)"
  by (induction xs) auto

lemma length_insert_stable [simp]: "length (insert_stable lt x xs) = Suc (length xs)"
  by (induction xs) auto

lemma set_stable_sort [simp]: "set (stable_sort lt xs) = set xs"
  by (induction xs) (auto simp: stable_sort_def)

lemma length_stable_sort [simp]: "length (stable_sort lt xs) = length xs"
  by (induction xs) (auto simp: stable_sort_def)

text \<open>What the comparators of the program promise on the values they are called with, and the standard
  library requires.\<close>

locale strict_weak_order =
  fixes lt :: "'a \<Rightarrow> 'a \<Rightarrow> bool" and proper :: "'a \<Rightarrow> bool"
  assumes asym: "proper a \<Longrightarrow> proper b \<Longrightarrow> lt a b \<Longrightarrow> \<not> lt b a"
    and not_lt_trans: "proper a \<Longrightarrow> proper b \<Longrightarrow> proper c \<Longrightarrow>
      \<not> lt b a \<Longrightarrow> \<not> lt c b \<Longrightarrow> \<not> lt c a"
begin

lemma sorted_insert_stable:
  "sorted_wrt (\<lambda>a b. \<not> lt b a) xs \<Longrightarrow> list_all proper (x # xs) \<Longrightarrow>
    sorted_wrt (\<lambda>a b. \<not> lt b a) (insert_stable lt x xs)"
proof (induction xs)
  case (Cons y ys)
  show ?case
  proof (cases "lt y x")
    case True
    then show ?thesis using Cons asym [OF _ _ True] by simp
  next
    case False
    then have "\<forall>z \<in> set ys. \<not> lt z x"
      using Cons.prems not_lt_trans [of x y] by (auto simp: list_all_iff)
    then show ?thesis using Cons.prems False by simp
  qed
qed simp

lemma sorted_stable_sort:
  "list_all proper xs \<Longrightarrow> sorted_wrt (\<lambda>a b. \<not> lt b a) (stable_sort lt xs)"
proof (induction xs)
  case (Cons x xs)
  have "set (foldr (insert_stable lt) xs []) = set xs"
    using set_stable_sort [of lt xs] by (simp only: stable_sort_def)
  then show ?case
    using Cons sorted_insert_stable [of "stable_sort lt xs" x]
    by (simp add: stable_sort_def list_all_iff)
qed (simp add: stable_sort_def)

end

end
