(* ===== verification/Bounded_Queue.thy ===== *)
theory Bounded_Queue
  imports Skai_Prelude
begin

text \<open>
  \<^verbatim>\<open>include/skai/core/bounded_queue.hpp\<close>: the bounded producer/consumer queue
  between the real-time stages.  Every public operation holds the queue's mutex for its whole
  effect, so an operation is one atomic step, and an execution of any number of producers and
  consumers is an interleaving of such steps (\<open>queue_run\<close>).  A blocked
  \<^verbatim>\<open>pop\<close> is a step that is not enabled.
\<close>

record queue_stats =
  pushed :: u64
  popped :: u64
  dropped :: u64
  discarded :: u64
  high_water_mark :: nat

definition zero_stats :: queue_stats where
  "zero_stats = \<lparr>pushed = 0, popped = 0, dropped = 0, discarded = 0, high_water_mark = 0\<rparr>"

record 'a bounded_queue =
  bq_capacity :: nat
  bq_queue :: "'a list"
  bq_stats :: queue_stats
  bq_shutdown :: bool

definition new_queue :: "nat \<Rightarrow> 'a bounded_queue result" where
  "new_queue capacity =
     (if capacity = 0 then Inl ''queue capacity must be positive''
      else Inr \<lparr>bq_capacity = capacity, bq_queue = [], bq_stats = zero_stats, bq_shutdown = False\<rparr>)"

definition push :: "'a \<Rightarrow> 'a bounded_queue \<Rightarrow> bool \<times> 'a bounded_queue" where
  "push value q =
     (if bq_shutdown q then (False, q)
      else
        let q1 = q\<lparr>bq_queue := bq_queue q @ [value],
                   bq_stats := (bq_stats q)\<lparr>pushed := pushed (bq_stats q) + 1\<rparr>\<rparr>;
            q2 = (if length (bq_queue q1) > bq_capacity q1
                  then q1\<lparr>bq_queue := tl (bq_queue q1),
                          bq_stats := (bq_stats q1)\<lparr>dropped := dropped (bq_stats q1) + 1\<rparr>\<rparr>
                  else q1)
        in (True, q2\<lparr>bq_stats := (bq_stats q2)\<lparr>high_water_mark :=
                      max (high_water_mark (bq_stats q2)) (length (bq_queue q2))\<rparr>\<rparr>))"

text \<open>What a producer pushes in a row.\<close>

abbreviation push_all :: "'a list \<Rightarrow> 'a bounded_queue \<Rightarrow> 'a bounded_queue" where
  "push_all xs q \<equiv> fold (\<lambda>x q. snd (push x q)) xs q"

definition take_front :: "'a bounded_queue \<Rightarrow> 'a option \<times> 'a bounded_queue" where
  "take_front q =
     (case bq_queue q of
        [] \<Rightarrow> (None, q)
      | x # xs \<Rightarrow> (Some x, q\<lparr>bq_queue := xs,
                             bq_stats := (bq_stats q)\<lparr>popped := popped (bq_stats q) + 1\<rparr>\<rparr>))"

text \<open>The wait predicate of \<^verbatim>\<open>pop\<close> and \<^verbatim>\<open>pop_for\<close>.\<close>

definition available :: "'a bounded_queue \<Rightarrow> bool" where
  "available q \<longleftrightarrow> bq_shutdown q \<or> bq_queue q \<noteq> []"

text \<open>\<open>None\<close>: the caller is still waiting on the condition variable.\<close>

definition pop :: "'a bounded_queue \<Rightarrow> ('a option \<times> 'a bounded_queue) option" where
  "pop q = (if available q then Some (take_front q) else None)"

text \<open>The state is the one at which \<^verbatim>\<open>wait_for\<close> returns: the predicate holds, or
  the timeout has passed and it does not.\<close>

definition pop_for :: "'a bounded_queue \<Rightarrow> 'a option \<times> 'a bounded_queue" where
  "pop_for q = (if \<not> available q then (None, q) else take_front q)"

definition shutdown :: "'a bounded_queue \<Rightarrow> 'a bounded_queue" where
  "shutdown q = q\<lparr>bq_shutdown := True\<rparr>"

definition discard_all :: "'a bounded_queue \<Rightarrow> nat \<times> 'a bounded_queue" where
  "discard_all q =
     (length (bq_queue q),
      q\<lparr>bq_queue := [],
        bq_stats := (bq_stats q)\<lparr>discarded := discarded (bq_stats q) + of_nat (length (bq_queue q))\<rparr>\<rparr>)"

definition reset :: "'a bounded_queue \<Rightarrow> 'a bounded_queue" where
  "reset q = q\<lparr>bq_queue := [], bq_stats := zero_stats, bq_shutdown := False\<rparr>"

definition is_shutdown :: "'a bounded_queue \<Rightarrow> bool" where
  "is_shutdown q = bq_shutdown q"

definition queue_size :: "'a bounded_queue \<Rightarrow> nat" where
  "queue_size q = length (bq_queue q)"

text \<open>What one step of an execution shows to its caller.\<close>

datatype 'a queue_event =
    Pushed 'a bool
  | Popped "'a option"
  | Timed_pop "'a option"
  | Shut_down
  | Discarded nat
  | Was_reset

inductive queue_step :: "'a bounded_queue \<Rightarrow> 'a queue_event \<Rightarrow> 'a bounded_queue \<Rightarrow> bool" where
  step_push: "push x q = (ok, q') \<Longrightarrow> queue_step q (Pushed x ok) q'"
| step_pop: "pop q = Some (r, q') \<Longrightarrow> queue_step q (Popped r) q'"
| step_pop_for: "pop_for q = (r, q') \<Longrightarrow> queue_step q (Timed_pop r) q'"
| step_shutdown: "queue_step q Shut_down (shutdown q)"
| step_discard: "discard_all q = (n, q') \<Longrightarrow> queue_step q (Discarded n) q'"
| step_reset: "queue_step q Was_reset (reset q)"

inductive queue_run :: "'a bounded_queue \<Rightarrow> 'a queue_event list \<Rightarrow> 'a bounded_queue \<Rightarrow> bool" where
  run_nil: "queue_run q [] q"
| run_snoc: "queue_run q es q' \<Longrightarrow> queue_step q' e q'' \<Longrightarrow> queue_run q (es @ [e]) q''"

inductive_cases queue_stepE: "queue_step q e q'"

text \<open>The values the queue accepted and the values it handed out, in order.\<close>

fun accepted1 :: "'a queue_event \<Rightarrow> 'a list" where
  "accepted1 (Pushed x True) = [x]"
| "accepted1 _ = []"

fun delivered1 :: "'a queue_event \<Rightarrow> 'a list" where
  "delivered1 (Popped (Some x)) = [x]"
| "delivered1 (Timed_pop (Some x)) = [x]"
| "delivered1 _ = []"

abbreviation accepted :: "'a queue_event list \<Rightarrow> 'a list" where
  "accepted es \<equiv> concat (map accepted1 es)"

abbreviation delivered :: "'a queue_event list \<Rightarrow> 'a list" where
  "delivered es \<equiv> concat (map delivered1 es)"

text \<open>Repeated \<^verbatim>\<open>pop\<close> by one consumer.\<close>

fun pop_times :: "nat \<Rightarrow> 'a bounded_queue \<Rightarrow> ('a option list \<times> 'a bounded_queue) option" where
  "pop_times 0 q = Some ([], q)"
| "pop_times (Suc n) q =
     (case pop q of
        None \<Rightarrow> None
      | Some (r, q') \<Rightarrow> map_option (\<lambda>(rs, q''). (r # rs, q'')) (pop_times n q'))"

text \<open>Invariant: the buffer is bounded, the high-water mark covers it, and every pushed value is
  accounted for exactly once.\<close>

definition queue_inv :: "'a bounded_queue \<Rightarrow> bool" where
  "queue_inv q \<longleftrightarrow>
     0 < bq_capacity q \<and> length (bq_queue q) \<le> high_water_mark (bq_stats q) \<and>
     high_water_mark (bq_stats q) \<le> bq_capacity q \<and>
     pushed (bq_stats q) = popped (bq_stats q) + dropped (bq_stats q) + discarded (bq_stats q) +
       of_nat (length (bq_queue q))"

lemmas queue_op_defs [skai_defs] =
  push_def take_front_def pop_def pop_for_def shutdown_def discard_all_def reset_def
  available_def zero_stats_def

section \<open>One operation at a time\<close>

lemma push_open_queue:
  assumes "\<not> bq_shutdown q" and "length (bq_queue q) \<le> bq_capacity q" and "0 < bq_capacity q"
  shows "fst (push x q) \<and> bq_queue (snd (push x q)) = last_n (bq_capacity q) (bq_queue q @ [x]) \<and>
    bq_capacity (snd (push x q)) = bq_capacity q \<and> \<not> bq_shutdown (snd (push x q))"
proof (cases "length (bq_queue q) = bq_capacity q")
  case True
  with assms show ?thesis
    by (auto simp: push_def Let_def last_n_snoc_full)
       (metis length_0_conv less_nat_zero_code tl_append2)
next
  case False
  with assms show ?thesis by (auto simp: push_def Let_def)
qed

lemma push_accepted [simp]: "fst (push x q) \<longleftrightarrow> \<not> bq_shutdown q"
  by (simp add: push_def Let_def)

lemma push_shutdown_flag [simp]: "bq_shutdown (snd (push x q)) = bq_shutdown q"
  by (simp add: push_def Let_def)

lemma push_popped [simp]: "popped (bq_stats (snd (push x q))) = popped (bq_stats q)"
  by (simp add: push_def Let_def)

lemma push_all_popped [simp]: "popped (bq_stats (push_all xs q)) = popped (bq_stats q)"
  by (induction xs arbitrary: q) simp_all

lemma push_all_shutdown_flag [simp]: "bq_shutdown (push_all xs q) = bq_shutdown q"
  by (induction xs arbitrary: q) simp_all

lemma queue_run_push:
  "queue_run q es q' \<Longrightarrow> \<not> bq_shutdown q' \<Longrightarrow> queue_run q (es @ [Pushed x True]) (snd (push x q'))"
  by (rule run_snoc [OF _ step_push]) (simp_all add: prod_eq_iff)

lemma queue_run_pop:
  "queue_run q es q' \<Longrightarrow> bq_queue q' = x # xs \<Longrightarrow>
    queue_run q (es @ [Popped (Some x)]) (snd (take_front q'))"
  by (rule run_snoc [OF _ step_pop], assumption)
     (simp add: pop_def available_def take_front_def split: list.split)

lemma push_keeps_inv: "queue_inv q \<Longrightarrow> queue_inv (snd (push x q))"
  by (auto simp: queue_inv_def push_def Let_def)

lemma take_front_keeps_inv: "queue_inv q \<Longrightarrow> queue_inv (snd (take_front q))"
  by (auto simp: queue_inv_def take_front_def split: list.splits)

lemma discard_all_keeps_inv: "queue_inv q \<Longrightarrow> queue_inv (snd (discard_all q))"
  by (auto simp: queue_inv_def discard_all_def)

lemma reset_inv: "queue_inv q \<Longrightarrow> queue_inv (reset q)"
  by (simp add: queue_inv_def reset_def zero_stats_def)

lemma shutdown_keeps_inv: "queue_inv q \<Longrightarrow> queue_inv (shutdown q)"
  by (simp add: queue_inv_def shutdown_def)

lemma new_queue_inv: "new_queue n = Inr q \<Longrightarrow> queue_inv q"
  by (auto simp: new_queue_def queue_inv_def zero_stats_def split: if_splits)

lemmas queue_inv_intros =
  push_keeps_inv take_front_keeps_inv discard_all_keeps_inv reset_inv shutdown_keeps_inv

lemma queue_step_inv: "queue_step q e q' \<Longrightarrow> queue_inv q \<Longrightarrow> queue_inv q'"
  using queue_inv_intros [of q]
  by (erule_tac queue_stepE) (auto simp: pop_def pop_for_def split: if_splits, (metis snd_conv)+)

lemma queue_run_inv: "queue_run q es q' \<Longrightarrow> queue_inv q \<Longrightarrow> queue_inv q'"
  by (induction rule: queue_run.induct) (auto intro: queue_step_inv)

lemma queue_step_capacity: "queue_step q e q' \<Longrightarrow> bq_capacity q' = bq_capacity q"
  by (erule queue_stepE)
     (auto simp: skai_defs Let_def split: if_splits list.splits)

lemma queue_run_capacity: "queue_run q es q' \<Longrightarrow> bq_capacity q' = bq_capacity q"
  by (induction rule: queue_run.induct) (simp_all add: queue_step_capacity)

section \<open>The drop-oldest contract\<close>

text \<open>While it is not shut down, a \<^verbatim>\<open>BoundedQueue\<close> is a drop-oldest buffer.\<close>

interpretation bq: drop_oldest_buffer
  "\<lambda>x q. snd (push x q)" bq_queue bq_capacity "\<lambda>q. queue_inv q \<and> \<not> bq_shutdown q"
proof (unfold_locales, goal_cases)
  case (1 q x)
  then show ?case using push_open_queue [of q x] by (auto simp: queue_inv_def)
next
  case (2 q x)
  then show ?case using push_open_queue [of q x] by (auto simp: queue_inv_def)
next
  case (3 q x)
  then show ?case
    using push_open_queue [of q x] push_keeps_inv [of q x] by (simp add: queue_inv_def [of q])
next
  case (4 q)
  then show ?case by (auto simp: queue_inv_def)
qed

section \<open>Order of delivery\<close>

lemma take_front_order:
  "take_front q = (r, q') \<Longrightarrow> bq_queue q = (case r of None \<Rightarrow> [] | Some x \<Rightarrow> [x]) @ bq_queue q'"
  by (auto simp: take_front_def split: list.splits)

lemma subseq_drop_middle: "subseq (xs @ ys) zs \<Longrightarrow> suffix vs ys \<Longrightarrow> subseq (xs @ vs) zs"
proof -
  assume zs: "subseq (xs @ ys) zs" and "suffix vs ys"
  then have "subseq vs ys" by (auto elim!: suffixE)
  then have "subseq (xs @ vs) (xs @ ys)" by (rule list_emb_append_mono [OF subseq_order.order_refl])
  with zs show ?thesis by (rule subseq_order.order_trans [rotated])
qed

lemma push_order:
  "push x q = (ok, q') \<Longrightarrow> (ok \<longrightarrow> suffix (bq_queue q') (bq_queue q @ [x])) \<and> (\<not> ok \<longrightarrow> q' = q)"
  using suffix_tl [of "bq_queue q @ [x]"] by (auto simp: push_def Let_def split: if_splits)

lemma queue_step_order:
  assumes "queue_step q e q'" and "subseq (ds @ bq_queue q) as"
  shows "subseq ((ds @ delivered1 e) @ bq_queue q') (as @ accepted1 e)"
  using assms(1)
proof cases
  case (step_push x ok)
  show ?thesis
  proof (cases ok)
    case True
    have "subseq (ds @ bq_queue q @ [x]) (as @ [x])"
      using list_emb_append_mono [OF assms(2), of "[x]" "[x]"] by simp
    moreover have "suffix (bq_queue q') (bq_queue q @ [x])"
      using push_order [OF step_push(2)] True by simp
    ultimately have "subseq (ds @ bq_queue q') (as @ [x])"
      by (rule subseq_drop_middle)
    then show ?thesis
      using True step_push(1) by simp
  next
    case False
    then show ?thesis
      using push_order [OF step_push(2)] step_push(1) assms(2) by simp
  qed
next
  case (step_pop r)
  then show ?thesis
    using assms(2) take_front_order [of q r q']
    by (auto simp: pop_def split: if_splits option.splits)
next
  case (step_pop_for r)
  then show ?thesis
    using assms(2) take_front_order [of q r q']
    by (auto simp: pop_for_def split: if_splits option.splits)
next
  case step_discard
  then show ?thesis
    using assms(2) by (auto simp: discard_all_def intro: subseq_drop_middle [where vs = "[]", simplified])
next
  case step_reset
  then show ?thesis
    using assms(2) by (auto simp: reset_def intro: subseq_drop_middle [where vs = "[]", simplified])
qed (use assms(2) in \<open>simp add: shutdown_def\<close>)

lemma queue_run_order:
  "queue_run q es q' \<Longrightarrow> bq_queue q = [] \<Longrightarrow> subseq (delivered es @ bq_queue q') (accepted es)"
proof (induction rule: queue_run.induct)
  case (run_snoc q es q' e q'')
  then show ?case using queue_step_order [of q' e q''] by simp
qed simp

section \<open>Draining after shutdown\<close>

lemma pop_times_drain:
  "bq_shutdown q \<Longrightarrow> \<exists>q'. pop_times (length (bq_queue q)) q = Some (map Some (bq_queue q), q') \<and>
     bq_queue q' = [] \<and> bq_shutdown q'"
proof (induction "bq_queue q" arbitrary: q)
  case Nil
  then show ?case by (cases q) auto
next
  case (Cons x xs)
  let ?q = "q\<lparr>bq_queue := xs, bq_stats := (bq_stats q)\<lparr>popped := popped (bq_stats q) + 1\<rparr>\<rparr>"
  have pop: "pop q = Some (Some x, ?q)"
    using Cons.prems Cons.hyps(2) by (simp add: pop_def available_def take_front_def flip: Cons.hyps(2))
  obtain q' where "pop_times (length xs) ?q = Some (map Some xs, q')" "bq_queue q' = []" "bq_shutdown q'"
    using Cons.hyps(1) [of ?q] Cons.prems by auto
  then show ?case
    by (simp add: pop flip: Cons.hyps(2))
qed

section \<open>What the queue guarantees its clients\<close>

text \<open>In every execution, under any interleaving of producers and consumers, a queue built with
  capacity \<open>n\<close> never holds more than \<open>n\<close> values, its high-water mark never
  exceeds \<open>n\<close>, and the counters account for every accepted value: as 64-bit values, pushed
  equals popped plus dropped plus discarded plus what is buffered.\<close>

theorem queue_reachable_invariant:
  assumes "new_queue n = Inr q0" and "queue_run q0 es q"
  shows "length (bq_queue q) \<le> n \<and> high_water_mark (bq_stats q) \<le> n \<and>
    pushed (bq_stats q) = popped (bq_stats q) + dropped (bq_stats q) + discarded (bq_stats q) +
      of_nat (length (bq_queue q))"
proof -
  have "queue_inv q"
    using assms by (blast intro: queue_run_inv new_queue_inv)
  moreover have "bq_capacity q = n"
    using assms queue_run_capacity [OF assms(2)] by (auto simp: new_queue_def split: if_splits)
  ultimately show ?thesis
    by (auto simp: queue_inv_def)
qed

theorem queue_reachable_invariant_witness:
  "let q0 = \<lparr>bq_capacity = 1, bq_queue = [], bq_stats = zero_stats, bq_shutdown = False\<rparr>;
       q = snd (push (8::nat) (snd (push 7 q0)))
   in new_queue 1 = Inr q0 \<and> bq_queue q = [8] \<and> length (bq_queue q) \<le> 1 \<and>
      pushed (bq_stats q) = 2"
proof -
  let ?q0 = "\<lparr>bq_capacity = 1, bq_queue = [], bq_stats = zero_stats, bq_shutdown = False\<rparr>"
  have new: "new_queue 1 = Inr ?q0" by (simp add: new_queue_def)
  have run: "queue_run ?q0 (([] @ [Pushed 7 True]) @ [Pushed 8 True]) (snd (push 8 (snd (push 7 ?q0))))"
    by (intro queue_run_push run_nil) simp_all
  from queue_reachable_invariant [OF new run] new show ?thesis
    by (simp add: push_def zero_stats_def)
qed

text \<open>Delivery is first-in first-out without duplication: in every execution, the values handed
  out, followed by the values still buffered, form a subsequence of the values accepted.  A value is
  lost only by being dropped, discarded or reset, never reordered and never delivered twice.\<close>

theorem queue_fifo:
  assumes "new_queue n = Inr q0" and "queue_run q0 es q"
  shows "subseq (delivered es @ bq_queue q) (accepted es)"
  using queue_run_order [OF assms(2)] assms(1) by (auto simp: new_queue_def split: if_splits)

theorem queue_fifo_witness:
  "let q0 = \<lparr>bq_capacity = 2, bq_queue = [], bq_stats = zero_stats, bq_shutdown = False\<rparr>;
       q1 = snd (push 8 (snd (push (7::nat) q0)))
   in subseq ([7] @ bq_queue (snd (take_front q1))) [7, 8] \<and> bq_queue (snd (take_front q1)) = [8]"
proof -
  let ?q0 = "\<lparr>bq_capacity = 2, bq_queue = [], bq_stats = zero_stats, bq_shutdown = False\<rparr>"
  let ?q1 = "snd (push 8 (snd (push 7 ?q0)))"
  have new: "new_queue 2 = Inr ?q0" by (simp add: new_queue_def)
  have run: "queue_run ?q0 ((([] @ [Pushed 7 True]) @ [Pushed 8 True]) @ [Popped (Some 7)])
      (snd (take_front ?q1))"
  proof (rule queue_run_pop [where xs = "[8]"])
    show "queue_run ?q0 (([] @ [Pushed 7 True]) @ [Pushed 8 True]) ?q1"
      by (intro queue_run_push run_nil) simp_all
    show "bq_queue ?q1 = 7 # [8]" by (simp add: push_def)
  qed
  have rest: "bq_queue (snd (take_front ?q1)) = [8]" by (simp add: push_def take_front_def)
  from queue_fifo [OF new run] show ?thesis
    unfolding Let_def rest by simp
qed

text \<open>Overload policy: pushing any sequence onto a queue that is not shut down always succeeds and
  leaves exactly the newest \<open>capacity\<close> values of what was buffered followed by what was
  pushed; the oldest ones are the ones lost.\<close>

theorem queue_keeps_newest:
  assumes "queue_inv q" and "\<not> bq_shutdown q"
  shows "bq_queue (fold (\<lambda>x q. snd (push x q)) xs q) = last_n (bq_capacity q) (bq_queue q @ xs) \<and>
    fst (push x (fold (\<lambda>x q. snd (push x q)) xs q))"
proof -
  let ?q = "fold (\<lambda>x q. snd (push x q)) xs q"
  from bq.fold_push [of q xs] assms
  have "queue_inv ?q" "\<not> bq_shutdown ?q" "bq_queue ?q = last_n (bq_capacity q) (bq_queue q @ xs)"
    by simp_all
  then show ?thesis by simp
qed

theorem queue_keeps_newest_witness:
  "bq_queue (fold (\<lambda>x q. snd (push x q)) [1, 2, 3]
     \<lparr>bq_capacity = 2, bq_queue = [], bq_stats = zero_stats, bq_shutdown = False\<rparr>) = [2, 3::nat]"
proof -
  let ?q = "\<lparr>bq_capacity = 2, bq_queue = [] :: nat list, bq_stats = zero_stats, bq_shutdown = False\<rparr>"
  have "queue_inv ?q" "\<not> bq_shutdown ?q" by (simp_all add: queue_inv_def zero_stats_def)
  from queue_keeps_newest [OF this, of "[1, 2, 3]" 0] show ?thesis by (simp add: last_n_def)
qed

text \<open>Shutdown neither loses buffered values nor blocks a consumer: from a shut-down queue,
  \<^verbatim>\<open>pop\<close> returns each buffered value in order, and after that every
  \<^verbatim>\<open>pop\<close> returns at once with an empty optional; new values are rejected.\<close>

theorem queue_shutdown_drains:
  fixes q :: "'a bounded_queue"
  shows "\<exists>q'. pop_times (length (bq_queue q)) (shutdown q) = Some (map Some (bq_queue q), q') \<and>
    pop q' = Some (None, q') \<and> (\<forall>x. push x (shutdown q) = (False, shutdown q))"
proof -
  obtain q' where "pop_times (length (bq_queue q)) (shutdown q) = Some (map Some (bq_queue q), q')"
    "bq_queue q' = []" "bq_shutdown q'"
    using pop_times_drain [of "shutdown q"] by (auto simp: shutdown_def)
  then show ?thesis
    by (intro exI [of _ q']) (simp add: pop_def available_def take_front_def push_def shutdown_def)
qed

end
