(* ===== verification/Json_Text.thy ===== *)
theory Json_Text
  imports Skai_Prelude
begin

text \<open>
  The JSON string encoders of the program.  \<^verbatim>\<open>json_string\<close> is the function that
  \<^verbatim>\<open>src/events.cpp\<close>, \<^verbatim>\<open>src/web/router.cpp\<close> and
  \<^verbatim>\<open>src/alerts/alert_manager.cpp\<close> each define with the same body;
  \<open>recording_json_string\<close> is the variant of \<^verbatim>\<open>src/video/recording.cpp\<close> and
  \<open>append_string\<close> the one of \<^verbatim>\<open>src/webrtc/detection_sei.cpp\<close>.  A reference
  decoder \<open>json_unquote\<close> for JSON string literals says what a browser reads back.
\<close>

definition byte :: "char \<Rightarrow> nat" where
  "byte c = of_char c"

fun json_chars :: "string \<Rightarrow> string" where
  "json_chars [] = []"
| "json_chars (c # s) =
     (if c = CHR 0x22 \<or> c = CHR 0x5C then [CHR 0x5C, c]
      else if c = CHR 0x0A then [CHR 0x5C, CHR ''n'']
      else if c = CHR 0x0D then [CHR 0x5C, CHR ''r'']
      else if c = CHR 0x09 then [CHR 0x5C, CHR ''t'']
      else if byte c \<ge> 32 then [c] else []) @ json_chars s"

definition json_string :: "string \<Rightarrow> string" where
  "json_string value = [CHR 0x22] @ json_chars value @ [CHR 0x22]"

definition json_bool :: "bool \<Rightarrow> string" where
  "json_bool value = (if value then ''true'' else ''false'')"

fun recording_json_chars :: "string \<Rightarrow> string" where
  "recording_json_chars [] = []"
| "recording_json_chars (c # s) =
     (if c = CHR 0x22 \<or> c = CHR 0x5C then [CHR 0x5C, c]
      else if byte c \<ge> 32 then [c] else []) @ recording_json_chars s"

definition recording_json_string :: "string \<Rightarrow> string" where
  "recording_json_string value = [CHR 0x22] @ recording_json_chars value @ [CHR 0x22]"

definition hex_digit :: "nat \<Rightarrow> char" where
  "hex_digit d = (if d < 10 then char_of (48 + d) else char_of (87 + d))"

text \<open>\<^verbatim>\<open>snprintf("\u%04x", c)\<close> for a byte below 32.\<close>

definition u_escape :: "char \<Rightarrow> string" where
  "u_escape c = [CHR 0x5C, CHR ''u'', CHR ''0'', CHR ''0'',
                 hex_digit (byte c div 16), hex_digit (byte c mod 16)]"

fun sei_json_chars :: "string \<Rightarrow> string" where
  "sei_json_chars [] = []"
| "sei_json_chars (c # s) =
     (if c = CHR 0x22 \<or> c = CHR 0x5C then [CHR 0x5C, c]
      else if byte c < 32 then u_escape c
      else [c]) @ sei_json_chars s"

definition append_string :: "string \<Rightarrow> string \<Rightarrow> string" where
  "append_string out value = out @ [CHR 0x22] @ sei_json_chars value @ [CHR 0x22]"

section \<open>Reference decoder\<close>

definition hex_value :: "char \<Rightarrow> nat option" where
  "hex_value c =
     (let b = byte c in
      if 48 \<le> b \<and> b \<le> 57 then Some (b - 48)
      else if 97 \<le> b \<and> b \<le> 102 then Some (b - 87)
      else if 65 \<le> b \<and> b \<le> 70 then Some (b - 55) else None)"

text \<open>
  Decodes the rest of a JSON string literal up to its closing quote and returns the decoded bytes
  and what follows.  Escapes of code points below 256 with a zero high byte, and the two-character
  escapes for quote, backslash, newline, carriage return and tab, are understood; a raw control
  byte is an error, as in RFC 8259.
\<close>

fun json_unquote :: "string \<Rightarrow> (string \<times> string) option" where
  "json_unquote [] = None"
| "json_unquote (c # s) =
     (if c = CHR 0x22 then Some ([], s)
      else if c = CHR 0x5C then
        (case s of
           [] \<Rightarrow> None
         | e # s1 \<Rightarrow>
             if e = CHR 0x22 \<or> e = CHR 0x5C then
               map_option (\<lambda>(r, t). (e # r, t)) (json_unquote s1)
             else if e = CHR ''n'' then map_option (\<lambda>(r, t). (CHR 0x0A # r, t)) (json_unquote s1)
             else if e = CHR ''r'' then map_option (\<lambda>(r, t). (CHR 0x0D # r, t)) (json_unquote s1)
             else if e = CHR ''t'' then map_option (\<lambda>(r, t). (CHR 0x09 # r, t)) (json_unquote s1)
             else if e = CHR ''u'' then
               (case s1 of
                  z1 # z2 # h # l # s2 \<Rightarrow>
                    (if z1 = CHR ''0'' \<and> z2 = CHR ''0'' then
                       (case (hex_value h, hex_value l) of
                          (Some a, Some b) \<Rightarrow>
                            map_option (\<lambda>(r, t). (char_of (16 * a + b) # r, t)) (json_unquote s2)
                        | _ \<Rightarrow> None)
                     else None)
                | _ \<Rightarrow> None)
             else None)
      else if byte c < 32 then None
      else map_option (\<lambda>(r, t). (c # r, t)) (json_unquote s))"

declare json_unquote.simps(2) [simp del]

lemmas json_unquote_Cons = json_unquote.simps(2)

text \<open>The bytes \<^verbatim>\<open>json_string\<close> keeps.\<close>

definition kept_byte :: "char \<Rightarrow> bool" where
  "kept_byte c \<longleftrightarrow> byte c \<ge> 32 \<or> c = CHR 0x0A \<or> c = CHR 0x0D \<or> c = CHR 0x09"

lemma hex_value_hex_digit: "d < 16 \<Longrightarrow> hex_value (hex_digit d) = Some d"
  by (auto simp: hex_value_def hex_digit_def byte_def Let_def)

lemma char_of_byte: "byte c = n \<Longrightarrow> char_of n = c"
  by (auto simp: byte_def)

lemma json_unquote_json_chars:
  "json_unquote (json_chars s @ CHR 0x22 # rest) = Some (filter kept_byte s, rest)"
proof (induction s)
  case Nil
  then show ?case by (simp add: json_unquote_Cons)
next
  case (Cons c s)
  consider "c = CHR 0x22 \<or> c = CHR 0x5C" | "c = CHR 0x0A" | "c = CHR 0x0D" | "c = CHR 0x09"
    | "c \<notin> {CHR 0x22, CHR 0x5C, CHR 0x0A, CHR 0x0D, CHR 0x09}" by blast
  then show ?case
    by cases (use Cons.IH in \<open>auto simp: json_unquote_Cons kept_byte_def byte_def\<close>)
qed

lemma u_escape_unquote:
  "byte c < 32 \<Longrightarrow>
    json_unquote (u_escape c @ s) = map_option (\<lambda>(r, t). (c # r, t)) (json_unquote s)"
  by (simp add: u_escape_def json_unquote_Cons hex_value_hex_digit char_of_byte)

lemma json_unquote_sei_json_chars:
  "json_unquote (sei_json_chars s @ CHR 0x22 # rest) = Some (s, rest)"
proof (induction s)
  case Nil
  then show ?case by (simp add: json_unquote_Cons)
next
  case (Cons c s)
  then show ?case
    by (auto simp: u_escape_unquote json_unquote_Cons [of c] json_unquote_Cons [of "CHR 0x5C"])
qed

text \<open>Whatever bytes an error message, path or class name contains, the JSON string literal the
  program writes for it is well formed: a JSON reader consumes exactly that literal and reads the
  value back, less the control bytes other than newline, carriage return and tab, which the encoder
  drops.\<close>

theorem json_string_read_back:
  "\<exists>body. json_string value @ rest = CHR 0x22 # body \<and>
     json_unquote body = Some (filter kept_byte value, rest)"
  by (simp add: json_string_def json_unquote_json_chars)

text \<open>The SEI encoder loses nothing: a JSON reader gets back exactly the class name, whatever bytes
  it holds, from the literal that is appended, and goes on with the text after it.\<close>

theorem append_string_read_back:
  "\<exists>body. append_string out value @ rest = out @ CHR 0x22 # body \<and>
     json_unquote body = Some (value, rest)"
  by (simp add: append_string_def json_unquote_sei_json_chars)

end
