(* ===== verification/Event_Channel.thy ===== *)
theory Event_Channel
  imports Json_Text
begin

text \<open>
  \<^verbatim>\<open>include/skai/events.hpp\<close> and \<^verbatim>\<open>src/events.cpp\<close>: the event
  channel that alerts, detections and errors are published on, the bounded event queue, and the
  per-client inbox between publishing threads and the WebSocket event loop.  The clock is an
  argument: \<open>utc\<close> is the text \<^verbatim>\<open>put_time\<close> writes for the broken-down
  UTC time and \<open>now_ms\<close> the milliseconds since the epoch.  A subscriber is an opaque
  callback; publishing returns the calls the code makes.
\<close>

datatype event_type = Status | Detection_event | Gps_event | Alert | Recording_event | SystemError

fun event_type_name :: "event_type \<Rightarrow> string" where
  "event_type_name Status = ''status''"
| "event_type_name Detection_event = ''detection''"
| "event_type_name Gps_event = ''gps''"
| "event_type_name Alert = ''alert''"
| "event_type_name Recording_event = ''recording''"
| "event_type_name SystemError = ''system_error''"

text \<open>\<^verbatim>\<open>setfill('0') << setw(3)\<close>.\<close>

definition pad3 :: "nat \<Rightarrow> string" where
  "pad3 n = replicate (3 - length (to_string n)) (CHR ''0'') @ to_string n"

definition timestamp :: "string \<Rightarrow> nat \<Rightarrow> string" where
  "timestamp utc now_ms = utc @ ''.'' @ pad3 (now_ms mod 1000) @ ''Z''"

definition make_event_json :: "string \<Rightarrow> nat \<Rightarrow> event_type \<Rightarrow> string \<Rightarrow> string" where
  "make_event_json utc now_ms type data_json =
     ''{'' @ json_string ''type'' @ '':'' @ [CHR 0x22] @ event_type_name type @ [CHR 0x22] @
     '','' @ json_string ''timestamp'' @ '':'' @ [CHR 0x22] @ timestamp utc now_ms @ [CHR 0x22] @
     '','' @ json_string ''data'' @ '':'' @ data_json @ ''}'' @ [CHR 0x0A]"

definition make_system_error_data :: "string \<Rightarrow> string \<Rightarrow> string" where
  "make_system_error_data module message =
     ''{'' @ json_string ''module'' @ '':'' @ json_string module @ '','' @
     json_string ''message'' @ '':'' @ json_string message @ ''}''"

section \<open>EventChannel\<close>

text \<open>The \<^verbatim>\<open>unordered_map\<close> of subscribers is an association list in an order the
  program does not control.\<close>

record 's event_channel =
  next_id :: u64
  subscribers :: "(u64 \<times> 's) list"
  recent_errors :: "string list"

definition new_channel :: "'s event_channel" where
  "new_channel = \<lparr>next_id = 1, subscribers = [], recent_errors = []\<rparr>"

definition subscribe :: "'s \<Rightarrow> 's event_channel \<Rightarrow> u64 \<times> 's event_channel" where
  "subscribe subscriber c =
     (let i = next_id c in
      (i, c\<lparr>next_id := i + 1,
            subscribers := (if i \<in> fst ` set (subscribers c) then subscribers c
                            else (i, subscriber) # subscribers c)\<rparr>))"

definition unsubscribe :: "u64 \<Rightarrow> 's event_channel \<Rightarrow> 's event_channel" where
  "unsubscribe i c = c\<lparr>subscribers := filter (\<lambda>(j, s). j \<noteq> i) (subscribers c)\<rparr>"

definition record_error :: "string \<Rightarrow> 's event_channel \<Rightarrow> 's event_channel" where
  "record_error event c =
     (let errors = (if length (recent_errors c) = 10 then tl (recent_errors c) else recent_errors c)
      in c\<lparr>recent_errors := errors @ [event]\<rparr>)"

definition publish ::
    "string \<Rightarrow> nat \<Rightarrow> event_type \<Rightarrow> string \<Rightarrow> 's event_channel \<Rightarrow> ('s \<times> string) list \<times> 's event_channel" where
  "publish utc now_ms type data_json c =
     (let event = make_event_json utc now_ms type data_json;
          c' = (if type = SystemError then record_error event c else c)
      in (map (\<lambda>(i, s). (s, event)) (subscribers c'), c'))"

text \<open>Registered ids are distinct and were handed out before.\<close>

definition channel_inv :: "'s event_channel \<Rightarrow> bool" where
  "channel_inv c \<longleftrightarrow>
     distinct (map fst (subscribers c)) \<and> (\<forall>i \<in> fst ` set (subscribers c). i < next_id c) \<and>
     length (recent_errors c) \<le> 10"

section \<open>EventQueue and EventInbox\<close>

record event_queue =
  eq_capacity :: nat
  eq_dropped :: u64
  eq_events :: "string list"

definition new_event_queue :: "nat \<Rightarrow> event_queue result" where
  "new_event_queue capacity =
     (if capacity = 0 then Inl ''event queue capacity must be positive''
      else Inr \<lparr>eq_capacity = capacity, eq_dropped = 0, eq_events = []\<rparr>)"

definition eq_push :: "string \<Rightarrow> event_queue \<Rightarrow> event_queue" where
  "eq_push event q =
     (let q1 = (if length (eq_events q) = eq_capacity q
                then q\<lparr>eq_events := tl (eq_events q), eq_dropped := eq_dropped q + 1\<rparr> else q)
      in q1\<lparr>eq_events := eq_events q1 @ [event]\<rparr>)"

definition eq_pop :: "event_queue \<Rightarrow> string option \<times> event_queue" where
  "eq_pop q = (case eq_events q of [] \<Rightarrow> (None, q) | e # es \<Rightarrow> (Some e, q\<lparr>eq_events := es\<rparr>))"

record event_inbox =
  in_events :: event_queue
  drain_scheduled :: bool

definition new_inbox :: "nat \<Rightarrow> event_inbox result" where
  "new_inbox capacity =
     map_sum id (\<lambda>q. \<lparr>in_events = q, drain_scheduled = False\<rparr>) (new_event_queue capacity)"

text \<open>The result says whether the caller must schedule a drain on the event loop.\<close>

definition inbox_push :: "string \<Rightarrow> event_inbox \<Rightarrow> bool \<times> event_inbox" where
  "inbox_push event b =
     (let b1 = b\<lparr>in_events := eq_push event (in_events b)\<rparr> in
      if drain_scheduled b1 then (False, b1) else (True, b1\<lparr>drain_scheduled := True\<rparr>))"

function drain_loop :: "event_queue \<Rightarrow> string list \<Rightarrow> string list \<times> event_queue" where
  "drain_loop q acc =
     (case eq_pop q of
        (None, q') \<Rightarrow> (acc, q')
      | (Some e, q') \<Rightarrow> drain_loop q' (acc @ [e]))"
  by pat_completeness auto
termination
  by (relation "measure (\<lambda>(q, acc). length (eq_events q))") (auto simp: eq_pop_def split: list.splits)

declare drain_loop.simps [simp del]

definition drain :: "event_inbox \<Rightarrow> string list \<times> event_inbox" where
  "drain b =
     (let (result, q) = drain_loop (in_events b) []
      in (result, b\<lparr>in_events := q, drain_scheduled := False\<rparr>))"

definition inbox_dropped :: "event_inbox \<Rightarrow> u64" where
  "inbox_dropped b = eq_dropped (in_events b)"

definition event_queue_inv :: "event_queue \<Rightarrow> bool" where
  "event_queue_inv q \<longleftrightarrow> 0 < eq_capacity q \<and> length (eq_events q) \<le> eq_capacity q"

text \<open>
  An execution of an inbox: publishing threads push, and the event loop runs a drain only when one
  has been scheduled (\<open>jobs\<close> counts the drains posted and not yet run).
\<close>

inductive inbox_reach :: "nat \<Rightarrow> event_inbox \<Rightarrow> nat \<Rightarrow> string list \<Rightarrow> string list \<Rightarrow> bool" for cap where
  inbox_start: "new_inbox cap = Inr b \<Longrightarrow> inbox_reach cap b 0 [] []"
| inbox_pushed: "inbox_reach cap b jobs sent got \<Longrightarrow> inbox_push e b = (schedule, b') \<Longrightarrow>
    inbox_reach cap b' (if schedule then Suc jobs else jobs) (sent @ [e]) got"
| inbox_drained: "inbox_reach cap b (Suc jobs) sent got \<Longrightarrow> drain b = (es, b') \<Longrightarrow>
    inbox_reach cap b' jobs sent (got @ es)"

lemmas event_defs [skai_defs] =
  subscribe_def unsubscribe_def publish_def record_error_def eq_push_def eq_pop_def
  inbox_push_def drain_def

section \<open>Lemmas\<close>

lemma eq_push_events:
  "event_queue_inv q \<Longrightarrow> eq_events (eq_push e q) = last_n (eq_capacity q) (eq_events q @ [e])"
  by (auto simp: eq_push_def event_queue_inv_def last_n_snoc_full)

lemma eq_push_inv: "event_queue_inv q \<Longrightarrow> event_queue_inv (eq_push e q)"
  by (auto simp: eq_push_def event_queue_inv_def Let_def)

interpretation eq: drop_oldest_buffer eq_push eq_events eq_capacity event_queue_inv
proof
  fix q x
  assume q: "event_queue_inv q"
  show "eq_events (eq_push x q) = last_n (eq_capacity q) (eq_events q @ [x])"
    by (rule eq_push_events [OF q])
  show "eq_capacity (eq_push x q) = eq_capacity q" by (simp add: eq_push_def Let_def)
  show "event_queue_inv (eq_push x q)" by (rule eq_push_inv [OF q])
  show "length (eq_events q) \<le> eq_capacity q" using q by (simp add: event_queue_inv_def)
qed

text \<open>The ten most recent errors are a drop-oldest buffer too.\<close>

interpretation errors: drop_oldest_buffer
  record_error recent_errors "\<lambda>_. 10" "\<lambda>c. length (recent_errors c) \<le> 10"
  by unfold_locales (auto simp: record_error_def Let_def last_n_snoc_full)

lemma drain_loop_eq: "drain_loop q acc = (acc @ eq_events q, q\<lparr>eq_events := []\<rparr>)"
proof (induction q acc rule: drain_loop.induct)
  case (1 q acc)
  then show ?case
    by (subst drain_loop.simps) (auto simp: eq_pop_def split: list.splits)
qed

lemma drain_eq:
  "drain b = (eq_events (in_events b),
     b\<lparr>in_events := (in_events b)\<lparr>eq_events := []\<rparr>, drain_scheduled := False\<rparr>)"
  by (simp add: drain_def drain_loop_eq)

lemma subscribe_inv:
  "channel_inv c \<Longrightarrow> next_id c \<noteq> - 1 \<Longrightarrow> channel_inv (snd (subscribe s c))"
  by (force simp: channel_inv_def subscribe_def Let_def intro: word_less_succ less_imp_le)

lemma unsubscribe_inv: "channel_inv c \<Longrightarrow> channel_inv (unsubscribe i c)"
  by (auto simp: channel_inv_def unsubscribe_def distinct_map inj_on_def)

lemma publish_inv: "channel_inv c \<Longrightarrow> channel_inv (snd (publish utc ms ty d c))"
  by (auto simp: channel_inv_def publish_def record_error_def Let_def)

lemma fresh_id: "channel_inv c \<Longrightarrow> next_id c \<notin> fst ` set (subscribers c)"
  by (auto simp: channel_inv_def)

lemma unsubscribe_unknown: "i \<notin> fst ` set (subscribers c) \<Longrightarrow> unsubscribe i c = c"
proof -
  assume "i \<notin> fst ` set (subscribers c)"
  then have "filter (\<lambda>(j, s). j \<noteq> i) (subscribers c) = subscribers c"
    by (auto simp: filter_id_conv) force
  then show ?thesis by (simp add: unsubscribe_def)
qed

lemma publish_subscribers [simp]: "subscribers (snd (publish utc ms ty d c)) = subscribers c"
  by (simp add: publish_def record_error_def Let_def)

lemma publish_calls:
  "fst (publish utc ms ty d c) = map (\<lambda>(i, s). (s, make_event_json utc ms ty d)) (subscribers c)"
  by (simp add: publish_def record_error_def Let_def)

lemma inbox_push_effect:
  assumes "inbox_push e b = (schedule, b')"
  shows "in_events b' = eq_push e (in_events b) \<and> drain_scheduled b' \<and>
    schedule = (\<not> drain_scheduled b)"
  using assms by (auto simp: inbox_push_def Let_def split: if_splits)

lemma eq_push_dropped:
  "event_queue_inv q \<Longrightarrow>
    eq_dropped (eq_push e q) + of_nat (length (eq_events (eq_push e q))) =
    eq_dropped q + of_nat (length (eq_events q)) + 1"
  by (auto simp: eq_push_def event_queue_inv_def Let_def)

definition inbox_inv :: "nat \<Rightarrow> event_inbox \<Rightarrow> nat \<Rightarrow> string list \<Rightarrow> string list \<Rightarrow> bool" where
  "inbox_inv cap b jobs sent got \<longleftrightarrow>
     event_queue_inv (in_events b) \<and> eq_capacity (in_events b) = cap \<and>
     jobs = (if drain_scheduled b then 1 else 0) \<and>
     (eq_events (in_events b) \<noteq> [] \<longrightarrow> drain_scheduled b) \<and>
     subseq (got @ eq_events (in_events b)) sent \<and>
     of_nat (length sent) =
       of_nat (length got) + of_nat (length (eq_events (in_events b))) + inbox_dropped b"

lemma inbox_push_inv:
  assumes inv: "inbox_inv cap b jobs sent got" and push: "inbox_push e b = (schedule, b')"
  shows "inbox_inv cap b' (if schedule then Suc jobs else jobs) (sent @ [e]) got"
proof -
  note eff = inbox_push_effect [OF push]
  let ?es = "eq_events (in_events b)"
  have q: "event_queue_inv (in_events b)" using inv by (simp add: inbox_inv_def)
  have "subseq ((got @ ?es) @ [e]) (sent @ [e])"
    by (rule list_emb_append_mono) (use inv in \<open>simp_all add: inbox_inv_def\<close>)
  moreover have "subseq (eq_events (in_events b')) (?es @ [e])"
    using suffix_last_n [of cap "?es @ [e]"] eff q inv
    by (simp add: eq_push_events inbox_inv_def suffix_imp_subseq)
  ultimately have "subseq (got @ eq_events (in_events b')) (sent @ [e])"
    by (metis append_assoc list_emb_append_mono subseq_order.order_refl subseq_order.order_trans)
  moreover have "of_nat (length (sent @ [e])) =
      of_nat (length got) + of_nat (length (eq_events (in_events b'))) + inbox_dropped b'"
    using eq_push_dropped [OF q, of e] inv eff by (simp add: inbox_inv_def inbox_dropped_def algebra_simps)
  ultimately show ?thesis
    using eff inv eq_push_inv [OF q] eq.cap_push [OF q, of e] by (simp add: inbox_inv_def)
qed

lemma inbox_drain_inv:
  "inbox_inv cap b (Suc jobs) sent got \<Longrightarrow> drain b = (es, b') \<Longrightarrow> inbox_inv cap b' jobs sent (got @ es)"
  by (auto simp: inbox_inv_def drain_eq event_queue_inv_def inbox_dropped_def split: if_splits)

lemma inbox_reach_inv: "inbox_reach cap b jobs sent got \<Longrightarrow> inbox_inv cap b jobs sent got"
proof (induction rule: inbox_reach.induct)
  case (inbox_start b)
  then show ?case
    by (auto simp: new_inbox_def new_event_queue_def inbox_inv_def event_queue_inv_def
        inbox_dropped_def split: if_splits)
qed (blast intro: inbox_push_inv inbox_drain_inv)+

section \<open>What the event channel guarantees\<close>

text \<open>Subscription: a subscriber added to a channel whose id counter has not wrapped gets a fresh
  id, is called exactly once per published event with that event's JSON, ahead of and without
  disturbing the other subscribers, and after it unsubscribes the calls are those of the channel
  before it joined.\<close>

theorem subscribe_publish_unsubscribe:
  assumes "channel_inv c" and "subscribe s c = (i, c1)"
  shows "i \<notin> fst ` set (subscribers c) \<and>
    fst (publish utc ms ty d c1) = (s, make_event_json utc ms ty d) # fst (publish utc ms ty d c) \<and>
    fst (publish utc ms ty d (unsubscribe i c1)) = fst (publish utc ms ty d c)"
proof -
  have i: "i = next_id c" and c1: "subscribers c1 = (i, s) # subscribers c"
    using assms fresh_id [OF assms(1)] by (auto simp: subscribe_def Let_def)
  have "subscribers (unsubscribe i c1) = subscribers (unsubscribe i c)"
    by (simp add: unsubscribe_def c1)
  also have "\<dots> = subscribers c"
    using fresh_id [OF assms(1)] by (simp add: unsubscribe_unknown i)
  finally show ?thesis
    using fresh_id [OF assms(1)] by (simp add: publish_calls c1 i)
qed

theorem subscribe_publish_unsubscribe_witness:
  "let c1 = snd (subscribe (5::nat) new_channel) in
   fst (publish ''2026-01-01T00:00:00'' 7 Alert ''{}'' c1) =
     [(5, make_event_json ''2026-01-01T00:00:00'' 7 Alert ''{}'')] \<and>
   fst (publish ''2026-01-01T00:00:00'' 7 Alert ''{}'' (unsubscribe 1 c1)) = []"
proof -
  have inv: "channel_inv new_channel" by (simp add: channel_inv_def new_channel_def)
  have sub: "subscribe 5 new_channel = (1, snd (subscribe (5::nat) new_channel))"
    by (simp add: subscribe_def new_channel_def Let_def)
  have none: "fst (publish u m t d new_channel) = []" for u m t d
    by (simp add: publish_calls new_channel_def)
  show ?thesis
    using subscribe_publish_unsubscribe [OF inv sub, of "''2026-01-01T00:00:00''" 7 Alert "''{}''"]
    by (simp add: none Let_def)
qed

text \<open>The diagnostics page sees the ten newest errors: after any sequence of errors is recorded,
  \<^verbatim>\<open>recent_errors\<close> is the last ten of what it held followed by that
  sequence.\<close>

theorem recent_errors_last_ten:
  assumes "channel_inv c"
  shows "recent_errors (fold (\<lambda>d c. snd (publish utc ms SystemError d c)) ds c) =
    last_n 10 (recent_errors c @ map (make_event_json utc ms SystemError) ds)"
proof -
  have "fold (\<lambda>d c. snd (publish utc ms SystemError d c)) ds c =
      fold record_error (map (make_event_json utc ms SystemError) ds) c"
    by (induction ds arbitrary: c) (simp_all add: publish_def Let_def)
  then show ?thesis
    using errors.fold_push [of c] assms by (simp add: channel_inv_def)
qed

theorem recent_errors_last_ten_witness:
  "recent_errors (fold (\<lambda>d c. snd (publish ''t'' 0 SystemError d c)) (replicate 11 ''{}'')
     (new_channel :: nat event_channel)) =
   last_n 10 (replicate 11 (make_event_json ''t'' 0 SystemError ''{}''))"
proof -
  have "channel_inv (new_channel :: nat event_channel)" by (simp add: channel_inv_def new_channel_def)
  from recent_errors_last_ten [OF this, of "''t''" 0 "replicate 11 ''{}''"] show ?thesis
    by (simp add: new_channel_def)
qed

text \<open>An inbox never loses a wake-up and never schedules two: in every interleaving of publishers
  with the event loop, exactly one drain is outstanding when one is marked scheduled and none
  otherwise, undelivered events always have a drain outstanding, the client receives a subsequence
  of what was sent in order, and every event sent was delivered, is waiting, or was counted as
  dropped.\<close>

theorem inbox_no_lost_wakeup:
  assumes "inbox_reach cap b jobs sent got"
  shows "jobs = (if drain_scheduled b then 1 else 0) \<and>
    (eq_events (in_events b) \<noteq> [] \<longrightarrow> jobs = 1) \<and>
    length (eq_events (in_events b)) \<le> cap \<and> subseq (got @ eq_events (in_events b)) sent \<and>
    of_nat (length sent) =
      of_nat (length got) + of_nat (length (eq_events (in_events b))) + inbox_dropped b"
  using inbox_reach_inv [OF assms] by (auto simp: inbox_inv_def event_queue_inv_def)

theorem inbox_no_lost_wakeup_witness:
  "\<exists>b. inbox_reach 1 b 1 [''a'', ''b''] [] \<and> drain_scheduled b \<and> eq_events (in_events b) = [''b''] \<and>
     subseq ([] @ [''b'']) [''a'', ''b''] \<and> inbox_dropped b = 1"
proof -
  let ?q = "\<lparr>eq_capacity = 1, eq_dropped = 0, eq_events = []\<rparr>"
  let ?b0 = "\<lparr>in_events = ?q, drain_scheduled = False\<rparr>"
  let ?b1 = "\<lparr>in_events = ?q\<lparr>eq_events := [''a'']\<rparr>, drain_scheduled = True\<rparr>"
  let ?b2 = "\<lparr>in_events = ?q\<lparr>eq_events := [''b''], eq_dropped := 1\<rparr>, drain_scheduled = True\<rparr>"
  have 0: "inbox_reach 1 ?b0 0 [] []"
    by (rule inbox_start) (simp add: new_inbox_def new_event_queue_def)
  have 1: "inbox_reach 1 ?b1 (if True then Suc 0 else 0) ([] @ [''a'']) []"
    by (rule inbox_pushed [OF 0]) (simp add: inbox_push_def eq_push_def)
  have 2: "inbox_reach 1 ?b2 (if False then Suc 1 else 1) ([''a''] @ [''b'']) []"
    by (rule inbox_pushed [where b = ?b1]) (use 1 in simp, simp add: inbox_push_def eq_push_def)
  show ?thesis
    using 2 inbox_no_lost_wakeup [OF 2] by (intro exI [of _ ?b2]) simp
qed

end
