(* ===== verification/Rtsp_Recovery.thy ===== *)
theory Rtsp_Recovery
  imports Skai_Prelude
begin

text \<open>
  \<^verbatim>\<open>include/skai/video/rtsp_recovery.hpp\<close> and
  \<^verbatim>\<open>include/skai/video/rtsp_metrics.hpp\<close>: the frame-freshness and retry policy of
  the RTSP source and the counter that makes jitter-buffer statistics monotonic.  Durations are in
  nanoseconds, so the millisecond parameters of the constructor are given already converted.
\<close>

datatype source_health = Stopped | Connecting | Connected | Degraded | Stalled | Reconnecting | Error

fun source_health_name :: "source_health \<Rightarrow> string" where
  "source_health_name Stopped = ''stopped''"
| "source_health_name Connecting = ''connecting''"
| "source_health_name Connected = ''connected''"
| "source_health_name Degraded = ''degraded''"
| "source_health_name Stalled = ''stalled''"
| "source_health_name Reconnecting = ''reconnecting''"
| "source_health_name Error = ''error''"

record rtsp_recovery =
  stall_timeout :: duration
  reconnect_delay :: duration
  max_reconnect_delay :: duration
  health :: source_health
  last_frame :: "time_point option"
  degraded_until :: "time_point option"
  next_retry :: time_point
  failure_streak :: u32
  reconnect_count :: u64

definition new_recovery :: "duration \<Rightarrow> duration \<Rightarrow> duration \<Rightarrow> rtsp_recovery" where
  "new_recovery stall delay max_delay =
     \<lparr>stall_timeout = stall, reconnect_delay = delay, max_reconnect_delay = max_delay,
      health = Stopped, last_frame = None, degraded_until = None, next_retry = 0,
      failure_streak = 0, reconnect_count = 0\<rparr>"

text \<open>\<^verbatim>\<open>begin\<close>\<close>

definition begin_recovery :: "rtsp_recovery \<Rightarrow> rtsp_recovery" where
  "begin_recovery r =
     r\<lparr>health := Connecting, last_frame := None, degraded_until := None,
       failure_streak := 0, reconnect_count := 0\<rparr>"

definition frame :: "time_point \<Rightarrow> rtsp_recovery \<Rightarrow> rtsp_recovery" where
  "frame now r =
     r\<lparr>health := (case degraded_until r of
                    Some t \<Rightarrow> if now < t then Degraded else Connected
                  | None \<Rightarrow> Connected),
       last_frame := Some now, failure_streak := 0\<rparr>"

definition packet_loss :: "time_point \<Rightarrow> rtsp_recovery \<Rightarrow> rtsp_recovery" where
  "packet_loss now r =
     (if health r = Connected \<or> health r = Degraded
      then r\<lparr>health := Degraded, degraded_until := Some (now + seconds 1)\<rparr> else r)"

definition check_stall :: "time_point \<Rightarrow> rtsp_recovery \<Rightarrow> bool \<times> rtsp_recovery" where
  "check_stall now r =
     (if (health r = Connected \<or> health r = Degraded) \<and>
         (case last_frame r of None \<Rightarrow> False | Some t \<Rightarrow> now - t \<ge> stall_timeout r)
      then (True, r\<lparr>health := Stalled\<rparr>) else (False, r))"

text \<open>The \<^verbatim>\<open>for\<close> loop of \<^verbatim>\<open>fail\<close>; its counter is a
  32-bit word.\<close>

function backoff_loop :: "u32 \<Rightarrow> u32 \<Rightarrow> duration \<Rightarrow> duration \<Rightarrow> duration" where
  "backoff_loop attempt streak delay max_delay =
     (if attempt < streak then
        let delay' = min (delay * 2) max_delay in
        if delay' \<ge> max_delay then delay'
        else backoff_loop (attempt + 1) streak delay' max_delay
      else delay)"
  by pat_completeness auto
termination
proof (relation "measure (\<lambda>(attempt, streak, delay, max_delay). unat streak - unat attempt)", goal_cases)
  case (2 attempt streak delay max_delay x)
  then have "attempt \<noteq> - 1" using word_order.extremum_strict by blast
  then have "attempt < attempt + 1" by (rule word_less_succ) simp
  with 2 show ?case by (simp add: word_less_nat_alt)
qed simp

declare backoff_loop.simps [simp del]

definition fail :: "time_point \<Rightarrow> rtsp_recovery \<Rightarrow> rtsp_recovery" where
  "fail now r =
     (let streak = failure_streak r + 1;
          delay = backoff_loop 1 streak (reconnect_delay r) (max_reconnect_delay r)
      in r\<lparr>health := Reconnecting, degraded_until := None, failure_streak := streak,
           next_retry := now + min delay (max_reconnect_delay r)\<rparr>)"

definition retry_due :: "time_point \<Rightarrow> rtsp_recovery \<Rightarrow> bool" where
  "retry_due now r \<longleftrightarrow> health r = Reconnecting \<and> now \<ge> next_retry r"

definition retry :: "time_point \<Rightarrow> rtsp_recovery \<Rightarrow> rtsp_recovery" where
  "retry now r =
     (if \<not> retry_due now r then r
      else r\<lparr>health := Connecting, reconnect_count := reconnect_count r + 1\<rparr>)"

text \<open>\<^verbatim>\<open>stop\<close>\<close>

definition stop_recovery :: "rtsp_recovery \<Rightarrow> rtsp_recovery" where
  "stop_recovery r = r\<lparr>health := Stopped\<rparr>"

section \<open>MonotonicCounter\<close>

definition observe :: "u64 \<Rightarrow> u64 \<Rightarrow> u64 \<times> u64" where
  "observe value high_water =
     (if value \<le> high_water then (0, high_water) else (value - high_water, value))"

definition reset_counter :: "u64 \<Rightarrow> u64" where
  "reset_counter high_water = 0"

text \<open>The increments a sequence of readings adds, and the counter after it.\<close>

fun observe_all :: "u64 list \<Rightarrow> u64 \<Rightarrow> u64 \<times> u64" where
  "observe_all [] h = (0, h)"
| "observe_all (v # vs) h =
     (let (d, h') = observe v h; (ds, h'') = observe_all vs h' in (d + ds, h''))"

section \<open>Executions\<close>

datatype recovery_event =
    Begin | Frame time_point | Packet_loss time_point | Check_stall time_point | Fail time_point
  | Retry time_point | Stop

fun recovery_step :: "recovery_event \<Rightarrow> rtsp_recovery \<Rightarrow> rtsp_recovery" where
  "recovery_step Begin r = begin_recovery r"
| "recovery_step (Frame t) r = frame t r"
| "recovery_step (Packet_loss t) r = packet_loss t r"
| "recovery_step (Check_stall t) r = snd (check_stall t r)"
| "recovery_step (Fail t) r = fail t r"
| "recovery_step (Retry t) r = retry t r"
| "recovery_step Stop r = stop_recovery r"

lemmas recovery_defs [skai_defs] =
  begin_recovery_def frame_def packet_loss_def check_stall_def fail_def retry_due_def retry_def
  stop_recovery_def new_recovery_def

section \<open>The back-off\<close>

lemma backoff_loop_value:
  assumes "0 < delay" and "delay \<le> max_delay" and "1 \<le> attempt" and "attempt \<le> streak"
  shows "min (backoff_loop attempt streak delay max_delay) max_delay =
    min (delay * 2 ^ (unat streak - unat attempt)) max_delay"
  using assms
proof (induction attempt streak delay max_delay rule: backoff_loop.induct)
  case (1 attempt streak delay max_delay)
  show ?case
  proof (cases "attempt < streak")
    case False
    with "1.prems" have "attempt = streak" by simp
    then show ?thesis by (simp add: backoff_loop.simps)
  next
    case True
    then have "attempt \<noteq> - 1" using word_order.extremum_strict by blast
    then have less: "attempt < attempt + 1" by (rule word_less_succ) simp
    have suc: "unat (attempt + 1) = Suc (unat attempt)"
      using less by (metis add.commute unatSuc word_not_simps(1))
    have exp: "unat streak - unat attempt = Suc (unat streak - unat (attempt + 1))"
      using True suc by (simp add: word_less_nat_alt)
    show ?thesis
    proof (cases "delay * 2 \<ge> max_delay")
      case big: True
      have "max_delay \<le> delay * 2 ^ (unat streak - unat attempt)"
      proof -
        have "(1::int) \<le> 2 ^ (unat streak - unat (attempt + 1))" by simp
        then have "delay * 2 \<le> (delay * 2) * 2 ^ (unat streak - unat (attempt + 1))"
          using "1.prems"(1) by (simp add: mult_le_cancel_left1)
        with big show ?thesis by (simp add: exp ac_simps)
      qed
      with True big show ?thesis by (simp add: backoff_loop.simps)
    next
      case small: False
      have le: "attempt + 1 \<le> streak"
        using True suc by (simp add: word_less_nat_alt word_le_nat_alt)
      have "min (backoff_loop (attempt + 1) streak (delay * 2) max_delay) max_delay =
          min (delay * 2 * 2 ^ (unat streak - unat (attempt + 1))) max_delay"
        using "1.IH" [OF True refl] "1.prems" small le less by (simp add: min_def)
      then show ?thesis
        using True small by (simp add: backoff_loop.simps [of attempt] exp ac_simps min_def)
    qed
  qed
qed

text \<open>The parameters \<^verbatim>\<open>validate_video\<close> admits.\<close>

definition recovery_params_ok :: "rtsp_recovery \<Rightarrow> bool" where
  "recovery_params_ok r \<longleftrightarrow>
     0 < stall_timeout r \<and> 0 < reconnect_delay r \<and> reconnect_delay r \<le> max_reconnect_delay r"

lemma recovery_step_params [simp]:
  "stall_timeout (recovery_step e r) = stall_timeout r"
  "reconnect_delay (recovery_step e r) = reconnect_delay r"
  "max_reconnect_delay (recovery_step e r) = max_reconnect_delay r"
  by (cases e; simp add: recovery_defs Let_def split: option.split)+

lemma fold_recovery_params [simp]:
  "recovery_params_ok (fold recovery_step es r) = recovery_params_ok r"
  by (induction es arbitrary: r) (simp_all add: recovery_params_ok_def)

text \<open>How many failures an execution has seen since the last frame (or the start).\<close>

fun streak_step :: "recovery_event \<Rightarrow> nat \<Rightarrow> nat" where
  "streak_step (Fail t) n = Suc n"
| "streak_step (Frame t) n = 0"
| "streak_step Begin n = 0"
| "streak_step e n = n"

lemma failure_streak_step:
  "failure_streak r = of_nat n \<Longrightarrow> failure_streak (recovery_step e r) = of_nat (streak_step e n)"
  by (cases e) (simp_all add: recovery_defs Let_def split: option.split)

lemma failure_streak_fold:
  "failure_streak r = of_nat n \<Longrightarrow>
    failure_streak (fold recovery_step es r) = of_nat (fold streak_step es n)"
proof (induction es arbitrary: r n)
  case (Cons e es)
  from Cons.IH [OF failure_streak_step [OF Cons.prems]] show ?case by simp
qed simp

lemma next_retry_fail:
  assumes "recovery_params_ok r" and "failure_streak r \<noteq> - 1"
  shows "next_retry (fail now r) =
    now + min (reconnect_delay r * 2 ^ unat (failure_streak r)) (max_reconnect_delay r)"
proof -
  have "1 + failure_streak r \<noteq> 0"
    using assms(2) by (metis add.commute eq_neg_iff_add_eq_0)
  then have suc: "unat (failure_streak r + 1) = Suc (unat (failure_streak r))"
    by (metis add.commute unatSuc)
  have "1 \<le> failure_streak r + 1" using suc by (simp add: word_le_nat_alt)
  then show ?thesis
    using assms(1) suc backoff_loop_value [of "reconnect_delay r" "max_reconnect_delay r" 1]
    by (simp add: fail_def Let_def recovery_params_ok_def)
qed

text \<open>Between two frames, packet loss and freshness checks never leave the connected states while
  every check comes before the timeout.\<close>

fun quiet_event :: "time_point \<Rightarrow> duration \<Rightarrow> recovery_event \<Rightarrow> bool" where
  "quiet_event t0 timeout (Packet_loss t) = True"
| "quiet_event t0 timeout (Check_stall t) = (t - t0 < timeout)"
| "quiet_event t0 timeout _ = False"

lemma quiet_run:
  assumes "health r \<in> {Connected, Degraded}" and "last_frame r = Some t0"
    and "list_all (quiet_event t0 (stall_timeout r)) es"
  shows "health (fold recovery_step es r) \<in> {Connected, Degraded} \<and>
    last_frame (fold recovery_step es r) = Some t0 \<and>
    stall_timeout (fold recovery_step es r) = stall_timeout r"
  using assms
proof (induction es arbitrary: r)
  case (Cons e es)
  have "health (recovery_step e r) \<in> {Connected, Degraded} \<and> last_frame (recovery_step e r) = Some t0"
    using Cons.prems by (cases e) (auto simp: packet_loss_def check_stall_def)
  with Cons.IH [of "recovery_step e r"] Cons.prems(3) show ?case by simp
qed simp

lemma observe_all_Max: "observe_all vs h = (Max (insert h (set vs)) - h, Max (insert h (set vs)))"
proof (induction vs arbitrary: h)
  case (Cons v vs)
  have "Max (insert h (insert v (set vs))) = Max (insert (max h v) (set vs))"
    by (cases "set vs = {}") (simp_all add: max.assoc Max_insert)
  then show ?case
    using Cons.IH [of h] Cons.IH [of v] by (cases "v \<le> h") (simp_all add: observe_def max_def)
qed simp

section \<open>What the policy guarantees\<close>

text \<open>Exponential back-off over whole executions: whatever happened before, after a failure at time
  \<open>t\<close> the next attempt is scheduled for \<open>t\<close> plus the configured delay doubled once for
  each earlier failure since the last frame, capped by the configured maximum (as long as there are
  fewer than \<open>2^32\<close> failures in a row).\<close>

theorem backoff_doubles:
  assumes "recovery_params_ok r" and "failure_streak r = 0" and "fold streak_step es 0 < 2 ^ 32 - 1"
  shows "next_retry (fold recovery_step (es @ [Fail t]) r) =
    t + min (reconnect_delay r * 2 ^ fold streak_step es 0) (max_reconnect_delay r)"
proof -
  let ?r = "fold recovery_step es r" and ?n = "fold streak_step es 0"
  have streak: "failure_streak ?r = of_nat ?n"
    using failure_streak_fold [of r 0 es] assms(2) by simp
  have unat: "unat (of_nat ?n :: u32) = ?n"
    using assms(3) by (simp add: unat_of_nat)
  have "failure_streak ?r \<noteq> - 1"
  proof
    assume "failure_streak ?r = - 1"
    then have "unat (of_nat ?n :: u32) = unat (- 1 :: u32)" using streak by simp
    moreover have "unat (- 1 :: u32) = 4294967295" by (simp add: unsigned_minus_1_eq_mask mask_eq_exp_minus_1)
    ultimately show False using unat assms(3) by simp
  qed
  with next_retry_fail [of ?r t] assms(1) streak unat
  have "next_retry (fail t ?r) =
      t + min (reconnect_delay ?r * 2 ^ ?n) (max_reconnect_delay ?r)" by simp
  moreover have "reconnect_delay ?r = reconnect_delay r \<and>
      max_reconnect_delay ?r = max_reconnect_delay r"
    by (induction es arbitrary: r) simp_all
  ultimately show ?thesis by simp
qed

theorem backoff_doubles_witness:
  "next_retry (fold recovery_step ([Begin, Fail 5, Retry 9, Fail 10] @ [Fail 20])
     (new_recovery 3000 100 1000)) = 420"
proof -
  have "recovery_params_ok (new_recovery 3000 100 1000)"
    "failure_streak (new_recovery 3000 100 1000) = 0"
    "fold streak_step [Begin, Fail 5, Retry 9, Fail 10] 0 < 2 ^ 32 - 1"
    by (simp_all add: recovery_params_ok_def new_recovery_def)
  from backoff_doubles [OF this, of 20] show ?thesis by (simp add: new_recovery_def)
qed

text \<open>A reconnect attempt starts exactly when it is due: after a failure at \<open>t\<close>, a
  retry at \<open>t'\<close> leaves the state alone before the scheduled time and from then on moves to
  connecting and counts one reconnect; the scheduled time lies between the configured delay and the
  configured maximum after the failure, even if the failure counter wraps.\<close>

theorem retry_exactly_when_due:
  assumes "recovery_params_ok r"
  shows "retry t' (fail t r) =
      (if t' < next_retry (fail t r) then fail t r
       else (fail t r)\<lparr>health := Connecting, reconnect_count := reconnect_count r + 1\<rparr>) \<and>
    t + reconnect_delay r \<le> next_retry (fail t r) \<and>
    next_retry (fail t r) \<le> t + max_reconnect_delay r"
proof -
  have "t + reconnect_delay r \<le> next_retry (fail t r) \<and>
      next_retry (fail t r) \<le> t + max_reconnect_delay r"
  proof (cases "failure_streak r = - 1")
    case True
    then show ?thesis
      using assms by (simp add: fail_def backoff_loop.simps [of 1 0] recovery_params_ok_def)
  next
    case False
    have "reconnect_delay r * 1 \<le> reconnect_delay r * 2 ^ unat (failure_streak r)"
      using assms by (intro mult_left_mono) (simp_all add: recovery_params_ok_def)
    then show ?thesis
      using next_retry_fail [OF assms False, of t] assms by (simp add: recovery_params_ok_def)
  qed
  moreover have "health (fail t r) = Reconnecting" "reconnect_count (fail t r) = reconnect_count r"
    by (simp_all add: fail_def Let_def)
  ultimately show ?thesis
    by (simp add: retry_def retry_due_def)
qed

theorem retry_exactly_when_due_witness:
  "health (retry 105 (fail 5 (new_recovery 3000 100 1000))) = Connecting \<and>
   health (retry 104 (fail 5 (new_recovery 3000 100 1000))) = Reconnecting"
proof -
  let ?r = "new_recovery 3000 100 1000"
  have ok: "recovery_params_ok ?r" by (simp add: recovery_params_ok_def new_recovery_def)
  have at: "next_retry (fail 5 ?r) = 105"
    by (simp add: fail_def new_recovery_def backoff_loop.simps [of 1 1])
  have "health (fail 5 ?r) = Reconnecting" by (simp add: fail_def Let_def)
  then show ?thesis
    using retry_exactly_when_due [OF ok, of 105 5] retry_exactly_when_due [OF ok, of 104 5] at by simp
qed

text \<open>Stall detection is exact: after a frame at \<open>t0\<close>, through any packet loss and any
  checks made before the timeout, the next freshness check reports a stall if and only if at least
  the stall timeout has passed since that frame.\<close>

theorem stall_detected_exactly:
  assumes "list_all (quiet_event t0 (stall_timeout r)) es"
  shows "fst (check_stall now (fold recovery_step (Frame t0 # es) r)) \<longleftrightarrow> stall_timeout r \<le> now - t0"
proof -
  have "health (frame t0 r) \<in> {Connected, Degraded}" "last_frame (frame t0 r) = Some t0"
    "stall_timeout (frame t0 r) = stall_timeout r"
    by (auto simp: frame_def split: option.split)
  from quiet_run [OF this(1,2)] assms this(3) show ?thesis
    by (auto simp: check_stall_def)
qed

theorem stall_detected_exactly_witness:
  "fst (check_stall 3010 (fold recovery_step (Frame 10 # [Packet_loss 20, Check_stall 2000])
     (new_recovery 3000 100 1000)))"
proof -
  have "list_all (quiet_event 10 (stall_timeout (new_recovery 3000 100 1000)))
      [Packet_loss 20, Check_stall 2000]"
    by (simp add: new_recovery_def)
  from stall_detected_exactly [OF this, of 3010] show ?thesis by (simp add: new_recovery_def)
qed

text \<open>A cumulative statistic that sometimes reads backwards is counted without loss or double
  counting: over any sequence of readings, the increments reported add up to the highest reading
  seen, less the value the counter started from.\<close>

theorem monotonic_counter_total:
  "fst (observe_all readings start) = Max (insert start (set readings)) - start \<and>
   snd (observe_all readings start) = Max (insert start (set readings))"
  by (simp add: observe_all_Max)

end
