(* ===== verification/Whip_Policy.thy ===== *)
theory Whip_Policy
  imports Skai_Prelude
begin

text \<open>
  \<^verbatim>\<open>src/webrtc/whip_policy.hpp\<close>, \<^verbatim>\<open>src/webrtc/whip_policy.cpp\<close>
  and \<^verbatim>\<open>h264_rtp_timestamp\<close> of
  \<^verbatim>\<open>include/skai/video/encoded_access_unit.hpp\<close>: the URL of the WHIP resource, the
  reconnect decision of the uplink peer, and the RTP clock of the uplink.  RTP timestamps and PTS
  keep their C++ widths.
\<close>

record encoded_access_unit =
  au_sequence :: u64
  au_pts_ns :: u64
  au_dts_ns :: u64
  au_has_pts :: bool
  au_has_dts :: bool
  au_keyframe :: bool
  au_discontinuity :: bool
  au_source_generation :: u64
  au_bytes :: "u8 list"

definition h264_rtp_timestamp :: "u64 \<Rightarrow> u32" where
  "h264_rtp_timestamp pts_ns =
     (let secs = pts_ns div 1000000000; remainder = pts_ns mod 1000000000
      in ucast (secs * 90000 + remainder * 90000 div 1000000000))"

section \<open>The resource URL\<close>

abbreviation slash :: char where
  "slash \<equiv> CHR 0x2F"

definition whip_resource_url :: "string \<Rightarrow> string \<Rightarrow> string result" where
  "whip_resource_url endpoint location =
     (let authority_end = find_from (\<lambda>c. c = slash) 8 endpoint;
          origin = substr 0 authority_end endpoint
      in if location = [] then Inl ''WHIP 201 omitted Location; automatic retry stopped''
         else if hd location = slash \<and> (length location < 2 \<or> location ! 1 \<noteq> slash)
         then Inr (origin @ location)
         else if starts_with (origin @ [slash]) location then Inr location
         else if find_from (\<lambda>c. c = CHR 0x3A) 0 location = None \<and> hd location \<noteq> slash
         then (let path_end = rfind_char slash endpoint in
               Inr (substr 0 (Some (case path_end of None \<Rightarrow> 0 | Some i \<Rightarrow> i + 1)) endpoint @ location))
         else Inl ''WHIP Location has a different origin; automatic retry stopped'')"

section \<open>WhipPeerState\<close>

record whip_peer_state =
  disconnected_at :: "time_point option"
  peer_gathered :: bool
  peer_failed :: bool

definition new_peer_state :: whip_peer_state where
  "new_peer_state = \<lparr>disconnected_at = None, peer_gathered = False, peer_failed = False\<rparr>"

definition gathered :: "whip_peer_state \<Rightarrow> whip_peer_state" where
  "gathered p = p\<lparr>peer_gathered := True\<rparr>"

definition connected :: "whip_peer_state \<Rightarrow> whip_peer_state" where
  "connected p = p\<lparr>disconnected_at := None\<rparr>"

definition disconnected :: "time_point \<Rightarrow> whip_peer_state \<Rightarrow> whip_peer_state" where
  "disconnected now p = (if disconnected_at p = None then p\<lparr>disconnected_at := Some now\<rparr> else p)"

definition failed :: "whip_peer_state \<Rightarrow> whip_peer_state" where
  "failed p = p\<lparr>peer_failed := True\<rparr>"

definition is_disconnected :: "whip_peer_state \<Rightarrow> bool" where
  "is_disconnected p \<longleftrightarrow> disconnected_at p \<noteq> None"

definition should_reconnect :: "time_point \<Rightarrow> duration \<Rightarrow> whip_peer_state \<Rightarrow> bool" where
  "should_reconnect now grace p \<longleftrightarrow>
     peer_failed p \<or> (case disconnected_at p of None \<Rightarrow> False | Some t \<Rightarrow> now - t \<ge> grace)"

text \<open>
  \<^verbatim>\<open>wait_for_gathering\<close>: each element of the list is what one turn of the loop
  reads (the peer state under the lock, the stop flag and the two clock readings of the body).
  \<open>None\<close>: the thread is still waiting after these turns.
\<close>

type_synonym gather_turn = "whip_peer_state \<times> bool \<times> time_point \<times> time_point"

fun wait_for_gathering :: "time_point \<Rightarrow> gather_turn list \<Rightarrow> bool option" where
  "wait_for_gathering deadline [] = None"
| "wait_for_gathering deadline ((p, stopping, now1, now2) # turns) =
     (if \<not> peer_gathered p \<and> \<not> peer_failed p \<and> \<not> stopping then
        let next_check = min deadline (now1 + milliseconds 100) in
        if next_check \<le> now2 then Some (peer_gathered p \<and> \<not> peer_failed p \<and> \<not> stopping)
        else wait_for_gathering deadline turns
      else Some (peer_gathered p \<and> \<not> peer_failed p \<and> \<not> stopping))"

datatype peer_event = Ev_gathered | Ev_connected | Ev_disconnected time_point | Ev_failed

fun peer_step :: "peer_event \<Rightarrow> whip_peer_state \<Rightarrow> whip_peer_state" where
  "peer_step Ev_gathered p = gathered p"
| "peer_step Ev_connected p = connected p"
| "peer_step (Ev_disconnected t) p = disconnected t p"
| "peer_step Ev_failed p = failed p"

section \<open>WhipRtpClock\<close>

record whip_rtp_clock =
  clk_start :: u32
  clk_offset :: u32
  clk_last :: u32
  frame_ticks :: u32
  last_pts_ticks :: "u32 option"
  clk_generation :: u64
  has_last :: bool

definition new_rtp_clock :: "u32 \<Rightarrow> whip_rtp_clock" where
  "new_rtp_clock start_timestamp =
     \<lparr>clk_start = start_timestamp, clk_offset = 0, clk_last = 0, frame_ticks = 3000,
      last_pts_ticks = None, clk_generation = 0, has_last = False\<rparr>"

definition clock_timestamp :: "u64 \<Rightarrow> bool \<Rightarrow> u64 \<Rightarrow> whip_rtp_clock \<Rightarrow> u32 \<times> whip_rtp_clock" where
  "clock_timestamp generation has_pts pts_ns c =
     (let c1 = (if has_last c \<and> generation \<noteq> clk_generation c then c\<lparr>last_pts_ticks := None\<rparr> else c);
          c2 = c1\<lparr>clk_generation := generation\<rparr>;
          next0 = (if has_last c2 then clk_last c2 + frame_ticks c2 else clk_start c2);
          (next, c5) =
            (if has_pts then
               let ticks = h264_rtp_timestamp pts_ns;
                   c3 = (case last_pts_ticks c2 of
                           None \<Rightarrow> if has_last c2 then c2\<lparr>clk_offset := next0 - ticks\<rparr> else c2
                         | Some l \<Rightarrow>
                             let step = sint (ticks - l) in
                             if step > 0 \<and> step \<le> 9000 then c2\<lparr>frame_ticks := word_of_int step\<rparr> else c2)
               in (ticks + clk_offset c3, c3\<lparr>last_pts_ticks := Some ticks\<rparr>)
             else (next0, c2))
      in (next, c5\<lparr>clk_last := next, has_last := True\<rparr>))"

text \<open>The RTP timestamps of a sequence of units, given as generation, PTS flag and PTS.\<close>

fun clock_run :: "(u64 \<times> bool \<times> u64) list \<Rightarrow> whip_rtp_clock \<Rightarrow> whip_rtp_clock" where
  "clock_run [] c = c"
| "clock_run ((g, h, p) # us) c = clock_run us (snd (clock_timestamp g h p c))"

text \<open>The learned frame interval is positive and at most a tenth of a second.\<close>

definition clock_inv :: "whip_rtp_clock \<Rightarrow> bool" where
  "clock_inv c \<longleftrightarrow> 0 < frame_ticks c \<and> frame_ticks c \<le> 9000"

lemmas whip_defs [skai_defs] =
  gathered_def connected_def disconnected_def failed_def should_reconnect_def clock_timestamp_def

section \<open>Lemmas\<close>

lemma unat_h264_bounds:
  fixes pts :: u64
  shows "unat (pts div 1000000000 * 90000 + pts mod 1000000000 * 90000 div 1000000000) =
    unat pts * 90000 div 1000000000"
proof -
  let ?p = "unat pts"
  have p: "?p < 18446744073709551616" using unsigned_less [of pts] by simp
  have a: "unat (pts div 1000000000 * 90000) = ?p div 1000000000 * 90000"
    using p by (simp add: unat_word_ariths unat_div_distrib)
  have b: "unat (pts mod 1000000000 * 90000) = ?p mod 1000000000 * 90000"
    by (simp add: unat_word_ariths unat_mod_distrib)
  have "?p div 1000000000 * 90000 + ?p mod 1000000000 * 90000 div 1000000000 =
      ?p * 90000 div 1000000000"
  proof -
    have "?p * 90000 = ?p mod 1000000000 * 90000 + (?p div 1000000000 * 90000) * 1000000000"
      using div_mult_mod_eq [of ?p 1000000000] by linarith
    then show ?thesis by simp
  qed
  with a b p show ?thesis
    by (simp add: unat_word_ariths unat_div_distrib)
qed

lemma frame_ticks_learned:
  fixes w :: u32
  assumes "0 < sint w" and "sint w \<le> 9000"
  shows "0 < w \<and> w \<le> 9000"
proof -
  have "uint (word_of_int (sint w) :: u32) = sint w"
    using assms by (simp only: uint_word_of_int) simp
  then have "uint w = sint w" by simp
  then show ?thesis using assms by (simp add: word_less_def word_le_def)
qed

lemma clock_timestamp_inv: "clock_inv c \<Longrightarrow> clock_inv (snd (clock_timestamp g h p c))"
  using frame_ticks_learned
  by (auto simp: clock_inv_def clock_timestamp_def Let_def split: option.split)

lemma clock_run_inv: "clock_inv c \<Longrightarrow> clock_inv (clock_run us c)"
  by (induction us c rule: clock_run.induct) (simp_all add: clock_timestamp_inv)

lemma new_rtp_clock_inv: "clock_inv (new_rtp_clock s)"
  by (simp add: clock_inv_def new_rtp_clock_def)

lemma clock_timestamp_last:
  "clk_last (snd (clock_timestamp g h p c)) = fst (clock_timestamp g h p c) \<and>
   has_last (snd (clock_timestamp g h p c)) \<and> clk_generation (snd (clock_timestamp g h p c)) = g"
  by (simp add: clock_timestamp_def Let_def split: option.split)

lemma clock_continues:
  assumes "has_last c" and "g \<noteq> clk_generation c \<or> \<not> h"
  shows "fst (clock_timestamp g h p c) = clk_last c + frame_ticks c"
  using assms by (auto simp: clock_timestamp_def Let_def)

lemma clock_after_pts:
  "fst (clock_timestamp g True p c) =
     h264_rtp_timestamp p + clk_offset (snd (clock_timestamp g True p c)) \<and>
   last_pts_ticks (snd (clock_timestamp g True p c)) = Some (h264_rtp_timestamp p)"
  by (simp add: clock_timestamp_def Let_def)

lemma clock_keeps_offset:
  assumes "clk_generation c = g" and "last_pts_ticks c = Some l"
  shows "clk_offset (snd (clock_timestamp g True p c)) = clk_offset c"
  using assms by (simp add: clock_timestamp_def Let_def)

lemma rfind_char_ge:
  assumes "k < length s" and "s ! k = c"
  shows "\<exists>i. rfind_char c s = Some i \<and> k \<le> i \<and> i < length s"
proof -
  let ?j = "length s - 1 - k"
  have j: "?j < length (rev s)" "rev s ! ?j = c"
    using assms by (simp_all add: rev_nth)
  have "c \<in> set (rev s)" using nth_mem [OF j(1)] j(2) by simp
  then have "index_where (\<lambda>x. x = c) (rev s) \<noteq> None"
    by (simp add: index_where_None)
  then obtain i where i: "index_where (\<lambda>x. x = c) (rev s) = Some i" by auto
  then have "i < length s" and first: "\<And>m. m < i \<Longrightarrow> rev s ! m \<noteq> c"
    by (simp_all add: index_where_Some)
  moreover have "i \<le> ?j" using first [of ?j] j(2) by (meson not_le)
  ultimately show ?thesis using i assms(1) by (simp add: rfind_char_def) linarith
qed

text \<open>The time of the disconnection that has lasted since: the first one after the last
  connection.\<close>

fun is_disconnection :: "peer_event \<Rightarrow> bool" where
  "is_disconnection (Ev_disconnected t) = True"
| "is_disconnection _ = False"

definition disconnected_since :: "peer_event list \<Rightarrow> time_point option" where
  "disconnected_since es =
     (case find is_disconnection (rev (takeWhile (\<lambda>e. e \<noteq> Ev_connected) (rev es))) of
        Some (Ev_disconnected t) \<Rightarrow> Some t
      | _ \<Rightarrow> None)"

lemma find_is_disconnection:
  "find is_disconnection xs = Some e \<Longrightarrow> \<exists>t. e = Ev_disconnected t"
  by (auto simp: find_Some_iff elim: is_disconnection.elims)

lemma peer_run:
  "disconnected_at (fold peer_step es new_peer_state) = disconnected_since es \<and>
   (peer_failed (fold peer_step es new_peer_state) \<longleftrightarrow> Ev_failed \<in> set es)"
proof (induction es rule: rev_induct)
  case Nil
  then show ?case by (simp add: new_peer_state_def disconnected_since_def)
next
  case (snoc e es)
  let ?since = "rev (takeWhile (\<lambda>e. e \<noteq> Ev_connected) (rev es))"
  show ?case
  proof (cases "find is_disconnection ?since")
    case None
    then show ?thesis
      using snoc by (cases e) (auto simp: disconnected_since_def whip_defs find_append)
  next
    case (Some d)
    then obtain t where "d = Ev_disconnected t" using find_is_disconnection by blast
    with Some snoc show ?thesis
      by (cases e) (auto simp: disconnected_since_def whip_defs find_append)
  qed
qed

section \<open>What the policy guarantees\<close>

text \<open>The 90 kHz conversion is exact: the RTP timestamp of a PTS is the integer part of
  \<open>pts * 90000 / 10^9\<close>, taken modulo \<open>2^32\<close>; no 64-bit intermediate overflows for any
  PTS.\<close>

theorem rtp_timestamp_exact:
  "h264_rtp_timestamp pts = of_nat (unat pts * 90000 div 1000000000)"
proof -
  have "h264_rtp_timestamp pts =
      of_nat (unat (pts div 1000000000 * 90000 + pts mod 1000000000 * 90000 div 1000000000))"
    by (simp add: h264_rtp_timestamp_def Let_def)
  then show ?thesis by (simp only: unat_h264_bounds)
qed

text \<open>Continuity across reconnects: after any history of units, a unit of another RTSP pipeline,
  or one without PTS, is stamped with the last timestamp plus the learned frame interval, which is
  positive and at most 9000 ticks (100 ms).  The uplink's RTP time therefore never jumps backward or
  far forward when the source restarts.\<close>

theorem rtp_clock_continuous_across_restart:
  assumes "us \<noteq> []" and "c = clock_run us (new_rtp_clock s)" and "g \<noteq> clk_generation c \<or> \<not> h"
  shows "fst (clock_timestamp g h p c) - clk_last c = frame_ticks c \<and>
    0 < frame_ticks c \<and> frame_ticks c \<le> 9000"
proof -
  have run: "has_last (clock_run us c0)" if "us \<noteq> [] \<or> has_last c0" for us c0
    using that
  proof (induction us c0 rule: clock_run.induct)
    case (2 g h p us c)
    then show ?case by (simp add: clock_timestamp_last)
  qed simp
  have "has_last c" using run [of us "new_rtp_clock s"] assms(1,2) by blast
  with clock_continues [of c g h p] assms(3) show ?thesis
    using clock_run_inv [OF new_rtp_clock_inv, of us s] by (simp add: assms(2) clock_inv_def)
qed

theorem rtp_clock_continuous_across_restart_witness:
  "let c = clock_run [(1, True, 40000000)] (new_rtp_clock 7) in
   fst (clock_timestamp 2 True 0 c) = clk_last c + frame_ticks c \<and> clk_last c = 3600"
proof -
  let ?c = "clock_run [(1, True, 40000000)] (new_rtp_clock 7)"
  have "clk_generation ?c = 1" "clk_last ?c = 3600"
    by (simp_all add: clock_timestamp_def new_rtp_clock_def h264_rtp_timestamp_def)
  then show ?thesis
    using rtp_clock_continuous_across_restart [of "[(1, True, 40000000)]" ?c 7 2 True 0]
    by (simp add: algebra_simps)
qed

text \<open>Within one pipeline the clock preserves the source's timing: two consecutive units with PTS
  get RTP timestamps exactly as far apart, modulo \<open>2^32\<close>, as their PTS in 90 kHz ticks,
  whatever offset earlier restarts introduced.\<close>

theorem rtp_clock_preserves_spacing:
  "fst (clock_timestamp g True p2 (snd (clock_timestamp g True p1 c))) -
     fst (clock_timestamp g True p1 c) = h264_rtp_timestamp p2 - h264_rtp_timestamp p1"
proof -
  let ?c1 = "snd (clock_timestamp g True p1 c)"
  have "clk_offset (snd (clock_timestamp g True p2 ?c1)) = clk_offset ?c1"
    using clock_keeps_offset [of ?c1 g] clock_after_pts [of g p1 c] clock_timestamp_last [of g True p1 c]
    by simp
  then show ?thesis
    using clock_after_pts [of g p1 c] clock_after_pts [of g p2 ?c1] by simp
qed

text \<open>A unit without PTS between two units with PTS is not treated as a discontinuity: the clock
  then returns to the PTS time line, which can lie behind the timestamp just sent.  Here the three
  timestamps of one pipeline are 0, 3000 and 900.\<close>

theorem rtp_clock_backward_after_missing_pts:
  "let c = clock_run [(0, True, 0), (0, False, 0)] (new_rtp_clock 0) in
   clk_last c = 3000 \<and> fst (clock_timestamp 0 True 10000000 c) = 900"
  by (simp add: clock_timestamp_def new_rtp_clock_def h264_rtp_timestamp_def)

text \<open>The cleanup URL stays on the endpoint's origin: when the configured endpoint has a path, every
  URL the function returns starts with the endpoint's scheme and authority followed by a slash; any
  other \<^verbatim>\<open>Location\<close> is refused with an error that stops the retry loop.\<close>

theorem whip_url_same_origin:
  assumes "find_from (\<lambda>c. c = slash) 8 endpoint = Some k"
    and "whip_resource_url endpoint location = Inr url"
  shows "prefix (take k endpoint @ [slash]) url"
proof -
  have k: "k < length endpoint" "endpoint ! k = slash"
    using find_from_bound [OF assms(1)] by simp_all
  obtain i where i: "rfind_char slash endpoint = Some i" "k \<le> i" "i < length endpoint"
    using rfind_char_ge [OF k] by blast
  have "prefix (take (Suc k) endpoint) (take (Suc i) endpoint)"
    using i by (metis Suc_le_mono take_is_prefix min.absorb1 take_take)
  then have base: "prefix (take k endpoint @ [slash]) (take (Suc i) endpoint @ location)"
    using k by (simp add: take_Suc_conv_app_nth prefix_prefix)
  show ?thesis
    using assms base i
    by (cases location)
       (auto simp: whip_resource_url_def substr_def starts_with_prefix Let_def split: if_splits)
qed

theorem whip_url_same_origin_witness:
  "whip_resource_url ''https://a/x/whip'' ''r/1'' = Inr ''https://a/x/r/1'' \<and>
   prefix (take 9 ''https://a/x/whip'' @ [slash]) ''https://a/x/r/1''"
proof -
  have f: "find_from (\<lambda>c. c = slash) 8 ''https://a/x/whip'' = Some 9"
    by (simp add: find_from_def)
  have u: "whip_resource_url ''https://a/x/whip'' ''r/1'' = Inr ''https://a/x/r/1''"
    by (simp add: whip_resource_url_def find_from_def substr_def rfind_char_def)
  show ?thesis using u whip_url_same_origin [OF f u] by simp
qed

text \<open>Without a path in the endpoint the guarantee fails: a relative
  \<^verbatim>\<open>Location\<close> is appended to the scheme alone, so its first segment becomes
  the host.\<close>

theorem whip_url_without_path_changes_host:
  "whip_resource_url ''https://camera.example'' ''other.example/r'' = Inr ''https://other.example/r''"
  by (simp add: whip_resource_url_def find_from_def substr_def rfind_char_def)

text \<open>The uplink reconnects exactly when it should: over any history of peer callbacks,
  \<^verbatim>\<open>should_reconnect\<close> holds if and only if the peer has failed or the current
  disconnection, counted from the first disconnect after the last connect, has lasted the grace
  period.\<close>

theorem should_reconnect_iff:
  "should_reconnect now grace (fold peer_step es new_peer_state) \<longleftrightarrow>
     Ev_failed \<in> set es \<or> (\<exists>t. disconnected_since es = Some t \<and> grace \<le> now - t)"
  using peer_run [of es] by (auto simp: should_reconnect_def split: option.split)

end
