(* ===== verification/Cpp_Float.thy ===== *)
theory Cpp_Float
  imports Skai_Prelude Complex_Main
begin

text \<open>
  The floating-point values of the C++ code: \<^verbatim>\<open>double\<close> is IEEE binary64 and
  \<^verbatim>\<open>float\<close> is binary32, both with round to nearest, ties to even.  A value is a
  real number or one of the three non-finite values; the sign of zero is not represented, since no
  modelled operation depends on it.  Every arithmetic operation computes the exact real result and
  rounds it (\<open>round64\<close>, \<open>round32\<close>), overflowing to an infinity.  The section on
  rounding proves what the components rely on: rounding is monotone, odd, and exact on integers up
  to the precision.
\<close>

datatype fp = Fin real | PosInf | NegInf | NaN

fun isfinite :: "fp \<Rightarrow> bool" where
  "isfinite (Fin x) = True"
| "isfinite _ = False"

text \<open>The comparisons are false when an operand is NaN.\<close>

fun fp_less :: "fp \<Rightarrow> fp \<Rightarrow> bool" where
  "fp_less (Fin a) (Fin b) = (a < b)"
| "fp_less NegInf (Fin b) = True"
| "fp_less NegInf PosInf = True"
| "fp_less (Fin a) PosInf = True"
| "fp_less _ _ = False"

fun fp_le :: "fp \<Rightarrow> fp \<Rightarrow> bool" where
  "fp_le (Fin a) (Fin b) = (a \<le> b)"
| "fp_le NegInf NaN = False"
| "fp_le NegInf b = True"
| "fp_le NaN PosInf = False"
| "fp_le a PosInf = True"
| "fp_le _ _ = False"

section \<open>Rounding to a binary format\<close>

text \<open>Nearest integer, ties to even.\<close>

definition rne :: "real \<Rightarrow> int" where
  "rne y = (let f = \<lfloor>y\<rfloor>; d = y - of_int f in
            if d < 1/2 then f else if d > 1/2 then f + 1 else if even f then f else f + 1)"

text \<open>Exponent of the unit in the last place for precision \<open>p\<close> and least exponent
  \<open>emin\<close>.\<close>

definition ulp_exp :: "nat \<Rightarrow> int \<Rightarrow> real \<Rightarrow> int" where
  "ulp_exp p emin x = max (\<lfloor>log 2 \<bar>x\<bar>\<rfloor> - int p + 1) emin"

definition round_bin :: "nat \<Rightarrow> int \<Rightarrow> real \<Rightarrow> real" where
  "round_bin p emin x =
     (if x = 0 then 0
      else let k = ulp_exp p emin x in of_int (rne (x / 2 powr of_int k)) * 2 powr of_int k)"

definition with_overflow :: "real \<Rightarrow> real \<Rightarrow> fp" where
  "with_overflow greatest r =
     (if r > greatest then PosInf else if r < - greatest then NegInf else Fin r)"

definition round64 :: "real \<Rightarrow> fp" where
  "round64 x = with_overflow ((2 ^ 53 - 1) * 2 ^ 971) (round_bin 53 (- 1074) x)"

definition round32 :: "real \<Rightarrow> fp" where
  "round32 x = with_overflow ((2 ^ 24 - 1) * 2 ^ 104) (round_bin 24 (- 149) x)"

lemma rne_mono: "x \<le> y \<Longrightarrow> rne x \<le> rne y"
proof -
  assume "x \<le> y"
  then have f: "\<lfloor>x\<rfloor> \<le> \<lfloor>y\<rfloor>" by (rule floor_mono)
  have step: "\<lfloor>z\<rfloor> \<le> rne z \<and> rne z \<le> \<lfloor>z\<rfloor> + 1" for z :: real
    by (simp add: rne_def Let_def)
  show ?thesis
  proof (cases "\<lfloor>x\<rfloor> = \<lfloor>y\<rfloor>")
    case True
    then show ?thesis using \<open>x \<le> y\<close> by (simp add: rne_def Let_def)
  next
    case False
    then show ?thesis using f step [of x] step [of y] by linarith
  qed
qed

lemma rne_of_int [simp]: "rne (of_int m) = m"
  by (simp add: rne_def)

lemma rne_0 [simp]: "rne 0 = 0"
  by (simp add: rne_def)

lemma rne_minus: "rne (- y) = - rne y"
proof (cases "y = of_int \<lfloor>y\<rfloor>")
  case True
  then show ?thesis by (metis of_int_minus rne_of_int)
next
  case False
  then have "\<lfloor>- y\<rfloor> = - \<lfloor>y\<rfloor> - 1" by linarith
  then show ?thesis by (auto simp: rne_def Let_def)
qed

lemma floor_log2_bounds:
  assumes "0 < x"
  shows "2 powr of_int \<lfloor>log 2 x\<rfloor> \<le> x \<and> x < 2 powr of_int (\<lfloor>log 2 x\<rfloor> + 1)"
proof
  have "2 powr of_int \<lfloor>log 2 x\<rfloor> \<le> 2 powr log 2 x" by simp
  then show "2 powr of_int \<lfloor>log 2 x\<rfloor> \<le> x" using assms by simp
  have "log 2 x < of_int (\<lfloor>log 2 x\<rfloor> + 1)" by linarith
  then have "2 powr log 2 x < 2 powr of_int (\<lfloor>log 2 x\<rfloor> + 1)" by (rule powr_less_mono) simp
  then show "x < 2 powr of_int (\<lfloor>log 2 x\<rfloor> + 1)" using assms by simp
qed

lemma powr_int_nat: "0 \<le> k \<Longrightarrow> (2::real) powr of_int k = of_int (2 ^ nat k)"
  by (simp add: powr_real_of_int)

lemma rne_le_powr:
  assumes "y \<le> 2 powr of_int n"
  shows "of_int (rne y) \<le> (2::real) powr of_int (max n 0)"
proof -
  have "y \<le> 2 powr of_int (max n 0)"
    using assms by (rule order_trans) (simp add: powr_mono)
  then have "rne y \<le> rne (of_int (2 ^ nat (max n 0)))"
    by (intro rne_mono) (simp only: powr_int_nat [symmetric] max.cobounded2)
  then have "rne y \<le> 2 ^ nat (max n 0)" by (simp only: rne_of_int)
  then have "real_of_int (rne y) \<le> real_of_int (2 ^ nat (max n 0))" by (simp only: of_int_le_iff)
  then show ?thesis by (simp only: powr_int_nat [of "max n 0"] max.cobounded2)
qed

lemma rne_ge_powr:
  assumes "2 powr of_int n \<le> y" and "0 \<le> n"
  shows "(2::real) powr of_int n \<le> of_int (rne y)"
proof -
  have "rne (of_int (2 ^ nat n)) \<le> rne y"
    using assms by (intro rne_mono) (simp only: powr_int_nat [symmetric])
  then have "2 ^ nat n \<le> rne y" by (simp only: rne_of_int)
  then have "real_of_int (2 ^ nat n) \<le> real_of_int (rne y)" by (simp only: of_int_le_iff)
  then show ?thesis using assms(2) by (simp only: powr_int_nat)
qed

lemma round_bin_0 [simp]: "round_bin p emin 0 = 0"
  by (simp add: round_bin_def)

lemma round_bin_minus: "round_bin p emin (- x) = - round_bin p emin x"
  by (simp add: round_bin_def ulp_exp_def Let_def rne_minus)

lemma round_bin_nonneg: "0 \<le> x \<Longrightarrow> 0 \<le> round_bin p emin x"
proof -
  assume "0 \<le> x"
  then have "0 \<le> rne (x / 2 powr of_int (ulp_exp p emin x))"
    using rne_mono [of 0 "x / 2 powr of_int (ulp_exp p emin x)"] by simp
  then show ?thesis by (simp add: round_bin_def Let_def)
qed

text \<open>A positive number rounds to at most the next power of two (or one unit), and to at least the
  power of two below it when it is in the normal range.\<close>

lemma round_bin_upper:
  assumes "0 < x" and "0 < p"
  shows "round_bin p emin x \<le> 2 powr of_int (max (\<lfloor>log 2 x\<rfloor> + 1) emin)"
proof -
  let ?e = "\<lfloor>log 2 x\<rfloor>" and ?k = "ulp_exp p emin x"
  have "x / 2 powr of_int ?k \<le> 2 powr of_int (?e + 1 - ?k)"
    using floor_log2_bounds [OF assms(1)] by (simp add: powr_diff divide_right_mono)
  then have "of_int (rne (x / 2 powr of_int ?k)) \<le> (2::real) powr of_int (max (?e + 1 - ?k) 0)"
    by (rule rne_le_powr)
  then have "round_bin p emin x \<le> 2 powr of_int (max (?e + 1 - ?k) 0) * 2 powr of_int ?k"
    using assms(1) by (simp add: round_bin_def Let_def)
  also have "\<dots> = 2 powr of_int (max (?e + 1) ?k)"
    by (simp add: powr_add [symmetric] max_def)
  also have "max (?e + 1) ?k = max (?e + 1) emin"
    using assms by (simp add: ulp_exp_def max_def)
  finally show ?thesis .
qed

lemma round_bin_lower:
  assumes "0 < x" and "0 < p" and "emin < \<lfloor>log 2 x\<rfloor> - int p + 1"
  shows "2 powr of_int \<lfloor>log 2 x\<rfloor> \<le> round_bin p emin x"
proof -
  let ?e = "\<lfloor>log 2 x\<rfloor>" and ?k = "ulp_exp p emin x"
  have k: "?k = ?e - int p + 1" using assms by (simp add: ulp_exp_def)
  have "2 powr of_int (?e - ?k) \<le> x / 2 powr of_int ?k"
    using floor_log2_bounds [OF assms(1)] by (simp add: powr_diff divide_right_mono)
  then have "(2::real) powr of_int (?e - ?k) \<le> of_int (rne (x / 2 powr of_int ?k))"
    by (rule rne_ge_powr) (use k assms(2) in simp)
  then have "2 powr of_int (?e - ?k) * 2 powr of_int ?k \<le> round_bin p emin x"
    using assms(1) by (simp add: round_bin_def Let_def)
  moreover have "(2::real) powr of_int (?e - ?k) * 2 powr of_int ?k = 2 powr of_int ?e"
    by (simp add: powr_add [symmetric])
  ultimately show ?thesis by simp
qed

lemma round_bin_mono_pos:
  assumes "0 < x" and "x \<le> y" and "0 < p"
  shows "round_bin p emin x \<le> round_bin p emin y"
proof -
  let ?ex = "\<lfloor>log 2 x\<rfloor>" and ?ey = "\<lfloor>log 2 y\<rfloor>"
  have e: "?ex \<le> ?ey" using assms by (intro floor_mono) simp
  show ?thesis
  proof (cases "ulp_exp p emin x = ulp_exp p emin y")
    case True
    have "rne (x / 2 powr of_int (ulp_exp p emin y)) \<le> rne (y / 2 powr of_int (ulp_exp p emin y))"
      using assms(2) by (intro rne_mono divide_right_mono) simp_all
    then show ?thesis using assms True by (simp add: round_bin_def Let_def)
  next
    case False
    then have normal: "emin < ?ey - int p + 1" and less: "?ex < ?ey"
      using e assms by (auto simp: ulp_exp_def max_def split: if_splits)
    have "round_bin p emin x \<le> 2 powr of_int (max (?ex + 1) emin)"
      by (rule round_bin_upper [OF assms(1,3)])
    also have "\<dots> \<le> 2 powr of_int ?ey"
      using less normal assms(3) by (intro powr_mono) auto
    also have "\<dots> \<le> round_bin p emin y"
      using assms normal by (intro round_bin_lower) auto
    finally show ?thesis .
  qed
qed

lemma round_bin_mono:
  assumes "x \<le> y" and "0 < p"
  shows "round_bin p emin x \<le> round_bin p emin y"
proof -
  consider "0 < x" | "x \<le> 0" "0 \<le> y" | "y < 0" by linarith
  then show ?thesis
  proof cases
    case 1
    then show ?thesis using assms by (rule round_bin_mono_pos)
  next
    case 2
    then show ?thesis
      using round_bin_nonneg [of y p emin] round_bin_nonneg [of "- x" p emin]
      by (simp add: round_bin_minus)
  next
    case 3
    then show ?thesis
      using round_bin_mono_pos [of "- y" "- x" p emin] assms by (simp add: round_bin_minus)
  qed
qed

lemma round_bin_exact:
  assumes "\<bar>m\<bar> < 2 ^ p" and "emin \<le> k"
  shows "round_bin p emin (of_int m * 2 powr of_int k) = of_int m * 2 powr of_int k"
proof (cases "m = 0")
  case False
  let ?x = "of_int m * 2 powr of_int k :: real"
  let ?k = "ulp_exp p emin ?x"
  have x: "0 < \<bar>?x\<bar>" using False by simp
  have "\<bar>real_of_int m\<bar> < real_of_int (2 ^ p)" using assms(1) by (simp only: of_int_abs [symmetric] of_int_less_iff)
  then have "\<bar>?x\<bar> < 2 ^ p * 2 powr of_int k" by (simp add: abs_mult)
  also have "\<dots> = 2 powr (of_int (int p + k))" by (simp add: powr_add powr_realpow)
  finally have "2 powr log 2 \<bar>?x\<bar> < 2 powr (of_int (int p + k))" using x by simp
  then have "log 2 \<bar>?x\<bar> < of_int (int p + k)" by (simp only: powr_less_cancel_iff one_less_numeral_iff semiring_norm)
  then have "\<lfloor>log 2 \<bar>?x\<bar>\<rfloor> < int p + k" by linarith
  then have le: "?k \<le> k" using assms(2) by (simp add: ulp_exp_def)
  have "?x / 2 powr of_int ?k = of_int m * (2 powr of_int k / 2 powr of_int ?k)" by simp
  also have "\<dots> = of_int m * 2 powr of_int (k - ?k)" by (simp add: powr_diff)
  also have "\<dots> = of_int (m * 2 ^ nat (k - ?k))" using powr_int_nat [of "k - ?k"] le by (simp only: of_int_mult)
  finally have q: "?x / 2 powr of_int ?k = of_int (m * 2 ^ nat (k - ?k))" .
  have "round_bin p emin ?x = of_int (rne (?x / 2 powr of_int ?k)) * 2 powr of_int ?k"
    using False by (simp add: round_bin_def Let_def)
  also have "\<dots> = (?x / 2 powr of_int ?k) * 2 powr of_int ?k"
    by (simp only: q rne_of_int)
  finally show ?thesis by simp
qed simp

corollary round_bin_of_int:
  "\<bar>m\<bar> < 2 ^ p \<Longrightarrow> emin \<le> 0 \<Longrightarrow> round_bin p emin (of_int m) = of_int m"
  using round_bin_exact [of m p emin 0] by simp

section \<open>The two formats\<close>

text \<open>What a client may assume of the rounding of an arithmetic result.\<close>

locale fp_rounding =
  fixes rnd :: "real \<Rightarrow> fp" and exact :: int
  assumes exact_pos: "10000 < exact"
    and rnd_int: "\<bar>m\<bar> < exact \<Longrightarrow> rnd (of_int m) = Fin (of_int m)"
    and rnd_between: "rnd a = Fin a \<Longrightarrow> rnd b = Fin b \<Longrightarrow> a \<le> x \<Longrightarrow> x \<le> b \<Longrightarrow>
      \<exists>r. rnd x = Fin r \<and> a \<le> r \<and> r \<le> b"
    and rnd_mono: "rnd x = Fin r \<Longrightarrow> rnd y = Fin s \<Longrightarrow> x \<le> y \<Longrightarrow> r \<le> s"
begin

lemma rnd_int_range:
  assumes "\<bar>m\<bar> < exact" and "\<bar>n\<bar> < exact" and "of_int m \<le> x" and "x \<le> of_int n"
  obtains r where "rnd x = Fin r" and "of_int m \<le> r" and "r \<le> of_int n"
  using rnd_between [OF rnd_int [OF assms(1)] rnd_int [OF assms(2)] assms(3,4)] by blast

lemma rnd_nat_range:
  assumes "int n < exact" and "0 \<le> x" and "x \<le> of_nat n"
  obtains r where "rnd x = Fin r" and "0 \<le> r" and "r \<le> of_nat n"
  using rnd_int_range [of 0 "int n" x] assms exact_pos by auto

lemma rnd_unit:
  assumes "0 \<le> x" and "x \<le> 1"
  obtains r where "rnd x = Fin r" and "0 \<le> r" and "r \<le> 1"
  using rnd_nat_range [of 1 x] assms exact_pos by auto

end

lemma with_overflow_Fin: "with_overflow g r = Fin s \<longleftrightarrow> s = r \<and> - g \<le> r \<and> r \<le> g"
  by (auto simp: with_overflow_def)

lemma fp_rounding_with_overflow:
  assumes "0 < p" and "emin \<le> 0" and "10000 < (2::int) ^ p" and "2 ^ p \<le> g"
  shows "fp_rounding (\<lambda>x. with_overflow g (round_bin p emin x)) (2 ^ p)"
proof
  show "10000 < (2::int) ^ p" by (rule assms(3))
next
  fix m :: int
  assume m: "\<bar>m\<bar> < 2 ^ p"
  then have "\<bar>real_of_int m\<bar> < real_of_int (2 ^ p)" by (simp only: of_int_abs [symmetric] of_int_less_iff)
  then have "\<bar>real_of_int m\<bar> \<le> g" using assms(4) by simp
  then show "with_overflow g (round_bin p emin (of_int m)) = Fin (of_int m)"
    using round_bin_of_int [OF m assms(2)] by (simp add: with_overflow_Fin abs_le_iff)
next
  fix a b x
  assume "with_overflow g (round_bin p emin a) = Fin a" "with_overflow g (round_bin p emin b) = Fin b"
    "a \<le> x" "x \<le> b"
  then show "\<exists>r. with_overflow g (round_bin p emin x) = Fin r \<and> a \<le> r \<and> r \<le> b"
    using round_bin_mono [of a x p emin] round_bin_mono [of x b p emin] assms(1)
    by (auto simp: with_overflow_Fin)
next
  fix x y r s
  assume "with_overflow g (round_bin p emin x) = Fin r" "with_overflow g (round_bin p emin y) = Fin s"
    "x \<le> y"
  then show "r \<le> s" using round_bin_mono [of x y p emin] assms(1) by (simp add: with_overflow_Fin)
qed

interpretation f64: fp_rounding round64 "2 ^ 53"
  unfolding round64_def [abs_def] by (rule fp_rounding_with_overflow) simp_all

interpretation f32: fp_rounding round32 "2 ^ 24"
  unfolding round32_def [abs_def] by (rule fp_rounding_with_overflow) simp_all

section \<open>Operations\<close>

text \<open>Arithmetic on two values, rounding with \<open>rnd\<close>.  No code path divides by zero.\<close>

fun fp_neg :: "fp \<Rightarrow> fp" where
  "fp_neg (Fin a) = Fin (- a)"
| "fp_neg PosInf = NegInf"
| "fp_neg NegInf = PosInf"
| "fp_neg NaN = NaN"

fun fp_add :: "(real \<Rightarrow> fp) \<Rightarrow> fp \<Rightarrow> fp \<Rightarrow> fp" where
  "fp_add rnd (Fin a) (Fin b) = rnd (a + b)"
| "fp_add rnd NaN b = NaN"
| "fp_add rnd a NaN = NaN"
| "fp_add rnd PosInf NegInf = NaN"
| "fp_add rnd NegInf PosInf = NaN"
| "fp_add rnd PosInf b = PosInf"
| "fp_add rnd NegInf b = NegInf"
| "fp_add rnd a PosInf = PosInf"
| "fp_add rnd a NegInf = NegInf"

definition fp_sub :: "(real \<Rightarrow> fp) \<Rightarrow> fp \<Rightarrow> fp \<Rightarrow> fp" where
  "fp_sub rnd a b = fp_add rnd a (fp_neg b)"

definition signed_inf :: "real \<Rightarrow> fp" where
  "signed_inf s = (if s > 0 then PosInf else if s < 0 then NegInf else NaN)"

fun fp_sign :: "fp \<Rightarrow> real" where
  "fp_sign (Fin a) = sgn a"
| "fp_sign PosInf = 1"
| "fp_sign NegInf = - 1"
| "fp_sign NaN = 0"

definition fp_mul :: "(real \<Rightarrow> fp) \<Rightarrow> fp \<Rightarrow> fp \<Rightarrow> fp" where
  "fp_mul rnd a b =
     (case (a, b) of
        (Fin x, Fin y) \<Rightarrow> rnd (x * y)
      | _ \<Rightarrow> signed_inf (fp_sign a * fp_sign b))"

definition fp_div :: "(real \<Rightarrow> fp) \<Rightarrow> fp \<Rightarrow> fp \<Rightarrow> fp" where
  "fp_div rnd a b =
     (case (a, b) of
        (Fin x, Fin y) \<Rightarrow> if y = 0 then signed_inf x else rnd (x / y)
      | (Fin x, PosInf) \<Rightarrow> Fin 0
      | (Fin x, NegInf) \<Rightarrow> Fin 0
      | (_, Fin y) \<Rightarrow> if y < 0 then fp_neg a else a
      | _ \<Rightarrow> NaN)"

text \<open>\<^verbatim>\<open>std::max(a, b)\<close> is \<^verbatim>\<open>a < b ? b : a\<close>,
  \<^verbatim>\<open>std::min(a, b)\<close> is \<^verbatim>\<open>b < a ? b : a\<close>, and
  \<^verbatim>\<open>std::clamp(v, lo, hi)\<close> compares the same way.\<close>

definition fp_max :: "fp \<Rightarrow> fp \<Rightarrow> fp" where
  "fp_max a b = (if fp_less a b then b else a)"

definition fp_min :: "fp \<Rightarrow> fp \<Rightarrow> fp" where
  "fp_min a b = (if fp_less b a then b else a)"

definition fp_clamp :: "fp \<Rightarrow> fp \<Rightarrow> fp \<Rightarrow> fp" where
  "fp_clamp v lo hi = (if fp_less v lo then lo else if fp_less hi v then hi else v)"

fun fp_abs :: "fp \<Rightarrow> fp" where
  "fp_abs (Fin a) = Fin \<bar>a\<bar>"
| "fp_abs NegInf = PosInf"
| "fp_abs a = a"

text \<open>\<^verbatim>\<open>std::round\<close>: to the nearest integer, halfway cases away from zero.\<close>

definition round_half_away :: "real \<Rightarrow> int" where
  "round_half_away x = (if 0 \<le> x then \<lfloor>x + 1/2\<rfloor> else - \<lfloor>- x + 1/2\<rfloor>)"

lemma round_half_away_of_int [simp]: "round_half_away (of_int n) = n"
proof -
  have "\<lfloor>real_of_int n + 1/2\<rfloor> = n" "\<lfloor>- real_of_int n + 1/2\<rfloor> = - n" by linarith+
  then show ?thesis by (simp add: round_half_away_def)
qed

lemma round_half_away_range:
  "0 \<le> x \<Longrightarrow> x \<le> of_int n \<Longrightarrow> 0 \<le> round_half_away x \<and> round_half_away x \<le> n"
  unfolding round_half_away_def by (simp, linarith)

section \<open>Evaluation\<close>

text \<open>Equations that let the rounding be computed on integers: the exponent of a positive rational to a
  base from the number of digits of its integer part, or of that of its reciprocal.\<close>

function digits_in :: "int \<Rightarrow> int \<Rightarrow> int" where
  "digits_in b m = (if b \<le> 1 \<or> m \<le> 0 then 0 else 1 + digits_in b (m div b))"
  by pat_completeness auto
termination
proof (relation "measure (\<lambda>(b, m). nat m)")
  show "((b, m div b), (b, m)) \<in> measure (\<lambda>(b, m). nat m)" if "\<not> (b \<le> 1 \<or> m \<le> 0)" for b m :: int
    using that int_div_less_self [of m b] by simp
qed simp

function power_int_base :: "int \<Rightarrow> int \<Rightarrow> int" where
  "power_int_base b k = (if k \<le> 0 then 1 else b * power_int_base b (k - 1))"
  by pat_completeness auto
termination by (relation "measure (\<lambda>(b, k). nat k)") auto

declare digits_in.simps [simp del] power_int_base.simps [simp del]

lemma power_int_base_eq: "power_int_base b k = b ^ nat k"
proof (induction b k rule: power_int_base.induct)
  case (1 b k)
  show ?case
  proof (cases "k \<le> 0")
    case False
    then have "nat k = Suc (nat (k - 1))" by simp
    then show ?thesis using 1 False by (simp add: power_int_base.simps [of b k])
  qed (simp add: power_int_base.simps [of b k])
qed

lemma digits_obtain:
  assumes "2 \<le> b" and "0 < m"
  obtains n where "digits_in b m = int (Suc n)" "b ^ n \<le> m" "m < b ^ Suc n"
proof -
  have "\<exists>n. digits_in b m = int (Suc n) \<and> b ^ n \<le> m \<and> m < b ^ Suc n"
    using assms
  proof (induction b m rule: digits_in.induct)
    case (1 b m)
    have d: "digits_in b m = 1 + digits_in b (m div b)" using 1(2,3) by (simp add: digits_in.simps [of b m])
    show ?case
    proof (cases "m < b")
      case True
      then show ?thesis using 1(2,3) d by (intro exI [of _ 0]) (simp add: digits_in.simps)
    next
      case False
      then have pos: "0 < m div b" using 1(2) by (simp add: pos_imp_zdiv_pos_iff)
      obtain n where n: "digits_in b (m div b) = int (Suc n)" "b ^ n \<le> m div b" "m div b < b ^ Suc n"
        using 1 pos by fastforce
      have "m div b * b \<le> m" using 1(2) by (simp add: minus_mod_eq_div_mult [symmetric])
      moreover have "b ^ n * b \<le> m div b * b" using n(2) 1(2) by (intro mult_right_mono) simp_all
      ultimately have "b ^ n * b \<le> m" by linarith
      moreover have "m < b ^ Suc n * b"
        using n(3) 1(2) int_div_less_iff [of b m "b ^ Suc n"] by simp
      ultimately show ?thesis using n(1) d by (intro exI [of _ "Suc n"]) (simp add: mult.commute)
    qed
  qed
  then show thesis using that by blast
qed

definition floor_log :: "int \<Rightarrow> real \<Rightarrow> int" where
  "floor_log b x = (if 1 \<le> x then digits_in b \<lfloor>x\<rfloor> - 1 else - digits_in b (\<lceil>1 / x\<rceil> - 1))"

definition base_powr :: "int \<Rightarrow> int \<Rightarrow> real" where
  "base_powr b k = (if 0 \<le> k then of_int (power_int_base b k) else 1 / of_int (power_int_base b (- k)))"

lemma base_powr_eq: "2 \<le> b \<Longrightarrow> base_powr b k = of_int b powr of_int k"
  by (simp add: base_powr_def power_int_base_eq powr_real_of_int field_simps)

lemma floor_log_eq:
  assumes "2 \<le> b" and "0 < x"
  shows "floor_log b x = \<lfloor>log (of_int b) x\<rfloor>"
proof (cases "1 \<le> x")
  case True
  then have "0 < \<lfloor>x\<rfloor>" by simp
  from digits_obtain [OF assms(1) this] obtain n
    where n: "digits_in b \<lfloor>x\<rfloor> = int (Suc n)" "b ^ n \<le> \<lfloor>x\<rfloor>" "\<lfloor>x\<rfloor> < b ^ Suc n" .
  from n(2,3) have "of_int b ^ n \<le> x" "x < of_int b ^ Suc n"
    by (simp_all add: le_floor_iff floor_less_iff)
  then have "\<lfloor>log (of_int b) x\<rfloor> = int n"
    using assms by (subst floor_log_eq_powr_iff) (simp_all add: powr_realpow powr_add mult.commute)
  then show ?thesis using True n(1) by (simp add: floor_log_def)
next
  case False
  define m where "m = \<lceil>1 / x\<rceil> - 1"
  have y: "1 < 1 / x" using False assms by simp
  then have "0 < m" by (simp add: m_def less_ceiling_iff)
  from digits_obtain [OF assms(1) this] obtain n where n: "digits_in b m = int (Suc n)" "b ^ n \<le> m" "m < b ^ Suc n" .
  from n(2,3) have "b ^ n < \<lceil>1 / x\<rceil>" "\<lceil>1 / x\<rceil> \<le> b ^ Suc n" by (simp_all add: m_def)
  then have "of_int b ^ n < 1 / x" "1 / x \<le> of_int b ^ Suc n" by (simp_all add: less_ceiling_iff ceiling_le_iff)
  then have "1 / of_int b ^ Suc n \<le> x" "x < 1 / of_int b ^ n" using assms by (simp_all add: field_simps)
  then have "\<lfloor>log (of_int b) x\<rfloor> = - int (Suc n)"
    using assms by (subst floor_log_eq_powr_iff) (simp_all add: powr_minus powr_realpow powr_add field_simps powr_diff)
  then show ?thesis using False n(1) by (simp add: floor_log_def m_def)
qed

lemma round_bin_code [code]:
  "round_bin p emin x =
     (if x = 0 then 0
      else let t = base_powr 2 (max (floor_log 2 \<bar>x\<bar> - int p + 1) emin) in of_int (rne (x / t)) * t)"
  by (simp add: round_bin_def ulp_exp_def Let_def base_powr_eq floor_log_eq)

text \<open>The greatest finite value need not be computed for values that are clearly smaller.\<close>

lemma round64_code [code]:
  "round64 x = (let r = round_bin 53 (- 1074) x in
     if \<bar>r\<bar> \<le> 1000000000000000000 then Fin r else with_overflow ((2 ^ 53 - 1) * 2 ^ 971) r)"
  by (auto simp: round64_def with_overflow_def Let_def)

lemma round32_code [code]:
  "round32 x = (let r = round_bin 24 (- 149) x in
     if \<bar>r\<bar> \<le> 1000000000000000000 then Fin r else with_overflow ((2 ^ 24 - 1) * 2 ^ 104) r)"
  by (auto simp: round32_def with_overflow_def Let_def)

end
