(* ===== verification/Detection_Sei.thy ===== *)
theory Detection_Sei
  imports Json_Text Cpp_Float
begin

text \<open>
  \<^verbatim>\<open>include/skai/webrtc/detection_sei.hpp\<close> and
  \<^verbatim>\<open>src/webrtc/detection_sei.cpp\<close>: detection boxes as JSON, the H.264 SEI NAL unit
  that carries them with emulation prevention, its insertion into an access unit, and the selector
  that decides which inference results ride on which unit.
\<close>

record sei_box =
  box_x :: fp
  box_y :: fp
  box_w :: fp
  box_h :: fp
  box_class :: string
  box_score :: fp

record sei_result =
  dt :: u32
  boxes :: "sei_box list"

section \<open>Numbers and boxes\<close>

fun fp_round :: "fp \<Rightarrow> fp" where
  "fp_round (Fin x) = Fin (of_int (round_half_away x))"
| "fp_round v = v"

definition round4 :: "fp \<Rightarrow> fp" where
  "round4 value = fp_div round64 (fp_round (fp_mul round64 value (Fin 10000))) (Fin 10000)"

definition clamp_unit :: "fp \<Rightarrow> fp" where
  "clamp_unit value = (if isfinite value then fp_clamp value (Fin 0) (Fin 1) else Fin 0)"

text \<open>\<^verbatim>\<open>llround\<close> of a finite value.\<close>

fun llround :: "fp \<Rightarrow> int" where
  "llround (Fin x) = round_half_away x"
| "llround _ = 0"

text \<open>The loop of \<^verbatim>\<open>append_number\<close>; the fraction is not zero when it is
  entered.\<close>

function strip_zeros :: "nat \<Rightarrow> nat \<Rightarrow> nat \<times> nat" where
  "strip_zeros fraction digits =
     (if fraction \<noteq> 0 \<and> fraction mod 10 = 0 then strip_zeros (fraction div 10) (digits - 1)
      else (fraction, digits))"
  by pat_completeness auto
termination
  by (relation "measure fst") auto

declare strip_zeros.simps [simp del]

definition zero_padded :: "nat \<Rightarrow> nat \<Rightarrow> string" where
  "zero_padded digits n = replicate (digits - length (to_string n)) (CHR ''0'') @ to_string n"

definition scaled_text :: "int \<Rightarrow> string" where
  "scaled_text scaled =
     (let sign = (if scaled < 0 then ''-'' else []); s = nat \<bar>scaled\<bar>; fraction = s mod 10000
      in sign @ to_string (s div 10000) @
         (if fraction = 0 then []
          else let (f, digits) = strip_zeros fraction 4 in ''.'' @ zero_padded digits f))"

definition append_number :: "string \<Rightarrow> fp \<Rightarrow> string" where
  "append_number out value =
     (let v = (if \<not> isfinite value \<or> fp_less (Fin 1000000000) (fp_abs value) then Fin 0 else value)
      in out @ scaled_text (llround (fp_mul round64 v (Fin 10000))))"

definition normalize_sei_box ::
    "fp \<Rightarrow> fp \<Rightarrow> fp \<Rightarrow> fp \<Rightarrow> int \<Rightarrow> int \<Rightarrow> string \<Rightarrow> fp \<Rightarrow> sei_box" where
  "normalize_sei_box x1 y1 x2 y2 frame_width frame_height class_name score =
     (let box = \<lparr>box_x = Fin 0, box_y = Fin 0, box_w = Fin 0, box_h = Fin 0,
                 box_class = class_name, box_score = round4 (clamp_unit score)\<rparr>
      in if frame_width \<le> 0 \<or> frame_height \<le> 0 then box
         else let left = clamp_unit (fp_div round64 x1 (Fin (of_int frame_width)));
                  top = clamp_unit (fp_div round64 y1 (Fin (of_int frame_height)));
                  right = clamp_unit (fp_div round64 x2 (Fin (of_int frame_width)));
                  bottom = clamp_unit (fp_div round64 y2 (Fin (of_int frame_height)))
              in box\<lparr>box_x := round4 left, box_y := round4 top,
                     box_w := round4 (fp_max (Fin 0) (fp_sub round64 right left)),
                     box_h := round4 (fp_max (Fin 0) (fp_sub round64 bottom top))\<rparr>)"

definition sei_dt_ticks :: "u64 \<Rightarrow> u64 \<Rightarrow> u32 option" where
  "sei_dt_ticks attach_pts_ns source_pts_ns =
     (if source_pts_ns > attach_pts_ns then None
      else let elapsed = attach_pts_ns - source_pts_ns
           in Some (ucast ((elapsed * 9 + 50000) div 100000)))"

section \<open>The JSON payload\<close>

definition quoted :: "string \<Rightarrow> string" where
  "quoted s = [CHR 0x22] @ s @ [CHR 0x22]"

definition append_box :: "string \<Rightarrow> sei_box \<Rightarrow> string" where
  "append_box out b =
     (let o1 = append_number (out @ ''['') (box_x b) @ '','';
          o2 = append_number o1 (box_y b) @ '','';
          o3 = append_number o2 (box_w b) @ '','';
          o4 = append_number o3 (box_h b) @ '','';
          o5 = append_string o4 (box_class b) @ '',''
      in append_number o5 (box_score b) @ '']'')"

fun append_boxes :: "string \<Rightarrow> nat \<Rightarrow> sei_box list \<Rightarrow> string" where
  "append_boxes out b [] = out"
| "append_boxes out b (x # xs) =
     append_boxes (append_box (if b \<noteq> 0 then out @ '','' else out) x) (Suc b) xs"

fun append_results :: "string \<Rightarrow> nat \<Rightarrow> sei_result list \<Rightarrow> string" where
  "append_results out r [] = out"
| "append_results out r (x # xs) =
     (let o1 = (if r \<noteq> 0 then out @ '','' else out);
          o2 = o1 @ ''{'' @ quoted ''dt'' @ '':'' @ to_string (unat (dt x)) @ '','' @ quoted ''b'' @ '':['';
          o3 = append_boxes o2 0 (boxes x) @ '']}''
      in append_results o3 (Suc r) xs)"

definition detection_sei_json :: "sei_result list \<Rightarrow> string" where
  "detection_sei_json results =
     append_results (''{'' @ quoted ''v'' @ '':1,'' @ quoted ''r'' @ '':['') 0 results @ '']}''"

section \<open>The SEI NAL unit\<close>

definition kDetectionSeiUuid :: "u8 list" where
  "kDetectionSeiUuid =
     [0x19, 0x7c, 0x65, 0xee, 0xa1, 0x32, 0x4f, 0x53, 0x85, 0xa0, 0x8a, 0xf9, 0xad, 0x15, 0x3c, 0x4b]"

fun size_bytes :: "nat \<Rightarrow> u8 list" where
  "size_bytes n = (if n \<ge> 255 then 0xff # size_bytes (n - 255) else [of_nat n])"

declare size_bytes.simps [simp del]

definition sei_rbsp :: "u8 list \<Rightarrow> u8 list \<Rightarrow> u8 list" where
  "sei_rbsp uuid payload =
     [5] @ size_bytes (length uuid + length payload) @ uuid @ payload @ [0x80]"

text \<open>The loop that copies the RBSP and inserts \<^verbatim>\<open>emulation_prevention_three_byte\<close>.\<close>

fun emulation_prevention :: "nat \<Rightarrow> u8 list \<Rightarrow> u8 list" where
  "emulation_prevention zeros [] = []"
| "emulation_prevention zeros (b # bs) =
     (let escape = (zeros \<ge> 2 \<and> b \<le> 3); z = (if escape then 0 else zeros)
      in (if escape then [3] else []) @ b # emulation_prevention (if b = 0 then z + 1 else 0) bs)"

definition encode_user_data_sei_nal :: "u8 list \<Rightarrow> u8 list \<Rightarrow> u8 list" where
  "encode_user_data_sei_nal uuid payload =
     [0, 0, 0, 1, 0x06] @ emulation_prevention 0 (sei_rbsp uuid payload)"

definition string_bytes :: "string \<Rightarrow> u8 list" where
  "string_bytes s = map of_char s"

definition encode_results :: "sei_result list \<Rightarrow> u8 list" where
  "encode_results results =
     encode_user_data_sei_nal kDetectionSeiUuid (string_bytes (detection_sei_json results))"

section \<open>Insertion before the first slice\<close>

unbundle bit_operations_syntax

definition is_vcl :: "u8 \<Rightarrow> bool" where
  "is_vcl header = (let type = header AND 0x1f in type \<ge> 1 \<and> type \<le> 5)"

function vcl_scan :: "u8 list \<Rightarrow> nat \<Rightarrow> nat option" where
  "vcl_scan au i =
     (if i + 3 < length au then
        if au ! i \<noteq> 0 \<or> au ! (i + 1) \<noteq> 0 \<or> au ! (i + 2) \<noteq> 1 then vcl_scan au (i + 1)
        else if is_vcl (au ! (i + 3)) then Some i
        else vcl_scan au (i + 3)
      else None)"
  by pat_completeness auto
termination
  by (relation "measure (\<lambda>(au, i). length au - i)") auto

declare vcl_scan.simps [simp del]

definition insert_before_first_vcl :: "u8 list \<Rightarrow> u8 list \<Rightarrow> bool \<times> u8 list" where
  "insert_before_first_vcl access_unit nal =
     (case vcl_scan access_unit 0 of
        None \<Rightarrow> (False, access_unit)
      | Some i \<Rightarrow>
          let pos = (if i > 0 \<and> access_unit ! (i - 1) = 0 then i - 1 else i)
          in (True, take pos access_unit @ nal @ drop pos access_unit))"

section \<open>SeiResultSelector\<close>

record sei_source_result =
  src_pts_ns :: u64
  src_generation :: u64
  src_boxes :: "sei_box list"

record sei_uplink_stats =
  sei_units :: u64
  results_attached :: u64
  results_dropped :: u64
  boxes_dropped :: u64

abbreviation kMaxDetectionSeiBytes :: nat where
  "kMaxDetectionSeiBytes \<equiv> 1024"

abbreviation kResultWindowNs :: u64 where
  "kResultWindowNs \<equiv> 1000000000"

abbreviation kRecentDtSamples :: nat where
  "kRecentDtSamples \<equiv> 4096"

record sei_result_selector =
  max_pending :: nat
  pending :: "sei_source_result list"
  recent_dt :: "u32 list"
  next_dt :: nat
  sel_stats :: sei_uplink_stats

definition new_selector :: "nat \<Rightarrow> sei_result_selector" where
  "new_selector n =
     \<lparr>max_pending = n, pending = [], recent_dt = [], next_dt = 0,
      sel_stats = \<lparr>sei_units = 0, results_attached = 0, results_dropped = 0, boxes_dropped = 0\<rparr>\<rparr>"

definition older :: "sei_source_result \<Rightarrow> sei_source_result \<Rightarrow> bool" where
  "older a b \<longleftrightarrow> src_generation a < src_generation b \<or>
     (src_generation a = src_generation b \<and> src_pts_ns a < src_pts_ns b)"

text \<open>\<^verbatim>\<open>std::min_element\<close>: the first of the smallest.\<close>

fun oldest :: "sei_source_result list \<Rightarrow> nat" where
  "oldest [] = 0"
| "oldest [x] = 0"
| "oldest (x # y # ys) = (let j = oldest (y # ys) in if older ((y # ys) ! j) x then Suc j else 0)"

definition erase_at :: "nat \<Rightarrow> 'a list \<Rightarrow> 'a list" where
  "erase_at i xs = take i xs @ drop (Suc i) xs"

definition count_dropped :: "nat \<Rightarrow> sei_uplink_stats \<Rightarrow> sei_uplink_stats" where
  "count_dropped n st = st\<lparr>results_dropped := results_dropped st + of_nat n\<rparr>"

definition sel_add :: "sei_source_result \<Rightarrow> sei_result_selector \<Rightarrow> sei_result_selector" where
  "sel_add result s =
     (let p = pending s @ [result] in
      if length p > max_pending s
      then s\<lparr>pending := erase_at (oldest p) p, sel_stats := count_dropped 1 (sel_stats s)\<rparr>
      else s\<lparr>pending := p\<rparr>)"

definition is_later :: "u64 \<Rightarrow> sei_source_result \<Rightarrow> bool" where
  "is_later attach_generation r \<longleftrightarrow> src_generation r > attach_generation"

definition is_stale :: "u64 \<Rightarrow> u64 \<Rightarrow> sei_source_result \<Rightarrow> bool" where
  "is_stale attach_pts_ns attach_generation r \<longleftrightarrow>
     src_generation r < attach_generation \<or> src_pts_ns r > attach_pts_ns \<or>
     attach_pts_ns - src_pts_ns r > kResultWindowNs"

text \<open>The loop over the pending results: due, later, number dropped.\<close>

fun split_pending ::
    "u64 \<Rightarrow> u64 \<Rightarrow> sei_source_result list \<Rightarrow> sei_source_result list \<times> sei_source_result list \<times> nat" where
  "split_pending pts gen [] = ([], [], 0)"
| "split_pending pts gen (r # rs) =
     (let (due, later, n) = split_pending pts gen rs in
      if is_later gen r then (due, r # later, n)
      else if is_stale pts gen r then (due, later, Suc n)
      else (r # due, later, n))"

text \<open>Dropping the oldest results while the NAL is too large.\<close>

fun shrink_results :: "sei_result list \<Rightarrow> sei_result list \<times> nat" where
  "shrink_results (r # r2 # rs) =
     (if length (encode_results (r # r2 # rs)) > kMaxDetectionSeiBytes
      then let (res, n) = shrink_results (r2 # rs) in (res, Suc n)
      else (r # r2 # rs, 0))"
| "shrink_results rs = (rs, 0)"

text \<open>Binary search for the number of boxes that fit.\<close>

function fit_boxes :: "sei_result \<Rightarrow> sei_box list \<Rightarrow> nat \<Rightarrow> nat \<Rightarrow> nat" where
  "fit_boxes r bs fits too_many =
     (if fits + 1 < too_many then
        let count = (fits + too_many) div 2 in
        if length (encode_results [r\<lparr>boxes := take count bs\<rparr>]) \<le> kMaxDetectionSeiBytes
        then fit_boxes r bs count too_many else fit_boxes r bs fits count
      else fits)"
  by pat_completeness auto
termination
  by (relation "measure (\<lambda>(r, bs, fits, too_many). too_many - fits)") auto

declare fit_boxes.simps [simp del]

definition fit_newest :: "sei_result list \<Rightarrow> sei_result list \<times> nat" where
  "fit_newest results =
     (case results of
        [] \<Rightarrow> ([], 0)
      | r # rs \<Rightarrow>
          let bs = stable_sort (\<lambda>a b. fp_less (box_score b) (box_score a)) (boxes r);
              fits = fit_boxes r bs 0 (length bs)
          in (r\<lparr>boxes := take fits bs\<rparr> # rs, length bs - fits))"

fun record_dts :: "u32 list \<Rightarrow> nat \<Rightarrow> u32 list \<Rightarrow> u32 list \<times> nat" where
  "record_dts recent i [] = (recent, i)"
| "record_dts recent i (d # ds) =
     (if length recent < kRecentDtSamples then record_dts (recent @ [d]) i ds
      else record_dts (recent[i := d]) ((i + 1) mod kRecentDtSamples) ds)"

text \<open>\<open>the\<close> reads the optional that \<^verbatim>\<open>sei_dt_ticks\<close> returns; it is never
  empty for a due result (\<open>due_has_dt\<close> below).\<close>

definition results_of :: "u64 \<Rightarrow> sei_source_result list \<Rightarrow> sei_result list" where
  "results_of attach_pts_ns due =
     map (\<lambda>r. \<lparr>dt = the (sei_dt_ticks attach_pts_ns (src_pts_ns r)), boxes = src_boxes r\<rparr>)
       (stable_sort (\<lambda>a b. src_pts_ns a < src_pts_ns b) due)"

definition attach_results ::
    "sei_result list \<Rightarrow> sei_result_selector \<Rightarrow> (u8 list \<times> sei_result list) \<times> sei_result_selector" where
  "attach_results results0 s =
     (let (results1, n) = shrink_results results0;
          (results, nb) = (if length (encode_results results1) > kMaxDetectionSeiBytes
                           then fit_newest results1 else (results1, 0));
          st = count_dropped n (sel_stats s);
          (recent, i) = record_dts (recent_dt s) (next_dt s) (map dt results)
      in ((encode_results results, results),
          s\<lparr>recent_dt := recent, next_dt := i,
            sel_stats := st\<lparr>sei_units := sei_units st + 1,
                            results_attached := results_attached st + of_nat (length results),
                            boxes_dropped := boxes_dropped st + of_nat nb\<rparr>\<rparr>))"

text \<open>\<^verbatim>\<open>take_for\<close>: the NAL, empty when none is due; the second component
  is the list of results in it.\<close>

definition take_for ::
    "u64 \<Rightarrow> u64 \<Rightarrow> sei_result_selector \<Rightarrow> (u8 list \<times> sei_result list) \<times> sei_result_selector" where
  "take_for attach_pts_ns attach_generation s =
     (let (due, later, n) = split_pending attach_pts_ns attach_generation (pending s);
          s1 = s\<lparr>pending := later, sel_stats := count_dropped n (sel_stats s)\<rparr>
      in if due = [] then (([], []), s1)
         else attach_results (results_of attach_pts_ns due) s1)"

fun fp_ceil :: "fp \<Rightarrow> nat" where
  "fp_ceil (Fin x) = nat \<lceil>x\<rceil>"
| "fp_ceil _ = 0"

definition dt_percentile :: "fp \<Rightarrow> sei_result_selector \<Rightarrow> u32 option" where
  "dt_percentile q s =
     (if recent_dt s = [] then None
      else let sorted = sort (recent_dt s);
               rank = fp_ceil (fp_mul round64 (fp_clamp q (Fin 0) (Fin 1)) (Fin (of_nat (length sorted))))
           in Some (sorted ! (max rank 1 - 1)))"

section \<open>Emulation prevention\<close>

text \<open>What a decoder does: a 3 that follows two zeros is dropped.\<close>

fun remove_emulation :: "nat \<Rightarrow> u8 list \<Rightarrow> u8 list" where
  "remove_emulation zeros [] = []"
| "remove_emulation zeros (b # bs) =
     (if zeros \<ge> 2 \<and> b = 3 then remove_emulation 0 bs
      else b # remove_emulation (if b = 0 then zeros + 1 else 0) bs)"

lemma remove_emulation_prevention: "remove_emulation z (emulation_prevention z bs) = bs"
  by (induction bs arbitrary: z) (auto simp: Let_def)

lemma no_start_code_prefix:
  assumes "z \<le> 2" and "c \<le> (2::u8)"
  shows "\<not> sublist [0, 0, c] (replicate z 0 @ emulation_prevention z bs)"
  using assms(1)
proof (induction bs arbitrary: z)
  case Nil
  then have "length (replicate z 0) < length [0, 0, c]" by simp
  then show ?case using list_emb_length sublist_length_le by fastforce
next
  case (Cons b bs)
  have two: "replicate 2 0 = [0, 0 :: u8]" by (simp add: numeral_2_eq_2)
  have c: "c \<noteq> 3" using assms(2) by auto
  consider "z = 0" | "z = 1" | "z = 2" "b \<le> 3" | "z = 2" "\<not> b \<le> 3" using Cons.prems by linarith
  then show ?case
  proof cases
    case 1
    then show ?thesis using Cons.IH [of 0] Cons.IH [of 1] by (auto simp: sublist_Cons_right)
  next
    case 2
    then show ?thesis
      using Cons.IH [of 0] Cons.IH [of 2]
      by (auto simp: sublist_Cons_right two numeral_2_eq_2 [symmetric])
  next
    case 3
    then show ?thesis
      using Cons.IH [of 0] Cons.IH [of 1] c by (auto simp: sublist_Cons_right two)
  next
    case 4
    have "c \<le> 3" using assms(2) by (rule order_trans) simp
    then have "b \<noteq> c" "b \<noteq> 0" using 4 by auto
    with 4 show ?thesis using Cons.IH [of 0] by (auto simp: sublist_Cons_right two)
  qed
qed

lemma last_emulation_prevention: "last (emulation_prevention z (bs @ [b])) = b"
proof (induction bs arbitrary: z)
  case (Cons a bs)
  have "emulation_prevention n (bs @ [b]) \<noteq> []" for n by (cases bs) (simp_all add: Let_def)
  with Cons show ?case by (simp add: Let_def)
qed (simp add: Let_def)

lemma length_emulation_prevention: "length (emulation_prevention z bs) \<le> 2 * length bs"
proof (induction bs arbitrary: z)
  case (Cons b bs)
  then have "length (emulation_prevention n bs) \<le> Suc (2 * length bs)" for n
    by (rule le_SucI)
  then show ?case using Cons by (simp add: Let_def)
qed simp

section \<open>The scan for the first slice\<close>

definition vcl_start :: "u8 list \<Rightarrow> nat \<Rightarrow> bool" where
  "vcl_start au i \<longleftrightarrow> i + 3 < length au \<and> au ! i = 0 \<and> au ! (i + 1) = 0 \<and> au ! (i + 2) = 1 \<and>
     is_vcl (au ! (i + 3))"

lemma vcl_scan_first:
  "case vcl_scan au i of
     None \<Rightarrow> \<forall>j \<ge> i. \<not> vcl_start au j
   | Some k \<Rightarrow> i \<le> k \<and> vcl_start au k \<and> (\<forall>j. i \<le> j \<and> j < k \<longrightarrow> \<not> vcl_start au j)"
proof (induction au i rule: vcl_scan.induct)
  case (1 au i)
  consider (stop) "\<not> i + 3 < length au"
    | (step) "i + 3 < length au" "au ! i \<noteq> 0 \<or> au ! (i + 1) \<noteq> 0 \<or> au ! (i + 2) \<noteq> 1"
    | (hit) "i + 3 < length au" "au ! i = 0" "au ! (i + 1) = 0" "au ! (i + 2) = 1" "is_vcl (au ! (i + 3))"
    | (other) "i + 3 < length au" "au ! i = 0" "au ! (i + 1) = 0" "au ! (i + 2) = 1"
        "\<not> is_vcl (au ! (i + 3))"
    by blast
  then show ?case
  proof cases
    case stop
    then show ?thesis by (subst vcl_scan.simps) (auto simp: vcl_start_def)
  next
    case step
    then have "\<not> vcl_start au i" by (auto simp: vcl_start_def)
    then have skip: "\<not> vcl_start au j" if "i \<le> j" "j < i + 1" for j using that by (simp add: le_less_Suc_eq)
    show ?thesis
      using "1.IH"(1) [OF step(1,2)] step skip
      by (subst vcl_scan.simps) (fastforce split: option.splits simp: not_less)
  next
    case hit
    then show ?thesis by (subst vcl_scan.simps) (auto simp: vcl_start_def)
  next
    case other
    have skip: "\<not> vcl_start au j" if "i \<le> j" "j < i + 3" for j
    proof -
      consider "j = i" | "j = i + 1" | "j = i + 2" using \<open>i \<le> j\<close> \<open>j < i + 3\<close> by linarith
      then show ?thesis by cases (use other in \<open>auto simp: vcl_start_def\<close>)
    qed
    show ?thesis
      using "1.IH"(2) other skip
      by (subst vcl_scan.simps) (fastforce split: option.splits simp: not_less)
  qed
qed

section \<open>The selector\<close>

lemma append_number_prefix: "append_number out v = out @ append_number [] v"
  by (simp add: append_number_def Let_def)

lemma detection_sei_json_no_box:
  "detection_sei_json [r\<lparr>boxes := []\<rparr>] =
     ''{'' @ quoted ''v'' @ '':1,'' @ quoted ''r'' @ '':['' @
     ''{'' @ quoted ''dt'' @ '':'' @ to_string (unat (dt r)) @ '','' @ quoted ''b'' @ '':['' @ '']}'' @ '']}''"
  by (simp add: detection_sei_json_def Let_def)

lemma length_encode_no_box: "length (encode_results [r\<lparr>boxes := []\<rparr>]) \<le> kMaxDetectionSeiBytes"
proof -
  let ?json = "detection_sei_json [r\<lparr>boxes := []\<rparr>]"
  have "unat (dt r) < 10 ^ 10" using unsigned_less [where ?'a = nat and w = "dt r"] by simp
  then have "length (to_string (unat (dt r))) \<le> 10" by (rule length_to_string) simp
  then have json: "length ?json \<le> 60"
    by (simp add: detection_sei_json_no_box quoted_def)
  then have "length (sei_rbsp kDetectionSeiUuid (string_bytes ?json)) \<le> 80"
    by (simp add: sei_rbsp_def kDetectionSeiUuid_def string_bytes_def size_bytes.simps)
  then show ?thesis
    using length_emulation_prevention [of 0 "sei_rbsp kDetectionSeiUuid (string_bytes ?json)"]
    by (simp add: encode_results_def encode_user_data_sei_nal_def)
qed

lemma fit_boxes_fits:
  "length (encode_results [r\<lparr>boxes := take fits bs\<rparr>]) \<le> kMaxDetectionSeiBytes \<Longrightarrow>
    length (encode_results [r\<lparr>boxes := take (fit_boxes r bs fits too_many) bs\<rparr>]) \<le> kMaxDetectionSeiBytes"
proof (induction r bs fits too_many rule: fit_boxes.induct)
  case (1 r bs fits too_many)
  show ?case
    using "1.IH" "1.prems" by (subst fit_boxes.simps) (simp add: Let_def)
qed

lemma shrink_results_fits:
  assumes "shrink_results rs = (res, n)" and "rs \<noteq> []"
  shows "res \<noteq> [] \<and> suffix res rs \<and> length rs = length res + n \<and>
    (length (encode_results res) \<le> kMaxDetectionSeiBytes \<or> (\<exists>r. res = [r]))"
  using assms
proof (induction rs arbitrary: res n rule: shrink_results.induct)
  case (1 r r2 rs)
  show ?case
  proof (cases "length (encode_results (r # r2 # rs)) > kMaxDetectionSeiBytes")
    case True
    obtain res' n' where rec: "shrink_results (r2 # rs) = (res', n')" by fastforce
    with 1 True show ?thesis by (auto intro: suffix_ConsI)
  qed (use 1 in auto)
qed auto

lemma split_pending_length:
  "split_pending pts gen rs = (due, later, n) \<Longrightarrow> length rs = length due + length later + n"
  by (induction rs arbitrary: due later n) (auto split: prod.splits if_splits)

lemma split_pending_due:
  "split_pending pts gen rs = (due, later, n) \<Longrightarrow>
    due = filter (\<lambda>r. \<not> is_later gen r \<and> \<not> is_stale pts gen r) rs \<and> later = filter (is_later gen) rs"
  by (induction rs arbitrary: due later n) (auto split: prod.splits if_splits)

lemma fit_newest_length: "length (fst (fit_newest rs)) = length rs"
  by (cases rs) (simp_all add: fit_newest_def Let_def)

lemma attach_results_size:
  assumes "results \<noteq> []"
  shows "length (fst (fst (attach_results results s))) \<le> kMaxDetectionSeiBytes"
proof -
  obtain res n where shrink: "shrink_results results = (res, n)" by fastforce
  note fits = shrink_results_fits [OF this assms]
  show ?thesis
  proof (cases "length (encode_results res) > kMaxDetectionSeiBytes")
    case True
    then obtain r where res: "res = [r]" using fits by auto
    let ?bs = "stable_sort (\<lambda>a b. fp_less (box_score b) (box_score a)) (boxes r)"
    have "length (encode_results [r\<lparr>boxes := take (fit_boxes r ?bs 0 (length ?bs)) ?bs\<rparr>])
        \<le> kMaxDetectionSeiBytes"
      by (rule fit_boxes_fits) (simp only: take_0 length_encode_no_box)
    then show ?thesis
      using True shrink res
      by (simp add: attach_results_def fit_newest_def Let_def split: prod.split)
  qed (use shrink in \<open>simp add: attach_results_def Let_def split: prod.split\<close>)
qed

lemma attach_results_counts:
  assumes "results \<noteq> []"
  shows "results_attached (sel_stats (snd (attach_results results s))) +
      results_dropped (sel_stats (snd (attach_results results s))) =
    results_attached (sel_stats s) + results_dropped (sel_stats s) + of_nat (length results) \<and>
    pending (snd (attach_results results s)) = pending s \<and>
    max_pending (snd (attach_results results s)) = max_pending s"
proof -
  obtain res n where shrink: "shrink_results results = (res, n)" by fastforce
  then have len: "length results = length res + n" using shrink_results_fits assms by blast
  obtain fitted nb where fit: "fit_newest res = (fitted, nb)" by fastforce
  then have "length fitted = length res" using fit_newest_length [of res] by simp
  then show ?thesis
    using shrink len fit
    by (simp add: attach_results_def count_dropped_def Let_def split: prod.split)
qed

lemma results_of_length [simp]: "length (results_of pts due) = length due"
  by (simp add: results_of_def)

lemma take_for_counts:
  assumes "take_for pts gen s = (out, s')"
  shows "of_nat (length (pending s')) + results_attached (sel_stats s') + results_dropped (sel_stats s') =
    of_nat (length (pending s)) + results_attached (sel_stats s) + results_dropped (sel_stats s) \<and>
    length (pending s') \<le> length (pending s) \<and> max_pending s' = max_pending s"
proof -
  obtain due later n where split: "split_pending pts gen (pending s) = (due, later, n)"
    by (metis prod_cases3)
  note len = split_pending_length [OF split]
  let ?s1 = "s\<lparr>pending := later, sel_stats := count_dropped n (sel_stats s)\<rparr>"
  show ?thesis
  proof (cases "due = []")
    case True
    then have "s' = ?s1" using assms split by (simp add: take_for_def)
    then show ?thesis using len True by (simp add: count_dropped_def)
  next
    case False
    then have s': "s' = snd (attach_results (results_of pts due) ?s1)"
      using assms split by (simp add: take_for_def)
    have "results_of pts due \<noteq> []" using False by (metis length_0_conv results_of_length)
    note att = attach_results_counts [OF this, of ?s1, folded s']
    have p: "pending s' = later" "max_pending s' = max_pending s" using att by simp_all
    have "results_attached (sel_stats s') + results_dropped (sel_stats s') =
        results_attached (sel_stats s) + results_dropped (sel_stats s) + of_nat n + of_nat (length due)"
      using att by (simp add: count_dropped_def)
    then show ?thesis using p len by (simp add: algebra_simps)
  qed
qed

lemma oldest_less: "xs \<noteq> [] \<Longrightarrow> oldest xs < length xs"
  by (induction xs rule: oldest.induct) (auto simp: Let_def)

lemma length_erase_at: "i < length xs \<Longrightarrow> length (erase_at i xs) = length xs - 1"
  by (simp add: erase_at_def)

lemma sel_add_counts:
  "of_nat (length (pending (sel_add r s))) + results_attached (sel_stats (sel_add r s)) +
     results_dropped (sel_stats (sel_add r s)) =
   of_nat (length (pending s)) + results_attached (sel_stats s) + results_dropped (sel_stats s) + 1 \<and>
   max_pending (sel_add r s) = max_pending s \<and>
   (length (pending s) \<le> max_pending s \<longrightarrow> length (pending (sel_add r s)) \<le> max_pending s)"
  using oldest_less [of "pending s @ [r]"]
  by (simp add: sel_add_def count_dropped_def length_erase_at Let_def)

datatype sel_op = Add sei_source_result | Take u64 u64

fun sel_step :: "sel_op \<Rightarrow> sei_result_selector \<Rightarrow> sei_result_selector" where
  "sel_step (Add r) s = sel_add r s"
| "sel_step (Take pts gen) s = snd (take_for pts gen s)"

fun is_add :: "sel_op \<Rightarrow> bool" where
  "is_add (Add r) = True"
| "is_add (Take pts gen) = False"

lemma sel_run_counts:
  assumes "length (pending s) \<le> max_pending s"
  shows "of_nat (length (pending (fold sel_step ops s))) +
      results_attached (sel_stats (fold sel_step ops s)) + results_dropped (sel_stats (fold sel_step ops s)) =
    of_nat (length (pending s)) + results_attached (sel_stats s) + results_dropped (sel_stats s) +
      of_nat (length (filter is_add ops)) \<and>
    length (pending (fold sel_step ops s)) \<le> max_pending s"
  using assms
proof (induction ops arbitrary: s)
  case (Cons x ops)
  show ?case
  proof (cases x)
    case (Add r)
    then show ?thesis using Cons.IH [of "sel_add r s"] sel_add_counts [of r s] Cons.prems by simp
  next
    case (Take pts gen)
    obtain out s' where t: "take_for pts gen s = (out, s')" by fastforce
    show ?thesis
      using Cons.IH [of s'] take_for_counts [OF t] Cons.prems Take t by simp
  qed
qed simp

section \<open>What rides on which unit\<close>

interpretation due_order: strict_weak_order "\<lambda>a b. src_pts_ns a < src_pts_ns b" "\<lambda>_. True"
  by unfold_locales auto

lemma unat_scaled_elapsed:
  "unat (e :: u64) \<le> 1000000000 \<Longrightarrow> unat (e * 9 + 50000) = 9 * unat e + 50000"
  by (simp add: unat_word_ariths)

lemma sei_dt_ticks_window:
  assumes "unat pts \<le> unat attach" and "unat attach - unat pts \<le> 1000000000"
  shows "\<exists>d. sei_dt_ticks attach pts = Some d \<and>
    unat d = (9 * (unat attach - unat pts) + 50000) div 100000"
proof -
  let ?e = "attach - pts"
  have le: "pts \<le> attach" using assms(1) by (simp add: word_le_nat_alt)
  then have e: "unat ?e = unat attach - unat pts" by (rule unat_sub)
  have "unat (?e * 9 + 50000) = 9 * unat ?e + 50000"
    using assms(2) by (intro unat_scaled_elapsed) (simp only: e)
  then have div: "unat ((?e * 9 + 50000) div 100000) = (9 * unat ?e + 50000) div 100000"
    by (simp add: unat_div_distrib)
  have "(9 * unat ?e + 50000) div 100000 < 4294967296"
    using assms(2) e by simp
  then have "unat (ucast ((?e * 9 + 50000) div 100000) :: u32) = (9 * unat ?e + 50000) div 100000"
    unfolding unsigned_ucast_eq div by (simp add: take_bit_eq_mod)
  then show ?thesis using le e by (simp add: sei_dt_ticks_def not_less)
qed

lemma due_window:
  "\<not> is_later gen r \<and> \<not> is_stale attach gen r \<longleftrightarrow>
     src_generation r = gen \<and> unat (src_pts_ns r) \<le> unat attach \<and>
     unat attach - unat (src_pts_ns r) \<le> 1000000000"
proof (cases "src_pts_ns r \<le> attach")
  case True
  then have "attach - src_pts_ns r > kResultWindowNs \<longleftrightarrow> unat attach - unat (src_pts_ns r) > 1000000000"
    by (simp add: word_less_nat_alt unat_sub)
  moreover have "unat (src_pts_ns r) \<le> unat attach" using True by (simp add: word_le_nat_alt)
  ultimately show ?thesis
    using True by (auto simp: is_later_def is_stale_def not_less)
next
  case False
  then show ?thesis by (auto simp: is_later_def is_stale_def word_le_nat_alt word_less_nat_alt not_le)
qed

lemma shrink_results_suffix: "rs \<noteq> [] \<Longrightarrow> suffix (fst (shrink_results rs)) rs"
  using shrink_results_fits by (metis prod.collapse)

definition kept_of :: "sei_result \<Rightarrow> sei_result \<Rightarrow> bool" where
  "kept_of a b \<longleftrightarrow> dt b = dt a \<and> set (boxes b) \<subseteq> set (boxes a)"

lemma kept_of_refl: "list_all2 kept_of rs rs"
  by (simp add: list_all2_same kept_of_def)

lemma fit_newest_kept: "list_all2 kept_of rs (fst (fit_newest rs))"
proof (cases rs)
  case (Cons r rs')
  have "set (take n (stable_sort lt (boxes r))) \<subseteq> set (boxes r)" for n lt
    using set_take_subset by fastforce
  then show ?thesis using Cons kept_of_refl by (simp add: fit_newest_def kept_of_def Let_def)
qed (simp add: fit_newest_def)

lemma attach_results_kept:
  assumes "results \<noteq> []"
  shows "\<exists>old kept. results = old @ kept \<and> kept \<noteq> [] \<and>
    list_all2 kept_of kept (snd (fst (attach_results results s))) \<and>
    fst (fst (attach_results results s)) = encode_results (snd (fst (attach_results results s)))"
proof -
  obtain res n where shrink: "shrink_results results = (res, n)" by fastforce
  obtain old where old: "results = old @ res" "res \<noteq> []"
    using shrink_results_fits [OF shrink assms] by (auto simp: suffix_def)
  obtain fitted nb where fit: "fit_newest res = (fitted, nb)" by fastforce
  then have "list_all2 kept_of res fitted" using fit_newest_kept [of res] by simp
  then have "list_all2 kept_of res (snd (fst (attach_results results s))) \<and>
      fst (fst (attach_results results s)) = encode_results (snd (fst (attach_results results s)))"
    using shrink fit kept_of_refl by (simp add: attach_results_def Let_def split: prod.split)
  with old show ?thesis by blast
qed

definition due_results :: "u64 \<Rightarrow> u64 \<Rightarrow> sei_result_selector \<Rightarrow> sei_source_result list" where
  "due_results attach gen s =
     stable_sort (\<lambda>a b. src_pts_ns a < src_pts_ns b)
       (filter (\<lambda>r. src_generation r = gen \<and> unat (src_pts_ns r) \<le> unat attach \<and>
                    unat attach - unat (src_pts_ns r) \<le> 1000000000) (pending s))"

lemma take_for_attaches:
  "take_for attach gen s =
     (let s1 = s\<lparr>pending := filter (is_later gen) (pending s),
                sel_stats := count_dropped (snd (snd (split_pending attach gen (pending s)))) (sel_stats s)\<rparr>;
          due = due_results attach gen s
      in if due = [] then (([], []), s1)
         else attach_results
           (map (\<lambda>r. \<lparr>dt = the (sei_dt_ticks attach (src_pts_ns r)), boxes = src_boxes r\<rparr>) due) s1)"
proof -
  obtain due later n where split: "split_pending attach gen (pending s) = (due, later, n)"
    by (metis prod_cases3)
  have sorted_due: "due_results attach gen s = stable_sort (\<lambda>a b. src_pts_ns a < src_pts_ns b) due"
    using split_pending_due [OF split] by (simp add: due_results_def due_window)
  then have "due_results attach gen s = [] \<longleftrightarrow> due = []"
    by (metis set_empty set_stable_sort)
  then show ?thesis
    using split split_pending_due [OF split] sorted_due
    by (simp add: take_for_def results_of_def Let_def)
qed

definition carries :: "u64 \<Rightarrow> sei_source_result \<Rightarrow> sei_result \<Rightarrow> bool" where
  "carries attach src r \<longleftrightarrow>
     unat (dt r) = (9 * (unat attach - unat (src_pts_ns src)) + 50000) div 100000 \<and>
     set (boxes r) \<subseteq> set (src_boxes src)"

lemma kept_carries:
  assumes "src \<in> set (due_results attach gen s)"
    and "kept_of \<lparr>dt = the (sei_dt_ticks attach (src_pts_ns src)), boxes = src_boxes src\<rparr> r"
  shows "carries attach src r"
proof -
  have "unat (src_pts_ns src) \<le> unat attach" "unat attach - unat (src_pts_ns src) \<le> 1000000000"
    using assms(1) by (auto simp: due_results_def)
  from sei_dt_ticks_window [OF this] assms(2) show ?thesis
    by (auto simp: carries_def kept_of_def)
qed

text \<open>C32: For every access unit, \<^verbatim>\<open>SeiResultSelector::take_for\<close> returns the
  empty NAL exactly when no pending result of the same pipeline generation was captured at most one
  second before the unit. Otherwise the NAL encodes a non-empty tail of those results, oldest first,
  so only the oldest are left out; each carries its distance to the unit in 90 kHz ticks, rounded to
  nearest without overflow, and only boxes of its own source; and the NAL is at most
  \<^verbatim>\<open>kMaxDetectionSeiBytes\<close> long. Results of a later pipeline stay pending and
  nothing else does.\<close>

theorem take_for_selects_due:
  "let ((nal, res), s') = take_for attach gen s; due = due_results attach gen s in
     pending s' = filter (\<lambda>r. gen < src_generation r) (pending s) \<and>
     sorted_wrt (\<lambda>a b. src_pts_ns a \<le> src_pts_ns b) due \<and>
     (if due = [] then nal = [] \<and> res = []
      else length nal \<le> kMaxDetectionSeiBytes \<and> nal = encode_results res \<and>
        (\<exists>old kept. due = old @ kept \<and> kept \<noteq> [] \<and> list_all2 (carries attach) kept res))"
proof -
  obtain nal res s' where t: "take_for attach gen s = ((nal, res), s')" by (metis prod.collapse)
  let ?due = "due_results attach gen s"
  have sorted: "sorted_wrt (\<lambda>a b. src_pts_ns a \<le> src_pts_ns b) ?due"
    using due_order.sorted_stable_sort by (simp add: due_results_def not_less list_all_iff)
  have later: "is_later gen = (\<lambda>r. gen < src_generation r)" by (simp add: is_later_def fun_eq_iff)
  show ?thesis
  proof (cases "?due = []")
    case True
    then show ?thesis using t sorted take_for_attaches [of attach gen s] later by (auto simp: Let_def)
  next
    case False
    let ?s1 = "s\<lparr>pending := filter (is_later gen) (pending s),
      sel_stats := count_dropped (snd (snd (split_pending attach gen (pending s)))) (sel_stats s)\<rparr>"
    let ?f = "\<lambda>r. \<lparr>dt = the (sei_dt_ticks attach (src_pts_ns r)), boxes = src_boxes r\<rparr>"
    have att: "attach_results (map ?f ?due) ?s1 = ((nal, res), s')"
      using t False take_for_attaches [of attach gen s] by (simp add: Let_def)
    have ne: "map ?f ?due \<noteq> []" using False by simp
    obtain old kept where k: "map ?f ?due = old @ kept" "kept \<noteq> []" "list_all2 kept_of kept res"
      "nal = encode_results res"
      using attach_results_kept [OF ne, of ?s1] att by auto
    then obtain old' kept' where d: "?due = old' @ kept'" "kept = map ?f kept'"
      by (auto simp: map_eq_append_conv)
    have "list_all2 (carries attach) kept' res"
      using k(3) d kept_carries [of _ attach gen s] unfolding d(2) list_all2_map1
      by (auto elim!: list.rel_mono_strong simp: d(1))
    moreover have "length nal \<le> kMaxDetectionSeiBytes" "pending s' = filter (is_later gen) (pending s)"
      using attach_results_size [OF ne, of ?s1] attach_results_counts [OF ne, of ?s1] att by auto
    ultimately show ?thesis using t sorted False d k by (auto simp: Let_def later)
  qed
qed

text \<open>Over any sequence of \<^verbatim>\<open>add\<close> and
  \<^verbatim>\<open>take_for\<close> calls on a fresh selector, at most
  \<^verbatim>\<open>max_pending\<close> results wait, and every result ever added is waiting, counted
  as attached, or counted as dropped (modulo the width of the counters).\<close>

theorem selector_accounts_for_all:
  "let s = fold sel_step ops (new_selector n) in
     length (pending s) \<le> n \<and>
     of_nat (length (pending s)) + results_attached (sel_stats s) + results_dropped (sel_stats s) =
       of_nat (length (filter is_add ops))"
  using sel_run_counts [of "new_selector n" ops] by (simp add: new_selector_def Let_def)

section \<open>Framing and insertion\<close>


lemma sum_size_bytes: "sum_list (map unat (size_bytes n)) = n \<and> (\<forall>b \<in> set (butlast (size_bytes n)). b = 0xff)
    \<and> size_bytes n \<noteq> [] \<and> unat (last (size_bytes n)) < 255"
proof (induction n rule: size_bytes.induct)
  case (1 n)
  show ?case
  proof (cases "n \<ge> 255")
    case True
    with 1 show ?thesis by (subst (1 2 3 4) size_bytes.simps) auto
  next
    case False
    then have "unat (of_nat n :: u8) = n" by (simp add: unat_of_nat)
    with False show ?thesis by (subst (1 2 3 4) size_bytes.simps) simp
  qed
qed

definition first_slice :: "u8 list \<Rightarrow> nat \<Rightarrow> bool" where
  "first_slice au k \<longleftrightarrow> vcl_start au k \<and> (\<forall>j < k. \<not> vcl_start au j)"

text \<open>\<^verbatim>\<open>insert_before_first_vcl\<close> returns false and leaves the unit as it
  was exactly when no slice NAL starts in it. Otherwise the NAL is inserted in front of the start
  code of the first slice, four-byte start codes included, and nothing else changes.\<close>

theorem insert_before_first_vcl_correct:
  "case insert_before_first_vcl au nal of
     (False, au') \<Rightarrow> au' = au \<and> \<not> (\<exists>j. vcl_start au j)
   | (True, au') \<Rightarrow> \<exists>k pre post. first_slice au k \<and> au = pre @ post \<and> au' = pre @ nal @ post \<and>
       (if 0 < k \<and> au ! (k - 1) = 0 then Suc (length pre) = k else length pre = k)"
proof (cases "vcl_scan au 0")
  case None
  then show ?thesis using vcl_scan_first [where au = au and i = 0] by (simp add: insert_before_first_vcl_def)
next
  case (Some k)
  then have k: "first_slice au k"
    using vcl_scan_first [where au = au and i = 0] by (auto simp: first_slice_def)
  then have len: "k < length au" by (simp add: first_slice_def vcl_start_def)
  define pos where "pos = (if 0 < k \<and> au ! (k - 1) = 0 then k - 1 else k)"
  have "insert_before_first_vcl au nal = (True, take pos au @ nal @ drop pos au)"
    using Some by (simp add: insert_before_first_vcl_def pos_def Let_def)
  moreover have "if 0 < k \<and> au ! (k - 1) = 0 then Suc (length (take pos au)) = k
      else length (take pos au) = k"
    using len by (simp add: pos_def)
  ultimately show ?thesis
    using k append_take_drop_id [of pos au, symmetric] by (simp only: prod.case bool.case) blast
qed

section \<open>Normalized boxes\<close>

definition in_unit :: "fp \<Rightarrow> bool" where
  "in_unit v \<longleftrightarrow> (\<exists>r. v = Fin r \<and> 0 \<le> r \<and> r \<le> 1)"

lemma clamp_unit_in_unit: "in_unit (clamp_unit v)"
  by (cases v) (auto simp: clamp_unit_def in_unit_def fp_clamp_def)

lemma round4_in_unit: "in_unit v \<Longrightarrow> in_unit (round4 v)"
proof -
  assume "in_unit v"
  then obtain r where v: "v = Fin r" "0 \<le> r" "r \<le> 1" by (auto simp: in_unit_def)
  then obtain s where s: "round64 (r * 10000) = Fin s" "0 \<le> s" "s \<le> of_nat 10000"
    using f64.rnd_nat_range [of 10000 "r * 10000"] by auto
  then have "0 \<le> round_half_away s \<and> round_half_away s \<le> 10000"
    using round_half_away_range [of s 10000] by simp
  then obtain t where "round64 (of_int (round_half_away s) / 10000) = Fin t" "0 \<le> t" "t \<le> 1"
    using f64.rnd_unit [of "of_int (round_half_away s) / 10000"] by auto
  then show "in_unit (round4 v)" using v s by (simp add: round4_def fp_mul_def fp_div_def in_unit_def)
qed

lemma extent_in_unit:
  assumes "in_unit a" and "in_unit b"
  shows "in_unit (fp_max (Fin 0) (fp_sub round64 a b))"
proof -
  obtain x y where a: "a = Fin x" "0 \<le> x" "x \<le> 1" and b: "b = Fin y" "0 \<le> y" "y \<le> 1"
    using assms by (auto simp: in_unit_def)
  then obtain r where "round64 (x - y) = Fin r" "-1 \<le> r" "r \<le> 1"
    using f64.rnd_int_range [of "-1" 1 "x - y"] by auto
  then show ?thesis using a b by (auto simp: fp_sub_def fp_max_def in_unit_def)
qed

text \<open>Whatever the detector reports, infinite and NaN coordinates and empty frames
  included, every coordinate, extent and score of a normalized box is a finite number from 0 to
  1, in IEEE double arithmetic with its roundings.\<close>

theorem normalize_sei_box_in_unit:
  "let b = normalize_sei_box x1 y1 x2 y2 fw fh cls score in
     in_unit (box_x b) \<and> in_unit (box_y b) \<and> in_unit (box_w b) \<and> in_unit (box_h b) \<and>
     in_unit (box_score b) \<and> box_class b = cls"
proof -
  have "in_unit (Fin 0)" by (simp add: in_unit_def)
  then show ?thesis
    by (simp add: normalize_sei_box_def round4_in_unit clamp_unit_in_unit extent_in_unit Let_def)
qed

end
