(* ===== verification/Config.thy ===== *)
theory Config
  imports Skai_Prelude Cpp_Float
begin

text \<open>
  \<^verbatim>\<open>include/skai/config.hpp\<close> and \<^verbatim>\<open>src/config.cpp\<close>: the
  configuration records with their defaults, the checks of every value, and the translation of a
  YAML document.  The YAML library is a parameter: \<open>yaml_load\<close> gives the document of a text or the
  message of the exception it throws, and the conversions of a scalar give \<open>None\<close> where
  \<^verbatim>\<open>Node::as<T>\<close> throws.  So are \<^verbatim>\<open>inet_pton\<close> and the web
  root that the build sets.
\<close>

section \<open>Records\<close>

datatype log_level = Log_Trace | Log_Debug | Log_Info | Log_Warning | Log_Error

record video_config =
  rtsp_url :: string
  vc_username :: string
  vc_password :: string
  transport :: string
  latency_ms :: int
  reconnect_delay_ms :: int
  max_reconnect_delay_ms :: int
  stall_timeout_ms :: int
  first_frame_timeout_ms :: int

record detector_config =
  dc_engine :: string
  dc_confidence :: fp
  dc_nms :: fp
  dc_annotate :: bool

record web_config =
  wc_bind :: string
  wc_port :: int
  wc_root :: string

record recording_config =
  rc_enabled :: bool
  rc_directory :: string
  segment_seconds :: int
  max_storage_mb :: u64
  min_free_space_mb :: u64

record storage_config =
  database_path :: string
  alert_directory :: string

record alert_roi =
  roi_x1 :: fp
  roi_y1 :: fp
  roi_x2 :: fp
  roi_y2 :: fp

record alert_rule_config =
  rule_class :: string
  rule_confidence :: fp
  consecutive_frames :: int
  cooldown_seconds :: int
  rule_roi :: "alert_roi option"

record gps_config =
  gc_enabled :: bool
  gc_source :: string
  gc_latitude :: fp
  gc_longitude :: fp
  gc_altitude_m :: fp

record webrtc_config =
  wrc_enabled :: bool
  max_peers :: int
  connection_timeout_ms :: int
  media_queue_capacity :: int
  host_interfaces :: "string list"
  ice_log_verbosity :: int

record whip_config =
  whip_enabled :: bool
  whip_url :: string

record config =
  cfg_video :: video_config
  cfg_detector :: detector_config
  cfg_web :: web_config
  cfg_recording :: recording_config
  cfg_storage :: storage_config
  cfg_alerts :: "alert_rule_config list"
  cfg_gps :: gps_config
  cfg_webrtc :: webrtc_config
  cfg_whip :: whip_config
  cfg_log_level :: log_level

definition default_video :: video_config where
  "default_video =
     \<lparr>rtsp_url = ''rtsp://127.0.0.1/stream'', vc_username = [], vc_password = [], transport = ''tcp'',
      latency_ms = 100, reconnect_delay_ms = 1000, max_reconnect_delay_ms = 10000,
      stall_timeout_ms = 3000, first_frame_timeout_ms = 15000\<rparr>"

definition default_detector :: detector_config where
  "default_detector =
     \<lparr>dc_engine = ''models/yolo11s.engine'', dc_confidence = round64 (35/100), dc_nms = round64 (45/100),
      dc_annotate = True\<rparr>"

definition default_web :: "string \<Rightarrow> web_config" where
  "default_web web_root = \<lparr>wc_bind = ''0.0.0.0'', wc_port = 8080, wc_root = web_root\<rparr>"

definition default_recording :: recording_config where
  "default_recording =
     \<lparr>rc_enabled = True, rc_directory = ''recordings'', segment_seconds = 60, max_storage_mb = 1024,
      min_free_space_mb = 100\<rparr>"

definition default_storage :: storage_config where
  "default_storage =
     \<lparr>database_path = ''/var/lib/skai-edge/skai-edge.db'', alert_directory = ''/var/lib/skai-edge/alerts''\<rparr>"

definition default_roi :: alert_roi where
  "default_roi = \<lparr>roi_x1 = Fin 0, roi_y1 = Fin 0, roi_x2 = Fin 1, roi_y2 = Fin 1\<rparr>"

definition default_rule :: alert_rule_config where
  "default_rule =
     \<lparr>rule_class = [], rule_confidence = round64 (7/10), consecutive_frames = 1, cooldown_seconds = 10,
      rule_roi = None\<rparr>"

definition default_gps :: gps_config where
  "default_gps =
     \<lparr>gc_enabled = True, gc_source = ''fixed'', gc_latitude = round64 (25033964/1000000),
      gc_longitude = round64 (121564468/1000000), gc_altitude_m = Fin 10\<rparr>"

definition default_webrtc :: webrtc_config where
  "default_webrtc =
     \<lparr>wrc_enabled = True, max_peers = 2, connection_timeout_ms = 15000, media_queue_capacity = 8,
      host_interfaces = [''eth0'', ''wlan0''], ice_log_verbosity = 1\<rparr>"

definition default_whip :: whip_config where
  "default_whip = \<lparr>whip_enabled = False, whip_url = []\<rparr>"

definition default_config :: "string \<Rightarrow> config" where
  "default_config web_root =
     \<lparr>cfg_video = default_video, cfg_detector = default_detector, cfg_web = default_web web_root,
      cfg_recording = default_recording, cfg_storage = default_storage, cfg_alerts = [],
      cfg_gps = default_gps, cfg_webrtc = default_webrtc, cfg_whip = default_whip,
      cfg_log_level = Log_Info\<rparr>"

section \<open>The code the program only calls\<close>

datatype yaml_node =
    Null
  | Scalar string
  | Sequence "yaml_node list"
  | Mapping "(yaml_node \<times> yaml_node) list"

record config_env =
  yaml_load :: "string \<Rightarrow> yaml_node result"
  as_int :: "string \<Rightarrow> int option"
  as_u64 :: "string \<Rightarrow> u64 option"
  as_double :: "string \<Rightarrow> fp option"
  as_bool :: "string \<Rightarrow> bool option"
  inet_pton4 :: "string \<Rightarrow> bool"
  inet_pton6 :: "string \<Rightarrow> bool"
  web_root_default :: string

section \<open>Steps that may throw\<close>

primrec run_steps :: "('c \<Rightarrow> 'c result) list \<Rightarrow> 'c \<Rightarrow> 'c result" where
  "run_steps [] c = Inr c"
| "run_steps (f # fs) c = (case f c of Inl e \<Rightarrow> Inl e | Inr c' \<Rightarrow> run_steps fs c')"

definition check_range :: "bool \<Rightarrow> string \<Rightarrow> string \<Rightarrow> unit \<Rightarrow> unit result" where
  "check_range valid field requirement u =
     (if \<not> valid then Inl (field @ '' '' @ requirement) else Inr ())"

fun check_entries ::
    "(yaml_node \<times> yaml_node) list \<Rightarrow> string set \<Rightarrow> string \<Rightarrow> string list \<Rightarrow> unit result" where
  "check_entries [] seen path allowed = Inr ()"
| "check_entries ((k, v) # entries) seen path allowed =
     (case k of
        Scalar key \<Rightarrow>
          let field = (if path = [] then key else path @ ''.'' @ key) in
          if key \<in> seen then Inl (field @ '' is duplicated'')
          else if key \<notin> set allowed then Inl (''unknown configuration key: '' @ field)
          else check_entries entries (insert key seen) path allowed
      | _ \<Rightarrow> Inl (path @ '' has a non-string key''))"

definition check_keys :: "yaml_node \<Rightarrow> string \<Rightarrow> string list \<Rightarrow> unit result" where
  "check_keys node path allowed =
     (case node of
        Mapping entries \<Rightarrow> check_entries entries {} path allowed
      | _ \<Rightarrow> Inl (path @ '' must be a mapping''))"

text \<open>\<^verbatim>\<open>node[key]\<close>; \<open>None\<close> is the undefined node.\<close>

fun yaml_get :: "yaml_node \<Rightarrow> string \<Rightarrow> yaml_node option" where
  "yaml_get (Mapping entries) key = map_of entries (Scalar key)"
| "yaml_get _ key = None"

definition read_scalar ::
    "(string \<Rightarrow> 'v option) \<Rightarrow> yaml_node \<Rightarrow> string \<Rightarrow> string \<Rightarrow> ('v \<Rightarrow> 'c \<Rightarrow> 'c) \<Rightarrow> 'c \<Rightarrow> 'c result" where
  "read_scalar conv section_node key path assign c =
     (case yaml_get section_node key of
        None \<Rightarrow> Inr c
      | Some (Scalar text) \<Rightarrow>
          (case conv text of
             Some v \<Rightarrow> Inr (assign v c)
           | None \<Rightarrow> Inl (path @ ''.'' @ key @ '' has an invalid value''))
      | Some _ \<Rightarrow> Inl (path @ ''.'' @ key @ '' must be a scalar''))"

section \<open>Hosts, ports and endpoints\<close>

text \<open>\<^verbatim>\<open>std::from_chars\<close> for \<^verbatim>\<open>unsigned int\<close>: the value and
  the number of characters read.\<close>

definition from_chars_uint :: "string \<Rightarrow> (nat \<times> nat) option" where
  "from_chars_uint text =
     (let digits = takeWhile is_digit text in
      if digits = [] \<or> decimal_value digits \<ge> 2 ^ 32 then None
      else Some (decimal_value digits, length digits))"

definition valid_port :: "string \<Rightarrow> bool" where
  "valid_port text \<longleftrightarrow> text \<noteq> [] \<and>
     (case from_chars_uint text of
        None \<Rightarrow> False
      | Some (port, n) \<Rightarrow> n = length text \<and> port \<ge> 1 \<and> port \<le> 65535)"

definition loopback_http_endpoint :: "string \<Rightarrow> bool" where
  "loopback_http_endpoint url =
     (let pre = ''http://127.0.0.1:'' in
      if \<not> starts_with pre url then False
      else case find_from (\<lambda>c. c = CHR ''/'') (length pre) url of
             None \<Rightarrow> False
           | Some path \<Rightarrow> valid_port (substr (length pre) (Some (path - length pre)) url))"

definition isalnum :: "char \<Rightarrow> bool" where
  "isalnum c = (let b = (of_char c :: nat) in
     (48 \<le> b \<and> b \<le> 57) \<or> (65 \<le> b \<and> b \<le> 90) \<or> (97 \<le> b \<and> b \<le> 122))"

definition find_dot :: "nat \<Rightarrow> string \<Rightarrow> nat option" where
  "find_dot start host = find_from (\<lambda>c. c = CHR ''.'') start host"

lemma find_dot_bound: "find_dot start host = Some e \<Longrightarrow> start \<le> e \<and> e < length host"
  using find_from_bound by (fastforce simp: find_dot_def)

text \<open>The loop over the labels of a host name.\<close>

function hostname_loop :: "string \<Rightarrow> nat \<Rightarrow> bool" where
  "hostname_loop host start =
     (if start < length host then
        let stop = find_dot start host;
            len = (case stop of None \<Rightarrow> length host | Some e \<Rightarrow> e) - start
        in if len = 0 \<or> len > 63 \<or> \<not> isalnum (host ! start) \<or> \<not> isalnum (host ! (start + len - 1)) then False
           else if \<exists>c \<in> set (take len (drop start host)). \<not> isalnum c \<and> c \<noteq> CHR ''-'' then False
           else case stop of None \<Rightarrow> True | Some e \<Rightarrow> hostname_loop host (e + 1)
      else False)"
  by pat_completeness auto
termination
  by (relation "measure (\<lambda>(host, start). length host - start)") (auto dest!: find_dot_bound [OF sym])

declare hostname_loop.simps [simp del]

definition valid_hostname :: "config_env \<Rightarrow> string \<Rightarrow> bool" where
  "valid_hostname env host =
     (if host = [] \<or> length host > 253 then False
      else if CHR ''.'' \<in> set host \<and> (\<forall>c \<in> set host. c \<in> set ''0123456789.'') then inet_pton4 env host
      else hostname_loop host 0)"

text \<open>What \<^verbatim>\<open>c_str()\<close> shows a C function.\<close>

definition c_str :: "string \<Rightarrow> string" where
  "c_str s = takeWhile (\<lambda>c. c \<noteq> CHR 0x00) s"

definition valid_rtsp_authority :: "config_env \<Rightarrow> string \<Rightarrow> bool" where
  "valid_rtsp_authority env authority =
     (let sep = rfind_char (CHR ''@'') authority in
      if sep \<noteq> None \<and> (sep = Some 0 \<or> index_where (\<lambda>c. c = CHR ''@'') authority \<noteq> sep) then False
      else let host_port = substr (case sep of None \<Rightarrow> 0 | Some i \<Rightarrow> i + 1) None authority in
      if host_port = [] then False
      else if hd host_port = CHR ''['' then
        (case index_where (\<lambda>c. c = CHR '']'') host_port of
           None \<Rightarrow> False
         | Some close \<Rightarrow>
             if \<not> inet_pton6 env (c_str (substr 1 (Some (close - 1)) host_port)) then False
             else if close + 1 = length host_port then True
             else host_port ! (close + 1) = CHR '':'' \<and> valid_port (substr (close + 2) None host_port))
      else let colon = index_where (\<lambda>c. c = CHR '':'') host_port;
               host = substr 0 colon host_port
           in valid_hostname env host \<and>
              (case colon of None \<Rightarrow> True | Some i \<Rightarrow> valid_port (substr (i + 1) None host_port)))"

definition is_space4 :: "char \<Rightarrow> bool" where
  "is_space4 c = (c \<in> {CHR '' '', CHR 0x09, CHR 0x0d, CHR 0x0a})"

section \<open>Validation\<close>

definition rtsp_authority :: "string \<Rightarrow> string" where
  "rtsp_authority url =
     (if length url \<ge> 7 then
        substr 7 (map_option (\<lambda>e. e - 7) (find_from (\<lambda>c. c \<in> set ''/?#'') 7 url)) url
      else [])"

definition validate_video :: "config_env \<Rightarrow> video_config \<Rightarrow> unit result" where
  "validate_video env video =
     (let url = rtsp_url video in run_steps
       [check_range (starts_with ''rtsp://'' url \<and> valid_rtsp_authority env (rtsp_authority url) \<and>
           \<not> (\<exists>c \<in> set url. is_space4 c))
          ''video.rtsp_url'' ''must be a rtsp:// URL with a valid host and optional port'',
        check_range (transport video = ''tcp'' \<or> transport video = ''udp'')
          ''video.transport'' ''must be tcp or udp'',
        check_range (vc_password video = [] \<or> vc_username video \<noteq> [])
          ''video.username'' ''must be set when video.password is set'',
        check_range (latency_ms video \<ge> 0 \<and> latency_ms video \<le> 10000)
          ''video.latency_ms'' ''must be between 0 and 10000'',
        check_range (reconnect_delay_ms video \<ge> 1 \<and> reconnect_delay_ms video \<le> 60000)
          ''video.reconnect_delay_ms'' ''must be between 1 and 60000'',
        check_range (max_reconnect_delay_ms video \<ge> reconnect_delay_ms video \<and>
            max_reconnect_delay_ms video \<le> 60000)
          ''video.max_reconnect_delay_ms'' ''must be between video.reconnect_delay_ms and 60000'',
        check_range (stall_timeout_ms video \<ge> 1 \<and> stall_timeout_ms video \<le> 60000)
          ''video.stall_timeout_ms'' ''must be between 1 and 60000'',
        check_range (first_frame_timeout_ms video \<ge> 100 \<and> first_frame_timeout_ms video \<le> 120000)
          ''video.first_frame_timeout_ms'' ''must be between 100 and 120000''] ())"

abbreviation fraction_ok :: "fp \<Rightarrow> bool" where
  "fraction_ok v \<equiv> isfinite v \<and> fp_le (Fin 0) v \<and> fp_le v (Fin 1)"

definition rule_field :: "nat \<Rightarrow> string" where
  "rule_field index = ''alerts['' @ to_string index @ '']''"

definition validate_rule :: "nat \<Rightarrow> alert_rule_config \<Rightarrow> unit \<Rightarrow> unit result" where
  "validate_rule index rule u =
     (let field = rule_field index in run_steps
       ([check_range (rule_class rule \<noteq> []) (field @ ''.class'') ''must not be empty'',
         check_range (fraction_ok (rule_confidence rule)) (field @ ''.confidence'') ''must be between 0 and 1'',
         check_range (consecutive_frames rule \<ge> 1) (field @ ''.consecutive_frames'') ''must be positive'',
         check_range (cooldown_seconds rule \<ge> 0) (field @ ''.cooldown_seconds'') ''must not be negative''] @
        (case rule_roi rule of
           None \<Rightarrow> []
         | Some roi \<Rightarrow>
             [check_range (isfinite (roi_x1 roi) \<and> isfinite (roi_y1 roi) \<and> isfinite (roi_x2 roi) \<and>
                  isfinite (roi_y2 roi) \<and> fp_le (Fin 0) (roi_x1 roi) \<and> fp_le (Fin 0) (roi_y1 roi) \<and>
                  fp_le (roi_x2 roi) (Fin 1) \<and> fp_le (roi_y2 roi) (Fin 1))
                (field @ ''.roi'') ''coordinates must be between 0 and 1'',
              check_range (fp_less (roi_x1 roi) (roi_x2 roi) \<and> fp_less (roi_y1 roi) (roi_y2 roi))
                (field @ ''.roi'') ''must have x1 < x2 and y1 < y2''])) ())"

definition validate_detector_web_storage :: "config \<Rightarrow> (unit \<Rightarrow> unit result) list" where
  "validate_detector_web_storage c =
     [check_range (dc_engine (cfg_detector c) \<noteq> []) ''detector.engine'' ''must not be empty'',
      check_range (fraction_ok (dc_confidence (cfg_detector c))) ''detector.confidence''
        ''must be between 0 and 1'',
      check_range (fraction_ok (dc_nms (cfg_detector c))) ''detector.nms'' ''must be between 0 and 1'',
      check_range (wc_bind (cfg_web c) \<noteq> []) ''web.bind'' ''must not be empty'',
      check_range (wc_port (cfg_web c) \<ge> 0 \<and> wc_port (cfg_web c) \<le> 65535) ''web.port''
        ''must be between 0 and 65535 (0 selects an ephemeral port)'',
      check_range (wc_root (cfg_web c) \<noteq> []) ''web.root'' ''must not be empty'',
      check_range (rc_directory (cfg_recording c) \<noteq> []) ''recording.directory'' ''must not be empty'',
      check_range (segment_seconds (cfg_recording c) \<ge> 1) ''recording.segment_seconds'' ''must be positive'',
      check_range (max_storage_mb (cfg_recording c) \<ge> 1) ''recording.max_storage_mb'' ''must be positive'',
      check_range (min_free_space_mb (cfg_recording c) \<le> max_storage_mb (cfg_recording c))
        ''recording.min_free_space_mb'' ''must not exceed recording.max_storage_mb'',
      check_range (database_path (cfg_storage c) \<noteq> []) ''storage.database_path'' ''must not be empty'',
      check_range (alert_directory (cfg_storage c) \<noteq> []) ''storage.alert_directory'' ''must not be empty'']"

definition validate_gps_webrtc :: "config \<Rightarrow> (unit \<Rightarrow> unit result) list" where
  "validate_gps_webrtc c =
     [check_range (gc_source (cfg_gps c) = ''fixed'') ''gps.source'' ''must be fixed'',
      check_range (isfinite (gc_latitude (cfg_gps c)) \<and> fp_le (fp_abs (gc_latitude (cfg_gps c))) (Fin 90))
        ''gps.latitude'' ''must be between -90 and 90'',
      check_range (isfinite (gc_longitude (cfg_gps c)) \<and> fp_le (fp_abs (gc_longitude (cfg_gps c))) (Fin 180))
        ''gps.longitude'' ''must be between -180 and 180'',
      check_range (isfinite (gc_altitude_m (cfg_gps c))) ''gps.altitude_m'' ''must be finite'',
      check_range (max_peers (cfg_webrtc c) \<ge> 1 \<and> max_peers (cfg_webrtc c) \<le> 100)
        ''webrtc.max_peers'' ''must be between 1 and 100'',
      check_range (connection_timeout_ms (cfg_webrtc c) \<ge> 1000 \<and> connection_timeout_ms (cfg_webrtc c) \<le> 300000)
        ''webrtc.connection_timeout_ms'' ''must be between 1000 and 300000'',
      check_range (media_queue_capacity (cfg_webrtc c) \<ge> 1 \<and> media_queue_capacity (cfg_webrtc c) \<le> 120)
        ''webrtc.media_queue_capacity'' ''must be between 1 and 120'',
      check_range (ice_log_verbosity (cfg_webrtc c) \<ge> 0 \<and> ice_log_verbosity (cfg_webrtc c) \<le> 5)
        ''webrtc.ice_log_verbosity'' ''must be between 0 and 5'',
      check_range (\<not> wrc_enabled (cfg_webrtc c) \<or> host_interfaces (cfg_webrtc c) \<noteq> [])
        ''webrtc.host_interfaces'' ''must not be empty when webrtc.enabled is true''] @
     map (\<lambda>i. check_range (i \<noteq> [] \<and> \<not> (\<exists>c \<in> set i. is_space4 c \<or> c = CHR ''/''))
            ''webrtc.host_interfaces'' ''must contain interface names without spaces or slashes'')
       (host_interfaces (cfg_webrtc c))"

definition validate_whip :: "config \<Rightarrow> (unit \<Rightarrow> unit result) list" where
  "validate_whip c =
     [check_range (\<not> whip_enabled (cfg_whip c) \<or> starts_with ''https://'' (whip_url (cfg_whip c)) \<or>
          loopback_http_endpoint (whip_url (cfg_whip c)))
        ''whip.url'' ''must use https or http://127.0.0.1:<port>/<path> when enabled'',
      check_range (\<not> whip_enabled (cfg_whip c) \<or>
          (length (whip_url (cfg_whip c)) > 8 \<and>
           \<not> (\<exists>x \<in> set (whip_url (cfg_whip c)). is_space4 x \<or> x = CHR ''#'')))
        ''whip.url'' ''must be a valid endpoint without whitespace or fragments'']"

definition validate :: "config_env \<Rightarrow> config \<Rightarrow> unit result" where
  "validate env c =
     run_steps
       ([\<lambda>u. validate_video env (cfg_video c)] @ validate_detector_web_storage c @
        map (\<lambda>(index, rule). validate_rule index rule) (enumerate 0 (cfg_alerts c)) @
        validate_gps_webrtc c @ validate_whip c) ()"

section \<open>Translation of a document\<close>

abbreviation as_string :: "string \<Rightarrow> string option" where
  "as_string \<equiv> Some"

abbreviation on_video :: "(video_config \<Rightarrow> video_config) \<Rightarrow> config \<Rightarrow> config" where
  "on_video f c \<equiv> c\<lparr>cfg_video := f (cfg_video c)\<rparr>"

abbreviation on_detector :: "(detector_config \<Rightarrow> detector_config) \<Rightarrow> config \<Rightarrow> config" where
  "on_detector f c \<equiv> c\<lparr>cfg_detector := f (cfg_detector c)\<rparr>"

abbreviation on_web :: "(web_config \<Rightarrow> web_config) \<Rightarrow> config \<Rightarrow> config" where
  "on_web f c \<equiv> c\<lparr>cfg_web := f (cfg_web c)\<rparr>"

abbreviation on_recording :: "(recording_config \<Rightarrow> recording_config) \<Rightarrow> config \<Rightarrow> config" where
  "on_recording f c \<equiv> c\<lparr>cfg_recording := f (cfg_recording c)\<rparr>"

abbreviation on_storage :: "(storage_config \<Rightarrow> storage_config) \<Rightarrow> config \<Rightarrow> config" where
  "on_storage f c \<equiv> c\<lparr>cfg_storage := f (cfg_storage c)\<rparr>"

abbreviation on_gps :: "(gps_config \<Rightarrow> gps_config) \<Rightarrow> config \<Rightarrow> config" where
  "on_gps f c \<equiv> c\<lparr>cfg_gps := f (cfg_gps c)\<rparr>"

abbreviation on_webrtc :: "(webrtc_config \<Rightarrow> webrtc_config) \<Rightarrow> config \<Rightarrow> config" where
  "on_webrtc f c \<equiv> c\<lparr>cfg_webrtc := f (cfg_webrtc c)\<rparr>"

abbreviation on_whip :: "(whip_config \<Rightarrow> whip_config) \<Rightarrow> config \<Rightarrow> config" where
  "on_whip f c \<equiv> c\<lparr>cfg_whip := f (cfg_whip c)\<rparr>"

text \<open>\<^verbatim>\<open>check_keys\<close> as a step that leaves the configuration alone, and
  \<^verbatim>\<open>if (const auto section = root[key])\<close>.\<close>

definition keys_step :: "yaml_node \<Rightarrow> string \<Rightarrow> string list \<Rightarrow> 'c \<Rightarrow> 'c result" where
  "keys_step node path allowed c = map_sum (\<lambda>e. e) (\<lambda>_. c) (check_keys node path allowed)"

definition if_section :: "yaml_node \<Rightarrow> string \<Rightarrow> (yaml_node \<Rightarrow> 'c \<Rightarrow> 'c result) \<Rightarrow> 'c \<Rightarrow> 'c result" where
  "if_section node key body c = (case yaml_get node key of None \<Rightarrow> Inr c | Some s \<Rightarrow> body s c)"

definition parse_video :: "config_env \<Rightarrow> yaml_node \<Rightarrow> config \<Rightarrow> config result" where
  "parse_video env video = run_steps
     [keys_step video ''video''
        [''rtsp_url'', ''username'', ''password'', ''transport'', ''latency_ms'', ''reconnect_delay_ms'',
         ''max_reconnect_delay_ms'', ''stall_timeout_ms'', ''first_frame_timeout_ms''],
      read_scalar as_string video ''rtsp_url'' ''video'' (\<lambda>v. on_video (rtsp_url_update (\<lambda>_. v))),
      read_scalar as_string video ''username'' ''video'' (\<lambda>v. on_video (vc_username_update (\<lambda>_. v))),
      read_scalar as_string video ''password'' ''video'' (\<lambda>v. on_video (vc_password_update (\<lambda>_. v))),
      read_scalar as_string video ''transport'' ''video'' (\<lambda>v. on_video (transport_update (\<lambda>_. v))),
      read_scalar (as_int env) video ''latency_ms'' ''video'' (\<lambda>v. on_video (latency_ms_update (\<lambda>_. v))),
      read_scalar (as_int env) video ''reconnect_delay_ms'' ''video''
        (\<lambda>v. on_video (reconnect_delay_ms_update (\<lambda>_. v))),
      read_scalar (as_int env) video ''max_reconnect_delay_ms'' ''video''
        (\<lambda>v. on_video (max_reconnect_delay_ms_update (\<lambda>_. v))),
      read_scalar (as_int env) video ''stall_timeout_ms'' ''video''
        (\<lambda>v. on_video (stall_timeout_ms_update (\<lambda>_. v))),
      read_scalar (as_int env) video ''first_frame_timeout_ms'' ''video''
        (\<lambda>v. on_video (first_frame_timeout_ms_update (\<lambda>_. v)))]"

definition parse_detector :: "config_env \<Rightarrow> yaml_node \<Rightarrow> config \<Rightarrow> config result" where
  "parse_detector env s = run_steps
     [keys_step s ''detector'' [''engine'', ''confidence'', ''nms'', ''annotate''],
      read_scalar as_string s ''engine'' ''detector'' (\<lambda>v. on_detector (dc_engine_update (\<lambda>_. v))),
      read_scalar (as_double env) s ''confidence'' ''detector'' (\<lambda>v. on_detector (dc_confidence_update (\<lambda>_. v))),
      read_scalar (as_double env) s ''nms'' ''detector'' (\<lambda>v. on_detector (dc_nms_update (\<lambda>_. v))),
      read_scalar (as_bool env) s ''annotate'' ''detector'' (\<lambda>v. on_detector (dc_annotate_update (\<lambda>_. v)))]"

definition parse_web :: "config_env \<Rightarrow> yaml_node \<Rightarrow> config \<Rightarrow> config result" where
  "parse_web env s = run_steps
     [keys_step s ''web'' [''bind'', ''port'', ''root''],
      read_scalar as_string s ''bind'' ''web'' (\<lambda>v. on_web (wc_bind_update (\<lambda>_. v))),
      read_scalar (as_int env) s ''port'' ''web'' (\<lambda>v. on_web (wc_port_update (\<lambda>_. v))),
      read_scalar as_string s ''root'' ''web'' (\<lambda>v. on_web (wc_root_update (\<lambda>_. v)))]"

definition parse_recording :: "config_env \<Rightarrow> yaml_node \<Rightarrow> config \<Rightarrow> config result" where
  "parse_recording env s = run_steps
     [keys_step s ''recording''
        [''enabled'', ''directory'', ''segment_seconds'', ''max_storage_mb'', ''min_free_space_mb''],
      read_scalar (as_bool env) s ''enabled'' ''recording'' (\<lambda>v. on_recording (rc_enabled_update (\<lambda>_. v))),
      read_scalar as_string s ''directory'' ''recording'' (\<lambda>v. on_recording (rc_directory_update (\<lambda>_. v))),
      read_scalar (as_int env) s ''segment_seconds'' ''recording''
        (\<lambda>v. on_recording (segment_seconds_update (\<lambda>_. v))),
      read_scalar (as_u64 env) s ''max_storage_mb'' ''recording''
        (\<lambda>v. on_recording (max_storage_mb_update (\<lambda>_. v))),
      read_scalar (as_u64 env) s ''min_free_space_mb'' ''recording''
        (\<lambda>v. on_recording (min_free_space_mb_update (\<lambda>_. v)))]"

definition parse_storage :: "yaml_node \<Rightarrow> config \<Rightarrow> config result" where
  "parse_storage s = run_steps
     [keys_step s ''storage'' [''database_path'', ''alert_directory''],
      read_scalar as_string s ''database_path'' ''storage'' (\<lambda>v. on_storage (database_path_update (\<lambda>_. v))),
      read_scalar as_string s ''alert_directory'' ''storage''
        (\<lambda>v. on_storage (alert_directory_update (\<lambda>_. v)))]"

definition require_key :: "yaml_node \<Rightarrow> string \<Rightarrow> string \<Rightarrow> 'c \<Rightarrow> 'c result" where
  "require_key node path key c =
     (if yaml_get node key = None then Inl (path @ ''.'' @ key @ '' is required'') else Inr c)"

definition parse_roi :: "config_env \<Rightarrow> string \<Rightarrow> yaml_node \<Rightarrow> alert_rule_config \<Rightarrow> alert_rule_config result" where
  "parse_roi env path roi rule =
     (let p = path @ ''.roi'' in
      map_sum (\<lambda>e. e) (\<lambda>value. rule\<lparr>rule_roi := Some value\<rparr>) (run_steps
        ([keys_step roi p [''x1'', ''y1'', ''x2'', ''y2'']] @
         map (require_key roi p) [''x1'', ''y1'', ''x2'', ''y2''] @
         [read_scalar (as_double env) roi ''x1'' p (\<lambda>v. roi_x1_update (\<lambda>_. v)),
          read_scalar (as_double env) roi ''y1'' p (\<lambda>v. roi_y1_update (\<lambda>_. v)),
          read_scalar (as_double env) roi ''x2'' p (\<lambda>v. roi_x2_update (\<lambda>_. v)),
          read_scalar (as_double env) roi ''y2'' p (\<lambda>v. roi_y2_update (\<lambda>_. v))]) default_roi))"

definition parse_rule :: "config_env \<Rightarrow> nat \<Rightarrow> yaml_node \<Rightarrow> alert_rule_config result" where
  "parse_rule env index item =
     (let path = rule_field index in run_steps
       [keys_step item path [''class'', ''confidence'', ''consecutive_frames'', ''cooldown_seconds'', ''roi''],
        read_scalar as_string item ''class'' path (\<lambda>v. rule_class_update (\<lambda>_. v)),
        read_scalar (as_double env) item ''confidence'' path (\<lambda>v. rule_confidence_update (\<lambda>_. v)),
        read_scalar (as_int env) item ''consecutive_frames'' path (\<lambda>v. consecutive_frames_update (\<lambda>_. v)),
        read_scalar (as_int env) item ''cooldown_seconds'' path (\<lambda>v. cooldown_seconds_update (\<lambda>_. v)),
        if_section item ''roi'' (parse_roi env path)] default_rule)"

definition parse_alerts :: "config_env \<Rightarrow> yaml_node \<Rightarrow> config \<Rightarrow> config result" where
  "parse_alerts env s c =
     (case s of
        Sequence items \<Rightarrow> run_steps
          (map (\<lambda>(index, item) c. map_sum (\<lambda>e. e) (\<lambda>rule. c\<lparr>cfg_alerts := cfg_alerts c @ [rule]\<rparr>)
                  (parse_rule env index item)) (enumerate 0 items)) c
      | _ \<Rightarrow> Inl ''alerts must be a sequence'')"

definition parse_gps :: "config_env \<Rightarrow> yaml_node \<Rightarrow> config \<Rightarrow> config result" where
  "parse_gps env s = run_steps
     [keys_step s ''gps'' [''enabled'', ''source'', ''latitude'', ''longitude'', ''altitude_m''],
      read_scalar (as_bool env) s ''enabled'' ''gps'' (\<lambda>v. on_gps (gc_enabled_update (\<lambda>_. v))),
      read_scalar as_string s ''source'' ''gps'' (\<lambda>v. on_gps (gc_source_update (\<lambda>_. v))),
      read_scalar (as_double env) s ''latitude'' ''gps'' (\<lambda>v. on_gps (gc_latitude_update (\<lambda>_. v))),
      read_scalar (as_double env) s ''longitude'' ''gps'' (\<lambda>v. on_gps (gc_longitude_update (\<lambda>_. v))),
      read_scalar (as_double env) s ''altitude_m'' ''gps'' (\<lambda>v. on_gps (gc_altitude_m_update (\<lambda>_. v)))]"

definition add_interface :: "yaml_node \<Rightarrow> config \<Rightarrow> config result" where
  "add_interface item c =
     (case item of
        Scalar name \<Rightarrow> Inr (on_webrtc (\<lambda>w. w\<lparr>host_interfaces := host_interfaces w @ [name]\<rparr>) c)
      | _ \<Rightarrow> Inl ''webrtc.host_interfaces must contain strings'')"

definition parse_interfaces :: "yaml_node \<Rightarrow> config \<Rightarrow> config result" where
  "parse_interfaces s c =
     (case s of
        Sequence items \<Rightarrow>
          run_steps (map add_interface items) (on_webrtc (\<lambda>w. w\<lparr>host_interfaces := []\<rparr>) c)
      | _ \<Rightarrow> Inl ''webrtc.host_interfaces must be a sequence'')"

definition parse_webrtc :: "config_env \<Rightarrow> yaml_node \<Rightarrow> config \<Rightarrow> config result" where
  "parse_webrtc env s = run_steps
     [keys_step s ''webrtc''
        [''enabled'', ''max_peers'', ''connection_timeout_ms'', ''media_queue_capacity'', ''host_interfaces'',
         ''ice_log_verbosity''],
      read_scalar (as_bool env) s ''enabled'' ''webrtc'' (\<lambda>v. on_webrtc (wrc_enabled_update (\<lambda>_. v))),
      read_scalar (as_int env) s ''max_peers'' ''webrtc'' (\<lambda>v. on_webrtc (max_peers_update (\<lambda>_. v))),
      read_scalar (as_int env) s ''connection_timeout_ms'' ''webrtc''
        (\<lambda>v. on_webrtc (connection_timeout_ms_update (\<lambda>_. v))),
      read_scalar (as_int env) s ''media_queue_capacity'' ''webrtc''
        (\<lambda>v. on_webrtc (media_queue_capacity_update (\<lambda>_. v))),
      read_scalar (as_int env) s ''ice_log_verbosity'' ''webrtc''
        (\<lambda>v. on_webrtc (ice_log_verbosity_update (\<lambda>_. v))),
      if_section s ''host_interfaces'' parse_interfaces]"

definition parse_whip :: "config_env \<Rightarrow> yaml_node \<Rightarrow> config \<Rightarrow> config result" where
  "parse_whip env s = run_steps
     [keys_step s ''whip'' [''enabled'', ''url''],
      read_scalar (as_bool env) s ''enabled'' ''whip'' (\<lambda>v. on_whip (whip_enabled_update (\<lambda>_. v))),
      read_scalar as_string s ''url'' ''whip'' (\<lambda>v. on_whip (whip_url_update (\<lambda>_. v)))]"

definition set_level :: "string \<Rightarrow> config \<Rightarrow> config result" where
  "set_level level c =
     (if level = ''trace'' then Inr (c\<lparr>cfg_log_level := Log_Trace\<rparr>)
      else if level = ''debug'' then Inr (c\<lparr>cfg_log_level := Log_Debug\<rparr>)
      else if level = ''info'' then Inr (c\<lparr>cfg_log_level := Log_Info\<rparr>)
      else if level = ''warning'' then Inr (c\<lparr>cfg_log_level := Log_Warning\<rparr>)
      else if level = ''error'' then Inr (c\<lparr>cfg_log_level := Log_Error\<rparr>)
      else Inl ''logging.level must be trace, debug, info, warning, or error'')"

definition parse_logging :: "yaml_node \<Rightarrow> config \<Rightarrow> config result" where
  "parse_logging s c =
     (case run_steps [keys_step s ''logging'' [''level''],
                      read_scalar as_string s ''level'' ''logging'' (\<lambda>v _. v)] ''info'' of
        Inl e \<Rightarrow> Inl e
      | Inr level \<Rightarrow> set_level level c)"

definition is_mapping :: "yaml_node \<Rightarrow> bool" where
  "is_mapping n = (case n of Mapping _ \<Rightarrow> True | _ \<Rightarrow> False)"

definition require_video :: "yaml_node \<Rightarrow> 'c \<Rightarrow> 'c result" where
  "require_video doc c =
     (case yaml_get doc ''video'' of
        None \<Rightarrow> Inl ''video.rtsp_url is required''
      | Some v \<Rightarrow> if \<not> is_mapping v \<or> yaml_get v ''rtsp_url'' = None
                  then Inl ''video.rtsp_url is required'' else Inr c)"

abbreviation root_keys :: "string list" where
  "root_keys \<equiv> [''video'', ''detector'', ''web'', ''recording'', ''storage'', ''alerts'', ''gps'', ''webrtc'',
     ''whip'', ''logging'']"

definition parse_steps :: "config_env \<Rightarrow> yaml_node \<Rightarrow> (config \<Rightarrow> config result) list" where
  "parse_steps env doc =
     [require_video doc,
      if_section doc ''video'' (parse_video env),
      if_section doc ''detector'' (parse_detector env),
      if_section doc ''web'' (parse_web env),
      if_section doc ''recording'' (parse_recording env),
      if_section doc ''storage'' parse_storage,
      if_section doc ''alerts'' (parse_alerts env),
      if_section doc ''gps'' (parse_gps env),
      if_section doc ''webrtc'' (parse_webrtc env),
      if_section doc ''whip'' (parse_whip env),
      if_section doc ''logging'' parse_logging]"

definition validate_step :: "config_env \<Rightarrow> config \<Rightarrow> config result" where
  "validate_step env c = map_sum (\<lambda>e. e) (\<lambda>_. c) (validate env c)"

definition parse :: "config_env \<Rightarrow> yaml_node \<Rightarrow> config result" where
  "parse env doc =
     run_steps (keys_step doc [] root_keys # parse_steps env doc @ [validate_step env])
       (default_config (web_root_default env))"

definition parse_config :: "config_env \<Rightarrow> string \<Rightarrow> config result" where
  "parse_config env text = (case yaml_load env text of Inl e \<Rightarrow> Inl e | Inr doc \<Rightarrow> parse env doc)"

datatype file_read = Open_failed | Read_failed | Contents string

definition load_config :: "config_env \<Rightarrow> (string \<Rightarrow> file_read) \<Rightarrow> string \<Rightarrow> config result" where
  "load_config env read_file path =
     (case read_file path of
        Open_failed \<Rightarrow> Inl (''could not open configuration file: '' @ path)
      | Read_failed \<Rightarrow> Inl (''could not read configuration file: '' @ path)
      | Contents text \<Rightarrow> map_sum (\<lambda>e. path @ '': '' @ e) (\<lambda>c. c) (parse_config env text))"

definition validate_video_config :: "config_env \<Rightarrow> video_config \<Rightarrow> bool \<times> string" where
  "validate_video_config env video =
     (case validate_video env video of Inl e \<Rightarrow> (False, e) | Inr _ \<Rightarrow> (True, []))"

section \<open>Lemmas\<close>

lemma run_steps_append:
  "run_steps (fs @ gs) c = (case run_steps fs c of Inl e \<Rightarrow> Inl e | Inr c' \<Rightarrow> run_steps gs c')"
  by (induction fs arbitrary: c) (auto split: sum.split)

lemma check_range_ok [simp]: "check_range v f r u = Inr w \<longleftrightarrow> v"
  by (simp add: check_range_def)

lemma run_unit_ok: "run_steps fs () = Inr u \<longleftrightarrow> list_all (\<lambda>f. f () = Inr ()) fs"
  by (induction fs) (auto split: sum.split)

text \<open>The host name rules of RFC 1123 over the labels between the dots.\<close>

definition valid_label :: "string \<Rightarrow> bool" where
  "valid_label l \<longleftrightarrow> l \<noteq> [] \<and> length l \<le> 63 \<and> isalnum (hd l) \<and> isalnum (last l) \<and>
     (\<forall>c \<in> set l. isalnum c \<or> c = CHR ''-'')"

fun labels :: "string \<Rightarrow> string list" where
  "labels [] = [[]]"
| "labels (c # cs) = (if c = CHR ''.'' then [] # labels cs
                      else case labels cs of l # ls \<Rightarrow> (c # l) # ls | [] \<Rightarrow> [[c]])"

lemma labels_no_dot: "CHR ''.'' \<notin> set s \<Longrightarrow> labels s = [s]"
  by (induction s) auto

lemma labels_dot: "CHR ''.'' \<notin> set s \<Longrightarrow> labels (s @ CHR ''.'' # t) = s # labels t"
  by (induction s) auto

lemma find_dot_None: "find_dot start host = None \<longleftrightarrow> CHR ''.'' \<notin> set (drop start host)"
  by (auto simp: find_dot_def find_from_def index_where_None)

lemma find_dot_split:
  assumes "find_dot start host = Some e"
  shows "drop start host = take (e - start) (drop start host) @ CHR ''.'' # drop (e + 1) host \<and>
    CHR ''.'' \<notin> set (take (e - start) (drop start host))"
proof -
  from assms obtain i where i: "e = start + i" "i < length (drop start host)"
      "drop start host ! i = CHR ''.''" "\<forall>j < i. drop start host ! j \<noteq> CHR ''.''"
    by (auto simp: find_dot_def find_from_def index_where_Some)
  have "drop start host = take i (drop start host) @ drop start host ! i # drop (Suc i) (drop start host)"
    using i(2) by (rule id_take_nth_drop)
  moreover have "CHR ''.'' \<notin> set (take i (drop start host))"
    using i(2,4) by (auto simp: in_set_conv_nth)
  ultimately show ?thesis using i(1,3) by (simp add: add.commute)
qed

lemma valid_label_slice:
  assumes "start + len \<le> length host"
  shows "valid_label (take len (drop start host)) \<longleftrightarrow>
    \<not> (len = 0 \<or> len > 63 \<or> \<not> isalnum (host ! start) \<or> \<not> isalnum (host ! (start + len - 1)) \<or>
       (\<exists>c \<in> set (take len (drop start host)). \<not> isalnum c \<and> c \<noteq> CHR ''-''))"
proof (cases "len = 0")
  case False
  let ?l = "take len (drop start host)"
  have len: "length ?l = len" using assms by simp
  then have ne: "?l \<noteq> []" using False by (metis length_0_conv)
  have "hd ?l = host ! start" using ne assms False by (simp add: hd_conv_nth)
  moreover have "last ?l = host ! (start + len - 1)"
    using assms False by (simp add: last_conv_nth [OF ne])
  ultimately show ?thesis using ne len False unfolding valid_label_def by auto
qed (simp add: valid_label_def)

lemma hostname_loop_labels:
  "hostname_loop host start \<longleftrightarrow> (\<forall>l \<in> set (labels (drop start host)). valid_label l)"
proof (induction host start rule: hostname_loop.induct)
  case (1 host start)
  show ?case
  proof (cases "start < length host")
    case False
    then show ?thesis by (subst hostname_loop.simps) (simp add: valid_label_def)
  next
    case True
    show ?thesis
    proof (cases "find_dot start host")
      case None
      then have "labels (drop start host) = [drop start host]"
        by (simp add: labels_no_dot find_dot_None)
      then show ?thesis
        using True None valid_label_slice [of start "length host - start" host]
        by (subst hostname_loop.simps) (auto simp: Let_def)
    next
      case (Some e)
      note b = find_dot_bound [OF Some]
      let ?l = "take (e - start) (drop start host)"
      have lab: "labels (drop start host) = ?l # labels (drop (e + 1) host)"
        using find_dot_split [OF Some] labels_dot by metis
      show ?thesis
      proof (cases "valid_label ?l")
        case True
        then have "hostname_loop host start = hostname_loop host (e + 1)"
          using \<open>start < length host\<close> Some valid_label_slice [of start "e - start" host] b
          by (subst hostname_loop.simps) (simp add: Let_def, blast)
        moreover have "hostname_loop host (e + 1) \<longleftrightarrow> (\<forall>l \<in> set (labels (drop (e + 1) host)). valid_label l)"
          using 1 [OF \<open>start < length host\<close> refl refl _ _ Some] True
            valid_label_slice [of start "e - start" host] b Some by auto
        ultimately show ?thesis using lab True by simp
      next
        case False
        then have "\<not> hostname_loop host start"
          using \<open>start < length host\<close> Some valid_label_slice [of start "e - start" host] b
          by (subst hostname_loop.simps) (auto simp: Let_def)
        then show ?thesis using lab False by simp
      qed
    qed
  qed
qed

lemma takeWhile_is_digit_to_string [simp]: "takeWhile is_digit (to_string n) = to_string n"
  using to_string_digits by (simp add: takeWhile_eq_all_conv)

lemma valid_port_iff:
  "valid_port text \<longleftrightarrow> text \<noteq> [] \<and> (\<forall>c \<in> set text. is_digit c) \<and> 1 \<le> decimal_value text \<and>
     decimal_value text \<le> 65535"
proof (cases "\<forall>c \<in> set text. is_digit c")
  case True
  then have all: "takeWhile is_digit text = text" by (simp add: takeWhile_eq_all_conv)
  show ?thesis using True unfolding valid_port_def from_chars_uint_def Let_def all by auto
next
  case False
  then have "length (takeWhile is_digit text) \<noteq> length text"
    by (metis append_Nil2 append_eq_conv_conj takeWhile_dropWhile_id takeWhile_eq_all_conv)
  then show ?thesis using False by (auto simp: valid_port_def from_chars_uint_def Let_def)
qed

section \<open>What an accepted configuration guarantees\<close>

definition roi_ok :: "alert_roi \<Rightarrow> bool" where
  "roi_ok roi \<longleftrightarrow> (\<exists>a b c d. roi = \<lparr>roi_x1 = Fin a, roi_y1 = Fin b, roi_x2 = Fin c, roi_y2 = Fin d\<rparr> \<and>
     0 \<le> a \<and> a < c \<and> c \<le> 1 \<and> 0 \<le> b \<and> b < d \<and> d \<le> 1)"

definition rule_ok :: "alert_rule_config \<Rightarrow> bool" where
  "rule_ok rule \<longleftrightarrow> rule_class rule \<noteq> [] \<and> fraction_ok (rule_confidence rule) \<and>
     consecutive_frames rule \<ge> 1 \<and> cooldown_seconds rule \<ge> 0 \<and> pred_option roi_ok (rule_roi rule)"

definition accepted_bounds :: "config \<Rightarrow> bool" where
  "accepted_bounds c \<longleftrightarrow>
     1 \<le> reconnect_delay_ms (cfg_video c) \<and>
     reconnect_delay_ms (cfg_video c) \<le> max_reconnect_delay_ms (cfg_video c) \<and>
     max_reconnect_delay_ms (cfg_video c) \<le> 60000 \<and>
     1 \<le> stall_timeout_ms (cfg_video c) \<and> stall_timeout_ms (cfg_video c) \<le> 60000 \<and>
     1 \<le> max_peers (cfg_webrtc c) \<and> max_peers (cfg_webrtc c) \<le> 100 \<and>
     1 \<le> media_queue_capacity (cfg_webrtc c) \<and> media_queue_capacity (cfg_webrtc c) \<le> 120 \<and>
     0 \<le> wc_port (cfg_web c) \<and> wc_port (cfg_web c) \<le> 65535 \<and>
     1 \<le> segment_seconds (cfg_recording c) \<and> 1 \<le> max_storage_mb (cfg_recording c) \<and>
     fraction_ok (dc_confidence (cfg_detector c)) \<and> fraction_ok (dc_nms (cfg_detector c)) \<and>
     list_all rule_ok (cfg_alerts c)"

lemma roi_ok_checks:
  "isfinite (roi_x1 roi) \<Longrightarrow> isfinite (roi_y1 roi) \<Longrightarrow> isfinite (roi_x2 roi) \<Longrightarrow> isfinite (roi_y2 roi) \<Longrightarrow>
    fp_le (Fin 0) (roi_x1 roi) \<Longrightarrow> fp_le (Fin 0) (roi_y1 roi) \<Longrightarrow> fp_le (roi_x2 roi) (Fin 1) \<Longrightarrow>
    fp_le (roi_y2 roi) (Fin 1) \<Longrightarrow> fp_less (roi_x1 roi) (roi_x2 roi) \<Longrightarrow> fp_less (roi_y1 roi) (roi_y2 roi) \<Longrightarrow>
    roi_ok roi"
  by (cases roi; cases "roi_x1 roi"; cases "roi_y1 roi"; cases "roi_x2 roi"; cases "roi_y2 roi")
    (auto simp: roi_ok_def)

lemma validate_rule_ok: "validate_rule index rule u = Inr w \<Longrightarrow> rule_ok rule"
  unfolding validate_rule_def Let_def run_unit_ok
  by (cases "rule_roi rule") (simp_all add: rule_ok_def roi_ok_checks)

lemma validate_ok_parts:
  assumes "validate env c = Inr u"
  shows "validate_video env (cfg_video c) = Inr ()"
    and "list_all (\<lambda>f. f () = Inr ()) (validate_detector_web_storage c)"
    and "list_all rule_ok (cfg_alerts c)"
    and "list_all (\<lambda>f. f () = Inr ()) (validate_gps_webrtc c)"
    and "list_all (\<lambda>f. f () = Inr ()) (validate_whip c)"
proof -
  have all: "list_all (\<lambda>f. f () = Inr ()) ([\<lambda>u. validate_video env (cfg_video c)] @
      validate_detector_web_storage c @
      map (\<lambda>(index, rule). validate_rule index rule) (enumerate 0 (cfg_alerts c)) @
      validate_gps_webrtc c @ validate_whip c)"
    using assms unfolding validate_def run_unit_ok by simp
  then show "validate_video env (cfg_video c) = Inr ()"
    "list_all (\<lambda>f. f () = Inr ()) (validate_detector_web_storage c)"
    "list_all (\<lambda>f. f () = Inr ()) (validate_gps_webrtc c)"
    "list_all (\<lambda>f. f () = Inr ()) (validate_whip c)"
    by simp_all
  have "rule_ok r" if r: "r \<in> set (cfg_alerts c)" for r
  proof -
    obtain i where "i < length (cfg_alerts c)" "cfg_alerts c ! i = r" using r by (auto simp: in_set_conv_nth)
    then have "(i, r) \<in> set (enumerate 0 (cfg_alerts c))" by (auto simp: in_set_enumerate_eq)
    then have "validate_rule i r () = Inr ()" using all by (force simp: list_all_iff)
    then show ?thesis by (rule validate_rule_ok)
  qed
  then show "list_all rule_ok (cfg_alerts c)" by (simp add: list_all_iff)
qed

lemmas check_list = list.pred_inject append.simps check_range_ok list_all_append

lemma validate_video_bounds:
  assumes "validate_video env v = Inr u"
  shows "1 \<le> reconnect_delay_ms v \<and> reconnect_delay_ms v \<le> max_reconnect_delay_ms v \<and>
    max_reconnect_delay_ms v \<le> 60000 \<and> 1 \<le> stall_timeout_ms v \<and> stall_timeout_ms v \<le> 60000"
  using assms unfolding validate_video_def Let_def run_unit_ok by (simp only: check_list)

lemma validate_webrtc_bounds:
  assumes "list_all (\<lambda>f. f () = Inr ()) (validate_gps_webrtc c)"
  shows "1 \<le> max_peers (cfg_webrtc c) \<and> max_peers (cfg_webrtc c) \<le> 100 \<and>
    1 \<le> media_queue_capacity (cfg_webrtc c) \<and> media_queue_capacity (cfg_webrtc c) \<le> 120"
  using assms unfolding validate_gps_webrtc_def by (simp only: check_list)

lemma validate_detector_bounds:
  assumes "list_all (\<lambda>f. f () = Inr ()) (validate_detector_web_storage c)"
  shows "0 \<le> wc_port (cfg_web c) \<and> wc_port (cfg_web c) \<le> 65535 \<and>
    1 \<le> segment_seconds (cfg_recording c) \<and> 1 \<le> max_storage_mb (cfg_recording c) \<and>
    fraction_ok (dc_confidence (cfg_detector c)) \<and> fraction_ok (dc_nms (cfg_detector c))"
  using assms unfolding validate_detector_web_storage_def by (simp only: check_list)

lemma validate_bounds: "validate env c = Inr u \<Longrightarrow> accepted_bounds c"
  using validate_ok_parts validate_video_bounds validate_webrtc_bounds validate_detector_bounds
  unfolding accepted_bounds_def by meson

lemma run_steps_first: "run_steps (f # fs) c = Inr d \<Longrightarrow> \<exists>c'. f c = Inr c'"
  by (auto split: sum.splits)

lemma run_steps_last: "run_steps (fs @ [g]) c = Inr d \<Longrightarrow> \<exists>c'. g c' = Inr d"
  by (auto simp: run_steps_append split: sum.splits)

lemma parse_validates:
  assumes "parse env doc = Inr c"
  shows "validate env c = Inr ()"
proof -
  have "\<exists>c'. validate_step env c' = Inr c"
    by (rule run_steps_last [of "keys_step doc [] root_keys # parse_steps env doc"])
      (use assms in \<open>simp add: parse_def\<close>)
  then obtain c' where "validate_step env c' = Inr c" ..
  then show ?thesis by (cases "validate env c'") (auto simp: validate_step_def)
qed

lemma check_entries_keys:
  "check_entries entries seen path allowed = Inr u \<Longrightarrow>
    \<exists>keys. map fst entries = map Scalar keys \<and> distinct keys \<and> set keys \<subseteq> set allowed \<and> set keys \<inter> seen = {}"
proof (induction entries seen path allowed rule: check_entries.induct)
  case (2 k v entries seen path allowed)
  from "2.prems" obtain key where key: "k = Scalar key" "key \<notin> seen" "key \<in> set allowed"
    "check_entries entries (insert key seen) path allowed = Inr u"
    by (auto simp: Let_def split: yaml_node.splits if_splits)
  from "2.IH" [OF key(1) refl _ _ key(4)] key(2,3) obtain keys where
    "map fst entries = map Scalar keys" "distinct keys" "set keys \<subseteq> set allowed"
    "set keys \<inter> insert key seen = {}"
    by auto
  then show ?case using key by (intro exI [of _ "key # keys"]) auto
qed simp


lemma round64_fraction: "0 \<le> x \<Longrightarrow> x \<le> 1 \<Longrightarrow> fraction_ok (round64 x)"
  by (rule f64.rnd_unit [of x]) auto

lemma round64_within:
  "0 \<le> x \<Longrightarrow> x \<le> of_nat n \<Longrightarrow> n < 1000 \<Longrightarrow>
    isfinite (round64 x) \<and> fp_le (fp_abs (round64 x)) (Fin (of_nat n))"
  by (rule f64.rnd_nat_range [of n x]) auto

lemma hostname_loopback: "valid_hostname env ''127.0.0.1'' = inet_pton4 env ''127.0.0.1''"
  by (simp add: valid_hostname_def)

lemma default_video_valid:
  "inet_pton4 env ''127.0.0.1'' \<Longrightarrow> validate_video env default_video = Inr ()"
  unfolding validate_video_def Let_def run_unit_ok check_list
  by (simp add: default_video_def rtsp_authority_def valid_rtsp_authority_def rfind_char_def
      find_from_def substr_def hostname_loopback is_space4_def)

lemma validate_defaults:
  assumes "inet_pton4 env ''127.0.0.1''" and "web_root \<noteq> []"
  shows "validate env (default_config web_root) = Inr ()"
proof -
  let ?c = "default_config web_root"
  have "list_all (\<lambda>f. f () = Inr ()) (validate_detector_web_storage ?c)"
    using assms(2) round64_fraction [of "35/100"] round64_fraction [of "45/100"]
    unfolding validate_detector_web_storage_def check_list
    by (simp add: default_config_def default_detector_def default_web_def default_recording_def
        default_storage_def)
  moreover have "list_all (\<lambda>f. f () = Inr ()) (validate_gps_webrtc ?c)"
    using round64_within [of "25033964/1000000" 90] round64_within [of "121564468/1000000" 180]
    unfolding validate_gps_webrtc_def check_list
    by (simp add: default_config_def default_gps_def default_webrtc_def is_space4_def)
  moreover have "list_all (\<lambda>f. f () = Inr ()) (validate_whip ?c)"
    unfolding validate_whip_def check_list by (simp add: default_config_def default_whip_def)
  moreover have "validate_video env (cfg_video ?c) = Inr ()" "cfg_alerts ?c = []"
    using default_video_valid [OF assms(1)] by (simp_all add: default_config_def)
  ultimately show ?thesis unfolding validate_def run_unit_ok by simp
qed

text \<open>The built-in defaults, which run unchecked when no configuration file is named, pass
  every check the program makes of a configuration file.\<close>

theorem default_config_valid:
  assumes "inet_pton4 env ''127.0.0.1''" and "web_root \<noteq> []"
  shows "validate env (default_config web_root) = Inr ()"
  using assms by (rule validate_defaults)

text \<open>An environment in which the YAML library reads every text as the smallest accepted document
  and \<^verbatim>\<open>inet_pton\<close> accepts the loopback address.\<close>

definition sample_video :: yaml_node where
  "sample_video = Mapping [(Scalar ''rtsp_url'', Scalar ''rtsp://127.0.0.1/stream'')]"

definition sample_doc :: yaml_node where
  "sample_doc = Mapping [(Scalar ''video'', sample_video)]"

definition sample_env :: config_env where
  "sample_env =
     \<lparr>yaml_load = (\<lambda>_. Inr sample_doc),
      as_int = (\<lambda>_. None), as_u64 = (\<lambda>_. None), as_double = (\<lambda>_. None), as_bool = (\<lambda>_. None),
      inet_pton4 = (\<lambda>a. a = ''127.0.0.1''), inet_pton6 = (\<lambda>a. a = ''::1''), web_root_default = ''web''\<rparr>"

theorem default_config_valid_witness:
  "validate sample_env (default_config ''web'') = Inr ()"
  by (rule default_config_valid) (simp_all add: sample_env_def)

lemma sample_video_parses:
  "parse_video env sample_video c = Inr (on_video (rtsp_url_update (\<lambda>_. ''rtsp://127.0.0.1/stream'')) c)"
  by (simp add: parse_video_def sample_video_def keys_step_def check_keys_def read_scalar_def)

lemma sample_video_default:
  "on_video (rtsp_url_update (\<lambda>_. ''rtsp://127.0.0.1/stream'')) (default_config web_root) = default_config web_root"
  by (simp add: default_config_def default_video_def)

lemma sample_steps: "run_steps (parse_steps env sample_doc) (default_config web_root) = Inr (default_config web_root)"
proof -
  have "yaml_get sample_doc ''video'' = Some sample_video" "yaml_get sample_video ''rtsp_url'' \<noteq> None"
    by (simp_all add: sample_doc_def sample_video_def)
  moreover have "yaml_get sample_doc ''detector'' = None" "yaml_get sample_doc ''web'' = None"
    "yaml_get sample_doc ''recording'' = None" "yaml_get sample_doc ''storage'' = None"
    "yaml_get sample_doc ''alerts'' = None" "yaml_get sample_doc ''gps'' = None"
    "yaml_get sample_doc ''webrtc'' = None" "yaml_get sample_doc ''whip'' = None"
    "yaml_get sample_doc ''logging'' = None"
    by (simp_all add: sample_doc_def)
  moreover have "is_mapping sample_video" by (simp add: is_mapping_def sample_video_def)
  ultimately show ?thesis
    unfolding parse_steps_def require_video_def if_section_def
    by (simp only: run_steps.simps option.case sum.case sample_video_parses sample_video_default
        simp_thms if_False not_False_eq_True)
qed

lemma sample_parses: "parse_config sample_env [] = Inr (default_config ''web'')"
proof -
  have "validate sample_env (default_config ''web'') = Inr ()"
    by (rule validate_defaults) (simp_all add: sample_env_def)
  then have "validate_step sample_env (default_config ''web'') = Inr (default_config ''web'')"
    by (simp add: validate_step_def)
  moreover have "keys_step sample_doc [] root_keys c = Inr c" for c :: config
    by (simp add: sample_doc_def keys_step_def check_keys_def)
  moreover have "yaml_load sample_env [] = Inr sample_doc" "web_root_default sample_env = ''web''"
    by (simp_all add: sample_env_def)
  ultimately show ?thesis
    unfolding parse_config_def parse_def
    by (simp only: run_steps.simps run_steps_append sum.case sample_steps)
qed


text \<open>A host name is accepted exactly when it is a dotted number that
  \<^verbatim>\<open>inet_pton\<close> accepts or a sequence of at most 253 characters whose labels between
  the dots are non-empty, at most 63 long, alphanumeric with inner hyphens.\<close>

theorem valid_hostname_iff:
  "valid_hostname env host \<longleftrightarrow> host \<noteq> [] \<and> length host \<le> 253 \<and>
     (if CHR ''.'' \<in> set host \<and> set host \<subseteq> set ''0123456789.'' then inet_pton4 env host
      else list_all valid_label (labels host))"
proof -
  have "(\<forall>c \<in> set host. c \<in> D) \<longleftrightarrow> set host \<subseteq> D" for D by blast
  moreover have "hostname_loop host 0 \<longleftrightarrow> list_all valid_label (labels host)"
    by (simp only: hostname_loop_labels list_all_iff drop_0)
  ultimately show ?thesis
    unfolding valid_hostname_def by (simp only: not_le [symmetric] if_False if_True split: if_split) blast
qed

end
