(* ===== verification/Application.thy ===== *)
theory Application
  imports Config
begin

text \<open>
  \<^verbatim>\<open>include/skai/application.hpp\<close> and
  \<^verbatim>\<open>src/application.cpp\<close>: the order in which the modules of the program are
  brought up and torn down.  A module is its four virtual functions over a state \<open>'w\<close> that
  all modules share; a function that may throw returns \<open>None\<close> where it does.  The record carries, beside
  the members of the class, the list \<open>calls\<close> of the calls made on modules so far, which the
  properties are about.  Calls of one application do not overlap.
\<close>

section \<open>State\<close>

record 'w lifecycle_module =
  m_initialize :: "config \<Rightarrow> 'w \<Rightarrow> bool option \<times> 'w"
  m_start :: "'w \<Rightarrow> bool option \<times> 'w"
  m_stop :: "'w \<Rightarrow> 'w"
  m_wait :: "'w \<Rightarrow> 'w"
  m_last_error :: "'w \<Rightarrow> string"

record 'w modules =
  mod_storage :: "'w lifecycle_module option"
  mod_webrtc :: "'w lifecycle_module option"
  mod_whip :: "'w lifecycle_module option"
  mod_web :: "'w lifecycle_module option"
  mod_encoder :: "'w lifecycle_module option"
  mod_detector :: "'w lifecycle_module option"
  mod_recording :: "'w lifecycle_module option"
  mod_video :: "'w lifecycle_module option"
  mod_gps :: "'w lifecycle_module option"

datatype app_state = New | Initialized | Running | Stopping | Stopped | Joining

datatype call =
    C_initialize string bool
  | C_start string bool
  | C_stop string
  | C_wait string

type_synonym 'w module_ref = "string \<times> 'w lifecycle_module"

record 'w application =
  config_path :: string
  app_modules :: "'w modules"
  app_config :: config
  minimum_level :: log_level
  active :: "'w module_ref list"
  state :: app_state
  last_error :: string
  last_error_module :: string
  world :: 'w
  calls :: "call list"

definition new_application ::
    "string \<Rightarrow> 'w modules \<Rightarrow> string \<Rightarrow> log_level \<Rightarrow> 'w \<Rightarrow> 'w application" where
  "new_application path ms web_root level w =
     \<lparr>config_path = path, app_modules = ms, app_config = default_config web_root, minimum_level = level,
      active = [], state = New, last_error = [], last_error_module = ''core'', world = w, calls = []\<rparr>"

section \<open>Operations\<close>

text \<open>\<^verbatim>\<open>try_action\<close>: an exception counts as failure.\<close>

definition try_action :: "bool option \<Rightarrow> bool" where
  "try_action outcome = (outcome = Some True)"

definition ordered :: "'w modules \<Rightarrow> (string \<times> 'w lifecycle_module option) list" where
  "ordered ms =
     [(''storage'', mod_storage ms), (''webrtc'', mod_webrtc ms), (''whip'', mod_whip ms),
      (''web'', mod_web ms), (''encoder'', mod_encoder ms), (''detector'', mod_detector ms),
      (''recording'', mod_recording ms), (''video'', mod_video ms), (''gps'', mod_gps ms)]"

text \<open>The two loops over \<^verbatim>\<open>active_\<close> from the back.\<close>

fun stop_all :: "'w module_ref list \<Rightarrow> 'w application \<Rightarrow> 'w application" where
  "stop_all [] a = a"
| "stop_all ((name, m) # rest) a =
     stop_all rest (a\<lparr>world := m_stop m (world a), calls := calls a @ [C_stop name]\<rparr>)"

fun wait_all :: "'w module_ref list \<Rightarrow> 'w application \<Rightarrow> 'w application" where
  "wait_all [] a = a"
| "wait_all ((name, m) # rest) a =
     wait_all rest (a\<lparr>world := m_wait m (world a), calls := calls a @ [C_wait name]\<rparr>)"

fun initialize_modules ::
    "(string \<times> 'w lifecycle_module option) list \<Rightarrow> 'w application \<Rightarrow> bool \<times> 'w application" where
  "initialize_modules [] a = (True, a\<lparr>state := Initialized\<rparr>)"
| "initialize_modules ((name, None) # items) a = initialize_modules items a"
| "initialize_modules ((name, Some m) # items) a =
     (let (outcome, w) = m_initialize m (app_config a) (world a);
          a1 = a\<lparr>world := w, calls := calls a @ [C_initialize name (try_action outcome)]\<rparr>
      in if try_action outcome then initialize_modules items (a1\<lparr>active := active a1 @ [(name, m)]\<rparr>)
         else let detail = m_last_error m w;
                  a2 = a1\<lparr>last_error := (if detail = [] then name @ ''.initialize failed'' else detail),
                          last_error_module := name\<rparr>;
                  a3 = wait_all (rev (active a2)) (stop_all (rev (active a2)) a2)
              in (False, a3\<lparr>active := []\<rparr>))"

definition initialize ::
    "config_env \<Rightarrow> (string \<Rightarrow> file_read) \<Rightarrow> 'w application \<Rightarrow> bool \<times> 'w application" where
  "initialize env read_file a =
     (if state a \<noteq> New then
        (False, a\<lparr>last_error := ''application must be stopped and joined before initialization'',
                  last_error_module := ''core''\<rparr>)
      else
        let a1 = a\<lparr>last_error := [], last_error_module := ''core''\<rparr>;
            loaded = (if config_path a = [] then Inr (default_config (web_root_default env))
                      else load_config env read_file (config_path a))
        in case loaded of
             Inl e \<Rightarrow> (False, a1\<lparr>last_error := e, last_error_module := ''config''\<rparr>)
           | Inr c \<Rightarrow> initialize_modules (ordered (app_modules a))
                        (a1\<lparr>app_config := c, minimum_level := cfg_log_level c\<rparr>))"

definition stop :: "'w application \<Rightarrow> 'w application" where
  "stop a =
     (if state a \<noteq> Initialized \<and> state a \<noteq> Running then a
      else let a1 = a\<lparr>state := Stopping\<rparr>; a2 = stop_all (rev (active a1)) a1
           in a2\<lparr>state := Stopped\<rparr>)"

text \<open>\<open>None\<close> is a call that blocks until another thread changes the state.\<close>

definition wait :: "'w application \<Rightarrow> 'w application option" where
  "wait a =
     (case state a of
        New \<Rightarrow> Some a
      | Stopped \<Rightarrow>
          let a1 = a\<lparr>state := Joining\<rparr>; a2 = wait_all (rev (active a1)) a1
          in Some (a2\<lparr>active := [], state := New\<rparr>)
      | _ \<Rightarrow> None)"

fun start_modules :: "'w module_ref list \<Rightarrow> 'w application \<Rightarrow> bool \<times> 'w application" where
  "start_modules [] a = (True, a\<lparr>state := Running\<rparr>)"
| "start_modules ((name, m) # items) a =
     (let (outcome, w) = m_start m (world a);
          a1 = a\<lparr>world := w, calls := calls a @ [C_start name (try_action outcome)]\<rparr>
      in if try_action outcome then start_modules items a1
         else (False, the (wait (stop (a1\<lparr>last_error := name @ ''.start failed'', last_error_module := name\<rparr>)))))"

definition start :: "'w application \<Rightarrow> bool \<times> 'w application" where
  "start a =
     (if state a \<noteq> Initialized then
        (False, a\<lparr>last_error := ''application must be initialized before start'', last_error_module := ''core''\<rparr>)
      else start_modules (active a) (a\<lparr>last_error := [], last_error_module := ''core''\<rparr>))"

definition destroy :: "'w application \<Rightarrow> 'w application option" where
  "destroy a = wait (stop a)"

section \<open>The discipline of the calls\<close>

text \<open>
  A module's life as the comment on \<^verbatim>\<open>LifecycleModule\<close> promises it, replayed
  over the calls: which modules are up, which still have to be stopped, which still have to be
  joined.  \<open>None\<close> is a broken promise.
\<close>

datatype phase =
    Up "string list"
  | Halting "string list" "string list"
  | Joining_rest "string list"

fun replay1 :: "call \<Rightarrow> phase \<Rightarrow> phase option" where
  "replay1 (C_initialize n ok) (Up up) =
     (if n \<in> set up then None else Some (Up (if ok then up @ [n] else up)))"
| "replay1 (C_start n ok) (Up up) = (if n \<in> set up then Some (Up up) else None)"
| "replay1 (C_stop n) (Up up) =
     (if up \<noteq> [] \<and> last up = n then Some (Halting up (butlast up)) else None)"
| "replay1 (C_stop n) (Halting up todo) =
     (if todo \<noteq> [] \<and> last todo = n then Some (Halting up (butlast todo)) else None)"
| "replay1 (C_wait n) (Halting up []) =
     (if up \<noteq> [] \<and> last up = n
      then Some (if butlast up = [] then Up [] else Joining_rest (butlast up)) else None)"
| "replay1 (C_wait n) (Joining_rest up) =
     (if up \<noteq> [] \<and> last up = n
      then Some (if butlast up = [] then Up [] else Joining_rest (butlast up)) else None)"
| "replay1 c p = None"

fun replay :: "call list \<Rightarrow> phase \<Rightarrow> phase option" where
  "replay [] p = Some p"
| "replay (c # cs) p = (case replay1 c p of None \<Rightarrow> None | Some p' \<Rightarrow> replay cs p')"

lemma replay_append:
  "replay (cs @ ds) p = (case replay cs p of None \<Rightarrow> None | Some p' \<Rightarrow> replay ds p')"
  by (induction cs arbitrary: p) (auto split: option.split)

lemma stop_all_effect:
  "calls (stop_all ms a) = calls a @ map (C_stop \<circ> fst) ms \<and> state (stop_all ms a) = state a \<and>
    active (stop_all ms a) = active a \<and> last_error (stop_all ms a) = last_error a \<and>
    last_error_module (stop_all ms a) = last_error_module a \<and> app_modules (stop_all ms a) = app_modules a"
  by (induction ms a rule: stop_all.induct) auto

lemma wait_all_effect:
  "calls (wait_all ms a) = calls a @ map (C_wait \<circ> fst) ms \<and> state (wait_all ms a) = state a \<and>
    active (wait_all ms a) = active a \<and> last_error (wait_all ms a) = last_error a \<and>
    last_error_module (wait_all ms a) = last_error_module a \<and> app_modules (wait_all ms a) = app_modules a"
  by (induction ms a rule: wait_all.induct) auto

lemmas loop_effects = stop_all_effect wait_all_effect

lemma replay_stops_from: "replay (map C_stop (rev todo)) (Halting up todo) = Some (Halting up [])"
  by (induction todo rule: rev_induct) auto

lemma replay_stops:
  "up \<noteq> [] \<Longrightarrow> replay (map C_stop (rev up)) (Up up) = Some (Halting up [])"
  by (cases up rule: rev_cases) (auto simp: replay_stops_from)

lemma replay_waits_from:
  "up \<noteq> [] \<Longrightarrow> replay (map C_wait (rev up)) (Joining_rest up) = Some (Up [])"
proof (induction up rule: rev_induct)
  case (snoc x xs)
  then show ?case by (cases "xs = []") auto
qed simp

lemma replay_waits:
  "up \<noteq> [] \<Longrightarrow> replay (map C_wait (rev up)) (Halting up []) = Some (Up [])"
proof (cases up rule: rev_cases)
  case (snoc xs x)
  then show ?thesis by (cases "xs = []") (auto simp: replay_waits_from)
qed simp

abbreviation names :: "'w application \<Rightarrow> string list" where
  "names a \<equiv> map fst (active a)"

definition app_inv :: "'w application \<Rightarrow> bool" where
  "app_inv a \<longleftrightarrow>
     (case state a of
        New \<Rightarrow> active a = [] \<and> replay (calls a) (Up []) = Some (Up [])
      | Stopped \<Rightarrow> replay (calls a) (Up []) = Some (if active a = [] then Up [] else Halting (names a) [])
      | Stopping \<Rightarrow> False
      | Joining \<Rightarrow> False
      | _ \<Rightarrow> replay (calls a) (Up []) = Some (Up (names a)))"

definition present :: "(string \<times> 'w lifecycle_module option) list \<Rightarrow> string list" where
  "present items = map fst (filter (\<lambda>i. snd i \<noteq> None) items)"

lemma present_simps [simp]:
  "present [] = []" "present ((n, None) # items) = present items"
  "present ((n, Some m) # items) = n # present items"
  by (simp_all add: present_def)

lemma rollback_calls:
  assumes "replay (calls a) (Up []) = Some (Up (names a))"
  shows "replay (calls (wait_all (rev (active a)) (stop_all (rev (active a)) a))) (Up []) = Some (Up [])"
proof -
  have "calls (wait_all (rev (active a)) (stop_all (rev (active a)) a)) =
      calls a @ map C_stop (rev (names a)) @ map C_wait (rev (names a))"
    by (simp add: loop_effects rev_map)
  then show ?thesis
    using assms by (cases "active a = []") (simp_all add: replay_append replay_stops replay_waits)
qed

lemma initialize_modules_effect:
  assumes "initialize_modules items a = (ok, a')" and "state a = New"
    and "replay (calls a) (Up []) = Some (Up (names a))" and "distinct (names a @ present items)"
  shows "app_inv a' \<and> app_modules a' = app_modules a \<and>
    (if ok then state a' = Initialized \<and> names a' = names a @ present items
     else state a' = New \<and> last_error_module a' \<in> set (present items) \<and> last_error a' \<noteq> [])"
  using assms
proof (induction items a arbitrary: ok a' rule: initialize_modules.induct)
  case (1 a)
  then show ?case by (auto simp: app_inv_def)
next
  case (2 name items a)
  then show ?case by simp
next
  case (3 name m items a)
  obtain out w where out: "m_initialize m (app_config a) (world a) = (out, w)" by fastforce
  let ?a1 = "a\<lparr>world := w, calls := calls a @ [C_initialize name (try_action out)]\<rparr>"
  have new: "name \<notin> set (names a)" using "3.prems"(4) by auto
  show ?case
  proof (cases "try_action out")
    case True
    let ?a2 = "?a1\<lparr>active := active ?a1 @ [(name, m)]\<rparr>"
    have "initialize_modules items ?a2 = (ok, a')" using "3.prems"(1) out True by simp
    moreover have "replay (calls ?a2) (Up []) = Some (Up (names ?a2))"
      using "3.prems"(3) new True by (simp add: replay_append)
    ultimately show ?thesis
      using "3.IH" [OF out [symmetric] refl refl True] "3.prems" by auto
  next
    case False
    define a2 where "a2 = ?a1\<lparr>last_error := (if m_last_error m w = [] then name @ ''.initialize failed''
      else m_last_error m w), last_error_module := name\<rparr>"
    have res: "ok = False" "a' = (wait_all (rev (active a2)) (stop_all (rev (active a2)) a2))\<lparr>active := []\<rparr>"
      using "3.prems"(1) out False by (simp_all add: a2_def Let_def)
    have "replay (calls a2) (Up []) = Some (Up (names a2))"
      using "3.prems"(3) new False by (simp add: a2_def replay_append)
    note rolled = rollback_calls [OF this]
    have "state a2 = New" "app_modules a2 = app_modules a" "last_error_module a2 = name" "last_error a2 \<noteq> []"
      using "3.prems"(2) by (simp_all add: a2_def)
    with rolled show ?thesis unfolding res by (simp add: app_inv_def loop_effects)
  qed
qed

lemma distinct_present: "distinct (present (ordered ms))"
proof -
  have "distinct (map fst (ordered ms))" by (simp add: ordered_def)
  then show ?thesis unfolding present_def by (rule distinct_map_filter)
qed

lemma initialize_inv:
  assumes "app_inv a" and "initialize env rf a = (ok, a')"
  shows "app_inv a' \<and> (ok \<longrightarrow> state a' = Initialized \<and> names a' = present (ordered (app_modules a)))
    \<and> (\<not> ok \<longrightarrow> state a' = state a \<and> active a' = active a)"
proof (cases "state a = New")
  case False
  then show ?thesis using assms by (auto simp: initialize_def app_inv_def split: app_state.splits)
next
  case True
  then have a: "active a = []" "replay (calls a) (Up []) = Some (Up [])"
    using assms(1) by (simp_all add: app_inv_def)
  show ?thesis
  proof (cases "if config_path a = [] then Inr (default_config (web_root_default env))
                else load_config env rf (config_path a)")
    case (Inl e)
    then show ?thesis using assms True a by (auto simp: initialize_def app_inv_def)
  next
    case (Inr c)
    then have i: "initialize_modules (ordered (app_modules a))
        (a\<lparr>last_error := [], last_error_module := ''core'', app_config := c, minimum_level := cfg_log_level c\<rparr>) = (ok, a')"
      using assms(2) True by (simp add: initialize_def)
    have "app_inv a' \<and> app_modules a' = app_modules a \<and>
        (if ok then state a' = Initialized \<and> names a' = present (ordered (app_modules a)) else state a' = New)"
      using initialize_modules_effect [OF i] True a distinct_present [of "app_modules a"]
      by (cases ok) simp_all
    moreover have "active a' = []" if "app_inv a'" "state a' = New" using that by (simp add: app_inv_def)
    ultimately show ?thesis using True a by (auto split: if_splits)
  qed
qed

lemma replay_refs:
  assumes "ms \<noteq> []"
  shows "replay (map (C_stop \<circ> fst) (rev ms)) (Up (map fst ms)) = Some (Halting (map fst ms) [])"
    and "replay (map (C_wait \<circ> fst) (rev ms)) (Halting (map fst ms) []) = Some (Up [])"
  using assms replay_stops [of "map fst ms"] replay_waits [of "map fst ms"] by (simp_all add: rev_map)

lemma stop_inv: "app_inv a \<Longrightarrow> app_inv (stop a)"
  by (auto simp: stop_def app_inv_def loop_effects replay_append replay_refs Let_def
      split: app_state.splits)

lemma wait_inv: "app_inv a \<Longrightarrow> wait a = Some a' \<Longrightarrow> app_inv a' \<and> state a' = New"
  by (auto simp: wait_def app_inv_def loop_effects replay_append replay_refs Let_def
      split: app_state.splits if_splits)

lemma wait_stop: "app_inv a \<Longrightarrow> \<exists>a'. wait (stop a) = Some a'"
  by (auto simp: stop_def wait_def app_inv_def Let_def split: app_state.splits)

lemma start_modules_inv:
  assumes "start_modules items a = (ok, a')" and "state a = Initialized" and "app_inv a"
    and "set items \<subseteq> set (active a)"
  shows "app_inv a' \<and> (if ok then state a' = Running \<and> active a' = active a else state a' = New)"
  using assms
proof (induction items a arbitrary: ok a' rule: start_modules.induct)
  case (1 a)
  then show ?case by (auto simp: app_inv_def)
next
  case (2 name m items a)
  obtain out w where out: "m_start m (world a) = (out, w)" by fastforce
  let ?a1 = "a\<lparr>world := w, calls := calls a @ [C_start name (try_action out)]\<rparr>"
  have "name \<in> set (names a)" using "2.prems"(4) by force
  then have inv1: "app_inv ?a1" using "2.prems"(2,3) by (simp add: app_inv_def replay_append)
  show ?case
  proof (cases "try_action out")
    case True
    then have "start_modules items ?a1 = (ok, a')" using "2.prems"(1) out by simp
    from "2.IH" [OF out [symmetric] refl refl True this] show ?thesis using "2.prems" inv1 by simp
  next
    case False
    let ?a2 = "?a1\<lparr>last_error := name @ ''.start failed'', last_error_module := name\<rparr>"
    have "app_inv ?a2" using inv1 by (simp add: app_inv_def split: app_state.splits)
    then obtain a3 where "wait (stop ?a2) = Some a3" "app_inv a3 \<and> state a3 = New"
      using wait_stop wait_inv stop_inv by metis
    then show ?thesis using "2.prems"(1) out False by simp
  qed
qed

lemma start_inv:
  assumes "app_inv a" and "start a = (ok, a')"
  shows "app_inv a' \<and> (ok \<longrightarrow> state a' = Running \<and> active a' = active a) \<and>
    (\<not> ok \<longrightarrow> state a = Initialized \<longrightarrow> state a' = New)"
proof (cases "state a = Initialized")
  case True
  let ?a1 = "a\<lparr>last_error := [], last_error_module := ''core''\<rparr>"
  have "start_modules (active a) ?a1 = (ok, a')" using assms(2) True by (simp add: start_def)
  moreover have "app_inv ?a1" using assms(1) True by (simp add: app_inv_def)
  ultimately show ?thesis using start_modules_inv [of "active a" ?a1] True by (auto split: if_splits)
next
  case False
  then show ?thesis using assms by (auto simp: start_def app_inv_def split: app_state.splits)
qed

section \<open>Every run\<close>

inductive reachable :: "'w application \<Rightarrow> 'w application \<Rightarrow> bool" for a0 where
  initial: "reachable a0 a0"
| initialize: "reachable a0 a \<Longrightarrow> initialize env rf a = (ok, a') \<Longrightarrow> reachable a0 a'"
| start: "reachable a0 a \<Longrightarrow> start a = (ok, a') \<Longrightarrow> reachable a0 a'"
| stop: "reachable a0 a \<Longrightarrow> reachable a0 (stop a)"
| wait: "reachable a0 a \<Longrightarrow> wait a = Some a' \<Longrightarrow> reachable a0 a'"

lemma reachable_inv: "reachable a0 a \<Longrightarrow> app_inv a0 \<Longrightarrow> app_inv a"
  by (induction rule: reachable.induct) (auto dest: initialize_inv start_inv stop_inv wait_inv)

lemma new_application_inv: "app_inv (new_application path ms web_root level w)"
  by (simp add: new_application_def app_inv_def)

text \<open>C1: In every run of the application, whatever its modules do, the calls on modules keep the
  promise of \<^verbatim>\<open>LifecycleModule\<close>: a module is initialized only while it is not up,
  started only while it is up, and all modules that are up are stopped in the reverse of their
  initialization order and then joined in that order before any is initialized again.  A new
  application has no module up, an initialized or running one exactly its active modules, a
  stopped one has stopped all of them.\<close>

theorem lifecycle_discipline:
  assumes "reachable (new_application path ms web_root level w) a"
  shows "replay (calls a) (Up []) =
    Some (if state a = Stopped \<and> active a \<noteq> [] then Halting (names a) [] else Up (names a))"
  using reachable_inv [OF assms new_application_inv] by (auto simp: app_inv_def split: app_state.splits)

text \<open>Bringing the application up is all or nothing: \<^verbatim>\<open>initialize\<close> either
  returns true with every configured module up, in the fixed order, or false with none up and the
  application as ready for another attempt as before; \<^verbatim>\<open>start\<close> of an
  initialized application either returns true with all of them running or tears everything down
  and returns to the new state; and the destructor never blocks and leaves no module up.\<close>

theorem startup_all_or_nothing:
  assumes "reachable (new_application path ms web_root level w) a" and "state a = New"
  shows "(case initialize env rf a of
      (False, a') \<Rightarrow> state a' = New \<and> active a' = [] \<and> replay (calls a') (Up []) = Some (Up [])
    | (True, a') \<Rightarrow> state a' = Initialized \<and> names a' = present (ordered (app_modules a)) \<and>
        (case start a' of
           (False, a2) \<Rightarrow> state a2 = New \<and> active a2 = [] \<and> replay (calls a2) (Up []) = Some (Up [])
         | (True, a2) \<Rightarrow> state a2 = Running \<and> active a2 = active a' \<and>
             (\<exists>a3. destroy a2 = Some a3 \<and> active a3 = [] \<and> replay (calls a3) (Up []) = Some (Up []))))"
proof -
  note inv = reachable_inv [OF assms(1) new_application_inv]
  have new: "active x = [] \<and> replay (calls x) (Up []) = Some (Up [])" if "app_inv x" "state x = New"
    for x :: "'a application"
    using that by (simp add: app_inv_def)
  obtain ok a' where i: "initialize env rf a = (ok, a')" by fastforce
  note inv' = initialize_inv [OF inv i]
  obtain ok2 a2 where s: "start a' = (ok2, a2)" by fastforce
  note inv2 = start_inv [OF conjunct1 [OF inv'] s]
  obtain a3 where "destroy a2 = Some a3" "app_inv a3 \<and> state a3 = New"
    using wait_stop wait_inv stop_inv inv2 unfolding destroy_def by metis
  then have "\<exists>a3. destroy a2 = Some a3 \<and> active a3 = [] \<and> replay (calls a3) (Up []) = Some (Up [])"
    using new by blast
  then show ?thesis
    using i s inv' inv2 new assms(2) by (cases ok; cases ok2) auto
qed

text \<open>A module that logs nothing and succeeds, and one whose start throws.\<close>

definition good_module :: "nat lifecycle_module" where
  "good_module = \<lparr>m_initialize = (\<lambda>c w. (Some True, w + 1)), m_start = (\<lambda>w. (Some True, w)),
     m_stop = (\<lambda>w. w), m_wait = (\<lambda>w. w - 1), m_last_error = (\<lambda>w. [])\<rparr>"

definition sample_modules :: "nat modules" where
  "sample_modules = \<lparr>mod_storage = Some good_module, mod_webrtc = None, mod_whip = None, mod_web = None,
     mod_encoder = None, mod_detector = None, mod_recording = None,
     mod_video = Some (good_module\<lparr>m_start := (\<lambda>w. (None, w))\<rparr>), mod_gps = None\<rparr>"

abbreviation sample_app :: "nat application" where
  "sample_app \<equiv> new_application [] sample_modules ''web'' Log_Info 0"

theorem lifecycle_discipline_witness:
  "replay (calls (snd (start (snd (initialize sample_env (\<lambda>_. Open_failed) sample_app))))) (Up []) = Some (Up []) \<and>
   calls (snd (start (snd (initialize sample_env (\<lambda>_. Open_failed) sample_app)))) =
     [C_initialize ''storage'' True, C_initialize ''video'' True, C_start ''storage'' True,
      C_start ''video'' False, C_stop ''video'', C_stop ''storage'', C_wait ''video'', C_wait ''storage'']"
proof -
  let ?a = "snd (start (snd (initialize sample_env (\<lambda>_. Open_failed) sample_app)))"
  have r: "reachable sample_app ?a"
    by (metis prod.collapse reachable.initial reachable.initialize reachable.start)
  have e: "calls ?a = [C_initialize ''storage'' True, C_initialize ''video'' True, C_start ''storage'' True,
      C_start ''video'' False, C_stop ''video'', C_stop ''storage'', C_wait ''video'', C_wait ''storage'']"
    "state ?a = New" "active ?a = []"
    by (simp_all add: initialize_def start_def new_application_def sample_modules_def ordered_def
        good_module_def try_action_def stop_def wait_def)
  show ?thesis using lifecycle_discipline [OF r] e by simp
qed

theorem startup_all_or_nothing_witness:
  "case initialize sample_env (\<lambda>_. Open_failed) sample_app of
     (True, a') \<Rightarrow> names a' = [''storage'', ''video''] | (False, a') \<Rightarrow> False"
proof -
  have "state sample_app = New" by (simp add: new_application_def)
  note startup_all_or_nothing [OF reachable.initial this, of sample_env "\<lambda>_. Open_failed"]
  moreover have "fst (initialize sample_env (\<lambda>_. Open_failed) sample_app)"
    by (simp add: initialize_def new_application_def sample_modules_def ordered_def good_module_def
        try_action_def)
  moreover have "present (ordered (app_modules sample_app)) = [''storage'', ''video'']"
    by (simp add: new_application_def sample_modules_def ordered_def)
  ultimately show ?thesis by (auto split: prod.splits bool.splits)
qed

end
