(* ===== verification/Recording.thy ===== *)
theory Recording
  imports Bounded_Queue Whip_Policy Config Json_Text
begin

text \<open>
  \<^verbatim>\<open>include/skai/video/recording_control.hpp\<close>,
  \<^verbatim>\<open>include/skai/video/recording.hpp\<close> and
  \<^verbatim>\<open>src/video/recording.cpp\<close>: the controller the HTTP API and the health checks
  share with the recorder, the storage quota, and the recorder's worker, one turn of its loop at a
  time.  GStreamer and the file system are parameters: a turn gets what the pipeline and the
  directory answer (\<open>turn_env\<close>, \<open>dir_env\<close>).  The recorder record carries logs beside the members of the
  class: what the worker did with each access unit, the recordings removed for the quota, and the
  events published.
\<close>

section \<open>RecordingController\<close>

record recording_status =
  rs_configured :: bool
  rs_available :: bool
  rs_active :: bool
  rs_state :: string
  current_path :: string
  rs_last_error :: string
  unavailable_reason :: string
  access_units_written :: u64
  bytes_written :: u64
  access_units_dropped :: u64

definition initial_status :: recording_status where
  "initial_status =
     \<lparr>rs_configured = False, rs_available = True, rs_active = False, rs_state = ''stopped'',
      current_path = [], rs_last_error = [], unavailable_reason = [], access_units_written = 0,
      bytes_written = 0, access_units_dropped = 0\<rparr>"

record recording_controller =
  rc_configured :: bool
  rc_requested :: bool
  media_available :: bool
  media_unavailable_reason :: string
  rc_status :: recording_status

definition new_controller :: recording_controller where
  "new_controller =
     \<lparr>rc_configured = False, rc_requested = False, media_available = True,
      media_unavailable_reason = [], rc_status = initial_status\<rparr>"

abbreviation on_status ::
    "(recording_status \<Rightarrow> recording_status) \<Rightarrow> recording_controller \<Rightarrow> recording_controller" where
  "on_status f k \<equiv> k\<lparr>rc_status := f (rc_status k)\<rparr>"

definition configure :: "recording_config \<Rightarrow> recording_controller \<Rightarrow> recording_controller" where
  "configure cfg k =
     k\<lparr>rc_configured := True, rc_requested := rc_enabled cfg,
       rc_status := initial_status\<lparr>rs_configured := True, rs_available := media_available k,
         unavailable_reason := media_unavailable_reason k,
         rs_state := (if \<not> media_available k then ''unavailable''
                      else if rc_enabled cfg then ''starting'' else ''stopped'')\<rparr>\<rparr>"

definition rc_start :: "recording_controller \<Rightarrow> (bool \<times> string) \<times> recording_controller" where
  "rc_start k =
     (if \<not> rc_configured k then ((False, ''recording is not configured''), k)
      else if \<not> media_available k then
        ((False, if media_unavailable_reason k = [] then ''source H.264 is unavailable''
                 else media_unavailable_reason k), k)
      else ((True, []),
        k\<lparr>rc_requested := True,
          rc_status := (rc_status k)\<lparr>rs_last_error := [],
            rs_state := (if \<not> rs_active (rc_status k) then ''starting'' else rs_state (rc_status k))\<rparr>\<rparr>))"

definition rc_stop :: "recording_controller \<Rightarrow> (bool \<times> string) \<times> recording_controller" where
  "rc_stop k =
     (if \<not> rc_configured k then ((False, ''recording is not configured''), k)
      else ((True, []),
        k\<lparr>rc_requested := False,
          rc_status := (rc_status k)\<lparr>rs_state := (if rs_active (rc_status k) then ''stopping'' else ''stopped'')\<rparr>\<rparr>))"

definition requested :: "recording_controller \<Rightarrow> bool" where
  "requested k \<longleftrightarrow> rc_requested k \<and> media_available k"

definition set_active :: "string \<Rightarrow> recording_controller \<Rightarrow> recording_controller" where
  "set_active path = on_status (\<lambda>s. s\<lparr>rs_active := True, rs_state := ''recording'', current_path := path\<rparr>)"

definition set_stopped :: "recording_controller \<Rightarrow> recording_controller" where
  "set_stopped k =
     (let k1 = on_status (\<lambda>s. s\<lparr>rs_active := False\<rparr>) k in
      if \<not> rc_requested k1 \<and> rs_state (rc_status k1) \<noteq> ''error''
      then on_status (\<lambda>s. s\<lparr>rs_state := ''stopped''\<rparr>) k1 else k1)"

definition set_error :: "string \<Rightarrow> recording_controller \<Rightarrow> recording_controller" where
  "set_error e k =
     k\<lparr>rc_requested := False,
       rc_status := (rc_status k)\<lparr>rs_active := False, rs_state := ''error'', rs_last_error := e\<rparr>\<rparr>"

definition commit_written :: "u64 \<Rightarrow> u64 \<Rightarrow> recording_controller \<Rightarrow> recording_controller" where
  "commit_written units bytes =
     on_status (\<lambda>s. s\<lparr>access_units_written := access_units_written s + units,
                     bytes_written := bytes_written s + bytes\<rparr>)"

definition add_dropped :: "recording_controller \<Rightarrow> recording_controller" where
  "add_dropped = on_status (\<lambda>s. s\<lparr>access_units_dropped := access_units_dropped s + 1\<rparr>)"

definition set_media_available :: "bool \<Rightarrow> string \<Rightarrow> recording_controller \<Rightarrow> recording_controller" where
  "set_media_available avail reason k =
     (let r = (if avail then [] else reason);
          k1 = k\<lparr>media_available := avail, media_unavailable_reason := r,
                 rc_status := (rc_status k)\<lparr>rs_available := avail, unavailable_reason := r\<rparr>\<rparr>
      in if \<not> avail then
           on_status (\<lambda>s. s\<lparr>rs_active := False,
             rs_state := (if rs_state s \<noteq> ''error'' then ''unavailable'' else rs_state s)\<rparr>) k1
         else if rc_requested k1 \<and> \<not> rs_active (rc_status k1) then on_status (\<lambda>s. s\<lparr>rs_state := ''starting''\<rparr>) k1
         else if \<not> rc_requested k1 \<and> rs_state (rc_status k1) \<noteq> ''error''
         then on_status (\<lambda>s. s\<lparr>rs_state := ''stopped''\<rparr>) k1
         else k1)"

section \<open>The directory\<close>

text \<open>What the calls on one directory entry answer; \<open>None\<close> is an error code.\<close>

record dir_entry =
  de_name :: string
  de_regular :: "bool option"
  de_size :: "u64 option"
  de_time :: "int option"

record rec_file =
  rf_name :: string
  rf_size :: u64
  rf_time :: int

record dir_env =
  create_error :: "string option"
  dir_entries :: "dir_entry list"
  space_available :: "string + u64"
  remove_fails :: "string \<Rightarrow> bool"

abbreviation mib :: u64 where
  "mib \<equiv> 1048576"

text \<open>\<^verbatim>\<open>path::extension\<close> of a file name that does not start with a dot.\<close>

definition extension :: "string \<Rightarrow> string" where
  "extension name =
     (case rfind_char (CHR ''.'') name of
        None \<Rightarrow> []
      | Some i \<Rightarrow> if i = 0 then [] else drop i name)"

text \<open>The first loop of \<^verbatim>\<open>enforce_quota\<close>.  The flag is the error code left by the
  previous entry; \<open>None\<close> is the early return.\<close>

fun scan_files :: "dir_entry list \<Rightarrow> bool \<Rightarrow> rec_file list option" where
  "scan_files [] code = Some []"
| "scan_files (e # es) code =
     (if code then None
      else case de_regular e of
        None \<Rightarrow> scan_files es True
      | Some regular \<Rightarrow>
          if \<not> regular \<or> extension (de_name e) \<noteq> ''.mp4'' \<or> \<not> starts_with ''recording_'' (de_name e)
          then scan_files es False
          else case de_time e of
            None \<Rightarrow> scan_files es False
          | Some t \<Rightarrow>
              map_option (\<lambda>fs. \<lparr>rf_name = de_name e, rf_size = (case de_size e of None \<Rightarrow> - 1 | Some s \<Rightarrow> s),
                                rf_time = t\<rparr> # fs) (scan_files es False))"

text \<open>The second loop: the names removed, oldest first.\<close>

fun remove_oldest :: "(string \<Rightarrow> bool) \<Rightarrow> u64 \<Rightarrow> rec_file list \<Rightarrow> u64 \<Rightarrow> string list" where
  "remove_oldest fails quota [] used = []"
| "remove_oldest fails quota (f # fs) used =
     (if used \<le> quota then []
      else if fails (rf_name f) then remove_oldest fails quota fs used
      else rf_name f # remove_oldest fails quota fs (used - rf_size f))"

definition oldest_first :: "rec_file list \<Rightarrow> rec_file list" where
  "oldest_first = stable_sort (\<lambda>l r. rf_time l < rf_time r)"

definition total_size :: "rec_file list \<Rightarrow> u64" where
  "total_size fs = fold (\<lambda>f used. used + rf_size f) fs 0"

definition enforce_quota :: "recording_config \<Rightarrow> dir_env \<Rightarrow> string list" where
  "enforce_quota cfg dir =
     (case scan_files (dir_entries dir) False of
        None \<Rightarrow> []
      | Some files \<Rightarrow>
          remove_oldest (remove_fails dir) (max_storage_mb cfg * mib) (oldest_first files) (total_size files))"

text \<open>The removals and the error, if any.\<close>

definition prepare_directory :: "recording_config \<Rightarrow> dir_env \<Rightarrow> string list \<times> string option" where
  "prepare_directory cfg dir =
     (case create_error dir of
        Some m \<Rightarrow> ([], Some (''could not create recording directory: '' @ m))
      | None \<Rightarrow>
          (enforce_quota cfg dir,
           (case space_available dir of
              Inl m \<Rightarrow> Some (''could not inspect recording disk space: '' @ m)
            | Inr avail \<Rightarrow>
                if avail < min_free_space_mb cfg * mib
                then Some ''insufficient free disk space for recording'' else None)))"

definition path_join :: "string \<Rightarrow> string \<Rightarrow> string" where
  "path_join dir name = (if dir = [] \<or> last dir = CHR ''/'' then dir @ name else dir @ ''/'' @ name)"

definition pad_3 :: "nat \<Rightarrow> string" where
  "pad_3 n = replicate (3 - length (to_string n)) (CHR ''0'') @ to_string n"

text \<open>The local time text is an argument.\<close>

definition next_path :: "recording_config \<Rightarrow> string \<Rightarrow> string \<Rightarrow> nat \<Rightarrow> string" where
  "next_path cfg local_time session fragment_id =
     path_join (rc_directory cfg)
       (''recording_'' @ local_time @ ''_'' @ session @
        (if fragment_id \<noteq> 0 then ''_'' @ pad_3 fragment_id else []) @ ''.mp4'')"

section \<open>The worker\<close>

datatype bus_event = Bus_none | Bus_eos | Bus_error string

text \<open>What GStreamer and the clock answer during one turn, and the units the source queues between
  the pop and the reading of the drop counter: the poll of the bus, whether the final
  end-of-stream arrived before an error when a pipeline is closed, the error of building a
  pipeline, the buffers queued in \<^verbatim>\<open>appsrc\<close>, the error of handing over a buffer.\<close>

record turn_env =
  te_pushes :: "encoded_access_unit list"
  te_poll :: bus_event
  te_finalized :: bool
  te_dir :: dir_env
  te_open_error :: "string option"
  te_queued :: nat
  te_write_error :: "string option"
  te_now :: nat

text \<open>\<open>Wrote\<close> carries the queue's drop count at the time the unit was taken.\<close>

datatype log_entry =
    Opened
  | Wrote encoded_access_unit u64
  | Lost encoded_access_unit
  | Closed

record recorder =
  rec_config :: recording_config
  control :: recording_controller
  input :: "encoded_access_unit bounded_queue"
  has_events :: bool
  pipeline :: bool
  rec_running :: bool
  worker :: bool
  rec_last_error :: string
  session_id :: string
  waiting_for_keyframe :: bool
  observed_queue_drops :: u64
  pending_access_units :: u64
  pending_bytes :: u64
  log :: "log_entry list"
  removed :: "string list"
  published :: "string list"

abbreviation on_control :: "(recording_controller \<Rightarrow> recording_controller) \<Rightarrow> recorder \<Rightarrow> recorder" where
  "on_control f r \<equiv> r\<lparr>control := f (control r)\<rparr>"

definition state_json :: "recording_status \<Rightarrow> string" where
  "state_json s =
     ''{'' @ recording_json_string ''state'' @ '':'' @ recording_json_string (rs_state s) @
     '','' @ recording_json_string ''active'' @ '':'' @ json_bool (rs_active s) @
     '','' @ recording_json_string ''current_path'' @ '':'' @ recording_json_string (current_path s) @
     '','' @ recording_json_string ''last_error'' @ '':'' @ recording_json_string (rs_last_error s) @ ''}''"

definition publish_state :: "recorder \<Rightarrow> recorder" where
  "publish_state r =
     (if \<not> has_events r then r
      else r\<lparr>published := published r @ [state_json (rc_status (control r))]\<rparr>)"

definition rec_fail :: "string \<Rightarrow> recorder \<Rightarrow> recorder" where
  "rec_fail e r = publish_state ((on_control (set_error e) r)\<lparr>rec_last_error := e\<rparr>)"

definition close_pipeline :: "bool \<Rightarrow> turn_env \<Rightarrow> recorder \<Rightarrow> recorder" where
  "close_pipeline finalize env r =
     (if \<not> pipeline r then r
      else let r1 = r\<lparr>pipeline := False\<rparr>;
               r2 = (if finalize \<and> te_finalized env
                     then on_control (commit_written (pending_access_units r1) (pending_bytes r1)) r1 else r1)
           in r2\<lparr>pending_access_units := 0, pending_bytes := 0, log := log r2 @ [Closed],
                 removed := removed r2 @ enforce_quota (rec_config r) (te_dir env)\<rparr>)"

definition open_pipeline :: "turn_env \<Rightarrow> recorder \<Rightarrow> string option \<times> recorder" where
  "open_pipeline env r =
     (let (gone, err) = prepare_directory (rec_config r) (te_dir env);
          r1 = r\<lparr>removed := removed r @ gone\<rparr>
      in case err of
           Some e \<Rightarrow> (Some e, r1)
         | None \<Rightarrow> (case te_open_error env of
                     Some e \<Rightarrow> (Some e, r1)
                   | None \<Rightarrow> (None, r1\<lparr>pipeline := True, log := log r1 @ [Opened]\<rparr>)))"

definition write_access_unit :: "turn_env \<Rightarrow> encoded_access_unit \<Rightarrow> recorder \<Rightarrow> string option \<times> recorder" where
  "write_access_unit env unit r =
     (if te_queued env \<ge> 2
      then (None, (on_control add_dropped r)\<lparr>waiting_for_keyframe := True, log := log r @ [Lost unit]\<rparr>)
      else case te_write_error env of
        Some e \<Rightarrow> (Some e, r\<lparr>log := log r @ [Lost unit]\<rparr>)
      | None \<Rightarrow>
          (None, r\<lparr>pending_access_units := pending_access_units r + 1,
                   pending_bytes := pending_bytes r + of_nat (length (au_bytes unit)),
                   log := log r @ [Wrote unit (observed_queue_drops r)]\<rparr>))"

text \<open>The tail of a turn, after a unit was taken from the queue.\<close>

definition record_unit :: "turn_env \<Rightarrow> encoded_access_unit \<Rightarrow> recorder \<Rightarrow> recorder" where
  "record_unit env unit r =
     (let r1 = (if au_discontinuity unit
                then close_pipeline True env (r\<lparr>waiting_for_keyframe := True\<rparr>) else r)
      in if waiting_for_keyframe r1 \<and> \<not> au_keyframe unit
         then on_control add_dropped (r1\<lparr>log := log r1 @ [Lost unit]\<rparr>)
         else
           let r2 = (if waiting_for_keyframe r1
                     then r1\<lparr>waiting_for_keyframe := False, session_id := to_string (te_now env)\<rparr> else r1);
               (open_err, r3) = (if \<not> pipeline r2 then open_pipeline env r2 else (None, r2))
           in case open_err of
                Some e \<Rightarrow> rec_fail e (r3\<lparr>log := log r3 @ [Lost unit]\<rparr>)
              | None \<Rightarrow>
                  (case write_access_unit env unit r3 of
                     (None, r4) \<Rightarrow> r4
                   | (Some e, r4) \<Rightarrow> close_pipeline False env (rec_fail e r4)))"

definition idle_turn :: "turn_env \<Rightarrow> recorder \<Rightarrow> recorder" where
  "idle_turn env r =
     (let r1 = close_pipeline True env r;
          r2 = publish_state (on_control set_stopped (r1\<lparr>waiting_for_keyframe := True\<rparr>));
          (ignored, q) = pop_for (input r2);
          r3 = r2\<lparr>input := q\<rparr>
      in case ignored of
           None \<Rightarrow> r3
         | Some u \<Rightarrow> on_control add_dropped (r3\<lparr>log := log r3 @ [Lost u]\<rparr>))"

definition note_drops :: "turn_env \<Rightarrow> recorder \<Rightarrow> recorder" where
  "note_drops env r =
     (let queue_drops = dropped (bq_stats (input r)) in
      if queue_drops \<noteq> observed_queue_drops r
      then close_pipeline True env (r\<lparr>observed_queue_drops := queue_drops, waiting_for_keyframe := True\<rparr>)
      else r)"

text \<open>One turn of the loop; the flag says whether the loop goes on.\<close>

definition run_turn :: "turn_env \<Rightarrow> recorder \<Rightarrow> bool \<times> recorder" where
  "run_turn env r =
     (if \<not> requested (control r) then (True, idle_turn env r)
      else
        let (unit, q) = pop_for (input r);
            r2 = note_drops env (r\<lparr>input := push_all (te_pushes env) q\<rparr>)
        in if pipeline r2 \<and> te_poll env \<noteq> Bus_none then
             (True, close_pipeline False env
                (rec_fail (case te_poll env of Bus_error d \<Rightarrow> d
                                             | _ \<Rightarrow> ''recording pipeline ended unexpectedly'')
                   (case unit of None \<Rightarrow> r2 | Some u \<Rightarrow> r2\<lparr>log := log r2 @ [Lost u]\<rparr>)))
           else case unit of
             None \<Rightarrow> (\<not> is_shutdown (input r2), r2)
           | Some u \<Rightarrow> (True, record_unit env u r2))"

definition new_recorder ::
    "encoded_access_unit bounded_queue \<Rightarrow> recording_controller \<Rightarrow> bool \<Rightarrow> recorder" where
  "new_recorder q k events =
     \<lparr>rec_config = default_recording, control = k, input = q, has_events = events, pipeline = False,
      rec_running = False, worker = False, rec_last_error = [], session_id = [],
      waiting_for_keyframe = True, observed_queue_drops = 0, pending_access_units = 0, pending_bytes = 0,
      log = [], removed = [], published = []\<rparr>"

definition rec_initialize :: "config \<Rightarrow> recorder \<Rightarrow> bool \<times> recorder" where
  "rec_initialize cfg r =
     (if worker r then (False, r)
      else (True, r\<lparr>rec_config := cfg_recording cfg, control := configure (cfg_recording cfg) (control r),
                    rec_last_error := []\<rparr>))"

definition rec_start :: "bool \<Rightarrow> recorder \<Rightarrow> bool \<times> recorder" where
  "rec_start gst_initialized r =
     (if worker r then (False, r)
      else if \<not> gst_initialized
      then (False, r\<lparr>rec_last_error := ''GStreamer must be initialized before recording''\<rparr>)
      else (True, r\<lparr>rec_running := True, observed_queue_drops := dropped (bq_stats (input r)), worker := True\<rparr>))"

definition rec_stop :: "recorder \<Rightarrow> recorder" where
  "rec_stop r = r\<lparr>rec_running := False\<rparr>"

text \<open>The worker leaves its loop, on request or after the queue was shut down.\<close>

definition run_exit :: "turn_env \<Rightarrow> recorder \<Rightarrow> recorder" where
  "run_exit env r = close_pipeline True env r"

text \<open>\<^verbatim>\<open>wait\<close>, after the worker has left its loop.\<close>

definition rec_wait :: "turn_env \<Rightarrow> recorder \<Rightarrow> recorder" where
  "rec_wait env r =
     (let r1 = (rec_stop r)\<lparr>worker := False\<rparr>;
          r2 = on_control (\<lambda>k. snd (rc_stop k)) r1
      in on_control set_stopped (close_pipeline True env r2))"

definition on_format_location :: "string \<Rightarrow> nat \<Rightarrow> recorder \<Rightarrow> string \<times> recorder" where
  "on_format_location local_time fragment_id r =
     (let path = next_path (rec_config r) local_time (session_id r) fragment_id
      in (path, publish_state (on_control (set_active path) r)))"

section \<open>Runs\<close>

text \<open>Operations of the controller that other threads call.\<close>

datatype control_op = Op_start | Op_stop | Op_media bool string

fun control_step :: "control_op \<Rightarrow> recording_controller \<Rightarrow> recording_controller" where
  "control_step Op_start k = snd (rc_start k)"
| "control_step Op_stop k = snd (rc_stop k)"
| "control_step (Op_media avail reason) k = set_media_available avail reason k"

datatype rec_event =
    Turn turn_env
  | Produce encoded_access_unit
  | Control control_op
  | Located string nat

fun rec_step :: "rec_event \<Rightarrow> recorder \<Rightarrow> recorder" where
  "rec_step (Turn env) r = snd (run_turn env r)"
| "rec_step (Produce u) r = r\<lparr>input := snd (push u (input r))\<rparr>"
| "rec_step (Control f) r = on_control (control_step f) r"
| "rec_step (Located t n) r = snd (on_format_location t n r)"

text \<open>A start request that no turn of the worker can have seen the previous failure before.\<close>

fun late_restart :: "rec_event \<Rightarrow> recorder \<Rightarrow> bool" where
  "late_restart (Control f) r \<longleftrightarrow>
     \<not> requested (control r) \<and> requested (control_step f (control r)) \<and>
     \<not> waiting_for_keyframe r \<and> \<not> pipeline r"
| "late_restart e r \<longleftrightarrow> False"

inductive rec_run :: "recorder \<Rightarrow> recorder \<Rightarrow> bool" for r0 where
  begin_run: "rec_run r0 r0"
| step_run: "rec_run r0 r \<Longrightarrow> \<not> late_restart e r \<Longrightarrow> rec_run r0 (rec_step e r)"

text \<open>A unit can be decoded after what the log holds: it is a keyframe, or it continues the stream
  without a discontinuity right after the last unit written, with no unit lost, the same drop count
  read with both and no change of the file in between.\<close>

definition follows :: "log_entry list \<Rightarrow> encoded_access_unit \<Rightarrow> u64 \<Rightarrow> bool" where
  "follows xs u d \<longleftrightarrow> \<not> au_discontinuity u \<and> (\<exists>zs v. xs = zs @ [Wrote v d])"

definition decodable :: "log_entry list \<Rightarrow> bool" where
  "decodable l \<longleftrightarrow> (\<forall>xs u d ys. l = xs @ Wrote u d # ys \<longrightarrow> au_keyframe u \<or> follows xs u d)"

fun unit_entry :: "log_entry \<Rightarrow> bool" where
  "unit_entry (Wrote u d) = True"
| "unit_entry (Lost u) = True"
| "unit_entry e = False"

abbreviation taken :: "log_entry list \<Rightarrow> u64" where
  "taken l \<equiv> of_nat (length (filter unit_entry l))"

lemma decodable_Nil [simp]: "decodable []"
  by (simp add: decodable_def)

lemma decodable_snoc_Wrote [simp]:
  "decodable (l @ [Wrote u d]) \<longleftrightarrow> decodable l \<and> (au_keyframe u \<or> follows l u d)"
  by (fastforce simp: decodable_def append_eq_append_conv2 append_eq_Cons_conv Cons_eq_append_conv)

lemma decodable_snoc_other:
  "\<forall>u d. e \<noteq> Wrote u d \<Longrightarrow> decodable (l @ [e]) \<longleftrightarrow> decodable l"
  by (fastforce simp: decodable_def append_eq_append_conv2 append_eq_Cons_conv Cons_eq_append_conv)

lemma decodable_snoc [simp]:
  "decodable (l @ [Opened]) = decodable l" "decodable (l @ [Closed]) = decodable l"
  "decodable (l @ [Lost u]) = decodable l"
  by (simp_all add: decodable_snoc_other)

lemma publish_state_fields [simp]:
  "log (publish_state r) = log r" "waiting_for_keyframe (publish_state r) = waiting_for_keyframe r"
  "observed_queue_drops (publish_state r) = observed_queue_drops r" "pipeline (publish_state r) = pipeline r"
  "control (publish_state r) = control r" "input (publish_state r) = input r"
  by (simp_all add: publish_state_def)

lemma rec_fail_fields [simp]:
  "log (rec_fail e r) = log r" "waiting_for_keyframe (rec_fail e r) = waiting_for_keyframe r"
  "observed_queue_drops (rec_fail e r) = observed_queue_drops r" "pipeline (rec_fail e r) = pipeline r"
  "input (rec_fail e r) = input r" "\<not> requested (control (rec_fail e r))"
  by (simp_all add: rec_fail_def set_error_def requested_def)

lemma requested_fields [simp]:
  "requested (commit_written a b k) = requested k" "requested (add_dropped k) = requested k"
  "requested (set_stopped k) = requested k" "requested (set_active p k) = requested k"
  by (simp_all add: requested_def commit_written_def add_dropped_def set_stopped_def set_active_def Let_def)

lemma close_pipeline_fields [simp]:
  "\<not> pipeline (close_pipeline f env r)"
  "waiting_for_keyframe (close_pipeline f env r) = waiting_for_keyframe r"
  "observed_queue_drops (close_pipeline f env r) = observed_queue_drops r"
  "requested (control (close_pipeline f env r)) = requested (control r)"
  "input (close_pipeline f env r) = input r"
  "decodable (log (close_pipeline f env r)) = decodable (log r)"
  "filter unit_entry (log (close_pipeline f env r)) = filter unit_entry (log r)"
  by (simp_all add: close_pipeline_def Let_def)

definition rec_inv :: "recorder \<Rightarrow> bool" where
  "rec_inv r \<longleftrightarrow> decodable (log r) \<and>
     (\<not> waiting_for_keyframe r \<longrightarrow>
        (if pipeline r then \<exists>zs v. log r = zs @ [Wrote v (observed_queue_drops r)]
         else \<not> requested (control r)))"

lemma open_pipeline_fields:
  assumes "open_pipeline env r = (err, r')"
  shows "waiting_for_keyframe r' = waiting_for_keyframe r" "observed_queue_drops r' = observed_queue_drops r"
    "decodable (log r') = decodable (log r)" "pipeline r' = (if err = None then True else pipeline r)"
    "filter unit_entry (log r') = filter unit_entry (log r)" "input r' = input r"
  using assms by (auto simp: open_pipeline_def Let_def split: prod.splits option.splits)

lemma write_access_unit_inv:
  assumes "write_access_unit env u r = (err, r')" and "pipeline r" and "decodable (log r)"
    and "au_keyframe u \<or> follows (log r) u (observed_queue_drops r)" and "\<not> waiting_for_keyframe r"
  shows "decodable (log r') \<and> input r' = input r \<and> taken (log r') = taken (log r) + 1 \<and>
    (err = None \<longrightarrow> rec_inv r')"
  using assms
  by (auto simp: write_access_unit_def rec_inv_def split: if_splits option.splits)

lemma failed_inv: "decodable (log r) \<Longrightarrow> rec_inv (close_pipeline f env (rec_fail e r))"
  by (simp add: rec_inv_def)

lemma record_unit_inv:
  assumes "rec_inv r" and "requested (control r)"
  shows "rec_inv (record_unit env u r) \<and> input (record_unit env u r) = input r \<and>
    taken (log (record_unit env u r)) = taken (log r) + 1"
proof -
  define r1 where "r1 = (if au_discontinuity u
    then close_pipeline True env (r\<lparr>waiting_for_keyframe := True\<rparr>) else r)"
  have r1: "decodable (log r1)" "input r1 = input r" "taken (log r1) = taken (log r)"
    "\<not> waiting_for_keyframe r1 \<longrightarrow> pipeline r1 \<and> follows (log r1) u (observed_queue_drops r1)"
    using assms by (auto simp: r1_def rec_inv_def follows_def split: if_splits)
  define r2 where "r2 = (if waiting_for_keyframe r1
    then r1\<lparr>waiting_for_keyframe := False, session_id := to_string (te_now env)\<rparr> else r1)"
  have r2: "decodable (log r2)" "input r2 = input r" "taken (log r2) = taken (log r)" "\<not> waiting_for_keyframe r2"
    using r1 by (simp_all add: r2_def)
  obtain err r3 where r3: "(if \<not> pipeline r2 then open_pipeline env r2 else (None, r2)) = (err, r3)" by fastforce
  show ?thesis
  proof (cases "waiting_for_keyframe r1 \<and> \<not> au_keyframe u")
    case True
    then have "record_unit env u r = on_control add_dropped (r1\<lparr>log := log r1 @ [Lost u]\<rparr>)"
      by (simp add: record_unit_def Let_def flip: r1_def)
    then show ?thesis using r1 True by (simp add: rec_inv_def)
  next
    case go: False
    have step: "record_unit env u r = (case err of
        Some e \<Rightarrow> rec_fail e (r3\<lparr>log := log r3 @ [Lost u]\<rparr>)
      | None \<Rightarrow> (case write_access_unit env u r3 of (None, r4) \<Rightarrow> r4
                 | (Some e, r4) \<Rightarrow> close_pipeline False env (rec_fail e r4)))"
      using go r3 unfolding record_unit_def Let_def r1_def [symmetric] r2_def [symmetric] by auto
    have f3: "decodable (log r3)" "input r3 = input r" "taken (log r3) = taken (log r)"
      "\<not> waiting_for_keyframe r3" "pipeline r3 = (err = None)"
      using r3 r2 open_pipeline_fields by (auto split: if_splits)
    have dec: "au_keyframe u \<or> follows (log r3) u (observed_queue_drops r3)"
      using go r1(4) r3 by (auto simp: r2_def split: if_splits)
    show ?thesis
    proof (cases err)
      case (Some e)
      then show ?thesis using step f3 by (simp add: rec_inv_def)
    next
      case None
      obtain werr r4 where w: "write_access_unit env u r3 = (werr, r4)" by fastforce
      have "pipeline r3" using f3(5) None by simp
      from write_access_unit_inv [OF w this f3(1) dec f3(4)] show ?thesis
        using step f3 None w by (cases werr) (simp_all add: failed_inv)
    qed
  qed
qed

lemma pop_for_popped:
  "pop_for q = (x, q') \<Longrightarrow>
    popped (bq_stats q') = popped (bq_stats q) + (if x = None then 0 else 1)"
  by (auto simp: pop_for_def take_front_def split: if_splits list.splits)

lemma idle_turn_inv:
  assumes "decodable (log r)"
  shows "rec_inv (idle_turn env r) \<and>
    popped (bq_stats (input (idle_turn env r))) - taken (log (idle_turn env r)) =
      popped (bq_stats (input r)) - taken (log r)"
proof -
  obtain x q where p: "pop_for (input r) = (x, q)" by fastforce
  from pop_for_popped [OF p] show ?thesis
    using assms p by (cases x) (simp_all add: idle_turn_def rec_inv_def Let_def)
qed

lemma run_turn_inv:
  assumes "rec_inv r" and "run_turn env r = (go, r')"
  shows "rec_inv r' \<and>
    popped (bq_stats (input r')) - taken (log r') = popped (bq_stats (input r)) - taken (log r)"
proof (cases "requested (control r)")
  case False
  then have "r' = idle_turn env r" using assms(2) by (simp add: run_turn_def)
  then show ?thesis using idle_turn_inv assms(1) by (simp add: rec_inv_def)
next
  case True
  obtain x q where p: "pop_for (input r) = (x, q)" by fastforce
  define r2 where "r2 = note_drops env (r\<lparr>input := push_all (te_pushes env) q\<rparr>)"
  have r2: "rec_inv r2" "requested (control r2)" "popped (bq_stats (input r2)) = popped (bq_stats q)" "taken (log r2) = taken (log r)"
    using assms(1) True by (auto simp: r2_def note_drops_def rec_inv_def Let_def split: if_splits)
  note pop = pop_for_popped [OF p]
  show ?thesis
  proof (cases "pipeline r2 \<and> te_poll env \<noteq> Bus_none")
    case fail: True
    let ?e = "case te_poll env of Bus_error d \<Rightarrow> d | _ \<Rightarrow> ''recording pipeline ended unexpectedly''"
    let ?r3 = "case x of None \<Rightarrow> r2 | Some u \<Rightarrow> r2\<lparr>log := log r2 @ [Lost u]\<rparr>"
    have "r' = close_pipeline False env (rec_fail ?e ?r3)"
      using assms(2) True p fail by (simp add: run_turn_def flip: r2_def)
    then show ?thesis
      using r2 pop failed_inv [of ?r3] by (cases x) (simp_all add: rec_inv_def)
  next
    case ok: False
    then have "r' = (case x of None \<Rightarrow> r2 | Some u \<Rightarrow> record_unit env u r2)"
      using assms(2) True p by (auto simp: run_turn_def split: option.splits simp flip: r2_def)
    then show ?thesis using r2 pop record_unit_inv [OF r2(1,2)] by (cases x) simp_all
  qed
qed

lemma rec_step_inv:
  assumes "rec_inv r" and "\<not> late_restart e r"
  shows "rec_inv (rec_step e r) \<and>
    popped (bq_stats (input (rec_step e r))) - taken (log (rec_step e r)) =
      popped (bq_stats (input r)) - taken (log r)"
proof (cases e)
  case (Turn env)
  then show ?thesis using run_turn_inv [OF assms(1), of env] by (metis prod.collapse rec_step.simps(1))
next
  case (Produce u)
  show ?thesis using Produce assms(1) by (simp add: rec_inv_def)
next
  case (Control f)
  then show ?thesis using assms by (auto simp: rec_inv_def split: if_splits)
next
  case (Located t n)
  then show ?thesis using assms(1) by (simp add: rec_inv_def on_format_location_def Let_def)
qed

lemma rec_run_inv:
  "rec_run r0 r \<Longrightarrow> rec_inv r0 \<Longrightarrow> rec_inv r \<and>
    popped (bq_stats (input r)) - taken (log r) = popped (bq_stats (input r0)) - taken (log r0)"
  by (induction rule: rec_run.induct) (use rec_step_inv in auto)


definition sample_dir :: dir_env where
  "sample_dir = \<lparr>create_error = None, dir_entries = [], space_available = Inr (- 1), remove_fails = (\<lambda>_. False)\<rparr>"

definition sample_turn :: turn_env where
  "sample_turn = \<lparr>te_pushes = [], te_poll = Bus_none, te_finalized = True, te_dir = sample_dir, te_open_error = None,
     te_queued = 0, te_write_error = None, te_now = 7\<rparr>"

definition sample_unit :: "bool \<Rightarrow> encoded_access_unit" where
  "sample_unit key = \<lparr>au_sequence = 0, au_pts_ns = 0, au_dts_ns = 0, au_has_pts = True, au_has_dts = True,
     au_keyframe = key, au_discontinuity = False, au_source_generation = 0, au_bytes = [0, 0, 1, 0x65]\<rparr>"

definition sample_recorder :: recorder where
  "sample_recorder = new_recorder
     \<lparr>bq_capacity = 8, bq_queue = [], bq_stats = zero_stats, bq_shutdown = False\<rparr>
     (configure default_recording new_controller) False"

lemmas recorder_simps = sample_recorder_def new_recorder_def configure_def new_controller_def
  default_recording_def initial_status_def run_turn_def requested_def pop_for_def take_front_def
  available_def note_drops_def record_unit_def open_pipeline_def prepare_directory_def
  enforce_quota_def oldest_first_def stable_sort_def write_access_unit_def push_def zero_stats_def
  sample_dir_def sample_unit_def


text \<open>The excluded interleaving is real: when the muxer fails and a client requests recording
  again before the worker's next turn, the next file starts with a unit that is no keyframe.\<close>

theorem recorder_restart_race:
  "let r = fold rec_step
       [Produce (sample_unit True), Turn sample_turn,
        Produce (sample_unit False), Turn (sample_turn\<lparr>te_poll := Bus_error ''disk''\<rparr>),
        Control Op_start, Produce (sample_unit False), Turn sample_turn] sample_recorder
   in log r = [Opened, Wrote (sample_unit True) 0, Lost (sample_unit False), Closed,
               Opened, Wrote (sample_unit False) 0] \<and> \<not> decodable (log r)"
proof -
  have "\<not> decodable [Opened, Wrote (sample_unit True) 0, Lost (sample_unit False), Closed,
      Opened, Wrote (sample_unit False) 0]"
    using decodable_snoc_Wrote [of "[Opened, Wrote (sample_unit True) 0, Lost (sample_unit False), Closed, Opened]"
        "sample_unit False" 0]
    by (simp add: sample_unit_def follows_def)
  then show ?thesis
    by (simp add: recorder_simps sample_turn_def close_pipeline_def rec_fail_def set_error_def
        publish_state_def rc_start_def)
qed

section \<open>The quota\<close>

interpretation file_age: strict_weak_order "\<lambda>l r. rf_time l < rf_time r" "\<lambda>_. True"
  by unfold_locales auto

definition bytes_of :: "rec_file list \<Rightarrow> nat" where
  "bytes_of fs = sum_list (map (unat \<circ> rf_size) fs)"

lemma bytes_of_simps [simp]:
  "bytes_of [] = 0" "bytes_of (f # fs) = unat (rf_size f) + bytes_of fs"
  by (simp_all add: bytes_of_def)

lemma bytes_of_insert: "bytes_of (insert_stable lt f fs) = unat (rf_size f) + bytes_of fs"
  by (induction fs) simp_all

lemma bytes_of_oldest_first [simp]: "bytes_of (oldest_first fs) = bytes_of fs"
  by (induction fs) (simp_all add: oldest_first_def stable_sort_def bytes_of_insert)

lemma total_size_bytes: "total_size fs = of_nat (bytes_of fs)"
proof -
  have "fold (\<lambda>f used. used + rf_size f) fs a = a + of_nat (bytes_of fs)" for a :: u64
    by (induction fs arbitrary: a) (simp_all add: add.assoc)
  then show ?thesis by (simp add: total_size_def)
qed

lemma remove_oldest_correct:
  assumes "bytes_of fs < 2 ^ 64" and "\<forall>n. \<not> fails n"
  shows "\<exists>gone kept. fs = gone @ kept \<and>
    remove_oldest fails quota fs (of_nat (bytes_of fs)) = map rf_name gone \<and>
    bytes_of kept \<le> unat quota \<and> (gone \<noteq> [] \<longrightarrow> unat quota < unat (rf_size (last gone)) + bytes_of kept)"
  using assms(1)
proof (induction fs)
  case (Cons f fs)
  have word: "unat (of_nat (bytes_of (f # fs)) :: u64) = bytes_of (f # fs)"
    using Cons.prems by (simp only: unat_of_nat) simp
  have rest: "of_nat (bytes_of (f # fs)) - rf_size f = (of_nat (bytes_of fs) :: u64)" by simp
  show ?case
  proof (cases "(of_nat (bytes_of (f # fs)) :: u64) \<le> quota")
    case True
    then have "bytes_of (f # fs) \<le> unat quota" using word by (simp only: word_le_nat_alt)
    then show ?thesis using True by (intro exI [of _ "[]"] exI [of _ "f # fs"]) simp
  next
    case False
    then have big: "unat quota < bytes_of (f # fs)" using word by (simp only: word_le_nat_alt not_le)
    have step: "remove_oldest fails quota (f # fs) (of_nat (bytes_of (f # fs))) =
        rf_name f # remove_oldest fails quota fs (of_nat (bytes_of fs))"
      using False assms(2) rest by (simp only: remove_oldest.simps if_False simp_thms)
    obtain gone kept where "fs = gone @ kept"
        "remove_oldest fails quota fs (of_nat (bytes_of fs)) = map rf_name gone" "bytes_of kept \<le> unat quota"
        "gone \<noteq> [] \<longrightarrow> unat quota < unat (rf_size (last gone)) + bytes_of kept"
      using Cons by fastforce
    then show ?thesis
      using step big by (intro exI [of _ "f # gone"] exI [of _ kept]) (cases "gone = []"; simp)
  qed
qed simp

text \<open>With a quota that fits the arithmetic and a disk that removes files,
  \<^verbatim>\<open>enforce_quota\<close> leaves recordings of at most the configured size, removes only
  the oldest ones, and removes no more than needed: putting the last removed one back exceeds the
  quota.\<close>

theorem quota_keeps_newest:
  assumes "scan_files (dir_entries dir) False = Some files" and "bytes_of files < 2 ^ 64"
    and "unat (max_storage_mb cfg) < 2 ^ 44" and "\<forall>n. \<not> remove_fails dir n"
  shows "\<exists>gone kept. oldest_first files = gone @ kept \<and> enforce_quota cfg dir = map rf_name gone \<and>
    (\<forall>g \<in> set gone. \<forall>k \<in> set kept. rf_time g \<le> rf_time k) \<and>
    bytes_of kept \<le> unat (max_storage_mb cfg) * 2 ^ 20 \<and>
    (gone \<noteq> [] \<longrightarrow> unat (max_storage_mb cfg) * 2 ^ 20 < unat (rf_size (last gone)) + bytes_of kept)"
proof -
  have quota: "unat (max_storage_mb cfg * mib) = unat (max_storage_mb cfg) * 2 ^ 20"
    using assms(3) by (simp add: unat_word_ariths)
  have "bytes_of (oldest_first files) < 2 ^ 64" using assms(2) by simp
  from remove_oldest_correct [OF this assms(4), of "max_storage_mb cfg * mib"]
  obtain gone kept where g: "oldest_first files = gone @ kept"
      "remove_oldest (remove_fails dir) (max_storage_mb cfg * mib) (oldest_first files) (of_nat (bytes_of files))
        = map rf_name gone"
      "bytes_of kept \<le> unat (max_storage_mb cfg * mib)"
      "gone \<noteq> [] \<longrightarrow> unat (max_storage_mb cfg * mib) < unat (rf_size (last gone)) + bytes_of kept"
    unfolding bytes_of_oldest_first by blast
  have "sorted_wrt (\<lambda>a b. rf_time a \<le> rf_time b) (oldest_first files)"
    using file_age.sorted_stable_sort [of files] by (simp add: oldest_first_def not_less list_all_iff)
  then have "\<forall>g \<in> set gone. \<forall>k \<in> set kept. rf_time g \<le> rf_time k"
    unfolding g(1) sorted_wrt_append by blast
  then show ?thesis
    using g assms(1) quota by (auto simp: enforce_quota_def total_size_bytes)
qed

definition sample_entry :: "string \<Rightarrow> int \<Rightarrow> dir_entry" where
  "sample_entry name t = \<lparr>de_name = name, de_regular = Some True, de_size = Some 1048576, de_time = Some t\<rparr>"

theorem quota_keeps_newest_witness:
  "\<exists>gone kept. oldest_first [\<lparr>rf_name = ''recording_b.mp4'', rf_size = 1048576, rf_time = 5\<rparr>,
       \<lparr>rf_name = ''recording_a.mp4'', rf_size = 1048576, rf_time = 3\<rparr>] = gone @ kept \<and>
     enforce_quota (default_recording\<lparr>max_storage_mb := 1\<rparr>)
       (sample_dir\<lparr>dir_entries := [sample_entry ''recording_b.mp4'' 5, sample_entry ''recording_a.mp4'' 3]\<rparr>)
       = map rf_name gone"
proof -
  let ?dir = "sample_dir\<lparr>dir_entries := [sample_entry ''recording_b.mp4'' 5, sample_entry ''recording_a.mp4'' 3]\<rparr>"
  let ?files = "[\<lparr>rf_name = ''recording_b.mp4'', rf_size = 1048576, rf_time = 5\<rparr>,
       \<lparr>rf_name = ''recording_a.mp4'', rf_size = 1048576, rf_time = 3\<rparr>]"
  have s: "scan_files (dir_entries ?dir) False = Some ?files"
    by (simp add: sample_entry_def extension_def rfind_char_def)
  have b: "bytes_of ?files < 2 ^ 64" by simp
  have m: "unat (max_storage_mb (default_recording\<lparr>max_storage_mb := 1\<rparr>)) < 2 ^ 44" by simp
  have r: "\<forall>n. \<not> remove_fails ?dir n" by (simp add: sample_dir_def)
  show ?thesis by (rule exE [OF quota_keeps_newest [OF s b m r]]) (elim exE conjE, intro exI conjI)
qed

text \<open>The quota is computed in 64 bits without a check: the accepted value of
  \<^verbatim>\<open>2^44\<close> megabytes becomes a quota of zero bytes, so every recording with content is
  removed.\<close>

theorem quota_wraps_to_zero:
  "enforce_quota (default_recording\<lparr>max_storage_mb := 17592186044416\<rparr>)
     (sample_dir\<lparr>dir_entries := [sample_entry ''recording_a.mp4'' 3]\<rparr>) = [''recording_a.mp4'']"
  by (simp add: enforce_quota_def sample_entry_def sample_dir_def extension_def rfind_char_def
      oldest_first_def stable_sort_def total_size_def)

end
