(* ===== verification/Preprocess.thy ===== *)
theory Preprocess
  imports Cpp_Float
begin

text \<open>
  \<^verbatim>\<open>include/skai/inference/preprocess.hpp\<close> and
  \<^verbatim>\<open>src/inference/preprocess.cpp\<close>: the letterbox plan and the CPU resampling.
  \<^verbatim>\<open>float\<close> and \<^verbatim>\<open>double\<close> arithmetic rounds at every operation.
  A read of the frame or a write of the tensor outside its buffer is \<open>None\<close>, so that its absence is a
  theorem.  The conversion of a floating-point value to \<^verbatim>\<open>int\<close> is modelled without its
  range limit.
\<close>

record bgr_image_view =
  img_data :: "u8 list option"
  img_bytes :: nat
  img_width :: int
  img_height :: int
  img_stride :: int

record preprocess_plan =
  source_width :: int
  source_height :: int
  plan_width :: int
  plan_height :: int
  resized_width :: int
  resized_height :: int
  pad_left :: int
  pad_top :: int
  plan_scale :: fp

definition validate_image :: "bgr_image_view \<Rightarrow> unit result" where
  "validate_image img =
     (if img_data img = None \<or> img_width img \<le> 0 \<or> img_height img \<le> 0 \<or>
         img_width img > int_max div 3
      then Inl ''BGR image must have non-null data and positive dimensions''
      else let row_bytes = nat (img_width img) * 3 in
        if img_stride img < 0 \<or> nat (img_stride img) < row_bytes
        then Inl ''BGR image stride is shorter than a packed row''
        else let rows_before_last = nat (img_height img - 1); stride = nat (img_stride img) in
          if rows_before_last > (size_max - row_bytes) div stride \<or>
             img_bytes img < rows_before_last * stride + row_bytes
          then Inl ''BGR image buffer is shorter than its dimensions and stride''
          else Inr ())"

definition pixel :: "bgr_image_view \<Rightarrow> int \<Rightarrow> int \<Rightarrow> nat \<Rightarrow> fp option" where
  "pixel img x y channel =
     (let bytes = the (img_data img); i = nat y * nat (img_stride img) + nat x * 3 + channel in
      if i < length bytes then Some (round32 (of_nat (unat (bytes ! i)))) else None)"

fun fp_floor :: "fp \<Rightarrow> int" where
  "fp_floor (Fin x) = \<lfloor>x\<rfloor>"
| "fp_floor _ = 0"

definition clamp_int :: "int \<Rightarrow> int \<Rightarrow> int \<Rightarrow> int" where
  "clamp_int v lo hi = (if v < lo then lo else if hi < v then hi else v)"

definition sample_channel :: "bgr_image_view \<Rightarrow> fp \<Rightarrow> fp \<Rightarrow> nat \<Rightarrow> fp option" where
  "sample_channel img x y channel =
     (let x_floor = fp_floor x; y_floor = fp_floor y;
          wx = fp_sub round32 x (round32 (of_int x_floor));
          wy = fp_sub round32 y (round32 (of_int y_floor));
          x0 = clamp_int x_floor 0 (img_width img - 1);
          x1 = clamp_int (x_floor + 1) 0 (img_width img - 1);
          y0 = clamp_int y_floor 0 (img_height img - 1);
          y1 = clamp_int (y_floor + 1) 0 (img_height img - 1);
          mix = (\<lambda>a b w. fp_add round32 (fp_mul round32 a (fp_sub round32 (Fin 1) w)) (fp_mul round32 b w))
      in case (pixel img x0 y0 channel, pixel img x1 y0 channel,
               pixel img x0 y1 channel, pixel img x1 y1 channel) of
           (Some a, Some b, Some c, Some d) \<Rightarrow> Some (mix (mix a b wx) (mix c d wx) wy)
         | _ \<Rightarrow> None)"

fun fp_round_int :: "fp \<Rightarrow> int" where
  "fp_round_int (Fin x) = round_half_away x"
| "fp_round_int _ = 0"

fun fp_narrow :: "fp \<Rightarrow> fp" where
  "fp_narrow (Fin x) = round32 x"
| "fp_narrow v = v"

definition make_preprocess_plan :: "bgr_image_view \<Rightarrow> int \<Rightarrow> int \<Rightarrow> preprocess_plan result" where
  "make_preprocess_plan img target_width target_height =
     (case validate_image img of
        Inl e \<Rightarrow> Inl e
      | Inr _ \<Rightarrow>
          if target_width \<le> 0 \<or> target_height \<le> 0
          then Inl ''preprocessing target dimensions must be positive''
          else
            let w = Fin (of_int (img_width img)); h = Fin (of_int (img_height img));
                ratio = fp_min (fp_div round64 (Fin (of_int target_width)) w)
                               (fp_div round64 (Fin (of_int target_height)) h);
                rw = clamp_int (fp_round_int (fp_mul round64 w ratio)) 1 target_width;
                rh = clamp_int (fp_round_int (fp_mul round64 h ratio)) 1 target_height
            in Inr \<lparr>source_width = img_width img, source_height = img_height img,
                    plan_width = target_width, plan_height = target_height,
                    resized_width = rw, resized_height = rh,
                    pad_left = (target_width - rw) div 2, pad_top = (target_height - rh) div 2,
                    plan_scale = fp_narrow ratio\<rparr>)"

definition plan_matches :: "bgr_image_view \<Rightarrow> preprocess_plan \<Rightarrow> bool" where
  "plan_matches img plan \<longleftrightarrow>
     \<not> (img_width img \<noteq> source_width plan \<or> img_height img \<noteq> source_height plan \<or>
        plan_width plan \<le> 0 \<or> plan_height plan \<le> 0 \<or> fp_le (plan_scale plan) (Fin 0) \<or>
        resized_width plan \<le> 0 \<or> resized_height plan \<le> 0 \<or>
        pad_left plan < 0 \<or> pad_top plan < 0 \<or>
        pad_left plan + resized_width plan > plan_width plan \<or>
        pad_top plan + resized_height plan > plan_height plan)"

definition source_coordinate :: "int \<Rightarrow> int \<Rightarrow> int \<Rightarrow> fp" where
  "source_coordinate n source resized =
     fp_sub round32
       (fp_div round32 (fp_mul round32 (fp_add round32 (round32 (of_int n)) (Fin (1/2))) (round32 (of_int source)))
         (round32 (of_int resized)))
       (Fin (1/2))"

definition write_at :: "nat \<Rightarrow> fp \<Rightarrow> fp list \<Rightarrow> fp list option" where
  "write_at i v out = (if i < length out then Some (out[i := v]) else None)"

text \<open>The three assignments of the inner loop body.\<close>

definition write_pixel ::
    "bgr_image_view \<Rightarrow> preprocess_plan \<Rightarrow> int \<Rightarrow> int \<Rightarrow> fp list \<Rightarrow> fp list option" where
  "write_pixel img plan y x out =
     (let width = nat (plan_width plan); plane = width * nat (plan_height plan);
          source_y = source_coordinate (y - pad_top plan) (source_height plan) (resized_height plan);
          source_x = source_coordinate (x - pad_left plan) (source_width plan) (resized_width plan);
          offset = nat y * width + nat x;
          put = (\<lambda>channel i buf. Option.bind (sample_channel img source_x source_y channel)
                  (\<lambda>v. write_at i (fp_div round32 v (Fin 255)) buf))
      in Option.bind (put 2 offset out) (\<lambda>o1.
         Option.bind (put 1 (plane + offset) o1) (\<lambda>o2. put 0 (plane * 2 + offset) o2)))"

fun for_each :: "('a \<Rightarrow> 's \<Rightarrow> 's option) \<Rightarrow> 'a list \<Rightarrow> 's \<Rightarrow> 's option" where
  "for_each f [] s = Some s"
| "for_each f (x # xs) s = Option.bind (f x s) (for_each f xs)"

text \<open>The error message, or the tensor (\<open>None\<close> is an access out of bounds).\<close>

definition preprocess_cpu :: "bgr_image_view \<Rightarrow> preprocess_plan \<Rightarrow> fp list option result" where
  "preprocess_cpu img plan =
     (case validate_image img of
        Inl e \<Rightarrow> Inl e
      | Inr _ \<Rightarrow>
          if \<not> plan_matches img plan then Inl ''preprocessing plan does not match the BGR image''
          else let width = nat (plan_width plan); height = nat (plan_height plan) in
            if height > size_max div width div 3 then Inl ''preprocessing tensor size overflow''
            else Inr (for_each
              (\<lambda>y. for_each (write_pixel img plan y) [pad_left plan..pad_left plan + resized_width plan - 1])
              [pad_top plan..pad_top plan + resized_height plan - 1]
              (replicate (width * height * 3) (fp_div round32 (Fin 114) (Fin 255)))))"

section \<open>Bounds\<close>

lemma clamp_int_range: "lo \<le> hi \<Longrightarrow> lo \<le> clamp_int v lo hi \<and> clamp_int v lo hi \<le> hi"
  by (simp add: clamp_int_def)

lemma for_each_inv:
  assumes "\<And>x s. x \<in> set xs \<Longrightarrow> P s \<Longrightarrow> \<exists>s'. f x s = Some s' \<and> P s'" and "P s"
  shows "\<exists>s'. for_each f xs s = Some s' \<and> P s'"
  using assms
proof (induction xs arbitrary: s)
  case (Cons x xs)
  obtain s' where "f x s = Some s'" "P s'" using Cons.prems(1) [of x s] Cons.prems(2) by auto
  with Cons show ?case by simp
qed simp

lemma pixel_in_bounds:
  assumes "validate_image img = Inr u" and "img_data img = Some bytes" and "length bytes = img_bytes img"
    and "0 \<le> x" "x < img_width img" "0 \<le> y" "y < img_height img" and "c < 3"
  shows "\<exists>v. pixel img x y c = Some v"
proof -
  let ?stride = "nat (img_stride img)" and ?row = "nat (img_width img) * 3"
  have fits: "nat (img_height img - 1) * ?stride + ?row \<le> img_bytes img"
    using assms(1) by (auto simp: validate_image_def Let_def split: if_splits)
  have "nat y \<le> nat (img_height img - 1)" "Suc (nat x) \<le> nat (img_width img)" using assms(4-7) by auto
  then have "nat y * ?stride \<le> nat (img_height img - 1) * ?stride" "Suc (nat x) * 3 \<le> ?row"
    by (simp_all only: mult_le_mono1)
  moreover have "a \<le> b \<Longrightarrow> Suc n * 3 \<le> r \<Longrightarrow> b + r \<le> m \<Longrightarrow> a + n * 3 + c < m" for a b n r m :: nat
    using assms(8) by simp
  ultimately have "nat y * ?stride + nat x * 3 + c < length bytes" using fits unfolding assms(3) by blast
  then show ?thesis using assms(2) by (simp add: pixel_def Let_def)
qed

lemma sample_channel_in_bounds:
  assumes "validate_image img = Inr u" and "img_data img = Some bytes" and "length bytes = img_bytes img"
    and "c < 3"
  shows "\<exists>v. sample_channel img x y c = Some v"
proof -
  have dims: "0 < img_width img" "0 < img_height img"
    using assms(1) by (auto simp: validate_image_def split: if_splits)
  then have x: "0 \<le> clamp_int k 0 (img_width img - 1) \<and> clamp_int k 0 (img_width img - 1) < img_width img"
    and y: "0 \<le> clamp_int k 0 (img_height img - 1) \<and> clamp_int k 0 (img_height img - 1) < img_height img"
    for k by (auto simp: clamp_int_def)
  have "\<exists>v. pixel img (clamp_int i 0 (img_width img - 1)) (clamp_int j 0 (img_height img - 1)) c = Some v"
    for i j using pixel_in_bounds [OF assms(1-3) _ _ _ _ assms(4)] x [of i] y [of j] by blast
  then obtain p where p: "pixel img (clamp_int i 0 (img_width img - 1)) (clamp_int j 0 (img_height img - 1)) c =
      Some (p i j)" for i j by metis
  show ?thesis unfolding sample_channel_def Let_def p by simp
qed

lemma tensor_offset:
  assumes "0 \<le> x" "x < w" "0 \<le> y" "y < h"
  shows "nat y * nat w + nat x < nat w * nat h"
proof -
  have "nat y * nat w + nat x < Suc (nat y) * nat w" using assms by simp
  also have "\<dots> \<le> nat h * nat w" using assms by (intro mult_le_mono1) simp
  finally show ?thesis by (simp only: mult.commute)
qed

lemma write_pixel_in_bounds:
  assumes "validate_image img = Inr u" and "img_data img = Some bytes" and "length bytes = img_bytes img"
    and "0 \<le> x" "x < plan_width plan" "0 \<le> y" "y < plan_height plan"
    and "length out = nat (plan_width plan) * nat (plan_height plan) * 3"
  shows "\<exists>out'. write_pixel img plan y x out = Some out' \<and> length out' = length out"
proof -
  have off: "nat y * nat (plan_width plan) + nat x < nat (plan_width plan) * nat (plan_height plan)"
    using tensor_offset assms(4-7) by blast
  have s: "\<exists>v. sample_channel img sx sy c = Some v" if "c < 3" for c sx sy
    using sample_channel_in_bounds [OF assms(1-3) that] .
  obtain v2 v1 v0 where
    "sample_channel img (source_coordinate (x - pad_left plan) (source_width plan) (resized_width plan))
       (source_coordinate (y - pad_top plan) (source_height plan) (resized_height plan)) 2 = Some v2"
    "sample_channel img (source_coordinate (x - pad_left plan) (source_width plan) (resized_width plan))
       (source_coordinate (y - pad_top plan) (source_height plan) (resized_height plan)) 1 = Some v1"
    "sample_channel img (source_coordinate (x - pad_left plan) (source_width plan) (resized_width plan))
       (source_coordinate (y - pad_top plan) (source_height plan) (resized_height plan)) 0 = Some v0"
    using s [of 2] s [of 1] s [of 0] by fastforce
  then show ?thesis
    using off assms(8) by (simp add: write_pixel_def write_at_def Let_def mult.commute [of "nat (plan_height plan)"])
qed

text \<open>For every frame whose buffer has the size it claims and every plan, the resampling reads
  only inside the frame and writes only inside the tensor: when the checks pass, it returns a tensor
  of three planes of the target size.\<close>

theorem preprocess_memory_safe:
  assumes "img_data img = Some bytes" and "length bytes = img_bytes img"
    and "preprocess_cpu img plan = Inr result"
  shows "\<exists>tensor. result = Some tensor \<and> length tensor = nat (plan_width plan) * nat (plan_height plan) * 3"
proof -
  let ?n = "nat (plan_width plan) * nat (plan_height plan) * 3"
  let ?row = "\<lambda>y. for_each (write_pixel img plan y) [pad_left plan..pad_left plan + resized_width plan - 1]"
  have ok: "validate_image img = Inr ()" "plan_matches img plan"
    and res: "result = for_each ?row [pad_top plan..pad_top plan + resized_height plan - 1]
      (replicate ?n (fp_div round32 (Fin 114) (Fin 255)))"
    using assms(3) by (auto simp: preprocess_cpu_def Let_def split: sum.splits if_splits)
  have pixel: "\<exists>out'. write_pixel img plan y x out = Some out' \<and> length out' = ?n"
    if "x \<in> set [pad_left plan..pad_left plan + resized_width plan - 1]"
      "y \<in> set [pad_top plan..pad_top plan + resized_height plan - 1]" "length out = ?n" for x y out
    using write_pixel_in_bounds [OF ok(1) assms(1,2), of x plan y out] that ok(2)
    by (simp add: plan_matches_def)
  have "\<exists>out'. ?row y out = Some out' \<and> length out' = ?n"
    if "y \<in> set [pad_top plan..pad_top plan + resized_height plan - 1]" "length out = ?n" for y out
    using for_each_inv [of _ "\<lambda>out. length out = ?n" "write_pixel img plan y" out] pixel that by blast
  then show ?thesis
    using for_each_inv [of "[pad_top plan..pad_top plan + resized_height plan - 1]" "\<lambda>out. length out = ?n" ?row
        "replicate ?n (fp_div round32 (Fin 114) (Fin 255))"] res
    by (simp only: length_replicate)
qed

definition sample_image :: bgr_image_view where
  "sample_image = \<lparr>img_data = Some [1, 2, 3], img_bytes = 3, img_width = 1, img_height = 1, img_stride = 3\<rparr>"

definition sample_plan :: preprocess_plan where
  "sample_plan = \<lparr>source_width = 1, source_height = 1, plan_width = 2, plan_height = 1, resized_width = 1,
     resized_height = 1, pad_left = 0, pad_top = 0, plan_scale = Fin 1\<rparr>"

theorem preprocess_memory_safe_witness:
  "\<exists>result tensor. preprocess_cpu sample_image sample_plan = Inr result \<and> result = Some tensor \<and> length tensor = 6"
proof -
  obtain result where r: "preprocess_cpu sample_image sample_plan = Inr result"
    by (simp add: preprocess_cpu_def validate_image_def plan_matches_def sample_image_def sample_plan_def)
  have "img_data sample_image = Some [1, 2, 3]" "length [1, 2, 3 :: u8] = img_bytes sample_image"
    by (simp_all add: sample_image_def)
  from preprocess_memory_safe [OF this r] r show ?thesis by (simp add: sample_plan_def)
qed

section \<open>The plan\<close>

text \<open>The check of \<^verbatim>\<open>yolo_postprocess.cpp\<close>; the sums are 64-bit.\<close>

definition valid_plan :: "preprocess_plan \<Rightarrow> bool" where
  "valid_plan plan \<longleftrightarrow>
     source_width plan > 0 \<and> source_height plan > 0 \<and> plan_width plan > 0 \<and> plan_height plan > 0 \<and>
     resized_width plan > 0 \<and> resized_height plan > 0 \<and> pad_left plan \<ge> 0 \<and> pad_top plan \<ge> 0 \<and>
     pad_left plan + resized_width plan \<le> plan_width plan \<and>
     pad_top plan + resized_height plan \<le> plan_height plan"

lemma round_power:
  assumes "- 149 \<le> k" and "k \<le> 40"
  shows "round64 (2 powr of_int k) = Fin (2 powr of_int k)" "round32 (2 powr of_int k) = Fin (2 powr of_int k)"
proof -
  have "real_of_int k \<le> real 40" using assms(2) by linarith
  then have "(2::real) powr of_int k \<le> 2 powr of_nat 40" by (intro powr_mono) simp_all
  then have small: "(2::real) powr of_int k \<le> 2 ^ 40" by (simp only: powr_realpow zero_less_numeral)
  have pos: "0 \<le> (2::real) powr of_int k" by simp
  have neg: "- g \<le> (2::real) powr of_int k" if "0 \<le> g" for g
    using that pos by linarith
  have g: "(2::real) ^ 40 \<le> (2 ^ 53 - 1) * 2 ^ 971" "(2::real) ^ 40 \<le> (2 ^ 24 - 1) * 2 ^ 104" by simp_all
  have "round_bin 53 (- 1074) (2 powr of_int k) = 2 powr of_int k"
    using round_bin_exact [of 1 53 "- 1074" k] assms(1) by simp
  then show "round64 (2 powr of_int k) = Fin (2 powr of_int k)"
    unfolding round64_def with_overflow_Fin using order_trans [OF small g(1)] neg [of "(2 ^ 53 - 1) * 2 ^ 971"]
    by (simp only: simp_thms) simp
  have "round_bin 24 (- 149) (2 powr of_int k) = 2 powr of_int k"
    using round_bin_exact [of 1 24 "- 149" k] assms(1) by simp
  then show "round32 (2 powr of_int k) = Fin (2 powr of_int k)"
    unfolding round32_def with_overflow_Fin using order_trans [OF small g(2)] neg [of "(2 ^ 24 - 1) * 2 ^ 104"]
    by (simp only: simp_thms) simp
qed

lemma ratio_rounds:
  assumes "2 powr (- 31) \<le> x" and "x \<le> 2 powr 31"
  shows "\<exists>r s. round64 x = Fin r \<and> 2 powr (- 31) \<le> r \<and> r \<le> 2 powr 31 \<and> round32 r = Fin s \<and> 0 < s"
proof -
  obtain r where r: "round64 x = Fin r" "2 powr (- 31) \<le> r" "r \<le> 2 powr 31"
    using f64.rnd_between [of "2 powr (- 31)" "2 powr 31" x] round_power [of "- 31"] round_power [of 31] assms
    by auto
  obtain s where "round32 r = Fin s" "2 powr (- 31) \<le> s"
    using f32.rnd_between [of "2 powr (- 31)" "2 powr 31" r] round_power [of "- 31"] round_power [of 31] r(2,3)
    by auto
  moreover have "(0::real) < 2 powr (- 31)" by simp
  ultimately show ?thesis using r by (metis less_le_trans)
qed

lemma quotient_range:
  assumes "0 < a" "a \<le> int_max" "0 < b" "b \<le> int_max"
  shows "2 powr (- 31) \<le> (of_int a :: real) / of_int b \<and> (of_int a :: real) / of_int b \<le> 2 powr 31"
proof -
  have "(2::real) powr real 31 = 2 ^ 31" by (rule powr_realpow) simp
  then have p31: "(2::real) powr 31 = 2147483648" by simp
  have p: "(2::real) powr (- 31) = 1 / 2147483648" "(2::real) powr 31 = 2147483648"
    by (simp_all only: powr_minus_divide p31)
  have a: "1 \<le> (of_int a :: real)" "(of_int a :: real) \<le> 2147483648" using assms(1,2) by simp_all
  have b: "1 \<le> (of_int b :: real)" "(of_int b :: real) \<le> 2147483648" using assms(3,4) by simp_all
  have "1 / 2147483648 \<le> 1 / (of_int b :: real)" using b by (intro divide_left_mono) simp_all
  also have "\<dots> \<le> of_int a / of_int b" using a b by (intro divide_right_mono) simp_all
  finally have low: "1 / 2147483648 \<le> (of_int a :: real) / of_int b" .
  have "(of_int a :: real) / of_int b \<le> of_int a / 1" using a b by (intro divide_left_mono) simp_all
  then show ?thesis unfolding p using low a by simp
qed

text \<open>Whenever a plan is made, it is consistent for both users: the resized picture is not
  empty and lies with its padding inside the target, the resampling accepts the plan for the same
  frame, and so does the postprocessing of the detections; in particular the single-precision scale
  never rounds to zero.\<close>

theorem plan_accepted_by_users:
  assumes "make_preprocess_plan img tw th = Inr plan" and "img_height img \<le> int_max"
    and "tw \<le> int_max" and "th \<le> int_max"
  shows "plan_matches img plan \<and> valid_plan plan \<and> plan_width plan = tw \<and> plan_height plan = th"
proof -
  have ok: "0 < img_width img" "img_width img \<le> int_max" "0 < img_height img" "0 < tw" "0 < th"
    using assms(1) by (auto simp: make_preprocess_plan_def validate_image_def Let_def split: sum.splits if_splits)
  define q1 q2 where "q1 = of_int tw / (of_int (img_width img) :: real)"
    and "q2 = of_int th / (of_int (img_height img) :: real)"
  obtain r1 s1 where r1: "round64 q1 = Fin r1" "round32 r1 = Fin s1" "0 < s1"
    using ratio_rounds quotient_range [of tw "img_width img"] ok assms unfolding q1_def by blast
  obtain r2 s2 where r2: "round64 q2 = Fin r2" "round32 r2 = Fin s2" "0 < s2"
    using ratio_rounds quotient_range [of th "img_height img"] ok assms unfolding q2_def by blast
  let ?ratio = "fp_min (fp_div round64 (Fin (of_int tw)) (Fin (of_int (img_width img))))
    (fp_div round64 (Fin (of_int th)) (Fin (of_int (img_height img))))"
  have scale: "\<not> fp_le (fp_narrow ?ratio) (Fin 0)"
    using r1 r2 ok by (auto simp: fp_min_def fp_div_def q1_def q2_def)
  obtain rw rh where plan: "plan = \<lparr>source_width = img_width img, source_height = img_height img,
      plan_width = tw, plan_height = th, resized_width = clamp_int rw 1 tw, resized_height = clamp_int rh 1 th,
      pad_left = (tw - clamp_int rw 1 tw) div 2, pad_top = (th - clamp_int rh 1 th) div 2,
      plan_scale = fp_narrow ?ratio\<rparr>"
    using assms(1) by (auto simp: make_preprocess_plan_def Let_def split: sum.splits if_splits)
  have "1 \<le> clamp_int rw 1 tw \<and> clamp_int rw 1 tw \<le> tw" "1 \<le> clamp_int rh 1 th \<and> clamp_int rh 1 th \<le> th"
    using clamp_int_range ok(4,5) by (metis int_one_le_iff_zero_less)+
  then show ?thesis using plan scale ok by (auto simp: plan_matches_def valid_plan_def)
qed

theorem plan_accepted_by_users_witness:
  "\<exists>plan. make_preprocess_plan sample_image 2 1 = Inr plan \<and> valid_plan plan"
proof -
  obtain plan where p: "make_preprocess_plan sample_image 2 1 = Inr plan"
    by (simp add: make_preprocess_plan_def validate_image_def sample_image_def Let_def)
  have "img_height sample_image \<le> int_max" by (simp add: sample_image_def)
  from plan_accepted_by_users [OF p this] p show ?thesis by simp
qed

end
