(* ===== verification/Yolo_Postprocess.thy ===== *)
theory Yolo_Postprocess
  imports Preprocess
begin

text \<open>
  \<^verbatim>\<open>include/skai/inference/yolo_postprocess.hpp\<close> and
  \<^verbatim>\<open>src/inference/yolo_postprocess.cpp\<close>: from the raw output tensor of the detector
  to boxes in the source frame, with the class choice, the confidence threshold, greedy non-maximum
  suppression per class, and the inverse of the letterbox.  The tensor is an arbitrary list of
  single-precision values, NaN and infinities included.
\<close>

record candidate =
  cand_class :: int
  cand_confidence :: fp
  cand_x1 :: fp
  cand_y1 :: fp
  cand_x2 :: fp
  cand_y2 :: fp
  cand_index :: nat

record detection =
  det_class :: int
  det_confidence :: fp
  det_x1 :: fp
  det_y1 :: fp
  det_x2 :: fp
  det_y2 :: fp

record detection_result =
  frame_sequence :: u64
  detections :: "detection list"

record yolo_postprocess_config =
  confidence_threshold :: fp
  nms_iou_threshold :: fp
  max_detections :: nat

record yolo_output_view =
  out_data :: "fp list option"
  out_elements :: nat
  out_channels :: int
  out_candidates :: int

definition intersection_over_union :: "candidate \<Rightarrow> candidate \<Rightarrow> fp" where
  "intersection_over_union a b =
     (let left = fp_max (cand_x1 a) (cand_x1 b);
          top = fp_max (cand_y1 a) (cand_y1 b);
          right = fp_min (cand_x2 a) (cand_x2 b);
          bottom = fp_min (cand_y2 a) (cand_y2 b);
          intersection = fp_mul round64 (fp_max (Fin 0) (fp_sub round64 right left))
                                        (fp_max (Fin 0) (fp_sub round64 bottom top));
          area_a = fp_mul round64 (fp_sub round64 (cand_x2 a) (cand_x1 a)) (fp_sub round64 (cand_y2 a) (cand_y1 a));
          area_b = fp_mul round64 (fp_sub round64 (cand_x2 b) (cand_x1 b)) (fp_sub round64 (cand_y2 b) (cand_y1 b));
          total_area = fp_sub round64 (fp_add round64 area_a area_b) intersection
      in if fp_less (Fin 0) total_area then fp_div round64 intersection total_area else Fin 0)"

text \<open>The inner loop over the class channels.\<close>

fun best_class :: "fp list \<Rightarrow> nat \<Rightarrow> nat \<Rightarrow> nat list \<Rightarrow> fp \<times> int \<Rightarrow> fp \<times> int" where
  "best_class data count index [] best = best"
| "best_class data count index (channel # channels) (score, class_id) =
     (let value = data ! (channel * count + index) in
      best_class data count index channels
        (if isfinite value \<and> fp_less score value then (value, int channel - 4) else (score, class_id)))"

definition half :: "fp \<Rightarrow> fp" where
  "half v = fp_div round64 v (Fin 2)"

text \<open>The body of the loop over the candidates; \<open>None\<close> is \<^verbatim>\<open>continue\<close>.\<close>

definition read_candidate ::
    "fp list \<Rightarrow> nat \<Rightarrow> nat \<Rightarrow> preprocess_plan \<Rightarrow> yolo_postprocess_config \<Rightarrow> nat \<Rightarrow> candidate option" where
  "read_candidate data channels count plan cfg index =
     (let content_right = fp_add round64 (Fin (of_int (pad_left plan))) (Fin (of_int (resized_width plan)));
          content_bottom = fp_add round64 (Fin (of_int (pad_top plan))) (Fin (of_int (resized_height plan)));
          (score, class_id) = best_class data count index [4..<channels] (NegInf, -1)
      in if class_id < 0 \<or> fp_le score (confidence_threshold cfg) then None
         else
           let cx = data ! index; cy = data ! (count + index);
               width = data ! (2 * count + index); height = data ! (3 * count + index)
           in if \<not> isfinite cx \<or> \<not> isfinite cy \<or> \<not> isfinite width \<or> \<not> isfinite height \<or>
                 fp_le width (Fin 0) \<or> fp_le height (Fin 0) then None
              else
                let x1 = fp_sub round64 cx (half width); x2 = fp_add round64 cx (half width);
                    y1 = fp_sub round64 cy (half height); y2 = fp_add round64 cy (half height)
                in if \<not> isfinite x1 \<or> \<not> isfinite x2 \<or> \<not> isfinite y1 \<or> \<not> isfinite y2 then None
                   else if fp_le x2 (Fin (of_int (pad_left plan))) \<or> fp_le content_right x1 \<or>
                           fp_le y2 (Fin (of_int (pad_top plan))) \<or> fp_le content_bottom y1 then None
                   else Some \<lparr>cand_class = class_id, cand_confidence = score, cand_x1 = x1, cand_y1 = y1,
                              cand_x2 = x2, cand_y2 = y2, cand_index = index\<rparr>)"

definition better :: "candidate \<Rightarrow> candidate \<Rightarrow> bool" where
  "better a b =
     (if fp_less (cand_confidence a) (cand_confidence b) \<or> fp_less (cand_confidence b) (cand_confidence a)
      then fp_less (cand_confidence b) (cand_confidence a)
      else cand_index a < cand_index b)"

definition to_source :: "fp \<Rightarrow> int \<Rightarrow> fp \<Rightarrow> int \<Rightarrow> fp" where
  "to_source v pad scale limit =
     fp_narrow (fp_clamp (fp_mul round64 (fp_sub round64 v (Fin (of_int pad))) scale) (Fin 0) (Fin (of_int limit)))"

definition map_box :: "preprocess_plan \<Rightarrow> candidate \<Rightarrow> detection" where
  "map_box plan c =
     (let x_scale = fp_div round64 (Fin (of_int (source_width plan))) (Fin (of_int (resized_width plan)));
          y_scale = fp_div round64 (Fin (of_int (source_height plan))) (Fin (of_int (resized_height plan)))
      in \<lparr>det_class = cand_class c, det_confidence = cand_confidence c,
          det_x1 = to_source (cand_x1 c) (pad_left plan) x_scale (source_width plan),
          det_y1 = to_source (cand_y1 c) (pad_top plan) y_scale (source_height plan),
          det_x2 = to_source (cand_x2 c) (pad_left plan) x_scale (source_width plan),
          det_y2 = to_source (cand_y2 c) (pad_top plan) y_scale (source_height plan)\<rparr>)"

definition suppresses :: "yolo_postprocess_config \<Rightarrow> candidate \<Rightarrow> candidate \<Rightarrow> bool" where
  "suppresses cfg kept c \<longleftrightarrow> cand_class c = cand_class kept \<and>
     fp_less (nms_iou_threshold cfg) (intersection_over_union c kept)"

definition empty_box :: "detection \<Rightarrow> bool" where
  "empty_box d \<longleftrightarrow> fp_le (det_x2 d) (det_x1 d) \<or> fp_le (det_y2 d) (det_y1 d)"

text \<open>The suppression loop; kept candidates and detections grow together.\<close>

fun nms ::
    "yolo_postprocess_config \<Rightarrow> preprocess_plan \<Rightarrow> candidate list \<Rightarrow> (candidate \<times> detection) list \<Rightarrow>
     (candidate \<times> detection) list" where
  "nms cfg plan [] kept = kept"
| "nms cfg plan (c # cs) kept =
     (if \<exists>k \<in> set kept. suppresses cfg (fst k) c then nms cfg plan cs kept
      else let d = map_box plan c in
        if empty_box d then nms cfg plan cs kept
        else let kept' = kept @ [(c, d)] in
          if length kept' = max_detections cfg then kept' else nms cfg plan cs kept')"

definition ranked ::
    "yolo_output_view \<Rightarrow> preprocess_plan \<Rightarrow> yolo_postprocess_config \<Rightarrow> candidate list" where
  "ranked out plan cfg =
     (let data = the (out_data out); count = nat (out_candidates out)
      in stable_sort better
           (List.map_filter (read_candidate data (nat (out_channels out)) count plan cfg) [0..<count]))"

definition postprocess_yolo ::
    "yolo_output_view \<Rightarrow> preprocess_plan \<Rightarrow> yolo_postprocess_config \<Rightarrow> u64 \<Rightarrow> detection_result result" where
  "postprocess_yolo out plan cfg sequence =
     (if out_data out = None \<or> out_channels out \<le> 4 \<or> out_candidates out \<le> 0 \<or>
         nat (out_channels out) > size_max div nat (out_candidates out) \<or>
         out_elements out \<noteq> nat (out_channels out) * nat (out_candidates out)
      then Inl ''YOLO output shape or buffer is invalid''
      else if \<not> valid_plan plan then Inl ''YOLO preprocessing plan is invalid''
      else if \<not> isfinite (confidence_threshold cfg) \<or> \<not> isfinite (nms_iou_threshold cfg) \<or>
              fp_less (confidence_threshold cfg) (Fin 0) \<or> fp_less (Fin 1) (confidence_threshold cfg) \<or>
              fp_less (nms_iou_threshold cfg) (Fin 0) \<or> fp_less (Fin 1) (nms_iou_threshold cfg) \<or>
              max_detections cfg = 0
      then Inl ''YOLO confidence/NMS threshold or max detections is invalid''
      else Inr \<lparr>frame_sequence = sequence,
                detections = map snd (nms cfg plan (ranked out plan cfg) [])\<rparr>)"

section \<open>Candidates\<close>

lemma best_class_range:
  assumes "best_class data count index chans (s0, k0) = (s, k)" and "list_all (\<lambda>c. 4 \<le> c \<and> c < n) chans"
    and "k0 < 0 \<or> (isfinite s0 \<and> 0 \<le> k0 \<and> k0 < int n - 4)"
  shows "k < 0 \<or> (isfinite s \<and> 0 \<le> k \<and> k < int n - 4)"
  using assms
proof (induction chans arbitrary: s0 k0)
  case (Cons c chans)
  let ?v = "data ! (c * count + index)"
  have "k < 0 \<or> isfinite s \<and> 0 \<le> k \<and> k < int n - 4" if hit: "isfinite ?v" "fp_less s0 ?v"
    using Cons.IH [of ?v "int c - 4"] Cons.prems hit by simp
  moreover have "k < 0 \<or> isfinite s \<and> 0 \<le> k \<and> k < int n - 4" if "\<not> (isfinite ?v \<and> fp_less s0 ?v)"
    using Cons.IH [of s0 k0] Cons.prems that by (simp add: Let_def)
  ultimately show ?case by blast
qed simp

definition sound_candidate :: "nat \<Rightarrow> yolo_postprocess_config \<Rightarrow> candidate \<Rightarrow> bool" where
  "sound_candidate channels cfg c \<longleftrightarrow>
     0 \<le> cand_class c \<and> cand_class c < int channels - 4 \<and> isfinite (cand_confidence c) \<and>
     \<not> fp_le (cand_confidence c) (confidence_threshold cfg) \<and>
     isfinite (cand_x1 c) \<and> isfinite (cand_y1 c) \<and> isfinite (cand_x2 c) \<and> isfinite (cand_y2 c)"

lemma read_candidate_sound:
  assumes "read_candidate data channels count plan cfg index = Some c"
  shows "sound_candidate channels cfg c"
proof -
  obtain s k where b: "best_class data count index [4..<channels] (NegInf, -1) = (s, k)" by fastforce
  then have "k < 0 \<or> (isfinite s \<and> 0 \<le> k \<and> k < int channels - 4)"
    by (rule best_class_range) (auto simp: list_all_iff)
  then show ?thesis
    using assms b by (auto simp: read_candidate_def sound_candidate_def Let_def split: if_splits)
qed

lemma ranked_sound: "list_all (sound_candidate (nat (out_channels out)) cfg) (ranked out plan cfg)"
proof -
  have "set (List.map_filter f xs) = {y. \<exists>x \<in> set xs. f x = Some y}" for f :: "nat \<Rightarrow> candidate option" and xs
    by (force simp: List.map_filter_def)
  then show ?thesis
    by (auto simp: ranked_def list_all_iff Let_def dest: read_candidate_sound)
qed

interpretation confidence_order: strict_weak_order better "\<lambda>c. isfinite (cand_confidence c)"
proof
  fix a b
  assume "isfinite (cand_confidence a)" "isfinite (cand_confidence b)" "better a b"
  then show "\<not> better b a"
    by (cases "cand_confidence a"; cases "cand_confidence b") (auto simp: better_def split: if_splits)
next
  fix a b c
  assume "isfinite (cand_confidence a)" "isfinite (cand_confidence b)" "isfinite (cand_confidence c)"
    "\<not> better b a" "\<not> better c b"
  then show "\<not> better c a"
    by (cases "cand_confidence a"; cases "cand_confidence b"; cases "cand_confidence c")
      (auto simp: better_def split: if_splits)
qed

lemma ranked_sorted: "sorted_wrt (\<lambda>a b. \<not> better b a) (ranked out plan cfg)"
proof -
  let ?xs = "List.map_filter (read_candidate (the (out_data out)) (nat (out_channels out))
    (nat (out_candidates out)) plan cfg) [0..<nat (out_candidates out)]"
  have "list_all (\<lambda>c. isfinite (cand_confidence c)) (stable_sort better ?xs)"
    using ranked_sound [of out cfg plan] by (simp add: ranked_def list_all_iff sound_candidate_def Let_def)
  then show ?thesis
    using confidence_order.sorted_stable_sort [of ?xs] by (simp add: ranked_def list_all_iff Let_def)
qed

section \<open>Suppression\<close>

text \<open>What the loop does with one candidate.\<close>

lemma nms_step:
  obtains (skip) "nms cfg plan (c # cs) kept = nms cfg plan cs kept"
      "(\<exists>k \<in> set kept. suppresses cfg (fst k) c) \<or> empty_box (map_box plan c)"
  | (full) "nms cfg plan (c # cs) kept = kept @ [(c, map_box plan c)]" "\<not> empty_box (map_box plan c)"
      "\<not> (\<exists>k \<in> set kept. suppresses cfg (fst k) c)" "Suc (length kept) = max_detections cfg"
  | (more) "nms cfg plan (c # cs) kept = nms cfg plan cs (kept @ [(c, map_box plan c)])"
      "\<not> empty_box (map_box plan c)" "\<not> (\<exists>k \<in> set kept. suppresses cfg (fst k) c)"
      "Suc (length kept) \<noteq> max_detections cfg"
  by (cases "\<exists>k \<in> set kept. suppresses cfg (fst k) c"; cases "empty_box (map_box plan c)";
      cases "Suc (length kept) = max_detections cfg") (simp_all add: Let_def)

lemma nms_prefix:
  "\<exists>new. nms cfg plan cs kept = kept @ new \<and> subseq (map fst new) cs \<and>
     (\<forall>(c, d) \<in> set new. d = map_box plan c \<and> \<not> empty_box d)"
proof (induction cs arbitrary: kept)
  case (Cons c cs)
  show ?case
  proof (cases rule: nms_step [of cfg plan c cs kept])
    case skip
    then show ?thesis using Cons.IH [of kept] by (auto intro: list_emb_Cons)
  next
    case full
    then show ?thesis by (intro exI [of _ "[(c, map_box plan c)]"]) simp
  next
    case more
    obtain new where "nms cfg plan cs (kept @ [(c, map_box plan c)]) = (kept @ [(c, map_box plan c)]) @ new"
      "subseq (map fst new) cs" "\<forall>(c, d) \<in> set new. d = map_box plan c \<and> \<not> empty_box d"
      using Cons.IH [of "kept @ [(c, map_box plan c)]"] by blast
    then show ?thesis using more by (intro exI [of _ "(c, map_box plan c) # new"]) simp
  qed
qed simp

abbreviation independent :: "yolo_postprocess_config \<Rightarrow> (candidate \<times> detection) list \<Rightarrow> bool" where
  "independent cfg \<equiv> sorted_wrt (\<lambda>a b. \<not> suppresses cfg (fst a) (fst b))"

lemma nms_independent: "independent cfg kept \<Longrightarrow> independent cfg (nms cfg plan cs kept)"
  by (induction cfg plan cs kept rule: nms.induct) (auto simp: Let_def sorted_wrt_append)

lemma nms_length:
  "length kept < max_detections cfg \<Longrightarrow> length (nms cfg plan cs kept) \<le> max_detections cfg"
  by (induction cfg plan cs kept rule: nms.induct) (auto simp: Let_def)

lemma nms_keeps: "set kept \<subseteq> set (nms cfg plan cs kept)"
  using nms_prefix [of cfg plan cs kept] by auto

lemma nms_complete:
  "c \<in> set cs \<Longrightarrow> c \<in> fst ` set (nms cfg plan cs kept) \<or>
     (\<exists>k \<in> set (nms cfg plan cs kept). suppresses cfg (fst k) c) \<or> empty_box (map_box plan c) \<or>
     length (nms cfg plan cs kept) = max_detections cfg"
proof (induction cs arbitrary: kept)
  case (Cons x cs)
  show ?case
  proof (cases rule: nms_step [of cfg plan x cs kept])
    case skip
    then show ?thesis
      using Cons.IH [of kept] Cons.prems nms_keeps [of kept cfg plan cs] by (cases "c = x") auto
  next
    case full
    then show ?thesis by simp
  next
    case more
    have "(x, map_box plan x) \<in> set (nms cfg plan cs (kept @ [(x, map_box plan x)]))"
      using nms_keeps [of "kept @ [(x, map_box plan x)]" cfg plan cs] by auto
    then show ?thesis
      using more Cons.IH [of "kept @ [(x, map_box plan x)]"] Cons.prems
      by (cases "c = x") (force, simp)
  qed
qed simp

definition greedy_nms ::
    "yolo_postprocess_config \<Rightarrow> preprocess_plan \<Rightarrow> candidate list \<Rightarrow> (candidate \<times> detection) list \<Rightarrow> bool" where
  "greedy_nms cfg plan cs out \<longleftrightarrow>
     subseq (map fst out) cs \<and> independent cfg out \<and> length out \<le> max_detections cfg \<and>
     (\<forall>(c, d) \<in> set out. d = map_box plan c \<and> \<not> empty_box d) \<and>
     (\<forall>c \<in> set cs. c \<in> fst ` set out \<or> (\<exists>k \<in> set out. suppresses cfg (fst k) c) \<or>
        empty_box (map_box plan c) \<or> length out = max_detections cfg)"


section \<open>Boxes in the source frame\<close>

lemma fp_clamp_range:
  assumes "v \<noteq> NaN" and "0 \<le> limit"
  shows "\<exists>r. fp_clamp v (Fin 0) (Fin limit) = Fin r \<and> 0 \<le> r \<and> r \<le> limit"
  using assms by (cases v) (auto simp: fp_clamp_def)

lemma round64_not_NaN [simp]: "round64 x \<noteq> NaN"
  by (simp add: round64_def with_overflow_def)

lemma to_source_range:
  assumes "isfinite v" and "scale = Fin s" and "0 < s" and "0 \<le> limit" and "limit < 2 ^ 24"
  shows "\<exists>r. to_source v pad scale limit = Fin r \<and> 0 \<le> r \<and> r \<le> of_int limit"
proof -
  obtain x where v: "v = Fin x" using assms(1) by (cases v) auto
  have "fp_mul round64 (fp_sub round64 v (Fin (of_int pad))) scale \<noteq> NaN"
    using assms(2,3) unfolding v
    by (cases "round64 (x - of_int pad)") (auto simp: fp_sub_def fp_mul_def signed_inf_def)
  from fp_clamp_range [OF this, of "of_int limit"] assms(4) obtain r where
    r: "fp_clamp (fp_mul round64 (fp_sub round64 v (Fin (of_int pad))) scale) (Fin 0) (Fin (of_int limit)) = Fin r"
      "0 \<le> r" "r \<le> of_int limit" by auto
  then obtain t where "round32 r = Fin t" "0 \<le> t" "t \<le> of_int limit"
    using f32.rnd_int_range [of 0 limit r] assms(4,5) by auto
  then show ?thesis using r by (simp add: to_source_def)
qed

lemma scale_positive:
  assumes "0 < a" "a \<le> int_max" "0 < b" "b \<le> int_max"
  shows "\<exists>s. fp_div round64 (Fin (of_int a)) (Fin (of_int b)) = Fin s \<and> 0 < s"
proof -
  obtain r where "round64 (of_int a / of_int b) = Fin r" "2 powr (- 31) \<le> r"
    using ratio_rounds quotient_range [OF assms] by blast
  moreover have "(0::real) < 2 powr (- 31)" by simp
  ultimately have "0 < r" "round64 (of_int a / of_int b) = Fin r" by linarith+
  then show ?thesis using assms(3) by (simp add: fp_div_def)
qed

definition inside_frame :: "preprocess_plan \<Rightarrow> detection \<Rightarrow> bool" where
  "inside_frame plan d \<longleftrightarrow> (\<exists>x1 y1 x2 y2.
     det_x1 d = Fin x1 \<and> det_y1 d = Fin y1 \<and> det_x2 d = Fin x2 \<and> det_y2 d = Fin y2 \<and>
     0 \<le> x1 \<and> x1 < x2 \<and> x2 \<le> of_int (source_width plan) \<and>
     0 \<le> y1 \<and> y1 < y2 \<and> y2 \<le> of_int (source_height plan))"

lemma map_box_inside:
  assumes "sound_candidate n cfg c" and "valid_plan plan" and "\<not> empty_box (map_box plan c)"
    and "source_width plan < 2 ^ 24" "source_height plan < 2 ^ 24"
    and "plan_width plan \<le> int_max" "plan_height plan \<le> int_max"
  shows "inside_frame plan (map_box plan c)"
proof -
  have p: "0 < source_width plan" "0 < source_height plan" "0 < resized_width plan" "0 < resized_height plan"
    "resized_width plan \<le> int_max" "resized_height plan \<le> int_max"
    using assms(2,6,7) by (auto simp: valid_plan_def)
  obtain sx where sx: "fp_div round64 (Fin (of_int (source_width plan))) (Fin (of_int (resized_width plan))) = Fin sx"
    "0 < sx" using scale_positive [of "source_width plan" "resized_width plan"] p assms(4) by auto
  obtain sy where sy: "fp_div round64 (Fin (of_int (source_height plan))) (Fin (of_int (resized_height plan))) = Fin sy"
    "0 < sy" using scale_positive [of "source_height plan" "resized_height plan"] p assms(5) by auto
  have x: "\<exists>r. to_source v (pad_left plan) (Fin sx) (source_width plan) = Fin r \<and> 0 \<le> r \<and> r \<le> of_int (source_width plan)"
    if "isfinite v" for v using to_source_range [OF that refl sx(2)] p(1) assms(4) by simp
  have y: "\<exists>r. to_source v (pad_top plan) (Fin sy) (source_height plan) = Fin r \<and> 0 \<le> r \<and> r \<le> of_int (source_height plan)"
    if "isfinite v" for v using to_source_range [OF that refl sy(2)] p(2) assms(5) by simp
  have fin: "isfinite (cand_x1 c)" "isfinite (cand_x2 c)" "isfinite (cand_y1 c)" "isfinite (cand_y2 c)"
    using assms(1) by (simp_all add: sound_candidate_def)
  show ?thesis
    using x [OF fin(1)] x [OF fin(2)] y [OF fin(3)] y [OF fin(4)] assms(3) sx(1) sy(1)
    by (auto simp: inside_frame_def map_box_def empty_box_def Let_def not_le)
qed

text \<open>C35: Whatever the network outputs, NaN and infinities included, every reported detection has
  a class the model knows, a finite confidence above the threshold, and a finite non-empty box
  inside the source frame, for frames whose sides single precision can represent.\<close>

theorem yolo_detections_sound:
  assumes "postprocess_yolo out plan cfg sequence = Inr res"
    and "source_width plan < 2 ^ 24" "source_height plan < 2 ^ 24"
    and "plan_width plan \<le> int_max" "plan_height plan \<le> int_max"
  shows "list_all (\<lambda>d. inside_frame plan d \<and> 0 \<le> det_class d \<and> det_class d < out_channels out - 4 \<and>
    isfinite (det_confidence d) \<and> \<not> fp_le (det_confidence d) (confidence_threshold cfg)) (detections res)"
proof -
  have ok: "valid_plan plan" "4 < out_channels out"
    and res: "detections res = map snd (nms cfg plan (ranked out plan cfg) [])"
    using assms(1) by (auto simp: postprocess_yolo_def split: if_splits)
  obtain new where new: "nms cfg plan (ranked out plan cfg) [] = new" "subseq (map fst new) (ranked out plan cfg)"
    "\<forall>(c, d) \<in> set new. d = map_box plan c \<and> \<not> empty_box d"
    using nms_prefix [of cfg plan "ranked out plan cfg" "[]"] by auto
  have "inside_frame plan d \<and> 0 \<le> det_class d \<and> det_class d < out_channels out - 4 \<and>
      isfinite (det_confidence d) \<and> \<not> fp_le (det_confidence d) (confidence_threshold cfg)"
    if d_in: "d \<in> set (detections res)" for d
  proof -
    obtain c where c: "(c, d) \<in> set new" using d_in unfolding res new(1) by auto
    then have "c \<in> set (ranked out plan cfg)"
      using set_nths_subset subseq_conv_nths [of "map fst new"] new(2) by (metis fst_conv image_eqI list.set_map subsetD)
    then have sound: "sound_candidate (nat (out_channels out)) cfg c"
      using ranked_sound [of out cfg plan] by (simp add: list_all_iff)
    have d: "d = map_box plan c" "\<not> empty_box d" using new(3) c by auto
    have "inside_frame plan d" using map_box_inside [OF sound ok(1)] d assms(2-5) by simp
    then show ?thesis using sound ok(2) d(1) by (auto simp: sound_candidate_def map_box_def Let_def)
  qed
  then show ?thesis by (simp add: list_all_iff)
qed

definition sample_output :: yolo_output_view where
  "sample_output = \<lparr>out_data = Some [Fin (1/2), Fin (1/2), Fin 1, Fin 1, Fin (3/4)], out_elements = 5,
     out_channels = 5, out_candidates = 1\<rparr>"

definition sample_cfg :: yolo_postprocess_config where
  "sample_cfg = \<lparr>confidence_threshold = Fin (1/4), nms_iou_threshold = Fin (1/2), max_detections = 300\<rparr>"

lemma sample_postprocess: "\<exists>res. postprocess_yolo sample_output sample_plan sample_cfg 1 = Inr res"
  by (simp add: postprocess_yolo_def sample_output_def sample_cfg_def sample_plan_def valid_plan_def)


theorem yolo_detections_sound_witness:
  "\<exists>res. postprocess_yolo sample_output sample_plan sample_cfg 1 = Inr res \<and>
     list_all (inside_frame sample_plan) (detections res)"
proof -
  obtain res where r: "postprocess_yolo sample_output sample_plan sample_cfg 1 = Inr res"
    using sample_postprocess by blast
  have "list_all (\<lambda>d. inside_frame sample_plan d \<and> 0 \<le> det_class d \<and> det_class d < out_channels sample_output - 4 \<and>
      isfinite (det_confidence d) \<and> \<not> fp_le (det_confidence d) (confidence_threshold sample_cfg)) (detections res)"
    by (rule yolo_detections_sound [OF r]) (simp_all add: sample_plan_def)
  then show ?thesis using r by (auto simp: list_all_iff)
qed

end
