(* ===== verification/Health.thy ===== *)
theory Health
  imports Rtsp_Recovery Recording
begin

text \<open>
  \<^verbatim>\<open>include/skai/status.hpp\<close>, \<^verbatim>\<open>include/skai/health.hpp\<close>,
  \<^verbatim>\<open>src/health.cpp\<close> and the GPS source of \<^verbatim>\<open>src/gps\<close>: the
  metrics the modules publish, the health each component derives from them, and the watchdog that
  polls and aggregates.  The registers of \<^verbatim>\<open>RuntimeStatus\<close> are atomics, so a call
  is one step; a probe reads a state \<open>'w\<close> that the watchdog does not own and may throw.
\<close>

section \<open>RuntimeStatus\<close>

record encoder_status =
  frames_submitted :: u64
  frames_rejected :: u64
  frames_dropped :: u64
  appsrc_pressure_dropped :: u64
  access_units_encoded :: u64
  bytes_encoded :: u64
  enc_access_units_dropped :: u64
  last_access_unit_age_ms :: int
  enc_last_error :: string

record runtime_status_snapshot =
  ss_status :: string
  uptime_s :: u64
  ss_video_fps :: "fp option"
  ss_detector_fps :: "fp option"
  last_inference_ms :: "fp option"
  last_inference_age_ms :: "int option"
  ss_encoder :: "encoder_status option"

record runtime_status =
  rt_running :: bool
  detector_expected :: bool
  video_available :: bool
  detector_available :: bool
  detector_fps_available :: bool
  rt_video_fps :: fp
  rt_detector_fps :: fp
  inference_ms :: fp
  inference_at_ns :: int
  encoder_available :: bool
  rt_encoder :: encoder_status

definition zero_encoder :: encoder_status where
  "zero_encoder =
     \<lparr>frames_submitted = 0, frames_rejected = 0, frames_dropped = 0, appsrc_pressure_dropped = 0,
      access_units_encoded = 0, bytes_encoded = 0, enc_access_units_dropped = 0,
      last_access_unit_age_ms = - 1, enc_last_error = []\<rparr>"

definition new_status :: runtime_status where
  "new_status =
     \<lparr>rt_running = False, detector_expected = False, video_available = False, detector_available = False,
      detector_fps_available = False, rt_video_fps = Fin 0, rt_detector_fps = Fin 0, inference_ms = Fin 0,
      inference_at_ns = 0, encoder_available = False, rt_encoder = zero_encoder\<rparr>"

definition set_running :: "bool \<Rightarrow> runtime_status \<Rightarrow> runtime_status" where
  "set_running running s = s\<lparr>rt_running := running\<rparr>"

definition set_detector_expected :: "bool \<Rightarrow> runtime_status \<Rightarrow> runtime_status" where
  "set_detector_expected expected s =
     (let s1 = s\<lparr>detector_expected := expected\<rparr> in
      if \<not> expected then s1\<lparr>detector_available := False\<rparr> else s1)"

definition update_video :: "fp \<Rightarrow> runtime_status \<Rightarrow> runtime_status" where
  "update_video fps s = s\<lparr>rt_video_fps := fps, video_available := True\<rparr>"

definition update_detector :: "int \<Rightarrow> fp \<Rightarrow> fp \<Rightarrow> runtime_status \<Rightarrow> runtime_status" where
  "update_detector now_ns fps ms s =
     s\<lparr>rt_detector_fps := fps, inference_ms := ms, inference_at_ns := now_ns,
       detector_fps_available := True, detector_available := True\<rparr>"

definition update_inference :: "int \<Rightarrow> fp \<Rightarrow> runtime_status \<Rightarrow> runtime_status" where
  "update_inference now_ns ms s = s\<lparr>inference_ms := ms, inference_at_ns := now_ns, detector_available := True\<rparr>"

definition clear_video :: "runtime_status \<Rightarrow> runtime_status" where
  "clear_video s = s\<lparr>video_available := False\<rparr>"

definition clear_detector :: "runtime_status \<Rightarrow> runtime_status" where
  "clear_detector s = s\<lparr>detector_available := False, detector_fps_available := False\<rparr>"

definition update_encoder :: "encoder_status \<Rightarrow> runtime_status \<Rightarrow> runtime_status" where
  "update_encoder e s = s\<lparr>rt_encoder := e, encoder_available := True\<rparr>"

definition clear_encoder :: "runtime_status \<Rightarrow> runtime_status" where
  "clear_encoder s = s\<lparr>encoder_available := False\<rparr>"

text \<open>Division of a duration truncates toward zero.\<close>

definition trunc_div :: "int \<Rightarrow> int \<Rightarrow> int" where
  "trunc_div a b = sgn a * sgn b * (\<bar>a\<bar> div \<bar>b\<bar>)"

definition status_snapshot :: "int \<Rightarrow> runtime_status \<Rightarrow> runtime_status_snapshot" where
  "status_snapshot now_ns s =
     \<lparr>ss_status =
        (if \<not> rt_running s then ''starting''
         else if video_available s \<and> (\<not> detector_expected s \<or> detector_available s) then ''running''
         else ''degraded''),
      uptime_s = 0,
      ss_video_fps = (if video_available s then Some (rt_video_fps s) else None),
      ss_detector_fps =
        (if detector_available s \<and> detector_fps_available s then Some (rt_detector_fps s) else None),
      last_inference_ms = (if detector_available s then Some (inference_ms s) else None),
      last_inference_age_ms =
        (if detector_available s then Some (trunc_div (now_ns - inference_at_ns s) 1000000) else None),
      ss_encoder = (if encoder_available s then Some (rt_encoder s) else None)\<rparr>"

section \<open>GPS\<close>

record gps_fix =
  fix_valid :: bool
  fix_source :: string
  fix_latitude :: fp
  fix_longitude :: fp
  fix_altitude_m :: fp
  hdop :: fp
  satellites_visible :: int
  satellites_used :: int

definition gps_latest :: "gps_config \<Rightarrow> gps_fix option" where
  "gps_latest cfg =
     (if \<not> gc_enabled cfg \<or> gc_source cfg \<noteq> ''fixed'' then None
      else Some \<lparr>fix_valid = True, fix_source = ''fixed'', fix_latitude = gc_latitude cfg,
                 fix_longitude = gc_longitude cfg, fix_altitude_m = gc_altitude_m cfg,
                 hdop = round64 (9/10), satellites_visible = 12, satellites_used = 10\<rparr>)"

text \<open>\<^verbatim>\<open>GpsModule\<close>: the source, if initialized, and the shared
  \<^verbatim>\<open>GpsState\<close>.\<close>

record gps_module =
  gps_source :: "gps_config option"
  gps_state :: "gps_fix option"

definition gps_initialize :: "config \<Rightarrow> gps_module \<Rightarrow> bool \<times> gps_module" where
  "gps_initialize cfg m =
     (if gps_source m \<noteq> None then (False, m)
      else (True, m\<lparr>gps_source := Some (cfg_gps cfg), gps_state := gps_latest (cfg_gps cfg)\<rparr>))"

definition gps_start :: "gps_module \<Rightarrow> bool" where
  "gps_start m = (gps_source m \<noteq> None)"

definition gps_wait :: "gps_module \<Rightarrow> gps_module" where
  "gps_wait m = m\<lparr>gps_state := None, gps_source := None\<rparr>"

section \<open>Health of the components\<close>

datatype health_state = H_Starting | H_Running | H_Degraded | H_Stopping | H_Failed

datatype health_component =
  VideoSource | Detector | Encoder | Recorder | Gps | Web | WebRtc | Database

definition all_health_components :: "health_component list" where
  "all_health_components = [VideoSource, Detector, Encoder, Recorder, Gps, Web, WebRtc, Database]"

fun health_state_name :: "health_state \<Rightarrow> string" where
  "health_state_name H_Starting = ''STARTING''"
| "health_state_name H_Running = ''RUNNING''"
| "health_state_name H_Degraded = ''DEGRADED''"
| "health_state_name H_Stopping = ''STOPPING''"
| "health_state_name H_Failed = ''FAILED''"

fun health_component_name :: "health_component \<Rightarrow> string" where
  "health_component_name VideoSource = ''video_source''"
| "health_component_name Detector = ''detector''"
| "health_component_name Encoder = ''encoder''"
| "health_component_name Recorder = ''recorder''"
| "health_component_name Gps = ''gps''"
| "health_component_name Web = ''web''"
| "health_component_name WebRtc = ''webrtc''"
| "health_component_name Database = ''database''"

record component_health =
  h_state :: health_state
  h_detail :: string

abbreviation reports :: "health_state \<Rightarrow> string \<Rightarrow> component_health" where
  "reports s d \<equiv> \<lparr>h_state = s, h_detail = d\<rparr>"

record rtsp_diagnostics =
  rd_health :: source_health
  rd_codec :: string
  rd_decoder :: string
  rd_width :: int
  rd_height :: int
  rd_fps_num :: int
  rd_fps_den :: int
  rd_fps_in :: fp
  rd_url_configured :: bool
  rd_transport :: string
  rd_frames_dropped :: u64
  rd_frames_discarded :: u64
  last_frame_age_ms :: int
  packets_lost :: u64
  packets_late :: u64
  avg_jitter_ns :: u64
  frames_received :: u64
  rd_reconnect_count :: u64
  rd_last_error :: string

definition or_default :: "string \<Rightarrow> string \<Rightarrow> string" where
  "or_default s d = (if s = [] then d else s)"

definition video_health :: "rtsp_diagnostics option \<Rightarrow> int \<Rightarrow> component_health" where
  "video_health diagnostics stall_ms =
     (case diagnostics of
        None \<Rightarrow> reports H_Starting ''source not initialized''
      | Some v \<Rightarrow>
          if rd_health v = Connected \<and> last_frame_age_ms v \<ge> 0 \<and> last_frame_age_ms v > stall_ms
          then reports H_Degraded ''source frame is stale''
          else case rd_health v of
            Connected \<Rightarrow> reports H_Running []
          | Connecting \<Rightarrow>
              reports (if frames_received v = 0 then H_Starting else H_Degraded) ''source connecting''
          | Degraded \<Rightarrow> reports H_Degraded ''source packet loss''
          | Stalled \<Rightarrow> reports H_Degraded ''source stalled''
          | Reconnecting \<Rightarrow> reports H_Degraded (or_default (rd_last_error v) ''source reconnecting'')
          | Error \<Rightarrow> reports H_Failed (or_default (rd_last_error v) ''source failed'')
          | source_health.Stopped \<Rightarrow> reports H_Failed ''source stopped'')"

definition detector_health :: "bool \<Rightarrow> bool \<Rightarrow> runtime_status_snapshot \<Rightarrow> component_health" where
  "detector_health supported enabled status =
     (if \<not> supported then reports H_Running ''not installed''
      else if \<not> enabled then reports H_Running ''disabled''
      else if last_inference_ms status = None then reports H_Degraded ''no current inference''
      else case last_inference_age_ms status of
        Some age \<Rightarrow> if age > 3000 then reports H_Degraded ''inference is stale'' else reports H_Running []
      | None \<Rightarrow> reports H_Running [])"

definition encoder_health :: "runtime_status_snapshot \<Rightarrow> bool \<Rightarrow> bool \<Rightarrow> component_health" where
  "encoder_health status media_ok h264_required =
     (if \<not> h264_required \<and> ss_encoder status = None then reports H_Running ''not required''
      else if \<not> media_ok then reports H_Degraded ''H.264 media unavailable''
      else case ss_encoder status of
        None \<Rightarrow> reports H_Running ''H.264 passthrough''
      | Some e \<Rightarrow>
          if enc_last_error e \<noteq> [] then reports H_Degraded (enc_last_error e)
          else if last_access_unit_age_ms e > 3000 then reports H_Degraded ''encoded media is stale''
          else reports H_Running [])"

definition recorder_health :: "recording_status \<Rightarrow> bool \<Rightarrow> bool \<Rightarrow> component_health" where
  "recorder_health status req enabled_by_config =
     (if rs_state status = ''error'' then reports H_Failed (rs_last_error status)
      else if \<not> rs_configured status \<or> (\<not> enabled_by_config \<and> \<not> req \<and> \<not> rs_active status)
      then reports H_Running ''disabled''
      else if rs_state status = ''unavailable'' then reports H_Degraded (unavailable_reason status)
      else if \<not> req then reports H_Running ''stopped''
      else if \<not> rs_available status then reports H_Degraded (unavailable_reason status)
      else if rs_active status then reports H_Running []
      else reports H_Starting ''recording starting'')"

definition gps_health :: "bool \<Rightarrow> gps_fix option \<Rightarrow> component_health" where
  "gps_health enabled fx =
     (if \<not> enabled then reports H_Running ''disabled''
      else if (case fx of None \<Rightarrow> True | Some f \<Rightarrow> \<not> fix_valid f) then reports H_Degraded ''GPS fix unavailable''
      else reports H_Running [])"

record whip_metrics =
  wm_enabled :: bool
  peer_state :: string
  ice_state :: string
  wm_last_error :: string
  access_units_sent :: u64
  media_queue_drops :: nat
  media_queue_discarded :: nat

text \<open>The fields of \<^verbatim>\<open>WebRtcDiagnostics\<close> that decide health.\<close>

record webrtc_media =
  wd_enabled :: bool
  wd_media_available :: bool
  wd_media_unavailable_reason :: string

definition webrtc_health :: "webrtc_media \<Rightarrow> whip_metrics \<Rightarrow> component_health" where
  "webrtc_health diagnostics whip =
     (if wm_enabled whip \<and> (peer_state whip = ''failed'' \<or> peer_state whip = ''stopped'')
      then reports H_Failed (or_default (wm_last_error whip) ''WHIP uplink stopped'')
      else if wm_enabled whip \<and>
        (peer_state whip = ''retrying'' \<or> peer_state whip = ''disconnected'' \<or>
         ice_state whip = ''failed'' \<or> ice_state whip = ''disconnected'')
      then reports H_Degraded (or_default (wm_last_error whip) ''WHIP uplink reconnecting'')
      else if wm_enabled whip \<and>
        (peer_state whip \<noteq> ''connected'' \<or> (ice_state whip \<noteq> ''connected'' \<and> ice_state whip \<noteq> ''completed''))
      then reports H_Starting ''WHIP uplink connecting''
      else if wd_enabled diagnostics \<and> \<not> wd_media_available diagnostics
      then reports H_Degraded (wd_media_unavailable_reason diagnostics)
      else if \<not> wd_enabled diagnostics \<and> \<not> wm_enabled whip then reports H_Running ''disabled''
      else reports H_Running [])"

definition web_health :: "bool \<Rightarrow> component_health" where
  "web_health serving = (if serving then reports H_Running [] else reports H_Failed ''HTTP server not serving'')"

definition database_health :: "string \<Rightarrow> component_health" where
  "database_health e = (if e = [] then reports H_Running [] else reports H_Failed e)"

section \<open>HealthWatchdog\<close>

datatype probe_outcome = Healthy component_health | Threw string | Threw_unknown

record 'w watch_entry =
  we_probe :: "('w \<Rightarrow> probe_outcome) option"
  we_health :: component_health
  we_critical :: bool

record 'w watchdog =
  wd_entries :: "health_component \<Rightarrow> 'w watch_entry"
  last_poll :: time_point
  lifecycle :: health_state
  wd_stopping :: bool
  wd_worker :: bool

definition new_watchdog :: "'w watchdog" where
  "new_watchdog =
     \<lparr>wd_entries = (\<lambda>_. \<lparr>we_probe = None, we_health = reports H_Starting [], we_critical = False\<rparr>),
      last_poll = 0, lifecycle = H_Starting, wd_stopping = False, wd_worker = False\<rparr>"

definition set_probe ::
    "health_component \<Rightarrow> ('w \<Rightarrow> probe_outcome) \<Rightarrow> bool \<Rightarrow> 'w watchdog \<Rightarrow> 'w watchdog" where
  "set_probe c probe critical wd =
     wd\<lparr>wd_entries := (wd_entries wd)(c := (wd_entries wd c)\<lparr>we_probe := Some probe, we_critical := critical\<rparr>)\<rparr>"

definition set_lifecycle :: "health_state \<Rightarrow> 'w watchdog \<Rightarrow> 'w watchdog" where
  "set_lifecycle s wd = wd\<lparr>lifecycle := s\<rparr>"

definition observe_component :: "'w \<Rightarrow> 'w watch_entry \<Rightarrow> component_health" where
  "observe_component w e =
     (case we_probe e of
        None \<Rightarrow> reports H_Starting ''probe not registered''
      | Some p \<Rightarrow> (case p w of
                     Healthy h \<Rightarrow> h
                   | Threw what \<Rightarrow> reports H_Failed what
                   | Threw_unknown \<Rightarrow> reports H_Failed ''probe failed''))"

definition tick :: "'w \<Rightarrow> time_point \<Rightarrow> 'w watchdog \<Rightarrow> 'w watchdog" where
  "tick w now wd =
     wd\<lparr>wd_entries := (\<lambda>c. let e = wd_entries wd c in e\<lparr>we_health := observe_component w e\<rparr>), last_poll := now\<rparr>"

definition is_stale_poll :: "time_point \<Rightarrow> 'w watchdog \<Rightarrow> bool" where
  "is_stale_poll now wd \<longleftrightarrow> last_poll wd \<noteq> 0 \<and> now - last_poll wd > seconds 2"

definition shown_health :: "time_point \<Rightarrow> 'w watchdog \<Rightarrow> health_component \<Rightarrow> component_health" where
  "shown_health now wd c =
     (if is_stale_poll now wd then reports H_Failed ''watchdog poll stale'' else we_health (wd_entries wd c))"

text \<open>The loop of \<^verbatim>\<open>snapshot\<close> over the components: starting, degraded, failed.\<close>

fun aggregate ::
    "time_point \<Rightarrow> 'w watchdog \<Rightarrow> health_component list \<Rightarrow> bool \<times> bool \<times> bool \<Rightarrow> bool \<times> bool \<times> bool" where
  "aggregate now wd [] flags = flags"
| "aggregate now wd (c # cs) (starting, degraded, any_failed) =
     (let s = h_state (shown_health now wd c) in
      aggregate now wd cs
        (if s = H_Failed then
           if we_critical (wd_entries wd c) then (starting, degraded, True) else (starting, True, any_failed)
         else if s = H_Degraded then (starting, True, any_failed)
         else if s = H_Starting then (True, degraded, any_failed)
         else (starting, degraded, any_failed)))"

definition health_snapshot :: "time_point \<Rightarrow> 'w watchdog \<Rightarrow> health_state \<times> (health_component \<Rightarrow> component_health)" where
  "health_snapshot now wd =
     (let (starting, degraded, any_failed) =
            aggregate now wd all_health_components (False, False, is_stale_poll now wd)
      in (if lifecycle wd = H_Running then
            if any_failed then H_Failed else if degraded then H_Degraded
            else if starting then H_Starting else H_Running
          else lifecycle wd,
          shown_health now wd))"

definition wd_start :: "'w \<Rightarrow> time_point \<Rightarrow> 'w watchdog \<Rightarrow> 'w watchdog" where
  "wd_start w now wd =
     (if wd_worker wd then wd else (set_lifecycle H_Running (tick w now wd))\<lparr>wd_worker := True\<rparr>)"

definition wd_stop :: "'w watchdog \<Rightarrow> 'w watchdog" where
  "wd_stop wd = wd\<lparr>wd_stopping := True, lifecycle := H_Stopping, wd_worker := False\<rparr>"

section \<open>Aggregation\<close>

abbreviation shown_state :: "time_point \<Rightarrow> 'w watchdog \<Rightarrow> health_component \<Rightarrow> health_state" where
  "shown_state now wd c \<equiv> h_state (shown_health now wd c)"

lemma aggregate_flags:
  "aggregate now wd cs (s, d, f) =
     (s \<or> (\<exists>c \<in> set cs. shown_state now wd c = H_Starting),
      d \<or> (\<exists>c \<in> set cs. shown_state now wd c = H_Degraded \<or>
             (shown_state now wd c = H_Failed \<and> \<not> we_critical (wd_entries wd c))),
      f \<or> (\<exists>c \<in> set cs. shown_state now wd c = H_Failed \<and> we_critical (wd_entries wd c)))"
  by (induction cs arbitrary: s d f) (auto simp: Let_def)

lemma all_components: "set all_health_components = UNIV"
proof -
  have "c \<in> set all_health_components" for c by (cases c) (simp_all add: all_health_components_def)
  then show ?thesis by blast
qed

lemma shown_after_tick:
  "now - t \<le> seconds 2 \<Longrightarrow>
    shown_health now (tick w t wd) c = observe_component w (wd_entries wd c) \<and>
    we_critical (wd_entries (tick w t wd) c) = we_critical (wd_entries wd c) \<and>
    \<not> is_stale_poll now (tick w t wd) \<and> lifecycle (tick w t wd) = lifecycle wd"
  by (simp add: shown_health_def is_stale_poll_def tick_def Let_def)

text \<open>While the program runs and the last poll is at most two seconds old, the reported state
  is FAILED exactly when a critical component failed or its probe threw, DEGRADED exactly when
  otherwise some component failed or is degraded, STARTING exactly when otherwise some component is
  starting or has no probe, and else RUNNING. Once the poll is older than two seconds the program
  is FAILED and so is every component.\<close>

theorem watchdog_reports_worst:
  assumes "lifecycle wd = H_Running"
  shows "(now - t \<le> seconds 2 \<longrightarrow>
      fst (health_snapshot now (tick w t wd)) =
       (let st = (\<lambda>c. h_state (observe_component w (wd_entries wd c))) in
        if \<exists>c. st c = H_Failed \<and> we_critical (wd_entries wd c) then H_Failed
        else if \<exists>c. st c = H_Failed \<or> st c = H_Degraded then H_Degraded
        else if \<exists>c. st c = H_Starting then H_Starting else H_Running)) \<and>
    (t \<noteq> 0 \<and> now - t > seconds 2 \<longrightarrow>
      fst (health_snapshot now (tick w t wd)) = H_Failed \<and>
      (\<forall>c. h_state (snd (health_snapshot now (tick w t wd)) c) = H_Failed))"
proof (intro conjI impI)
  assume "now - t \<le> seconds 2"
  note shown = shown_after_tick [OF this, of w wd]
  show "fst (health_snapshot now (tick w t wd)) =
       (let st = (\<lambda>c. h_state (observe_component w (wd_entries wd c))) in
        if \<exists>c. st c = H_Failed \<and> we_critical (wd_entries wd c) then H_Failed
        else if \<exists>c. st c = H_Failed \<or> st c = H_Degraded then H_Degraded
        else if \<exists>c. st c = H_Starting then H_Starting else H_Running)"
    using shown assms unfolding health_snapshot_def aggregate_flags all_components Let_def by auto
next
  assume "t \<noteq> 0 \<and> now - t > seconds 2"
  then have "is_stale_poll now (tick w t wd)" "lifecycle (tick w t wd) = H_Running"
    using assms by (simp_all add: is_stale_poll_def tick_def)
  then show "fst (health_snapshot now (tick w t wd)) = H_Failed"
    "\<forall>c. h_state (snd (health_snapshot now (tick w t wd)) c) = H_Failed"
    by (simp_all add: health_snapshot_def aggregate_flags shown_health_def)
qed

theorem watchdog_reports_worst_witness:
  "fst (health_snapshot 5 (tick () 4 (wd_start () 1 new_watchdog))) = H_Starting \<and>
   fst (health_snapshot (seconds 3) (tick () 4 (wd_start () 1 new_watchdog))) = H_Failed"
proof -
  let ?wd = "wd_start () 1 new_watchdog"
  have l: "lifecycle ?wd = H_Running" "h_state (observe_component () (wd_entries ?wd c)) = H_Starting" for c
    by (simp_all add: wd_start_def new_watchdog_def set_lifecycle_def tick_def observe_component_def Let_def)
  from watchdog_reports_worst [OF l(1), of 5 4 "()"] watchdog_reports_worst [OF l(1), of "seconds 3" 4 "()"] l(2)
  show ?thesis by (simp add: Let_def)
qed

end
