(* ===== verification/Json_Value.thy ===== *)
theory Json_Value
  imports Json_Text Cpp_Float
begin

text \<open>
  What the JSON documents of the web API say.  \<open>reads\<close> is the grammar of RFC 8259 as a
  relation between a text, the value at its start and the text that follows; \<open>render\<close>
  writes a value with the program's string encoder, and \<open>reads_render\<close> relates the two.
  \<open>ostream_double\<close> is the default format of an output stream for a floating-point number
  (C's \<^verbatim>\<open>%.*g\<close>) with the given precision; the sign of a zero is not represented.
\<close>

section \<open>Numbers\<close>

definition strip_trailing_zeros :: "string \<Rightarrow> string" where
  "strip_trailing_zeros s = rev (dropWhile (\<lambda>c. c = CHR ''0'') (rev s))"

definition with_fraction :: "string \<Rightarrow> string \<Rightarrow> string" where
  "with_fraction whole fraction =
     (let f = strip_trailing_zeros fraction in if f = [] then whole else whole @ ''.'' @ f)"

text \<open>The \<open>p\<close> significant decimal digits and the decimal exponent of a nonzero value, rounded
  to nearest.\<close>

definition significant :: "nat \<Rightarrow> real \<Rightarrow> nat \<times> int" where
  "significant p x =
     (let e = floor_log 10 \<bar>x\<bar>;
          m = nat (rne (\<bar>x\<bar> * base_powr 10 (int p - 1 - e)))
      in if m \<ge> 10 ^ p then (10 ^ (p - 1), e + 1) else (m, e))"

definition exponent_text :: "int \<Rightarrow> string" where
  "exponent_text e =
     ''e'' @ (if e < 0 then ''-'' else ''+'') @ (if \<bar>e\<bar> < 10 then ''0'' else []) @ to_string (nat \<bar>e\<bar>)"

definition general_text :: "nat \<Rightarrow> nat \<Rightarrow> int \<Rightarrow> string" where
  "general_text p m e =
     (let d = to_string m in
      if e < - 4 \<or> e \<ge> int p then with_fraction (take 1 d) (drop 1 d) @ exponent_text e
      else if e \<ge> 0 then with_fraction (take (nat e + 1) d) (drop (nat e + 1) d)
      else with_fraction ''0'' (replicate (nat (- e) - 1) (CHR ''0'') @ d))"

fun ostream_double :: "nat \<Rightarrow> fp \<Rightarrow> string" where
  "ostream_double p (Fin x) =
     (if x = 0 then ''0''
      else (if x < 0 then ''-'' else []) @ (let (m, e) = significant p x in general_text p m e))"
| "ostream_double p PosInf = ''inf''"
| "ostream_double p NegInf = ''-inf''"
| "ostream_double p NaN = ''nan''"

definition int_part :: "string \<Rightarrow> bool" where
  "int_part s \<longleftrightarrow> s = ''0'' \<or> s \<noteq> [] \<and> list_all is_digit s \<and> hd s \<noteq> CHR ''0''"

definition frac_part :: "string \<Rightarrow> bool" where
  "frac_part s \<longleftrightarrow> s = [] \<or> (\<exists>d. s = CHR ''.'' # d \<and> d \<noteq> [] \<and> list_all is_digit d)"

definition exp_part :: "string \<Rightarrow> bool" where
  "exp_part s \<longleftrightarrow>
     s = [] \<or> (\<exists>sg d. s = CHR ''e'' # sg # d \<and> sg \<in> {CHR ''+'', CHR ''-''} \<and> d \<noteq> [] \<and> list_all is_digit d)"

definition unsigned_number :: "string \<Rightarrow> bool" where
  "unsigned_number s \<longleftrightarrow> (\<exists>i f e. s = i @ f @ e \<and> int_part i \<and> frac_part f \<and> exp_part e)"

definition json_number :: "string \<Rightarrow> bool" where
  "json_number s \<longleftrightarrow> unsigned_number s \<or> (\<exists>t. s = CHR ''-'' # t \<and> unsigned_number t)"

lemma int_part_number: "int_part s \<Longrightarrow> unsigned_number s"
  by (force simp: unsigned_number_def frac_part_def exp_part_def)

lemma char_zero: "char_of (48::nat) = CHR ''0''"
  by (simp add: char_of_def bit_Suc_0_iff)

lemma hd_to_string: "0 < n \<Longrightarrow> hd (to_string n) \<noteq> CHR ''0''"
proof (induction n rule: to_string.induct)
  case (1 n)
  show ?case
  proof (cases "n < 10")
    case True
    have "CHR ''0'' = digit_char 0" by (simp add: digit_char_def char_zero)
    then have "digit_char n \<noteq> CHR ''0''" using True 1(2) of_digit_char[of n] of_digit_char[of 0]
      by (metis add.right_neutral less_numeral_extra(3) add_left_cancel zero_less_numeral)
    with True show ?thesis by (subst to_string.simps) simp
  next
    case False
    with 1 show ?thesis by (subst to_string.simps) simp
  qed
qed

lemma to_string_list_all [simp]: "list_all is_digit (to_string n)"
  using to_string_digits by (simp add: list_all_iff)

lemma to_string_0 [simp]: "to_string 0 = ''0''"
  by (subst to_string.simps) (simp add: digit_char_def char_zero)

lemma int_part_to_string [simp]: "int_part (to_string n)"
  by (cases "n = 0") (simp_all add: int_part_def hd_to_string)

lemma json_number_to_string [simp]: "json_number (to_string n)"
  by (simp add: json_number_def int_part_number)

lemma json_number_int_to_string [simp]: "json_number (int_to_string i)"
  by (simp add: json_number_def int_to_string_def int_part_number)

lemma strip_zeros_digits: "list_all is_digit s \<Longrightarrow> list_all is_digit (strip_trailing_zeros s)"
  unfolding strip_trailing_zeros_def by (auto simp: list_all_iff dest: set_dropWhileD)

lemma with_fraction_number:
  assumes "int_part w" "list_all is_digit f" "exp_part e"
  shows "unsigned_number (with_fraction w f @ e)"
proof -
  let ?f = "strip_trailing_zeros f"
  have "frac_part (if ?f = [] then [] else CHR ''.'' # ?f)"
    using strip_zeros_digits[OF assms(2)] by (simp add: frac_part_def)
  moreover have "with_fraction w f @ e = w @ (if ?f = [] then [] else CHR ''.'' # ?f) @ e"
    by (simp add: with_fraction_def Let_def)
  ultimately show ?thesis unfolding unsigned_number_def using assms by blast
qed

lemma int_part_take: "0 < m \<Longrightarrow> 0 < n \<Longrightarrow> int_part (take n (to_string m))"
  using hd_to_string[of m] to_string_list_all[of m]
  by (auto simp: int_part_def list_all_iff dest: in_set_takeD)

lemma list_all_drop: "list_all P xs \<Longrightarrow> list_all P (drop n xs)"
  by (auto simp: list_all_iff dest: in_set_dropD)

lemma exp_part_exponent_text: "exp_part (exponent_text e)"
  by (simp add: exp_part_def exponent_text_def is_digit_def)

lemma general_text_number:
  assumes "0 < m" shows "unsigned_number (general_text p m e)"
proof -
  have nil: "exp_part []" by (simp add: exp_part_def)
  have zero: "int_part ''0''" "list_all is_digit (replicate k (CHR ''0'') @ to_string m)" for k
    using to_string_digits[of m] by (auto simp: int_part_def list_all_iff is_digit_def)
  show ?thesis
    using with_fraction_number[OF int_part_take[OF assms] list_all_drop[OF to_string_list_all]
          exp_part_exponent_text, of 1 1 m e]
      with_fraction_number[OF int_part_take[OF assms] list_all_drop[OF to_string_list_all] nil,
          of "nat e + 1" "nat e + 1" m]
      with_fraction_number[OF zero nil]
    by (simp add: general_text_def Let_def)
qed

lemma significant_pos:
  assumes "x \<noteq> 0" "0 < p" shows "0 < fst (significant p x)"
proof -
  let ?e = "\<lfloor>log 10 \<bar>x\<bar>\<rfloor>"
  have "10 powr of_int ?e \<le> 10 powr log 10 \<bar>x\<bar>" by (rule powr_mono) simp_all
  then have le: "10 powr of_int ?e \<le> \<bar>x\<bar>" using assms by simp
  have "1 \<le> (10::real) powr of_int (int p - 1)" using assms(2) by (intro ge_one_powr_ge_zero) simp_all
  also have "\<dots> = 10 powr of_int ?e * 10 powr of_int (int p - 1 - ?e)"
    by (simp add: powr_add[symmetric])
  also have "\<dots> \<le> \<bar>x\<bar> * 10 powr of_int (int p - 1 - ?e)" by (rule mult_right_mono[OF le]) simp
  finally have "rne 1 \<le> rne (\<bar>x\<bar> * 10 powr of_int (int p - 1 - ?e))" by (rule rne_mono)
  then have "0 < nat (rne (\<bar>x\<bar> * 10 powr of_int (int p - 1 - ?e)))" using rne_of_int[of 1] by simp
  then show ?thesis
    using floor_log_eq [of 10 "\<bar>x\<bar>"] base_powr_eq [of 10] assms(1) by (simp add: significant_def Let_def)
qed

lemma json_number_ostream_double:
  assumes "isfinite x" "0 < p" shows "json_number (ostream_double p x)"
proof (cases x)
  case (Fin r)
  show ?thesis
  proof (cases "r = 0")
    case True
    then show ?thesis using json_number_to_string[of 0] by (simp add: Fin)
  next
    case False
    obtain m e where me: "significant p r = (m, e)" by fastforce
    then have "0 < m" using significant_pos[OF False assms(2)] by simp
    from general_text_number[OF this] show ?thesis by (simp add: Fin False me json_number_def)
  qed
qed (use assms in simp_all)

section \<open>Values\<close>

text \<open>\<open>JLine\<close> is a value written with a newline after it.\<close>

datatype json =
  JNull | JBool bool | JNum string | JStr string | JArr "json list" | JObj "(string \<times> json) list" | JLine json

fun intersperse_comma :: "string list \<Rightarrow> string" where
  "intersperse_comma [] = []"
| "intersperse_comma [s] = s"
| "intersperse_comma (s # t # ss) = s @ CHR '','' # intersperse_comma (t # ss)"

fun render :: "json \<Rightarrow> string" where
  "render JNull = ''null''"
| "render (JBool b) = json_bool b"
| "render (JNum s) = s"
| "render (JStr s) = json_string s"
| "render (JArr vs) = ''['' @ intersperse_comma (map render vs) @ '']''"
| "render (JObj ms) = ''{'' @ intersperse_comma (map (\<lambda>(k, v). json_string k @ '':'' @ render v) ms) @ ''}''"
| "render (JLine v) = render v @ ''\<newline>''"

text \<open>The value a reader gets: the encoder drops some control bytes of strings.\<close>

fun json_kept :: "json \<Rightarrow> json" where
  "json_kept (JStr s) = JStr (filter kept_byte s)"
| "json_kept (JArr vs) = JArr (map json_kept vs)"
| "json_kept (JObj ms) = JObj (map (\<lambda>(k, v). (filter kept_byte k, json_kept v)) ms)"
| "json_kept (JLine v) = json_kept v"
| "json_kept v = v"

fun json_wf :: "json \<Rightarrow> bool" where
  "json_wf (JNum s) = json_number s"
| "json_wf (JArr vs) = list_all json_wf vs"
| "json_wf (JObj ms) = list_all (\<lambda>(k, v). json_wf v) ms"
| "json_wf (JLine v) = json_wf v"
| "json_wf v = True"

definition number_end :: "string \<Rightarrow> bool" where
  "number_end rest \<longleftrightarrow> rest = [] \<or> \<not> is_digit (hd rest) \<and> hd rest \<notin> set ''.eE+-''"

definition json_ws :: "char \<Rightarrow> bool" where
  "json_ws c \<longleftrightarrow> c \<in> {CHR 0x20, CHR 0x09, CHR 0x0A, CHR 0x0D}"

text \<open>The three relations read a value, the rest of an array after its bracket or a comma, and the
  rest of an object.  White space may follow a value.\<close>

inductive reads :: "string \<Rightarrow> json \<Rightarrow> string \<Rightarrow> bool"
  and items :: "string \<Rightarrow> json list \<Rightarrow> string \<Rightarrow> bool"
  and members :: "string \<Rightarrow> (string \<times> json) list \<Rightarrow> string \<Rightarrow> bool" where
  r_null: "reads (''null'' @ r) JNull r"
| r_true: "reads (''true'' @ r) (JBool True) r"
| r_false: "reads (''false'' @ r) (JBool False) r"
| r_num: "json_number s \<Longrightarrow> number_end r \<Longrightarrow> reads (s @ r) (JNum s) r"
| r_str: "json_unquote s = Some (v, r) \<Longrightarrow> reads (CHR 0x22 # s) (JStr v) r"
| r_ws: "reads s v (c # r) \<Longrightarrow> json_ws c \<Longrightarrow> reads s v r"
| r_arr0: "reads (CHR ''['' # CHR '']'' # r) (JArr []) r"
| r_arr: "items s vs r \<Longrightarrow> reads (CHR ''['' # s) (JArr vs) r"
| r_item1: "reads s v (CHR '']'' # r) \<Longrightarrow> items s [v] r"
| r_item: "reads s v (CHR '','' # t) \<Longrightarrow> items t vs r \<Longrightarrow> items s (v # vs) r"
| r_obj0: "reads (CHR ''{'' # CHR ''}'' # r) (JObj []) r"
| r_obj: "members s ms r \<Longrightarrow> reads (CHR ''{'' # s) (JObj ms) r"
| r_member1:
    "json_unquote s = Some (k, CHR '':'' # t) \<Longrightarrow> reads t v (CHR ''}'' # r) \<Longrightarrow>
     members (CHR 0x22 # s) [(k, v)] r"
| r_member:
    "json_unquote s = Some (k, CHR '':'' # t) \<Longrightarrow> reads t v (CHR '','' # u) \<Longrightarrow> members u ms r \<Longrightarrow>
     members (CHR 0x22 # s) ((k, v) # ms) r"

lemma unquote_json_string: "\<exists>s. json_string v @ r = CHR 0x22 # s \<and> json_unquote s = Some (filter kept_byte v, r)"
  by (simp add: json_string_def json_unquote_json_chars)

lemma number_end_sep: "c \<in> {CHR '','', CHR '']'', CHR ''}'', CHR 0x0A} \<Longrightarrow> number_end (c # r)"
  by (auto simp: number_end_def is_digit_def)

lemma items_render:
  assumes "\<And>v r. v \<in> set vs \<Longrightarrow> number_end r \<Longrightarrow> reads (render v @ r) (json_kept v) r" "vs \<noteq> []"
  shows "items (intersperse_comma (map render vs) @ CHR '']'' # r) (map json_kept vs) r"
  using assms
proof (induction vs rule: induct_list012)
  case (2 v)
  then show ?case by (simp add: r_item1 number_end_sep)
next
  case (3 v w vs)
  let ?t = "intersperse_comma (map render (w # vs)) @ CHR '']'' # r"
  have "items ?t (map json_kept (w # vs)) r" using 3 by (simp del: intersperse_comma.simps)
  moreover have "reads (render v @ CHR '','' # ?t) (json_kept v) (CHR '','' # ?t)"
    using 3(3) by (simp add: number_end_sep del: intersperse_comma.simps)
  ultimately show ?case by (auto dest: r_item)
qed simp

lemma members_render:
  assumes "\<And>k v r. (k, v) \<in> set ms \<Longrightarrow> number_end r \<Longrightarrow> reads (render v @ r) (json_kept v) r" "ms \<noteq> []"
  shows "members (intersperse_comma (map (\<lambda>(k, v). json_string k @ '':'' @ render v) ms) @ CHR ''}'' # r)
           (map (\<lambda>(k, v). (filter kept_byte k, json_kept v)) ms) r"
  using assms
proof (induction ms rule: induct_list012)
  case (2 kv)
  obtain k v where kv: "kv = (k, v)" by fastforce
  have "reads (render v @ CHR ''}'' # r) (json_kept v) (CHR ''}'' # r)"
    using 2(1)[of k v] by (simp add: kv number_end_sep)
  moreover obtain s where "json_string k @ CHR '':'' # render v @ CHR ''}'' # r = CHR 0x22 # s"
    "json_unquote s = Some (filter kept_byte k, CHR '':'' # render v @ CHR ''}'' # r)"
    using unquote_json_string by blast
  ultimately show ?case by (simp add: kv r_member1)
next
  case (3 kv m2 ms)
  obtain k v where kv: "kv = (k, v)" by fastforce
  let ?t = "intersperse_comma (map (\<lambda>(k, v). json_string k @ '':'' @ render v) (m2 # ms)) @ CHR ''}'' # r"
  have "members ?t (map (\<lambda>(k, v). (filter kept_byte k, json_kept v)) (m2 # ms)) r"
  proof (rule 3(2))
    show "reads (render v @ r) (json_kept v) r" if "(k, v) \<in> set (m2 # ms)" "number_end r" for k v r
      using 3(3)[of k v r] that by simp
  qed simp
  moreover have "reads (render v @ CHR '','' # ?t) (json_kept v) (CHR '','' # ?t)"
    using 3(3)[of k v] by (simp add: kv number_end_sep del: intersperse_comma.simps)
  moreover obtain s where "json_string k @ CHR '':'' # render v @ CHR '','' # ?t = CHR 0x22 # s"
    "json_unquote s = Some (filter kept_byte k, CHR '':'' # render v @ CHR '','' # ?t)"
    using unquote_json_string by blast
  ultimately show ?case by (simp add: kv r_member)
qed simp

lemma reads_render:
  "json_wf v \<Longrightarrow> number_end r \<Longrightarrow> reads (render v @ r) (json_kept v) r"
proof (induction v arbitrary: r)
  case JNull
  then show ?case using r_null by simp
next
  case (JBool b)
  then show ?case using r_true r_false by (simp add: json_bool_def)
next
  case (JNum s)
  then show ?case by (simp add: r_num)
next
  case (JStr s)
  then show ?case using unquote_json_string[of s r] by (auto intro: r_str)
next
  case (JArr vs)
  then show ?case
    by (cases "vs = []") (auto simp: list_all_iff r_arr0 intro!: r_arr items_render)
next
  case (JObj ms)
  have "reads (render v @ r) (json_kept v) r" if "(k, v) \<in> set ms" "number_end r" for k v r
    using JObj.IH[OF that(1), of v r] JObj.prems(1) that by (auto simp: list_all_iff)
  then show ?case
    by (cases "ms = []") (auto simp: r_obj0 intro!: r_obj members_render[simplified])
next
  case (JLine v)
  then have "reads (render v @ CHR 0x0A # r) (json_kept v) (CHR 0x0A # r)" by (simp add: number_end_sep)
  then show ?case by (auto intro: r_ws simp: json_ws_def)
qed

text \<open>A document: a value and nothing after it but white space.\<close>

definition document :: "string \<Rightarrow> json \<Rightarrow> bool" where
  "document s v \<longleftrightarrow> reads s v []"

lemma document_render: "json_wf v \<Longrightarrow> document (render v) (json_kept v)"
  using reads_render[of v "[]"] by (simp add: document_def number_end_def)

end
