(* ===== verification/Alerts.thy ===== *)
theory Alerts
  imports Yolo_Postprocess Health Json_Value
begin

text \<open>
  \<^verbatim>\<open>include/skai/alerts\<close> and \<^verbatim>\<open>src/alerts/alert_manager.cpp\<close>:
  which detections of a frame match a rule, when a rule raises an alert, and how the snapshot and
  the metadata of an alert are stored.  What the disk, the JPEG encoder and the alert repository
  answer is given to \<open>persist\<close>; the text of the published event is not modelled.
\<close>

section \<open>Data\<close>

record alert_detection =
  ad_class_id :: int
  ad_class_name :: string
  ad_confidence :: fp
  ad_x1 :: fp
  ad_y1 :: fp
  ad_x2 :: fp
  ad_y2 :: fp

record alert_event =
  ae_id :: string
  ae_timestamp_ms :: int
  ae_gps :: "gps_fix option"
  ae_snapshot_path :: string
  ae_frame_sequence :: u64
  ae_model_version :: "string option"
  ae_detections :: "alert_detection list"

record rule_state =
  rs_rule :: alert_rule_config
  consecutive :: int
  last_alert :: "time_point option"

record snapshot_frame =
  sf_width :: int
  sf_height :: int
  sf_stride :: int
  sf_bytes :: nat

section \<open>Matching\<close>

definition class_name :: "int \<Rightarrow> string list \<Rightarrow> string" where
  "class_name class_id names =
     (if class_id \<ge> 0 \<and> nat class_id < length names then names ! nat class_id
      else ''class_'' @ int_to_string class_id)"

text \<open>The centre: the sum is single precision, the rest double.\<close>

definition box_center :: "fp \<Rightarrow> fp \<Rightarrow> int \<Rightarrow> fp" where
  "box_center a b extent =
     fp_div round64 (fp_mul round64 (fp_add round32 a b) (Fin (1/2))) (Fin (of_int extent))"

definition in_roi :: "detection \<Rightarrow> int \<Rightarrow> int \<Rightarrow> alert_roi option \<Rightarrow> bool" where
  "in_roi d width height roi =
     (case roi of
        None \<Rightarrow> True
      | Some r \<Rightarrow>
          if width \<le> 0 \<or> height \<le> 0 then False
          else let center_x = box_center (det_x1 d) (det_x2 d) width;
                   center_y = box_center (det_y1 d) (det_y2 d) height
               in fp_le (roi_x1 r) center_x \<and> fp_le center_x (roi_x2 r) \<and>
                  fp_le (roi_y1 r) center_y \<and> fp_le center_y (roi_y2 r))"

record frame_input =
  fi_result :: detection_result
  fi_width :: int
  fi_height :: int
  fi_names :: "string list"
  fi_generation :: u64
  fi_wall_ms :: int
  fi_time :: time_point

definition matches :: "frame_input \<Rightarrow> alert_rule_config \<Rightarrow> detection \<Rightarrow> bool" where
  "matches inp rule d \<longleftrightarrow>
     \<not> (\<not> isfinite (det_confidence d) \<or> \<not> isfinite (det_x1 d) \<or> \<not> isfinite (det_y1 d) \<or>
        \<not> isfinite (det_x2 d) \<or> \<not> isfinite (det_y2 d) \<or>
        class_name (det_class d) (fi_names inp) \<noteq> rule_class rule \<or>
        fp_less (det_confidence d) (rule_confidence rule) \<or>
        \<not> in_roi d (fi_width inp) (fi_height inp) (rule_roi rule))"

definition matching :: "frame_input \<Rightarrow> alert_rule_config \<Rightarrow> alert_detection list" where
  "matching inp rule =
     map (\<lambda>d. \<lparr>ad_class_id = det_class d, ad_class_name = class_name (det_class d) (fi_names inp),
               ad_confidence = det_confidence d, ad_x1 = det_x1 d, ad_y1 = det_y1 d, ad_x2 = det_x2 d,
               ad_y2 = det_y2 d\<rparr>)
       (filter (matches inp rule) (detections (fi_result inp)))"

section \<open>The published event\<close>

definition detection_json :: "alert_detection \<Rightarrow> string" where
  \<open>detection_json d =
     ''{"class_id":'' @ int_to_string (ad_class_id d) @
     '',"class_name":'' @ json_string (ad_class_name d) @
     '',"confidence":'' @ ostream_double 17 (ad_confidence d) @
     '',"box":['' @ ostream_double 17 (ad_x1 d) @ '','' @ ostream_double 17 (ad_y1 d) @ '','' @
     ostream_double 17 (ad_x2 d) @ '','' @ ostream_double 17 (ad_y2 d) @ '']}''\<close>

definition event_data :: "alert_event \<Rightarrow> string" where
  \<open>event_data e =
     ''{"id":'' @ json_string (ae_id e) @
     '',"frame_sequence":'' @ to_string (unat (ae_frame_sequence e)) @
     '',"timestamp_ms":'' @ int_to_string (ae_timestamp_ms e) @
     '',"detections":['' @ intersperse_comma (map detection_json (ae_detections e)) @ '']'' @
     (case ae_gps e of
        Some g \<Rightarrow>
          (if fix_valid g then
             '',"gps_valid":true,"gps_source":'' @ json_string (fix_source g) @
             '',"latitude":'' @ ostream_double 17 (fix_latitude g) @
             '',"longitude":'' @ ostream_double 17 (fix_longitude g) @
             '',"altitude_m":'' @ ostream_double 17 (fix_altitude_m g)
           else '',"gps_valid":false,"gps_source":"none"'')
      | None \<Rightarrow> '',"gps_valid":false,"gps_source":"none"'') @ ''}''\<close>

section \<open>Storing\<close>

datatype imwrite_outcome = Written | Not_written | Cv_threw string

record persist_env =
  pe_date :: "int \<Rightarrow> string"
  pe_mkdir_error :: "string option"
  pe_imwrite :: imwrite_outcome
  pe_sync_file_error :: "string option"
  pe_rename_error :: "string option"
  pe_sync_dir_error :: "string option"
  pe_insert :: "alert_event \<Rightarrow> string option"
  pe_cleanup_error :: "string option"

definition persist :: "persist_env \<Rightarrow> string \<Rightarrow> snapshot_frame \<Rightarrow> alert_event \<Rightarrow> string + alert_event" where
  "persist env dir fr alert =
     (if dir = [] \<or> sf_width fr \<le> 0 \<or> sf_height fr \<le> 0 \<or> sf_stride fr < sf_width fr * 3 \<or>
         sf_bytes fr < nat (sf_stride fr) * nat (sf_height fr)
      then Inl ''invalid snapshot directory or frame''
      else
        let directory = path_join dir (pe_date env (trunc_div (ae_timestamp_ms alert) 1000));
            final_path = path_join directory (ae_id alert @ ''.jpg'')
        in case pe_mkdir_error env of
             Some e \<Rightarrow> Inl (''could not create alert directory: '' @ e)
           | None \<Rightarrow> (case pe_imwrite env of
               Not_written \<Rightarrow> Inl ''could not encode alert snapshot''
             | Cv_threw e \<Rightarrow> Inl (''could not encode alert snapshot: '' @ e)
             | Written \<Rightarrow> (case pe_sync_file_error env of
                 Some e \<Rightarrow> Inl e
               | None \<Rightarrow> (case pe_rename_error env of
                   Some e \<Rightarrow> Inl (''could not publish alert snapshot: '' @ e)
                 | None \<Rightarrow> (case pe_sync_dir_error env of
                     Some e \<Rightarrow> Inl e
                   | None \<Rightarrow>
                       (let stored = alert\<lparr>ae_snapshot_path := final_path\<rparr> in
                        case pe_insert env stored of
                          None \<Rightarrow> Inr stored
                        | Some e \<Rightarrow>
                            Inl (''could not insert alert metadata: '' @ e @
                              (case pe_cleanup_error env of
                                 None \<Rightarrow> []
                               | Some m \<Rightarrow> ''; snapshot cleanup failed: '' @ m))))))))"

section \<open>AlertManager\<close>

record alert_manager =
  am_rules :: "rule_state list"
  am_generation :: "u64 option"
  am_next_id :: u64
  am_gps :: "gps_fix option"
  am_has_repository :: bool
  am_directory :: string
  am_model_version :: string
  am_errors :: "string list"
  am_has_events :: bool
  am_published :: "string list"

definition am_configure :: "alert_rule_config list \<Rightarrow> string \<Rightarrow> string \<Rightarrow> alert_manager \<Rightarrow> alert_manager" where
  "am_configure rules dir version m =
     m\<lparr>am_rules := map (\<lambda>r. \<lparr>rs_rule = r, consecutive = 0, last_alert = None\<rparr>) rules,
       am_generation := None, am_directory := dir, am_model_version := version\<rparr>"

definition make_alert :: "alert_manager \<Rightarrow> frame_input \<Rightarrow> nat \<Rightarrow> alert_rule_config \<Rightarrow> alert_event" where
  "make_alert m inp rule_index rule =
     \<lparr>ae_id = ''alert-'' @ int_to_string (fi_wall_ms inp) @ ''-'' @
        to_string (unat (frame_sequence (fi_result inp))) @ ''-'' @ to_string rule_index @ ''-'' @
        to_string (unat (am_next_id m)),
      ae_timestamp_ms = fi_wall_ms inp, ae_gps = am_gps m, ae_snapshot_path = [],
      ae_frame_sequence = frame_sequence (fi_result inp),
      ae_model_version = (if am_model_version m = [] then None else Some (am_model_version m)),
      ae_detections = matching inp rule\<rparr>"

definition store_alert ::
    "(alert_event \<Rightarrow> persist_env) \<Rightarrow> snapshot_frame option \<Rightarrow> alert_manager \<Rightarrow> alert_event \<Rightarrow> string + alert_event" where
  "store_alert env fr m alert =
     (if \<not> am_has_repository m then Inr alert
      else case fr of
        None \<Rightarrow> Inl ''snapshot frame is unavailable''
      | Some f \<Rightarrow> persist (env alert) (am_directory m) f alert)"

definition publish_alert :: "alert_event \<Rightarrow> alert_manager \<Rightarrow> alert_manager" where
  "publish_alert alert m =
     (if am_has_events m then m\<lparr>am_published := am_published m @ [event_data alert]\<rparr> else m)"

text \<open>The body of the loop over the rules: the alert, if any, and the new rule state.\<close>

definition process_rule ::
    "(alert_event \<Rightarrow> persist_env) \<Rightarrow> snapshot_frame option \<Rightarrow> frame_input \<Rightarrow> nat \<Rightarrow> rule_state \<Rightarrow> alert_manager \<Rightarrow>
     alert_event option \<times> rule_state \<times> alert_manager" where
  "process_rule env fr inp rule_index st m =
     (let rule = rs_rule st in
      if matching inp rule = [] then (None, st\<lparr>consecutive := 0\<rparr>, m)
      else
        let st1 = st\<lparr>consecutive := min (consecutive st + 1) (consecutive_frames rule)\<rparr> in
        if consecutive st1 < consecutive_frames rule then (None, st1, m)
        else if (case last_alert st1 of
                   None \<Rightarrow> False
                 | Some t \<Rightarrow> fi_time inp - t < seconds (cooldown_seconds rule))
        then (None, st1, m)
        else
          let m1 = m\<lparr>am_next_id := am_next_id m + 1\<rparr> in
          case store_alert env fr m (make_alert m inp rule_index rule) of
            Inl e \<Rightarrow> (None, st1, m1\<lparr>am_errors := am_errors m1 @ [e]\<rparr>)
          | Inr alert \<Rightarrow>
              (Some alert, st1\<lparr>consecutive := 0, last_alert := Some (fi_time inp)\<rparr>, publish_alert alert m1))"

text \<open>The loop; the alerts stand at the positions of their rules.\<close>

fun process_rules ::
    "(alert_event \<Rightarrow> persist_env) \<Rightarrow> snapshot_frame option \<Rightarrow> frame_input \<Rightarrow> nat \<Rightarrow> rule_state list \<Rightarrow> alert_manager \<Rightarrow>
     alert_event option list \<times> rule_state list \<times> alert_manager" where
  "process_rules env fr inp i [] m = ([], [], m)"
| "process_rules env fr inp i (st # sts) m =
     (let (a, st', m') = process_rule env fr inp i st m;
          (as, sts', m'') = process_rules env fr inp (Suc i) sts m'
      in (a # as, st' # sts', m''))"

definition reset_streaks :: "u64 \<Rightarrow> alert_manager \<Rightarrow> alert_manager" where
  "reset_streaks generation m =
     (if am_generation m \<noteq> Some generation
      then m\<lparr>am_rules := map (\<lambda>st. st\<lparr>consecutive := 0\<rparr>) (am_rules m), am_generation := Some generation\<rparr>
      else m)"

definition process_all ::
    "(alert_event \<Rightarrow> persist_env) \<Rightarrow> snapshot_frame option \<Rightarrow> frame_input \<Rightarrow> alert_manager \<Rightarrow>
     alert_event option list \<times> alert_manager" where
  "process_all env fr inp m =
     (let m1 = reset_streaks (fi_generation inp) m;
          (outcomes, sts, m2) = process_rules env fr inp 0 (am_rules m1) m1
      in (outcomes, m2\<lparr>am_rules := sts\<rparr>))"

definition process ::
    "(alert_event \<Rightarrow> persist_env) \<Rightarrow> snapshot_frame option \<Rightarrow> frame_input \<Rightarrow> alert_manager \<Rightarrow> alert_event list \<times> alert_manager" where
  "process env fr inp m =
     (let (outcomes, m') = process_all env fr inp m in (List.map_filter (\<lambda>x. x) outcomes, m'))"

section \<open>When a rule fires\<close>

text \<open>
  One frame as a rule sees it: whether the detector was restarted, whether a detection matched,
  the time, whether an alert was raised.  A history is newest first.  The streak of a history is
  the number of its newest frames that matched in one detector generation since the last alert.
\<close>

record rule_frame =
  rf_restart :: bool
  rf_matched :: bool
  rf_at :: time_point
  rf_fired :: bool

fun streak :: "rule_frame list \<Rightarrow> nat" where
  "streak [] = 0"
| "streak (x # h) =
     (if rf_fired x \<or> \<not> rf_matched x then 0 else if rf_restart x then 1 else Suc (streak h))"

fun last_fired :: "rule_frame list \<Rightarrow> time_point option" where
  "last_fired [] = None"
| "last_fired (x # h) = (if rf_fired x then Some (rf_at x) else last_fired h)"

definition should_fire :: "alert_rule_config \<Rightarrow> rule_frame list \<Rightarrow> bool \<Rightarrow> bool \<Rightarrow> time_point \<Rightarrow> bool" where
  "should_fire rule h restart matched now \<longleftrightarrow>
     matched \<and> consecutive_frames rule \<le> int (if restart then 1 else Suc (streak h)) \<and>
     (case last_fired h of None \<Rightarrow> True | Some t \<Rightarrow> seconds (cooldown_seconds rule) \<le> now - t)"

definition tracks :: "alert_rule_config \<Rightarrow> rule_frame list \<Rightarrow> rule_state \<Rightarrow> bool" where
  "tracks rule h st \<longleftrightarrow> rs_rule st = rule \<and>
     consecutive st = min (int (streak h)) (consecutive_frames rule) \<and> last_alert st = last_fired h"

text \<open>The state of a rule before its turn in a frame.\<close>

definition at_frame :: "bool \<Rightarrow> rule_state \<Rightarrow> rule_state" where
  "at_frame restart st = (if restart then st\<lparr>consecutive := 0\<rparr> else st)"

lemma process_rule_tracks:
  assumes "tracks rule h st" and "1 \<le> consecutive_frames rule"
    and "process_rule env fr inp i (at_frame restart st) m = (a, st', m')"
  defines "wants \<equiv> should_fire rule h restart (matching inp rule \<noteq> []) (fi_time inp)"
    and "stored \<equiv> store_alert env fr m (make_alert m inp i rule)"
  shows "a = (if wants then (case stored of Inl e \<Rightarrow> None | Inr x \<Rightarrow> Some x) else None) \<and>
    tracks rule (\<lparr>rf_restart = restart, rf_matched = matching inp rule \<noteq> [], rf_at = fi_time inp,
                  rf_fired = (a \<noteq> None)\<rparr> # h) st'"
proof -
  let ?n = "if restart then 1 else Suc (streak h)"
  have st: "rs_rule (at_frame restart st) = rule" "last_alert (at_frame restart st) = last_fired h"
    "min (consecutive (at_frame restart st) + 1) (consecutive_frames rule) = min (int ?n) (consecutive_frames rule)"
    using assms(1,2) by (auto simp: tracks_def at_frame_def)
  show ?thesis
  proof (cases "matching inp rule = []")
    case True
    then show ?thesis
      using assms(1-3) st by (auto simp: process_rule_def tracks_def wants_def should_fire_def Let_def at_frame_def)
  next
    case matched: False
    show ?thesis
    proof (cases wants)
      case True
      then have full: "\<not> min (int ?n) (consecutive_frames rule) < consecutive_frames rule"
        and cool: "\<not> (case last_fired h of None \<Rightarrow> False | Some t \<Rightarrow> fi_time inp - t < seconds (cooldown_seconds rule))"
        by (auto simp: wants_def should_fire_def split: option.splits)
      then have "(a, st', m') = (let m1 = m\<lparr>am_next_id := am_next_id m + 1\<rparr>;
            st1 = (at_frame restart st)\<lparr>consecutive := min (int ?n) (consecutive_frames rule)\<rparr> in
          case stored of Inl e \<Rightarrow> (None, st1, m1\<lparr>am_errors := am_errors m1 @ [e]\<rparr>)
          | Inr alert \<Rightarrow>
              (Some alert, st1\<lparr>consecutive := 0, last_alert := Some (fi_time inp)\<rparr>, publish_alert alert m1))"
        using assms(3) matched st by (simp add: process_rule_def stored_def Let_def)
      then show ?thesis
        using True matched st assms(2) by (cases stored) (auto simp: tracks_def Let_def)
    next
      case False
      then have "(a, st') = (None, (at_frame restart st)\<lparr>consecutive := min (int ?n) (consecutive_frames rule)\<rparr>)"
        using assms(3) matched st
        by (auto simp: process_rule_def wants_def should_fire_def Let_def split: option.splits if_splits)
      then show ?thesis using False matched st by (auto simp: tracks_def)
    qed
  qed
qed

section \<open>The manager\<close>

definition rule_frame_of :: "bool \<Rightarrow> frame_input \<Rightarrow> alert_rule_config \<Rightarrow> alert_event option \<Rightarrow> rule_frame" where
  "rule_frame_of restart inp rule a =
     \<lparr>rf_restart = restart, rf_matched = matching inp rule \<noteq> [], rf_at = fi_time inp, rf_fired = (a \<noteq> None)\<rparr>"

lemma process_rule_repository:
  "process_rule env fr inp i st m = (a, st', m') \<Longrightarrow> am_has_repository m' = am_has_repository m"
  by (auto simp: process_rule_def publish_alert_def Let_def split: if_splits sum.splits)

abbreviation fires_ok ::
    "bool \<Rightarrow> frame_input \<Rightarrow> bool \<Rightarrow> alert_rule_config \<Rightarrow> rule_frame list \<Rightarrow> alert_event option \<Rightarrow> bool" where
  "fires_ok restart inp repository rule h a \<equiv>
     (let wants = should_fire rule h restart (matching inp rule \<noteq> []) (fi_time inp)
      in (a \<noteq> None \<longrightarrow> wants) \<and> (wants \<and> \<not> repository \<longrightarrow> a \<noteq> None))"

lemma process_rules_track:
  assumes "process_rules env fr inp i (map (at_frame restart) sts) m = (outs, sts', m')"
    and "length rules = length sts" and "length hs = length sts"
    and "\<forall>k < length sts. tracks (rules ! k) (hs ! k) (sts ! k) \<and> 1 \<le> consecutive_frames (rules ! k)"
  shows "length outs = length sts \<and> length sts' = length sts \<and> am_has_repository m' = am_has_repository m \<and>
    (\<forall>k < length sts. tracks (rules ! k) (rule_frame_of restart inp (rules ! k) (outs ! k) # hs ! k) (sts' ! k) \<and>
       fires_ok restart inp (am_has_repository m) (rules ! k) (hs ! k) (outs ! k))"
  using assms
proof (induction sts arbitrary: rules hs i m outs sts' m')
  case (Cons st sts)
  obtain rule rules0 h hs0 where rh: "rules = rule # rules0" "hs = h # hs0"
    using Cons.prems(2,3) by (metis length_Suc_conv)
  obtain a st1 m1 where one: "process_rule env fr inp i (at_frame restart st) m = (a, st1, m1)"
    by (metis prod_cases3)
  obtain outs0 sts0 m2 where rest: "process_rules env fr inp (Suc i) (map (at_frame restart) sts) m1 = (outs0, sts0, m2)"
    by (metis prod_cases3)
  have res: "outs = a # outs0" "sts' = st1 # sts0" "m' = m2" using Cons.prems(1) one rest by auto
  have tr: "tracks rule h st" "1 \<le> consecutive_frames rule" using Cons.prems(4) rh by auto
  have repo: "am_has_repository m1 = am_has_repository m" by (rule process_rule_repository [OF one])
  from process_rule_tracks [OF tr one] have first:
    "tracks rule (rule_frame_of restart inp rule a # h) st1 \<and> fires_ok restart inp (am_has_repository m) rule h a"
    by (auto simp: rule_frame_of_def store_alert_def Let_def split: if_splits sum.splits)
  have "\<forall>k < length sts. tracks (rules0 ! k) (hs0 ! k) (sts ! k) \<and> 1 \<le> consecutive_frames (rules0 ! k)"
    using Cons.prems(4) rh by auto
  from Cons.IH [OF rest _ _ this] Cons.prems(2,3) rh repo have "length outs0 = length sts \<and> length sts0 = length sts \<and>
      am_has_repository m2 = am_has_repository m \<and>
      (\<forall>k < length sts. tracks (rules0 ! k) (rule_frame_of restart inp (rules0 ! k) (outs0 ! k) # hs0 ! k) (sts0 ! k) \<and>
         fires_ok restart inp (am_has_repository m) (rules0 ! k) (hs0 ! k) (outs0 ! k))"
    by simp
  then show ?case
    using first unfolding rh res list.size(4) add_Suc_right add_0_right All_less_Suc2 nth_Cons_0 nth_Cons_Suc
    by simp
qed simp

inductive alert_run :: "alert_rule_config list \<Rightarrow> alert_manager \<Rightarrow> rule_frame list list \<Rightarrow> bool" for rules where
  configured: "alert_run rules (am_configure rules dir version m0) (map (\<lambda>_. []) rules)"
| processed: "alert_run rules m hs \<Longrightarrow> process_all env fr inp m = (outs, m') \<Longrightarrow>
    hs' = map (\<lambda>k. rule_frame_of (am_generation m \<noteq> Some (fi_generation inp)) inp (rules ! k) (outs ! k) # hs ! k)
            [0..<length rules] \<Longrightarrow>
    alert_run rules m' hs'"

definition manager_tracks :: "alert_rule_config list \<Rightarrow> alert_manager \<Rightarrow> rule_frame list list \<Rightarrow> bool" where
  "manager_tracks rules m hs \<longleftrightarrow> length (am_rules m) = length rules \<and> length hs = length rules \<and>
     (\<forall>k < length rules. tracks (rules ! k) (hs ! k) (am_rules m ! k))"

lemma process_all_tracks:
  assumes "manager_tracks rules m hs" and "\<forall>k < length rules. 1 \<le> consecutive_frames (rules ! k)"
    and "process_all env fr inp m = (outs, m')"
  defines "restart \<equiv> am_generation m \<noteq> Some (fi_generation inp)"
  shows "manager_tracks rules m' (map (\<lambda>k. rule_frame_of restart inp (rules ! k) (outs ! k) # hs ! k)
      [0..<length rules]) \<and> length outs = length rules \<and>
    (\<forall>k < length rules. fires_ok restart inp (am_has_repository m) (rules ! k) (hs ! k) (outs ! k))"
proof -
  let ?m1 = "reset_streaks (fi_generation inp) m"
  have m1: "am_rules ?m1 = map (at_frame restart) (am_rules m)" "am_has_repository ?m1 = am_has_repository m"
    by (auto simp: reset_streaks_def restart_def at_frame_def [abs_def])
  obtain sts m2 where p: "process_rules env fr inp 0 (map (at_frame restart) (am_rules m)) ?m1 = (outs, sts, m2)"
    "m' = m2\<lparr>am_rules := sts\<rparr>"
    using assms(3) m1 by (auto simp: process_all_def Let_def split: prod.splits)
  from process_rules_track [OF p(1), of rules hs] assms(1,2) m1(2) p(2) show ?thesis
    by (simp add: manager_tracks_def)
qed

lemma alert_run_tracks:
  "alert_run rules m hs \<Longrightarrow> \<forall>k < length rules. 1 \<le> consecutive_frames (rules ! k) \<Longrightarrow> manager_tracks rules m hs"
proof (induction rule: alert_run.induct)
  case (configured dir version m0)
  then show ?case by (auto simp: manager_tracks_def am_configure_def tracks_def)
next
  case (processed m hs env fr inp outs m' hs')
  then show ?case using process_all_tracks by blast
qed


definition sample_store :: "alert_event \<Rightarrow> persist_env" where
  "sample_store = (\<lambda>_. \<lparr>pe_date = (\<lambda>_. ''1970-01-01''), pe_mkdir_error = None, pe_imwrite = Written,
     pe_sync_file_error = None, pe_rename_error = None, pe_sync_dir_error = None, pe_insert = (\<lambda>_. None),
     pe_cleanup_error = None\<rparr>)"

definition sample_rule :: alert_rule_config where
  "sample_rule = \<lparr>rule_class = ''person'', rule_confidence = Fin (1/2), consecutive_frames = 1,
     cooldown_seconds = 10, rule_roi = None\<rparr>"

definition sample_manager :: alert_manager where
  "sample_manager = am_configure [sample_rule] [] []
     \<lparr>am_rules = [], am_generation = None, am_next_id = 1, am_gps = None, am_has_repository = False,
      am_directory = [], am_model_version = [], am_errors = [], am_has_events = True, am_published = []\<rparr>"

definition sample_frame :: frame_input where
  "sample_frame = \<lparr>fi_result = \<lparr>frame_sequence = 1, detections = [\<lparr>det_class = 0, det_confidence = Fin (3/4),
       det_x1 = Fin 0, det_y1 = Fin 0, det_x2 = Fin 1, det_y2 = Fin 1\<rparr>]\<rparr>,
     fi_width = 2, fi_height = 2, fi_names = [''person''], fi_generation = 0, fi_wall_ms = 0, fi_time = 0\<rparr>"


end
