(* ===== verification/Api_State.thy ===== *)
theory Api_State
  imports Health
begin

text \<open>
  \<^verbatim>\<open>include/skai/api_state.hpp\<close>: the state the web API shows.  Every method holds the
  mutex for its whole body and is one step.  The \<^verbatim>\<open>RuntimeStatus\<close> behind
  \<^verbatim>\<open>status_\<close> is shared with other modules, so the methods that synchronize it take
  and return it; \<open>status_bound\<close> says whether the pointer is set.  The callback of a commit
  acts on a state \<open>'w\<close> of the caller.
\<close>

section \<open>State\<close>

record public_config_dto =
  video_transport :: string
  video_latency_ms :: int
  video_stall_timeout_ms :: int
  detector_confidence :: fp
  detector_nms :: fp
  detector_annotate :: bool
  dto_web_bind :: string
  dto_web_port :: int
  recording_configured :: bool
  recording_segment_seconds :: int
  gps_enabled :: bool
  dto_gps_source :: string
  webrtc_enabled :: bool
  webrtc_max_peers :: int
  webrtc_connection_timeout_ms :: int
  webrtc_media_queue_capacity :: int

record detection_dto =
  dto_class_id :: int
  dto_class_name :: string
  dto_confidence :: fp
  dto_x1 :: fp
  dto_y1 :: fp
  dto_x2 :: fp
  dto_y2 :: fp

record latest_detections_dto =
  available :: bool
  latest_sequence :: u64
  latest_pts_ns :: u64
  latest_width :: int
  latest_height :: int
  latest_items :: "detection_dto list"

record permit_token =
  permit_enabled :: bool
  permit_generation :: u64

record api_state =
  configured :: bool
  detector_enabled :: bool
  detector_supported :: bool
  detector_generation :: u64
  status_bound :: bool
  api_gps :: "gps_fix option"
  api_config :: public_config_dto
  latest :: latest_detections_dto

definition empty_dto :: public_config_dto where
  "empty_dto =
     \<lparr>video_transport = [], video_latency_ms = 0, video_stall_timeout_ms = 0, detector_confidence = Fin 0,
      detector_nms = Fin 0, detector_annotate = False, dto_web_bind = [], dto_web_port = 0,
      recording_configured = False, recording_segment_seconds = 0, gps_enabled = False, dto_gps_source = [],
      webrtc_enabled = False, webrtc_max_peers = 0, webrtc_connection_timeout_ms = 0,
      webrtc_media_queue_capacity = 0\<rparr>"

definition no_detections :: latest_detections_dto where
  "no_detections =
     \<lparr>available = False, latest_sequence = 0, latest_pts_ns = 0, latest_width = 0, latest_height = 0,
      latest_items = []\<rparr>"

definition new_api_state :: "bool \<Rightarrow> gps_fix option \<Rightarrow> api_state" where
  "new_api_state has_status gps =
     \<lparr>configured = False, detector_enabled = True, detector_supported = True, detector_generation = 0,
      status_bound = has_status, api_gps = gps, api_config = empty_dto, latest = no_detections\<rparr>"

section \<open>Operations\<close>

definition synchronize_runtime_status :: "api_state \<Rightarrow> runtime_status \<Rightarrow> runtime_status" where
  "synchronize_runtime_status a rs =
     (if \<not> status_bound a then rs else set_detector_expected (detector_enabled a) (clear_detector rs))"

abbreviation synchronized :: "api_state \<Rightarrow> runtime_status \<Rightarrow> api_state \<times> runtime_status" where
  "synchronized a rs \<equiv> (a, synchronize_runtime_status a rs)"

definition bind_runtime_status :: "bool \<Rightarrow> api_state \<Rightarrow> runtime_status \<Rightarrow> api_state \<times> runtime_status" where
  "bind_runtime_status present a rs = synchronized (a\<lparr>status_bound := present\<rparr>) rs"

definition public_dto :: "config \<Rightarrow> public_config_dto" where
  "public_dto cfg =
     \<lparr>video_transport = transport (cfg_video cfg),
      video_latency_ms = latency_ms (cfg_video cfg),
      video_stall_timeout_ms = stall_timeout_ms (cfg_video cfg),
      detector_confidence = dc_confidence (cfg_detector cfg),
      detector_nms = dc_nms (cfg_detector cfg),
      detector_annotate = dc_annotate (cfg_detector cfg),
      dto_web_bind = wc_bind (cfg_web cfg),
      dto_web_port = wc_port (cfg_web cfg),
      recording_configured = rc_enabled (cfg_recording cfg),
      recording_segment_seconds = segment_seconds (cfg_recording cfg),
      gps_enabled = gc_enabled (cfg_gps cfg),
      dto_gps_source = gc_source (cfg_gps cfg),
      webrtc_enabled = wrc_enabled (cfg_webrtc cfg),
      webrtc_max_peers = max_peers (cfg_webrtc cfg),
      webrtc_connection_timeout_ms = connection_timeout_ms (cfg_webrtc cfg),
      webrtc_media_queue_capacity = media_queue_capacity (cfg_webrtc cfg)\<rparr>"

definition api_configure :: "config \<Rightarrow> api_state \<Rightarrow> runtime_status \<Rightarrow> api_state \<times> runtime_status" where
  "api_configure cfg a rs =
     synchronized
       (a\<lparr>api_config := public_dto cfg, configured := True, detector_enabled := detector_supported a,
          detector_generation := detector_generation a + 1, latest := no_detections\<rparr>) rs"

definition public_config :: "api_state \<Rightarrow> public_config_dto option" where
  "public_config a = (if \<not> configured a then None else Some (api_config a))"

definition detector_permit :: "api_state \<Rightarrow> permit_token" where
  "detector_permit a = \<lparr>permit_enabled = detector_enabled a, permit_generation = detector_generation a\<rparr>"

definition commit_detections ::
  "permit_token \<Rightarrow> u64 \<Rightarrow> int \<Rightarrow> int \<Rightarrow> u64 \<Rightarrow> detection_dto list \<Rightarrow> ('w \<Rightarrow> 'w) \<Rightarrow> api_state \<Rightarrow> 'w \<Rightarrow>
   bool \<times> api_state \<times> 'w" where
  "commit_detections permit sequence width height pts detections commit a w =
     (if \<not> detector_enabled a \<or> permit_generation permit \<noteq> detector_generation a then (False, a, w)
      else (True,
            a\<lparr>latest := \<lparr>available = True, latest_sequence = sequence, latest_pts_ns = pts,
                         latest_width = width, latest_height = height, latest_items = detections\<rparr>\<rparr>,
            commit w))"

definition invalidate_detections ::
  "permit_token \<Rightarrow> (bool \<Rightarrow> 'w \<Rightarrow> 'w) \<Rightarrow> api_state \<Rightarrow> 'w \<Rightarrow> bool \<times> api_state \<times> 'w" where
  "invalidate_detections permit commit a w =
     (if \<not> detector_enabled a \<or> permit_generation permit \<noteq> detector_generation a then (False, a, w)
      else (True, a\<lparr>latest := no_detections\<rparr>, commit (available (latest a)) w))"

definition set_detector_enabled :: "bool \<Rightarrow> api_state \<Rightarrow> runtime_status \<Rightarrow> api_state \<times> runtime_status" where
  "set_detector_enabled enabled a rs =
     synchronized
       (a\<lparr>detector_enabled := enabled \<and> detector_supported a,
          detector_generation := detector_generation a + 1, latest := no_detections\<rparr>) rs"

definition set_detector_supported :: "bool \<Rightarrow> api_state \<Rightarrow> runtime_status \<Rightarrow> api_state \<times> runtime_status" where
  "set_detector_supported supported a rs =
     (let a1 = a\<lparr>detector_supported := supported\<rparr>;
          a2 = (if \<not> supported
                then a1\<lparr>detector_enabled := False, detector_generation := detector_generation a1 + 1,
                        latest := no_detections\<rparr>
                else a1)
      in synchronized a2 rs)"

section \<open>Interleavings of the threads that use the state\<close>

datatype api_op =
    A_bind bool
  | A_configure config
  | A_enable bool
  | A_support bool
  | A_commit permit_token u64 "detection_dto list" "runtime_status \<Rightarrow> runtime_status"
  | A_invalidate permit_token "runtime_status \<Rightarrow> runtime_status"
  | A_gps "gps_fix option"

fun api_step :: "api_op \<Rightarrow> api_state \<times> runtime_status \<Rightarrow> api_state \<times> runtime_status" where
  "api_step (A_bind b) (a, rs) = bind_runtime_status b a rs"
| "api_step (A_configure cfg) (a, rs) = api_configure cfg a rs"
| "api_step (A_enable e) (a, rs) = set_detector_enabled e a rs"
| "api_step (A_support s) (a, rs) = set_detector_supported s a rs"
| "api_step (A_commit p n ds f) (a, rs) = snd (commit_detections p n 0 0 0 ds f a rs)"
| "api_step (A_invalidate p f) (a, rs) = snd (invalidate_detections p (\<lambda>_. f) a rs)"
| "api_step (A_gps g) (a, rs) = (a\<lparr>api_gps := g\<rparr>, rs)"

definition api_run :: "api_op list \<Rightarrow> api_state \<times> runtime_status \<Rightarrow> api_state \<times> runtime_status" where
  "api_run ops s = fold api_step ops s"

text \<open>The operations that end a generation: a permit issued before one of them is void.\<close>

fun voids_permits :: "api_op \<Rightarrow> bool" where
  "voids_permits (A_configure _) = True"
| "voids_permits (A_enable _) = True"
| "voids_permits (A_support s) = (\<not> s)"
| "voids_permits _ = False"

abbreviation voided :: "api_op list \<Rightarrow> nat" where
  "voided ops \<equiv> length (filter voids_permits ops)"

definition api_inv :: "api_state \<Rightarrow> bool" where
  "api_inv a \<longleftrightarrow>
     (detector_enabled a \<longrightarrow> detector_supported a) \<and>
     (available (latest a) \<longrightarrow> detector_enabled a) \<and>
     (\<not> available (latest a) \<longrightarrow> latest a = no_detections)"

lemmas api_defs =
  bind_runtime_status_def api_configure_def commit_detections_def invalidate_detections_def
  set_detector_enabled_def set_detector_supported_def Let_def

lemma api_step_generation:
  "detector_generation (fst (api_step e s)) = detector_generation (fst s) + (if voids_permits e then 1 else 0)"
  by (cases s; cases e) (simp_all add: api_defs)

lemma api_run_generation:
  "detector_generation (fst (api_run ops s)) = detector_generation (fst s) + of_nat (voided ops)"
proof (induction ops arbitrary: s)
  case (Cons e ops)
  show ?case using Cons[of "api_step e s"] by (simp add: api_run_def api_step_generation)
qed (simp add: api_run_def)

lemma api_step_enabled:
  "\<not> voids_permits e \<Longrightarrow> detector_enabled (fst (api_step e s)) = detector_enabled (fst s)"
  by (cases s; cases e) (simp_all add: api_defs)

lemma api_run_enabled:
  "voided ops = 0 \<Longrightarrow> detector_enabled (fst (api_run ops s)) = detector_enabled (fst s)"
proof (induction ops arbitrary: s)
  case (Cons e ops)
  then show ?case using Cons.IH[of "api_step e s"] by (simp add: api_run_def api_step_enabled split: if_splits)
qed (simp add: api_run_def)

lemma api_step_inv: "api_inv (fst s) \<Longrightarrow> api_inv (fst (api_step e s))"
  by (cases s; cases e) (simp_all add: api_defs api_inv_def no_detections_def)

lemma api_run_inv: "api_inv (fst s) \<Longrightarrow> api_inv (fst (api_run ops s))"
  by (induction ops arbitrary: s) (simp_all add: api_run_def api_step_inv)

lemma of_nat_word_zero: "n < 2 ^ 64 \<Longrightarrow> (of_nat n :: u64) = 0 \<longleftrightarrow> n = 0"
  by (auto simp: word_of_nat_eq_0_iff dest: dvd_imp_le)

section \<open>Properties\<close>

text \<open>results of an inference that was in flight while the detector was switched never reach the
  API.  After any interleaving of operations on a state in which a permit was issued, with fewer than
  2^64 of them ending a generation, a commit under that permit succeeds exactly if the detector was
  enabled when the permit was issued and no switch, reconfiguration or loss of support happened since;
  a refused commit changes nothing and does not run the callback.\<close>

theorem stale_permit_refused:
  assumes "voided ops < 2 ^ 64"
  shows "let a = fst (api_run ops (a0, rs0));
             r = commit_detections (detector_permit a0) n fw fh pts ds commit a w in
         (fst r \<longleftrightarrow> detector_enabled a0 \<and> voided ops = 0) \<and>
         (if fst r then latest_items (latest (fst (snd r))) = ds \<and> snd (snd r) = commit w
          else snd r = (a, w))"
proof -
  define a where "a = fst (api_run ops (a0, rs0))"
  have gen: "detector_generation a = detector_generation a0 + of_nat (voided ops)"
    unfolding a_def using api_run_generation[of ops "(a0, rs0)"] by simp
  have "detector_generation a0 = detector_generation a \<longleftrightarrow> voided ops = 0"
    using of_nat_word_zero[OF assms(1)] by (simp add: gen)
  moreover have "detector_enabled a = detector_enabled a0" if "voided ops = 0"
    unfolding a_def using api_run_enabled[OF that, of "(a0, rs0)"] by simp
  ultimately show ?thesis
    unfolding Let_def a_def[symmetric] by (auto simp: commit_detections_def detector_permit_def)
qed

theorem stale_permit_refused_witness:
  "\<not> fst (commit_detections (detector_permit (new_api_state True None)) 7 640 480 0 [] Suc
            (fst (api_run [A_enable False, A_enable True] (new_api_state True None, new_status))) 3)"
  using stale_permit_refused[of "[A_enable False, A_enable True]" "new_api_state True None" new_status
      7 640 480 0 "[]" Suc 3]
  unfolding Let_def by simp

text \<open>whatever the threads do, the detector is enabled only while it is supported, detections are
  shown only while it is enabled, and the runtime status, once bound, expects a detector exactly if it
  is enabled after each switch of the API state.\<close>

theorem api_state_consistent:
  "api_inv (fst (api_run ops (new_api_state b g, rs))) \<and>
   detector_expected (snd (set_detector_enabled e a rs)) =
     (if status_bound a then e \<and> detector_supported a else detector_expected rs)"
proof
  show "api_inv (fst (api_run ops (new_api_state b g, rs)))"
    by (rule api_run_inv) (simp add: api_inv_def new_api_state_def no_detections_def)
qed (simp add: api_defs synchronize_runtime_status_def set_detector_expected_def clear_detector_def)

end
