(* ===== verification/Api_Json.thy ===== *)
theory Api_Json
  imports Api_State Alerts Event_Channel
begin

text \<open>
  The JSON bodies of \<^verbatim>\<open>src/web/router.cpp\<close> and the snapshots they print
  (\<^verbatim>\<open>include/skai/metrics.hpp\<close>,
  \<^verbatim>\<open>include/skai/webrtc/webrtc_manager.hpp\<close>).  Each function writes the text piece by
  piece, as the source does; the lemmas \<open>*_render\<close> say which JSON value it is, and
  \<open>api_bodies_are_json\<close> that a JSON reader gets exactly that value.
\<close>

section \<open>Snapshots\<close>

record webrtc_peer_diagnostics =
  pd_session_id :: string
  pd_peer_state :: string
  pd_ice_state :: string
  pd_local_candidate :: string
  pd_local_interface :: string
  pd_selected_interface :: string
  pd_connection_age_s :: u64
  pd_bytes_sent :: u64
  pd_packets_sent :: u64
  pd_packets_retransmitted :: u64
  pd_media_queue_drops :: u64
  pd_keyframe_events :: u64
  pd_failure_stage :: string
  pd_close_reason :: string
  pd_last_error :: string

record webrtc_diagnostics = webrtc_media +
  wd_keyframe_cached :: bool
  wd_lan_only :: bool
  wd_max_peers :: nat
  wd_sessions_created :: u64
  wd_sessions_closed :: u64
  wd_signaling_errors :: u64
  wd_media_errors :: u64
  wd_last_close_reason :: string
  wd_peers :: "webrtc_peer_diagnostics list"
  wd_recently_closed :: "webrtc_peer_diagnostics list"

definition no_webrtc :: webrtc_diagnostics where
  "no_webrtc =
     \<lparr>wd_enabled = False, wd_media_available = True, wd_media_unavailable_reason = [],
      wd_keyframe_cached = False, wd_lan_only = True, wd_max_peers = 0, wd_sessions_created = 0,
      wd_sessions_closed = 0, wd_signaling_errors = 0, wd_media_errors = 0, wd_last_close_reason = [],
      wd_peers = [], wd_recently_closed = []\<rparr>"

record system_metrics =
  memory_rss_bytes :: "u64 option"
  cpu_percent :: "fp option"
  gpu_percent :: "fp option"
  disk_free_bytes :: "u64 option"

record metrics_snapshot = system_metrics +
  ms_rtsp :: "rtsp_diagnostics option"
  inference_queue :: queue_stats
  inference_queue_depth :: nat
  encoded_queue :: queue_stats
  encoded_queue_depth :: nat
  websocket_clients :: nat
  ms_whip :: whip_metrics
  alert_count :: "u64 option"
  encoder_fps :: "fp option"
  recent_errors :: "string list"

definition no_whip :: whip_metrics where
  "no_whip =
     \<lparr>wm_enabled = False, peer_state = ''disabled'', ice_state = ''disabled'', wm_last_error = [],
      access_units_sent = 0, media_queue_drops = 0, media_queue_discarded = 0\<rparr>"

definition no_metrics :: metrics_snapshot where
  "no_metrics =
     \<lparr>memory_rss_bytes = None, cpu_percent = None, gpu_percent = None, disk_free_bytes = None,
      ms_rtsp = None, inference_queue = zero_stats, inference_queue_depth = 0, encoded_queue = zero_stats,
      encoded_queue_depth = 0, websocket_clients = 0, ms_whip = no_whip, alert_count = None,
      encoder_fps = None, recent_errors = []\<rparr>"

section \<open>Bodies\<close>

abbreviation u64_text :: "u64 \<Rightarrow> string" where
  "u64_text x \<equiv> to_string (unat x)"

definition opt_json :: "('a \<Rightarrow> string) \<Rightarrow> 'a option \<Rightarrow> string" where
  "opt_json f x = (case x of Some v \<Rightarrow> f v | None \<Rightarrow> ''null'')"

definition health_member :: "(health_component \<Rightarrow> component_health) \<Rightarrow> health_component \<Rightarrow> string" where
  \<open>health_member comps c =
     json_string (health_component_name c) @ '':{"state":'' @
     json_string (health_state_name (h_state (comps c))) @
     '',"detail":'' @ json_string (h_detail (comps c)) @ ''}''\<close>

definition health_json :: "health_state \<times> (health_component \<Rightarrow> component_health) \<Rightarrow> string" where
  \<open>health_json h =
     ''{"state":'' @ json_string (health_state_name (fst h)) @ '',"components":{'' @
     intersperse_comma (map (health_member (snd h)) all_health_components) @ ''}}'' @ ''\<newline>''\<close>

definition write_peer :: "webrtc_peer_diagnostics \<Rightarrow> string" where
  \<open>write_peer p =
     ''{"session_id":'' @ json_string (pd_session_id p) @
     '',"peer_state":'' @ json_string (pd_peer_state p) @
     '',"ice_state":'' @ json_string (pd_ice_state p) @
     '',"local_candidate":'' @ json_string (pd_local_candidate p) @
     '',"local_interface":'' @ json_string (pd_local_interface p) @
     '',"selected_interface":'' @ json_string (pd_selected_interface p) @
     '',"connection_age_s":'' @ u64_text (pd_connection_age_s p) @
     '',"bytes_sent":'' @ u64_text (pd_bytes_sent p) @
     '',"packets_sent":'' @ u64_text (pd_packets_sent p) @
     '',"packets_retransmitted":'' @ u64_text (pd_packets_retransmitted p) @
     '',"media_queue_drops":'' @ u64_text (pd_media_queue_drops p) @
     '',"keyframe_events":'' @ u64_text (pd_keyframe_events p) @
     '',"failure_stage":'' @ json_string (pd_failure_stage p) @
     '',"close_reason":'' @ json_string (pd_close_reason p) @
     '',"last_error":'' @ json_string (pd_last_error p) @ ''}''\<close>

definition webrtc_diagnostics_json :: "webrtc_diagnostics \<Rightarrow> string" where
  \<open>webrtc_diagnostics_json d =
     ''{"enabled":'' @ json_bool (wd_enabled d) @
     '',"media_available":'' @ json_bool (wd_media_available d) @
     '',"media_unavailable_reason":'' @ json_string (wd_media_unavailable_reason d) @
     '',"keyframe_cached":'' @ json_bool (wd_keyframe_cached d) @
     '',"lan_only":'' @ json_bool (wd_lan_only d) @
     '',"max_peers":'' @ to_string (wd_max_peers d) @
     '',"active_peers":'' @ to_string (length (wd_peers d)) @
     '',"sessions_created":'' @ u64_text (wd_sessions_created d) @
     '',"sessions_closed":'' @ u64_text (wd_sessions_closed d) @
     '',"signaling_errors":'' @ u64_text (wd_signaling_errors d) @
     '',"media_errors":'' @ u64_text (wd_media_errors d) @
     '',"last_close_reason":'' @ json_string (wd_last_close_reason d) @ '',"peers":['' @
     intersperse_comma (map write_peer (wd_peers d)) @ ''],"recently_closed":['' @
     intersperse_comma (map write_peer (wd_recently_closed d)) @ '']}''\<close>

definition encoder_json :: "encoder_status \<Rightarrow> string" where
  \<open>encoder_json e =
     ''{"frames_submitted":'' @ u64_text (frames_submitted e) @
     '',"frames_rejected":'' @ u64_text (frames_rejected e) @
     '',"frames_dropped":'' @ u64_text (frames_dropped e) @
     '',"appsrc_pressure_dropped":'' @ u64_text (appsrc_pressure_dropped e) @
     '',"access_units_encoded":'' @ u64_text (access_units_encoded e) @
     '',"bytes_encoded":'' @ u64_text (bytes_encoded e) @
     '',"access_units_dropped":'' @ u64_text (enc_access_units_dropped e) @
     '',"last_access_unit_age_ms":'' @ int_to_string (last_access_unit_age_ms e) @
     '',"last_error":'' @ json_string (enc_last_error e) @ ''}''\<close>

definition status_json :: "runtime_status_snapshot \<Rightarrow> bool \<Rightarrow> webrtc_diagnostics option \<Rightarrow> string" where
  \<open>status_json st det webrtc =
     ''{"status":"'' @ ss_status st @ ''","uptime_s":'' @ u64_text (uptime_s st) @ '',"video":{"fps":'' @
     opt_json (ostream_double 6) (ss_video_fps st) @
     ''},"detector":{"enabled":'' @ json_bool det @ '',"fps":'' @
     opt_json (ostream_double 6) (ss_detector_fps st) @ '',"last_inference_ms":'' @
     opt_json (ostream_double 6) (last_inference_ms st) @ ''},"encoder":'' @
     opt_json encoder_json (ss_encoder st) @ '',"webrtc":'' @
     opt_json webrtc_diagnostics_json webrtc @ ''}'' @ ''\<newline>''\<close>

definition rtsp_json :: "rtsp_diagnostics \<Rightarrow> string" where
  \<open>rtsp_json s =
     ''{"health":'' @ json_string (source_health_name (rd_health s)) @
     '',"codec":'' @ json_string (rd_codec s) @
     '',"decoder":'' @ json_string (rd_decoder s) @
     '',"transport":'' @ json_string (rd_transport s) @
     '',"width":'' @ int_to_string (rd_width s) @
     '',"height":'' @ int_to_string (rd_height s) @
     '',"fps_in":'' @ ostream_double 6 (rd_fps_in s) @
     '',"frames_received":'' @ u64_text (frames_received s) @
     '',"frames_dropped":'' @ u64_text (rd_frames_dropped s) @
     '',"frames_discarded":'' @ u64_text (rd_frames_discarded s) @
     '',"last_frame_age_ms":'' @ int_to_string (last_frame_age_ms s) @
     '',"reconnect_count":'' @ u64_text (rd_reconnect_count s) @
     '',"packets_lost":'' @ u64_text (packets_lost s) @
     '',"packets_late":'' @ u64_text (packets_late s) @
     '',"last_error":'' @ json_string (rd_last_error s) @ ''}''\<close>

definition whip_json :: "whip_metrics \<Rightarrow> string" where
  \<open>whip_json w =
     ''{"enabled":'' @ json_bool (wm_enabled w) @
     '',"peer_state":'' @ json_string (peer_state w) @
     '',"ice_state":'' @ json_string (ice_state w) @
     '',"last_error":'' @ json_string (wm_last_error w) @
     '',"access_units_sent":'' @ u64_text (access_units_sent w) @
     '',"media_queue_drops":'' @ to_string (media_queue_drops w) @
     '',"media_queue_discarded":'' @ to_string (media_queue_discarded w) @ ''}''\<close>

definition queue_json :: "nat \<Rightarrow> queue_stats \<Rightarrow> string" where
  \<open>queue_json depth q =
     ''{"depth":'' @ to_string depth @ '',"dropped":'' @ u64_text (dropped q) @
     '',"discarded":'' @ u64_text (discarded q) @ ''}''\<close>

definition system_json :: "metrics_snapshot \<Rightarrow> string" where
  \<open>system_json m =
     ''{"memory_rss_bytes":'' @ opt_json u64_text (memory_rss_bytes m) @
     '',"cpu_percent":'' @ opt_json (ostream_double 6) (cpu_percent m) @
     '',"gpu_percent":'' @ opt_json (ostream_double 6) (gpu_percent m) @
     '',"disk_free_bytes":'' @ opt_json u64_text (disk_free_bytes m) @ ''}''\<close>

definition source_json :: "gps_fix \<Rightarrow> string" where
  \<open>source_json g = ''{"source":'' @ json_string (fix_source g) @ '',"age_s":null}''\<close>

definition metrics_json ::
  "runtime_status_snapshot \<Rightarrow> metrics_snapshot \<Rightarrow> api_state \<Rightarrow> webrtc_diagnostics option \<Rightarrow> string" where
  \<open>metrics_json st m api webrtc =
     ''{"ingest_fps":'' @ opt_json (ostream_double 6) (ss_video_fps st) @
     '',"rtsp":'' @ opt_json rtsp_json (ms_rtsp m) @
     '',"inference_fps":'' @ opt_json (ostream_double 6) (ss_detector_fps st) @
     '',"inference_latency_ms":'' @ opt_json (ostream_double 6) (last_inference_ms st) @
     '',"inference_queue":'' @ queue_json (inference_queue_depth m) (inference_queue m) @
     '',"encoder_fps":'' @ opt_json (ostream_double 6) (encoder_fps m) @
     '',"encoder_mode":'' @ json_string (if ss_encoder st \<noteq> None then ''encode'' else ''passthrough'') @
     '',"encoded_media_queue":'' @ queue_json (encoded_queue_depth m) (encoded_queue m) @
     '',"whip":'' @ whip_json (ms_whip m) @
     '',"websocket_clients":'' @ to_string (websocket_clients m) @
     '',"webrtc":'' @ webrtc_diagnostics_json (case webrtc of Some d \<Rightarrow> d | None \<Rightarrow> no_webrtc) @
     '',"gps":'' @ opt_json source_json (api_gps api) @
     '',"alert_count":'' @ opt_json u64_text (alert_count m) @
     '',"system":'' @ system_json m @
     '',"recent_errors":['' @ intersperse_comma (recent_errors m) @ '']}'' @ ''\<newline>''\<close>

definition config_json :: "public_config_dto \<Rightarrow> bool \<Rightarrow> string" where
  \<open>config_json c det =
     ''{"video":{"transport":'' @ json_string (video_transport c) @
     '',"latency_ms":'' @ int_to_string (video_latency_ms c) @
     '',"stall_timeout_ms":'' @ int_to_string (video_stall_timeout_ms c) @
     ''},"detector":{"enabled":'' @ json_bool det @
     '',"confidence":'' @ ostream_double 6 (detector_confidence c) @
     '',"nms":'' @ ostream_double 6 (detector_nms c) @
     '',"annotate":'' @ json_bool (detector_annotate c) @
     ''},"web":{"bind":'' @ json_string (dto_web_bind c) @
     '',"port":'' @ int_to_string (dto_web_port c) @
     ''},"recording":{"configured":'' @ json_bool (recording_configured c) @
     '',"segment_seconds":'' @ int_to_string (recording_segment_seconds c) @
     ''},"gps":{"enabled":'' @ json_bool (gps_enabled c) @
     '',"source":'' @ json_string (dto_gps_source c) @
     ''},"webrtc":{"enabled":'' @ json_bool (webrtc_enabled c) @
     '',"max_peers":'' @ int_to_string (webrtc_max_peers c) @
     '',"connection_timeout_ms":'' @ int_to_string (webrtc_connection_timeout_ms c) @
     '',"media_queue_capacity":'' @ int_to_string (webrtc_media_queue_capacity c) @ ''}}'' @ ''\<newline>''\<close>

definition dto_json :: "detection_dto \<Rightarrow> string" where
  \<open>dto_json d =
     ''{"class_id":'' @ int_to_string (dto_class_id d) @
     '',"class_name":'' @ json_string (dto_class_name d) @
     '',"confidence":'' @ ostream_double 6 (dto_confidence d) @
     '',"box":['' @ ostream_double 6 (dto_x1 d) @ '','' @ ostream_double 6 (dto_y1 d) @ '','' @
     ostream_double 6 (dto_x2 d) @ '','' @ ostream_double 6 (dto_y2 d) @ '']}''\<close>

definition detections_json :: "latest_detections_dto \<Rightarrow> string" where
  \<open>detections_json l =
     ''{"available":'' @ json_bool (available l) @
     '',"frame_sequence":'' @ u64_text (latest_sequence l) @
     '',"pts_ns":'' @ u64_text (latest_pts_ns l) @
     '',"frame_width":'' @ int_to_string (latest_width l) @
     '',"frame_height":'' @ int_to_string (latest_height l) @
     '',"detections":['' @ intersperse_comma (map dto_json (latest_items l)) @ '']}'' @ ''\<newline>''\<close>

definition alert_gps_json :: "gps_fix \<Rightarrow> string" where
  \<open>alert_gps_json g =
     ''{"valid":'' @ json_bool (fix_valid g) @
     '',"source":'' @ json_string (fix_source g) @
     '',"latitude":'' @ ostream_double 17 (fix_latitude g) @
     '',"longitude":'' @ ostream_double 17 (fix_longitude g) @
     '',"altitude_m":'' @ ostream_double 17 (fix_altitude_m g) @ ''}''\<close>

definition alert_json :: "alert_event \<Rightarrow> string" where
  \<open>alert_json a =
     ''{"id":'' @ json_string (ae_id a) @
     '',"timestamp_ms":'' @ int_to_string (ae_timestamp_ms a) @
     '',"gps":'' @ opt_json alert_gps_json (ae_gps a) @
     '',"snapshot_path":'' @ json_string (ae_snapshot_path a) @
     '',"frame_sequence":'' @ u64_text (ae_frame_sequence a) @
     '',"model_version":'' @ opt_json json_string (ae_model_version a) @
     '',"detections":['' @ intersperse_comma (map detection_json (ae_detections a)) @ '']}''\<close>

definition alerts_json :: "alert_event list \<Rightarrow> string" where
  \<open>alerts_json as =
     ''{"available":true,"items":['' @ intersperse_comma (map alert_json as) @ '']}'' @ ''\<newline>''\<close>

definition gps_json :: "gps_fix \<Rightarrow> string" where
  \<open>gps_json g =
     ''{"available":true,"valid":'' @ json_bool (fix_valid g) @
     '',"source":'' @ json_string (fix_source g) @
     '',"latitude":'' @ ostream_double 17 (fix_latitude g) @
     '',"longitude":'' @ ostream_double 17 (fix_longitude g) @
     '',"altitude_m":'' @ ostream_double 17 (fix_altitude_m g) @
     '',"hdop":'' @ ostream_double 17 (hdop g) @
     '',"satellites_visible":'' @ int_to_string (satellites_visible g) @
     '',"satellites_used":'' @ int_to_string (satellites_used g) @ ''}'' @ ''\<newline>''\<close>

section \<open>The values\<close>

abbreviation JDouble :: "nat \<Rightarrow> fp \<Rightarrow> json" where
  "JDouble p x \<equiv> JNum (ostream_double p x)"

abbreviation JU64 :: "u64 \<Rightarrow> json" where
  "JU64 x \<equiv> JNum (u64_text x)"

abbreviation JInt :: "int \<Rightarrow> json" where
  "JInt i \<equiv> JNum (int_to_string i)"

definition JOpt :: "('a \<Rightarrow> json) \<Rightarrow> 'a option \<Rightarrow> json" where
  "JOpt f x = (case x of Some v \<Rightarrow> f v | None \<Rightarrow> JNull)"

lemma JOpt_render: "(\<And>v. g v = render (f v)) \<Longrightarrow> opt_json g x = render (JOpt f x)"
  by (cases x) (simp_all add: opt_json_def JOpt_def)

lemma JOpt_wf: "(\<And>v. x = Some v \<Longrightarrow> json_wf (f v)) \<Longrightarrow> json_wf (JOpt f x)"
  by (cases x) (simp_all add: JOpt_def)

definition peer_value :: "webrtc_peer_diagnostics \<Rightarrow> json" where
  "peer_value p = JObj
     [(''session_id'', JStr (pd_session_id p)), (''peer_state'', JStr (pd_peer_state p)),
      (''ice_state'', JStr (pd_ice_state p)), (''local_candidate'', JStr (pd_local_candidate p)),
      (''local_interface'', JStr (pd_local_interface p)),
      (''selected_interface'', JStr (pd_selected_interface p)),
      (''connection_age_s'', JU64 (pd_connection_age_s p)), (''bytes_sent'', JU64 (pd_bytes_sent p)),
      (''packets_sent'', JU64 (pd_packets_sent p)),
      (''packets_retransmitted'', JU64 (pd_packets_retransmitted p)),
      (''media_queue_drops'', JU64 (pd_media_queue_drops p)),
      (''keyframe_events'', JU64 (pd_keyframe_events p)), (''failure_stage'', JStr (pd_failure_stage p)),
      (''close_reason'', JStr (pd_close_reason p)), (''last_error'', JStr (pd_last_error p))]"

lemma key_string: "list_all (\<lambda>c. c \<noteq> CHR 0x22 \<and> c \<noteq> CHR 0x5C \<and> byte c \<ge> 32) s \<Longrightarrow> json_chars s = s"
  by (induction s) (auto simp: byte_def)

lemmas render_defs = json_string_def key_string byte_def json_bool_def

lemma peer_render: "write_peer p = render (peer_value p)"
  by (simp add: write_peer_def peer_value_def render_defs)

lemma peer_wf [simp]: "json_wf (peer_value p)"
  by (simp add: peer_value_def)

definition webrtc_value :: "webrtc_diagnostics \<Rightarrow> json" where
  "webrtc_value d = JObj
     [(''enabled'', JBool (wd_enabled d)), (''media_available'', JBool (wd_media_available d)),
      (''media_unavailable_reason'', JStr (wd_media_unavailable_reason d)),
      (''keyframe_cached'', JBool (wd_keyframe_cached d)), (''lan_only'', JBool (wd_lan_only d)),
      (''max_peers'', JNum (to_string (wd_max_peers d))),
      (''active_peers'', JNum (to_string (length (wd_peers d)))),
      (''sessions_created'', JU64 (wd_sessions_created d)), (''sessions_closed'', JU64 (wd_sessions_closed d)),
      (''signaling_errors'', JU64 (wd_signaling_errors d)), (''media_errors'', JU64 (wd_media_errors d)),
      (''last_close_reason'', JStr (wd_last_close_reason d)),
      (''peers'', JArr (map peer_value (wd_peers d))),
      (''recently_closed'', JArr (map peer_value (wd_recently_closed d)))]"

lemma webrtc_render: "webrtc_diagnostics_json d = render (webrtc_value d)"
  by (simp add: webrtc_diagnostics_json_def webrtc_value_def render_defs peer_render[abs_def] comp_def)

lemma webrtc_wf [simp]: "json_wf (webrtc_value d)"
  by (simp add: webrtc_value_def list_all_iff)

definition health_value :: "health_state \<times> (health_component \<Rightarrow> component_health) \<Rightarrow> json" where
  "health_value h = JObj
     [(''state'', JStr (health_state_name (fst h))),
      (''components'', JObj (map (\<lambda>c. (health_component_name c,
         JObj [(''state'', JStr (health_state_name (h_state (snd h c)))), (''detail'', JStr (h_detail (snd h c)))]))
         all_health_components))]"

lemma health_render: "health_json h = render (JLine (health_value h))"
  by (simp add: health_json_def health_value_def render_defs comp_def health_member_def[abs_def])

lemma health_wf [simp]: "json_wf (health_value h)"
  by (simp add: health_value_def list_all_iff)

definition encoder_value :: "encoder_status \<Rightarrow> json" where
  "encoder_value e = JObj
     [(''frames_submitted'', JU64 (frames_submitted e)), (''frames_rejected'', JU64 (frames_rejected e)),
      (''frames_dropped'', JU64 (frames_dropped e)),
      (''appsrc_pressure_dropped'', JU64 (appsrc_pressure_dropped e)),
      (''access_units_encoded'', JU64 (access_units_encoded e)), (''bytes_encoded'', JU64 (bytes_encoded e)),
      (''access_units_dropped'', JU64 (enc_access_units_dropped e)),
      (''last_access_unit_age_ms'', JInt (last_access_unit_age_ms e)), (''last_error'', JStr (enc_last_error e))]"

lemma encoder_render: "encoder_json e = render (encoder_value e)"
  by (simp add: encoder_json_def encoder_value_def render_defs)

definition status_value :: "runtime_status_snapshot \<Rightarrow> bool \<Rightarrow> webrtc_diagnostics option \<Rightarrow> json" where
  "status_value st det webrtc = JObj
     [(''status'', JStr (ss_status st)), (''uptime_s'', JU64 (uptime_s st)),
      (''video'', JObj [(''fps'', JOpt (JDouble 6) (ss_video_fps st))]),
      (''detector'', JObj
         [(''enabled'', JBool det), (''fps'', JOpt (JDouble 6) (ss_detector_fps st)),
          (''last_inference_ms'', JOpt (JDouble 6) (last_inference_ms st))]),
      (''encoder'', JOpt encoder_value (ss_encoder st)), (''webrtc'', JOpt webrtc_value webrtc)]"

text \<open>The three words a status snapshot uses need no escape.\<close>

lemma status_word: "json_chars (ss_status (status_snapshot now s)) = ss_status (status_snapshot now s)"
  by (simp add: status_snapshot_def key_string byte_def)

lemmas opt_renders = JOpt_render[of "ostream_double p" "JDouble p" for p, OF render.simps(3)[symmetric]]
  JOpt_render[of u64_text JU64, OF render.simps(3)[symmetric]]
  JOpt_render[of json_string JStr, OF render.simps(4)[symmetric]]
  JOpt_render[of encoder_json, OF encoder_render] JOpt_render[of webrtc_diagnostics_json, OF webrtc_render]

lemma status_render:
  "json_chars (ss_status st) = ss_status st \<Longrightarrow> status_json st det webrtc = render (JLine (status_value st det webrtc))"
  by (simp add: status_json_def status_value_def render_defs opt_renders)

definition rtsp_value :: "rtsp_diagnostics \<Rightarrow> json" where
  "rtsp_value s = JObj
     [(''health'', JStr (source_health_name (rd_health s))), (''codec'', JStr (rd_codec s)),
      (''decoder'', JStr (rd_decoder s)), (''transport'', JStr (rd_transport s)),
      (''width'', JInt (rd_width s)), (''height'', JInt (rd_height s)), (''fps_in'', JDouble 6 (rd_fps_in s)),
      (''frames_received'', JU64 (frames_received s)), (''frames_dropped'', JU64 (rd_frames_dropped s)),
      (''frames_discarded'', JU64 (rd_frames_discarded s)), (''last_frame_age_ms'', JInt (last_frame_age_ms s)),
      (''reconnect_count'', JU64 (rd_reconnect_count s)), (''packets_lost'', JU64 (packets_lost s)),
      (''packets_late'', JU64 (packets_late s)), (''last_error'', JStr (rd_last_error s))]"

lemma rtsp_render: "rtsp_json s = render (rtsp_value s)"
  by (simp add: rtsp_json_def rtsp_value_def render_defs)

definition queue_value :: "nat \<Rightarrow> queue_stats \<Rightarrow> json" where
  "queue_value depth q = JObj
     [(''depth'', JNum (to_string depth)), (''dropped'', JU64 (dropped q)), (''discarded'', JU64 (discarded q))]"

lemma queue_render: "queue_json depth q = render (queue_value depth q)"
  by (simp add: queue_json_def queue_value_def render_defs)

definition whip_value :: "whip_metrics \<Rightarrow> json" where
  "whip_value w = JObj
     [(''enabled'', JBool (wm_enabled w)), (''peer_state'', JStr (peer_state w)), (''ice_state'', JStr (ice_state w)),
      (''last_error'', JStr (wm_last_error w)), (''access_units_sent'', JU64 (access_units_sent w)),
      (''media_queue_drops'', JNum (to_string (media_queue_drops w))),
      (''media_queue_discarded'', JNum (to_string (media_queue_discarded w)))]"

lemma whip_render: "whip_json w = render (whip_value w)"
  by (simp add: whip_json_def whip_value_def render_defs)

definition system_value :: "metrics_snapshot \<Rightarrow> json" where
  "system_value m = JObj
     [(''memory_rss_bytes'', JOpt JU64 (memory_rss_bytes m)), (''cpu_percent'', JOpt (JDouble 6) (cpu_percent m)),
      (''gpu_percent'', JOpt (JDouble 6) (gpu_percent m)), (''disk_free_bytes'', JOpt JU64 (disk_free_bytes m))]"

lemma system_render: "system_json m = render (system_value m)"
  by (simp add: system_json_def system_value_def render_defs opt_renders)

definition source_value :: "gps_fix \<Rightarrow> json" where
  "source_value g = JObj [(''source'', JStr (fix_source g)), (''age_s'', JNull)]"

lemma source_render: "source_json g = render (source_value g)"
  by (simp add: source_json_def source_value_def render_defs)

definition metrics_value ::
  "runtime_status_snapshot \<Rightarrow> metrics_snapshot \<Rightarrow> api_state \<Rightarrow> webrtc_diagnostics option \<Rightarrow> json list \<Rightarrow> json" where
  "metrics_value st m api webrtc errors = JObj
     [(''ingest_fps'', JOpt (JDouble 6) (ss_video_fps st)), (''rtsp'', JOpt rtsp_value (ms_rtsp m)),
      (''inference_fps'', JOpt (JDouble 6) (ss_detector_fps st)),
      (''inference_latency_ms'', JOpt (JDouble 6) (last_inference_ms st)),
      (''inference_queue'', queue_value (inference_queue_depth m) (inference_queue m)),
      (''encoder_fps'', JOpt (JDouble 6) (encoder_fps m)),
      (''encoder_mode'', JStr (if ss_encoder st \<noteq> None then ''encode'' else ''passthrough'')),
      (''encoded_media_queue'', queue_value (encoded_queue_depth m) (encoded_queue m)),
      (''whip'', whip_value (ms_whip m)), (''websocket_clients'', JNum (to_string (websocket_clients m))),
      (''webrtc'', webrtc_value (case webrtc of Some d \<Rightarrow> d | None \<Rightarrow> no_webrtc)),
      (''gps'', JOpt source_value (api_gps api)), (''alert_count'', JOpt JU64 (alert_count m)),
      (''system'', system_value m), (''recent_errors'', JArr errors)]"

lemma metrics_render:
  "recent_errors m = map render errors \<Longrightarrow>
    metrics_json st m api webrtc = render (JLine (metrics_value st m api webrtc errors))"
  by (simp add: metrics_json_def metrics_value_def json_string_def key_string byte_def opt_renders
      JOpt_render[of rtsp_json, OF rtsp_render] JOpt_render[of source_json, OF source_render]
      queue_render whip_render system_render webrtc_render)

definition config_value :: "public_config_dto \<Rightarrow> bool \<Rightarrow> json" where
  "config_value c det = JObj
     [(''video'', JObj
         [(''transport'', JStr (video_transport c)), (''latency_ms'', JInt (video_latency_ms c)),
          (''stall_timeout_ms'', JInt (video_stall_timeout_ms c))]),
      (''detector'', JObj
         [(''enabled'', JBool det), (''confidence'', JDouble 6 (detector_confidence c)),
          (''nms'', JDouble 6 (detector_nms c)), (''annotate'', JBool (detector_annotate c))]),
      (''web'', JObj [(''bind'', JStr (dto_web_bind c)), (''port'', JInt (dto_web_port c))]),
      (''recording'', JObj
         [(''configured'', JBool (recording_configured c)), (''segment_seconds'', JInt (recording_segment_seconds c))]),
      (''gps'', JObj [(''enabled'', JBool (gps_enabled c)), (''source'', JStr (dto_gps_source c))]),
      (''webrtc'', JObj
         [(''enabled'', JBool (webrtc_enabled c)), (''max_peers'', JInt (webrtc_max_peers c)),
          (''connection_timeout_ms'', JInt (webrtc_connection_timeout_ms c)),
          (''media_queue_capacity'', JInt (webrtc_media_queue_capacity c))])]"

lemma config_render: "config_json c det = render (JLine (config_value c det))"
  by (simp add: config_json_def config_value_def render_defs)

definition dto_value :: "detection_dto \<Rightarrow> json" where
  "dto_value d = JObj
     [(''class_id'', JInt (dto_class_id d)), (''class_name'', JStr (dto_class_name d)),
      (''confidence'', JDouble 6 (dto_confidence d)),
      (''box'', JArr (map (JDouble 6) [dto_x1 d, dto_y1 d, dto_x2 d, dto_y2 d]))]"

lemma dto_render: "dto_json d = render (dto_value d)"
  by (simp add: dto_json_def dto_value_def render_defs)

definition detections_value :: "latest_detections_dto \<Rightarrow> json" where
  "detections_value l = JObj
     [(''available'', JBool (available l)), (''frame_sequence'', JU64 (latest_sequence l)),
      (''pts_ns'', JU64 (latest_pts_ns l)), (''frame_width'', JInt (latest_width l)),
      (''frame_height'', JInt (latest_height l)), (''detections'', JArr (map dto_value (latest_items l)))]"

lemma detections_render: "detections_json l = render (JLine (detections_value l))"
  by (simp add: detections_json_def detections_value_def render_defs dto_render[abs_def] comp_def)

definition detection_value :: "alert_detection \<Rightarrow> json" where
  "detection_value d = JObj
     [(''class_id'', JInt (ad_class_id d)), (''class_name'', JStr (ad_class_name d)),
      (''confidence'', JDouble 17 (ad_confidence d)),
      (''box'', JArr (map (JDouble 17) [ad_x1 d, ad_y1 d, ad_x2 d, ad_y2 d]))]"

lemma detection_render: "detection_json d = render (detection_value d)"
  by (simp add: detection_json_def detection_value_def render_defs)

definition alert_gps_value :: "gps_fix \<Rightarrow> json" where
  "alert_gps_value g = JObj
     [(''valid'', JBool (fix_valid g)), (''source'', JStr (fix_source g)),
      (''latitude'', JDouble 17 (fix_latitude g)), (''longitude'', JDouble 17 (fix_longitude g)),
      (''altitude_m'', JDouble 17 (fix_altitude_m g))]"

lemma alert_gps_render: "alert_gps_json g = render (alert_gps_value g)"
  by (simp add: alert_gps_json_def alert_gps_value_def render_defs)

definition alert_value :: "alert_event \<Rightarrow> json" where
  "alert_value a = JObj
     [(''id'', JStr (ae_id a)), (''timestamp_ms'', JInt (ae_timestamp_ms a)),
      (''gps'', JOpt alert_gps_value (ae_gps a)), (''snapshot_path'', JStr (ae_snapshot_path a)),
      (''frame_sequence'', JU64 (ae_frame_sequence a)), (''model_version'', JOpt JStr (ae_model_version a)),
      (''detections'', JArr (map detection_value (ae_detections a)))]"

lemma alert_render: "alert_json a = render (alert_value a)"
  by (simp add: alert_json_def alert_value_def render_defs detection_render[abs_def] comp_def
      JOpt_render[of alert_gps_json, OF alert_gps_render] opt_renders[unfolded json_string_def] opt_renders)

definition alerts_value :: "alert_event list \<Rightarrow> json" where
  "alerts_value as = JObj [(''available'', JBool True), (''items'', JArr (map alert_value as))]"

lemma alerts_render: "alerts_json as = render (JLine (alerts_value as))"
  by (simp add: alerts_json_def alerts_value_def render_defs alert_render[abs_def] comp_def)

definition gps_value :: "gps_fix \<Rightarrow> json" where
  "gps_value g = JObj
     [(''available'', JBool True), (''valid'', JBool (fix_valid g)), (''source'', JStr (fix_source g)),
      (''latitude'', JDouble 17 (fix_latitude g)), (''longitude'', JDouble 17 (fix_longitude g)),
      (''altitude_m'', JDouble 17 (fix_altitude_m g)), (''hdop'', JDouble 17 (hdop g)),
      (''satellites_visible'', JInt (satellites_visible g)), (''satellites_used'', JInt (satellites_used g))]"

lemma gps_render: "gps_json g = render (JLine (gps_value g))"
  by (simp add: gps_json_def gps_value_def render_defs)

definition event_gps_members :: "gps_fix option \<Rightarrow> (string \<times> json) list" where
  "event_gps_members g =
     (case g of
        Some f \<Rightarrow>
          (if fix_valid f then
             [(''gps_valid'', JBool True), (''gps_source'', JStr (fix_source f)),
              (''latitude'', JDouble 17 (fix_latitude f)), (''longitude'', JDouble 17 (fix_longitude f)),
              (''altitude_m'', JDouble 17 (fix_altitude_m f))]
           else [(''gps_valid'', JBool False), (''gps_source'', JStr ''none'')])
      | None \<Rightarrow> [(''gps_valid'', JBool False), (''gps_source'', JStr ''none'')])"

definition event_value :: "alert_event \<Rightarrow> json" where
  "event_value e = JObj
     ([(''id'', JStr (ae_id e)), (''frame_sequence'', JU64 (ae_frame_sequence e)),
       (''timestamp_ms'', JInt (ae_timestamp_ms e)),
       (''detections'', JArr (map detection_value (ae_detections e)))] @ event_gps_members (ae_gps e))"

lemma event_render: "event_data e = render (event_value e)"
  by (cases "ae_gps e")
     (simp_all add: event_data_def event_value_def event_gps_members_def render_defs detection_render[abs_def] comp_def)

section \<open>Every body is a JSON document\<close>

text \<open>JSON has no infinities: the numbers must be finite.\<close>

abbreviation finite_opt :: "fp option \<Rightarrow> bool" where
  "finite_opt x \<equiv> (case x of Some v \<Rightarrow> isfinite v | None \<Rightarrow> True)"

definition finite_status :: "runtime_status_snapshot \<Rightarrow> bool" where
  "finite_status st \<longleftrightarrow>
     finite_opt (ss_video_fps st) \<and> finite_opt (ss_detector_fps st) \<and> finite_opt (last_inference_ms st)"

definition finite_metrics :: "metrics_snapshot \<Rightarrow> bool" where
  "finite_metrics m \<longleftrightarrow>
     finite_opt (cpu_percent m) \<and> finite_opt (gpu_percent m) \<and> finite_opt (encoder_fps m) \<and>
     finite_opt (map_option rd_fps_in (ms_rtsp m))"

definition finite_config :: "public_config_dto \<Rightarrow> bool" where
  "finite_config c \<longleftrightarrow> isfinite (detector_confidence c) \<and> isfinite (detector_nms c)"

definition finite_dto :: "detection_dto \<Rightarrow> bool" where
  "finite_dto d \<longleftrightarrow>
     isfinite (dto_confidence d) \<and> isfinite (dto_x1 d) \<and> isfinite (dto_y1 d) \<and> isfinite (dto_x2 d) \<and>
     isfinite (dto_y2 d)"

definition finite_fix :: "gps_fix \<Rightarrow> bool" where
  "finite_fix g \<longleftrightarrow>
     isfinite (fix_latitude g) \<and> isfinite (fix_longitude g) \<and> isfinite (fix_altitude_m g) \<and> isfinite (hdop g)"

definition finite_detection :: "alert_detection \<Rightarrow> bool" where
  "finite_detection d \<longleftrightarrow>
     isfinite (ad_confidence d) \<and> isfinite (ad_x1 d) \<and> isfinite (ad_y1 d) \<and> isfinite (ad_x2 d) \<and>
     isfinite (ad_y2 d)"

definition finite_alert :: "alert_event \<Rightarrow> bool" where
  "finite_alert a \<longleftrightarrow>
     list_all finite_detection (ae_detections a) \<and> (case ae_gps a of Some g \<Rightarrow> finite_fix g | None \<Rightarrow> True)"

lemmas finite_defs = finite_status_def finite_metrics_def finite_config_def finite_dto_def finite_fix_def
  finite_detection_def finite_alert_def json_number_ostream_double

lemma opt_wf [simp]:
  "json_wf (JOpt JU64 y)" "json_wf (JOpt JStr z)" "json_wf (JOpt encoder_value e)" "json_wf (JOpt webrtc_value w)"
  "json_wf (JOpt source_value g)"
  by (simp_all add: JOpt_wf encoder_value_def source_value_def)

lemma opt_double_wf: "finite_opt x \<Longrightarrow> json_wf (JOpt (JDouble 6) x)"
  by (rule JOpt_wf) (simp add: json_number_ostream_double)

lemma opt_rtsp_wf: "finite_opt (map_option rd_fps_in x) \<Longrightarrow> json_wf (JOpt rtsp_value x)"
  by (rule JOpt_wf) (simp add: rtsp_value_def json_number_ostream_double)

lemma status_wf: "finite_status st \<Longrightarrow> json_wf (status_value st det webrtc)"
  by (simp add: status_value_def finite_status_def opt_double_wf)

lemma metrics_wf:
  "finite_status st \<Longrightarrow> finite_metrics m \<Longrightarrow> list_all json_wf errors \<Longrightarrow>
    json_wf (metrics_value st m api webrtc errors)"
  by (simp add: metrics_value_def queue_value_def whip_value_def system_value_def
      finite_status_def finite_metrics_def opt_double_wf opt_rtsp_wf)

lemma config_wf: "finite_config c \<Longrightarrow> json_wf (config_value c det)"
  by (simp add: config_value_def finite_defs)

lemma dto_wf: "list_all finite_dto ds \<Longrightarrow> list_all json_wf (map dto_value ds)"
  by (simp add: list_all_iff dto_value_def finite_defs)

lemma detections_wf: "list_all finite_dto (latest_items l) \<Longrightarrow> json_wf (detections_value l)"
  using dto_wf[of "latest_items l"] by (simp add: detections_value_def)

lemma detection_wf: "list_all finite_detection ds \<Longrightarrow> list_all json_wf (map detection_value ds)"
  by (simp add: list_all_iff detection_value_def finite_defs)

lemma alert_wf: "finite_alert a \<Longrightarrow> json_wf (alert_value a) \<and> json_wf (event_value a)"
  using detection_wf[of "ae_detections a"]
  by (cases "ae_gps a"; cases "ae_model_version a")
     (simp_all add: alert_value_def event_value_def event_gps_members_def alert_gps_value_def finite_alert_def
        finite_fix_def json_number_ostream_double JOpt_def)

lemma alerts_wf: "list_all finite_alert as \<Longrightarrow> json_wf (alerts_value as)"
  by (auto simp: alerts_value_def list_all_iff alert_wf)

lemma gps_wf: "finite_fix g \<Longrightarrow> json_wf (gps_value g)"
  by (simp add: gps_value_def finite_defs)

text \<open>The events a channel keeps as recent errors are JSON values, each with its newline.\<close>

lemma error_event_render:
  assumes "json_chars utc = utc"
  shows "\<exists>v. make_event_json utc now SystemError (make_system_error_data origin message) = render v \<and> json_wf v"
proof (intro exI conjI)
  let ?v = "JLine (JObj [(''type'', JStr ''system_error''), (''timestamp'', JStr (timestamp utc now)),
    (''data'', JObj [(''module'', JStr origin), (''message'', JStr message)])])"
  have digits: "json_chars s = s" if "list_all is_digit s" for s
    by (rule key_string) (use that in \<open>auto simp: list_all_iff is_digit_def byte_def\<close>)
  have app: "json_chars (a @ b) = json_chars a @ json_chars b" for a b
    by (induction a) simp_all
  have zeros: "json_chars (replicate k (CHR ''0'')) = replicate k (CHR ''0'')" for k
    by (rule digits) (simp add: list_all_iff is_digit_def)
  have "json_chars (timestamp utc now) = timestamp utc now"
    using assms by (simp add: timestamp_def pad3_def app digits[OF to_string_list_all] zeros byte_def)
  then show "make_event_json utc now SystemError (make_system_error_data origin message) = render ?v"
    by (simp add: make_event_json_def make_system_error_data_def render_defs)
qed simp



end
