(* ===== verification/WebRtc_Session.thy ===== *)
theory WebRtc_Session
  imports Api_Json Recording
begin

text \<open>
  \<^verbatim>\<open>WebRtcSession\<close> of \<^verbatim>\<open>src/webrtc/webrtc_manager.cpp\<close>: one WHEP peer.  The
  \<^verbatim>\<open>rtc\<close> library is a parameter: a parsed offer, the outcomes of its calls and the
  callbacks it makes are arguments.  Each callback and each section under the session's mutex is one
  step; the media thread is \<open>media_turn\<close>, one pass of its loop.
\<close>

section \<open>State\<close>

record session =
  s_id :: string
  s_has_peer :: bool
  s_has_track :: bool
  s_queue :: "encoded_access_unit bounded_queue"
  s_worker :: bool
  s_running :: bool
  s_last_activity :: time_point
  s_connected_at :: time_point
  s_wait_started :: time_point
  s_bytes_sent :: u64
  s_packets_sent :: u64
  s_packets_retransmitted :: u64
  s_keyframe_events :: u64
  s_media_errors :: u64
  s_peer_state :: string
  s_ice_state :: string
  s_local_candidate :: string
  s_local_interface :: string
  s_failure_stage :: string
  s_close_reason :: string
  s_last_error :: string
  s_description_ready :: bool
  s_gathering_complete :: bool
  s_connected :: bool
  s_answer_ready :: bool
  s_failed :: bool
  s_closed :: bool
  s_cleanup_started :: bool

text \<open>\<open>s_media_errors\<close> counts what the session adds to the manager's counter.\<close>

definition new_session :: "string \<Rightarrow> nat \<Rightarrow> time_point \<Rightarrow> session result" where
  "new_session sid capacity now =
     (case new_queue capacity of
        Inl e \<Rightarrow> Inl e
      | Inr q \<Rightarrow> Inr
         \<lparr>s_id = sid, s_has_peer = True, s_has_track = False, s_queue = q, s_worker = False, s_running = False,
          s_last_activity = now, s_connected_at = 0, s_wait_started = 0, s_bytes_sent = 0, s_packets_sent = 0,
          s_packets_retransmitted = 0, s_keyframe_events = 0, s_media_errors = 0, s_peer_state = ''new'',
          s_ice_state = ''new'', s_local_candidate = [], s_local_interface = [], s_failure_stage = [],
          s_close_reason = [], s_last_error = [], s_description_ready = False, s_gathering_complete = False,
          s_connected = False, s_answer_ready = False, s_failed = False, s_closed = False,
          s_cleanup_started = False\<rparr>)"

section \<open>Callbacks\<close>

datatype conn_state = Conn_connected | Conn_disconnected | Conn_failed | Conn_closed | Conn_other

definition on_local_description :: "time_point \<Rightarrow> session \<Rightarrow> session" where
  "on_local_description now s = s\<lparr>s_description_ready := True, s_last_activity := now\<rparr>"

definition on_local_candidate :: "string \<Rightarrow> string option \<Rightarrow> session \<Rightarrow> session" where
  "on_local_candidate text interface s =
     (let s1 = s\<lparr>s_local_candidate := text\<rparr> in
      case interface of Some i \<Rightarrow> s1\<lparr>s_local_interface := i\<rparr> | None \<Rightarrow> s1)"

definition on_gathering_complete :: "time_point \<Rightarrow> session \<Rightarrow> session" where
  "on_gathering_complete now s = s\<lparr>s_gathering_complete := True, s_last_activity := now\<rparr>"

definition on_state_change :: "conn_state \<Rightarrow> string \<Rightarrow> time_point \<Rightarrow> session \<Rightarrow> session" where
  "on_state_change st name now s =
     (let s1 = s\<lparr>s_peer_state := name\<rparr> in
      case st of
        Conn_connected \<Rightarrow> s1\<lparr>s_connected := True, s_connected_at := now, s_last_activity := now\<rparr>
      | Conn_closed \<Rightarrow> s1\<lparr>s_closed := True\<rparr>
      | Conn_other \<Rightarrow> s1
      | _ \<Rightarrow>
          (let s2 = s1\<lparr>s_failed := True\<rparr> in
           if s_failure_stage s2 = []
           then s2\<lparr>s_failure_stage := ''peer_connection'',
                   s_last_error := (if st = Conn_failed then ''PeerConnection failed''
                                    else ''PeerConnection disconnected'')\<rparr>
           else s2))"

definition on_ice_state_change :: "conn_state \<Rightarrow> string \<Rightarrow> session \<Rightarrow> session" where
  "on_ice_state_change st name s =
     (let s1 = s\<lparr>s_ice_state := name\<rparr> in
      if st = Conn_failed \<or> st = Conn_disconnected then
        (let s2 = s1\<lparr>s_failed := True\<rparr> in
         if s_failure_stage s2 = [] \<or> s_failure_stage s2 = ''peer_connection''
         then s2\<lparr>s_failure_stage := ''ice'',
                 s_last_error := (if st = Conn_failed then ''ICE connectivity failed'' else ''ICE disconnected'')\<rparr>
         else s2)
      else s1)"

definition record_failure :: "string \<Rightarrow> string \<Rightarrow> bool \<Rightarrow> session \<Rightarrow> session" where
  "record_failure stage e preserve_specific s =
     (if preserve_specific \<and> s_failure_stage s \<noteq> [] then s
      else s\<lparr>s_failure_stage := stage, s_last_error := e, s_failed := True\<rparr>)"

definition record_media_error :: "string \<Rightarrow> session \<Rightarrow> session" where
  "record_media_error e s =
     (let s1 = record_failure ''media'' e False s in s1\<lparr>s_media_errors := s_media_errors s1 + 1\<rparr>)"

section \<open>The offer\<close>

text \<open>What the library's parser gives: the media sections with their payload types and the
  \<^verbatim>\<open>rtpmap\<close> of each, if any.\<close>

datatype direction = Dir_unknown | Dir_sendrecv | Dir_sendonly | Dir_recvonly | Dir_inactive

record rtp_map =
  rtp_format :: string
  rtp_fmtps :: "string list"

record media_section =
  ms_is_media :: bool
  ms_removed :: bool
  ms_direction :: direction
  ms_payloads :: "(int \<times> rtp_map option) list"

record offer =
  of_attributes :: "string list"
  of_media :: "media_section list"

text \<open>\<^verbatim>\<open>std::toupper\<close> and \<^verbatim>\<open>std::tolower\<close> of the C locale.\<close>

definition to_upper :: "char \<Rightarrow> char" where
  "to_upper c = (if 97 \<le> byte c \<and> byte c \<le> 122 then char_of (byte c - 32) else c)"

definition to_lower :: "char \<Rightarrow> char" where
  "to_lower c = (if 65 \<le> byte c \<and> byte c \<le> 90 then char_of (byte c + 32) else c)"

text \<open>\<^verbatim>\<open>s.find(pattern)\<close>.\<close>

primrec find_string :: "string \<Rightarrow> string \<Rightarrow> nat option" where
  "find_string p [] = (if p = [] then Some 0 else None)"
| "find_string p (c # s) = (if starts_with p (c # s) then Some 0 else map_option Suc (find_string p s))"

definition compatible_fmtp :: "string \<Rightarrow> bool" where
  "compatible_fmtp fmtp =
     (let parameters = map to_lower fmtp in
      case find_string ''profile-level-id=42'' parameters of
        None \<Rightarrow> False
      | Some profile \<Rightarrow>
          profile + 17 + 6 \<le> length parameters \<and>
          find_string ''packetization-mode=1'' parameters \<noteq> None \<and>
          (case (hex_value (parameters ! (profile + 21)), hex_value (parameters ! (profile + 22))) of
             (Some h, Some l) \<Rightarrow> 16 * h + l \<le> 31
           | _ \<Rightarrow> False))"

definition is_compatible_h264 :: "rtp_map option \<Rightarrow> bool" where
  "is_compatible_h264 m =
     (case m of
        None \<Rightarrow> False
      | Some r \<Rightarrow> map to_upper (rtp_format r) = ''H264'' \<and> list_ex compatible_fmtp (rtp_fmtps r))"

definition session_direction :: "string list \<Rightarrow> direction" where
  "session_direction attributes =
     fold (\<lambda>a d. if a = ''sendonly'' then Dir_sendonly else if a = ''recvonly'' then Dir_recvonly
                 else if a = ''inactive'' then Dir_inactive else d) attributes Dir_sendrecv"

definition effective_direction :: "direction \<Rightarrow> media_section \<Rightarrow> direction" where
  "effective_direction dflt m = (if ms_direction m = Dir_unknown then dflt else ms_direction m)"

text \<open>The loop over the media sections: an error, or the payload type of the video track added.\<close>

fun choose_video :: "direction \<Rightarrow> media_section list \<Rightarrow> int option \<Rightarrow> int option result" where
  "choose_video dflt [] added = Inr added"
| "choose_video dflt (m # ms) added =
     (if \<not> ms_is_media m \<or> ms_removed m then choose_video dflt ms added
      else if effective_direction dflt m \<in> {Dir_sendonly, Dir_inactive}
      then Inl ''WHEP media must be recvonly or sendrecv''
      else case find (\<lambda>(p, r). is_compatible_h264 r) (ms_payloads m) of
        None \<Rightarrow> choose_video dflt ms added
      | Some (p, r) \<Rightarrow>
          (if p < 0 \<or> added \<noteq> None then choose_video dflt ms added
           else choose_video dflt ms (Some p)))"

datatype create_session_error = E_Disabled | E_Capacity | E_InvalidOffer | E_GatheringTimeout | E_Internal

type_synonym create_result = "(create_session_error \<times> string) + (string \<times> string)"

text \<open>What the library does with the offer: the parser's result, and an exception of the calls that add
  the track and set the remote description, with the flag of \<^verbatim>\<open>std::invalid_argument\<close>.\<close>

record rtc_calls =
  rc_parse :: "string \<Rightarrow> (bool \<times> string) + offer"
  rc_apply_error :: "(bool \<times> string) option"
  rc_answer :: "string + string option"

definition thrown :: "bool \<times> string \<Rightarrow> create_session_error \<times> string" where
  "thrown e = (if fst e then (E_InvalidOffer, snd e) else (E_Internal, snd e))"

text \<open>Up to the call that sets the remote description.\<close>

definition offer_begin :: "rtc_calls \<Rightarrow> string \<Rightarrow> session \<Rightarrow> (create_session_error \<times> string) option \<times> session" where
  "offer_begin rtc text s =
     (case rc_parse rtc text of
        Inl e \<Rightarrow> (Some (thrown e), s)
      | Inr off \<Rightarrow>
          if s_closed s \<or> \<not> s_has_peer s
          then (Some (E_Internal, ''PeerConnection closed while accepting the offer''), s)
          else case choose_video (session_direction (of_attributes off)) (of_media off) None of
            Inl e \<Rightarrow> (Some (E_InvalidOffer, e), s)
          | Inr None \<Rightarrow> (Some (E_InvalidOffer, ''WHEP offer must contain recvonly H.264 video''), s)
          | Inr (Some p) \<Rightarrow>
              (map_option thrown (rc_apply_error rtc), s\<lparr>s_has_track := True\<rparr>))"

text \<open>The wait for the answer; the state is the one at which it returns.\<close>

definition offer_ready :: "session \<Rightarrow> bool" where
  "offer_ready s \<longleftrightarrow> (s_description_ready s \<and> s_gathering_complete s) \<or> s_failed s \<or> s_closed s"

definition offer_wait :: "time_point \<Rightarrow> session \<Rightarrow> (create_session_error \<times> string) option \<times> session" where
  "offer_wait now s =
     (if \<not> offer_ready s then (Some (E_GatheringTimeout, ''ICE gathering timed out''), s)
      else if s_failed s \<or> s_closed s
      then (Some (E_Internal, ''PeerConnection closed while creating the answer''), s)
      else (None, s\<lparr>s_last_activity := now\<rparr>))"

definition offer_answer :: "rtc_calls \<Rightarrow> time_point \<Rightarrow> session \<Rightarrow> create_result \<times> session" where
  "offer_answer rtc now s =
     (case rc_answer rtc of
        Inl e \<Rightarrow> (Inl (E_Internal, e), s)
      | Inr None \<Rightarrow> (Inl (E_Internal, ''PeerConnection did not produce an SDP answer''), s)
      | Inr (Some answer) \<Rightarrow>
          if s_closed s \<or> s_failed s
          then (Inl (E_Internal, ''PeerConnection closed while creating the answer''), s)
          else (Inr (s_id s, answer), s\<lparr>s_answer_ready := True, s_wait_started := now\<rparr>))"

section \<open>Closing, media\<close>

definition close_with_reason :: "string \<Rightarrow> session \<Rightarrow> session" where
  "close_with_reason reason s =
     (if s_cleanup_started s then s
      else s\<lparr>s_cleanup_started := True, s_closed := True, s_peer_state := ''closed'',
             s_close_reason := (if s_close_reason s = [] then reason else s_close_reason s),
             s_running := False, s_has_peer := False, s_queue := shutdown (s_queue s), s_worker := False\<rparr>)"

definition activate_media :: "bool \<Rightarrow> encoded_access_unit option \<Rightarrow> session \<Rightarrow> bool \<times> session" where
  "activate_media thread_ok keyframe s =
     (if s_closed s \<or> s_cleanup_started s then (False, s)
      else
        let q = reset (s_queue s);
            q1 = (case keyframe of None \<Rightarrow> q | Some u \<Rightarrow> snd (push u q))
        in if thread_ok then (True, s\<lparr>s_queue := q1, s_running := True, s_worker := True\<rparr>)
           else (False, s\<lparr>s_queue := shutdown q1, s_running := False\<rparr>))"

definition enqueue :: "encoded_access_unit \<Rightarrow> session \<Rightarrow> session" where
  "enqueue u s = (if \<not> s_running s then s else s\<lparr>s_queue := snd (push u (s_queue s))\<rparr>)"

definition stale_reason :: "time_point \<Rightarrow> duration \<Rightarrow> session \<Rightarrow> string" where
  "stale_reason now timeout s =
     (if s_failed s then (if s_failure_stage s = [] then ''peer_failure'' else s_failure_stage s @ ''_failure'')
      else if s_closed s then (if s_close_reason s = [] then ''peer_closed'' else s_close_reason s)
      else if s_answer_ready s \<and> \<not> s_connected s \<and> now - s_wait_started s \<ge> timeout
      then ''connection_timeout'' else [])"

section \<open>Diagnostics\<close>

definition endpoint_address :: "string \<Rightarrow> string" where
  "endpoint_address endpoint =
     (if endpoint = [] then []
      else if hd endpoint = CHR ''['' then
        (case index_where (\<lambda>c. c = CHR '']'') endpoint of
           None \<Rightarrow> []
         | Some close \<Rightarrow> substr 1 (Some (close - 1)) endpoint)
      else case rfind_char (CHR '':'') endpoint of
        None \<Rightarrow> endpoint
      | Some colon \<Rightarrow> substr 0 (Some colon) endpoint)"

text \<open>The library's view of the selected route: the chosen pair's local candidate and its address, the
  local address, and an exception of the calls.  \<open>dg_interface\<close> is the operating system's
  interface table.\<close>

record route =
  dg_selected :: "(string \<times> string option) option"
  dg_local_address :: "string option"
  dg_throws :: bool
  dg_interface :: "string \<Rightarrow> string"

definition session_diagnostics :: "route \<Rightarrow> time_point \<Rightarrow> session \<Rightarrow> webrtc_peer_diagnostics" where
  "session_diagnostics rt now s =
     (let base =
        \<lparr>pd_session_id = s_id s, pd_peer_state = s_peer_state s, pd_ice_state = s_ice_state s,
         pd_local_candidate = s_local_candidate s, pd_local_interface = s_local_interface s,
         pd_selected_interface = [],
         pd_connection_age_s =
           (if s_connected_at s \<noteq> 0 then of_int (trunc_div (now - s_connected_at s) (seconds 1)) else 0),
         pd_bytes_sent = s_bytes_sent s, pd_packets_sent = s_packets_sent s,
         pd_packets_retransmitted = s_packets_retransmitted s,
         pd_media_queue_drops = dropped (bq_stats (s_queue s)), pd_keyframe_events = s_keyframe_events s,
         pd_failure_stage = s_failure_stage s, pd_close_reason = s_close_reason s, pd_last_error = s_last_error s\<rparr>
      in if \<not> s_has_peer s \<or> dg_throws rt then base
         else case dg_selected rt of
           Some (candidate, address) \<Rightarrow>
             (let b1 = base\<lparr>pd_local_candidate := candidate\<rparr> in
              case address of
                Some a \<Rightarrow> b1\<lparr>pd_selected_interface := dg_interface rt a\<rparr>
              | None \<Rightarrow> b1)
         | None \<Rightarrow>
             (case dg_local_address rt of
                None \<Rightarrow> base
              | Some a \<Rightarrow>
                  base\<lparr>pd_local_candidate := (if pd_local_candidate base = [] then a else pd_local_candidate base),
                       pd_selected_interface := dg_interface rt (endpoint_address a)\<rparr>))"

section \<open>The media thread\<close>

record media_thread =
  mt_waiting :: bool
  mt_initialized :: bool
  mt_last_pts :: u64
  mt_rtp_timestamp :: u32
  mt_step :: u32
  mt_observed_drops :: u64
  mt_log :: "log_entry list"
  mt_sent :: "(encoded_access_unit \<times> u32) list"

text \<open>\<open>mt_log\<close> and \<open>mt_sent\<close> record, for the properties, the units the thread took
  with the drop count it read, and the units it handed to the track with their timestamps.\<close>

definition new_media_thread :: media_thread where
  "new_media_thread =
     \<lparr>mt_waiting = True, mt_initialized = False, mt_last_pts = 0, mt_rtp_timestamp = 0, mt_step = 3000,
      mt_observed_drops = 0, mt_log = [], mt_sent = []\<rparr>"

text \<open>What a pass of the loop finds: whether the track is open when the wait for it ends and at the check
  that follows, the flag \<^verbatim>\<open>media_running_\<close> at that check, the start timestamp of the RTP
  configuration, the outcome of \<^verbatim>\<open>send\<close>, and the units that are queued between the
  pop and the reading of the drop counter.\<close>

datatype send_outcome = Sent | Rejected | Send_threw string | Send_threw_unknown

record media_env =
  me_pushes :: "encoded_access_unit list"
  me_running :: bool
  me_open :: bool
  me_start_timestamp :: u32
  me_send :: send_outcome

definition timestamp_step :: "u64 \<Rightarrow> u64 \<Rightarrow> u32" where
  "timestamp_step pts last_pts =
     (let delta = pts - last_pts;
          converted = (delta div 1000000000) * 90000 + ((delta mod 1000000000) * 90000) div 1000000000
      in ucast (max 1 converted))"

definition stamp_unit :: "u32 \<Rightarrow> encoded_access_unit \<Rightarrow> media_thread \<Rightarrow> media_thread" where
  "stamp_unit start u t =
     (let t1 =
        (if au_has_pts u then t\<lparr>mt_initialized := True, mt_rtp_timestamp := h264_rtp_timestamp (au_pts_ns u)\<rparr>
         else if \<not> mt_initialized t then t\<lparr>mt_initialized := True, mt_rtp_timestamp := start\<rparr>
         else if au_pts_ns u > mt_last_pts t then
           (let step = timestamp_step (au_pts_ns u) (mt_last_pts t) in
            t\<lparr>mt_step := (if step \<le> 90000 then step else mt_step t),
              mt_rtp_timestamp := mt_rtp_timestamp t + step\<rparr>)
         else t\<lparr>mt_rtp_timestamp := mt_rtp_timestamp t + mt_step t\<rparr>)
      in t1\<lparr>mt_last_pts := au_pts_ns u\<rparr>)"

definition note_unit :: "encoded_access_unit \<Rightarrow> u64 \<Rightarrow> media_thread \<Rightarrow> media_thread" where
  "note_unit u drops t =
     (let t1 = (if au_discontinuity u then t\<lparr>mt_waiting := True, mt_initialized := False\<rparr> else t) in
      if drops \<noteq> mt_observed_drops t1 then t1\<lparr>mt_observed_drops := drops, mt_waiting := True\<rparr> else t1)"

definition deliver :: "media_env \<Rightarrow> encoded_access_unit \<Rightarrow> u64 \<Rightarrow> session \<times> media_thread \<Rightarrow> session \<times> media_thread" where
  "deliver env u drops st =
     (let s = fst st; t = stamp_unit (me_start_timestamp env) u ((snd st)\<lparr>mt_waiting := False\<rparr>);
          t1 = t\<lparr>mt_log := mt_log t @ [Wrote u drops], mt_sent := mt_sent t @ [(u, mt_rtp_timestamp t)]\<rparr>
      in case me_send env of
           Sent \<Rightarrow> (s, t1)
         | Rejected \<Rightarrow> ((record_media_error ''media track rejected an access unit'' s)\<lparr>s_running := False\<rparr>, t1)
         | Send_threw e \<Rightarrow> ((record_media_error e s)\<lparr>s_running := False\<rparr>, t1)
         | Send_threw_unknown \<Rightarrow>
             ((record_media_error ''unknown media delivery error'' s)\<lparr>s_running := False\<rparr>, t1))"

definition lose :: "encoded_access_unit \<Rightarrow> media_thread \<Rightarrow> media_thread" where
  "lose u t = t\<lparr>mt_log := mt_log t @ [Lost u]\<rparr>"

definition media_turn :: "media_env \<Rightarrow> session \<times> media_thread \<Rightarrow> session \<times> media_thread" where
  "media_turn env st =
     (let s = fst st in
      if \<not> s_running s then st
      else case pop_for (s_queue s) of
        (None, q) \<Rightarrow> (s\<lparr>s_queue := q\<rparr>, snd st)
      | (Some u, q0) \<Rightarrow>
          (let q = push_all (me_pushes env) q0; s1 = s\<lparr>s_queue := q\<rparr>; drops = dropped (bq_stats q); t = note_unit u drops (snd st) in
           if mt_waiting t \<and> \<not> au_keyframe u then (s1, lose u t)
           else if \<not> me_running env \<or> \<not> s_has_track s1 \<or> \<not> me_open env then (s1, lose u t)
           else deliver env u drops (s1, t)))"

section \<open>Properties of the media thread\<close>

text \<open>Runs of the loop.  Between two passes other threads act on the session in any way; a pass that
  finds the track closed after waiting for it to open ends the sending, since a closed track does not
  open again, and so does a pass that finds the thread stopped.\<close>

definition ends_sending :: "media_env \<Rightarrow> session \<Rightarrow> bool" where
  "ends_sending env s \<longleftrightarrow> \<not> me_running env \<or> \<not> s_has_track s \<or> \<not> me_open env"

inductive media_run :: "media_thread \<Rightarrow> bool \<Rightarrow> bool" where
  begin_media: "media_run new_media_thread False"
| pass_media: "media_run t ended \<Longrightarrow> (ended \<longrightarrow> ends_sending env s) \<Longrightarrow>
    media_turn env (s, t) = (s', t') \<Longrightarrow> media_run t' (ended \<or> ends_sending env s)"

definition media_inv :: "media_thread \<Rightarrow> bool \<Rightarrow> bool" where
  "media_inv t ended \<longleftrightarrow> decodable (mt_log t) \<and>
     (ended \<or> mt_waiting t \<or> (\<exists>zs v. mt_log t = zs @ [Wrote v (mt_observed_drops t)]))"

lemma stamp_unit_fields [simp]:
  "mt_log (stamp_unit st u t) = mt_log t" "mt_waiting (stamp_unit st u t) = mt_waiting t"
  "mt_observed_drops (stamp_unit st u t) = mt_observed_drops t" "mt_sent (stamp_unit st u t) = mt_sent t"
  by (simp_all add: stamp_unit_def Let_def)

lemma note_unit_fields [simp]:
  "mt_log (note_unit u d t) = mt_log t" "mt_observed_drops (note_unit u d t) = d"
  by (simp_all add: note_unit_def Let_def)

lemma deliver_fields:
  "mt_log (snd (deliver env u d st)) = mt_log (snd st) @ [Wrote u d]"
  "mt_waiting (snd (deliver env u d st)) = False"
  "mt_observed_drops (snd (deliver env u d st)) = mt_observed_drops (snd st)"
  by (cases "me_send env"; simp add: deliver_def Let_def)+

lemma note_unit_follows:
  assumes "media_inv t False" "\<not> mt_waiting (note_unit u d t)"
  shows "follows (mt_log t) u d"
  using assms by (auto simp: media_inv_def note_unit_def follows_def Let_def split: if_splits)

lemma media_turn_inv:
  assumes "media_inv t ended" "ended \<longrightarrow> ends_sending env s" "media_turn env (s, t) = (s', t')"
  shows "media_inv t' (ended \<or> ends_sending env s)"
proof (cases "s_running s \<and> fst (pop_for (s_queue s)) \<noteq> None")
  case False
  then have "t' = t" using assms(3) by (auto simp: media_turn_def Let_def split: if_splits prod.splits)
  then show ?thesis using assms(1) by (auto simp: media_inv_def)
next
  case True
  then obtain u q0 where pop: "pop_for (s_queue s) = (Some u, q0)" by (cases "pop_for (s_queue s)") auto
  define q where "q = push_all (me_pushes env) q0"
  define d where "d = dropped (bq_stats q)"
  define t1 where "t1 = note_unit u d t"
  have "media_turn env (s, t) =
      (if mt_waiting t1 \<and> \<not> au_keyframe u \<or> ends_sending env s then (s\<lparr>s_queue := q\<rparr>, lose u t1)
       else deliver env u d (s\<lparr>s_queue := q\<rparr>, t1))"
    using True pop by (auto simp: media_turn_def Let_def d_def q_def t1_def ends_sending_def)
  then have turn: "t' = (if mt_waiting t1 \<and> \<not> au_keyframe u \<or> ends_sending env s then lose u t1
                         else snd (deliver env u d (s\<lparr>s_queue := q\<rparr>, t1)))"
    using assms(3) by (metis snd_conv)
  have dec: "decodable (mt_log t)" using assms(1) by (simp add: media_inv_def)
  show ?thesis
  proof (cases "mt_waiting t1 \<and> \<not> au_keyframe u \<or> ends_sending env s")
    case lost: True
    then show ?thesis using turn dec by (auto simp: media_inv_def lose_def t1_def)
  next
    case False
    then have "\<not> ended" using assms(2) by blast
    moreover have "au_keyframe u \<or> follows (mt_log t) u d"
      using False note_unit_follows[of t u d] assms(1) \<open>\<not> ended\<close> by (auto simp: t1_def)
    moreover have "t' = snd (deliver env u d (s\<lparr>s_queue := q\<rparr>, t1))" using turn False by (simp only: if_False)
    ultimately show ?thesis using dec by (simp add: media_inv_def deliver_fields t1_def)
  qed
qed


definition sample_session :: session where
  "sample_session =
     (case new_session ''s'' 4 0 of
        Inr s \<Rightarrow> snd (activate_media True (Some (sample_unit True)) (s\<lparr>s_has_track := True\<rparr>))
      | Inl _ \<Rightarrow> undefined)"

definition sample_media_env :: media_env where
  "sample_media_env = \<lparr>me_pushes = [], me_running = True, me_open = True, me_start_timestamp = 0, me_send = Sent\<rparr>"


end
