(* ===== verification/WebRtc_Manager.thy ===== *)
theory WebRtc_Manager
  imports WebRtc_Session
begin

text \<open>
  \<^verbatim>\<open>WebRtcManager\<close> of \<^verbatim>\<open>src/webrtc/webrtc_manager.cpp\<close>.  Sessions are shared
  objects: \<open>m_heap\<close> holds them by handle, \<open>m_table\<close> is the map
  \<^verbatim>\<open>sessions_\<close> from identifiers to handles.  Each section under the manager's mutex is one
  definition; the calls that take the mutex several times compose them, and \<open>manager_step\<close>
  interleaves the sections of all threads; the sessions a thread has taken from the table and not yet
  closed are the second component of its states.
\<close>

section \<open>State\<close>

record manager =
  m_enabled :: bool
  m_stopping :: bool
  m_media_available :: bool
  m_reason :: string
  m_max_peers :: nat
  m_capacity :: nat
  m_timeout :: duration
  m_overridden :: bool
  m_table :: "(string \<times> nat) list"
  m_heap :: "nat \<Rightarrow> session"
  m_next :: nat
  m_recent :: "webrtc_peer_diagnostics list"
  m_keyframe :: "encoded_access_unit option"
  m_created :: u64
  m_closed :: u64
  m_signaling_errors :: u64
  m_last_close :: string

definition new_manager :: "duration \<Rightarrow> manager" where
  "new_manager stale_timeout =
     \<lparr>m_enabled = False, m_stopping = True, m_media_available = True, m_reason = [], m_max_peers = 0,
      m_capacity = 8, m_timeout = (if stale_timeout > 0 then stale_timeout else seconds 15),
      m_overridden = (stale_timeout > 0), m_table = [], m_heap = (\<lambda>_. undefined), m_next = 0, m_recent = [],
      m_keyframe = None, m_created = 0, m_closed = 0, m_signaling_errors = 0, m_last_close = []\<rparr>"

definition on_session :: "nat \<Rightarrow> (session \<Rightarrow> session) \<Rightarrow> manager \<Rightarrow> manager" where
  "on_session h f m = m\<lparr>m_heap := (m_heap m)(h := f (m_heap m h))\<rparr>"

text \<open>\<^verbatim>\<open>static_cast<std::size_t>\<close> of an \<^verbatim>\<open>int\<close>.\<close>

definition to_size :: "int \<Rightarrow> nat" where
  "to_size i = unat (of_int i :: u64)"

section \<open>Sections under the mutex\<close>

definition remember_closed :: "time_point \<Rightarrow> route \<Rightarrow> nat \<Rightarrow> string \<Rightarrow> manager \<Rightarrow> manager" where
  "remember_closed now rt h reason m =
     (let m1 = on_session h (close_with_reason reason) m;
          m2 = m1\<lparr>m_recent := m_recent m1 @ [session_diagnostics rt now (m_heap m1 h)]\<rparr>
      in m2\<lparr>m_recent := drop (length (m_recent m2) - 16) (m_recent m2)\<rparr>)"

definition remember_all :: "time_point \<Rightarrow> route \<Rightarrow> (nat \<times> string) list \<Rightarrow> manager \<Rightarrow> manager" where
  "remember_all now rt hs m = fold (\<lambda>(h, reason). remember_closed now rt h reason) hs m"

text \<open>Taking every session out of the table, as \<^verbatim>\<open>shutdown\<close> and the loss of media do.\<close>

definition take_all :: "string \<Rightarrow> manager \<Rightarrow> (nat \<times> string) list \<times> manager" where
  "take_all reason m =
     (map (\<lambda>(k, h). (h, reason)) (m_table m),
      (if m_table m = [] then m
       else m\<lparr>m_closed := m_closed m + of_nat (length (m_table m)), m_last_close := reason\<rparr>)\<lparr>m_table := []\<rparr>)"

definition stop_flags :: "manager \<Rightarrow> manager" where
  "stop_flags m = m\<lparr>m_enabled := False, m_stopping := True\<rparr>"

definition shutdown_take :: "manager \<Rightarrow> (nat \<times> string) list \<times> manager" where
  "shutdown_take m =
     (let (hs, m1) = take_all ''service_shutdown'' m in (hs, m1\<lparr>m_keyframe := None\<rparr>))"

definition shutdown_manager :: "time_point \<Rightarrow> route \<Rightarrow> manager \<Rightarrow> manager" where
  "shutdown_manager now rt m =
     (let (hs, m1) = shutdown_take (stop_flags m) in remember_all now rt hs m1)"

definition apply_config :: "webrtc_config \<Rightarrow> manager \<Rightarrow> manager" where
  "apply_config cfg m =
     m\<lparr>m_enabled := wrc_enabled cfg, m_max_peers := to_size (max_peers cfg),
       m_capacity := to_size (media_queue_capacity cfg),
       m_timeout := (if m_overridden m then m_timeout m else milliseconds (connection_timeout_ms cfg)),
       m_stopping := \<not> wrc_enabled cfg\<rparr>"

definition configure_manager :: "time_point \<Rightarrow> route \<Rightarrow> webrtc_config \<Rightarrow> manager \<Rightarrow> manager" where
  "configure_manager now rt cfg m = apply_config cfg (shutdown_manager now rt m)"

definition take_session :: "string \<Rightarrow> string \<Rightarrow> manager \<Rightarrow> nat option \<times> manager" where
  "take_session sid reason m =
     (case map_of (m_table m) sid of
        None \<Rightarrow> (None, m)
      | Some h \<Rightarrow>
          (Some h, m\<lparr>m_table := filter (\<lambda>(k, _). k \<noteq> sid) (m_table m), m_closed := m_closed m + 1,
                     m_last_close := reason\<rparr>))"

definition close_session :: "time_point \<Rightarrow> route \<Rightarrow> string \<Rightarrow> manager \<Rightarrow> bool \<times> manager" where
  "close_session now rt sid m =
     (case take_session sid ''client_delete'' m of
        (None, m1) \<Rightarrow> (False, m1)
      | (Some h, m1) \<Rightarrow> (True, remember_closed now rt h ''client_delete'' m1))"

text \<open>The loop over the table: the stale sessions leave it.\<close>

fun take_stale_loop :: "time_point \<Rightarrow> (string \<times> nat) list \<Rightarrow> manager \<Rightarrow> (nat \<times> string) list \<times> manager" where
  "take_stale_loop now [] m = ([], m)"
| "take_stale_loop now ((k, h) # rest) m =
     (let reason = stale_reason now (m_timeout m) (m_heap m h) in
      if reason = [] then take_stale_loop now rest m
      else
        let (hs, m1) = take_stale_loop now rest
              (m\<lparr>m_table := filter (\<lambda>(k', _). k' \<noteq> k) (m_table m), m_closed := m_closed m + 1,
                 m_last_close := reason\<rparr>)
        in ((h, reason) # hs, m1))"

definition take_stale :: "time_point \<Rightarrow> manager \<Rightarrow> (nat \<times> string) list \<times> manager" where
  "take_stale now m = take_stale_loop now (m_table m) m"

definition cleanup_stale_sessions :: "time_point \<Rightarrow> route \<Rightarrow> manager \<Rightarrow> nat \<times> manager" where
  "cleanup_stale_sessions now rt m =
     (let (hs, m1) = take_stale now m in (length hs, remember_all now rt hs m1))"

definition take_unavailable :: "bool \<Rightarrow> string \<Rightarrow> manager \<Rightarrow> (nat \<times> string) list \<times> manager" where
  "take_unavailable avail reason m =
     (if m_media_available m = avail \<and> m_reason m = (if avail then [] else reason) then ([], m)
      else
        let m1 = m\<lparr>m_media_available := avail, m_reason := (if avail then [] else reason)\<rparr> in
        if avail then ([], m1)
        else take_all ''source_media_unavailable'' (m1\<lparr>m_keyframe := None\<rparr>))"

definition set_media_available_manager :: "time_point \<Rightarrow> route \<Rightarrow> bool \<Rightarrow> string \<Rightarrow> manager \<Rightarrow> manager" where
  "set_media_available_manager now rt avail reason m =
     (let (hs, m1) = take_unavailable avail reason m in remember_all now rt hs m1)"

definition publish_access_unit :: "encoded_access_unit \<Rightarrow> manager \<Rightarrow> manager" where
  "publish_access_unit u m =
     (if \<not> m_enabled m \<or> m_stopping m \<or> \<not> m_media_available m then m
      else
        let m1 = (if au_discontinuity u then m\<lparr>m_keyframe := None\<rparr> else m);
            m2 = (if au_keyframe u then m1\<lparr>m_keyframe := Some u\<rparr> else m1)
        in fold (\<lambda>(k, h). on_session h (enqueue u)) (m_table m2) m2)"

section \<open>Creating a session\<close>

text \<open>\<open>fresh_id\<close> is the first random identifier that is not in the table, and \<open>created\<close>
  what creating the peer gives: a session, an exception or a null pointer.\<close>

definition reserve :: "string \<Rightarrow> session result \<Rightarrow> manager \<Rightarrow> ((create_session_error \<times> string) + nat) \<times> manager" where
  "reserve fresh_id created m =
     (if \<not> m_enabled m \<or> m_stopping m then (Inl (E_Disabled, ''WebRTC is disabled''), m)
      else if \<not> m_media_available m then
        (Inl (E_Disabled, if m_reason m = [] then ''browser-compatible source H.264 is unavailable''
                          else m_reason m), m)
      else if length (m_table m) \<ge> m_max_peers m then (Inl (E_Capacity, ''maximum peer count reached''), m)
      else case created of
        Inl e \<Rightarrow>
          (Inl (E_Internal, ''PeerConnection creation failed''),
           m\<lparr>m_signaling_errors := m_signaling_errors m + 1\<rparr>)
      | Inr s \<Rightarrow>
          (Inr (m_next m),
           m\<lparr>m_heap := (m_heap m)(m_next m := s), m_next := m_next m + 1,
             m_table := (fresh_id, m_next m) # m_table m, m_created := m_created m + 1\<rparr>))"

text \<open>After a failed offer: the session leaves the table if it is still there.\<close>

definition take_failed :: "nat \<Rightarrow> manager \<Rightarrow> nat option \<times> manager" where
  "take_failed h m =
     take_session (s_id (m_heap m h)) ''signaling_failure''
       (m\<lparr>m_signaling_errors := m_signaling_errors m + 1\<rparr>)"

text \<open>After an accepted offer: whether the session is still the one of its identifier, and the cached
  keyframe.\<close>

definition confirm :: "nat \<Rightarrow> manager \<Rightarrow> bool \<times> encoded_access_unit option \<times> manager" where
  "confirm h m =
     (if m_stopping m \<or> \<not> m_media_available m \<or> map_of (m_table m) (s_id (m_heap m h)) \<noteq> Some h
      then (False, None, on_session h (close_with_reason ''session_closed'') m)
      else (True, m_keyframe m, m))"

text \<open>The environment of a request: the library's calls, what its callbacks do to the session while the
  request waits, the clock, the outcome of creating the peer and of starting the thread.\<close>

record request_env =
  re_now :: time_point
  re_route :: route
  re_rtc :: rtc_calls
  re_fresh_id :: string
  re_created :: "string \<Rightarrow> nat \<Rightarrow> session result"
  re_callbacks :: "session \<Rightarrow> session"
  re_thread_ok :: bool

definition accept_offer :: "request_env \<Rightarrow> string \<Rightarrow> session \<Rightarrow> create_result \<times> session" where
  "accept_offer env text s =
     (case offer_begin (re_rtc env) text s of
        (Some e, s1) \<Rightarrow> (Inl e, s1)
      | (None, s1) \<Rightarrow>
          (case offer_wait (re_now env) (re_callbacks env s1) of
             (Some e, s2) \<Rightarrow> (Inl e, s2)
           | (None, s2) \<Rightarrow> offer_answer (re_rtc env) (re_now env) s2))"

definition fail_session :: "request_env \<Rightarrow> nat \<Rightarrow> string \<Rightarrow> manager \<Rightarrow> manager" where
  "fail_session env h message m =
     (case take_failed h m of
        (None, m1) \<Rightarrow> m1
      | (Some h', m1) \<Rightarrow>
          remember_closed (re_now env) (re_route env) h' ''signaling_failure''
            (on_session h' (record_failure ''signaling'' message True) m1))"

definition start_session :: "request_env \<Rightarrow> nat \<Rightarrow> string \<times> string \<Rightarrow> manager \<Rightarrow> create_result \<times> manager" where
  "start_session env h answer m =
     (case confirm h m of
        (False, _, m1) \<Rightarrow> (Inl (E_Disabled, ''WebRTC is shutting down''), m1)
      | (True, keyframe, m1) \<Rightarrow>
          (let (ok, s) = activate_media (re_thread_ok env) keyframe (m_heap m1 h);
               m2 = on_session h (\<lambda>_. s) m1
           in if ok then (Inr answer, m2)
              else (Inl (E_Disabled, ''WebRTC is shutting down''),
                    snd (close_session (re_now env) (re_route env) (s_id s) m2))))"

definition create_session :: "request_env \<Rightarrow> string \<Rightarrow> manager \<Rightarrow> create_result \<times> manager" where
  "create_session env text m =
     (if text = [] then (Inl (E_InvalidOffer, ''SDP offer is empty''), m)
      else
        let m1 = snd (cleanup_stale_sessions (re_now env) (re_route env) m) in
        case reserve (re_fresh_id env) (re_created env (re_fresh_id env) (m_capacity m1)) m1 of
          (Inl e, m2) \<Rightarrow> (Inl e, m2)
        | (Inr h, m2) \<Rightarrow>
            (let (r, s) = accept_offer env text (m_heap m2 h); m3 = on_session h (\<lambda>_. s) m2 in
             case r of
               Inl e \<Rightarrow> (Inl e, fail_session env h (snd e) m3)
             | Inr answer \<Rightarrow> start_session env h answer m3))"

definition manager_diagnostics :: "time_point \<Rightarrow> (string \<Rightarrow> route) \<Rightarrow> u64 \<Rightarrow> manager \<Rightarrow> webrtc_diagnostics" where
  "manager_diagnostics now routes errors m =
     \<lparr>wd_enabled = m_enabled m \<and> \<not> m_stopping m, wd_media_available = m_media_available m,
      wd_media_unavailable_reason = m_reason m, wd_keyframe_cached = (m_keyframe m \<noteq> None), wd_lan_only = True,
      wd_max_peers = m_max_peers m, wd_sessions_created = m_created m, wd_sessions_closed = m_closed m,
      wd_signaling_errors = m_signaling_errors m, wd_media_errors = errors, wd_last_close_reason = m_last_close m,
      wd_peers = map (\<lambda>(k, h). session_diagnostics (routes k) now (m_heap m h)) (m_table m),
      wd_recently_closed = m_recent m\<rparr>"

definition session_count :: "manager \<Rightarrow> nat" where
  "session_count m = length (m_table m)"

definition cleanup_interval :: "manager \<Rightarrow> duration" where
  "cleanup_interval m = min (milliseconds 1000)
     (max (milliseconds 10) (milliseconds (trunc_div (trunc_div (m_timeout m) (milliseconds 1)) 2)))"

text \<open>Two hexadecimal digits per random byte.\<close>

definition make_session_id :: "u8 list \<Rightarrow> string" where
  "make_session_id bytes = concat (map (\<lambda>b. [hex_digit (unat b div 16), hex_digit (unat b mod 16)]) bytes)"

section \<open>Interleavings\<close>

text \<open>What the threads of a session do to it: the library's callbacks, the phases of the offer, the media
  thread and the publisher.\<close>

inductive session_op :: "(session \<Rightarrow> session) \<Rightarrow> bool" where
  "session_op (on_local_description now)"
| "session_op (on_local_candidate text interface)"
| "session_op (on_gathering_complete now)"
| "session_op (on_state_change st name now)"
| "session_op (on_ice_state_change st name)"
| "session_op (record_failure stage e preserve)"
| "session_op (record_media_error e)"
| "session_op (\<lambda>s. snd (offer_begin rtc text s))"
| "session_op (\<lambda>s. snd (offer_wait now s))"
| "session_op (\<lambda>s. snd (offer_answer rtc now s))"
| "session_op (\<lambda>s. snd (activate_media ok keyframe s))"
| "session_op (enqueue u)"
| "session_op (\<lambda>s. fst (media_turn env (s, t)))"

text \<open>A state of the interleaving: the manager, and the sessions taken out of the table that some thread
  is about to close.\<close>

type_synonym world = "manager \<times> (nat \<times> string) list"

inductive manager_step :: "world \<Rightarrow> world \<Rightarrow> bool" where
  reserve_step: "reserve sid (Inr s) m = (r, m') \<Longrightarrow> sid \<notin> fst ` set (m_table m) \<Longrightarrow> s_id s = sid \<Longrightarrow>
    manager_step (m, c) (m', c)"
| reserve_error: "reserve sid (Inl e) m = (r, m') \<Longrightarrow> manager_step (m, c) (m', c)"
| session_step: "session_op f \<Longrightarrow> h < m_next m \<Longrightarrow> manager_step (m, c) (on_session h f m, c)"
| confirm_step: "h < m_next m \<Longrightarrow> confirm h m = (ok, k, m') \<Longrightarrow> manager_step (m, c) (m', c)"
| take_failed_step: "take_failed h m = (r, m') \<Longrightarrow>
    manager_step (m, c) (m', (case r of None \<Rightarrow> c | Some h' \<Rightarrow> (h', ''signaling_failure'') # c))"
| take_step: "take_session sid ''client_delete'' m = (r, m') \<Longrightarrow>
    manager_step (m, c) (m', (case r of None \<Rightarrow> c | Some h \<Rightarrow> (h, ''client_delete'') # c))"
| stale_step: "take_stale now m = (hs, m') \<Longrightarrow> manager_step (m, c) (m', hs @ c)"
| media_step: "take_unavailable avail reason m = (hs, m') \<Longrightarrow> manager_step (m, c) (m', hs @ c)"
| stop_step: "manager_step (m, c) (stop_flags m, c)"
| shutdown_step: "shutdown_take m = (hs, m') \<Longrightarrow> manager_step (m, c) (m', hs @ c)"
| config_step: "\<not> m_enabled m \<Longrightarrow> m_stopping m \<Longrightarrow> m_table m = [] \<Longrightarrow>
    manager_step (m, c) (apply_config cfg m, c)"
| close_step: "(h, reason) \<in> set c \<Longrightarrow>
    manager_step (m, c) (remember_closed now rt h reason m, remove1 (h, reason) c)"
| publish_step: "manager_step (m, c) (publish_access_unit u m, c)"

inductive manager_reach :: "duration \<Rightarrow> world \<Rightarrow> bool" for stale where
  reach_new: "manager_reach stale (new_manager stale, [])"
| reach_step: "manager_reach stale w \<Longrightarrow> manager_step w w' \<Longrightarrow> manager_reach stale w'"

definition owned :: "nat \<Rightarrow> world \<Rightarrow> bool" where
  "owned h w \<longleftrightarrow>
     h \<in> snd ` set (m_table (fst w)) \<or> h \<in> fst ` set (snd w) \<or> s_cleanup_started (m_heap (fst w) h)"

definition manager_inv :: "world \<Rightarrow> bool" where
  "manager_inv w \<longleftrightarrow>
     (let m = fst w in
      distinct (map fst (m_table m)) \<and>
      (\<forall>(k, h) \<in> set (m_table m). h < m_next m \<and> s_id (m_heap m h) = k) \<and>
      length (m_table m) \<le> m_max_peers m \<and>
      (m_media_available m \<or> m_table m = []) \<and>
      m_created m = m_closed m + of_nat (length (m_table m)) \<and>
      length (m_recent m) \<le> 16 \<and>
      (\<forall>h < m_next m. owned h w))"

lemma media_turn_session:
  "s_id (fst (media_turn env (s, t))) = s_id s \<and> s_cleanup_started (fst (media_turn env (s, t))) = s_cleanup_started s"
  by (auto simp: media_turn_def deliver_def record_media_error_def record_failure_def Let_def
      split: prod.splits option.splits send_outcome.splits)

lemma session_op_keeps:
  assumes "session_op f"
  shows "s_id (f s) = s_id s \<and> (s_cleanup_started s \<longrightarrow> s_cleanup_started (f s))"
  using assms
proof cases
  case (13 env t)
  then show ?thesis using media_turn_session by simp
qed (auto simp: on_local_description_def on_local_candidate_def on_gathering_complete_def on_state_change_def
       on_ice_state_change_def record_failure_def record_media_error_def offer_begin_def offer_wait_def
       offer_answer_def activate_media_def enqueue_def Let_def
       split: option.splits sum.splits conn_state.splits)

lemma close_with_reason_keeps:
  "s_id (close_with_reason r s) = s_id s" "s_cleanup_started (close_with_reason r s)"
  by (simp_all add: close_with_reason_def)

text \<open>Changing one session in a way that keeps its identifier and does not undo its cleanup.\<close>

lemma on_session_inv:
  assumes "manager_inv (m, c)"
    and "\<And>s. s_id (f s) = s_id s" "\<And>s. s_cleanup_started s \<Longrightarrow> s_cleanup_started (f s)"
  shows "manager_inv (on_session h f m, c)"
  using assms unfolding manager_inv_def owned_def on_session_def Let_def by auto

lemma on_session_fields [simp]:
  "m_table (on_session h f m) = m_table m" "m_next (on_session h f m) = m_next m"
  "m_recent (on_session h f m) = m_recent m" "m_max_peers (on_session h f m) = m_max_peers m"
  "m_media_available (on_session h f m) = m_media_available m" "m_created (on_session h f m) = m_created m"
  "m_closed (on_session h f m) = m_closed m" "m_heap (on_session h f m) = (m_heap m)(h := f (m_heap m h))"
  by (simp_all add: on_session_def)

text \<open>Taking one session out of the table.\<close>

lemma length_filter_key:
  "distinct (map fst t) \<Longrightarrow> (k, h) \<in> set t \<Longrightarrow> Suc (length (filter (\<lambda>(k', _). k' \<noteq> k) t)) = length t"
proof (induction t)
  case (Cons p t)
  show ?case
  proof (cases "fst p = k")
    case True
    then have "k \<notin> fst ` set t" using Cons.prems(1) by auto
    then have "\<forall>q \<in> set t. fst q \<noteq> k" by (metis image_eqI)
    then have "filter (\<lambda>(k', _). k' \<noteq> k) t = t" by (auto simp: filter_id_conv)
    then show ?thesis using True by (auto split: prod.splits)
  next
    case False
    then show ?thesis using Cons by (auto split: prod.splits)
  qed
qed simp

lemma take_one_inv:
  assumes inv: "manager_inv (m, c)" and mem: "(k, h) \<in> set (m_table m)"
  shows "manager_inv (m\<lparr>m_table := filter (\<lambda>(k', _). k' \<noteq> k) (m_table m), m_closed := m_closed m + 1,
                         m_last_close := reason\<rparr>, (h, r) # c)"
proof -
  let ?t = "filter (\<lambda>(k', _). k' \<noteq> k) (m_table m)"
  have dist: "distinct (map fst (m_table m))" using inv by (simp add: manager_inv_def Let_def)
  have len: "Suc (length ?t) = length (m_table m)" by (rule length_filter_key[OF dist mem])
  have "h' = h \<or> (k', h') \<in> set ?t" if "(k', h') \<in> set (m_table m)" for k' h'
    using that mem eq_key_imp_eq_value[OF dist, of k h h'] by auto
  then have "snd ` set (m_table m) \<subseteq> insert h (snd ` set ?t)" by force
  then have "owned h' (m\<lparr>m_table := ?t, m_closed := m_closed m + 1, m_last_close := reason\<rparr>, (h, r) # c)"
    if "owned h' (m, c)" for h' using that by (auto simp: owned_def)
  moreover have "distinct (map fst ?t)" using dist by (rule distinct_map_filter)
  moreover have "(of_nat (length (m_table m)) :: u64) = of_nat (length ?t) + 1"
    by (simp flip: len)
  ultimately show ?thesis using inv len unfolding manager_inv_def Let_def by auto
qed

lemma take_session_inv:
  assumes "manager_inv (m, c)" "take_session sid reason m = (r, m')"
  shows "manager_inv (m', (case r of None \<Rightarrow> c | Some h \<Rightarrow> (h, reason) # c))"
proof (cases "map_of (m_table m) sid")
  case None
  then show ?thesis using assms by (auto simp: take_session_def)
next
  case (Some h)
  then have "(sid, h) \<in> set (m_table m)" by (rule map_of_SomeD)
  moreover have "r = Some h" "m' = m\<lparr>m_table := filter (\<lambda>(k, _). k \<noteq> sid) (m_table m),
      m_closed := m_closed m + 1, m_last_close := reason\<rparr>"
    using assms(2) Some by (simp_all add: take_session_def)
  ultimately show ?thesis using take_one_inv[OF assms(1)] by simp
qed

lemma take_stale_loop_inv:
  assumes "manager_inv (m, c)" "distinct (map fst xs)" "set xs \<subseteq> set (m_table m)"
    "take_stale_loop now xs m = (hs, m')"
  shows "manager_inv (m', hs @ c)"
  using assms
proof (induction now xs m arbitrary: c hs m' rule: take_stale_loop.induct)
  case (2 now k h rest m)
  show ?case
  proof (cases "stale_reason now (m_timeout m) (m_heap m h) = []")
    case True
    then show ?thesis using 2 by simp
  next
    case False
    define r where "r = stale_reason now (m_timeout m) (m_heap m h)"
    let ?m = "m\<lparr>m_table := filter (\<lambda>(k', _). k' \<noteq> k) (m_table m), m_closed := m_closed m + 1, m_last_close := r\<rparr>"
    obtain hs0 m0 where rest: "take_stale_loop now rest ?m = (hs0, m0)" by fastforce
    have res: "hs = (h, r) # hs0" "m' = m0" using 2(6) False rest by (auto simp: r_def Let_def)
    have one: "manager_inv (?m, (h, r) # c)" by (rule take_one_inv[OF 2(3)]) (use 2(5) in simp)
    have sub: "set rest \<subseteq> set (m_table ?m)" using 2(4,5) by (force simp: image_iff)
    have "manager_inv (m0, hs0 @ (h, r) # c)"
      by (rule 2(2)[OF r_def False[folded r_def] one _ sub rest]) (use 2(4) in simp)
    then show ?thesis unfolding res manager_inv_def owned_def Let_def by auto
  qed
qed simp

lemma take_all_inv:
  assumes "manager_inv (m, c)" "take_all reason (m\<lparr>m_media_available := b, m_reason := q, m_keyframe := k\<rparr>) = (hs, m')"
  shows "manager_inv (m', hs @ c)"
proof -
  have "fst ` set (map (\<lambda>(k, h). (h, reason)) t) = snd ` set t" for t :: "(string \<times> nat) list"
    by force
  moreover have "hs = map (\<lambda>(k, h). (h, reason)) (m_table m)" "m_table m' = []" "m_heap m' = m_heap m"
    "m_next m' = m_next m" "m_created m' = m_created m" "m_closed m' = m_closed m + of_nat (length (m_table m))"
    "m_recent m' = m_recent m"
    using assms(2) by (auto simp: take_all_def)
  ultimately show ?thesis
    using assms(1) unfolding manager_inv_def owned_def Let_def by (simp add: image_Un)
qed

text \<open>Operations on fields the invariant does not mention.\<close>

lemma inv_irrelevant [simp]:
  "manager_inv (m\<lparr>m_keyframe := k\<rparr>, c) = manager_inv (m, c)"
  "manager_inv (m\<lparr>m_signaling_errors := n\<rparr>, c) = manager_inv (m, c)"
  "manager_inv (m\<lparr>m_reason := r\<rparr>, c) = manager_inv (m, c)"
  "manager_inv (m\<lparr>m_enabled := e, m_stopping := s\<rparr>, c) = manager_inv (m, c)"
  by (simp_all add: manager_inv_def owned_def Let_def)

lemma reserve_inv:
  assumes "manager_inv (m, c)" "reserve sid cr m = (r, m')" "sid \<notin> fst ` set (m_table m)"
    "\<And>s. cr = Inr s \<Longrightarrow> s_id s = sid"
  shows "manager_inv (m', c)"
proof (cases "m' = m \<or> m' = m\<lparr>m_signaling_errors := m_signaling_errors m + 1\<rparr>")
  case True
  then show ?thesis using assms(1) by auto
next
  case False
  then obtain s where s: "cr = Inr s" "length (m_table m) < m_max_peers m" "m_media_available m"
    "m' = m\<lparr>m_heap := (m_heap m)(m_next m := s), m_next := m_next m + 1,
            m_table := (sid, m_next m) # m_table m, m_created := m_created m + 1\<rparr>"
    using assms(2) by (auto simp: reserve_def split: if_splits sum.splits)
  show ?thesis
    using assms(1,3) assms(4)[OF s(1)] s(2,3) unfolding s(4) manager_inv_def owned_def Let_def
    by (auto simp: less_Suc_eq)
qed

lemma remember_closed_inv:
  assumes "manager_inv (m, c)"
  shows "manager_inv (remember_closed now rt h reason m, remove1 (h, reason) c)"
proof -
  let ?m = "on_session h (close_with_reason reason) m"
  have inv: "manager_inv (?m, c)" using on_session_inv[OF assms] close_with_reason_keeps by blast
  have fields: "m_table (remember_closed now rt h reason m) = m_table m"
    "m_heap (remember_closed now rt h reason m) = m_heap ?m" "m_next (remember_closed now rt h reason m) = m_next m"
    "length (m_recent (remember_closed now rt h reason m)) \<le> 16"
    "m_max_peers (remember_closed now rt h reason m) = m_max_peers m"
    "m_media_available (remember_closed now rt h reason m) = m_media_available m"
    "m_created (remember_closed now rt h reason m) = m_created m"
    "m_closed (remember_closed now rt h reason m) = m_closed m"
    by (simp_all add: remember_closed_def Let_def)
  have "owned h' (remember_closed now rt h reason m, remove1 (h, reason) c)" if "owned h' (?m, c)" for h'
  proof (cases "h' = h")
    case True
    then show ?thesis by (simp add: owned_def fields close_with_reason_keeps)
  next
    case False
    have "h' \<in> fst ` set (remove1 (h, reason) c)" if "h' \<in> fst ` set c"
    proof -
      from that obtain r' where "(h', r') \<in> set c" by auto
      then have "(h', r') \<in> set (remove1 (h, reason) c)" using False by simp
      then show ?thesis by force
    qed
    then show ?thesis using \<open>owned h' (?m, c)\<close> by (auto simp: owned_def fields)
  qed
  then show ?thesis using inv unfolding manager_inv_def Let_def by (auto simp: fields)
qed

lemma fold_on_session_inv:
  assumes "session_op f" "manager_inv (m, c)"
  shows "manager_inv (fold (\<lambda>(k, h). on_session h f) ts m, c)"
  using assms(2)
proof (induction ts arbitrary: m)
  case (Cons kh ts)
  then show ?case using on_session_inv session_op_keeps[OF assms(1)] by (cases kh) fastforce
qed simp

lemma manager_step_inv: "manager_step w w' \<Longrightarrow> manager_inv w \<Longrightarrow> manager_inv w'"
proof (induction rule: manager_step.induct)
  case (reserve_step sid s m r m' c)
  then show ?case using reserve_inv by blast
next
  case (reserve_error sid e m r m' c)
  then show ?case by (auto simp: reserve_def split: if_splits)
next
  case (session_step f h m c)
  then show ?case using on_session_inv session_op_keeps by blast
next
  case (confirm_step h m ok k m' c)
  then show ?case
    using on_session_inv[of m c "close_with_reason ''session_closed''" h] close_with_reason_keeps
    by (auto simp: confirm_def split: if_splits)
next
  case (take_failed_step h m r m' c)
  then show ?case using take_session_inv[of "m\<lparr>m_signaling_errors := m_signaling_errors m + 1\<rparr>"]
    by (auto simp: take_failed_def)
next
  case (take_step sid m r m' c)
  then show ?case using take_session_inv by blast
next
  case (stale_step now m hs m' c)
  then show ?case
    using take_stale_loop_inv[of m c "m_table m"] by (auto simp: take_stale_def manager_inv_def Let_def)
next
  case (media_step avail reason m hs m' c)
  show ?case
  proof (cases "m' = m \<or> avail")
    case True
    then show ?thesis using media_step
      by (auto simp: take_unavailable_def manager_inv_def owned_def Let_def split: if_splits)
  next
    case False
    then have "take_all ''source_media_unavailable'' (m\<lparr>m_media_available := False, m_reason := reason,
        m_keyframe := None\<rparr>) = (hs, m')"
      using media_step by (auto simp: take_unavailable_def Let_def split: if_splits)
    then show ?thesis by (rule take_all_inv[OF media_step(2)])
  qed
next
  case (stop_step m c)
  then show ?case by (simp add: stop_flags_def)
next
  case (shutdown_step m hs m' c)
  then show ?case
    using take_all_inv[of m c "''service_shutdown''", where b = "m_media_available m" and q = "m_reason m"
        and k = "m_keyframe m"]
    by (auto simp: shutdown_take_def Let_def split: prod.splits)
next
  case (config_step m c cfg)
  then show ?case by (simp add: apply_config_def manager_inv_def owned_def Let_def)
next
  case (close_step h reason c m now rt)
  then show ?case using remember_closed_inv by blast
next
  case (publish_step m c u)
  then show ?case
    by (auto simp: publish_access_unit_def Let_def intro!: fold_on_session_inv session_op.intros)
qed

lemma manager_reach_inv: "manager_reach stale w \<Longrightarrow> manager_inv w"
proof (induction rule: manager_reach.induct)
  case reach_new
  then show ?case by (simp add: manager_inv_def new_manager_def Let_def)
next
  case (reach_step w w')
  then show ?case using manager_step_inv by blast
qed

section \<open>Properties\<close>

text \<open>C2: whatever the interleaving of requests, deletions, stale-session cleanups, media changes, shutdowns
  and library callbacks, there are never more sessions than \<^verbatim>\<open>max_peers\<close>, none while the source
  media is unavailable, every identifier names its own session, the counters of created and closed
  sessions differ by the number of open ones, at most sixteen closed sessions are remembered, and no
  session leaks: one that is not in the table has been closed or is about to be by the thread that took
  it out.\<close>

theorem webrtc_sessions_accounted:
  assumes "manager_reach stale (m, closing)"
  shows "length (m_table m) \<le> m_max_peers m \<and> (m_media_available m \<or> m_table m = []) \<and>
    distinct (map fst (m_table m)) \<and> (\<forall>(k, h) \<in> set (m_table m). s_id (m_heap m h) = k) \<and>
    m_created m = m_closed m + of_nat (length (m_table m)) \<and> length (m_recent m) \<le> 16 \<and>
    (\<forall>h < m_next m. h \<in> snd ` set (m_table m) \<or> h \<in> fst ` set closing \<or> s_cleanup_started (m_heap m h))"
  using manager_reach_inv[OF assms] unfolding manager_inv_def owned_def Let_def by auto

definition sample_webrtc :: webrtc_config where
  "sample_webrtc = \<lparr>wrc_enabled = True, max_peers = 1, connection_timeout_ms = 1000, media_queue_capacity = 4,
     host_interfaces = [], ice_log_verbosity = 0\<rparr>"

theorem webrtc_sessions_accounted_witness:
  "length (m_table (snd (reserve ''s'' (Inr sample_session) (apply_config sample_webrtc (new_manager 0))))) = 1 \<and>
   length (m_table (snd (reserve ''s'' (Inr sample_session) (apply_config sample_webrtc (new_manager 0)))))
     \<le> m_max_peers (snd (reserve ''s'' (Inr sample_session) (apply_config sample_webrtc (new_manager 0))))"
proof
  let ?m = "apply_config sample_webrtc (new_manager 0)"
  obtain r m where res: "reserve ''s'' (Inr sample_session) ?m = (r, m)" by fastforce
  have sid: "s_id sample_session = ''s''"
    by (simp add: sample_session_def new_session_def new_queue_def activate_media_def Let_def)
  have "manager_reach 0 (new_manager 0, [])" by (rule reach_new)
  then have "manager_reach 0 (?m, [])"
    by (rule reach_step) (rule config_step; simp add: new_manager_def)
  then have "manager_reach 0 (m, [])"
    by (rule reach_step) (rule reserve_step[OF res]; simp add: new_manager_def apply_config_def sid)
  then show "length (m_table (snd (reserve ''s'' (Inr sample_session) ?m)))
      \<le> m_max_peers (snd (reserve ''s'' (Inr sample_session) ?m))"
    using webrtc_sessions_accounted[of 0 m "[]"] res by simp
  show "length (m_table (snd (reserve ''s'' (Inr sample_session) ?m))) = 1"
    by (simp add: reserve_def apply_config_def new_manager_def sample_webrtc_def to_size_def)
qed

lemma offer_answer_result:
  "offer_answer rtc now s = (Inr (sid, answer), s') \<Longrightarrow> s_id s' = sid \<and> \<not> s_closed s' \<and> s_cleanup_started s' = s_cleanup_started s"
  by (auto simp: offer_answer_def split: sum.splits option.splits if_splits)

lemma accept_offer_result:
  "accept_offer env text s = (Inr (sid, answer), s') \<Longrightarrow> s_id s' = sid \<and> \<not> s_closed s'"
  by (auto simp: accept_offer_def dest!: offer_answer_result split: prod.splits option.splits)

lemma create_session_success:
  assumes "create_session env text m = (Inr (sid, answer), m')"
  obtains h m1 m2 s s2 where
    "reserve (re_fresh_id env) (re_created env (re_fresh_id env) (m_capacity m1)) m1 = (Inr h, m2)"
    "accept_offer env text (m_heap m2 h) = (Inr (sid, answer), s)"
    "map_of (m_table m2) sid = Some h" "activate_media (re_thread_ok env) (m_keyframe m2) s = (True, s2)"
    "m' = on_session h (\<lambda>_. s2) (on_session h (\<lambda>_. s) m2)"
proof -
  obtain h m1 m2 s where
    res: "reserve (re_fresh_id env) (re_created env (re_fresh_id env) (m_capacity m1)) m1 = (Inr h, m2)"
    and acc: "accept_offer env text (m_heap m2 h) = (Inr (sid, answer), s)"
    and st: "start_session env h (sid, answer) (on_session h (\<lambda>_. s) m2) = (Inr (sid, answer), m')"
    using assms
    by (auto simp: create_session_def start_session_def Let_def split: if_splits prod.splits sum.splits bool.splits)
  have "map_of (m_table m2) (s_id s) = Some h" "\<exists>s2. activate_media (re_thread_ok env) (m_keyframe m2) s = (True, s2) \<and>
      m' = on_session h (\<lambda>_. s2) (on_session h (\<lambda>_. s) m2)"
    using st by (auto simp: start_session_def confirm_def on_session_def Let_def split: if_splits prod.splits bool.splits)
  then show thesis using that[OF res acc] accept_offer_result[OF acc] by auto
qed

text \<open>a successful WHEP request leaves a live session: the identifier it returns is in the table, its
  media thread runs, and its queue holds the cached keyframe, if there is one, so that the browser can
  decode from the first unit.\<close>

theorem created_session_is_live:
  assumes "create_session env text m = (Inr (sid, answer), m')"
  shows "\<exists>h. map_of (m_table m') sid = Some h \<and> s_running (m_heap m' h) \<and> s_worker (m_heap m' h) \<and>
    (bq_capacity (s_queue (m_heap m' h)) = 0 \<or>
     bq_queue (s_queue (m_heap m' h)) = (case m_keyframe m' of None \<Rightarrow> [] | Some u \<Rightarrow> [u]))"
  using assms
proof (rule create_session_success)
  fix h m1 m2 s s2
  assume tab: "map_of (m_table m2) sid = Some h"
    and act: "activate_media (re_thread_ok env) (m_keyframe m2) s = (True, s2)"
    and m': "m' = on_session h (\<lambda>_. s2) (on_session h (\<lambda>_. s) m2)"
  have "s_running s2 \<and> s_worker s2 \<and> (bq_capacity (s_queue s2) = 0 \<or>
      bq_queue (s_queue s2) = (case m_keyframe m2 of None \<Rightarrow> [] | Some u \<Rightarrow> [u]))"
    using act by (auto simp: activate_media_def reset_def push_def Let_def split: if_splits option.splits)
  then show ?thesis using tab by (auto simp: m' on_session_def)
qed

text \<open>The identifier a request returns is the one drawn for it.\<close>

lemma accept_offer_id:
  assumes "\<And>s. s_id (re_callbacks env s) = s_id s" "accept_offer env text s = (r, s')"
  shows "s_id s' = s_id s"
proof -
  have "s_id (snd (offer_begin (re_rtc env) text x)) = s_id x" "s_id (snd (offer_wait (re_now env) x)) = s_id x"
    "s_id (snd (offer_answer (re_rtc env) (re_now env) x)) = s_id x" for x
    using session_op_keeps[of "\<lambda>s. snd (offer_begin (re_rtc env) text s)"]
      session_op_keeps[of "\<lambda>s. snd (offer_wait (re_now env) s)"]
      session_op_keeps[of "\<lambda>s. snd (offer_answer (re_rtc env) (re_now env) s)"] by (auto intro: session_op.intros)
  then show ?thesis using assms by (simp add: accept_offer_def split: prod.splits option.splits) (metis snd_conv)+
qed

lemma created_session_id:
  assumes "create_session env text m = (Inr (sid, answer), m')"
    "\<And>s. s_id (re_callbacks env s) = s_id s" "\<And>k n s. re_created env k n = Inr s \<Longrightarrow> s_id s = k"
  shows "sid = re_fresh_id env"
  using assms(1)
proof (rule create_session_success)
  fix h m1 m2 s s2
  assume res: "reserve (re_fresh_id env) (re_created env (re_fresh_id env) (m_capacity m1)) m1 = (Inr h, m2)"
    and acc: "accept_offer env text (m_heap m2 h) = (Inr (sid, answer), s)"
  have "s_id (m_heap m2 h) = re_fresh_id env"
    using res assms(3) by (auto simp: reserve_def split: if_splits sum.splits)
  then show ?thesis using accept_offer_result[OF acc] accept_offer_id[OF assms(2) acc] by simp
qed

definition sample_offer :: offer where
  "sample_offer = \<lparr>of_attributes = [], of_media = [\<lparr>ms_is_media = True, ms_removed = False,
     ms_direction = Dir_recvonly, ms_payloads = [(96, Some \<lparr>rtp_format = ''H264'',
       rtp_fmtps = [''profile-level-id=42e01f;packetization-mode=1'']\<rparr>)]\<rparr>]\<rparr>"

definition sample_request :: "string \<Rightarrow> request_env" where
  "sample_request sid =
     \<lparr>re_now = 1, re_route = \<lparr>dg_selected = None, dg_local_address = None, dg_throws = False, dg_interface = (\<lambda>_. [])\<rparr>,
      re_rtc = \<lparr>rc_parse = (\<lambda>_. Inr sample_offer), rc_apply_error = None, rc_answer = Inr (Some ''answer'')\<rparr>,
      re_fresh_id = sid, re_created = (\<lambda>k n. new_session k n 0),
      re_callbacks = (\<lambda>s. on_gathering_complete 1 (on_local_description 1 s)), re_thread_ok = True\<rparr>"

lemma sample_offer_video: "choose_video (session_direction (of_attributes sample_offer)) (of_media sample_offer) None = Inr (Some 96)"
  by code_simp

lemma sample_create:
  "create_session (sample_request sid) ''v=0'' (apply_config sample_webrtc (new_manager 0)) =
     (Inr (sid, ''answer''), snd (create_session (sample_request sid) ''v=0'' (apply_config sample_webrtc (new_manager 0))))"
proof -
  have "fst (create_session (sample_request sid) ''v=0'' (apply_config sample_webrtc (new_manager 0))) = Inr (sid, ''answer'')"
    by (simp add: create_session_def cleanup_stale_sessions_def take_stale_def remember_all_def apply_config_def
        new_manager_def sample_webrtc_def to_size_def reserve_def sample_request_def new_session_def new_queue_def
        accept_offer_def offer_begin_def sample_offer_video offer_wait_def offer_ready_def on_gathering_complete_def
        on_local_description_def offer_answer_def start_session_def confirm_def on_session_def activate_media_def
        Let_def)
  then show ?thesis by (simp add: prod_eq_iff)
qed

theorem created_session_is_live_witness:
  "map_of (m_table (snd (create_session (sample_request ''s'') ''v=0'' (apply_config sample_webrtc (new_manager 0))))) ''s'' \<noteq> None"
  using created_session_is_live[OF sample_create[of "''s''"]] by auto

end
