(* ===== verification/Alert_Repository.thy ===== *)
theory Alert_Repository
  imports Alerts
begin

text \<open>
  \<^verbatim>\<open>src/storage/alert_repository.cpp\<close> over the schema of
  \<^verbatim>\<open>src/storage/database.cpp\<close>.  The two tables are lists of rows; the rows of
  \<^verbatim>\<open>detections\<close> stand in the order of their automatic identifiers.  Each SQL statement of
  the source is one operation on the tables.  A call of the SQLite library may fail: its failures are
  arguments, with the extended result code and the message.
\<close>

section \<open>Tables\<close>

record alert_row =
  ar_id :: string
  ar_timestamp_ms :: int
  ar_latitude :: "fp option"
  ar_longitude :: "fp option"
  ar_altitude_m :: "fp option"
  ar_gps_valid :: bool
  ar_gps_source :: string
  ar_snapshot_path :: string
  ar_frame_sequence :: int
  ar_model_version :: "string option"

record detection_row =
  dr_alert_id :: string
  dr_class_id :: int
  dr_class_name :: string
  dr_confidence :: fp
  dr_x1 :: fp
  dr_y1 :: fp
  dr_x2 :: fp
  dr_y2 :: fp

record tables =
  t_alerts :: "alert_row list"
  t_detections :: "detection_row list"

record database =
  db_open :: bool
  db_tables :: tables
  operational_error :: string

type_synonym sqlite_fault = "(nat \<times> string) option"

text \<open>The result codes that mark the database as broken.\<close>

definition record_operational_error :: "nat \<Rightarrow> string \<Rightarrow> database \<Rightarrow> database" where
  "record_operational_error code e db =
     (if code mod 256 \<in> {13, 10, 8, 11, 26, 14, 3} then db\<lparr>operational_error := e\<rparr> else db)"

definition health_error :: "database \<Rightarrow> string" where
  "health_error db = (if db_open db then operational_error db else ''database closed'')"

text \<open>A string bound through \<^verbatim>\<open>c_str()\<close> ends at its first NUL byte; SQLite stores a NaN as
  NULL and reads a NULL as zero.\<close>

definition c_text :: "string \<Rightarrow> string" where
  "c_text s = takeWhile (\<lambda>c. c \<noteq> CHR 0x00) s"

definition bind_double :: "fp \<Rightarrow> fp option" where
  "bind_double x = (if x = NaN then None else Some x)"

definition column_double :: "fp option \<Rightarrow> fp" where
  "column_double x = (case x of Some v \<Rightarrow> v | None \<Rightarrow> Fin 0)"

section \<open>Writing\<close>

definition row_of :: "alert_event \<Rightarrow> alert_row" where
  "row_of a =
     (let valid = (case ae_gps a of Some g \<Rightarrow> fix_valid g | None \<Rightarrow> False);
          coord = (\<lambda>f. case ae_gps a of Some g \<Rightarrow> if fix_valid g then bind_double (f g) else None | None \<Rightarrow> None)
      in \<lparr>ar_id = c_text (ae_id a), ar_timestamp_ms = ae_timestamp_ms a, ar_latitude = coord fix_latitude,
          ar_longitude = coord fix_longitude, ar_altitude_m = coord fix_altitude_m, ar_gps_valid = valid,
          ar_gps_source =
            (case ae_gps a of Some g \<Rightarrow> if fix_valid g then c_text (fix_source g) else ''none'' | None \<Rightarrow> ''none''),
          ar_snapshot_path = c_text (ae_snapshot_path a), ar_frame_sequence = int (unat (ae_frame_sequence a)),
          ar_model_version = map_option c_text (ae_model_version a)\<rparr>)"

definition insert_alert_row :: "alert_row \<Rightarrow> tables \<Rightarrow> tables option" where
  "insert_alert_row r t =
     (if ar_id r \<in> ar_id ` set (t_alerts t) then None else Some (t\<lparr>t_alerts := t_alerts t @ [r]\<rparr>))"

definition detection_row_of :: "string \<Rightarrow> alert_detection \<Rightarrow> detection_row" where
  "detection_row_of aid d =
     \<lparr>dr_alert_id = c_text aid, dr_class_id = ad_class_id d, dr_class_name = c_text (ad_class_name d),
      dr_confidence = ad_confidence d, dr_x1 = ad_x1 d, dr_y1 = ad_y1 d, dr_x2 = ad_x2 d, dr_y2 = ad_y2 d\<rparr>"

text \<open>The constraints of the table: a class name, no NULL.\<close>

definition insert_detection_row :: "detection_row \<Rightarrow> tables \<Rightarrow> tables option" where
  "insert_detection_row r t =
     (if dr_class_name r = [] \<or> NaN \<in> {dr_confidence r, dr_x1 r, dr_y1 r, dr_x2 r, dr_y2 r} then None
      else Some (t\<lparr>t_detections := t_detections t @ [r]\<rparr>))"

text \<open>The failures of the calls of one insertion; \<open>if_constraint\<close> is the failure SQLite reports when
  a constraint does not hold.\<close>

record insert_faults =
  if_begin :: sqlite_fault
  if_prepare_alert :: sqlite_fault
  if_step_alert :: sqlite_fault
  if_prepare_detection :: sqlite_fault
  if_step_detection :: "nat \<Rightarrow> sqlite_fault"
  if_commit :: sqlite_fault
  if_constraint :: "nat \<times> string"

fun insert_detections ::
  "insert_faults \<Rightarrow> string \<Rightarrow> nat \<Rightarrow> alert_detection list \<Rightarrow> tables \<Rightarrow> (nat \<times> string) + tables" where
  "insert_detections f aid i [] t = Inr t"
| "insert_detections f aid i (d # ds) t =
     (case if_step_detection f i of
        Some e \<Rightarrow> Inl e
      | None \<Rightarrow>
          (case insert_detection_row (detection_row_of aid d) t of
             None \<Rightarrow> Inl (if_constraint f)
           | Some t1 \<Rightarrow> insert_detections f aid (Suc i) ds t1))"

text \<open>The statements of the transaction between BEGIN and its end.\<close>

definition insert_statements :: "insert_faults \<Rightarrow> alert_event \<Rightarrow> tables \<Rightarrow> (nat \<times> string) + tables" where
  "insert_statements f a t =
     (case if_prepare_alert f of
        Some e \<Rightarrow> Inl e
      | None \<Rightarrow>
          (case if_step_alert f of
             Some e \<Rightarrow> Inl e
           | None \<Rightarrow>
               (case insert_alert_row (row_of a) t of
                  None \<Rightarrow> Inl (if_constraint f)
                | Some t1 \<Rightarrow>
                    (case if_prepare_detection f of
                       Some e \<Rightarrow> Inl e
                     | None \<Rightarrow>
                         (case insert_detections f (ae_id a) 0 (ae_detections a) t1 of
                            Inl e \<Rightarrow> Inl e
                          | Inr t2 \<Rightarrow> (case if_commit f of Some e \<Rightarrow> Inl e | None \<Rightarrow> Inr t2))))))"

text \<open>A failed transaction is rolled back.\<close>

definition insert_alert :: "insert_faults \<Rightarrow> alert_event \<Rightarrow> database \<Rightarrow> string option \<times> database" where
  "insert_alert f a db =
     (if \<not> db_open db then (Some ''database is not open'', db)
      else if ae_id a = [] \<or> ae_snapshot_path a = [] \<or> unat (ae_frame_sequence a) > 2 ^ 63 - 1
      then (Some ''alert id, snapshot path, and signed frame sequence are required'', db)
      else case if_begin f of
        Some (code, e) \<Rightarrow> (Some e, record_operational_error code e db)
      | None \<Rightarrow>
          (case insert_statements f a (db_tables db) of
             Inl (code, e) \<Rightarrow> (Some e, record_operational_error code e db)
           | Inr t \<Rightarrow> (None, db\<lparr>db_tables := t\<rparr>)))"

definition delete_alert_row :: "string \<Rightarrow> tables \<Rightarrow> tables" where
  "delete_alert_row aid t =
     \<lparr>t_alerts = filter (\<lambda>r. ar_id r \<noteq> aid) (t_alerts t),
      t_detections = filter (\<lambda>r. dr_alert_id r \<noteq> aid) (t_detections t)\<rparr>"

definition remove_alert :: "sqlite_fault \<Rightarrow> string \<Rightarrow> database \<Rightarrow> (bool \<times> string) \<times> database" where
  "remove_alert f aid db =
     (if \<not> db_open db then ((False, ''database is not open''), db)
      else case f of
        Some (code, e) \<Rightarrow> ((False, e), record_operational_error code e db)
      | None \<Rightarrow>
          (let t = db_tables db; gone = filter (\<lambda>r. ar_id r = c_text aid) (t_alerts t) in
           ((length gone = 1, []), db\<lparr>db_tables := delete_alert_row (c_text aid) t\<rparr>)))"

section \<open>Reading\<close>

definition read_alert :: "alert_row \<Rightarrow> alert_event" where
  "read_alert r =
     \<lparr>ae_id = ar_id r, ae_timestamp_ms = ar_timestamp_ms r,
      ae_gps =
        (if ar_gps_valid r
         then Some \<lparr>fix_valid = True, fix_source = ar_gps_source r, fix_latitude = column_double (ar_latitude r),
                    fix_longitude = column_double (ar_longitude r), fix_altitude_m = column_double (ar_altitude_m r),
                    hdop = Fin 0, satellites_visible = 0, satellites_used = 0\<rparr>
         else None),
      ae_snapshot_path = ar_snapshot_path r, ae_frame_sequence = of_int (ar_frame_sequence r),
      ae_model_version = ar_model_version r, ae_detections = []\<rparr>"

definition read_detection :: "detection_row \<Rightarrow> alert_detection" where
  "read_detection r =
     \<lparr>ad_class_id = dr_class_id r, ad_class_name = dr_class_name r, ad_confidence = dr_confidence r,
      ad_x1 = dr_x1 r, ad_y1 = dr_y1 r, ad_x2 = dr_x2 r, ad_y2 = dr_y2 r\<rparr>"

text \<open>The failures of a query: of its statement, and of the statement that reads an alert's detections.\<close>

record query_faults =
  qf_query :: "string option"
  qf_detections :: "string \<Rightarrow> string option"

definition read_detections :: "query_faults \<Rightarrow> tables \<Rightarrow> alert_event \<Rightarrow> string + alert_event" where
  "read_detections f t a =
     (case qf_detections f (ae_id a) of
        Some e \<Rightarrow> Inl e
      | None \<Rightarrow>
          Inr (a\<lparr>ae_detections := ae_detections a @
                   map read_detection (filter (\<lambda>r. dr_alert_id r = c_text (ae_id a)) (t_detections t))\<rparr>))"

fun read_all :: "query_faults \<Rightarrow> tables \<Rightarrow> alert_event list \<Rightarrow> alert_event list \<times> string" where
  "read_all f t [] = ([], [])"
| "read_all f t (a # as) =
     (case read_detections f t a of
        Inl e \<Rightarrow> ([], e)
      | Inr b \<Rightarrow> (let (bs, e) = read_all f t as in if e \<noteq> [] then ([], e) else (b # bs, e)))"

definition query_alerts :: "query_faults \<Rightarrow> tables \<Rightarrow> alert_row list \<Rightarrow> alert_event list \<times> string" where
  "query_alerts f t rows =
     (case qf_query f of Some e \<Rightarrow> ([], e) | None \<Rightarrow> read_all f t (map read_alert rows))"

definition find_by_id :: "query_faults \<Rightarrow> string \<Rightarrow> database \<Rightarrow> alert_event option \<times> string" where
  "find_by_id f aid db =
     (if \<not> db_open db then (None, ''database is not open'')
      else case qf_query f of
        Some e \<Rightarrow> (None, e)
      | None \<Rightarrow>
          (case find (\<lambda>r. ar_id r = c_text aid) (t_alerts (db_tables db)) of
             None \<Rightarrow> (None, [])
           | Some r \<Rightarrow>
               (case read_detections f (db_tables db) (read_alert r) of
                  Inl e \<Rightarrow> (None, e)
                | Inr a \<Rightarrow> (Some a, []))))"

text \<open>\<^verbatim>\<open>ORDER BY timestamp_ms DESC, id DESC\<close>; text compares byte by byte.\<close>

fun bytes_less :: "string \<Rightarrow> string \<Rightarrow> bool" where
  "bytes_less [] [] = False"
| "bytes_less [] (y # ys) = True"
| "bytes_less (x # xs) [] = False"
| "bytes_less (x # xs) (y # ys) = (byte x < byte y \<or> byte x = byte y \<and> bytes_less xs ys)"

definition newer :: "alert_row \<Rightarrow> alert_row \<Rightarrow> bool" where
  "newer a b \<longleftrightarrow>
     ar_timestamp_ms a > ar_timestamp_ms b \<or>
     ar_timestamp_ms a = ar_timestamp_ms b \<and> bytes_less (ar_id b) (ar_id a)"

definition newest_first :: "alert_row list \<Rightarrow> alert_row list" where
  "newest_first rows = stable_sort newer rows"

definition bounded_limit :: "nat \<Rightarrow> nat" where
  "bounded_limit limit = (if limit > 2147483647 then 2147483647 else limit)"

definition find_recent :: "query_faults \<Rightarrow> nat \<Rightarrow> database \<Rightarrow> alert_event list \<times> string" where
  "find_recent f limit db =
     (if \<not> db_open db then ([], ''database is not open'')
      else query_alerts f (db_tables db)
             (take (bounded_limit limit) (newest_first (t_alerts (db_tables db)))))"

definition find_by_time_range :: "query_faults \<Rightarrow> int \<Rightarrow> int \<Rightarrow> nat \<Rightarrow> database \<Rightarrow> alert_event list \<times> string" where
  "find_by_time_range f from_ms to_ms limit db =
     (if \<not> db_open db then ([], ''database is not open'')
      else if from_ms > to_ms then ([], ''from must not exceed to'')
      else query_alerts f (db_tables db)
             (take (bounded_limit limit) (newest_first
               (filter (\<lambda>r. ar_timestamp_ms r \<ge> from_ms \<and> ar_timestamp_ms r \<le> to_ms)
                  (t_alerts (db_tables db))))))"

definition find_by_class :: "query_faults \<Rightarrow> string \<Rightarrow> nat \<Rightarrow> database \<Rightarrow> alert_event list \<times> string" where
  "find_by_class f name limit db =
     (if \<not> db_open db then ([], ''database is not open'')
      else
        let t = db_tables db in
        query_alerts f t
          (take (bounded_limit limit) (newest_first
            (filter (\<lambda>r. \<exists>d \<in> set (t_detections t). dr_alert_id d = ar_id r \<and> dr_class_name d = c_text name)
               (t_alerts t)))))"

definition excess_rows :: "nat \<Rightarrow> tables \<Rightarrow> alert_row list" where
  "excess_rows keep t =
     (let kept = take (bounded_limit keep) (newest_first (t_alerts t)) in
      stable_sort (\<lambda>a b. newer b a) (filter (\<lambda>r. ar_id r \<notin> ar_id ` set kept) (t_alerts t)))"

definition find_oldest_excess :: "query_faults \<Rightarrow> nat \<Rightarrow> database \<Rightarrow> alert_event list \<times> string" where
  "find_oldest_excess f keep db =
     (if \<not> db_open db then ([], ''database is not open'')
      else query_alerts f (db_tables db) (excess_rows keep (db_tables db)))"

definition count_alerts :: "string option \<Rightarrow> database \<Rightarrow> u64 option \<times> string" where
  "count_alerts f db =
     (if \<not> db_open db then (None, ''database is not open'')
      else case f of
        Some e \<Rightarrow> (None, e)
      | None \<Rightarrow> (Some (of_nat (length (t_alerts (db_tables db)))), []))"

section \<open>The order of the rows\<close>

lemma byte_inject: "byte x = byte y \<longleftrightarrow> x = y"
  by (simp add: byte_def)

lemma bytes_less_irrefl [simp]: "\<not> bytes_less x x"
  by (induction x) auto

lemma bytes_less_total: "bytes_less x y \<or> x = y \<or> bytes_less y x"
  by (induction x y rule: bytes_less.induct) (auto simp: byte_inject)

lemma bytes_less_trans: "bytes_less x y \<Longrightarrow> bytes_less y z \<Longrightarrow> bytes_less x z"
proof (induction x y arbitrary: z rule: bytes_less.induct)
  case (2 y ys)
  then show ?case by (cases z) auto
next
  case (4 x xs y ys)
  then show ?case by (cases z) auto
qed auto

lemma newer_trans: "newer a b \<Longrightarrow> newer b c \<Longrightarrow> newer a c"
  by (auto simp: newer_def dest: bytes_less_trans)

lemma newer_irrefl [simp]: "\<not> newer a a"
  by (simp add: newer_def)

lemma newer_total: "ar_id a \<noteq> ar_id b \<Longrightarrow> newer a b \<or> newer b a"
  using bytes_less_total[of "ar_id a" "ar_id b"] by (auto simp: newer_def)

lemma newer_neg_trans: "\<not> newer b a \<Longrightarrow> \<not> newer c b \<Longrightarrow> \<not> newer c a"
  unfolding newer_def
  using bytes_less_total[of "ar_id a" "ar_id b"] bytes_less_trans[of "ar_id a" "ar_id b" "ar_id c"]
    bytes_less_trans[of "ar_id a" "ar_id c" "ar_id b"] bytes_less_total[of "ar_id b" "ar_id c"]
  by fastforce

interpretation newest: strict_weak_order newer "\<lambda>_. True"
proof
  show "newer a b \<Longrightarrow> \<not> newer b a" for a b using newer_trans[of a b a] by auto
qed (rule newer_neg_trans)

interpretation oldest: strict_weak_order "\<lambda>a b. newer b a" "\<lambda>_. True"
proof
  show "newer b a \<Longrightarrow> \<not> newer a b" for a b using newer_trans[of a b a] by auto
  show "\<not> newer a b \<Longrightarrow> \<not> newer b c \<Longrightarrow> \<not> newer a c" for a b c using newer_neg_trans by blast
qed

section \<open>Properties\<close>

definition tables_inv :: "tables \<Rightarrow> bool" where
  "tables_inv t \<longleftrightarrow>
     distinct (map ar_id (t_alerts t)) \<and> (\<forall>d \<in> set (t_detections t). dr_alert_id d \<in> ar_id ` set (t_alerts t))"

lemma insert_detections_result:
  "insert_detections f aid i ds t = Inr t' \<Longrightarrow>
    t' = t\<lparr>t_detections := t_detections t @ map (detection_row_of aid) ds\<rparr>"
proof (induction ds arbitrary: i t)
  case (Cons d ds)
  from Cons.prems have "insert_detections f aid (Suc i) ds
      (t\<lparr>t_detections := t_detections t @ [detection_row_of aid d]\<rparr>) = Inr t'"
    by (auto simp: insert_detection_row_def split: option.splits if_splits)
  from Cons.IH[OF this] show ?case by simp
qed simp

lemma insert_statements_result:
  "insert_statements f a t = Inr t' \<Longrightarrow>
    c_text (ae_id a) \<notin> ar_id ` set (t_alerts t) \<and>
    t' = \<lparr>t_alerts = t_alerts t @ [row_of a],
          t_detections = t_detections t @ map (detection_row_of (ae_id a)) (ae_detections a)\<rparr>"
  by (auto simp: insert_statements_def insert_alert_row_def row_of_def Let_def
      dest!: insert_detections_result split: option.splits sum.splits if_splits)

lemma insert_statements_inv: "tables_inv t \<Longrightarrow> insert_statements f a t = Inr t' \<Longrightarrow> tables_inv t'"
  by (auto dest!: insert_statements_result simp: tables_inv_def detection_row_of_def row_of_def Let_def)

lemma delete_alert_row_inv: "tables_inv t \<Longrightarrow> tables_inv (delete_alert_row aid t)"
  by (auto simp: tables_inv_def delete_alert_row_def distinct_map_filter)

lemma c_text_idem [simp]: "c_text (c_text s) = c_text s"
  by (simp add: c_text_def takeWhile_idem)

text \<open>What a reader gets of a stored alert: the text up to a NUL byte, the position only if it is valid.\<close>

definition stored_fix :: "gps_fix \<Rightarrow> gps_fix" where
  "stored_fix g =
     \<lparr>fix_valid = True, fix_source = c_text (fix_source g), fix_latitude = column_double (bind_double (fix_latitude g)),
      fix_longitude = column_double (bind_double (fix_longitude g)),
      fix_altitude_m = column_double (bind_double (fix_altitude_m g)),
      hdop = Fin 0, satellites_visible = 0, satellites_used = 0\<rparr>"

definition stored :: "alert_event \<Rightarrow> alert_event" where
  "stored a =
     a\<lparr>ae_id := c_text (ae_id a),
       ae_gps := (case ae_gps a of Some g \<Rightarrow> if fix_valid g then Some (stored_fix g) else None | None \<Rightarrow> None),
       ae_snapshot_path := c_text (ae_snapshot_path a), ae_model_version := map_option c_text (ae_model_version a),
       ae_detections := map (\<lambda>d. d\<lparr>ad_class_name := c_text (ad_class_name d)\<rparr>) (ae_detections a)\<rparr>"

definition no_faults :: query_faults where
  "no_faults = \<lparr>qf_query = None, qf_detections = (\<lambda>_. None)\<rparr>"

lemma read_row_of:
  "read_alert (row_of a) = (stored a)\<lparr>ae_detections := []\<rparr>"
  by (auto simp: read_alert_def row_of_def stored_def stored_fix_def Let_def split: option.splits)


definition empty_database :: database where
  "empty_database = \<lparr>db_open = True, db_tables = \<lparr>t_alerts = [], t_detections = []\<rparr>, operational_error = []\<rparr>"

definition sample_faults :: insert_faults where
  "sample_faults = \<lparr>if_begin = None, if_prepare_alert = None, if_step_alert = None, if_prepare_detection = None,
     if_step_detection = (\<lambda>_. None), if_commit = None, if_constraint = (19, ''constraint failed'')\<rparr>"

definition sample_alert :: "string \<Rightarrow> int \<Rightarrow> alert_event" where
  "sample_alert aid ts = \<lparr>ae_id = aid, ae_timestamp_ms = ts, ae_gps = None, ae_snapshot_path = ''p.jpg'',
     ae_frame_sequence = 1, ae_model_version = None, ae_detections = [\<lparr>ad_class_id = 0, ad_class_name = ''person'',
       ad_confidence = Fin (1/2), ad_x1 = Fin 0, ad_y1 = Fin 0, ad_x2 = Fin 1, ad_y2 = Fin 1\<rparr>]\<rparr>"


lemma sorted_take_drop:
  "sorted_wrt R xs \<Longrightarrow> a \<in> set (take n xs) \<Longrightarrow> b \<in> set (drop n xs) \<Longrightarrow> R a b"
  by (metis append_take_drop_id sorted_wrt_append)

text \<open>the retention policy keeps the newest alerts.  The rows that exceed a limit are exactly the rows a
  query for the newest ones with that limit leaves out; every one of them is older than every row kept, and
  they come oldest first.\<close>

theorem excess_is_what_recent_leaves_out:
  assumes "tables_inv t"
  shows "let kept = take (bounded_limit keep) (newest_first (t_alerts t)) in
    set (excess_rows keep t) = set (t_alerts t) - set kept \<and>
    length kept = min (bounded_limit keep) (length (t_alerts t)) \<and>
    sorted_wrt (\<lambda>a b. \<not> newer a b) (excess_rows keep t) \<and>
    (\<forall>a \<in> set kept. \<forall>b \<in> set (excess_rows keep t). newer a b)"
proof -
  let ?all = "newest_first (t_alerts t)" and ?n = "bounded_limit keep"
  define kept where "kept = take ?n ?all"
  have inj: "inj_on ar_id (set (t_alerts t))" using assms(1) by (simp add: tables_inv_def distinct_map)
  have sub: "set kept \<subseteq> set (t_alerts t)"
    using set_take_subset[of ?n ?all] by (simp add: kept_def newest_first_def)
  have "ar_id r \<in> ar_id ` set kept \<longleftrightarrow> r \<in> set kept" if "r \<in> set (t_alerts t)" for r
    using inj_on_image_mem_iff[OF inj that sub] by blast
  then have ex: "set (excess_rows keep t) = set (t_alerts t) - set kept"
    by (auto simp: excess_rows_def kept_def Let_def)
  have sorted: "sorted_wrt (\<lambda>a b. \<not> newer b a) ?all"
    using newest.sorted_stable_sort[of "t_alerts t"] by (simp add: newest_first_def list_all_iff)
  have "newer a b" if a: "a \<in> set kept" and b: "b \<in> set (excess_rows keep t)" for a b
  proof -
    have "b \<in> set ?all" "b \<notin> set (take ?n ?all)" using b ex by (auto simp: newest_first_def kept_def)
    then have "b \<in> set (drop ?n ?all)" by (metis UnE append_take_drop_id set_append)
    then have "\<not> newer b a" using sorted_take_drop[OF sorted] a by (simp add: kept_def)
    moreover have "ar_id a \<noteq> ar_id b" using inj a b ex sub by (metis DiffD1 DiffD2 inj_onD subsetD)
    ultimately show ?thesis using newer_total by blast
  qed
  moreover have "sorted_wrt (\<lambda>a b. \<not> newer a b) (excess_rows keep t)"
    using oldest.sorted_stable_sort by (simp add: excess_rows_def Let_def list_all_iff)
  ultimately show ?thesis
    using ex unfolding Let_def kept_def[symmetric] by (auto simp: kept_def newest_first_def)
qed

theorem excess_is_what_recent_leaves_out_witness:
  "set (excess_rows 1 \<lparr>t_alerts = [row_of (sample_alert ''a'' 5), row_of (sample_alert ''b'' 6)], t_detections = []\<rparr>) =
     {row_of (sample_alert ''a'' 5), row_of (sample_alert ''b'' 6)} -
     set (take 1 (newest_first [row_of (sample_alert ''a'' 5), row_of (sample_alert ''b'' 6)]))"
proof -
  let ?t = "\<lparr>t_alerts = [row_of (sample_alert ''a'' 5), row_of (sample_alert ''b'' 6)], t_detections = []\<rparr>"
  have "tables_inv ?t" by (simp add: tables_inv_def row_of_def sample_alert_def c_text_def)
  from excess_is_what_recent_leaves_out[OF this, of 1] show ?thesis by (simp add: bounded_limit_def Let_def)
qed

end
