(* ===== verification/Router.thy ===== *)
theory Router
  imports Api_Json WebRtc_Manager Alert_Repository
begin

text \<open>
  \<^verbatim>\<open>route_request\<close> of \<^verbatim>\<open>src/web/router.cpp\<close>: the HTTP interface over the
  other components.  \<open>web_state\<close> holds what a request can change or read under a lock, the optional
  pointers as options; \<open>web_env\<close> what the caller passes by value (the status, health and metrics
  snapshots) and what the libraries answer during the request.  A response carries the fields the
  router sets; \<^verbatim>\<open>prepare_payload\<close> adds the content length of the body.
\<close>

section \<open>Requests and responses\<close>

datatype verb = Verb_get | Verb_head | Verb_post | Verb_delete | Verb_other

record request =
  rq_method :: verb
  rq_target :: string
  rq_version :: nat
  rq_content_type :: string
  rq_body :: string

record response =
  rs_result :: nat
  rs_version :: nat
  rs_fields :: "(string \<times> string) list"
  rs_body :: string

record web_state =
  w_api :: api_state
  w_status :: runtime_status
  w_alerts :: "database option"
  w_recording :: "recording_controller option"
  w_webrtc :: "manager option"

record web_env =
  we_snapshot :: runtime_status_snapshot
  we_metrics :: "metrics_snapshot option"
  we_health :: "(health_state \<times> (health_component \<Rightarrow> component_health)) option"
  we_queries :: query_faults
  we_request :: request_env
  we_routes :: "string \<Rightarrow> route"
  we_media_errors :: u64

definition json_response :: "nat \<Rightarrow> nat \<Rightarrow> string \<Rightarrow> response" where
  "json_response result version body =
     \<lparr>rs_result = result, rs_version = version,
      rs_fields = [(''Content-Type'', ''application/json''), (''Cache-Control'', ''no-store'')], rs_body = body\<rparr>"

text \<open>\<^verbatim>\<open>response.set\<close> replaces or adds a field.\<close>

definition set_field :: "string \<Rightarrow> string \<Rightarrow> response \<Rightarrow> response" where
  "set_field k v r = r\<lparr>rs_fields := filter (\<lambda>(k', _). k' \<noteq> k) (rs_fields r) @ [(k, v)]\<rparr>"

definition error_json :: "string \<Rightarrow> string" where
  \<open>error_json e = ''{"error":'' @ json_string e @ ''}'' @ ''\<newline>''\<close>

section \<open>Queries\<close>

text \<open>\<open>None\<close> is the result \<^verbatim>\<open>false\<close>.\<close>

fun decode_component :: "string \<Rightarrow> string option" where
  "decode_component [] = Some []"
| "decode_component (c # s) =
     (if c \<noteq> CHR ''%'' then map_option (Cons c) (decode_component s)
      else case s of
        h # l # s' \<Rightarrow>
          (case (hex_value h, hex_value l) of
             (Some a, Some b) \<Rightarrow> map_option (Cons (char_of (16 * a + b))) (decode_component s')
           | _ \<Rightarrow> None)
      | _ \<Rightarrow> None)"

function query_loop :: "string \<Rightarrow> nat \<Rightarrow> (string \<rightharpoonup> string) \<Rightarrow> (string \<rightharpoonup> string) option" where
  "query_loop target position vals =
     (if position + 1 < length target then
        (let end = find_from (\<lambda>c. c = CHR ''&'') (position + 1) target in
         case find_from (\<lambda>c. c = CHR ''='') (position + 1) target of
           None \<Rightarrow> Some vals
         | Some equal \<Rightarrow>
             (if case end of None \<Rightarrow> False | Some e \<Rightarrow> equal > e then Some vals
              else case decode_component (substr (equal + 1) (map_option (\<lambda>e. e - equal - 1) end) target) of
                None \<Rightarrow> None
              | Some value \<Rightarrow>
                  (let vals' = vals(substr (position + 1) (Some (equal - position - 1)) target \<mapsto> value) in
                   case end of None \<Rightarrow> Some vals' | Some e \<Rightarrow> query_loop target e vals')))
      else Some vals)"
  by pat_completeness auto
termination
  by (relation "measure (\<lambda>(target, position, _). length target - position)")
    (auto dest!: find_from_bound sym[of "Some _"])

declare query_loop.simps [simp del]

definition query_parameters :: "string \<Rightarrow> (string \<rightharpoonup> string) option" where
  "query_parameters target =
     (case index_where (\<lambda>c. c = CHR ''?'') target of
        None \<Rightarrow> Some Map.empty
      | Some position \<Rightarrow> query_loop target position Map.empty)"

text \<open>\<^verbatim>\<open>parse_number\<close> for \<^verbatim>\<open>std::size_t\<close> and for \<^verbatim>\<open>std::int64_t\<close>: the
  whole text is a decimal number in the range of the type.\<close>

definition parse_size :: "string \<Rightarrow> nat option" where
  "parse_size s =
     (if s \<noteq> [] \<and> list_all is_digit s \<and> decimal_value s < 2 ^ 64 then Some (decimal_value s) else None)"

definition parse_int64 :: "string \<Rightarrow> int option" where
  "parse_int64 s =
     (case s of
        [] \<Rightarrow> None
      | c # s' \<Rightarrow>
          (if c = CHR ''-'' then
             (if s' \<noteq> [] \<and> list_all is_digit s' \<and> decimal_value s' \<le> 2 ^ 63
              then Some (- int (decimal_value s')) else None)
           else if list_all is_digit s \<and> decimal_value s < 2 ^ 63 then Some (int (decimal_value s))
           else None))"

section \<open>Routes\<close>

definition health_path :: string where
  "health_path = ''/health''"

definition status_path :: string where
  "status_path = ''/api/v1/status''"

definition metrics_path :: string where
  "metrics_path = ''/api/v1/metrics''"

definition config_path :: string where
  "config_path = ''/api/v1/config''"

definition detections_path :: string where
  "detections_path = ''/api/v1/detections/latest''"

definition gps_path :: string where
  "gps_path = ''/api/v1/gps''"

definition alerts_path :: string where
  "alerts_path = ''/api/v1/alerts''"

definition recordings_path :: string where
  "recordings_path = ''/api/v1/recordings''"

definition start_path :: string where
  "start_path = ''/api/v1/recording/start''"

definition stop_path :: string where
  "stop_path = ''/api/v1/recording/stop''"

definition enable_path :: string where
  "enable_path = ''/api/v1/detector/enable''"

definition disable_path :: string where
  "disable_path = ''/api/v1/detector/disable''"

definition whep_path :: string where
  "whep_path = ''/api/v1/webrtc/whep''"

definition alerts_prefix :: string where
  "alerts_prefix = ''/api/v1/alerts/''"

definition session_prefix :: string where
  "session_prefix = ''/api/v1/webrtc/sessions/''"

definition sdp_type :: string where
  "sdp_type = ''application/sdp''"

lemmas path_defs = health_path_def status_path_def metrics_path_def config_path_def detections_path_def gps_path_def alerts_path_def
  recordings_path_def start_path_def stop_path_def enable_path_def disable_path_def whep_path_def

definition below_prefix :: "string \<Rightarrow> string \<Rightarrow> bool" where
  "below_prefix p path \<longleftrightarrow>
     starts_with p path \<and> length path > length p \<and> find_from (\<lambda>c. c = CHR ''/'') (length p) path = None"

definition alert_route :: "string \<Rightarrow> bool" where
  "alert_route path \<longleftrightarrow> path = alerts_path \<or> below_prefix alerts_prefix path"

definition get_route :: "string \<Rightarrow> bool" where
  "get_route path \<longleftrightarrow>
     path = health_path \<or> path = status_path \<or> path = metrics_path \<or> path = config_path \<or>
     path = detections_path \<or> path = gps_path \<or> alert_route path \<or>
     path = recordings_path"

definition post_route :: "string \<Rightarrow> bool" where
  "post_route path \<longleftrightarrow>
     path = start_path \<or> path = stop_path \<or>
     path = enable_path \<or> path = disable_path \<or> path = whep_path"

definition delete_route :: "string \<Rightarrow> bool" where
  "delete_route path \<longleftrightarrow> below_prefix session_prefix path"

definition request_path :: "request \<Rightarrow> string" where
  "request_path r = substr 0 (index_where (\<lambda>c. c = CHR ''?'') (rq_target r)) (rq_target r)"

definition expected_verb :: "string \<Rightarrow> verb" where
  "expected_verb path =
     (if get_route path then Verb_get else if delete_route path then Verb_delete else Verb_post)"

definition allow_value :: "string \<Rightarrow> string" where
  "allow_value path =
     (if get_route path then ''GET'' else if delete_route path then ''DELETE'' else ''POST'')"

section \<open>Handlers\<close>

definition diagnostics_of :: "web_env \<Rightarrow> web_state \<Rightarrow> webrtc_diagnostics option" where
  "diagnostics_of env st =
     map_option (manager_diagnostics (re_now (we_request env)) (we_routes env) (we_media_errors env)) (w_webrtc st)"

definition health_response :: "web_env \<Rightarrow> nat \<Rightarrow> response" where
  \<open>health_response env version =
     (case we_health env of
        None \<Rightarrow> json_response 503 version
          (''{"state":"FAILED","components":{},"detail":"health watchdog unavailable"}'' @ ''\<newline>'')
      | Some h \<Rightarrow> json_response (if fst h = H_Running then 200 else 503) version (health_json h))\<close>

definition config_response :: "nat \<Rightarrow> web_state \<Rightarrow> response" where
  \<open>config_response version st =
     (case public_config (w_api st) of
        None \<Rightarrow> json_response 503 version (''{"available":false}'' @ ''\<newline>'')
      | Some c \<Rightarrow> json_response 200 version (config_json c (detector_enabled (w_api st))))\<close>

definition gps_response :: "nat \<Rightarrow> web_state \<Rightarrow> response" where
  \<open>gps_response version st =
     (case api_gps (w_api st) of
        None \<Rightarrow> json_response 503 version (''{"available":false}'' @ ''\<newline>'')
      | Some fix \<Rightarrow> json_response 200 version (gps_json fix))\<close>

fun whep_error_status :: "create_session_error \<Rightarrow> nat" where
  "whep_error_status E_InvalidOffer = 400"
| "whep_error_status E_Disabled = 503"
| "whep_error_status E_Capacity = 429"
| "whep_error_status E_GatheringTimeout = 504"
| "whep_error_status E_Internal = 500"

definition whep_created :: "nat \<Rightarrow> string \<Rightarrow> string \<Rightarrow> response" where
  "whep_created version sid answer =
     \<lparr>rs_result = 201, rs_version = version,
      rs_fields = [(''Content-Type'', sdp_type), (''Cache-Control'', ''no-store''),
                   (''Location'', session_prefix @ sid)], rs_body = answer\<rparr>"

definition whep_request :: "web_env \<Rightarrow> request \<Rightarrow> web_state \<Rightarrow> response \<times> web_state" where
  "whep_request env r st =
     (case w_webrtc st of
        None \<Rightarrow> (json_response 503 (rq_version r) (error_json ''WebRTC unavailable''), st)
      | Some m \<Rightarrow>
          (if rq_content_type r \<noteq> sdp_type
           then (json_response 415 (rq_version r) (error_json ''Content-Type must be application/sdp''), st)
           else
             case create_session (we_request env) (rq_body r) m of
               (Inl (e, message), m1) \<Rightarrow>
                 (json_response (whep_error_status e) (rq_version r) (error_json message), st\<lparr>w_webrtc := Some m1\<rparr>)
             | (Inr (sid, answer), m1) \<Rightarrow> (whep_created (rq_version r) sid answer, st\<lparr>w_webrtc := Some m1\<rparr>)))"

definition delete_request :: "web_env \<Rightarrow> nat \<Rightarrow> string \<Rightarrow> web_state \<Rightarrow> response \<times> web_state" where
  "delete_request env version path st =
     (case w_webrtc st of
        None \<Rightarrow> (json_response 503 version (error_json ''WebRTC unavailable''), st)
      | Some m \<Rightarrow>
          (case close_session (re_now (we_request env)) (re_route (we_request env))
                  (substr (length session_prefix) None path) m of
             (False, m1) \<Rightarrow> (json_response 404 version (error_json ''session not found''), st\<lparr>w_webrtc := Some m1\<rparr>)
           | (True, m1) \<Rightarrow>
               (\<lparr>rs_result = 204, rs_version = version, rs_fields = [], rs_body = []\<rparr>, st\<lparr>w_webrtc := Some m1\<rparr>)))"

definition alert_response :: "web_env \<Rightarrow> nat \<Rightarrow> string \<Rightarrow> database \<Rightarrow> response" where
  \<open>alert_response env version aid db =
     (case find_by_id (we_queries env) aid db of
        (found, e) \<Rightarrow>
          if e \<noteq> [] then json_response 500 version (error_json e)
          else case found of
            None \<Rightarrow> json_response 404 version (error_json ''alert not found'')
          | Some a \<Rightarrow> json_response 200 version (alert_json a @ ''\<newline>''))\<close>

definition query_limit :: "(string \<rightharpoonup> string) \<Rightarrow> nat option" where
  "query_limit parameters =
     (case parameters ''limit'' of
        None \<Rightarrow> Some 100
      | Some text \<Rightarrow>
          (case parse_size text of
             None \<Rightarrow> None
           | Some limit \<Rightarrow> if limit = 0 \<or> limit > 1000 then None else Some limit))"

text \<open>What the filters select: \<open>None\<close> is an invalid time range.\<close>

definition find_filtered ::
  "query_faults \<Rightarrow> (string \<rightharpoonup> string) \<Rightarrow> nat \<Rightarrow> database \<Rightarrow> (alert_event list \<times> string) option" where
  "find_filtered qf parameters limit db =
     (case (parameters ''from'', parameters ''to'') of
        (Some f, Some t) \<Rightarrow>
          (case (parse_int64 f, parse_int64 t) of
             (Some from_ms, Some to_ms) \<Rightarrow> Some (find_by_time_range qf from_ms to_ms limit db)
           | _ \<Rightarrow> None)
      | _ \<Rightarrow>
          (case parameters ''class'' of
             Some name \<Rightarrow> Some (find_by_class qf name limit db)
           | None \<Rightarrow> Some (find_recent qf limit db)))"

definition alerts_response :: "web_env \<Rightarrow> nat \<Rightarrow> string \<Rightarrow> database \<Rightarrow> response" where
  "alerts_response env version target db =
     (case query_parameters target of
        None \<Rightarrow> json_response 400 version (error_json ''invalid query encoding'')
      | Some parameters \<Rightarrow>
          (case query_limit parameters of
             None \<Rightarrow> json_response 400 version (error_json ''invalid limit'')
           | Some limit \<Rightarrow>
               (if (parameters ''from'' = None) \<noteq> (parameters ''to'' = None) \<or>
                   parameters ''class'' \<noteq> None \<and> parameters ''from'' \<noteq> None
                then json_response 400 version (error_json ''invalid alert filters'')
                else case find_filtered (we_queries env) parameters limit db of
                  None \<Rightarrow> json_response 400 version (error_json ''invalid time range'')
                | Some (found, e) \<Rightarrow>
                    (if e \<noteq> [] then json_response 500 version (error_json e)
                     else json_response 200 version (alerts_json found)))))"

definition alert_request :: "web_env \<Rightarrow> request \<Rightarrow> string \<Rightarrow> web_state \<Rightarrow> response" where
  \<open>alert_request env r path st =
     (case w_alerts st of
        None \<Rightarrow> json_response 503 (rq_version r) (''{"available":false,"items":[]}'' @ ''\<newline>'')
      | Some db \<Rightarrow>
          (if path \<noteq> alerts_path then alert_response env (rq_version r) (substr 15 None path) db
           else alerts_response env (rq_version r) (rq_target r) db))\<close>

definition recordings_json :: "recording_status \<Rightarrow> string" where
  \<open>recordings_json s =
     ''{"available":'' @ json_bool (rs_available s) @
     '',"state":'' @ json_string (rs_state s) @
     '',"active":'' @ json_bool (rs_active s) @
     '',"current_path":'' @ json_string (current_path s) @
     '',"access_units_written":'' @ u64_text (access_units_written s) @
     '',"unavailable_reason":'' @ json_string (unavailable_reason s) @
     '',"last_error":'' @ json_string (rs_last_error s) @ ''}'' @ ''\<newline>''\<close>

definition recordings_response :: "nat \<Rightarrow> web_state \<Rightarrow> response" where
  \<open>recordings_response version st =
     (case w_recording st of
        Some k \<Rightarrow>
          (if rs_configured (rc_status k)
           then json_response (if rs_available (rc_status k) then 200 else 503) version (recordings_json (rc_status k))
           else json_response 503 version (''{"available":false,"items":[]}'' @ ''\<newline>''))
      | None \<Rightarrow> json_response 503 version (''{"available":false,"items":[]}'' @ ''\<newline>''))\<close>

definition detector_request :: "nat \<Rightarrow> string \<Rightarrow> web_state \<Rightarrow> response \<times> web_state" where
  \<open>detector_request version path st =
     (if \<not> detector_supported (w_api st) then (json_response 503 version (''{"available":false}'' @ ''\<newline>''), st)
      else
        let enabled = (path = enable_path);
            (api, rs) = set_detector_enabled enabled (w_api st) (w_status st)
        in (json_response 200 version (''{"enabled":'' @ json_bool enabled @ ''}'' @ ''\<newline>''),
            st\<lparr>w_api := api, w_status := rs\<rparr>))\<close>

definition control_json :: "recording_status \<Rightarrow> string" where
  \<open>control_json s =
     ''{"state":'' @ json_string (rs_state s) @
     '',"active":'' @ json_bool (rs_active s) @
     '',"current_path":'' @ json_string (current_path s) @
     '',"last_error":'' @ json_string (rs_last_error s) @ ''}'' @ ''\<newline>''\<close>

definition recording_request :: "nat \<Rightarrow> string \<Rightarrow> web_state \<Rightarrow> response \<times> web_state" where
  \<open>recording_request version path st =
     (let refused = (json_response 501 version
            (''{"available":false,"error":"recording not implemented"}'' @ ''\<newline>''), st) in
      case w_recording st of
        None \<Rightarrow> refused
      | Some k \<Rightarrow>
          (if \<not> rs_configured (rc_status k) then refused
           else case (if path = start_path then rc_start k else rc_stop k) of
             ((True, _), k1) \<Rightarrow> (json_response 200 version (control_json (rc_status k1)), st\<lparr>w_recording := Some k1\<rparr>)
           | ((False, e), k1) \<Rightarrow> (json_response 503 version (error_json e), st\<lparr>w_recording := Some k1\<rparr>)))\<close>

text \<open>The handlers in the order of the code, once path and method are accepted.\<close>

definition dispatch :: "web_env \<Rightarrow> request \<Rightarrow> web_state \<Rightarrow> response \<times> web_state" where
  "dispatch env r st =
     (let path = request_path r; version = rq_version r in
      if path = health_path then (health_response env version, st)
      else if path = status_path then
        (json_response 200 version
           (status_json (we_snapshot env) (detector_enabled (w_api st)) (diagnostics_of env st)), st)
      else if path = metrics_path then
        (json_response 200 version
           (metrics_json (we_snapshot env) (case we_metrics env of Some m \<Rightarrow> m | None \<Rightarrow> no_metrics) (w_api st)
              (diagnostics_of env st)), st)
      else if path = config_path then (config_response version st, st)
      else if path = detections_path then
        (json_response 200 version (detections_json (latest (w_api st))), st)
      else if path = gps_path then (gps_response version st, st)
      else if path = whep_path then whep_request env r st
      else if delete_route path then delete_request env version path st
      else if alert_route path then (alert_request env r path st, st)
      else if path = recordings_path then (recordings_response version st, st)
      else if path = enable_path \<or> path = disable_path
      then detector_request version path st
      else recording_request version path st)"

definition route_request :: "web_env \<Rightarrow> request \<Rightarrow> web_state \<Rightarrow> response \<times> web_state" where
  "route_request env r st =
     (let path = request_path r in
      if \<not> get_route path \<and> \<not> post_route path \<and> \<not> delete_route path
      then (json_response 404 (rq_version r) (error_json ''not found''), st)
      else if rq_method r \<noteq> expected_verb path
      then (set_field ''Allow'' (allow_value path)
              (json_response 405 (rq_version r) (error_json ''method not allowed'')), st)
      else dispatch env r st)"

section \<open>What a request changes\<close>

lemmas response_defs = health_response_def config_response_def gps_response_def alert_request_def
  recordings_response_def whep_request_def delete_request_def detector_request_def recording_request_def

lemma paths_distinct:
  "distinct [health_path, status_path, metrics_path, config_path, detections_path, gps_path, alerts_path,
    recordings_path, start_path, stop_path, enable_path, disable_path, whep_path]"
  unfolding path_defs by code_simp

lemma paths_char:
  "list_all (\<lambda>p. p ! 8 \<noteq> CHR ''w'') [status_path, metrics_path, config_path, detections_path, gps_path,
    alerts_path, recordings_path, start_path, stop_path, enable_path, disable_path]"
  "list_all (\<lambda>p. p ! 8 \<noteq> CHR ''a'') [start_path, stop_path, enable_path, disable_path, whep_path]"
  "health_path ! 1 = CHR ''h''" "whep_path ! 15 = CHR ''w''" "alerts_path ! 8 = CHR ''a''"
  unfolding path_defs by code_simp+

lemma prefix_chars:
  "alerts_prefix ! 8 = CHR ''a''" "session_prefix ! 1 = CHR ''a''" "session_prefix ! 8 = CHR ''w''"
  "session_prefix ! 15 = CHR ''s''" "length alerts_prefix = 15" "length session_prefix = 24"
  unfolding alerts_prefix_def session_prefix_def by code_simp+

lemma below_prefix_nth: "below_prefix p path \<Longrightarrow> i < length p \<Longrightarrow> path ! i = p ! i"
  by (auto simp: below_prefix_def starts_with_prefix prefix_def nth_append)

lemma delete_route_chars:
  "delete_route path \<Longrightarrow> path ! 1 = CHR ''a'' \<and> path ! 8 = CHR ''w'' \<and> path ! 15 = CHR ''s''"
  using below_prefix_nth[of session_prefix path 1] below_prefix_nth[of session_prefix path 8]
    below_prefix_nth[of session_prefix path 15]
  by (simp add: delete_route_def prefix_chars[unfolded One_nat_def])

lemma alert_route_chars: "alert_route path \<Longrightarrow> path ! 8 = CHR ''a''"
  using below_prefix_nth[of alerts_prefix path 8] by (auto simp: alert_route_def prefix_chars paths_char)

lemma delete_route_not_get: "delete_route path \<Longrightarrow> \<not> get_route path"
  using delete_route_chars[of path] alert_route_chars[of path] paths_char by (auto simp: get_route_def)

lemma delete_route_not_post: "delete_route path \<Longrightarrow> \<not> post_route path"
  using delete_route_chars[of path] paths_char by (auto simp: post_route_def)

lemma paths_apart:
  "list_all (\<lambda>p. p \<noteq> health_path \<and> p \<noteq> status_path \<and> p \<noteq> metrics_path \<and> p \<noteq> config_path \<and> p \<noteq> detections_path \<and>
      p \<noteq> gps_path \<and> p \<noteq> recordings_path) [start_path, stop_path, enable_path, disable_path, whep_path]"
  "alerts_path \<noteq> health_path" "alerts_path \<noteq> status_path" "alerts_path \<noteq> metrics_path" "alerts_path \<noteq> config_path"
  "alerts_path \<noteq> detections_path" "alerts_path \<noteq> gps_path" "alerts_path \<noteq> whep_path"
  unfolding path_defs by code_simp+

lemma post_route_not_get:
  assumes "post_route path"
  shows "\<not> get_route path"
proof -
  have p: "path \<in> set [start_path, stop_path, enable_path, disable_path, whep_path]"
    using assms unfolding post_route_def list.set by blast
  have "path ! 8 \<noteq> CHR ''a''" using p paths_char(2) unfolding list_all_iff by blast
  then have "\<not> alert_route path" using alert_route_chars by blast
  moreover note p paths_apart(1)
  ultimately show ?thesis unfolding get_route_def list_all_iff by blast
qed

lemma get_route_not_post:
  "get_route path \<Longrightarrow> \<not> delete_route path \<and> path \<notin> {whep_path, enable_path, disable_path, start_path, stop_path}"
  using post_route_not_get[of path] delete_route_not_get[of path] by (auto simp: post_route_def)

lemma dispatch_get:
  assumes "get_route (request_path r)"
  shows "snd (dispatch env r st) = st"
proof -
  have "request_path r = recordings_path" if "request_path r \<notin> {health_path, status_path, metrics_path,
    config_path, detections_path, gps_path}" "\<not> alert_route (request_path r)"
    using assms that by (simp add: get_route_def)
  then show ?thesis using get_route_not_post[OF assms] by (simp add: dispatch_def Let_def)
qed

lemma dispatch_delete:
  assumes "delete_route (request_path r)"
  shows "dispatch env r st = delete_request env (rq_version r) (request_path r) st"
  using assms delete_route_not_get[OF assms] delete_route_not_post[OF assms]
  by (simp add: dispatch_def Let_def get_route_def post_route_def)

lemma dispatch_post:
  assumes "post_route (request_path r)"
  shows "dispatch env r st =
    (if request_path r = whep_path then whep_request env r st
     else if request_path r = enable_path \<or> request_path r = disable_path
     then detector_request (rq_version r) (request_path r) st
     else recording_request (rq_version r) (request_path r) st)"
proof -
  have "\<not> delete_route (request_path r)" using assms delete_route_not_post by blast
  moreover have "\<not> get_route (request_path r)" by (rule post_route_not_get[OF assms])
  ultimately show ?thesis by (simp add: dispatch_def Let_def get_route_def)
qed

lemma delete_request_effect:
  "snd (delete_request env v path st) = st \<or>
   (\<exists>m. w_webrtc st = Some m \<and> snd (delete_request env v path st) = st\<lparr>w_webrtc := Some (snd
      (close_session (re_now (we_request env)) (re_route (we_request env)) (drop (length session_prefix) path) m))\<rparr>)"
  by (auto simp: delete_request_def substr_def split: option.splits prod.splits bool.splits)

lemma whep_request_effect:
  "snd (whep_request env r st) = st \<or>
   (\<exists>m. w_webrtc st = Some m \<and> rq_content_type r = sdp_type \<and>
      snd (whep_request env r st) = st\<lparr>w_webrtc := Some (snd (create_session (we_request env) (rq_body r) m))\<rparr>)"
  by (auto simp: whep_request_def split: option.splits prod.splits sum.splits)

lemma detector_request_effect:
  "snd (detector_request v path st) = st \<or>
   (detector_supported (w_api st) \<and>
    snd (detector_request v path st) =
      st\<lparr>w_api := fst (set_detector_enabled (path = enable_path) (w_api st) (w_status st)),
         w_status := snd (set_detector_enabled (path = enable_path) (w_api st) (w_status st))\<rparr>)"
  by (simp add: detector_request_def Let_def case_prod_beta)

lemma recording_request_effect:
  "snd (recording_request v path st) = st \<or>
   (\<exists>k. w_recording st = Some k \<and> rs_configured (rc_status k) \<and>
      snd (recording_request v path st) =
        st\<lparr>w_recording := Some (snd (if path = start_path then rc_start k else rc_stop k))\<rparr>)"
proof (cases "w_recording st")
  case (Some k)
  obtain ok e k1 where "(if path = start_path then rc_start k else rc_stop k) = ((ok, e), k1)" by (metis prod.exhaust)
  then show ?thesis using Some by (cases ok) (simp_all add: recording_request_def Let_def)
qed (simp add: recording_request_def)

lemma post_effect:
  assumes "post_route (request_path r)"
  shows "let path = request_path r; st' = snd (dispatch env r st) in
   st' = st \<or>
     (\<exists>m. path = whep_path \<and> w_webrtc st = Some m \<and> rq_content_type r = sdp_type \<and>
        st' = st\<lparr>w_webrtc := Some (snd (create_session (we_request env) (rq_body r) m))\<rparr>) \<or>
     (path \<in> {enable_path, disable_path} \<and> detector_supported (w_api st) \<and>
        st' = st\<lparr>w_api := fst (set_detector_enabled (path = enable_path) (w_api st) (w_status st)),
                 w_status := snd (set_detector_enabled (path = enable_path) (w_api st) (w_status st))\<rparr>) \<or>
     (\<exists>k. path = start_path \<and> w_recording st = Some k \<and>
        st' = st\<lparr>w_recording := Some (snd (rc_start k))\<rparr>) \<or>
     (\<exists>k. path = stop_path \<and> w_recording st = Some k \<and>
        st' = st\<lparr>w_recording := Some (snd (rc_stop k))\<rparr>)"
proof -
  let ?path = "request_path r"
  consider "?path = whep_path" | "?path = enable_path" | "?path = disable_path" | "?path = start_path"
    | "?path = stop_path"
    using assms unfolding post_route_def by blast
  then show ?thesis
  proof cases
    case 1
    then show ?thesis using whep_request_effect[of env r st] by (auto simp: dispatch_post[OF assms] Let_def)
  next
    case 2
    then have "dispatch env r st = detector_request (rq_version r) ?path st"
      using paths_distinct by (simp add: dispatch_post[OF assms])
    then show ?thesis using detector_request_effect[of "rq_version r" ?path st] 2 unfolding Let_def by auto
  next
    case 3
    then have "dispatch env r st = detector_request (rq_version r) ?path st"
      using paths_distinct by (simp add: dispatch_post[OF assms])
    then show ?thesis using detector_request_effect[of "rq_version r" ?path st] 3 unfolding Let_def by auto
  next
    case 4
    then have "dispatch env r st = recording_request (rq_version r) ?path st"
      using paths_distinct by (simp add: dispatch_post[OF assms])
    then show ?thesis using recording_request_effect[of "rq_version r" ?path st] 4 unfolding Let_def by auto
  next
    case 5
    then have "dispatch env r st = recording_request (rq_version r) ?path st"
      using paths_distinct by (simp add: dispatch_post[OF assms])
    moreover have "stop_path \<noteq> start_path" using paths_distinct by auto
    ultimately show ?thesis using recording_request_effect[of "rq_version r" ?path st] 5 unfolding Let_def by auto
  qed
qed

text \<open>C4: what a request can change.  A request for an unknown path is answered 404 and one with the wrong
  method 405, naming the right one; neither changes anything, nor does any GET.  A POST or DELETE
  changes at most one component, by the operation of its path: WHEP requests and deletions the WebRTC
  manager, the detector paths the detector switch, the recording paths the recording controller.  No
  request changes the alert database.\<close>

theorem request_effects:
  "let path = request_path r; resp = fst (route_request env r st); st' = snd (route_request env r st) in
   if \<not> get_route path \<and> \<not> post_route path \<and> \<not> delete_route path then rs_result resp = 404 \<and> st' = st
   else if rq_method r \<noteq> expected_verb path
   then rs_result resp = 405 \<and> map_of (rs_fields resp) ''Allow'' = Some (allow_value path) \<and> st' = st
   else if get_route path then st' = st
   else st' = st \<or>
     (\<exists>m. path = whep_path \<and> w_webrtc st = Some m \<and> rq_content_type r = sdp_type \<and>
        st' = st\<lparr>w_webrtc := Some (snd (create_session (we_request env) (rq_body r) m))\<rparr>) \<or>
     (\<exists>m. delete_route path \<and> w_webrtc st = Some m \<and>
        st' = st\<lparr>w_webrtc := Some (snd (close_session (re_now (we_request env)) (re_route (we_request env))
                (drop (length session_prefix) path) m))\<rparr>) \<or>
     (path \<in> {enable_path, disable_path} \<and> detector_supported (w_api st) \<and>
        st' = st\<lparr>w_api := fst (set_detector_enabled (path = enable_path) (w_api st) (w_status st)),
                 w_status := snd (set_detector_enabled (path = enable_path) (w_api st) (w_status st))\<rparr>) \<or>
     (\<exists>k. path = start_path \<and> w_recording st = Some k \<and>
        st' = st\<lparr>w_recording := Some (snd (rc_start k))\<rparr>) \<or>
     (\<exists>k. path = stop_path \<and> w_recording st = Some k \<and>
        st' = st\<lparr>w_recording := Some (snd (rc_stop k))\<rparr>)"
proof -
  let ?path = "request_path r"
  consider (no) "\<not> get_route ?path" "\<not> post_route ?path" "\<not> delete_route ?path"
    | (verb) "get_route ?path \<or> post_route ?path \<or> delete_route ?path" "rq_method r \<noteq> expected_verb ?path"
    | (get) "get_route ?path" "rq_method r = expected_verb ?path"
    | (post) "post_route ?path" "rq_method r = expected_verb ?path"
    | (del) "delete_route ?path" "rq_method r = expected_verb ?path" by blast
  then show ?thesis
  proof cases
    case no
    then show ?thesis by (simp add: route_request_def json_response_def)
  next
    case verb
    then show ?thesis by (auto simp: route_request_def json_response_def set_field_def Let_def)
  next
    case get
    then show ?thesis using dispatch_get[OF get(1)] by (simp add: route_request_def Let_def)
  next
    case post
    then have "route_request env r st = dispatch env r st" "\<not> get_route ?path"
      using post_route_not_get by (simp_all add: route_request_def)
    with post post_effect[OF post(1), of env st] show ?thesis unfolding Let_def by auto
  next
    case del
    then have "route_request env r st = delete_request env (rq_version r) ?path st" "\<not> get_route ?path"
      using delete_route_not_get dispatch_delete by (simp_all add: route_request_def)
    with del delete_request_effect[of env "rq_version r" ?path st] show ?thesis unfolding Let_def by fastforce
  qed
qed

section \<open>Queries read back\<close>

text \<open>A query string with percent-encoded values, as a browser builds it.\<close>

definition unreserved :: "char \<Rightarrow> bool" where
  "unreserved c \<longleftrightarrow> isalnum c \<or> c \<in> set ''-._~''"

definition encode_char :: "char \<Rightarrow> string" where
  "encode_char c = (if unreserved c then [c] else [CHR ''%'', hex_digit (byte c div 16), hex_digit (byte c mod 16)])"

definition encode_component :: "string \<Rightarrow> string" where
  "encode_component v = concat (map encode_char v)"

definition pair_text :: "string \<times> string \<Rightarrow> string" where
  "pair_text p = fst p @ CHR ''='' # encode_component (snd p)"

fun query_text :: "(string \<times> string) list \<Rightarrow> string" where
  "query_text [] = []"
| "query_text [p] = pair_text p"
| "query_text (p # q # ps) = pair_text p @ CHR ''&'' # query_text (q # ps)"

lemma byte_char_of [simp]: "n < 256 \<Longrightarrow> byte (char_of n) = n"
  by (simp add: byte_def)

lemma char_of_byte_of [simp]: "char_of (byte c) = c"
  by (simp add: byte_def)

lemma byte_bound: "byte c < 256"
  by (simp add: byte_def)

lemma decode_encode_char: "decode_component (encode_char c @ s) = map_option (Cons c) (decode_component s)"
proof (cases "unreserved c")
  case True
  then have "c \<noteq> CHR ''%''" by (auto simp: unreserved_def isalnum_def)
  then show ?thesis using True by (simp add: encode_char_def)
next
  case False
  have "16 * (byte c div 16) + byte c mod 16 = byte c" "byte c div 16 < 16" using byte_bound[of c] by simp_all
  then show ?thesis using False by (simp add: encode_char_def hex_value_hex_digit)
qed

lemma decode_encode: "decode_component (encode_component v) = Some v"
  by (induction v) (simp_all add: encode_component_def decode_encode_char)

lemma encode_char_plain: "x \<in> set (encode_char c) \<Longrightarrow> x \<noteq> CHR ''&''"
proof -
  have "hex_digit d \<noteq> CHR ''&''" if "d < 16" for d
  proof
    assume "hex_digit d = CHR ''&''"
    then have "hex_value (CHR ''&'') = Some d" using hex_value_hex_digit[OF that] by simp
    then show False by (simp add: hex_value_def byte_def)
  qed
  from this[of "byte c div 16"] this[of "byte c mod 16"]
  have "hex_digit (byte c div 16) \<noteq> CHR ''&''" "hex_digit (byte c mod 16) \<noteq> CHR ''&''"
    using byte_bound[of c] by simp_all
  then show "x \<in> set (encode_char c) \<Longrightarrow> x \<noteq> CHR ''&''"
    by (auto simp: encode_char_def unreserved_def isalnum_def simp del: byte_char_of split: if_splits)
qed

lemma encode_plain: "CHR ''&'' \<notin> set (encode_component v)"
  using encode_char_plain by (auto simp: encode_component_def)

definition plain_key :: "string \<Rightarrow> bool" where
  "plain_key k \<longleftrightarrow> CHR ''='' \<notin> set k \<and> CHR ''&'' \<notin> set k"

lemma find_from_shift: "find_from P (length pre) (pre @ s) = map_option ((+) (length pre)) (index_where P s)"
  by (simp add: find_from_def)

text \<open>One pass of the loop over a pair, the last one and one that others follow.\<close>

lemma pair_positions:
  assumes "plain_key k"
  shows "index_where (\<lambda>c. c = CHR ''='') (pair_text (k, v) @ rest) = Some (length k)"
    "index_where (\<lambda>c. c = CHR ''&'') (pair_text (k, v)) = None"
    "index_where (\<lambda>c. c = CHR ''&'') (pair_text (k, v) @ CHR ''&'' # rest) = Some (length (pair_text (k, v)))"
proof -
  have k: "\<forall>c \<in> set k. c \<noteq> CHR ''=''" and a: "\<forall>c \<in> set (pair_text (k, v)). c \<noteq> CHR ''&''"
    using assms encode_plain[of v] by (auto simp: plain_key_def pair_text_def)
  show "index_where (\<lambda>c. c = CHR ''='') (pair_text (k, v) @ rest) = Some (length k)"
    using index_where_append_hit[of k "\<lambda>c. c = CHR ''=''"] k by (simp add: pair_text_def)
  show "index_where (\<lambda>c. c = CHR ''&'') (pair_text (k, v)) = None" using a by (simp add: index_where_None)
  show "index_where (\<lambda>c. c = CHR ''&'') (pair_text (k, v) @ CHR ''&'' # rest) = Some (length (pair_text (k, v)))"
    using index_where_append_hit[of _ "\<lambda>c. c = CHR ''&''"] a by blast
qed

lemma pair_parts:
  "substr (Suc (length pre)) (Some (length k)) (pre @ x # pair_text (k, v) @ rest) = k"
  "substr (length pre + length k + 2) None (pre @ x # pair_text (k, v)) = encode_component v"
  "substr (length pre + length k + 2) (Some (length (encode_component v))) (pre @ x # pair_text (k, v) @ rest) =
     encode_component v"
  by (simp_all add: substr_def pair_text_def)

lemma query_loop_last:
  assumes "plain_key k"
  shows "query_loop (pre @ x # pair_text (k, v)) (length pre) vals = Some (vals(k \<mapsto> v))"
proof -
  let ?t = "pre @ x # pair_text (k, v)"
  note f = find_from_shift[of _ "pre @ [x]" "pair_text (k, v)", simplified]
  have "find_from (\<lambda>c. c = CHR ''='') (Suc (length pre)) ?t = Some (length pre + length k + 1)"
    "find_from (\<lambda>c. c = CHR ''&'') (Suc (length pre)) ?t = None"
    using pair_positions(1)[OF assms, of v "[]"] pair_positions(2)[OF assms, of v] f by simp_all
  moreover have "pair_text (k, v) \<noteq> []" by (simp add: pair_text_def)
  ultimately show ?thesis
    using pair_parts(1)[of pre k x v "[]"] pair_parts(2)[of pre k x v]
    by (subst query_loop.simps) (simp add: decode_encode)
qed

lemma query_loop_more:
  assumes "plain_key k"
  shows "query_loop (pre @ x # pair_text (k, v) @ CHR ''&'' # rest) (length pre) vals =
    query_loop ((pre @ x # pair_text (k, v)) @ CHR ''&'' # rest) (length (pre @ x # pair_text (k, v))) (vals(k \<mapsto> v))"
proof -
  let ?t = "pre @ x # pair_text (k, v) @ CHR ''&'' # rest" and ?e = "length pre + length (pair_text (k, v)) + 1"
  note f = find_from_shift[of _ "pre @ [x]" "pair_text (k, v) @ CHR ''&'' # rest", simplified]
  have "find_from (\<lambda>c. c = CHR ''='') (Suc (length pre)) ?t = Some (length pre + length k + 1)"
    "find_from (\<lambda>c. c = CHR ''&'') (Suc (length pre)) ?t = Some ?e"
    using pair_positions(1)[OF assms, of v "CHR ''&'' # rest"] pair_positions(3)[OF assms, of v rest] f by simp_all
  moreover have "length (pair_text (k, v)) = length k + length (encode_component v) + 1" by (simp add: pair_text_def)
  ultimately show ?thesis
    using pair_parts(1)[of pre k x v "CHR ''&'' # rest"] pair_parts(3)[of pre k v x "CHR ''&'' # rest"]
    by (subst query_loop.simps) (simp add: decode_encode)
qed

lemma query_loop_text:
  "list_all (\<lambda>p. plain_key (fst p)) ps \<Longrightarrow>
   query_loop (pre @ x # query_text ps) (length pre) vals = Some (vals ++ map_of (rev ps))"
proof (induction ps arbitrary: pre x vals rule: query_text.induct)
  case 1
  then show ?case by (subst query_loop.simps) simp
next
  case (2 p)
  then show ?case using query_loop_last[of "fst p" pre x "snd p"] by (simp add: map_add_def fun_eq_iff)
next
  case (3 p q ps)
  have "query_loop (pre @ x # query_text (p # q # ps)) (length pre) vals =
      query_loop ((pre @ x # pair_text p) @ CHR ''&'' # query_text (q # ps)) (length (pre @ x # pair_text p))
        (vals(fst p \<mapsto> snd p))"
    using query_loop_more[of "fst p" pre x "snd p"] 3(2) by simp
  also have "\<dots> = Some (vals(fst p \<mapsto> snd p) ++ map_of (rev (q # ps)))"
    using 3(2) by (intro 3(1)) simp
  also have "\<dots> = Some (vals ++ map_of (rev (p # q # ps)))"
    by (simp add: map_add_def fun_eq_iff split: option.splits)
  finally show ?case .
qed

text \<open>the query parser inverts percent-encoding.  From a target whose query lists keys and encoded
  values, it reads back every value byte for byte, the last one where a key is repeated.\<close>

theorem query_parameters_read_back:
  assumes "CHR ''?'' \<notin> set path" "list_all (\<lambda>p. plain_key (fst p)) ps"
  shows "query_parameters (path @ CHR ''?'' # query_text ps) = Some (map_of (rev ps))"
proof -
  have "index_where (\<lambda>c. c = CHR ''?'') (path @ CHR ''?'' # query_text ps) = Some (length path)"
    using index_where_append_hit[of path "\<lambda>c. c = CHR ''?''"] assms(1) by fastforce
  then show ?thesis using query_loop_text[OF assms(2), of path _ Map.empty] by (simp add: query_parameters_def)
qed

theorem query_parameters_read_back_witness:
  "query_parameters (''/api/v1/alerts'' @ CHR ''?'' # query_text [(''class'', ''a&b=c''), (''limit'', ''5'')]) =
     Some (map_of [(''limit'', ''5''), (''class'', ''a&b=c'')])"
  using query_parameters_read_back[of "''/api/v1/alerts''" "[(''class'', ''a&b=c''), (''limit'', ''5'')]"]
  by (simp add: plain_key_def)

section \<open>Pages of alerts\<close>

lemma alerts_request_path: "CHR ''?'' \<notin> set path \<Longrightarrow> rq_target r = path @ CHR ''?'' # q \<Longrightarrow> request_path r = path"
  using index_where_append_hit[of path "\<lambda>c. c = CHR ''?''"] by (fastforce simp: request_path_def substr_def)

lemma parse_size_to_string: "parse_size (to_string n) = (if n < 2 ^ 64 then Some n else None)"
  using to_string_digits[of n] by (simp add: parse_size_def list_all_iff)

lemma to_string_encoded: "encode_component (to_string n) = to_string n"
proof -
  have "encode_char c = [c]" if "is_digit c" for c
    using that by (simp add: encode_char_def unreserved_def isalnum_def is_digit_def Let_def)
  then have "list_all is_digit s \<Longrightarrow> encode_component s = s" for s
    by (induction s) (simp_all add: encode_component_def)
  then show ?thesis using to_string_digits[of n] by (simp add: list_all_iff)
qed

lemma limit_parameters:
  "query_parameters (alerts_path @ ''?limit='' @ to_string n) = Some [''limit'' \<mapsto> to_string n]"
proof -
  have "query_parameters (alerts_path @ CHR ''?'' # query_text [(''limit'', to_string n)]) =
      Some (map_of (rev [(''limit'', to_string n)]))"
  proof -
    have "index_where (\<lambda>c. c = CHR ''?'') (alerts_path @ CHR ''?'' # query_text [(''limit'', to_string n)]) =
        Some (length alerts_path)"
      by (rule index_where_append_hit) (simp_all add: alerts_path_def)
    then show ?thesis
      using query_loop_text[of "[(''limit'', to_string n)]" alerts_path _ Map.empty]
      by (simp add: query_parameters_def plain_key_def)
  qed
  then show ?thesis by (simp add: pair_text_def to_string_encoded)
qed

text \<open>the page of newest alerts.  A GET of the alerts with \<open>limit=n\<close> is answered 400 when n is zero or
  above 1000, and otherwise with exactly what the repository finds as the n newest alerts, or 500 with
  the repository's error.\<close>

theorem alerts_page:
  assumes "rq_method r = Verb_get" "rq_target r = alerts_path @ ''?limit='' @ to_string n" "w_alerts st = Some db"
  shows "route_request env r st =
    ((if n = 0 \<or> n > 1000 then json_response 400 (rq_version r) (error_json ''invalid limit'')
      else case find_recent (we_queries env) n db of
        (found, e) \<Rightarrow>
          if e = [] then json_response 200 (rq_version r) (alerts_json found)
          else json_response 500 (rq_version r) (error_json e)), st)"
proof -
  have path: "request_path r = alerts_path"
    using alerts_request_path[of alerts_path r "''limit='' @ to_string n"] assms(2) by (simp add: alerts_path_def)
  have get: "get_route alerts_path" "expected_verb alerts_path = Verb_get" "\<not> delete_route alerts_path"
    "alert_route alerts_path"
    using delete_route_not_get[of alerts_path] by (auto simp: get_route_def alert_route_def expected_verb_def)
  have parameters: "query_parameters (rq_target r) = Some [''limit'' \<mapsto> to_string n]"
    using limit_parameters[of n] assms(2) by simp
  have "route_request env r st = dispatch env r st" using path get assms(1) by (simp add: route_request_def)
  also have "\<dots> = (alert_request env r alerts_path st, st)"
    using get by (simp add: dispatch_def path Let_def paths_apart(2-8))
  also have "alert_request env r alerts_path st = alerts_response env (rq_version r) (rq_target r) db"
    using assms(3) by (simp add: alert_request_def)
  also have "\<dots> =
     (if n = 0 \<or> n > 1000 then json_response 400 (rq_version r) (error_json ''invalid limit'')
      else case find_recent (we_queries env) n db of
        (found, e) \<Rightarrow>
          if e = [] then json_response 200 (rq_version r) (alerts_json found)
          else json_response 500 (rq_version r) (error_json e))"
    using parameters
    by (simp add: alerts_response_def query_limit_def parse_size_to_string find_filtered_def split: prod.splits)
  finally show ?thesis .
qed

definition sample_api :: api_state where
  "sample_api = new_api_state False None"

definition sample_state :: web_state where
  "sample_state = \<lparr>w_api = sample_api, w_status = new_status, w_alerts = Some empty_database, w_recording = None,
     w_webrtc = Some (apply_config sample_webrtc (new_manager 0))\<rparr>"

definition sample_web_env :: web_env where
  "sample_web_env = \<lparr>we_snapshot = status_snapshot 0 (new_status), we_metrics = None, we_health = None,
     we_queries = no_faults, we_request = sample_request (make_session_id [0]),
     we_routes = (\<lambda>_. re_route (sample_request [])), we_media_errors = 0\<rparr>"

definition sample_get :: "string \<Rightarrow> request" where
  "sample_get target =
     \<lparr>rq_method = Verb_get, rq_target = target, rq_version = 11, rq_content_type = [], rq_body = []\<rparr>"

theorem alerts_page_witness:
  "rs_result (fst (route_request sample_web_env (sample_get (alerts_path @ ''?limit='' @ to_string 0)) sample_state)) = 400"
  using alerts_page[of "sample_get (alerts_path @ ''?limit='' @ to_string 0)" 0 sample_state empty_database sample_web_env]
  by (simp add: sample_get_def sample_state_def json_response_def)

section \<open>A WHEP session over HTTP\<close>

text \<open>What the router relies on of the identifiers: they are the hexadecimal text of the random bytes, and
  the library's callbacks and the construction of the peer keep the identifier given to them.\<close>

definition session_ids :: "request_env \<Rightarrow> bool" where
  "session_ids env \<longleftrightarrow>
     (\<exists>bytes. bytes \<noteq> [] \<and> re_fresh_id env = make_session_id bytes) \<and>
     (\<forall>s. s_id (re_callbacks env s) = s_id s) \<and> (\<forall>k n s. re_created env k n = Inr s \<longrightarrow> s_id s = k)"

lemma hex_digit_plain: "d < 16 \<Longrightarrow> hex_digit d \<noteq> CHR ''/'' \<and> hex_digit d \<noteq> CHR ''?''"
proof -
  assume d: "d < 16"
  have "hex_value (CHR ''/'') = None" "hex_value (CHR ''?'') = None" by (simp_all add: hex_value_def byte_def)
  then show "hex_digit d \<noteq> CHR ''/'' \<and> hex_digit d \<noteq> CHR ''?''" using hex_value_hex_digit[OF d] by auto
qed

lemma session_id_plain:
  assumes "c \<in> set (make_session_id bytes)"
  shows "c \<noteq> CHR ''/'' \<and> c \<noteq> CHR ''?''"
proof -
  obtain b :: u8 where "c = hex_digit (unat b div 16) \<or> c = hex_digit (unat b mod 16)"
    using assms by (auto simp: make_session_id_def)
  moreover have "unat b < 256" using unsigned_less[of b] by simp
  then have "unat b div 16 < 16" "unat b mod 16 < 16" by simp_all
  note hex_digit_plain[OF this(1)] hex_digit_plain[OF this(2)]
  ultimately show ?thesis by metis
qed

lemma session_path_route:
  assumes "sid \<noteq> []" "\<forall>c \<in> set sid. c \<noteq> CHR ''/''"
  shows "delete_route (session_prefix @ sid)"
  using assms by (simp add: delete_route_def below_prefix_def starts_with_prefix find_from_def index_where_None)

lemma delete_routed:
  assumes "rq_method r = Verb_delete" "rq_target r = session_prefix @ sid" "sid \<noteq> []"
    "\<forall>c \<in> set sid. c \<noteq> CHR ''/'' \<and> c \<noteq> CHR ''?''"
  shows "route_request env r st = delete_request env (rq_version r) (session_prefix @ sid) st"
proof -
  have q: "CHR ''?'' \<notin> set (session_prefix @ sid)" using assms(4) by (auto simp: session_prefix_def)
  then have "index_where (\<lambda>c. c = CHR ''?'') (session_prefix @ sid) = None" unfolding index_where_None by blast
  then have path: "request_path r = session_prefix @ sid" using assms(2) by (simp add: request_path_def substr_def)
  have del: "delete_route (session_prefix @ sid)" using session_path_route assms(3,4) by simp
  then show ?thesis
    using dispatch_delete[of r env st] delete_route_not_get[OF del] path assms(1)
    by (simp add: route_request_def expected_verb_def)
qed

lemma close_session_table:
  assumes "close_session now rt sid m = (ok, m')"
  shows "ok \<longleftrightarrow> map_of (m_table m) sid \<noteq> None" and "map_of (m_table m') sid = None"
proof -
  have t: "m_table (remember_closed now rt h reason x) = m_table x" for h reason x
    by (simp add: remember_closed_def Let_def)
  have f: "map_of (filter (\<lambda>(k, _). k \<noteq> sid) xs) sid = None" for xs :: "(string \<times> nat) list"
    by (induction xs) auto
  show "ok \<longleftrightarrow> map_of (m_table m) sid \<noteq> None" "map_of (m_table m') sid = None"
    using assms by (auto simp: close_session_def take_session_def t f split: option.splits)
qed

lemma delete_request_result:
  assumes "w_webrtc st = Some m"
  shows "rs_result (fst (delete_request env v (session_prefix @ sid) st)) =
      (if map_of (m_table m) sid = None then 404 else 204)"
    and "\<exists>m'. w_webrtc (snd (delete_request env v (session_prefix @ sid) st)) = Some m' \<and> map_of (m_table m') sid = None"
  using assms close_session_table[of "re_now (we_request env)" "re_route (we_request env)" sid m]
  by (auto simp: delete_request_def substr_def json_response_def split: prod.splits bool.splits)

lemma whep_request_201:
  assumes "whep_request env r st = (resp, st1)" "rs_result resp = 201"
  obtains m m1 sid answer where "w_webrtc st = Some m" "w_webrtc st1 = Some m1"
    "create_session (we_request env) (rq_body r) m = (Inr (sid, answer), m1)" "resp = whep_created (rq_version r) sid answer"
proof -
  have "whep_error_status e \<noteq> 201" for e by (cases e) simp_all
  then show thesis
    using assms that by (auto simp: whep_request_def json_response_def split: option.splits if_splits prod.splits sum.splits)
qed

text \<open>a WHEP session lives until it is deleted.  When a POST of an offer is answered 201, its Location
  is a path under which a DELETE is answered 204; the session is then gone and a second DELETE of the
  path is answered 404.\<close>

theorem whep_session_lifecycle:
  assumes "session_ids (we_request env)" "rq_target r = whep_path" "rq_method r = Verb_post"
    "route_request env r st = (resp, st1)" "rs_result resp = 201"
    "map_of (rs_fields resp) ''Location'' = Some location"
    "rq_method d = Verb_delete" "rq_target d = location" "route_request env2 d st1 = (resp2, st2)"
  shows "rs_result resp2 = 204 \<and> rs_result (fst (route_request env3 d st2)) = 404"
proof -
  have path: "request_path r = whep_path"
    using assms(2) by (simp add: request_path_def substr_def whep_path_def)
  have post: "post_route whep_path" by (simp add: post_route_def)
  have "route_request env r st = whep_request env r st"
    using post post_route_not_get[OF post] delete_route_not_post[of whep_path] assms(3) path
    by (auto simp: route_request_def expected_verb_def dispatch_post)
  then have "whep_request env r st = (resp, st1)" using assms(4) by simp
  from this assms(5) obtain m m1 sid answer where m: "w_webrtc st = Some m" "w_webrtc st1 = Some m1"
    and c: "create_session (we_request env) (rq_body r) m = (Inr (sid, answer), m1)"
    and resp: "resp = whep_created (rq_version r) sid answer" by (rule whep_request_201)
  have loc: "location = session_prefix @ sid" using assms(6) by (simp add: resp whep_created_def)
  have "sid = re_fresh_id (we_request env)"
    using assms(1) by (intro created_session_id[OF c]) (simp_all add: session_ids_def)
  then obtain bytes where "bytes \<noteq> []" "sid = make_session_id bytes" using assms(1) by (auto simp: session_ids_def)
  then have sid: "sid \<noteq> []" "\<forall>x \<in> set sid. x \<noteq> CHR ''/'' \<and> x \<noteq> CHR ''?''"
    using session_id_plain[of _ bytes] by (simp_all add: make_session_id_def neq_Nil_conv[of bytes] del: not_None_eq)
  have listed: "map_of (m_table m1) sid \<noteq> None" using c by (rule create_session_success) simp
  note del = delete_routed[OF assms(7) _ sid]
  have d1: "(resp2, st2) = delete_request env2 (rq_version d) location st1"
    using del[of env2 st1] assms(8,9) loc by simp
  have "rs_result resp2 = 204" using delete_request_result(1)[OF m(2), of env2 "rq_version d" sid] listed d1 loc
    by (metis fst_conv)
  moreover obtain m2 where m2: "w_webrtc st2 = Some m2" "map_of (m_table m2) sid = None"
    using delete_request_result(2)[OF m(2), of env2 "rq_version d" sid] d1 loc by (metis snd_conv)
  ultimately show ?thesis
    using delete_request_result(1)[OF m2(1), of env3 "rq_version d" sid] m2(2) del[of env3 st2] assms(8) loc by simp
qed

definition sample_whep :: request where
  "sample_whep =
     \<lparr>rq_method = Verb_post, rq_target = whep_path, rq_version = 11, rq_content_type = sdp_type, rq_body = ''v=0''\<rparr>"

definition sample_delete :: request where
  "sample_delete =
     \<lparr>rq_method = Verb_delete, rq_target = session_prefix @ make_session_id [0], rq_version = 11,
      rq_content_type = [], rq_body = []\<rparr>"

lemma sample_session_ids: "session_ids (we_request sample_web_env)"
  by (auto simp: session_ids_def sample_web_env_def sample_request_def on_gathering_complete_def
      on_local_description_def new_session_def split: sum.splits intro!: exI[of _ "[0]"])

lemma sample_whep_created:
  "fst (whep_request sample_web_env sample_whep sample_state) = whep_created 11 (make_session_id [0]) ''answer''"
proof -
  obtain m1 where "create_session (sample_request (make_session_id [0])) ''v=0'' (apply_config sample_webrtc (new_manager 0)) =
      (Inr (make_session_id [0], ''answer''), m1)" using sample_create by blast
  then show ?thesis by (simp add: whep_request_def sample_state_def sample_whep_def sample_web_env_def)
qed

theorem whep_session_lifecycle_witness:
  "let st1 = snd (route_request sample_web_env sample_whep sample_state);
       st2 = snd (route_request sample_web_env sample_delete st1)
   in rs_result (fst (route_request sample_web_env sample_delete st1)) = 204 \<and>
      rs_result (fst (route_request sample_web_env sample_delete st2)) = 404"
proof -
  have "request_path sample_whep = whep_path"
    by (simp add: request_path_def substr_def whep_path_def sample_whep_def)
  moreover have post: "post_route whep_path" by (simp add: post_route_def)
  ultimately have "route_request sample_web_env sample_whep sample_state = whep_request sample_web_env sample_whep sample_state"
    using post_route_not_get[OF post] delete_route_not_post[of whep_path]
    by (auto simp: route_request_def expected_verb_def dispatch_post sample_whep_def)
  then have resp: "fst (route_request sample_web_env sample_whep sample_state) =
      whep_created 11 (make_session_id [0]) ''answer''"
    using sample_whep_created by simp
  have "rs_result (whep_created 11 sid a) = 201"
    "map_of (rs_fields (whep_created 11 sid a)) ''Location'' = Some (session_prefix @ sid)" for sid a
    by (simp_all add: whep_created_def)
  moreover have "route_request sample_web_env sample_whep sample_state =
      (whep_created 11 (make_session_id [0]) ''answer'', snd (route_request sample_web_env sample_whep sample_state))"
    using resp by (simp add: prod_eq_iff)
  moreover have "rq_target sample_whep = whep_path" "rq_method sample_whep = Verb_post"
    "rq_method sample_delete = Verb_delete" "rq_target sample_delete = session_prefix @ make_session_id [0]"
    by (simp_all add: sample_whep_def sample_delete_def)
  ultimately show ?thesis
    unfolding Let_def using whep_session_lifecycle[OF sample_session_ids] by (metis prod.collapse)
qed

end
