(* ===== verification/Static_Files.thy ===== *)
theory Static_Files
  imports Router
begin

text \<open>
  \<^verbatim>\<open>StaticFileHandler\<close> of \<^verbatim>\<open>src/web/static_file_handler.cpp\<close>: the pages served from
  the web root.  The file system is a parameter (\<open>file_system\<close>): what
  \<^verbatim>\<open>weakly_canonical\<close> resolves a path to, and what the calls on the result answer.  Paths are
  their generic strings.
\<close>

section \<open>Paths\<close>

text \<open>The elements a path iterates over: the root directory, the file names, and an empty element for a
  trailing separator.\<close>

fun segments :: "string \<Rightarrow> string \<Rightarrow> string list" where
  "segments acc [] = [acc]"
| "segments acc (c # s) = (if c = CHR ''/'' then acc # segments [] s else segments (acc @ [c]) s)"

definition path_parts :: "string \<Rightarrow> string list" where
  "path_parts p =
     (if p = [] then []
      else
        let absolute = (hd p = CHR ''/''); segs = segments [] p; names = filter (\<lambda>x. x \<noteq> []) segs
        in (if absolute then [''/''] else []) @ names @ (if names \<noteq> [] \<and> last segs = [] then [[]] else []))"

text \<open>\<^verbatim>\<open>root / relative\<close>: an absolute right operand replaces the left one.\<close>

definition join_path :: "string \<Rightarrow> string \<Rightarrow> string" where
  "join_path root_path rel =
     (if starts_with ''/'' rel then rel
      else if root_path = [] \<or> last root_path = CHR ''/'' then root_path @ rel
      else root_path @ CHR ''/'' # rel)"

fun parts_within :: "string list \<Rightarrow> string list \<Rightarrow> bool" where
  "parts_within [] cs = True"
| "parts_within (r # rs) [] = False"
| "parts_within (r # rs) (c # cs) = (r = c \<and> parts_within rs cs)"

definition is_within :: "string \<Rightarrow> string \<Rightarrow> bool" where
  "is_within root_path candidate = parts_within (path_parts root_path) (path_parts candidate)"

definition content_type :: "string \<Rightarrow> string" where
  "content_type p =
     (let e = extension (last (path_parts p)) in
      if e = ''.html'' then ''text/html; charset=utf-8''
      else if e = ''.js'' then ''text/javascript; charset=utf-8''
      else if e = ''.css'' then ''text/css; charset=utf-8''
      else if e = ''.json'' then ''application/json''
      else if e = ''.svg'' then ''image/svg+xml''
      else if e = ''.png'' then ''image/png''
      else if e = ''.jpg'' \<or> e = ''.jpeg'' then ''image/jpeg''
      else ''application/octet-stream'')"

text \<open>The target's path, percent-decoded; \<open>None\<close> is the result \<^verbatim>\<open>false\<close>.\<close>

fun decode_chars :: "string \<Rightarrow> string option" where
  "decode_chars [] = Some []"
| "decode_chars (c # s) =
     (if c \<noteq> CHR ''%'' then map_option (Cons c) (decode_chars s)
      else case s of
        h # l # s' \<Rightarrow>
          (case (hex_value h, hex_value l) of
             (Some a, Some b) \<Rightarrow>
               if 16 * a + b = 0 then None
               else map_option (Cons (char_of (16 * a + b))) (decode_chars s')
           | _ \<Rightarrow> None)
      | _ \<Rightarrow> None)"

definition decode_path :: "string \<Rightarrow> string option" where
  "decode_path target =
     (case decode_chars (substr 0 (index_where (\<lambda>c. c = CHR ''?'') target) target) of
        None \<Rightarrow> None
      | Some d \<Rightarrow> if d \<noteq> [] \<and> hd d = CHR ''/'' then Some d else None)"

section \<open>Loading\<close>

text \<open>\<open>fs_read\<close> is what reading a number of bytes gives; \<open>None\<close> is a stream that fails before
  its end.\<close>

record file_system =
  fs_canonical :: "string \<Rightarrow> string option"
  fs_directory :: "string \<Rightarrow> bool"
  fs_regular :: "string \<Rightarrow> bool"
  fs_size :: "string \<Rightarrow> nat option"
  fs_opens :: "string \<Rightarrow> bool"
  fs_read :: "string \<Rightarrow> nat \<Rightarrow> string option"

record asset =
  as_body :: string
  as_content_type :: string

record static_files =
  sf_root :: string
  sf_assets :: "(string \<times> asset) list"
  sf_error :: string

definition maximum_asset_bytes :: nat where
  "maximum_asset_bytes = 1024 * 1024"

definition asset_names :: "string list" where
  "asset_names = [''index.html'', ''app.js'', ''style.css'', ''diagnostics.html'', ''diagnostics.js'', ''diagnostics.css'']"

text \<open>One asset: an error, nothing to load, or the canonical path and the bytes.\<close>

definition load_asset :: "file_system \<Rightarrow> string \<Rightarrow> string \<Rightarrow> (string \<times> asset) option result" where
  "load_asset fs root_path name =
     (case fs_canonical fs (join_path root_path name) of
        None \<Rightarrow> Inr None
      | Some candidate \<Rightarrow>
          (if \<not> is_within root_path candidate \<or> \<not> fs_regular fs candidate then Inr None
           else case fs_size fs candidate of
             None \<Rightarrow> Inl (''cannot inspect static asset: '' @ name)
           | Some n \<Rightarrow>
               (if n > maximum_asset_bytes then Inl (''static asset exceeds 1 MiB limit: '' @ name)
                else if \<not> fs_opens fs candidate then Inl (''cannot read static asset: '' @ name)
                else case fs_read fs candidate n of
                  None \<Rightarrow> Inl (''cannot read static asset: '' @ name)
                | Some body \<Rightarrow>
                    Inr (Some (candidate, \<lparr>as_body = take n body, as_content_type = content_type candidate\<rparr>)))))"

text \<open>\<^verbatim>\<open>emplace\<close> keeps an asset that is already there.\<close>

definition add_asset :: "string \<times> asset \<Rightarrow> static_files \<Rightarrow> static_files" where
  "add_asset ka h = (if map_of (sf_assets h) (fst ka) = None then h\<lparr>sf_assets := sf_assets h @ [ka]\<rparr> else h)"

fun load_assets :: "file_system \<Rightarrow> string list \<Rightarrow> static_files \<Rightarrow> static_files" where
  "load_assets fs [] h = h"
| "load_assets fs (n # ns) h =
     (case load_asset fs (sf_root h) n of
        Inl e \<Rightarrow> h\<lparr>sf_error := e\<rparr>
      | Inr None \<Rightarrow> load_assets fs ns h
      | Inr (Some ka) \<Rightarrow> load_assets fs ns (add_asset ka h))"

definition new_static_files :: "file_system \<Rightarrow> string \<Rightarrow> static_files" where
  "new_static_files fs root_path =
     (case fs_canonical fs root_path of
        None \<Rightarrow> \<lparr>sf_root = [], sf_assets = [], sf_error = ''web.root must be an accessible directory''\<rparr>
      | Some r \<Rightarrow>
          (if \<not> fs_directory fs r
           then \<lparr>sf_root = r, sf_assets = [], sf_error = ''web.root must be an accessible directory''\<rparr>
           else load_assets fs asset_names \<lparr>sf_root = r, sf_assets = [], sf_error = []\<rparr>))"

section \<open>Serving\<close>

definition text_response :: "nat \<Rightarrow> string \<Rightarrow> response" where
  "text_response status message =
     \<lparr>rs_result = status, rs_version = 11, rs_fields = [(''Content-Type'', ''text/plain; charset=utf-8'')],
      rs_body = message @ ''\<newline>''\<rparr>"

definition relative_path :: "string \<Rightarrow> string" where
  "relative_path decoded =
     (if decoded = ''/'' then ''index.html''
      else if decoded = ''/diagnostics'' then ''diagnostics.html''
      else substr 1 None decoded)"

definition asset_response :: "request \<Rightarrow> asset \<Rightarrow> response" where
  "asset_response r a =
     (let fields = [(''Content-Type'', as_content_type a), (''Cache-Control'', ''no-cache'')] in
      if rq_method r = Verb_head
      then \<lparr>rs_result = 200, rs_version = rq_version r,
            rs_fields = fields @ [(''Content-Length'', to_string (length (as_body a)))], rs_body = []\<rparr>
      else \<lparr>rs_result = 200, rs_version = rq_version r, rs_fields = fields, rs_body = as_body a\<rparr>)"

definition handle :: "file_system \<Rightarrow> request \<Rightarrow> static_files \<Rightarrow> response" where
  "handle fs r h =
     (if rq_method r \<noteq> Verb_get \<and> rq_method r \<noteq> Verb_head
      then set_field ''Allow'' ''GET, HEAD'' (text_response 405 ''method not allowed'')
      else case decode_path (rq_target r) of
        None \<Rightarrow> text_response 400 ''invalid request target''
      | Some decoded \<Rightarrow>
          (case fs_canonical fs (join_path (sf_root h) (relative_path decoded)) of
             None \<Rightarrow> text_response 404 ''not found''
           | Some candidate \<Rightarrow>
               (if \<not> is_within (sf_root h) candidate then text_response 403 ''forbidden''
                else case map_of (sf_assets h) candidate of
                  None \<Rightarrow> text_response 404 ''not found''
                | Some a \<Rightarrow> asset_response r a)))"

section \<open>Properties\<close>

text \<open>What is in the map of assets.\<close>

definition loaded :: "file_system \<Rightarrow> string \<Rightarrow> string \<Rightarrow> asset \<Rightarrow> bool" where
  "loaded fs root_path k a \<longleftrightarrow>
     (\<exists>name \<in> set asset_names. fs_canonical fs (join_path root_path name) = Some k \<and> is_within root_path k \<and>
        fs_regular fs k \<and> length (as_body a) \<le> 1048576 \<and> as_content_type a = content_type k \<and>
        (\<exists>n body. fs_size fs k = Some n \<and> fs_read fs k n = Some body \<and> as_body a = take n body))"

lemma load_asset_loaded:
  "load_asset fs root_path name = Inr (Some (k, a)) \<Longrightarrow> name \<in> set asset_names \<Longrightarrow> loaded fs root_path k a"
  by (auto simp: load_asset_def loaded_def maximum_asset_bytes_def split: option.splits if_splits)

lemma add_asset_facts:
  "sf_root (add_asset ka h) = sf_root h" "set (sf_assets (add_asset ka h)) \<subseteq> insert ka (set (sf_assets h))"
  "map_of (sf_assets (add_asset ka h)) (fst ka) \<noteq> None"
  "map_of (sf_assets h) k \<noteq> None \<Longrightarrow> map_of (sf_assets (add_asset ka h)) k \<noteq> None"
  by (cases ka; auto simp: add_asset_def map_add_def split: option.splits)+

lemma load_assets_root [simp]: "sf_root (load_assets fs ns h) = sf_root h"
  by (induction ns arbitrary: h) (simp_all add: add_asset_facts split: sum.splits option.splits)

lemma load_assets_loaded:
  "\<forall>(k, a) \<in> set (sf_assets h). loaded fs (sf_root h) k a \<Longrightarrow> set ns \<subseteq> set asset_names \<Longrightarrow>
    \<forall>(k, a) \<in> set (sf_assets (load_assets fs ns h)). loaded fs (sf_root h) k a"
proof (induction ns arbitrary: h)
  case (Cons n ns)
  have add: "\<forall>(k, a) \<in> set (sf_assets (load_assets fs ns (add_asset ka h))). loaded fs (sf_root h) k a"
    if "load_asset fs (sf_root h) n = Inr (Some ka)" for ka
  proof -
    have "loaded fs (sf_root h) (fst ka) (snd ka)" using load_asset_loaded[of fs _ n "fst ka" "snd ka"] that Cons.prems(2) by simp
    then have "\<forall>(k, a) \<in> set (sf_assets (add_asset ka h)). loaded fs (sf_root h) k a"
      using add_asset_facts(2)[of ka h] Cons.prems(1) by fastforce
    then show ?thesis using Cons.IH[of "add_asset ka h"] Cons.prems(2) by (simp add: add_asset_facts(1))
  qed
  then show ?case using Cons.IH[of h] Cons.prems by (auto split: sum.splits option.splits)
qed simp

lemma load_asset_error: "load_asset fs root_path n = Inl e \<Longrightarrow> e \<noteq> []"
  by (auto simp: load_asset_def split: option.splits if_splits)

lemma load_assets_keep: "map_of (sf_assets h) k \<noteq> None \<Longrightarrow> map_of (sf_assets (load_assets fs ns h)) k \<noteq> None"
proof (induction ns arbitrary: h)
  case (Cons n ns)
  show ?case
    using Cons.IH[OF Cons.prems] Cons.IH[OF add_asset_facts(4)[OF Cons.prems]] Cons.prems
    by (simp split: sum.splits option.splits)
qed simp

lemma load_assets_all:
  "sf_error (load_assets fs ns h) = [] \<Longrightarrow> n \<in> set ns \<Longrightarrow> load_asset fs (sf_root h) n = Inr (Some ka) \<Longrightarrow>
    map_of (sf_assets (load_assets fs ns h)) (fst ka) \<noteq> None"
proof (induction ns arbitrary: h)
  case (Cons m ns)
  show ?case
  proof (cases "n = m")
    case True
    then show ?thesis using load_assets_keep[OF add_asset_facts(3)[of ka h]] Cons.prems(3) by simp
  next
    case False
    then show ?thesis
      using Cons.IH[of h] Cons.IH[of "add_asset kb h" for kb] Cons.prems load_asset_error[of fs "sf_root h" m]
      by (auto simp: add_asset_facts(1) split: sum.splits option.splits)
  qed
qed simp

lemma asset_targets:
  assumes "name \<in> set asset_names"
  shows "decode_path (CHR ''/'' # name) = Some (CHR ''/'' # name)" "relative_path (CHR ''/'' # name) = name"
proof -
  have "list_all (\<lambda>name. decode_path (CHR ''/'' # name) = Some (CHR ''/'' # name) \<and>
      relative_path (CHR ''/'' # name) = name) asset_names"
    unfolding asset_names_def by code_simp
  then show "decode_path (CHR ''/'' # name) = Some (CHR ''/'' # name)" "relative_path (CHR ''/'' # name) = name"
    using assms by (simp_all add: list_all_iff)
qed

lemma new_static_files_valid:
  assumes "sf_error (new_static_files fs web_root) = []"
  obtains r where "fs_canonical fs web_root = Some r"
    "new_static_files fs web_root = load_assets fs asset_names \<lparr>sf_root = r, sf_assets = [], sf_error = []\<rparr>"
  using assms by (auto simp: new_static_files_def split: option.splits if_splits)

lemma asset_response_fields:
  "rs_result (asset_response r a) = 200" "rs_body (asset_response r a) = (if rq_method r = Verb_head then [] else as_body a)"
  "map_of (rs_fields (asset_response r a)) ''Content-Type'' = Some (as_content_type a)"
  by (simp_all add: asset_response_def Let_def)

lemma response_results [simp]: "rs_result (text_response n m) = n" "rs_result (set_field k v x) = rs_result x"
  by (simp_all add: text_response_def set_field_def)

lemma handle_200:
  assumes "rs_result (handle fs r h) = 200"
  shows "\<exists>k a. map_of (sf_assets h) k = Some a \<and> is_within (sf_root h) k \<and> handle fs r h = asset_response r a"
proof -
  have "rq_method r = Verb_get \<or> rq_method r = Verb_head" using assms by (auto simp: handle_def split: if_splits)
  then show ?thesis using assms by (auto simp: handle_def split: option.splits if_splits)
qed


definition sample_files :: file_system where
  "sample_files = \<lparr>fs_canonical = Some, fs_directory = (\<lambda>_. True), fs_regular = (\<lambda>p. p = ''/w/app.js''),
     fs_size = (\<lambda>_. Some 2), fs_opens = (\<lambda>_. True), fs_read = (\<lambda>_ _. Some ''js'')\<rparr>"


end
