(* ===== verification/Web_Socket.thy ===== *)
theory Web_Socket
  imports Event_Channel Api_Json
begin

text \<open>
  \<^verbatim>\<open>WebSocketSession\<close> of \<^verbatim>\<open>src/web/websocket_session.cpp\<close>: one browser's event
  stream.  The handlers run one after the other on the server's event loop; publishing threads only
  put events into the inbox.  The asynchronous operations the session has started and that have not
  completed are counted in the state, and \<open>ws_step\<close> lets each complete, with or without an error, in
  any order.  \<open>ws_accepted\<close> and \<open>ws_sent\<close> record, for the properties, the events the
  session took and those it handed to the socket.
\<close>

section \<open>Messages\<close>

definition encoder_summary :: "encoder_status \<Rightarrow> string" where
  \<open>encoder_summary e =
     ''{"frames_submitted":'' @ u64_text (frames_submitted e) @
     '',"frames_dropped":'' @ u64_text (frames_dropped e) @
     '',"access_units_encoded":'' @ u64_text (access_units_encoded e) @
     '',"access_units_dropped":'' @ u64_text (enc_access_units_dropped e) @
     '',"last_access_unit_age_ms":'' @ int_to_string (last_access_unit_age_ms e) @ ''}''\<close>

definition status_data :: "runtime_status_snapshot \<Rightarrow> bool \<Rightarrow> webrtc_diagnostics option \<Rightarrow> string" where
  \<open>status_data st det webrtc =
     ''{"status":"'' @ ss_status st @ ''","uptime_s":'' @ u64_text (uptime_s st) @ '',"video_fps":'' @
     opt_json (ostream_double 6) (ss_video_fps st) @ '',"detector_enabled":'' @ json_bool det @
     '',"detector_fps":'' @ opt_json (ostream_double 6) (ss_detector_fps st) @ '',"last_inference_ms":'' @
     opt_json (ostream_double 6) (last_inference_ms st) @ '',"encoder":'' @
     opt_json encoder_summary (ss_encoder st) @ '',"webrtc":'' @
     opt_json webrtc_diagnostics_json webrtc @ ''}''\<close>

definition gps_data :: "gps_fix option \<Rightarrow> string" where
  \<open>gps_data fix =
     (case fix of
        None \<Rightarrow> ''{"available":false}''
      | Some g \<Rightarrow>
          ''{"available":true,"valid":'' @ json_bool (fix_valid g) @ '',"source":"'' @ fix_source g @
          ''","latitude":'' @ ostream_double 17 (fix_latitude g) @
          '',"longitude":'' @ ostream_double 17 (fix_longitude g) @
          '',"altitude_m":'' @ ostream_double 17 (fix_altitude_m g) @
          '',"hdop":'' @ ostream_double 17 (hdop g) @
          '',"satellites_visible":'' @ int_to_string (satellites_visible g) @
          '',"satellites_used":'' @ int_to_string (satellites_used g) @ ''}'')\<close>

section \<open>State\<close>

record ws_session =
  ws_outgoing :: event_queue
  ws_incoming :: event_inbox
  ws_writing :: string
  ws_subscription :: u64
  ws_closed :: bool
  ws_stopping :: bool
  ws_closing :: bool
  ws_registered :: bool
  ws_timer :: nat
  ws_writes :: nat
  ws_closes :: nat
  ws_drains :: nat
  ws_accepted :: "string list"
  ws_sent :: "string list"

definition new_ws :: "event_queue \<Rightarrow> event_inbox \<Rightarrow> ws_session" where
  "new_ws q b =
     \<lparr>ws_outgoing = q, ws_incoming = b, ws_writing = [], ws_subscription = 0, ws_closed = False, ws_stopping = False,
      ws_closing = False, ws_registered = False, ws_timer = 0, ws_writes = 0, ws_closes = 0, ws_drains = 0,
      ws_accepted = [], ws_sent = []\<rparr>"

text \<open>Queue and inbox hold 32 events each.\<close>

definition session_queue :: event_queue where
  "session_queue = \<lparr>eq_capacity = 32, eq_dropped = 0, eq_events = []\<rparr>"

definition session_inbox :: event_inbox where
  "session_inbox = \<lparr>in_events = session_queue, drain_scheduled = False\<rparr>"

text \<open>A session with the channel it subscribes to; a subscriber is a session's number, this session's is
  0.\<close>

type_synonym ws_world = "ws_session \<times> nat event_channel"

section \<open>Handlers\<close>

definition write_next :: "ws_session \<Rightarrow> ws_session" where
  "write_next w =
     (case eq_pop (ws_outgoing w) of
        (None, q) \<Rightarrow> w\<lparr>ws_outgoing := q\<rparr>
      | (Some e, q) \<Rightarrow>
          w\<lparr>ws_outgoing := q, ws_writing := e, ws_writes := ws_writes w + 1, ws_sent := ws_sent w @ [e]\<rparr>)"

definition ws_enqueue :: "string \<Rightarrow> ws_session \<Rightarrow> ws_session" where
  "ws_enqueue e w =
     (if ws_closed w \<or> ws_stopping w then w
      else
        let idle = (ws_writing w = []);
            w1 = w\<lparr>ws_outgoing := eq_push e (ws_outgoing w), ws_accepted := ws_accepted w @ [e]\<rparr>
        in if idle then write_next w1 else w1)"

definition begin_close :: "ws_session \<Rightarrow> ws_session" where
  "begin_close w =
     (if ws_closed w \<or> ws_closing w then w else w\<lparr>ws_closing := True, ws_closes := ws_closes w + 1\<rparr>)"

definition drop_subscription :: "ws_world \<Rightarrow> ws_world" where
  "drop_subscription x =
     (let (w, c) = x in
      if ws_subscription w \<noteq> 0 then (w\<lparr>ws_subscription := 0\<rparr>, unsubscribe (ws_subscription w) c) else x)"

definition ws_cleanup :: "ws_world \<Rightarrow> ws_world" where
  "ws_cleanup x =
     (let (w, c) = x in
      if ws_closed w then x else drop_subscription (w\<lparr>ws_closed := True, ws_registered := False\<rparr>, c))"

definition on_write :: "bool \<Rightarrow> ws_world \<Rightarrow> ws_world" where
  "on_write failure x =
     (let (w, c) = x; w1 = w\<lparr>ws_writes := ws_writes w - 1\<rparr> in
      if failure then ws_cleanup (w1, c)
      else
        let w2 = w1\<lparr>ws_writing := []\<rparr> in
        if ws_stopping w2 then (begin_close w2, c) else (write_next w2, c))"

definition ws_stop :: "ws_world \<Rightarrow> ws_world" where
  "ws_stop x =
     (let (w, c) = x in
      if ws_closed w \<or> ws_stopping w then x
      else
        let (w1, c1) = drop_subscription (w\<lparr>ws_stopping := True\<rparr>, c) in
        if ws_writing w1 = [] then (begin_close w1, c1) else (w1, c1))"

definition schedule_status :: "ws_session \<Rightarrow> ws_session" where
  "schedule_status w = w\<lparr>ws_timer := ws_timer w + 1\<rparr>"

definition on_accept :: "bool \<Rightarrow> string \<Rightarrow> string \<Rightarrow> ws_world \<Rightarrow> ws_world" where
  "on_accept failure status gps x =
     (if failure then ws_cleanup x
      else
        let (w, c) = x; (i, c1) = subscribe 0 c; w1 = w\<lparr>ws_registered := True, ws_subscription := i\<rparr>
        in (schedule_status (ws_enqueue gps (ws_enqueue status w1)), c1))"

definition on_timer :: "bool \<Rightarrow> string \<Rightarrow> ws_session \<Rightarrow> ws_session" where
  "on_timer failure status w =
     (let w1 = w\<lparr>ws_timer := ws_timer w - 1\<rparr> in
      if failure \<or> ws_closed w1 then w1 else schedule_status (ws_enqueue status w1))"

definition on_event :: "string \<Rightarrow> ws_session \<Rightarrow> ws_session" where
  "on_event e w =
     (let (schedule, b) = inbox_push e (ws_incoming w) in
      w\<lparr>ws_incoming := b, ws_drains := (if schedule then ws_drains w + 1 else ws_drains w)\<rparr>)"

definition drain_incoming :: "ws_session \<Rightarrow> ws_session" where
  "drain_incoming w =
     (let (es, b) = drain (ws_incoming w) in
      fold ws_enqueue es (w\<lparr>ws_incoming := b, ws_drains := ws_drains w - 1\<rparr>))"

definition on_read :: "bool \<Rightarrow> ws_world \<Rightarrow> ws_world" where
  "on_read failure x = (if failure then ws_cleanup x else x)"

definition on_closed :: "ws_world \<Rightarrow> ws_world" where
  "on_closed x = (let (w, c) = x in ws_cleanup (w\<lparr>ws_closes := ws_closes w - 1\<rparr>, c))"

section \<open>Runs\<close>

text \<open>Before the handshake completes only \<open>accept_step\<close> is possible.  Other clients come and go on the
  channel; events are the texts \<^verbatim>\<open>make_event_json\<close> builds.\<close>

inductive ws_reach :: "bool \<Rightarrow> ws_world \<Rightarrow> bool" where
  ws_begin: "next_id c \<noteq> 0 \<Longrightarrow> (\<forall>(i, s) \<in> set (subscribers c). s \<noteq> 0) \<Longrightarrow>
    ws_reach False (new_ws session_queue session_inbox, c)"
| accept_step: "ws_reach False x \<Longrightarrow> next_id (snd x) \<noteq> - 1 \<Longrightarrow>
    ws_reach True (on_accept failure (make_event_json utc ms Status st) (make_event_json utc ms Gps_event g) x)"
| write_step: "ws_reach True (w, c) \<Longrightarrow> ws_writes w > 0 \<Longrightarrow> ws_reach True (on_write failure (w, c))"
| close_step: "ws_reach True (w, c) \<Longrightarrow> ws_closes w > 0 \<Longrightarrow> ws_reach True (on_closed (w, c))"
| timer_step: "ws_reach True (w, c) \<Longrightarrow> ws_timer w > 0 \<Longrightarrow>
    ws_reach True (on_timer failure (make_event_json utc ms Status st) w, c)"
| read_step: "ws_reach True x \<Longrightarrow> ws_reach True (on_read failure x)"
| stop_step: "ws_reach True x \<Longrightarrow> ws_reach True (ws_stop x)"
| event_step: "ws_reach True (w, c) \<Longrightarrow> ws_reach True (on_event (make_event_json utc ms ty d) w, c)"
| drain_step: "ws_reach True (w, c) \<Longrightarrow> ws_drains w > 0 \<Longrightarrow> ws_reach True (drain_incoming w, c)"
| join_step: "ws_reach b (w, c) \<Longrightarrow> s \<noteq> 0 \<Longrightarrow> next_id c \<noteq> - 1 \<Longrightarrow> ws_reach b (w, snd (subscribe s c))"
| leave_step: "ws_reach b (w, c) \<Longrightarrow> i \<noteq> ws_subscription w \<Longrightarrow> ws_reach b (w, unsubscribe i c)"

section \<open>Invariants\<close>

text \<open>The queue and what was written: order is kept, and no event is empty.\<close>

definition queue_ok :: "ws_session \<Rightarrow> bool" where
  "queue_ok w \<longleftrightarrow>
     event_queue_inv (ws_outgoing w) \<and> eq_capacity (ws_outgoing w) = 32 \<and>
     (\<forall>e \<in> set (eq_events (ws_outgoing w)). e \<noteq> []) \<and>
     subseq (ws_sent w @ eq_events (ws_outgoing w)) (ws_accepted w)"

text \<open>The operations under way on the socket.\<close>

definition io_ok :: "ws_session \<Rightarrow> bool" where
  "io_ok w \<longleftrightarrow>
     ws_writes w \<le> 1 \<and> (ws_writes w = 1 \<longrightarrow> ws_writing w \<noteq> []) \<and>
     (ws_writing w \<noteq> [] \<longrightarrow> ws_writes w = 1 \<or> ws_closed w) \<and>
     ws_closes w \<le> 1 \<and> (ws_closes w = 1 \<longrightarrow> ws_closing w) \<and>
     (ws_closing w \<longrightarrow> ws_stopping w \<and> ws_writes w = 0) \<and> (ws_closing w \<and> \<not> ws_closed w \<longrightarrow> ws_closes w = 1) \<and>
     (ws_stopping w \<and> \<not> ws_closed w \<and> \<not> ws_closing w \<longrightarrow> ws_writes w = 1)"

definition idle_ok :: "ws_session \<Rightarrow> bool" where
  "idle_ok w \<longleftrightarrow> (ws_writing w = [] \<and> \<not> ws_closed w \<and> \<not> ws_stopping w \<longrightarrow> eq_events (ws_outgoing w) = [])"

definition inbox_ok :: "ws_session \<Rightarrow> bool" where
  "inbox_ok w \<longleftrightarrow>
     event_queue_inv (in_events (ws_incoming w)) \<and> (\<forall>e \<in> set (eq_events (in_events (ws_incoming w))). e \<noteq> []) \<and>
     ws_drains w = (if drain_scheduled (ws_incoming w) then 1 else 0) \<and>
     (eq_events (in_events (ws_incoming w)) \<noteq> [] \<longrightarrow> drain_scheduled (ws_incoming w))"

definition subscription_ok :: "ws_world \<Rightarrow> bool" where
  "subscription_ok x \<longleftrightarrow>
     (let (w, c) = x in
      next_id c \<noteq> 0 \<and> (\<forall>(i, s) \<in> set (subscribers c). s = 0 \<longrightarrow> i = ws_subscription w \<and> i \<noteq> 0) \<and>
      (ws_closed w \<or> ws_stopping w \<longrightarrow> ws_subscription w = 0) \<and> (ws_closed w \<longrightarrow> \<not> ws_registered w))"

abbreviation session_ok :: "ws_session \<Rightarrow> bool" where
  "session_ok w \<equiv> queue_ok w \<and> io_ok w \<and> idle_ok w \<and> inbox_ok w"

lemmas ok_defs = queue_ok_def io_ok_def idle_ok_def inbox_ok_def

lemma make_event_json_nonempty: "make_event_json utc ms ty d \<noteq> []"
  by (simp add: make_event_json_def)

lemma write_next_ok:
  assumes "queue_ok w" "io_ok w" "inbox_ok w" "ws_writing w = []" "\<not> ws_stopping w \<or> ws_closed w" "\<not> ws_closing w"
  shows "session_ok (write_next w)"
proof (cases "eq_events (ws_outgoing w)")
  case Nil
  then have "write_next w = w" by (simp add: write_next_def eq_pop_def)
  then show ?thesis using assms Nil by (simp add: idle_ok_def)
next
  case (Cons e es)
  let ?w = "w\<lparr>ws_outgoing := (ws_outgoing w)\<lparr>eq_events := es\<rparr>, ws_writing := e, ws_writes := ws_writes w + 1,
     ws_sent := ws_sent w @ [e]\<rparr>"
  have w: "write_next w = ?w" using Cons by (simp add: write_next_def eq_pop_def)
  have "e \<noteq> []" "ws_writes w = 0" using assms(1,2,4) Cons by (auto simp: queue_ok_def io_ok_def)
  then have "io_ok ?w" "idle_ok ?w" using assms(2,5,6) by (auto simp: io_ok_def idle_ok_def)
  moreover have "queue_ok ?w" using assms(1) Cons by (simp add: queue_ok_def event_queue_inv_def)
  moreover have "inbox_ok ?w" using assms(3) by (simp add: inbox_ok_def)
  ultimately show ?thesis unfolding w by blast
qed

lemma eq_push_ok:
  assumes "queue_ok w" "e \<noteq> []"
  shows "queue_ok (w\<lparr>ws_outgoing := eq_push e (ws_outgoing w), ws_accepted := ws_accepted w @ [e]\<rparr>)"
proof -
  let ?es = "eq_events (ws_outgoing w)"
  have q: "event_queue_inv (ws_outgoing w)" and cap: "eq_capacity (ws_outgoing w) = 32"
    and sub: "subseq (ws_sent w @ ?es) (ws_accepted w)" using assms by (auto simp: queue_ok_def)
  have es: "eq_events (eq_push e (ws_outgoing w)) = last_n 32 (?es @ [e])" using eq_push_events[OF q] cap by simp
  have "subseq (last_n 32 (?es @ [e])) (?es @ [e])" by (rule suffix_imp_subseq[OF suffix_last_n])
  then have "subseq (ws_sent w @ last_n 32 (?es @ [e])) ((ws_sent w @ ?es) @ [e])"
    unfolding append_assoc by (intro list_emb_append_mono) simp_all
  moreover have "subseq ((ws_sent w @ ?es) @ [e]) (ws_accepted w @ [e])"
    using sub by (intro list_emb_append_mono) simp_all
  ultimately have "subseq (ws_sent w @ eq_events (eq_push e (ws_outgoing w))) (ws_accepted w @ [e])"
    unfolding es using subseq_order.order_trans by blast
  moreover have "\<forall>x \<in> set (last_n 32 (?es @ [e])). x \<noteq> []"
    using assms set_drop_subset[of "length (?es @ [e]) - 32" "?es @ [e]"] by (auto simp: queue_ok_def last_n_def)
  ultimately show ?thesis using eq_push_inv[OF q] eq.cap_push[OF q] cap es by (simp add: queue_ok_def)
qed

lemma ws_enqueue_ok:
  assumes "session_ok w" "e \<noteq> []"
  shows "session_ok (ws_enqueue e w)"
proof (cases "ws_closed w \<or> ws_stopping w")
  case False
  let ?w = "w\<lparr>ws_outgoing := eq_push e (ws_outgoing w), ws_accepted := ws_accepted w @ [e]\<rparr>"
  have q: "queue_ok ?w" "io_ok ?w" "inbox_ok ?w" using eq_push_ok assms by (simp_all add: io_ok_def inbox_ok_def)
  show ?thesis
  proof (cases "ws_writing w = []")
    case True
    have "\<not> ws_closing w" using assms(1) False by (auto simp: io_ok_def)
    then show ?thesis using write_next_ok[OF q] True False by (simp add: ws_enqueue_def)
  next
    case busy: False
    then show ?thesis using q False by (simp add: ws_enqueue_def idle_ok_def)
  qed
qed (use assms in \<open>simp add: ws_enqueue_def\<close>)

lemma fold_enqueue_ok: "session_ok w \<Longrightarrow> \<forall>e \<in> set es. e \<noteq> [] \<Longrightarrow> session_ok (fold ws_enqueue es w)"
  by (induction es arbitrary: w) (simp_all add: ws_enqueue_ok)

lemma ws_enqueue_fields [simp]:
  "ws_subscription (ws_enqueue e w) = ws_subscription w" "ws_closed (ws_enqueue e w) = ws_closed w"
  "ws_stopping (ws_enqueue e w) = ws_stopping w" "ws_registered (ws_enqueue e w) = ws_registered w"
  by (simp_all add: ws_enqueue_def write_next_def Let_def split: prod.splits option.splits)

lemma fold_enqueue_fields [simp]:
  "ws_subscription (fold ws_enqueue es w) = ws_subscription w" "ws_closed (fold ws_enqueue es w) = ws_closed w"
  "ws_stopping (fold ws_enqueue es w) = ws_stopping w" "ws_registered (fold ws_enqueue es w) = ws_registered w"
  by (induction es arbitrary: w) simp_all

lemma begin_close_ok:
  assumes "queue_ok w" "inbox_ok w" "ws_writing w = []" "ws_writes w = 0" "ws_stopping w"
    "ws_closes w \<le> 1" "ws_closes w = 1 \<longrightarrow> ws_closing w" "ws_closing w \<and> \<not> ws_closed w \<longrightarrow> ws_closes w = 1"
  shows "session_ok (begin_close w)"
proof -
  have "ws_closes w = 0 \<or> ws_closes w = 1" using assms(6) by linarith
  then show ?thesis using assms by (auto simp: ok_defs begin_close_def)
qed

lemma drop_subscription_ok:
  assumes "subscription_ok (w, c)" "drop_subscription (w', c) = (w1, c1)" "ws_subscription w' = ws_subscription w"
  shows "w1 = w'\<lparr>ws_subscription := 0\<rparr>" "next_id c1 = next_id c" "\<forall>(i, s) \<in> set (subscribers c1). s \<noteq> 0"
  using assms by (auto simp: drop_subscription_def unsubscribe_def subscription_ok_def split: if_splits)

lemma ws_cleanup_ok:
  assumes "subscription_ok (w, c)" "queue_ok w" "inbox_ok w" "ws_writes w \<le> 1" "ws_writes w = 1 \<longrightarrow> ws_writing w \<noteq> []"
    "ws_closes w \<le> 1" "ws_closes w = 1 \<longrightarrow> ws_closing w" "ws_closing w \<longrightarrow> ws_stopping w \<and> ws_writes w = 0"
  shows "session_ok (fst (ws_cleanup (w, c))) \<and> subscription_ok (ws_cleanup (w, c))"
proof (cases "ws_closed w")
  case True
  then show ?thesis using assms by (simp add: ws_cleanup_def io_ok_def idle_ok_def)
next
  case False
  obtain w1 c1 where d: "drop_subscription (w\<lparr>ws_closed := True, ws_registered := False\<rparr>, c) = (w1, c1)" by fastforce
  have "ws_cleanup (w, c) = (w1, c1)" using False d by (simp add: ws_cleanup_def)
  moreover note drop_subscription_ok[OF assms(1) d, simplified]
  ultimately show ?thesis using assms by (auto simp: ok_defs subscription_ok_def)
qed

lemma on_write_ok:
  assumes "session_ok w" "subscription_ok (w, c)" "ws_writes w > 0"
  shows "session_ok (fst (on_write failure (w, c))) \<and> subscription_ok (on_write failure (w, c))"
proof -
  have writes: "ws_writes w = 1" "\<not> ws_closing w" using assms by (auto simp: io_ok_def)
  let ?w = "w\<lparr>ws_writes := ws_writes w - 1\<rparr>"
  have ok: "queue_ok ?w" "inbox_ok ?w" "subscription_ok (?w, c)"
    using assms by (simp_all add: queue_ok_def inbox_ok_def subscription_ok_def)
  have closes: "ws_closes w \<le> 1" "ws_closes w = 1 \<longrightarrow> ws_closing w" using assms by (auto simp: io_ok_def)
  show ?thesis
  proof (cases failure)
    case True
    then show ?thesis using ws_cleanup_ok[OF ok(3,1,2)] writes closes by (simp add: on_write_def)
  next
    case False
    let ?w2 = "?w\<lparr>ws_writing := []\<rparr>"
    have ok2: "queue_ok ?w2" "inbox_ok ?w2" "subscription_ok (?w2, c)"
      using ok by (simp_all add: queue_ok_def inbox_ok_def subscription_ok_def)
    have sub: "subscription_ok (begin_close ?w2, c)" "subscription_ok (write_next ?w2, c)"
      using ok2(3) by (auto simp: begin_close_def write_next_def subscription_ok_def split: prod.splits option.splits)
    show ?thesis
    proof (cases "ws_stopping w")
      case True
      have "session_ok (begin_close ?w2)" by (rule begin_close_ok[OF ok2(1,2)]) (use True writes closes in simp_all)
      then show ?thesis using False True sub by (simp add: on_write_def)
    next
      case running: False
      have "io_ok ?w2" using writes closes running by (simp add: io_ok_def)
      then have "session_ok (write_next ?w2)"
        using write_next_ok[OF ok2(1) _ ok2(2)] running writes by simp
      then show ?thesis using False running sub by (simp add: on_write_def)
    qed
  qed
qed

lemma ws_stop_ok:
  assumes "session_ok w" "subscription_ok (w, c)"
  shows "session_ok (fst (ws_stop (w, c))) \<and> subscription_ok (ws_stop (w, c))"
proof (cases "ws_closed w \<or> ws_stopping w")
  case True
  then show ?thesis using assms by (simp add: ws_stop_def)
next
  case False
  obtain w1 c1 where d: "drop_subscription (w\<lparr>ws_stopping := True\<rparr>, c) = (w1, c1)" by fastforce
  note dr = drop_subscription_ok[OF assms(2) d, simplified]
  have w1: "queue_ok w1" "inbox_ok w1" using assms(1) by (simp_all add: dr queue_ok_def inbox_ok_def)
  have stop: "ws_stop (w, c) = (if ws_writing w1 = [] then (begin_close w1, c1) else (w1, c1))"
    using False d by (simp add: ws_stop_def)
  have io: "ws_closes w1 \<le> 1" "ws_closes w1 = 1 \<longrightarrow> ws_closing w1" "ws_closing w1 \<and> \<not> ws_closed w1 \<longrightarrow> ws_closes w1 = 1"
    "\<not> ws_closing w1" "ws_stopping w1" using assms(1) False by (auto simp: dr io_ok_def)
  have sub: "subscription_ok (w1, c1)" using assms(2) dr False by (auto simp: subscription_ok_def)
  show ?thesis
  proof (cases "ws_writing w1 = []")
    case True
    then have "ws_writes w1 = 0" using assms(1) by (auto simp: dr io_ok_def le_Suc_eq)
    then have "session_ok (begin_close w1)" using begin_close_ok[OF w1 True] io by blast
    then show ?thesis using stop True sub by (simp add: subscription_ok_def begin_close_def)
  next
    case busy: False
    then have "ws_writes w1 = 1" using assms(1) False by (auto simp: dr io_ok_def)
    then have "io_ok w1" "idle_ok w1" using io busy by (auto simp: io_ok_def idle_ok_def)
    then show ?thesis using stop busy sub w1 by simp
  qed
qed

lemma schedule_ok [simp]:
  "queue_ok (schedule_status w) = queue_ok w" "io_ok (schedule_status w) = io_ok w"
  "idle_ok (schedule_status w) = idle_ok w" "inbox_ok (schedule_status w) = inbox_ok w"
  "subscription_ok (schedule_status w, c) = subscription_ok (w, c)"
  by (simp_all add: schedule_status_def ok_defs subscription_ok_def)

lemma new_ws_ok: "session_ok (new_ws session_queue session_inbox)"
  by (simp add: ok_defs new_ws_def session_queue_def session_inbox_def event_queue_inv_def)

lemma enqueue_subscription [simp]: "subscription_ok (ws_enqueue e w, c) = subscription_ok (w, c)"
  by (simp add: subscription_ok_def)

lemma on_accept_ok:
  assumes "subscription_ok (new_ws session_queue session_inbox, c)" "status \<noteq> []" "gps \<noteq> []" "next_id c \<noteq> - 1"
  shows "session_ok (fst (on_accept failure status gps (new_ws session_queue session_inbox, c))) \<and>
    subscription_ok (on_accept failure status gps (new_ws session_queue session_inbox, c))"
proof (cases failure)
  case True
  then show ?thesis
    using ws_cleanup_ok[OF assms(1)] new_ws_ok by (simp add: on_accept_def new_ws_def)
next
  case False
  let ?w = "(new_ws session_queue session_inbox)\<lparr>ws_registered := True, ws_subscription := fst (subscribe (0 :: nat) c)\<rparr>"
  have "session_ok ?w" using new_ws_ok by (simp add: ok_defs)
  then have "session_ok (ws_enqueue gps (ws_enqueue status ?w))" using assms(2,3) by (simp add: ws_enqueue_ok)
  moreover have "next_id c + 1 \<noteq> 0" using assms(4) by (metis add.commute eq_neg_iff_add_eq_0)
  then have "subscription_ok (?w, snd (subscribe 0 c))"
    using assms(1) by (auto simp: subscription_ok_def subscribe_def Let_def new_ws_def split: if_splits)
  ultimately show ?thesis using False by (simp add: on_accept_def case_prod_beta Let_def)
qed

lemma on_event_ok:
  assumes "session_ok w" "e \<noteq> []"
  shows "session_ok (on_event e w)"
proof -
  obtain sc b where p: "inbox_push e (ws_incoming w) = (sc, b)" by fastforce
  have q: "event_queue_inv (in_events (ws_incoming w))" using assms(1) by (simp add: inbox_ok_def)
  have "\<forall>x \<in> set (eq_events (eq_push e (in_events (ws_incoming w)))). x \<noteq> []"
    using assms set_drop_subset unfolding eq_push_events[OF q] last_n_def by (fastforce simp: inbox_ok_def)
  then have "inbox_ok (on_event e w)"
    using assms(1) p inbox_push_effect[OF p] eq_push_inv[OF q] by (simp add: inbox_ok_def on_event_def)
  moreover have "queue_ok (on_event e w)" "io_ok (on_event e w)" "idle_ok (on_event e w)"
    using assms(1) p by (simp_all add: on_event_def queue_ok_def io_ok_def idle_ok_def)
  ultimately show ?thesis by blast
qed

lemma subscription_frame:
  assumes "ws_subscription w' = ws_subscription w" "ws_closed w' = ws_closed w" "ws_stopping w' = ws_stopping w"
    "ws_registered w' = ws_registered w"
  shows "subscription_ok (w', c) = subscription_ok (w, c)"
  using assms by (simp add: subscription_ok_def)

lemma on_event_subscription: "subscription_ok (on_event e w, c) = subscription_ok (w, c)"
  by (rule subscription_frame) (simp_all add: on_event_def case_prod_beta Let_def)

lemma drain_subscription: "subscription_ok (drain_incoming w, c) = subscription_ok (w, c)"
  by (rule subscription_frame) (simp_all add: drain_incoming_def case_prod_beta Let_def)

lemma drain_incoming_ok:
  assumes "session_ok w"
  shows "session_ok (drain_incoming w)"
proof -
  let ?b = "ws_incoming w"
  let ?w = "w\<lparr>ws_incoming := snd (drain ?b), ws_drains := ws_drains w - 1\<rparr>"
  have "session_ok ?w" using assms by (simp add: ok_defs drain_eq event_queue_inv_def)
  moreover have "\<forall>e \<in> set (fst (drain ?b)). e \<noteq> []" using assms by (simp add: inbox_ok_def drain_eq)
  ultimately show ?thesis using fold_enqueue_ok by (simp add: drain_incoming_def case_prod_beta Let_def)
qed

lemma on_closed_ok:
  assumes "session_ok w" "subscription_ok (w, c)" "ws_closes w > 0"
  shows "session_ok (fst (on_closed (w, c))) \<and> subscription_ok (on_closed (w, c))"
proof -
  let ?w = "w\<lparr>ws_closes := ws_closes w - 1\<rparr>"
  have "queue_ok ?w" "inbox_ok ?w" "subscription_ok (?w, c)"
    using assms by (simp_all add: queue_ok_def inbox_ok_def subscription_ok_def)
  moreover have "ws_writes ?w \<le> 1" "ws_writes ?w = 1 \<longrightarrow> ws_writing ?w \<noteq> []" "ws_closes ?w \<le> 1"
    "ws_closes ?w = 1 \<longrightarrow> ws_closing ?w" "ws_closing ?w \<longrightarrow> ws_stopping ?w \<and> ws_writes ?w = 0"
    using assms(1) unfolding io_ok_def by simp_all
  ultimately show ?thesis using ws_cleanup_ok[of ?w c] unfolding on_closed_def by simp
qed

lemma cleanup_ok: "session_ok w \<Longrightarrow> subscription_ok (w, c) \<Longrightarrow>
    session_ok (fst (ws_cleanup (w, c))) \<and> subscription_ok (ws_cleanup (w, c))"
  by (rule ws_cleanup_ok) (simp_all add: io_ok_def)

lemma ws_reach_ok:
  "ws_reach b x \<Longrightarrow> session_ok (fst x) \<and> subscription_ok x \<and> (\<not> b \<longrightarrow> fst x = new_ws session_queue session_inbox)"
proof (induction rule: ws_reach.induct)
  case (ws_begin c)
  then show ?case using new_ws_ok by (auto simp: subscription_ok_def new_ws_def)
next
  case (accept_step x failure utc ms st g)
  then show ?case
    using on_accept_ok[of "snd x" "make_event_json utc ms Status st" "make_event_json utc ms Gps_event g" failure]
      make_event_json_nonempty by (metis prod.collapse)
next
  case (write_step w c failure)
  then show ?case using on_write_ok by simp
next
  case (close_step w c)
  then show ?case using on_closed_ok by simp
next
  case (timer_step w c failure utc ms st)
  let ?w = "w\<lparr>ws_timer := ws_timer w - 1\<rparr>"
  have "session_ok ?w" "subscription_ok (?w, c)" using timer_step by (simp_all add: ok_defs subscription_ok_def)
  then show ?case using ws_enqueue_ok[of ?w] make_event_json_nonempty by (simp add: on_timer_def Let_def)
next
  case (read_step x failure)
  then show ?case
    using cleanup_ok[of "fst x" "snd x"] by (simp add: on_read_def)
next
  case (stop_step x)
  then show ?case using ws_stop_ok[of "fst x" "snd x"] by simp
next
  case (event_step w c utc ms ty d)
  then show ?case using on_event_ok make_event_json_nonempty by (simp add: on_event_subscription)
next
  case (drain_step w c)
  then show ?case using drain_incoming_ok by (simp add: drain_subscription)
next
  case (join_step b w c s)
  moreover have "next_id c + 1 \<noteq> 0" using join_step by (metis add.commute eq_neg_iff_add_eq_0)
  ultimately show ?case by (auto simp: subscription_ok_def subscribe_def Let_def)
next
  case (leave_step b w c i)
  then show ?case by (auto simp: subscription_ok_def unsubscribe_def)
qed

text \<open>C9: a browser's event stream is served one message at a time and is never left hanging.  In every
  reachable state at most one write and one close are under way on the socket, and no write once the
  close has begun; the messages written are a subsequence, in order, of those the session accepted; an
  open session that is not writing has nothing waiting, and events in its inbox have a drain scheduled;
  a stopping session is closing, or a write is under way whose completion begins the close; and a closed
  session holds no subscription and no place in the server's list.\<close>

theorem websocket_session_safe:
  assumes "ws_reach b (w, c)"
  shows "ws_writes w \<le> 1 \<and> ws_closes w \<le> 1 \<and> (ws_closing w \<longrightarrow> ws_writes w = 0) \<and> subseq (ws_sent w) (ws_accepted w) \<and>
    (\<not> ws_closed w \<and> \<not> ws_stopping w \<and> ws_writes w = 0 \<longrightarrow> eq_events (ws_outgoing w) = []) \<and>
    (eq_events (in_events (ws_incoming w)) \<noteq> [] \<longrightarrow> ws_drains w = 1) \<and>
    (ws_stopping w \<and> \<not> ws_closed w \<longrightarrow> ws_closes w = 1 \<or> ws_writes w = 1) \<and>
    (ws_closed w \<longrightarrow> \<not> ws_registered w \<and> (\<forall>(i, s) \<in> set (subscribers c). s \<noteq> 0))"
proof -
  have ok: "queue_ok w" "io_ok w" "idle_ok w" "inbox_ok w" "subscription_ok (w, c)" using ws_reach_ok[OF assms] by auto
  have "subseq (ws_sent w) (ws_accepted w)"
    using ok(1) list_emb_prefix[of _ "ws_sent w" "eq_events (ws_outgoing w)"]
    by (auto simp: queue_ok_def intro: subseq_order.order_trans[OF _ ])
  moreover have "ws_writes w \<le> 1 \<and> ws_closes w \<le> 1" "ws_closing w \<longrightarrow> ws_writes w = 0"
    "ws_stopping w \<and> \<not> ws_closed w \<longrightarrow> ws_closes w = 1 \<or> ws_writes w = 1"
    "\<not> ws_closed w \<and> ws_writes w = 0 \<longrightarrow> ws_writing w = []"
    using ok(2) unfolding io_ok_def by linarith+
  moreover have "eq_events (in_events (ws_incoming w)) \<noteq> [] \<longrightarrow> ws_drains w = 1" using ok(4) by (simp add: inbox_ok_def)
  moreover have "ws_closed w \<longrightarrow> \<not> ws_registered w \<and> (\<forall>(i, s) \<in> set (subscribers c). s \<noteq> 0)"
    using ok(5) by (auto simp: subscription_ok_def)
  ultimately show ?thesis using ok(3) unfolding idle_ok_def by blast
qed

text \<open>A session that is accepted, then stopped while its first message is being written.\<close>

lemma stop_during_write:
  assumes "status \<noteq> []"
  shows "let y = fst (ws_stop (on_accept False status gps (new_ws session_queue session_inbox, new_channel)))
    in ws_stopping y \<and> \<not> ws_closed y \<and> ws_closes y = 0"
proof -
  let ?w = "(new_ws session_queue session_inbox)\<lparr>ws_registered := True, ws_subscription := 1\<rparr>"
  have q: "eq_events (eq_push e session_queue) = [e]" for e by (simp add: eq_push_def session_queue_def)
  have "ws_enqueue status ?w = write_next (?w\<lparr>ws_outgoing := eq_push status session_queue, ws_accepted := [status]\<rparr>)"
    by (simp add: ws_enqueue_def new_ws_def)
  also have "\<dots> = ?w\<lparr>ws_outgoing := (eq_push status session_queue)\<lparr>eq_events := []\<rparr>, ws_accepted := [status],
      ws_writing := status, ws_writes := 1, ws_sent := [status]\<rparr>"
    by (simp add: write_next_def eq_pop_def q new_ws_def)
  finally have "ws_writing (ws_enqueue status ?w) = status" "ws_closes (ws_enqueue status ?w) = 0" by (simp_all add: new_ws_def)
  moreover have "ws_writing (ws_enqueue gps x) = ws_writing x" "ws_closes (ws_enqueue gps x) = ws_closes x"
    if "ws_writing x \<noteq> []" for x using that by (simp_all add: ws_enqueue_def Let_def)
  ultimately show ?thesis
    using assms by (simp add: on_accept_def subscribe_def new_channel_def new_ws_def ws_stop_def drop_subscription_def
        schedule_status_def Let_def)
qed

theorem websocket_session_safe_witness:
  "let x = on_accept False (make_event_json [] 0 Status ''1'') (make_event_json [] 0 Gps_event ''2'')
         (new_ws session_queue session_inbox, new_channel); y = ws_stop x
   in ws_writes (fst y) = 1 \<and> ws_closes (fst y) = 0 \<and> (ws_closes (fst y) = 1 \<or> ws_writes (fst y) = 1)"
proof -
  let ?x = "on_accept False (make_event_json [] 0 Status ''1'') (make_event_json [] 0 Gps_event ''2'')
         (new_ws session_queue session_inbox, new_channel)"
  have "ws_reach False (new_ws session_queue session_inbox, new_channel)"
    by (rule ws_begin) (simp_all add: new_channel_def)
  then have "ws_reach True ?x" by (rule accept_step) (simp add: new_channel_def)
  then have "ws_reach True (fst (ws_stop ?x), snd (ws_stop ?x))" using stop_step by simp
  note safe = websocket_session_safe[OF this]
  have "ws_stopping (fst (ws_stop ?x)) \<and> \<not> ws_closed (fst (ws_stop ?x)) \<and> ws_closes (fst (ws_stop ?x)) = 0"
    using stop_during_write[OF make_event_json_nonempty] unfolding Let_def by blast
  then show ?thesis using safe unfolding Let_def by auto
qed

end
