(* ===== verification/Http_Server.thy ===== *)
theory Http_Server
  imports Static_Files Web_Socket Event_Channel
begin

text \<open>
  \<^verbatim>\<open>HttpSession\<close> and \<^verbatim>\<open>HttpServer::State\<close> of
  \<^verbatim>\<open>src/web/http_server.cpp\<close>: what becomes of a request once the parser has read it, the bound on
  WHEP requests in progress, and the list of WebSocket clients.  The sockets and the thread pool are
  Boost.Asio's: a read, a write and a posted job end with an outcome that is an argument.
\<close>

section \<open>Requests\<close>

datatype read_outcome = Read_request request bool | Body_too_large | Headers_too_large | Read_failed

text \<open>The flag of a request read is whether it asks for a WebSocket upgrade.\<close>

datatype http_action = Send response | Open_websocket | Signal request | Close_connection

definition json_error :: "nat \<Rightarrow> string \<Rightarrow> response" where
  "json_error result message =
     \<lparr>rs_result = result, rs_version = 11, rs_fields = [(''Content-Type'', ''application/json'')],
      rs_body = error_json message\<rparr>"

definition ws_path :: string where
  "ws_path = ''/ws''"

text \<open>What the server gives a session: the static files, what the providers of metrics and health answer, and
  the environment of the router.\<close>

record http_env =
  he_files :: file_system
  he_static :: static_files
  he_web :: web_env
  he_metrics :: metrics_snapshot
  he_health :: "(health_state \<times> (health_component \<Rightarrow> component_health)) option"

definition static_path :: "string \<Rightarrow> bool" where
  "static_path path \<longleftrightarrow> path \<noteq> health_path \<and> \<not> starts_with ''/api/'' path \<and> path \<noteq> ws_path"

definition router_env :: "http_env \<Rightarrow> request \<Rightarrow> web_env" where
  "router_env env r =
     (let path = request_path r in
      if path = metrics_path \<and> rq_method r = Verb_get
      then (he_web env)\<lparr>we_metrics := Some (he_metrics env), we_health := None\<rparr>
      else if path = health_path \<and> rq_method r = Verb_get \<and> he_health env \<noteq> None
      then (he_web env)\<lparr>we_metrics := None, we_health := he_health env\<rparr>
      else (he_web env)\<lparr>we_metrics := None, we_health := None\<rparr>)"

definition on_request :: "http_env \<Rightarrow> read_outcome \<Rightarrow> web_state \<Rightarrow> http_action \<times> web_state" where
  "on_request env outcome st =
     (case outcome of
        Body_too_large \<Rightarrow> (Send (json_error 413 ''payload too large''), st)
      | Headers_too_large \<Rightarrow> (Send (json_error 431 ''headers too large''), st)
      | Read_failed \<Rightarrow> (Close_connection, st)
      | Read_request r upgrade \<Rightarrow>
          (if upgrade \<and> rq_target r = ws_path then (Open_websocket, st)
           else if static_path (request_path r) then (Send (handle (he_files env) r (he_static env)), st)
           else if request_path r = whep_path \<and> rq_method r = Verb_post \<and> w_webrtc st \<noteq> None then (Signal r, st)
           else let (resp, st1) = route_request (router_env env r) r st in (Send resp, st1)))"

section \<open>Sending\<close>

text \<open>The session identifier of an answer that is being sent.\<close>

definition pending_session :: "response \<Rightarrow> string" where
  "pending_session resp =
     (case map_of (rs_fields resp) ''Location'' of
        Some location \<Rightarrow>
          if rs_result resp = 201 \<and> starts_with session_prefix location
          then substr (length session_prefix) None location else []
      | None \<Rightarrow> [])"

text \<open>The completion of the write.\<close>

definition on_sent :: "request_env \<Rightarrow> bool \<Rightarrow> response \<Rightarrow> web_state \<Rightarrow> web_state" where
  "on_sent env failure resp st =
     (case w_webrtc st of
        Some m \<Rightarrow>
          if failure \<and> pending_session resp \<noteq> []
          then st\<lparr>w_webrtc := Some (snd (close_session (re_now env) (re_route env) (pending_session resp) m))\<rparr>
          else st
      | None \<Rightarrow> st)"

section \<open>WHEP requests in progress\<close>

record signaling =
  sg_jobs :: nat
  sg_pending :: "request list"

definition signaling_limit :: "int \<Rightarrow> nat" where
  "signaling_limit peers = max 1 (to_size peers)"

text \<open>\<open>None\<close>: a job was posted.\<close>

definition dispatch_whep :: "nat \<Rightarrow> request \<Rightarrow> signaling \<Rightarrow> response option \<times> signaling" where
  "dispatch_whep limit r s =
     (let before = sg_jobs s; s1 = s\<lparr>sg_jobs := sg_jobs s + 1\<rparr> in
      if before \<ge> limit
      then (Some (json_error 429 ''signaling queue is full''), s1\<lparr>sg_jobs := sg_jobs s1 - 1\<rparr>)
      else (None, s1\<lparr>sg_pending := sg_pending s1 @ [r]\<rparr>))"

text \<open>A job of the pool.\<close>

definition whep_job :: "http_env \<Rightarrow> nat \<Rightarrow> signaling \<times> web_state \<Rightarrow> response \<times> signaling \<times> web_state" where
  "whep_job env i x =
     (let (s, st) = x; r = sg_pending s ! i;
          (resp, st1) = route_request ((he_web env)\<lparr>we_metrics := None, we_health := None\<rparr>) r st
      in (resp, s\<lparr>sg_jobs := sg_jobs s - 1, sg_pending := take i (sg_pending s) @ drop (Suc i) (sg_pending s)\<rparr>, st1))"

inductive server_reach :: "nat \<Rightarrow> signaling \<times> web_state \<Rightarrow> bool" for limit where
  server_start: "server_reach limit (\<lparr>sg_jobs = 0, sg_pending = []\<rparr>, st)"
| request_step: "server_reach limit (s, st) \<Longrightarrow> on_request env outcome st = (a, st1) \<Longrightarrow> (\<forall>r. a \<noteq> Signal r) \<Longrightarrow>
    server_reach limit (s, st1)"
| signal_step: "server_reach limit (s, st) \<Longrightarrow> on_request env outcome st = (Signal r, st1) \<Longrightarrow>
    dispatch_whep limit r s = (a, s1) \<Longrightarrow> server_reach limit (s1, st1)"
| job_step: "server_reach limit (s, st) \<Longrightarrow> i < length (sg_pending s) \<Longrightarrow>
    whep_job env i (s, st) = (resp, s1, st1) \<Longrightarrow> server_reach limit (s1, st1)"
| sent_step: "server_reach limit (s, st) \<Longrightarrow> server_reach limit (s, on_sent renv failure resp st)"

section \<open>The list of clients\<close>

text \<open>The sessions are weak references: \<open>alive\<close> says which of them still exist.\<close>

definition drop_expired :: "(nat \<Rightarrow> bool) \<Rightarrow> nat list \<Rightarrow> nat list" where
  "drop_expired alive sessions = filter alive sessions"

definition register_session :: "(nat \<Rightarrow> bool) \<Rightarrow> nat \<Rightarrow> nat list \<Rightarrow> nat list" where
  "register_session alive session sessions = drop_expired alive sessions @ [session]"

definition unregister_session :: "(nat \<Rightarrow> bool) \<Rightarrow> nat \<Rightarrow> nat list \<Rightarrow> nat list" where
  "unregister_session alive session sessions = filter (\<lambda>s. alive s \<and> s \<noteq> session) sessions"

definition snapshot_metrics ::
  "metrics_snapshot option \<Rightarrow> 's event_channel option \<Rightarrow> (nat \<Rightarrow> bool) \<Rightarrow> string option \<Rightarrow> database option \<Rightarrow>
   system_metrics \<Rightarrow> nat list \<Rightarrow> metrics_snapshot \<times> nat list" where
  "snapshot_metrics provided events alive count_fault alerts sampled sessions =
     (let m = (case provided of Some m \<Rightarrow> m | None \<Rightarrow> no_metrics);
          m1 = (case events of Some c \<Rightarrow> m\<lparr>metrics_snapshot.recent_errors := event_channel.recent_errors c\<rparr> | None \<Rightarrow> m);
          live = drop_expired alive sessions;
          m2 = m1\<lparr>websocket_clients := length live\<rparr>;
          m3 = (case alerts of Some db \<Rightarrow> m2\<lparr>alert_count := fst (count_alerts count_fault db)\<rparr> | None \<Rightarrow> m2)
      in (m3\<lparr>memory_rss_bytes := memory_rss_bytes sampled, cpu_percent := cpu_percent sampled,
             gpu_percent := gpu_percent sampled, disk_free_bytes := disk_free_bytes sampled\<rparr>, live))"

section \<open>Properties\<close>

lemma server_reach_inv: "server_reach limit x \<Longrightarrow> sg_jobs (fst x) = length (sg_pending (fst x)) \<and> sg_jobs (fst x) \<le> limit"
proof (induction rule: server_reach.induct)
  case (signal_step s st env outcome r st1 a s1)
  then show ?case by (auto simp: dispatch_whep_def Let_def split: if_splits)
next
  case (job_step s st i env resp s1 st1)
  then show ?case by (auto simp: whep_job_def Let_def split: prod.splits)
qed simp_all

text \<open>the server bounds the WHEP requests in progress.  However requests, jobs of the pool and
  completed writes interleave, the counter is the number of requests posted and not yet answered, never
  above the limit of one or the configured number of peers; a further request is refused with 429
  exactly when the limit is reached, and a refusal leaves the counter as it was.\<close>

theorem signaling_bounded:
  assumes "server_reach (signaling_limit peers) (s, st)"
  shows "sg_jobs s = length (sg_pending s) \<and> length (sg_pending s) \<le> max 1 (to_size peers) \<and>
    (dispatch_whep (signaling_limit peers) r s =
      (if length (sg_pending s) = max 1 (to_size peers)
       then (Some (json_error 429 ''signaling queue is full''), s)
       else (None, \<lparr>sg_jobs = sg_jobs s + 1, sg_pending = sg_pending s @ [r]\<rparr>)))"
  using server_reach_inv[OF assms] by (auto simp: dispatch_whep_def signaling_limit_def Let_def)

theorem signaling_bounded_witness:
  "dispatch_whep (signaling_limit 0) sample_whep \<lparr>sg_jobs = 0, sg_pending = []\<rparr> =
     (None, \<lparr>sg_jobs = 1, sg_pending = [sample_whep]\<rparr>)"
  using signaling_bounded[OF server_start[of "signaling_limit 0" sample_state], of sample_whep]
  by (simp add: to_size_def)

lemma pending_session_created: "pending_session (whep_created v sid answer) = sid"
  by (simp add: pending_session_def whep_created_def starts_with_prefix substr_def)

text \<open>C23: an answer that does not reach the browser leaves no session behind.  When a WHEP request was
  answered 201 and the write of the answer fails, the session it created is taken out of the manager's
  table, and it is counted as closed; when the write succeeds the session stays.\<close>

theorem undelivered_answer_closes_session:
  assumes "session_ids (we_request env)" "whep_request env r st = (resp, st1)" "rs_result resp = 201"
  shows "\<exists>m1 m2 sid. w_webrtc st1 = Some m1 \<and> map_of (m_table m1) sid \<noteq> None \<and>
    map_of (rs_fields resp) ''Location'' = Some (session_prefix @ sid) \<and>
    w_webrtc (on_sent renv True resp st1) = Some m2 \<and> map_of (m_table m2) sid = None \<and>
    m_closed m2 = m_closed m1 + 1 \<and> m_last_close m2 = ''client_delete'' \<and> on_sent renv False resp st1 = st1"
  using assms(2,3)
proof (rule whep_request_201)
  fix m m1 sid answer
  assume m: "w_webrtc st = Some m" "w_webrtc st1 = Some m1"
    and c: "create_session (we_request env) (rq_body r) m = (Inr (sid, answer), m1)"
    and resp: "resp = whep_created (rq_version r) sid answer"
  have "sid = re_fresh_id (we_request env)"
    using assms(1) by (intro created_session_id[OF c]) (simp_all add: session_ids_def)
  then have sid: "sid \<noteq> []" using assms(1) by (auto simp: session_ids_def make_session_id_def)
  have listed: "map_of (m_table m1) sid \<noteq> None" using c by (rule create_session_success) simp
  let ?m2 = "snd (close_session (re_now renv) (re_route renv) sid m1)"
  have "map_of (m_table ?m2) sid = None" using close_session_table(2)[of "re_now renv"] by (metis prod.collapse)
  moreover have "m_closed ?m2 = m_closed m1 + 1" "m_last_close ?m2 = ''client_delete''"
    using listed by (auto simp: close_session_def take_session_def remember_closed_def on_session_def Let_def)
  moreover have "w_webrtc (on_sent renv True resp st1) = Some ?m2" "on_sent renv False resp st1 = st1"
    using m(2) sid by (simp_all add: on_sent_def resp pending_session_created)
  moreover have "map_of (rs_fields resp) ''Location'' = Some (session_prefix @ sid)" by (simp add: resp whep_created_def)
  ultimately show ?thesis using m(2) listed by blast
qed

theorem undelivered_answer_closes_session_witness:
  "\<exists>m2. w_webrtc (on_sent (sample_request []) True (whep_created 11 (make_session_id [0]) ''answer'')
      (snd (whep_request sample_web_env sample_whep sample_state))) = Some m2 \<and> m_last_close m2 = ''client_delete''"
proof -
  have "whep_request sample_web_env sample_whep sample_state =
      (whep_created 11 (make_session_id [0]) ''answer'', snd (whep_request sample_web_env sample_whep sample_state))"
    using sample_whep_created by (simp add: prod_eq_iff)
  from undelivered_answer_closes_session[OF sample_session_ids this, of "sample_request []"] show ?thesis
    by (auto simp: whep_created_def)
qed

end
