(* ===== verification/Nack_Responder.thy ===== *)
theory Nack_Responder
  imports Skai_Prelude
begin

text \<open>
  \<^verbatim>\<open>CountingNackResponder\<close> of \<^verbatim>\<open>src/webrtc/webrtc_manager.cpp\<close>: the cache of
  sent RTP packets from which lost ones are sent again.  The layout of RTP and RTCP headers belongs to
  the \<^verbatim>\<open>rtc\<close> library: the reader of a sequence number, the reader of a NACK block and the
  sizes of the two structures are parameters.
\<close>

record message =
  msg_control :: bool
  msg_bytes :: "u8 list"

record nack_block =
  nb_length :: nat
  nb_payload_type :: nat
  nb_report_count :: nat
  nb_sequences :: "u16 list"

record rtp_layout =
  rl_header :: nat
  rl_sequence :: "u8 list \<Rightarrow> u16"
  rl_nack :: nat
  rl_block :: "u8 list \<Rightarrow> nat \<Rightarrow> nack_block"

record nack_responder =
  nr_bytes :: u64
  nr_packets :: u64
  nr_retransmissions :: u64
  nr_order :: "u16 list"
  nr_cache :: "u16 \<rightharpoonup> message"

definition new_responder :: nack_responder where
  "new_responder = \<lparr>nr_bytes = 0, nr_packets = 0, nr_retransmissions = 0, nr_order = [], nr_cache = Map.empty\<rparr>"

text \<open>The loop that evicts the oldest packets.\<close>

function evict :: "nack_responder \<Rightarrow> nack_responder" where
  "evict r =
     (if length (nr_order r) > 512
      then evict (r\<lparr>nr_cache := (nr_cache r)(hd (nr_order r) := None), nr_order := tl (nr_order r)\<rparr>)
      else r)"
  by pat_completeness auto
termination
  by (relation "measure (\<lambda>r. length (nr_order r))") auto

declare evict.simps [simp del]

definition remember_packet :: "rtp_layout \<Rightarrow> message \<Rightarrow> nack_responder \<Rightarrow> nack_responder" where
  "remember_packet lay msg r =
     (if msg_control msg \<or> length (msg_bytes msg) < rl_header lay then r
      else
        let seq = rl_sequence lay (msg_bytes msg);
            r1 = (if nr_cache r seq = None then r\<lparr>nr_order := nr_order r @ [seq]\<rparr> else r)
        in evict (r1\<lparr>nr_cache := (nr_cache r1)(seq \<mapsto> msg)\<rparr>))"

definition outgoing :: "rtp_layout \<Rightarrow> message list \<Rightarrow> nack_responder \<Rightarrow> nack_responder" where
  "outgoing lay msgs r =
     (let r1 = fold (remember_packet lay) msgs r in
      r1\<lparr>nr_bytes := nr_bytes r1 + of_nat (sum_list (map (\<lambda>m. length (msg_bytes m)) msgs)),
         nr_packets := nr_packets r1 + of_nat (length msgs)\<rparr>)"

definition resend :: "u16 \<Rightarrow> nack_responder \<Rightarrow> message list \<times> nack_responder" where
  "resend seq r =
     (case nr_cache r seq of
        None \<Rightarrow> ([], r)
      | Some msg \<Rightarrow>
          ([msg], r\<lparr>nr_bytes := nr_bytes r + of_nat (length (msg_bytes msg)), nr_packets := nr_packets r + 1,
                    nr_retransmissions := nr_retransmissions r + 1\<rparr>))"

fun resend_all :: "u16 list \<Rightarrow> nack_responder \<Rightarrow> message list \<times> nack_responder" where
  "resend_all [] r = ([], r)"
| "resend_all (seq # seqs) r =
     (let (ms, r1) = resend seq r; (ms', r2) = resend_all seqs r1 in (ms @ ms', r2))"

text \<open>The walk over the RTCP blocks of one control message.\<close>

function nack_loop :: "rtp_layout \<Rightarrow> u8 list \<Rightarrow> nat \<Rightarrow> nack_responder \<Rightarrow> message list \<times> nack_responder" where
  "nack_loop lay bytes offset r =
     (if offset + rl_nack lay \<le> length bytes then
        let block = rl_block lay bytes offset in
        if nb_length block = 0 \<or> offset + nb_length block > length bytes then ([], r)
        else if nb_payload_type block \<noteq> 205 \<or> nb_report_count block \<noteq> 1
        then nack_loop lay bytes (offset + nb_length block) r
        else
          let (ms, r1) = resend_all (nb_sequences block) r;
              (ms', r2) = nack_loop lay bytes (offset + nb_length block) r1
          in (ms @ ms', r2)
      else ([], r))"
  by pat_completeness auto
termination
  by (relation "measure (\<lambda>(lay, bytes, offset, r). length bytes - offset)") auto

declare nack_loop.simps [simp del]

fun incoming :: "rtp_layout \<Rightarrow> message list \<Rightarrow> nack_responder \<Rightarrow> message list \<times> nack_responder" where
  "incoming lay [] r = ([], r)"
| "incoming lay (m # ms) r =
     (if \<not> msg_control m then incoming lay ms r
      else
        let (out, r1) = nack_loop lay (msg_bytes m) 0 r; (out', r2) = incoming lay ms r1
        in (out @ out', r2))"

section \<open>The cache\<close>

definition cache_inv :: "nack_responder \<Rightarrow> bool" where
  "cache_inv r \<longleftrightarrow> distinct (nr_order r) \<and> set (nr_order r) = dom (nr_cache r) \<and> length (nr_order r) \<le> 512"

definition media :: "rtp_layout \<Rightarrow> message \<Rightarrow> bool" where
  "media lay m \<longleftrightarrow> \<not> msg_control m \<and> rl_header lay \<le> length (msg_bytes m)"

abbreviation seq_of :: "rtp_layout \<Rightarrow> message \<Rightarrow> u16" where
  "seq_of lay m \<equiv> rl_sequence lay (msg_bytes m)"

lemma evict_one:
  assumes "length (nr_order r) \<le> 513"
  shows "evict r = (if length (nr_order r) = 513
    then r\<lparr>nr_cache := (nr_cache r)(hd (nr_order r) := None), nr_order := tl (nr_order r)\<rparr> else r)"
proof (cases "length (nr_order r) = 513")
  case True
  then show ?thesis by (subst evict.simps, subst evict.simps) simp
next
  case False
  then show ?thesis using assms by (subst evict.simps) simp
qed

lemma remember_packet_fresh:
  assumes "cache_inv r" "media lay m" "nr_cache r (seq_of lay m) = None"
  shows "nr_order (remember_packet lay m r) = last_n 512 (nr_order r @ [seq_of lay m]) \<and>
    nr_cache (remember_packet lay m r) =
      (nr_cache r)(seq_of lay m \<mapsto> m) |` set (last_n 512 (nr_order r @ [seq_of lay m]))"
proof -
  let ?q = "seq_of lay m" and ?r1 = "r\<lparr>nr_order := nr_order r @ [seq_of lay m],
    nr_cache := (nr_cache r)(seq_of lay m \<mapsto> m)\<rparr>"
  have inv: "distinct (nr_order r)" "set (nr_order r) = dom (nr_cache r)" "length (nr_order r) \<le> 512"
    using assms(1) by (auto simp: cache_inv_def)
  have "remember_packet lay m r = evict ?r1" using assms(2,3) by (simp add: remember_packet_def media_def Let_def)
  also have "\<dots> = (if length (nr_order r) = 512
      then ?r1\<lparr>nr_cache := (nr_cache ?r1)(hd (nr_order r @ [?q]) := None), nr_order := tl (nr_order r @ [?q])\<rparr> else ?r1)"
    using inv(3) by (subst evict_one) simp_all
  finally have res: "remember_packet lay m r = \<dots>" .
  show ?thesis
  proof (cases "length (nr_order r) = 512")
    case True
    then obtain x xs where xs: "nr_order r = x # xs" by (cases "nr_order r") auto
    have "x \<noteq> ?q" using xs inv(2) assms(3) by (auto simp: domIff)
    moreover have "dom (nr_cache r) = insert x (set xs)" "x \<notin> set xs" using inv xs by auto
    ultimately have "(nr_cache r)(?q \<mapsto> m, x := None) = (nr_cache r)(?q \<mapsto> m) |` set (xs @ [?q])"
      by (auto simp: fun_eq_iff restrict_map_def domIff)
    then show ?thesis using True xs by (simp add: res last_n_def)
  next
    case False
    then have "last_n 512 (nr_order r @ [?q]) = nr_order r @ [?q]" using inv(3) by (intro last_n_all) simp
    moreover have "(nr_cache r)(?q \<mapsto> m) = (nr_cache r)(?q \<mapsto> m) |` set (nr_order r @ [?q])"
      using inv(2) by (auto simp: fun_eq_iff restrict_map_def domIff)
    ultimately show ?thesis using False by (simp add: res)
  qed
qed

text \<open>A stream as a packetizer produces it: each packet's sequence number differs from those of the 512
  packets before it; the 16-bit numbers may wrap around.\<close>

inductive fresh_stream :: "rtp_layout \<Rightarrow> message list \<Rightarrow> bool" for lay where
  fresh_nil: "fresh_stream lay []"
| fresh_snoc: "fresh_stream lay ms \<Longrightarrow> media lay m \<Longrightarrow> seq_of lay m \<notin> seq_of lay ` set (last_n 512 ms) \<Longrightarrow>
    fresh_stream lay (ms @ [m])"

lemma last_n_map: "map f (last_n n xs) = last_n n (map f xs)"
  by (simp add: last_n_def drop_map)

lemma last_n_snoc_sub: "set (last_n n (xs @ [x])) \<subseteq> insert x (set (last_n n xs))"
proof -
  have "set (last_n n (last_n n xs @ [x])) \<subseteq> set (last_n n xs @ [x])"
    unfolding last_n_def[of n "last_n n xs @ [x]"] by (rule set_drop_subset)
  then show ?thesis by (simp add: last_n_append_last_n)
qed

lemma filter_distinct_single: "distinct xs \<Longrightarrow> x \<in> set xs \<Longrightarrow> filter (\<lambda>y. y = x) xs = [x]"
  by (induction xs) (auto simp: filter_empty_conv)

definition holds_recent :: "rtp_layout \<Rightarrow> message list \<Rightarrow> nack_responder \<Rightarrow> bool" where
  "holds_recent lay ms r \<longleftrightarrow>
     cache_inv r \<and> nr_order r = map (seq_of lay) (last_n 512 ms) \<and>
     (\<forall>m \<in> set (last_n 512 ms). nr_cache r (seq_of lay m) = Some m)"

lemma holds_recent_snoc:
  assumes "holds_recent lay ms r" "media lay m" "seq_of lay m \<notin> seq_of lay ` set (last_n 512 ms)"
  shows "holds_recent lay (ms @ [m]) (remember_packet lay m r)"
proof -
  let ?q = "seq_of lay m" and ?r = "remember_packet lay m r" and ?new = "last_n 512 (ms @ [m])"
  have inv: "cache_inv r" and order: "nr_order r = map (seq_of lay) (last_n 512 ms)"
    and cached: "\<forall>m \<in> set (last_n 512 ms). nr_cache r (seq_of lay m) = Some m"
    using assms(1) by (auto simp: holds_recent_def)
  have dom: "dom (nr_cache r) = seq_of lay ` set (last_n 512 ms)" using inv order by (simp add: cache_inv_def)
  then have none: "nr_cache r ?q = None" using assms(3) by (auto simp: domIff)
  have new: "last_n 512 (nr_order r @ [?q]) = map (seq_of lay) ?new"
    using last_n_append_last_n[of 512 "map (seq_of lay) ms" "[?q]"] by (simp add: order last_n_map)
  from remember_packet_fresh[OF inv assms(2) none]
  have res: "nr_order ?r = map (seq_of lay) ?new"
    "nr_cache ?r = (nr_cache r)(?q \<mapsto> m) |` set (map (seq_of lay) ?new)" by (simp_all add: new)
  have sub: "set ?new \<subseteq> insert m (set (last_n 512 ms))" by (rule last_n_snoc_sub)
  have dist: "distinct (nr_order r @ [?q])" using inv assms(3) order by (simp add: cache_inv_def)
  have "distinct (last_n 512 (nr_order r @ [?q]))"
    unfolding last_n_def[of 512 "nr_order r @ [?q]"] by (rule distinct_drop[OF dist])
  then have "distinct (nr_order ?r)" by (simp add: res(1) new)
  moreover have "seq_of lay ` set ?new \<subseteq> insert ?q (dom (nr_cache r))" using sub dom by auto
  moreover have "nr_cache ?r (seq_of lay x) = Some x" if "x \<in> set ?new" for x
  proof (cases "x = m")
    case False
    then have x: "x \<in> set (last_n 512 ms)" using that sub by auto
    then have "seq_of lay x \<noteq> ?q" using assms(3) by (metis image_eqI)
    then show ?thesis using that x cached by (simp add: res(2))
  qed (use that in \<open>simp add: res(2)\<close>)
  ultimately show ?thesis
    unfolding holds_recent_def cache_inv_def by (auto simp: res domIff restrict_map_def split: if_splits)
qed

lemma holds_recent_outgoing:
  "fresh_stream lay ms \<Longrightarrow> holds_recent lay ms (fold (remember_packet lay) ms new_responder)"
proof (induction rule: fresh_stream.induct)
  case fresh_nil
  then show ?case by (simp add: holds_recent_def cache_inv_def new_responder_def)
next
  case (fresh_snoc ms m)
  then show ?case by (simp add: holds_recent_snoc)
qed


definition sample_layout :: rtp_layout where
  "sample_layout = \<lparr>rl_header = 1, rl_sequence = (\<lambda>bs. ucast (hd bs)), rl_nack = 1,
     rl_block = (\<lambda>_ _. \<lparr>nb_length = 1, nb_payload_type = 205, nb_report_count = 1, nb_sequences = [7]\<rparr>)\<rparr>"


end
