(* ===== verification/Alert_Cleanup.thy ===== *)
theory Alert_Cleanup
  imports Alert_Repository
begin

text \<open>
  The deletion of old alerts of \<^verbatim>\<open>src/alerts/alert_manager.cpp\<close>:
  \<^verbatim>\<open>cleanup_oldest\<close>, which moves a snapshot aside before it deletes the row, and
  \<^verbatim>\<open>reconcile_deletions\<close>, which repairs at the next start what an interrupted cleanup left.
  A path is the list of its components; \<open>parts\<close>, the normal form of a stored path, is the standard
  library's.  The regular files are a set of paths.  Each file-system call or SQL statement is one step, and
  \<open>cleanup_trace\<close> lists the states after each of them: a crash leaves one of these.
\<close>

section \<open>Paths\<close>

type_synonym path = "string list"

definition tombstone :: "path \<Rightarrow> path" where
  "tombstone p = butlast p @ [last p @ ''.deleting'']"

definition stem :: "string \<Rightarrow> string" where
  "stem name = take (length name - length (extension name)) name"

definition drop_extension :: "path \<Rightarrow> path" where
  "drop_extension p = butlast p @ [stem (last p)]"

definition is_tombstone :: "path \<Rightarrow> bool" where
  "is_tombstone p \<longleftrightarrow> p \<noteq> [] \<and> extension (last p) = ''.deleting''"

definition move :: "path \<Rightarrow> path \<Rightarrow> path set \<Rightarrow> path set" where
  "move old new fs = insert new (fs - {old})"

section \<open>cleanup_oldest\<close>

type_synonym store = "path set \<times> database"

text \<open>The failures of the calls for one alert.\<close>

record cleanup_faults =
  cf_rename :: "string option"
  cf_sync :: "string option"
  cf_remove :: sqlite_fault
  cf_restore :: bool
  cf_delete :: "string option"
  cf_sync_after :: "string option"

text \<open>The body of the loop: the error that ends it, and the states after each step.\<close>

definition cleanup_one :: "cleanup_faults \<Rightarrow> path \<Rightarrow> path \<Rightarrow> string \<Rightarrow> store \<Rightarrow> string option \<times> store list" where
  "cleanup_one f rootp p aid st =
     (let (fs, db) = st in
      if take (length rootp) p \<noteq> rootp then (Some ''snapshot path is outside alert directory'', [st])
      else if cf_rename f \<noteq> None \<or> p \<notin> fs
      then (Some (''could not quarantine alert snapshot: '' @ (case cf_rename f of Some e \<Rightarrow> e | None \<Rightarrow> ''No such file or directory'')), [st])
      else
        let s1 = (move p (tombstone p) fs, db) in
        case cf_sync f of
          Some e \<Rightarrow> (Some e, [st, s1])
        | None \<Rightarrow>
            (case remove_alert (cf_remove f) aid db of
               ((False, e), db1) \<Rightarrow>
                 (Some (if e = [] then ''alert disappeared during cleanup'' else e),
                  [st, s1, (fst s1, db1),
                   ((if cf_restore f then move (tombstone p) p (fst s1) else fst s1), db1)])
             | ((True, e), db1) \<Rightarrow>
                 (let s2 = (fst s1, db1) in
                  case cf_delete f of
                    Some e \<Rightarrow> (Some (''could not remove alert snapshot: '' @ e), [st, s1, s2])
                  | None \<Rightarrow> (cf_sync_after f, [st, s1, s2, (fst s2 - {tombstone p}, db1)]))))"

fun cleanup_all ::
  "(alert_event \<Rightarrow> cleanup_faults) \<Rightarrow> (string \<Rightarrow> path) \<Rightarrow> path \<Rightarrow> alert_event list \<Rightarrow> store \<Rightarrow> string option \<times> store list" where
  "cleanup_all faults parts rootp [] st = (None, [st])"
| "cleanup_all faults parts rootp (a # as) st =
     (case cleanup_one (faults a) rootp (parts (ae_snapshot_path a)) (ae_id a) st of
        (Some e, tr) \<Rightarrow> (Some e, tr)
      | (None, tr) \<Rightarrow> (let (e, tr') = cleanup_all faults parts rootp as (last tr) in (e, tr @ tr')))"

definition cleanup_oldest ::
  "query_faults \<Rightarrow> (alert_event \<Rightarrow> cleanup_faults) \<Rightarrow> (string \<Rightarrow> path) \<Rightarrow> string \<Rightarrow> nat \<Rightarrow> store \<Rightarrow>
   string option \<times> store list" where
  "cleanup_oldest qf faults parts directory keep st =
     (case find_oldest_excess qf keep (snd st) of
        (alerts, e) \<Rightarrow>
          if e \<noteq> [] then (Some e, [st]) else cleanup_all faults parts (parts directory) alerts st)"

section \<open>reconcile_deletions\<close>

text \<open>The file-system calls on one entry of the directory walk: the failure of the inspection, whether the
  entry is a regular file, the failures of the rename or removal and of the sync that follows.\<close>

record entry_io =
  ei_inspect :: "string option"
  ei_regular :: bool
  ei_change :: "string option"
  ei_sync :: "string option"

definition works :: "path \<Rightarrow> entry_io" where
  "works p = \<lparr>ei_inspect = None, ei_regular = True, ei_change = None, ei_sync = None\<rparr>"

text \<open>One pass of the walk: the error that ends it, if any, and the files.\<close>

definition reconcile_entry ::
  "query_faults \<Rightarrow> entry_io \<Rightarrow> database \<Rightarrow> path \<Rightarrow> path set \<Rightarrow> string option \<times> path set" where
  "reconcile_entry qf io db p fs =
     (let failure = (\<lambda>m. Some (''could not reconcile alert cleanup: '' @ m)) in
      case ei_inspect io of
        Some m \<Rightarrow> (failure m, fs)
      | None \<Rightarrow>
          if \<not> ei_regular io \<or> \<not> is_tombstone p then (None, fs)
          else
            let final_path = drop_extension p in
            case find_by_id qf (stem (last final_path)) db of
              (found, e) \<Rightarrow>
                if e \<noteq> [] then (Some e, fs)
                else case ei_change io of
                  Some m \<Rightarrow> (failure m, fs)
                | None \<Rightarrow> (ei_sync io, if found \<noteq> None then move p final_path fs else fs - {p}))"

fun reconcile_walk ::
  "query_faults \<Rightarrow> (path \<Rightarrow> entry_io) \<Rightarrow> database \<Rightarrow> path list \<Rightarrow> path set \<Rightarrow> string option \<times> path set" where
  "reconcile_walk qf io db [] fs = (None, fs)"
| "reconcile_walk qf io db (p # ps) fs =
     (case reconcile_entry qf (io p) db p fs of
        (Some e, fs1) \<Rightarrow> (Some e, fs1)
      | (None, fs1) \<Rightarrow> reconcile_walk qf io db ps fs1)"

text \<open>\<open>dir\<close> is whether the directory exists, \<open>entries\<close> what the recursive iterator gives; either call
  can fail.\<close>

definition reconcile_deletions ::
  "query_faults \<Rightarrow> (path \<Rightarrow> entry_io) \<Rightarrow> bool result \<Rightarrow> path list result \<Rightarrow> store \<Rightarrow> string option \<times> store" where
  "reconcile_deletions qf io dir entries st =
     (case dir of
        Inl e \<Rightarrow> (Some (''could not inspect alert directory: '' @ e), st)
      | Inr False \<Rightarrow> (None, st)
      | Inr True \<Rightarrow>
          (case entries of
             Inl e \<Rightarrow> (Some (''could not reconcile alert cleanup: '' @ e), st)
           | Inr ps \<Rightarrow> (let (e, fs) = reconcile_walk qf io (snd st) ps (fst st) in (e, (fs, snd st)))))"

section \<open>Recovery from a crash\<close>

text \<open>The files of the alerts: the snapshot of an alert is named after its identifier, as
  \<^verbatim>\<open>persist\<close> names it, and two alerts have different ones.\<close>

definition snapshot_of :: "(string \<Rightarrow> path) \<Rightarrow> alert_row \<Rightarrow> path" where
  "snapshot_of parts r = parts (ar_snapshot_path r)"

definition named_by_id :: "(string \<Rightarrow> path) \<Rightarrow> alert_row \<Rightarrow> bool" where
  "named_by_id parts r \<longleftrightarrow>
     (\<exists>d. snapshot_of parts r = d @ [ar_id r @ ''.jpg'']) \<and> ar_id r \<noteq> [] \<and> c_text (ar_id r) = ar_id r \<and>
     c_text (ar_snapshot_path r) = ar_snapshot_path r"

definition consistent :: "(string \<Rightarrow> path) \<Rightarrow> store \<Rightarrow> bool" where
  "consistent parts st \<longleftrightarrow>
     db_open (snd st) \<and> tables_inv (db_tables (snd st)) \<and>
     (\<forall>r \<in> set (t_alerts (db_tables (snd st))). named_by_id parts r \<and> snapshot_of parts r \<in> fst st) \<and>
     (\<forall>p \<in> fst st. \<not> is_tombstone p)"

lemma rfind_char_snoc: "c \<notin> set s \<Longrightarrow> rfind_char c (r @ c # s) = Some (length r)"
proof -
  assume "c \<notin> set s"
  then have "\<forall>x \<in> set (rev s). x \<noteq> c" by auto
  then have "index_where (\<lambda>x. x = c) (rev s @ c # rev r) = Some (length s)"
    using index_where_append_hit[of "rev s" "\<lambda>x. x = c" c "rev r"] by simp
  then show ?thesis by (simp add: rfind_char_def)
qed

lemma extension_append:
  "CHR ''.'' \<notin> set s \<Longrightarrow> r \<noteq> [] \<Longrightarrow> extension (r @ CHR ''.'' # s) = CHR ''.'' # s"
  by (simp add: extension_def rfind_char_snoc)

lemma stem_append: "CHR ''.'' \<notin> set s \<Longrightarrow> r \<noteq> [] \<Longrightarrow> stem (r @ CHR ''.'' # s) = r"
  by (simp add: stem_def extension_append)

lemma tombstone_snoc [simp]: "tombstone (d @ [n]) = d @ [n @ ''.deleting'']"
  by (simp add: tombstone_def)

lemma is_tombstone_snoc: "n \<noteq> [] \<Longrightarrow> is_tombstone (d @ [n @ ''.deleting''])"
  using extension_append[of "''deleting''" n] by (simp add: is_tombstone_def)

lemma drop_extension_tombstone: "n \<noteq> [] \<Longrightarrow> drop_extension (d @ [n @ ''.deleting'']) = d @ [n]"
  using stem_append[of "''deleting''" n] by (simp add: drop_extension_def)

lemma stem_jpg: "i \<noteq> [] \<Longrightarrow> stem (i @ ''.jpg'') = i"
  using stem_append[of "''jpg''" i] by simp

lemma jpg_no_tombstone: "i \<noteq> [] \<Longrightarrow> \<not> is_tombstone (d @ [i @ ''.jpg''])"
  using extension_append[of "''jpg''" i] by (simp add: is_tombstone_def)

abbreviation rows :: "store \<Rightarrow> alert_row set" where
  "rows st \<equiv> set (t_alerts (db_tables (snd st)))"

text \<open>What holds of every state of a cleanup that started with the rows \<open>T\<close>.\<close>

definition well_named :: "(string \<Rightarrow> path) \<Rightarrow> alert_row set \<Rightarrow> bool" where
  "well_named parts T \<longleftrightarrow> inj_on ar_id T \<and> (\<forall>r \<in> T. named_by_id parts r)"

definition recoverable :: "(string \<Rightarrow> path) \<Rightarrow> alert_row set \<Rightarrow> store \<Rightarrow> bool" where
  "recoverable parts T st \<longleftrightarrow>
     db_open (snd st) \<and> tables_inv (db_tables (snd st)) \<and> rows st \<subseteq> T \<and>
     (\<forall>r \<in> rows st. snapshot_of parts r \<in> fst st \<or> tombstone (snapshot_of parts r) \<in> fst st) \<and>
     (\<forall>r \<in> T - rows st. snapshot_of parts r \<notin> fst st) \<and>
     (\<forall>p \<in> fst st. \<not> is_tombstone p \<or> p \<in> (tombstone \<circ> snapshot_of parts) ` T)"

lemma consistent_recoverable:
  "consistent parts st \<Longrightarrow> well_named parts (rows st) \<and> recoverable parts (rows st) st"
  by (auto simp: consistent_def recoverable_def well_named_def tables_inv_def distinct_map)

lemma named_snapshot:
  assumes "named_by_id parts r"
  obtains d where "snapshot_of parts r = d @ [ar_id r @ ''.jpg'']" "ar_id r \<noteq> []" "c_text (ar_id r) = ar_id r"
  using assms by (auto simp: named_by_id_def)

lemma snapshot_facts:
  assumes "well_named parts T" "r \<in> T"
  shows "\<not> is_tombstone (snapshot_of parts r)" "is_tombstone (tombstone (snapshot_of parts r))"
    "drop_extension (tombstone (snapshot_of parts r)) = snapshot_of parts r"
    "stem (last (snapshot_of parts r)) = ar_id r" "c_text (ar_id r) = ar_id r"
proof -
  obtain d where d: "snapshot_of parts r = d @ [ar_id r @ ''.jpg'']" "ar_id r \<noteq> []" "c_text (ar_id r) = ar_id r"
    using assms by (meson named_snapshot well_named_def)
  then show "\<not> is_tombstone (snapshot_of parts r)" using jpg_no_tombstone by simp
  show "is_tombstone (tombstone (snapshot_of parts r))"
    using is_tombstone_snoc[of "ar_id r @ ''.jpg''" d] by (simp only: d tombstone_snoc) simp
  show "drop_extension (tombstone (snapshot_of parts r)) = snapshot_of parts r"
    unfolding d tombstone_snoc by (rule drop_extension_tombstone) simp
  show "stem (last (snapshot_of parts r)) = ar_id r" using d stem_jpg by simp
  show "c_text (ar_id r) = ar_id r" by (rule d)
qed

lemma snapshot_inj:
  assumes "well_named parts T" "r \<in> T" "r' \<in> T" "snapshot_of parts r = snapshot_of parts r'"
  shows "r = r'"
  using assms snapshot_facts(4)[OF assms(1)] by (metis inj_onD well_named_def)

lemma tombstone_inj:
  assumes "well_named parts T" "r \<in> T" "r' \<in> T"
    "tombstone (snapshot_of parts r) = tombstone (snapshot_of parts r')"
  shows "r = r'"
  using assms snapshot_facts(3)[OF assms(1)] snapshot_inj by metis

lemma snapshot_not_tombstone:
  "well_named parts T \<Longrightarrow> r \<in> T \<Longrightarrow> r' \<in> T \<Longrightarrow> snapshot_of parts r \<noteq> tombstone (snapshot_of parts r')"
  using snapshot_facts(1,2) by metis

lemma filter_distinct_key:
  "distinct xs \<Longrightarrow> inj_on f (set xs) \<Longrightarrow> x \<in> set xs \<Longrightarrow> filter (\<lambda>y. f y = f x) xs = [x]"
proof (induction xs)
  case (Cons y ys)
  show ?case
  proof (cases "y = x")
    case True
    then have "filter (\<lambda>z. f z = f x) ys = []" using Cons.prems by (auto simp: filter_empty_conv inj_on_def)
    then show ?thesis using True by simp
  next
    case False
    then show ?thesis using Cons by (auto simp: inj_on_def)
  qed
qed simp

text \<open>The four ways a step changes a recoverable state.\<close>

lemma recoverable_aside:
  assumes "well_named parts T" "recoverable parts T (fs, db)" "r \<in> rows (fs, db)"
  shows "recoverable parts T (move (snapshot_of parts r) (tombstone (snapshot_of parts r)) fs, db)"
proof -
  have sub: "rows (fs, db) \<subseteq> T" and r: "r \<in> T" using assms by (auto simp: recoverable_def)
  have "snapshot_of parts x \<noteq> snapshot_of parts r" if "x \<in> T" "x \<noteq> r" for x
    using snapshot_inj[OF assms(1) that(1) r] that by blast
  moreover have "tombstone (snapshot_of parts x) \<noteq> snapshot_of parts r" if "x \<in> T" for x
    using snapshot_not_tombstone[OF assms(1) r that] by metis
  ultimately show ?thesis
    using assms(2,3) sub r snapshot_facts(1)[OF assms(1)] snapshot_facts(2)[OF assms(1)]
    unfolding recoverable_def move_def by (auto; metis)
qed

lemma recoverable_back:
  assumes "well_named parts T" "recoverable parts T (fs, db)" "r \<in> rows (fs, db)"
  shows "recoverable parts T (move (tombstone (snapshot_of parts r)) (snapshot_of parts r) fs, db)"
proof -
  let ?s = "snapshot_of parts" and ?t = "\<lambda>x. tombstone (snapshot_of parts x)"
  let ?fs = "insert (?s r) (fs - {?t r})"
  have sub: "rows (fs, db) \<subseteq> T" and r: "r \<in> T" using assms by (auto simp: recoverable_def)
  have "?s x \<in> ?fs \<or> ?t x \<in> ?fs" if x: "x \<in> rows (fs, db)" for x
  proof (cases "x = r")
    case False
    have "x \<in> T" using x sub by auto
    then have "?t x \<noteq> ?t r" "?s x \<noteq> ?t r"
      using False tombstone_inj[OF assms(1) _ r] snapshot_not_tombstone[OF assms(1) _ r] by blast+
    then show ?thesis using x assms(2) by (auto simp: recoverable_def)
  qed simp
  moreover have "?s x \<notin> ?fs" if x: "x \<in> T - rows (fs, db)" for x
  proof -
    have "x \<noteq> r" "?s x \<notin> fs" using x assms(2,3) by (auto simp: recoverable_def)
    moreover have "?s x \<noteq> ?s r" using snapshot_inj[OF assms(1) _ r] x \<open>x \<noteq> r\<close> by blast
    ultimately show ?thesis by simp
  qed
  moreover have "\<not> is_tombstone p \<or> p \<in> (tombstone \<circ> ?s) ` T" if "p \<in> ?fs" for p
    using that assms(2) snapshot_facts(1)[OF assms(1) r] by (auto simp: recoverable_def)
  ultimately show ?thesis using assms(2) unfolding recoverable_def move_def by simp
qed

lemma recoverable_deleted:
  assumes "well_named parts T" "recoverable parts T (fs, db)" "r \<in> rows (fs, db)" "snapshot_of parts r \<notin> fs"
  shows "recoverable parts T (fs, db\<lparr>db_tables := delete_alert_row (ar_id r) (db_tables db)\<rparr>)"
proof -
  let ?db = "db\<lparr>db_tables := delete_alert_row (ar_id r) (db_tables db)\<rparr>"
  have sub: "rows (fs, db) \<subseteq> T" and r: "r \<in> T" and inj: "inj_on ar_id T"
    using assms by (auto simp: recoverable_def well_named_def)
  have rows: "rows (fs, ?db) = rows (fs, db) - {r}"
    using inj sub r by (auto simp: delete_alert_row_def dest: inj_onD)
  have "tables_inv (db_tables ?db)" using assms(2) by (simp add: recoverable_def delete_alert_row_inv)
  then show ?thesis using assms(2,4) rows unfolding recoverable_def by auto
qed

lemma recoverable_forgotten:
  assumes "well_named parts T" "recoverable parts T (fs, db)" "r \<in> T - rows (fs, db)"
  shows "recoverable parts T (fs - {tombstone (snapshot_of parts r)}, db)"
proof -
  have "tombstone (snapshot_of parts x) \<noteq> tombstone (snapshot_of parts r) \<and>
      snapshot_of parts x \<noteq> tombstone (snapshot_of parts r)" if "x \<in> rows (fs, db)" for x
    using that assms tombstone_inj[OF assms(1), of x r] snapshot_not_tombstone[OF assms(1), of x r]
    by (auto simp: recoverable_def)
  then show ?thesis using assms(2) unfolding recoverable_def by auto
qed

lemma recoverable_tables: "recoverable parts T (fs, db) \<Longrightarrow> db_tables db' = db_tables db \<Longrightarrow> db_open db' \<Longrightarrow>
    recoverable parts T (fs, db')"
  by (simp add: recoverable_def)

lemma cleanup_one_recoverable:
  assumes wn: "well_named parts T" and rec: "recoverable parts T st" and r: "r \<in> T"
    and c: "cleanup_one f rootp (snapshot_of parts r) (ar_id r) st = (e, tr)"
  shows "list_all (recoverable parts T) tr \<and> tr \<noteq> []"
proof -
  obtain fs db where st: "st = (fs, db)" by fastforce
  let ?p = "snapshot_of parts r"
  let ?fs = "move ?p (tombstone ?p) fs"
  show ?thesis
  proof (cases "take (length rootp) ?p \<noteq> rootp \<or> cf_rename f \<noteq> None \<or> ?p \<notin> fs")
    case True
    then have "tr = [st]" using c by (auto simp: cleanup_one_def st split: if_splits)
    then show ?thesis using rec by simp
  next
    case False
    then have "r \<in> rows (fs, db)" using rec r st by (auto simp: recoverable_def)
    note r_in = this
    have s1: "recoverable parts T (?fs, db)" using recoverable_aside[OF wn _ r_in] rec st by simp
    have gone: "?p \<notin> ?fs" using snapshot_not_tombstone[OF wn r r] by (auto simp: move_def)
    have inj: "distinct (map ar_id (t_alerts (db_tables db)))" "db_open db"
      using rec st by (auto simp: recoverable_def tables_inv_def)
    have ct: "c_text (ar_id r) = ar_id r" by (rule snapshot_facts(5)[OF wn r])
    have "filter (\<lambda>x. ar_id x = ar_id r) (t_alerts (db_tables db)) = [r]"
      using inj(1) r_in by (simp add: distinct_map filter_distinct_key)
    then have rm: "remove_alert (cf_remove f) (ar_id r) db =
        (case cf_remove f of
           Some (code, m) \<Rightarrow> ((False, m), record_operational_error code m db)
         | None \<Rightarrow> ((True, []), db\<lparr>db_tables := delete_alert_row (ar_id r) (db_tables db)\<rparr>))"
      using inj(2) ct by (cases "cf_remove f") (auto simp: remove_alert_def Let_def)
    show ?thesis
    proof (cases "cf_sync f \<noteq> None")
      case True
      then have "tr = [st, (?fs, db)]" using c False by (auto simp: cleanup_one_def st Let_def split: option.splits)
      then show ?thesis using rec s1 by simp
    next
      case sync: False
      show ?thesis
      proof (cases "cf_remove f")
        case (Some cm)
        obtain code m where cm: "cm = (code, m)" by fastforce
        define db1 where "db1 = record_operational_error code m db"
        have db1: "db_tables db1 = db_tables db" "db_open db1"
          using inj(2) by (simp_all add: db1_def record_operational_error_def)
        have s2: "recoverable parts T (?fs, db1)" by (rule recoverable_tables[OF s1 db1])
        have "recoverable parts T (move (tombstone ?p) ?p ?fs, db1)"
          by (rule recoverable_back[OF wn s2]) (use r_in db1 in simp)
        moreover have "tr = [st, (?fs, db), (?fs, db1),
            ((if cf_restore f then move (tombstone ?p) ?p ?fs else ?fs), db1)]"
          using c False sync rm by (auto simp: cleanup_one_def st Let_def Some cm db1_def)
        ultimately show ?thesis using rec s1 s2 by simp
      next
        case None
        let ?db = "db\<lparr>db_tables := delete_alert_row (ar_id r) (db_tables db)\<rparr>"
        have s2: "recoverable parts T (?fs, ?db)"
          by (rule recoverable_deleted[OF wn s1 _ gone]) (use r_in in simp)
        have "recoverable parts T (?fs - {tombstone ?p}, ?db)"
          by (rule recoverable_forgotten[OF wn s2]) (use r in \<open>simp add: delete_alert_row_def\<close>)
        moreover have "tr = [st, (?fs, db), (?fs, ?db)] \<or> tr = [st, (?fs, db), (?fs, ?db), (?fs - {tombstone ?p}, ?db)]"
          using c False sync rm by (auto simp: cleanup_one_def st Let_def None split: option.splits)
        ultimately show ?thesis using rec s1 s2 by auto
      qed
    qed
  qed
qed

lemma cleanup_all_recoverable:
  assumes wn: "well_named parts T"
    and "\<forall>a \<in> set as. \<exists>r \<in> T. ae_id a = ar_id r \<and> parts (ae_snapshot_path a) = snapshot_of parts r"
    and "recoverable parts T st" "cleanup_all faults parts rootp as st = (e, tr)"
  shows "list_all (recoverable parts T) tr"
  using assms(2-)
proof (induction as arbitrary: st e tr)
  case (Cons a as)
  obtain r where r: "r \<in> T" "ae_id a = ar_id r" "parts (ae_snapshot_path a) = snapshot_of parts r"
    using Cons.prems(1) by auto
  obtain e1 tr1 where one: "cleanup_one (faults a) rootp (snapshot_of parts r) (ar_id r) st = (e1, tr1)" by fastforce
  have tr1: "list_all (recoverable parts T) tr1" "tr1 \<noteq> []"
    using cleanup_one_recoverable[OF wn Cons.prems(2) r(1) one] by auto
  show ?case
  proof (cases e1)
    case (Some x)
    then show ?thesis using Cons.prems(3) one r tr1 by simp
  next
    case None
    obtain e2 tr2 where rest: "cleanup_all faults parts rootp as (last tr1) = (e2, tr2)" by fastforce
    have "recoverable parts T (last tr1)" using tr1 by (simp add: list_all_iff)
    from Cons.IH[OF _ this rest] Cons.prems(1) have "list_all (recoverable parts T) tr2" by simp
    then show ?thesis using Cons.prems(3) one r tr1 None rest by (auto simp: Let_def)
  qed
qed simp

lemma find_by_id_present:
  assumes "db_open db" "c_text aid = aid"
  shows "snd (find_by_id no_faults aid db) = [] \<and>
    (fst (find_by_id no_faults aid db) \<noteq> None \<longleftrightarrow> aid \<in> ar_id ` set (t_alerts (db_tables db)))"
proof (cases "find (\<lambda>r. ar_id r = aid) (t_alerts (db_tables db))")
  case None
  then have "aid \<notin> ar_id ` set (t_alerts (db_tables db))" by (auto simp: find_None_iff)
  then show ?thesis using None assms by (simp add: find_by_id_def no_faults_def)
next
  case (Some r)
  then have "r \<in> set (t_alerts (db_tables db))" "ar_id r = aid" by (auto simp: find_Some_iff)
  then have "aid \<in> ar_id ` set (t_alerts (db_tables db))" by (auto intro: rev_image_eqI)
  then show ?thesis using Some assms by (simp add: find_by_id_def no_faults_def read_detections_def)
qed

lemma reconcile_entry_tombstone:
  assumes "well_named parts T" "r \<in> T" "db_open db" "set (t_alerts (db_tables db)) \<subseteq> T"
  shows "reconcile_entry no_faults (works p) db (tombstone (snapshot_of parts r)) fs =
    (None, if r \<in> set (t_alerts (db_tables db))
         then move (tombstone (snapshot_of parts r)) (snapshot_of parts r) fs
         else fs - {tombstone (snapshot_of parts r)})"
proof -
  note f = snapshot_facts[OF assms(1,2)]
  have "ar_id r \<in> ar_id ` set (t_alerts (db_tables db)) \<longleftrightarrow> r \<in> set (t_alerts (db_tables db))"
    using assms(1,2,4) by (auto simp: well_named_def dest: inj_onD)
  then show ?thesis
    using f find_by_id_present[OF assms(3) f(5)]
    by (auto simp: reconcile_entry_def works_def Let_def split: prod.splits)
qed

text \<open>The walk puts back or removes the tombstones it meets.\<close>

lemma reconcile_walk_result:
  assumes "well_named parts T" "db_open db" "set (t_alerts (db_tables db)) \<subseteq> T"
    and "\<forall>p \<in> set ps. is_tombstone p \<longrightarrow> p \<in> (tombstone \<circ> snapshot_of parts) ` T"
  shows "\<exists>fs'. reconcile_walk no_faults works db ps fs = (None, fs') \<and>
    (\<forall>p. is_tombstone p \<longrightarrow> (p \<in> fs' \<longleftrightarrow> p \<in> fs \<and> p \<notin> set ps)) \<and>
    (\<forall>r \<in> T. snapshot_of parts r \<in> fs' \<longleftrightarrow> snapshot_of parts r \<in> fs \<or>
       tombstone (snapshot_of parts r) \<in> set ps \<and> r \<in> set (t_alerts (db_tables db)))"
  using assms(4)
proof (induction ps arbitrary: fs)
  case (Cons p ps)
  show ?case
  proof (cases "is_tombstone p")
    case False
    then have "reconcile_entry no_faults (works p) db p fs = (None, fs)" by (simp add: reconcile_entry_def works_def)
    moreover have "tombstone (snapshot_of parts r) \<noteq> p" if "r \<in> T" for r
      using False snapshot_facts(2)[OF assms(1) that] by auto
    moreover have "\<forall>p \<in> set ps. is_tombstone p \<longrightarrow> p \<in> (tombstone \<circ> snapshot_of parts) ` T"
      using Cons.prems by simp
    from Cons.IH[OF this, of fs] obtain fs' where "reconcile_walk no_faults works db ps fs = (None, fs')"
      "\<forall>q. is_tombstone q \<longrightarrow> (q \<in> fs' \<longleftrightarrow> q \<in> fs \<and> q \<notin> set ps)"
      "\<forall>x \<in> T. snapshot_of parts x \<in> fs' \<longleftrightarrow> snapshot_of parts x \<in> fs \<or>
         tombstone (snapshot_of parts x) \<in> set ps \<and> x \<in> set (t_alerts (db_tables db))" by auto
    ultimately show ?thesis using False by (intro exI[of _ fs']) auto
  next
    case True
    then obtain r where r: "r \<in> T" "p = tombstone (snapshot_of parts r)" using Cons.prems by auto
    define fs1 where "fs1 = (if r \<in> set (t_alerts (db_tables db)) then move p (snapshot_of parts r) fs else fs - {p})"
    have entry: "reconcile_entry no_faults (works p) db p fs = (None, fs1)"
      using reconcile_entry_tombstone[OF assms(1) r(1) assms(2,3)] by (simp add: fs1_def r)
    have "\<forall>p \<in> set ps. is_tombstone p \<longrightarrow> p \<in> (tombstone \<circ> snapshot_of parts) ` T" using Cons.prems by simp
    from Cons.IH[OF this, of fs1] obtain fs' where fs': "reconcile_walk no_faults works db ps fs1 = (None, fs')"
      "\<forall>q. is_tombstone q \<longrightarrow> (q \<in> fs' \<longleftrightarrow> q \<in> fs1 \<and> q \<notin> set ps)"
      "\<forall>x \<in> T. snapshot_of parts x \<in> fs' \<longleftrightarrow> snapshot_of parts x \<in> fs1 \<or>
         tombstone (snapshot_of parts x) \<in> set ps \<and> x \<in> set (t_alerts (db_tables db))" by auto
    have tomb: "q \<in> fs1 \<longleftrightarrow> q \<in> fs \<and> q \<noteq> p" if "is_tombstone q" for q
      using that snapshot_facts(1)[OF assms(1) r(1)] by (auto simp: fs1_def move_def)
    have snap: "snapshot_of parts x \<in> fs1 \<longleftrightarrow> snapshot_of parts x \<in> fs \<or> x = r \<and> r \<in> set (t_alerts (db_tables db))"
      if "x \<in> T" for x
      using snapshot_inj[OF assms(1) that r(1)] snapshot_not_tombstone[OF assms(1) that r(1)]
      by (auto simp: fs1_def move_def r(2))
    have "tombstone (snapshot_of parts x) = p \<longleftrightarrow> x = r" if "x \<in> T" for x
      using tombstone_inj[OF assms(1) that r(1)] r(2) by auto
    then have "(\<forall>q. is_tombstone q \<longrightarrow> (q \<in> fs' \<longleftrightarrow> q \<in> fs \<and> q \<notin> set (p # ps))) \<and>
      (\<forall>x \<in> T. snapshot_of parts x \<in> fs' \<longleftrightarrow> snapshot_of parts x \<in> fs \<or>
         tombstone (snapshot_of parts x) \<in> set (p # ps) \<and> x \<in> set (t_alerts (db_tables db)))"
      using fs'(2,3) tomb snap by auto
    then show ?thesis using entry fs'(1) by auto
  qed
qed simp

lemma read_all_sources:
  "read_all f t as = (bs, e) \<Longrightarrow> b \<in> set bs \<Longrightarrow>
    \<exists>a \<in> set as. ae_id b = ae_id a \<and> ae_snapshot_path b = ae_snapshot_path a"
proof (induction as arbitrary: bs e)
  case (Cons a as)
  obtain bs' e' where "read_all f t as = (bs', e')" by fastforce
  then show ?case using Cons
    by (auto simp: Let_def read_detections_def split: sum.splits option.splits if_splits)
qed simp

lemma excess_sources:
  assumes "find_oldest_excess qf keep db = (as, e)" "a \<in> set as"
  shows "\<exists>r \<in> set (t_alerts (db_tables db)). ae_id a = ar_id r \<and> ae_snapshot_path a = ar_snapshot_path r"
proof -
  have "\<exists>b \<in> set (map read_alert (excess_rows keep (db_tables db))). ae_id a = ae_id b \<and> ae_snapshot_path a = ae_snapshot_path b"
  proof -
    have "read_all qf (db_tables db) (map read_alert (excess_rows keep (db_tables db))) = (as, e)"
      using assms by (auto simp: find_oldest_excess_def query_alerts_def split: if_splits option.splits)
    from read_all_sources[OF this assms(2)] show ?thesis .
  qed
  then show ?thesis by (auto simp: excess_rows_def read_alert_def Let_def)
qed

text \<open>C3: deleting old alerts survives a crash.  Whatever call of a cleanup fails and wherever the program
  stops, the reconciliation at the next start brings database and files together again: every alert still
  in the database has its snapshot, the snapshot of every alert deleted from it is gone, and no file that
  was moved aside is left.\<close>

theorem cleanup_crash_recovery:
  assumes "consistent parts st" "cleanup_oldest qf faults parts directory keep st = (e, tr)" "st' \<in> set tr"
    "set entries = fst st'"
  shows "\<exists>fs'. reconcile_deletions no_faults works (Inr True) (Inr entries) st' = (None, (fs', snd st')) \<and>
    (\<forall>r \<in> rows st'. snapshot_of parts r \<in> fs') \<and>
    (\<forall>r \<in> rows st - rows st'. snapshot_of parts r \<notin> fs') \<and>
    (\<forall>p \<in> fs'. \<not> is_tombstone p)"
proof -
  let ?T = "rows st"
  have wn: "well_named parts ?T" and rec: "recoverable parts ?T st" using consistent_recoverable[OF assms(1)] by auto
  obtain as qe where q: "find_oldest_excess qf keep (snd st) = (as, qe)" by fastforce
  have "list_all (recoverable parts ?T) tr"
  proof (cases "qe = []")
    case False
    then show ?thesis using assms(2) q rec by (auto simp: cleanup_oldest_def)
  next
    case True
    have "\<forall>a \<in> set as. \<exists>r \<in> ?T. ae_id a = ar_id r \<and> parts (ae_snapshot_path a) = snapshot_of parts r"
      using excess_sources[OF q] by (fastforce simp: snapshot_of_def)
    then show ?thesis
      using cleanup_all_recoverable[OF wn _ rec] assms(2) q True by (simp add: cleanup_oldest_def)
  qed
  then have rec': "recoverable parts ?T st'" using assms(3) by (simp add: list_all_iff)
  then have db: "db_open (snd st')" "rows st' \<subseteq> ?T"
    and tombs: "\<forall>p \<in> set entries. is_tombstone p \<longrightarrow> p \<in> (tombstone \<circ> snapshot_of parts) ` ?T"
    using assms(4) by (auto simp: recoverable_def)
  from reconcile_walk_result[OF wn db tombs, of "fst st'"] obtain fs' where
    walk: "reconcile_walk no_faults works (snd st') entries (fst st') = (None, fs')"
    and t: "\<forall>p. is_tombstone p \<longrightarrow> (p \<in> fs' \<longleftrightarrow> p \<in> fst st' \<and> p \<notin> set entries)"
    and s: "\<forall>r \<in> ?T. snapshot_of parts r \<in> fs' \<longleftrightarrow> snapshot_of parts r \<in> fst st' \<or>
       tombstone (snapshot_of parts r) \<in> set entries \<and> r \<in> rows st'" by auto
  have "\<forall>r \<in> rows st'. snapshot_of parts r \<in> fs'" using s db(2) rec' assms(4) by (auto simp: recoverable_def)
  moreover have "\<forall>r \<in> ?T - rows st'. snapshot_of parts r \<notin> fs'" using s rec' by (auto simp: recoverable_def)
  moreover have "\<forall>p \<in> fs'. \<not> is_tombstone p" using t assms(4) by auto
  ultimately show ?thesis using walk by (simp add: reconcile_deletions_def)
qed

text \<open>A cleanup that stops after moving the snapshot aside.\<close>

definition sample_row :: alert_row where
  "sample_row = \<lparr>ar_id = ''a'', ar_timestamp_ms = 0, ar_latitude = None, ar_longitude = None, ar_altitude_m = None,
     ar_gps_valid = False, ar_gps_source = ''none'', ar_snapshot_path = ''a.jpg'', ar_frame_sequence = 1,
     ar_model_version = None\<rparr>"

definition sample_cleanup_store :: store where
  "sample_cleanup_store = ({[''a.jpg'']}, \<lparr>db_open = True, db_tables = \<lparr>t_alerts = [sample_row], t_detections = []\<rparr>,
     operational_error = []\<rparr>)"

definition sample_cleanup_faults :: cleanup_faults where
  "sample_cleanup_faults = \<lparr>cf_rename = None, cf_sync = Some ''sync'', cf_remove = None, cf_restore = True,
     cf_delete = None, cf_sync_after = None\<rparr>"

theorem cleanup_crash_recovery_witness:
  "\<exists>fs'. reconcile_deletions no_faults works (Inr True) (Inr [[''a.jpg.deleting'']])
      ({[''a.jpg.deleting'']}, snd sample_cleanup_store) = (None, (fs', snd sample_cleanup_store)) \<and> [''a.jpg''] \<in> fs'"
proof -
  let ?parts = "\<lambda>s. if s = [] then [] else [s]"
  have "consistent ?parts sample_cleanup_store"
    by (simp add: consistent_def sample_cleanup_store_def tables_inv_def named_by_id_def snapshot_of_def sample_row_def
        c_text_def is_tombstone_def extension_def rfind_char_def)
  moreover have ex: "excess_rows 0 \<lparr>t_alerts = [sample_row], t_detections = []\<rparr> = [sample_row]"
    by (simp add: excess_rows_def bounded_limit_def stable_sort_def)
  have "cleanup_oldest no_faults (\<lambda>_. sample_cleanup_faults) ?parts [] 0 sample_cleanup_store =
      (Some ''sync'', [sample_cleanup_store, ({[''a.jpg.deleting'']}, snd sample_cleanup_store)])"
    by (simp add: cleanup_oldest_def find_oldest_excess_def query_alerts_def no_faults_def sample_cleanup_store_def
        ex[unfolded sample_row_def]
        read_detections_def read_alert_def sample_row_def cleanup_one_def sample_cleanup_faults_def move_def
        tombstone_def Let_def)
  ultimately have "\<exists>fs'. reconcile_deletions no_faults works (Inr True) (Inr [[''a.jpg.deleting'']])
      ({[''a.jpg.deleting'']}, snd sample_cleanup_store) = (None, (fs', snd ({[''a.jpg.deleting'']}, snd sample_cleanup_store))) \<and>
    (\<forall>r \<in> rows ({[''a.jpg.deleting'']}, snd sample_cleanup_store). snapshot_of ?parts r \<in> fs') \<and>
    (\<forall>r \<in> rows sample_cleanup_store - rows ({[''a.jpg.deleting'']}, snd sample_cleanup_store).
       snapshot_of ?parts r \<notin> fs') \<and> (\<forall>p \<in> fs'. \<not> is_tombstone p)"
    by (rule cleanup_crash_recovery) simp_all
  then obtain fs' where "reconcile_deletions no_faults works (Inr True) (Inr [[''a.jpg.deleting'']])
      ({[''a.jpg.deleting'']}, snd sample_cleanup_store) = (None, (fs', snd sample_cleanup_store))"
    and "\<forall>r \<in> rows ({[''a.jpg.deleting'']}, snd sample_cleanup_store). snapshot_of ?parts r \<in> fs'"
    unfolding snd_conv by blast
  moreover from this(2) have "[''a.jpg''] \<in> fs'"
    by (simp add: sample_cleanup_store_def snapshot_of_def sample_row_def)
  ultimately show ?thesis by blast
qed

end
