(* ===== verification/Tensor_Layout.thy ===== *)
theory Tensor_Layout
  imports Skai_Prelude
begin

text \<open>
  \<^verbatim>\<open>validate_tensor_layout\<close> of \<^verbatim>\<open>src/inference/tensor_layout.cpp\<close>: the check of
  an engine's tensors before device memory is allocated for them.  Dimensions are the
  \<^verbatim>\<open>std::int64_t\<close> values as integers, byte sizes are 64-bit words.
\<close>

record tensor_description =
  td_name :: string
  td_input :: bool
  td_shape :: "int list"
  td_data_type :: string
  component_bytes :: u64
  td_device :: bool
  td_linear :: bool

record tensor_info =
  ti_name :: string
  ti_input :: bool
  ti_shape :: "int list"
  ti_data_type :: string
  ti_bytes :: u64

definition tensor_error :: "string \<Rightarrow> string \<Rightarrow> string" where
  "tensor_error name what = ''tensor '' @ [CHR 0x27] @ name @ [CHR 0x27] @ what"

fun byte_size :: "string \<Rightarrow> int list \<Rightarrow> u64 \<Rightarrow> u64 result" where
  "byte_size name [] bytes = Inr bytes"
| "byte_size name (d # ds) bytes =
     (if d < 0 then Inl (tensor_error name '' has a dynamic dimension; rebuild with fixed shapes'')
      else if d = 0 then Inl (tensor_error name '' has a zero dimension'')
      else
        let count = of_int d :: u64 in
        if count > - 1 div bytes then Inl (tensor_error name '' byte size overflow'')
        else byte_size name ds (bytes * count))"

definition validate_binding :: "string set \<Rightarrow> tensor_description \<Rightarrow> tensor_info result" where
  "validate_binding names b =
     (if td_name b = [] then Inl ''engine contains an unnamed I/O tensor''
      else if td_name b \<in> names then Inl (''duplicate I/O tensor: '' @ td_name b)
      else if \<not> td_device b then Inl (tensor_error (td_name b) '' is not device-resident'')
      else if \<not> td_linear b then Inl (tensor_error (td_name b) '' does not use a linear format'')
      else if component_bytes b = 0 \<or> td_data_type b = []
      then Inl (tensor_error (td_name b) '' has an unsupported data type'')
      else case byte_size (td_name b) (td_shape b) (component_bytes b) of
        Inl e \<Rightarrow> Inl e
      | Inr bytes \<Rightarrow>
          Inr \<lparr>ti_name = td_name b, ti_input = td_input b, ti_shape = td_shape b, ti_data_type = td_data_type b,
               ti_bytes = bytes\<rparr>)"

text \<open>The loop, with the names seen, the tensors validated and the two flags.\<close>

fun validate_loop ::
  "tensor_description list \<Rightarrow> string set \<Rightarrow> tensor_info list \<Rightarrow> bool \<Rightarrow> bool \<Rightarrow> tensor_info list result" where
  "validate_loop [] names validated has_input has_output =
     (if \<not> has_input \<or> \<not> has_output
      then Inl (if has_input then ''engine has no output tensor'' else ''engine has no input tensor'')
      else Inr validated)"
| "validate_loop (b # bs) names validated has_input has_output =
     (case validate_binding names b of
        Inl e \<Rightarrow> Inl e
      | Inr t \<Rightarrow>
          validate_loop bs (insert (td_name b) names) (validated @ [t]) (has_input \<or> td_input b)
            (has_output \<or> \<not> td_input b))"

definition validate_tensor_layout :: "tensor_description list \<Rightarrow> tensor_info list result" where
  "validate_tensor_layout ds = validate_loop ds {} [] False False"

section \<open>What is accepted\<close>

text \<open>The reference: the size in bytes as an unbounded number.\<close>

definition exact_bytes :: "tensor_description \<Rightarrow> int" where
  "exact_bytes b = uint (component_bytes b) * prod_list (td_shape b)"

definition usable :: "tensor_description \<Rightarrow> bool" where
  "usable b \<longleftrightarrow> td_name b \<noteq> [] \<and> td_device b \<and> td_linear b \<and> component_bytes b \<noteq> 0 \<and> td_data_type b \<noteq> [] \<and>
     (\<forall>d \<in> set (td_shape b). 0 < d) \<and> exact_bytes b < 2 ^ 64"

definition int64_shape :: "tensor_description \<Rightarrow> bool" where
  "int64_shape b \<longleftrightarrow> (\<forall>d \<in> set (td_shape b). - (2 ^ 63) \<le> d \<and> d < 2 ^ 63)"

definition info_of :: "tensor_description \<Rightarrow> tensor_info" where
  "info_of b = \<lparr>ti_name = td_name b, ti_input = td_input b, ti_shape = td_shape b, ti_data_type = td_data_type b,
     ti_bytes = of_int (exact_bytes b)\<rparr>"


text \<open>The division by which the code tests for overflow.\<close>

lemma overflow_test:
  fixes b c :: u64
  assumes "b \<noteq> 0"
  shows "c > - 1 div b \<longleftrightarrow> uint b * uint c \<ge> 2 ^ 64"
proof -
  have b: "0 < uint b" using assms by (metis uint_0_iff unsigned_greater_eq order_le_less)
  have "uint (- 1 :: u64) = 2 ^ 64 - 1" by (simp add: unsigned_minus_1_eq_mask mask_eq_exp_minus_1)
  then have "uint (- 1 div b) = (2 ^ 64 - 1) div uint b" by (simp only: uint_div_distrib)
  then have "c > - 1 div b \<longleftrightarrow> (2 ^ 64 - 1) div uint b < uint c" by (simp add: word_less_def)
  also have "\<dots> \<longleftrightarrow> 2 ^ 64 - 1 < uint c * uint b" using b by (rule int_div_less_iff)
  also have "\<dots> \<longleftrightarrow> uint b * uint c \<ge> 2 ^ 64" by (simp add: mult.commute) linarith
  finally show ?thesis .
qed

lemma prod_list_pos: "(\<forall>d \<in> set ds. 0 < (d :: int)) \<Longrightarrow> 1 \<le> prod_list ds"
proof (induction ds)
  case (Cons d ds)
  then have "1 \<le> d" "1 \<le> prod_list ds" by simp_all
  then have "1 * 1 \<le> d * prod_list ds" by (intro mult_mono) simp_all
  then show ?case by simp
qed simp

lemma byte_size_iff:
  assumes "bytes \<noteq> 0" "\<forall>d \<in> set ds. d < 2 ^ 63"
  shows "byte_size name ds bytes = Inr r \<longleftrightarrow>
    (\<forall>d \<in> set ds. 0 < d) \<and> uint bytes * prod_list ds < 2 ^ 64 \<and> r = of_int (uint bytes * prod_list ds)"
  using assms
proof (induction ds arbitrary: bytes)
  case Nil
  then show ?case using uint_bounded[of bytes] by (auto simp: word_of_int_uint)
next
  case (Cons d ds)
  show ?case
  proof (cases "0 < d")
    case True
    have d: "uint (of_int d :: u64) = d" using True Cons.prems(2) by (simp add: uint_word_of_int_eq take_bit_int_eq_self)
    have b: "0 < uint bytes" using Cons.prems(1) by (metis uint_0_iff unsigned_greater_eq order_le_less)
    show ?thesis
    proof (cases "uint bytes * d < 2 ^ 64")
      case False
      have "\<not> uint bytes * (d * prod_list ds) < 2 ^ 64" if "\<forall>d \<in> set ds. 0 < d"
      proof -
        have "uint bytes * d * 1 \<le> uint bytes * d * prod_list ds"
          using prod_list_pos[OF that] True b by (intro mult_left_mono) simp_all
        then show ?thesis using False by (simp add: mult.assoc)
      qed
      then show ?thesis using True False overflow_test[OF Cons.prems(1), of "of_int d"] d by (auto simp: Let_def)
    next
      case fits: True
      let ?b = "bytes * of_int d"
      have u: "uint ?b = uint bytes * d"
        using fits d uint_mult_lem[of bytes "of_int d"] by simp
      then have "?b \<noteq> 0" using b True by (metis mult_eq_0_iff less_numeral_extra(3) unsigned_0)
      then show ?thesis
        using Cons.IH[of ?b] Cons.prems(2) True fits overflow_test[OF Cons.prems(1), of "of_int d"] d u
        by (simp add: Let_def mult.assoc)
    qed
  qed auto
qed

lemma validate_binding_iff:
  assumes "int64_shape b"
  shows "validate_binding names b = Inr t \<longleftrightarrow> td_name b \<notin> names \<and> usable b \<and> t = info_of b"
proof (cases "component_bytes b = 0")
  case False
  have "\<forall>d \<in> set (td_shape b). d < 2 ^ 63" using assms by (simp add: int64_shape_def)
  note sz = byte_size_iff[OF False this, of "td_name b"]
  show ?thesis
  proof (cases "byte_size (td_name b) (td_shape b) (component_bytes b)")
    case (Inl e)
    then have "\<not> usable b" using sz[of "of_int (exact_bytes b)"] by (auto simp: usable_def exact_bytes_def)
    then show ?thesis using Inl by (simp add: validate_binding_def)
  next
    case (Inr r)
    then show ?thesis using sz[of r] False
      by (auto simp: validate_binding_def usable_def info_of_def exact_bytes_def)
  qed
qed (simp add: validate_binding_def usable_def)

lemma validate_loop_iff:
  assumes "list_all int64_shape ds"
  shows "validate_loop ds names validated i out = Inr ts \<longleftrightarrow>
    list_all usable ds \<and> distinct (map td_name ds) \<and> names \<inter> td_name ` set ds = {} \<and>
    (i \<or> (\<exists>b \<in> set ds. td_input b)) \<and> (out \<or> (\<exists>b \<in> set ds. \<not> td_input b)) \<and> ts = validated @ map info_of ds"
  using assms
proof (induction ds arbitrary: names validated i out)
  case (Cons b bs)
  then have b: "int64_shape b" "list_all int64_shape bs" by simp_all
  show ?case
  proof (cases "validate_binding names b")
    case (Inl e)
    then have "\<not> (td_name b \<notin> names \<and> usable b)" using validate_binding_iff[OF b(1), of names "info_of b"] by auto
    then show ?thesis using Inl by auto
  next
    case (Inr t)
    then have "td_name b \<notin> names" "usable b" "t = info_of b" using validate_binding_iff[OF b(1), of names t] by auto
    then show ?thesis using Inr Cons.IH[OF b(2)] by auto
  qed
qed auto

lemma info_of_bytes:
  assumes "usable b"
  shows "uint (ti_bytes (info_of b)) = exact_bytes b"
proof -
  have "0 \<le> exact_bytes b" using prod_list_pos[of "td_shape b"] assms by (simp add: exact_bytes_def usable_def)
  then show ?thesis using assms by (simp add: info_of_def usable_def uint_word_of_int_eq take_bit_int_eq_self)
qed

lemma accepted_layout:
  assumes "list_all int64_shape ds" "validate_tensor_layout ds = Inr ts"
  shows "list_all usable ds \<and> ts = map info_of ds \<and> distinct (map ti_name ts)"
proof -
  have "list_all usable ds" "ts = map info_of ds" "distinct (map td_name ds)"
    using assms(2) validate_loop_iff[OF assms(1)] by (simp_all add: validate_tensor_layout_def)
  then show ?thesis by (simp add: info_of_def comp_def)
qed

text \<open>C37: the check accepts exactly the layouts that can be allocated.  An engine is accepted if and only if
  its tensors have distinct names, are linear and on the device with a known component size, have fixed
  positive dimensions, at least one is an input and one an output, and every size in bytes, computed
  without bound, fits in 64 bits; the sizes returned are then those exact sizes, so no multiplication
  has wrapped.\<close>

theorem tensor_layout_exact:
  assumes "list_all int64_shape ds"
  shows "(validate_tensor_layout ds = Inr ts \<longleftrightarrow>
      list_all usable ds \<and> distinct (map td_name ds) \<and> (\<exists>b \<in> set ds. td_input b) \<and> (\<exists>b \<in> set ds. \<not> td_input b) \<and>
      ts = map info_of ds) \<and>
    (validate_tensor_layout ds = Inr ts \<longrightarrow> map (uint \<circ> ti_bytes) ts = map exact_bytes ds)"
proof (intro conjI impI)
  show acc: "validate_tensor_layout ds = Inr ts \<longleftrightarrow>
      list_all usable ds \<and> distinct (map td_name ds) \<and> (\<exists>b \<in> set ds. td_input b) \<and> (\<exists>b \<in> set ds. \<not> td_input b) \<and>
      ts = map info_of ds"
    using validate_loop_iff[OF assms] by (simp add: validate_tensor_layout_def)
  show "map (uint \<circ> ti_bytes) ts = map exact_bytes ds" if "validate_tensor_layout ds = Inr ts"
    using acc that by (auto simp: list_all_iff info_of_bytes)
qed

definition sample_tensors :: "tensor_description list" where
  "sample_tensors =
     [\<lparr>td_name = ''images'', td_input = True, td_shape = [1, 3, 640, 640], td_data_type = ''float32'',
       component_bytes = 4, td_device = True, td_linear = True\<rparr>,
      \<lparr>td_name = ''output0'', td_input = False, td_shape = [1, 84, 8400], td_data_type = ''float32'',
       component_bytes = 4, td_device = True, td_linear = True\<rparr>]"

theorem tensor_layout_exact_witness:
  "\<exists>ts. validate_tensor_layout sample_tensors = Inr ts \<and> map (uint \<circ> ti_bytes) ts = [4915200, 2822400]"
proof -
  have "list_all int64_shape sample_tensors" by (simp add: sample_tensors_def int64_shape_def)
  note exact = tensor_layout_exact[OF this, of "map info_of sample_tensors"]
  moreover have "list_all usable sample_tensors" "map exact_bytes sample_tensors = [4915200, 2822400]"
    by (simp_all add: sample_tensors_def usable_def exact_bytes_def)
  ultimately show ?thesis by (auto simp: sample_tensors_def)
qed

end
