(* ===== verification/Whip_Publisher.thy ===== *)
theory Whip_Publisher
  imports WebRtc_Session Detection_Sei
begin

text \<open>
  \<^verbatim>\<open>WhipPublisher\<close> of \<^verbatim>\<open>src/webrtc/whip_publisher.cpp\<close>: the uplink of
  the H.264 stream to one WHIP endpoint.  The HTTP client (libcurl) and the \<^verbatim>\<open>rtc\<close>
  library are parameters: a transfer gives the header lines, the body chunks and the result, and a
  pass of the media loop gets the clock, the state of the track and the outcome of
  \<^verbatim>\<open>send\<close>.  What other threads do (the producers of units and detections, the
  library's callbacks, \<^verbatim>\<open>stop\<close>) is a list of actions at each point where the
  publisher's thread can observe them.
\<close>

section \<open>The token\<close>

definition is_blank :: "char \<Rightarrow> bool" where
  "is_blank c \<longleftrightarrow> c \<in> {CHR '' '', CHR 0x09, CHR 0x0D, CHR 0x0A}"

definition trim :: "string \<Rightarrow> string" where
  "trim value =
     (case index_where (\<lambda>c. \<not> is_blank c) value of
        None \<Rightarrow> []
      | Some first \<Rightarrow>
          (case index_where (\<lambda>c. \<not> is_blank c) (rev value) of
             None \<Rightarrow> []
           | Some back \<Rightarrow> substr first (Some (length value - 1 - back - first + 1)) value))"

text \<open>\<^verbatim>\<open>std::getline\<close> until it fails.\<close>

fun getlines :: "string \<Rightarrow> string \<Rightarrow> string list" where
  "getlines acc [] = (if acc = [] then [] else [rev acc])"
| "getlines acc (c # s) = (if c = CHR 0x0A then rev acc # getlines [] s else getlines (c # acc) s)"

definition unquote :: "string \<Rightarrow> string" where
  "unquote value =
     (if length value \<ge> 2 \<and>
         (hd value = CHR 0x22 \<and> last value = CHR 0x22 \<or> hd value = CHR 0x27 \<and> last value = CHR 0x27)
      then substr 1 (Some (length value - 2)) value else value)"

fun token_line :: "string list \<Rightarrow> string" where
  "token_line [] = []"
| "token_line (l # ls) =
     (let line = trim l;
          line1 = (if starts_with ''export '' line then trim (substr 7 None line) else line)
      in if \<not> starts_with ''WHIP_TOKEN='' line1 then token_line ls
         else unquote (trim (substr 11 None line1)))"

text \<open>The variable of the environment, and the file \<^verbatim>\<open>.env\<close> if it can be read.\<close>

type_synonym token_env = "string option \<times> string option"

definition load_token :: "token_env \<Rightarrow> string" where
  "load_token te =
     (case fst te of
        Some value \<Rightarrow> if value \<noteq> [] then value
          else token_line (case snd te of None \<Rightarrow> [] | Some text \<Rightarrow> getlines [] text)
      | None \<Rightarrow> token_line (case snd te of None \<Rightarrow> [] | Some text \<Rightarrow> getlines [] text))"

section \<open>HTTP requests\<close>

record http_response =
  hr_status :: int
  hr_body :: string
  hr_location :: string

definition receive_body :: "string \<Rightarrow> http_response \<Rightarrow> nat \<times> http_response" where
  "receive_body data r =
     (if length (hr_body r) + length data > 128 * 1024 then (0, r)
      else (length data, r\<lparr>hr_body := hr_body r @ data\<rparr>))"

definition receive_header :: "string \<Rightarrow> http_response \<Rightarrow> http_response" where
  "receive_header header r =
     (case index_where (\<lambda>c. c = CHR '':'') header of
        None \<Rightarrow> r
      | Some separator \<Rightarrow>
          if map to_lower (substr 0 (Some separator) header) = ''location''
          then r\<lparr>hr_location := trim (substr (separator + 1) None header)\<rparr> else r)"

definition cancel_if_stopping :: "bool \<Rightarrow> int" where
  "cancel_if_stopping stopping = (if stopping then 1 else 0)"

record http_request =
  rq_url :: string
  rq_method :: string
  rq_follow_location :: bool
  rq_connect_timeout_ms :: int
  rq_timeout_ms :: int
  rq_headers :: "string list"
  rq_body :: "string option"

definition build_request :: "string \<Rightarrow> string \<Rightarrow> string \<Rightarrow> string \<Rightarrow> http_request" where
  "build_request url verb body token =
     (let timeout = (if verb = ''DELETE'' then 2000 else 10000);
          auth = (if verb = ''POST'' \<or> verb = ''DELETE'' then [''Authorization: Bearer '' @ token] else []);
          content = (if verb = ''POST'' then [''Content-Type: application/sdp''] else [])
      in \<lparr>rq_url = url, rq_method = verb, rq_follow_location = False,
          rq_connect_timeout_ms = min 5000 timeout, rq_timeout_ms = timeout, rq_headers = auth @ content,
          rq_body = (if verb = ''POST'' then Some body else None)\<rparr>)"

text \<open>One transfer of libcurl: whether the handle could be made, what the progress callback reads, the
  header lines and body chunks it hands to the callbacks, the texts of its errors, an error of its own
  and the status.  A callback that takes less than it was given, or that returns a nonzero value from the
  progress poll, aborts the transfer.\<close>

record transfer =
  tr_init_ok :: bool
  tr_polls :: "bool list"
  tr_headers :: "string list"
  tr_chunks :: "string list"
  tr_abort_text :: string
  tr_write_text :: string
  tr_error :: "string option"
  tr_status :: int

fun receive_chunks :: "string list \<Rightarrow> http_response \<Rightarrow> http_response option" where
  "receive_chunks [] r = Some r"
| "receive_chunks (d # ds) r =
     (case receive_body d r of (n, r1) \<Rightarrow> if n \<noteq> length d then None else receive_chunks ds r1)"

definition perform :: "transfer \<Rightarrow> http_response result" where
  "perform t =
     (let failure = (\<lambda>text. Inl (''WHIP HTTP request failed: '' @ text));
          r = fold receive_header (tr_headers t) \<lparr>hr_status = 0, hr_body = [], hr_location = []\<rparr>
      in if \<not> tr_init_ok t then Inl ''could not initialize WHIP HTTP client''
         else if list_ex (\<lambda>s. cancel_if_stopping s \<noteq> 0) (tr_polls t) then failure (tr_abort_text t)
         else case receive_chunks (tr_chunks t) r of
           None \<Rightarrow> failure (tr_write_text t)
         | Some r1 \<Rightarrow>
             (case tr_error t of
                Some text \<Rightarrow> failure text
              | None \<Rightarrow> Inr (r1\<lparr>hr_status := tr_status t\<rparr>)))"

section \<open>State of the publisher\<close>

text \<open>\<open>wp_requests\<close> and \<open>wp_log\<close> record, for the properties, the requests sent and the
  entries handed to the logger; \<open>wp_stream\<close> the units the media queue accepted.\<close>

record whip_publisher =
  wp_config :: whip_config
  wp_token :: string
  wp_last_error :: string
  wp_media :: "encoded_access_unit bounded_queue"
  wp_detections :: "sei_source_result bounded_queue"
  wp_stopping :: bool
  wp_units_sent :: u64
  wp_peer_state :: string
  wp_ice_state :: string
  wp_conn_error :: string
  wp_worker :: bool
  wp_requests :: "http_request list"
  wp_log :: "(log_level \<times> string) list"
  wp_stream :: "encoded_access_unit list"

definition wp_initialize :: "config \<Rightarrow> token_env \<Rightarrow> bool \<Rightarrow> whip_publisher \<Rightarrow> bool \<times> whip_publisher" where
  "wp_initialize cfg te curl_ok w =
     (let c = cfg_whip cfg; st = (if whip_enabled c then ''new'' else ''disabled'');
          w1 = w\<lparr>wp_config := c, wp_units_sent := 0, wp_peer_state := st, wp_ice_state := st,
                 wp_conn_error := [], wp_token := [], wp_last_error := [], wp_media := reset (wp_media w),
                 wp_detections := reset (wp_detections w), wp_stopping := False, wp_stream := []\<rparr>
      in if \<not> whip_enabled c then (True, w1)
         else
           let w2 = w1\<lparr>wp_token := load_token te\<rparr> in
           if wp_token w2 = []
           then (False, w2\<lparr>wp_last_error := ''WHIP_TOKEN is required when whip.enabled is true''\<rparr>)
           else if \<not> curl_ok then (False, w2\<lparr>wp_last_error := ''could not initialize WHIP HTTP client''\<rparr>)
           else (True, w2))"

text \<open>The argument is the message of the exception that starting the thread raises, if any.\<close>

definition wp_start :: "string option \<Rightarrow> whip_publisher \<Rightarrow> bool \<times> whip_publisher" where
  "wp_start thread_error w =
     (if \<not> whip_enabled (wp_config w) then (True, w)
      else case thread_error of
        None \<Rightarrow> (True, w\<lparr>wp_worker := True\<rparr>)
      | Some e \<Rightarrow> (False, w\<lparr>wp_last_error := e\<rparr>))"

definition wp_stop :: "whip_publisher \<Rightarrow> whip_publisher" where
  "wp_stop w =
     w\<lparr>wp_stopping := True, wp_media := shutdown (wp_media w), wp_detections := shutdown (wp_detections w)\<rparr>"

definition wp_metrics :: "whip_publisher \<Rightarrow> whip_metrics" where
  "wp_metrics w =
     \<lparr>wm_enabled = whip_enabled (wp_config w), peer_state = wp_peer_state w, ice_state = wp_ice_state w,
      wm_last_error = wp_conn_error w, access_units_sent = wp_units_sent w,
      media_queue_drops = unat (dropped (bq_stats (wp_media w))),
      media_queue_discarded = unat (discarded (bq_stats (wp_media w)))\<rparr>"

text \<open>After the thread has ended.\<close>

definition wp_wait :: "whip_publisher \<Rightarrow> whip_publisher" where
  "wp_wait w = w\<lparr>wp_worker := False, wp_token := []\<rparr>"

definition wp_publish_access_unit :: "encoded_access_unit \<Rightarrow> whip_publisher \<Rightarrow> whip_publisher" where
  "wp_publish_access_unit u w =
     (if \<not> whip_enabled (wp_config w) \<or> wp_stopping w then w
      else case push u (wp_media w) of
        (ok, q) \<Rightarrow> w\<lparr>wp_media := q, wp_stream := wp_stream w @ (if ok then [u] else [])\<rparr>)"

definition wp_publish_detections :: "sei_source_result \<Rightarrow> whip_publisher \<Rightarrow> whip_publisher" where
  "wp_publish_detections r w =
     (if \<not> whip_enabled (wp_config w) \<or> wp_stopping w then w
      else w\<lparr>wp_detections := snd (push r (wp_detections w))\<rparr>)"

definition wp_note :: "log_level \<Rightarrow> string \<Rightarrow> whip_publisher \<Rightarrow> whip_publisher" where
  "wp_note l text w = w\<lparr>wp_log := wp_log w @ [(l, text)]\<rparr>"

section \<open>Callbacks and other threads\<close>

datatype rtc_state =
  Rtc_new | Rtc_connecting | Rtc_connected | Rtc_disconnected | Rtc_failed | Rtc_closed

fun peer_state_name :: "rtc_state \<Rightarrow> string" where
  "peer_state_name Rtc_new = ''new''"
| "peer_state_name Rtc_connecting = ''connecting''"
| "peer_state_name Rtc_connected = ''connected''"
| "peer_state_name Rtc_disconnected = ''disconnected''"
| "peer_state_name Rtc_failed = ''failed''"
| "peer_state_name Rtc_closed = ''closed''"

datatype ice_conn_state =
  Ice_new | Ice_checking | Ice_connected | Ice_completed | Ice_failed | Ice_disconnected | Ice_closed

fun ice_state_name :: "ice_conn_state \<Rightarrow> string" where
  "ice_state_name Ice_new = ''new''"
| "ice_state_name Ice_checking = ''checking''"
| "ice_state_name Ice_connected = ''connected''"
| "ice_state_name Ice_completed = ''completed''"
| "ice_state_name Ice_failed = ''failed''"
| "ice_state_name Ice_disconnected = ''disconnected''"
| "ice_state_name Ice_closed = ''closed''"

text \<open>The locals of \<^verbatim>\<open>publish_once\<close>.  \<open>up_track\<close> and \<open>up_sources\<close>
  record what was handed to the track, with its RTP timestamp, and the queued units it came from.\<close>

record uplink =
  up_location :: string
  up_sent :: u64
  up_selector :: sei_result_selector
  up_feed_dropped :: u64
  up_peer :: whip_peer_state
  up_waiting :: bool
  up_clock :: whip_rtp_clock
  up_opened :: bool
  up_awaiting :: bool
  up_closed_at :: "time_point option"
  up_observed :: u64
  up_deadline :: time_point
  up_track :: "(u8 list \<times> u32) list"
  up_sources :: "encoded_access_unit list"

datatype uplink_act =
    Act_unit encoded_access_unit
  | Act_detections sei_source_result
  | Act_stop
  | Act_gathering_complete
  | Act_peer_state rtc_state time_point
  | Act_ice_state ice_conn_state

definition on_whip_peer_state :: "rtc_state \<Rightarrow> time_point \<Rightarrow> whip_peer_state \<Rightarrow> whip_peer_state" where
  "on_whip_peer_state v now p =
     (case v of
        Rtc_connected \<Rightarrow> Whip_Policy.connected p
      | Rtc_disconnected \<Rightarrow> disconnected now p
      | Rtc_failed \<Rightarrow> failed p
      | Rtc_closed \<Rightarrow> failed p
      | _ \<Rightarrow> p)"

fun whip_act :: "uplink_act \<Rightarrow> whip_publisher \<times> uplink \<Rightarrow> whip_publisher \<times> uplink" where
  "whip_act (Act_unit u) (w, p) = (wp_publish_access_unit u w, p)"
| "whip_act (Act_detections r) (w, p) = (wp_publish_detections r w, p)"
| "whip_act Act_stop (w, p) = (wp_stop w, p)"
| "whip_act Act_gathering_complete (w, p) = (w, p\<lparr>up_peer := gathered (up_peer p)\<rparr>)"
| "whip_act (Act_peer_state v now) (w, p) =
     (w\<lparr>wp_peer_state := peer_state_name v\<rparr>, p\<lparr>up_peer := on_whip_peer_state v now (up_peer p)\<rparr>)"
| "whip_act (Act_ice_state v) (w, p) = (w\<lparr>wp_ice_state := ice_state_name v\<rparr>, p)"

abbreviation whip_acts :: "uplink_act list \<Rightarrow> whip_publisher \<times> uplink \<Rightarrow> whip_publisher \<times> uplink" where
  "whip_acts \<equiv> fold whip_act"

section \<open>The media loop\<close>

datatype whip_exn = Unrecoverable string | Std_exception string | Unknown_exception

datatype loop_result = Loop_running | Loop_stopped | Loop_threw whip_exn

text \<open>What one pass sees: the actions of other threads before its check of the flag, between the two
  readings of the peer state, while it waits for a unit, and between the pop and the reading of the drop
  counter; the clock, the track and the outcome of \<^verbatim>\<open>send\<close>.\<close>

record uplink_env =
  ue_before :: "uplink_act list"
  ue_now :: time_point
  ue_between :: "uplink_act list"
  ue_open :: bool
  ue_waiting :: "uplink_act list"
  ue_reading :: "uplink_act list"
  ue_send :: send_outcome

text \<open>\<^verbatim>\<open>while (auto result = detection_queue_.pop_for(0)) detections.add(...)\<close>\<close>

function drain_detections ::
    "sei_source_result bounded_queue \<Rightarrow> sei_result_selector \<Rightarrow>
     sei_source_result bounded_queue \<times> sei_result_selector" where
  "drain_detections q s =
     (case pop_for q of
        (None, q1) \<Rightarrow> (q1, s)
      | (Some r, q1) \<Rightarrow> drain_detections q1 (sel_add r s))"
  by pat_completeness auto
termination
  by (relation "measure (\<lambda>(q, s). length (bq_queue q))")
     (auto simp: pop_for_def take_front_def split: if_splits list.splits)

declare drain_detections.simps [simp del]

definition send_unit ::
    "uplink_env \<Rightarrow> encoded_access_unit \<Rightarrow> whip_publisher \<times> uplink \<Rightarrow> loop_result \<times> whip_publisher \<times> uplink" where
  "send_unit env u st =
     (let (w, p) = st;
          (ts, clock) = clock_timestamp (au_source_generation u) (au_has_pts u) (au_pts_ns u) (up_clock p);
          (bytes, sel) =
            (if au_has_pts u then
               let ((sei, _), sel) = take_for (au_pts_ns u) (au_source_generation u) (up_selector p)
               in (if sei \<noteq> [] then snd (insert_before_first_vcl (au_bytes u) sei) else au_bytes u, sel)
             else (au_bytes u, up_selector p));
          p1 = p\<lparr>up_waiting := False, up_clock := clock, up_selector := sel,
                 up_track := up_track p @ [(bytes, ts)], up_sources := up_sources p @ [u]\<rparr>
      in case ue_send env of
           Rejected \<Rightarrow> (Loop_threw (Std_exception ''WHIP media track rejected an access unit''), w, p1)
         | Send_threw e \<Rightarrow> (Loop_threw (Std_exception e), w, p1)
         | Send_threw_unknown \<Rightarrow> (Loop_threw Unknown_exception, w, p1)
         | Sent \<Rightarrow>
             let p2 = p1\<lparr>up_sent := up_sent p1 + 1\<rparr>;
                 w1 = (if up_sent p2 = 1 then wp_note Log_Info ''first H.264 access unit sent'' w else w)
             in (Loop_running, w1\<lparr>wp_units_sent := wp_units_sent w1 + 1\<rparr>, p2))"

definition forward_unit ::
    "uplink_env \<Rightarrow> encoded_access_unit \<Rightarrow> whip_publisher \<times> uplink \<Rightarrow> loop_result \<times> whip_publisher \<times> uplink" where
  "forward_unit env u st =
     (let (w, p) = st;
          drops = dropped (bq_stats (wp_media w));
          p1 = p\<lparr>up_waiting := up_waiting p \<or> au_discontinuity u \<or> drops \<noteq> up_observed p, up_observed := drops\<rparr>
      in if up_waiting p1 \<and> \<not> au_keyframe u then (Loop_running, w, p1)
         else send_unit env u (w, p1))"

definition closed_pass :: "uplink_env \<Rightarrow> whip_publisher \<times> uplink \<Rightarrow> loop_result \<times> whip_publisher \<times> uplink" where
  "closed_pass env st =
     (let (w, p) = st; now = ue_now env in
      if \<not> up_opened p \<and> now \<ge> up_deadline p
      then (Loop_threw (Std_exception ''WHIP media track did not open''), w, p)
      else
        let closed = up_opened p \<and> \<not> ue_open env;
            since = (case up_closed_at p of None \<Rightarrow> now | Some t \<Rightarrow> t);
            p1 = (if closed then p\<lparr>up_closed_at := Some since\<rparr> else p)
        in if closed \<and> now - since \<ge> seconds 10
           then (Loop_threw (Std_exception ''WHIP media track remained closed''), w, p1)
           else (Loop_running,
                 if up_awaiting p1 then w else w\<lparr>wp_media := snd (discard_all (wp_media w))\<rparr>,
                 p1\<lparr>up_awaiting := True\<rparr>))"

definition open_pass :: "uplink_env \<Rightarrow> whip_publisher \<times> uplink \<Rightarrow> loop_result \<times> whip_publisher \<times> uplink" where
  "open_pass env st =
     (let (w0, p0) = st;
          p1 = (if up_awaiting p0 then p0\<lparr>up_waiting := True, up_awaiting := False\<rparr> else p0);
          (w1, p2) = whip_acts (ue_waiting env) (w0, p1\<lparr>up_opened := True, up_closed_at := None\<rparr>);
          (unit, q) = pop_for (wp_media w1);
          (dq, sel) = drain_detections (wp_detections w1) (up_selector p2);
          w2 = w1\<lparr>wp_media := q, wp_detections := dq\<rparr>; p3 = p2\<lparr>up_selector := sel\<rparr>
      in case unit of
           None \<Rightarrow> (Loop_running, w2, p3)
         | Some u \<Rightarrow> forward_unit env u (whip_acts (ue_reading env) (w2, p3)))"

definition uplink_pass :: "uplink_env \<Rightarrow> whip_publisher \<times> uplink \<Rightarrow> loop_result \<times> whip_publisher \<times> uplink" where
  "uplink_pass env st0 =
     (let (w, p) = whip_acts (ue_before env) st0 in
      if wp_stopping w then (Loop_stopped, w, p)
      else if should_reconnect (ue_now env) (seconds 10) (up_peer p)
      then (Loop_threw (Std_exception ''WHIP ICE connection failed or remained disconnected''), w, p)
      else
        let (w1, p1) = whip_acts (ue_between env) (w, p) in
        if is_disconnected (up_peer p1) \<or> \<not> ue_open env then closed_pass env (w1, p1)
        else open_pass env (w1, p1))"

fun uplink_loop ::
    "uplink_env list \<Rightarrow> whip_publisher \<times> uplink \<Rightarrow> loop_result \<times> whip_publisher \<times> uplink" where
  "uplink_loop [] st = (Loop_running, st)"
| "uplink_loop (env # envs) st =
     (case uplink_pass env st of
        (Loop_running, st1) \<Rightarrow> uplink_loop envs st1
      | r \<Rightarrow> r)"

section \<open>One attempt\<close>

datatype attempt_result = Attempt_running | Attempt_returned | Attempt_threw whip_exn

text \<open>What one call of \<^verbatim>\<open>publish_once\<close> meets, in the order of the code: the token, an
  exception of the calls that build the peer (before the \<^verbatim>\<open>try\<close> block) or of
  \<^verbatim>\<open>setLocalDescription\<close>, the turns of the wait for the candidates with the actions of
  other threads before each, the local description, the two transfers, an exception of
  \<^verbatim>\<open>setRemoteDescription\<close>, the start timestamp and the clock.\<close>

record attempt_env =
  ae_token :: token_env
  ae_setup_error :: "whip_exn option"
  ae_local_error :: "whip_exn option"
  ae_now :: time_point
  ae_gather :: "(uplink_act list \<times> time_point \<times> time_point) list"
  ae_gathered :: "uplink_act list"
  ae_offer :: "string option"
  ae_post :: transfer
  ae_answer_error :: "whip_exn option"
  ae_start_timestamp :: u32
  ae_connect_time :: time_point
  ae_delete_token :: token_env
  ae_delete :: transfer

definition new_uplink :: "whip_publisher \<Rightarrow> uplink" where
  "new_uplink w =
     \<lparr>up_location = [], up_sent = 0, up_selector = new_selector 64,
      up_feed_dropped = dropped (bq_stats (wp_detections w)), up_peer = new_peer_state, up_waiting = True,
      up_clock = new_rtp_clock 0, up_opened = False, up_awaiting = False, up_closed_at = None, up_observed = 0,
      up_deadline = 0, up_track = [], up_sources = []\<rparr>"

text \<open>\<^verbatim>\<open>state->wait_for_gathering\<close>, with the state of the publisher at its return; no
  result when it is still waiting.\<close>

fun whip_gather ::
    "time_point \<Rightarrow> (uplink_act list \<times> time_point \<times> time_point) list \<Rightarrow> whip_publisher \<times> uplink \<Rightarrow>
     bool option \<times> whip_publisher \<times> uplink" where
  "whip_gather deadline [] st = (None, st)"
| "whip_gather deadline ((acts, now1, now2) # turns) st =
     (let (w, p) = whip_acts acts st in
      case wait_for_gathering deadline [(up_peer p, wp_stopping w, now1, now2)] of
        Some b \<Rightarrow> (Some b, w, p)
      | None \<Rightarrow> whip_gather deadline turns (w, p))"

definition send_request ::
    "transfer \<Rightarrow> http_request \<Rightarrow> whip_publisher \<Rightarrow> http_response result \<times> whip_publisher" where
  "send_request t rq w =
     (perform t, if tr_init_ok t then w\<lparr>wp_requests := wp_requests w @ [rq]\<rparr> else w)"

definition sei_summary :: "whip_publisher \<Rightarrow> uplink \<Rightarrow> string" where
  "sei_summary w p =
     (let st = sel_stats (up_selector p);
          feed = dropped (bq_stats (wp_detections w)) - up_feed_dropped p;
          text = ''; sei units='' @ to_string (unat (sei_units st)) @
                 '' results attached='' @ to_string (unat (results_attached st)) @
                 '' results dropped='' @ to_string (unat (results_dropped st + feed)) @
                 '' boxes dropped='' @ to_string (unat (boxes_dropped st))
      in case (dt_percentile (Fin (1/2)) (up_selector p), dt_percentile (round64 (95/100)) (up_selector p),
               dt_percentile (Fin 1) (up_selector p)) of
           (Some p50, Some p95, Some p100) \<Rightarrow>
             text @ '' dt p50='' @ to_string (unat p50) @ '' p95='' @ to_string (unat p95) @
             '' max='' @ to_string (unat p100)
         | _ \<Rightarrow> text)"

text \<open>The cleanup request cannot be cancelled: its flag is never set.\<close>

definition close_resource :: "attempt_env \<Rightarrow> whip_publisher \<times> uplink \<Rightarrow> whip_publisher" where
  "close_resource env st =
     (let (w, p) = st in
      if up_location p = [] then w
      else
        let current = load_token (ae_delete_token env);
            rq = build_request (up_location p) ''DELETE'' [] (if current = [] then wp_token w else current);
            (res, w1) = send_request ((ae_delete env)\<lparr>tr_polls := []\<rparr>) rq w
        in case res of
             Inl e \<Rightarrow> wp_note Log_Warning e w1
           | Inr r \<Rightarrow>
               if hr_status r < 200 \<or> hr_status r \<ge> 300
               then wp_note Log_Warning (''DELETE returned HTTP '' @ int_to_string (hr_status r)) w1
               else wp_note Log_Info
                 (''publisher session closed; access units sent='' @ to_string (unat (up_sent p)) @ sei_summary w1 p)
                 w1)"

text \<open>The \<^verbatim>\<open>try\<close> block up to the loop: it returns, throws, or leaves the state in which the
  loop starts.\<close>

datatype open_result =
  Opening_waits whip_publisher uplink | Opening_returned whip_publisher uplink
| Opening_threw whip_exn whip_publisher uplink | Opening_done whip_publisher uplink

definition post_offer :: "attempt_env \<Rightarrow> string \<Rightarrow> whip_publisher \<times> uplink \<Rightarrow> open_result" where
  "post_offer env sdp st =
     (let (w, p) = st;
          (res, w1) = send_request (ae_post env) (build_request (whip_url (wp_config w)) ''POST'' sdp (wp_token w)) w
      in case res of
           Inl e \<Rightarrow> Opening_threw (Std_exception e) w1 p
         | Inr r \<Rightarrow>
             if hr_status r \<noteq> 201
             then Opening_threw (Std_exception (''WHIP POST returned HTTP '' @ int_to_string (hr_status r))) w1 p
             else case whip_resource_url (whip_url (wp_config w)) (hr_location r) of
               Inl e \<Rightarrow> Opening_threw (Unrecoverable e) w1 p
             | Inr location \<Rightarrow>
                 (let p1 = p\<lparr>up_location := location\<rparr> in
                  case ae_answer_error env of
                    Some e \<Rightarrow> Opening_threw e w1 p1
                  | None \<Rightarrow>
                      Opening_done (wp_note Log_Info ''publisher session created'' w1)
                        (p1\<lparr>up_waiting := True, up_clock := new_rtp_clock (ae_start_timestamp env),
                            up_opened := False, up_awaiting := False, up_closed_at := None,
                            up_observed := dropped (bq_stats (wp_media w1)),
                            up_deadline := ae_connect_time env + seconds 15\<rparr>)))"

definition open_uplink :: "attempt_env \<Rightarrow> whip_publisher \<times> uplink \<Rightarrow> open_result" where
  "open_uplink env st =
     (case ae_local_error env of
        Some e \<Rightarrow> Opening_threw e (fst st) (snd st)
      | None \<Rightarrow>
          (case whip_gather (ae_now env + seconds 5) (ae_gather env) st of
             (None, w, p) \<Rightarrow> Opening_waits w p
           | (Some ready, st1) \<Rightarrow>
               let (w, p) = whip_acts (ae_gathered env) st1 in
               if wp_stopping w then Opening_returned w p
               else if \<not> ready
               then Opening_threw (Std_exception ''WHIP ICE gathering did not complete'') w p
               else case ae_offer env of
                 None \<Rightarrow> Opening_threw (Std_exception ''WHIP SDP offer was not generated'') w p
               | Some sdp \<Rightarrow> post_offer env sdp (w, p)))"

definition run_attempt ::
    "attempt_env \<Rightarrow> uplink_env list \<Rightarrow> whip_publisher \<times> uplink \<Rightarrow> attempt_result \<times> whip_publisher \<times> uplink" where
  "run_attempt env passes st =
     (case open_uplink env st of
        Opening_waits w p \<Rightarrow> (Attempt_running, w, p)
      | Opening_returned w p \<Rightarrow> (Attempt_returned, w, p)
      | Opening_threw e w p \<Rightarrow> (Attempt_threw e, close_resource env (w, p), p)
      | Opening_done w p \<Rightarrow>
          (case uplink_loop passes (w, p) of
             (Loop_running, w1, p1) \<Rightarrow> (Attempt_running, w1, p1)
           | (Loop_stopped, w1, p1) \<Rightarrow> (Attempt_returned, close_resource env (w1, p1), p1)
           | (Loop_threw e, w1, p1) \<Rightarrow> (Attempt_threw e, close_resource env (w1, p1), p1)))"

definition publish_once ::
    "attempt_env \<Rightarrow> uplink_env list \<Rightarrow> whip_publisher \<Rightarrow> attempt_result \<times> whip_publisher \<times> uplink" where
  "publish_once env passes w0 =
     (let w1 = w0\<lparr>wp_token := load_token (ae_token env)\<rparr>;
          w2 = w1\<lparr>wp_peer_state := ''new'', wp_ice_state := ''new'', wp_conn_error := []\<rparr>
      in if wp_token w1 = []
         then (Attempt_threw (Std_exception ''WHIP_TOKEN is unavailable''), w1, new_uplink w1)
         else case ae_setup_error env of
           Some e \<Rightarrow> (Attempt_threw e, w2, new_uplink w2)
         | None \<Rightarrow> run_attempt env passes (w2, new_uplink w2))"

section \<open>The thread\<close>

fun exn_text :: "whip_exn \<Rightarrow> string" where
  "exn_text (Unrecoverable e) = e"
| "exn_text (Std_exception e) = e"
| "exn_text Unknown_exception = ''unknown publisher error''"

definition note_exception :: "whip_exn \<Rightarrow> whip_publisher \<Rightarrow> whip_publisher" where
  "note_exception e w =
     (if wp_stopping w then w
      else (wp_note Log_Error (exn_text e) w)\<lparr>wp_conn_error := exn_text e\<rparr>)"

text \<open>One turn of the loop of \<^verbatim>\<open>run\<close>: it ends the thread, goes on, or is still inside the
  attempt.  The last argument is what other threads do during the pause before the next attempt.\<close>

datatype run_result = Run_ended | Run_continues | Run_inside

definition whip_turn ::
    "attempt_env \<Rightarrow> uplink_env list \<Rightarrow> uplink_act list \<Rightarrow> whip_publisher \<Rightarrow> run_result \<times> whip_publisher" where
  "whip_turn env passes pause w0 =
     (if wp_stopping w0 then (Run_ended, w0)
      else case publish_once env passes w0 of
        (Attempt_running, w, p) \<Rightarrow> (Run_inside, w)
      | (Attempt_threw (Unrecoverable e), w, p) \<Rightarrow>
          (Run_ended, (note_exception (Unrecoverable e) w)
             \<lparr>wp_peer_state := (if wp_stopping w then ''stopped'' else ''failed''), wp_ice_state := ''closed''\<rparr>)
      | (r, w, p) \<Rightarrow>
          let w1 = (case r of Attempt_threw e \<Rightarrow> note_exception e w | _ \<Rightarrow> w);
              w2 = w1\<lparr>wp_peer_state := (if wp_stopping w1 then ''stopped'' else ''retrying''),
                      wp_ice_state := (if wp_stopping w1 then ''closed'' else ''disconnected'')\<rparr>
          in if wp_stopping w2 then (Run_ended, w2)
             else (Run_continues,
                   fst (whip_acts pause (w2\<lparr>wp_media := snd (discard_all (wp_media w2))\<rparr>, p))))"

fun whip_run ::
    "(attempt_env \<times> uplink_env list \<times> uplink_act list) list \<Rightarrow> whip_publisher \<Rightarrow> run_result \<times> whip_publisher" where
  "whip_run [] w = (Run_continues, w)"
| "whip_run ((env, passes, pause) # rest) w =
     (case whip_turn env passes pause w of
        (Run_continues, w1) \<Rightarrow> whip_run rest w1
      | r \<Rightarrow> r)"

end
