(* ===== verification/Whip_Uplink.thy ===== *)
theory Whip_Uplink
  imports Whip_Publisher
begin

text \<open>
  What the WHIP uplink of \<open>Whip_Publisher\<close> guarantees: the units it sends can be decoded, the
  resource it creates at the endpoint is deleted, its token stays on the endpoint's origin, and its
  thread ends when it is told to.
\<close>

section \<open>What the uplink sends\<close>

text \<open>\<open>unbroken stream sent tail\<close>: the units \<open>sent\<close> are taken from
  \<open>stream\<close> in order, and each is a keyframe, or it is no discontinuity and the unit right
  before it in the stream was sent right before it; \<open>tail\<close> says that the last unit of the
  stream was sent.\<close>

inductive unbroken :: "encoded_access_unit list \<Rightarrow> encoded_access_unit list \<Rightarrow> bool \<Rightarrow> bool" where
  cont_start: "unbroken [] [] False"
| cont_skip: "unbroken xs ys b \<Longrightarrow> unbroken (xs @ [u]) ys False"
| cont_key: "unbroken xs ys b \<Longrightarrow> au_keyframe u \<Longrightarrow> unbroken (xs @ [u]) (ys @ [u]) True"
| cont_next: "unbroken xs ys True \<Longrightarrow> \<not> au_discontinuity u \<Longrightarrow> unbroken (xs @ [u]) (ys @ [u]) True"

lemma cont_skips: "unbroken xs ys b \<Longrightarrow> \<exists>b'. unbroken (xs @ zs) ys b'"
proof (induction zs rule: rev_induct)
  case (snoc z zs)
  then show ?case by (metis append_assoc cont_skip)
qed auto

lemma cont_none: "\<exists>b. unbroken xs [] b"
  using cont_skips [OF cont_start, of xs] by simp

definition carries_unit :: "u8 list \<times> u32 \<Rightarrow> encoded_access_unit \<Rightarrow> bool" where
  "carries_unit sent u \<longleftrightarrow> fst sent = au_bytes u \<or> (\<exists>sei. fst sent = snd (insert_before_first_vcl (au_bytes u) sei))"

text \<open>The stream is what was consumed, what was lost since, and what is queued.  While the loop does not
  wait for a keyframe, the last unit consumed was sent, and the drop counter has moved by what was lost.\<close>

definition uplink_inv :: "whip_publisher \<times> uplink \<Rightarrow> bool" where
  "uplink_inv st \<longleftrightarrow>
     (\<exists>xs lost b. wp_stream (fst st) = xs @ lost @ bq_queue (wp_media (fst st)) \<and>
        unbroken xs (up_sources (snd st)) b \<and>
        (up_waiting (snd st) \<or> up_awaiting (snd st) \<or>
         b \<and> dropped (bq_stats (wp_media (fst st))) = up_observed (snd st) + of_nat (length lost))) \<and>
     list_all2 carries_unit (up_track (snd st)) (up_sources (snd st))"

lemma uplink_invI:
  "wp_stream w = xs @ lost @ bq_queue (wp_media w) \<Longrightarrow> unbroken xs (up_sources p) b \<Longrightarrow>
    up_waiting p \<or> up_awaiting p \<or> b \<and> dropped (bq_stats (wp_media w)) = up_observed p + of_nat (length lost) \<Longrightarrow>
    list_all2 carries_unit (up_track p) (up_sources p) \<Longrightarrow> uplink_inv (w, p)"
  unfolding uplink_inv_def by auto

lemma uplink_invE:
  assumes "uplink_inv (w, p)"
  obtains xs lost b where "wp_stream w = xs @ lost @ bq_queue (wp_media w)" "unbroken xs (up_sources p) b"
    "up_waiting p \<or> up_awaiting p \<or> b \<and> dropped (bq_stats (wp_media w)) = up_observed p + of_nat (length lost)"
    "list_all2 carries_unit (up_track p) (up_sources p)"
  using assms unfolding uplink_inv_def by auto

lemma push_stream:
  assumes "push u q = (ok, q')"
  shows "\<exists>lost. bq_queue q @ (if ok then [u] else []) = lost @ bq_queue q' \<and>
    dropped (bq_stats q') = dropped (bq_stats q) + of_nat (length lost)"
proof (cases "bq_shutdown q \<or> length (bq_queue q @ [u]) \<le> bq_capacity q")
  case True
  then show ?thesis using assms by (intro exI [of _ "[]"]) (auto simp: push_def Let_def split: if_splits)
next
  case False
  then show ?thesis using assms
    by (intro exI [of _ "[hd (bq_queue q @ [u])]"]) (auto simp: push_def Let_def split: if_splits)
qed

lemma pop_for_stream:
  "pop_for q = (r, q') \<Longrightarrow> bq_queue q = (case r of None \<Rightarrow> [] | Some u \<Rightarrow> [u]) @ bq_queue q' \<and>
     dropped (bq_stats q') = dropped (bq_stats q)"
  by (auto simp: pop_for_def take_front_def available_def split: if_splits list.splits)

definition media_fields :: "uplink \<Rightarrow> _" where
  "media_fields p = (up_sources p, up_track p, up_waiting p, up_awaiting p, up_observed p, up_location p)"

lemma whip_act_fields:
  assumes "whip_act a (w, p) = (w', p')"
  shows "media_fields p' = media_fields p \<and> (\<exists>zs. wp_stream w' = wp_stream w @ zs)"
  using assms by (cases a; auto simp: media_fields_def wp_publish_access_unit_def wp_publish_detections_def
      wp_stop_def split: if_splits prod.splits)

lemma whip_act_inv:
  assumes "uplink_inv st"
  shows "uplink_inv (whip_act a st)"
proof (cases a)
  case (Act_unit u)
  obtain w p where st: "st = (w, p)" by fastforce
  show ?thesis
  proof (cases "\<not> whip_enabled (wp_config w) \<or> wp_stopping w")
    case True
    then show ?thesis using assms Act_unit st by (simp add: wp_publish_access_unit_def)
  next
    case False
    obtain ok q where q: "push u (wp_media w) = (ok, q)" by fastforce
    from push_stream [OF q] obtain l where
      l: "bq_queue (wp_media w) @ (if ok then [u] else []) = l @ bq_queue q"
         "dropped (bq_stats q) = dropped (bq_stats (wp_media w)) + of_nat (length l)" by blast
    from assms [unfolded st] show ?thesis
    proof (rule uplink_invE)
      fix xs lost b
      assume i: "wp_stream w = xs @ lost @ bq_queue (wp_media w)" "unbroken xs (up_sources p) b"
        "up_waiting p \<or> up_awaiting p \<or> b \<and> dropped (bq_stats (wp_media w)) = up_observed p + of_nat (length lost)"
        "list_all2 carries_unit (up_track p) (up_sources p)"
      have "wp_stream w @ (if ok then [u] else []) = xs @ (lost @ l) @ bq_queue q"
        using i(1) l(1) by simp
      then show ?thesis
        using i(2,3,4) False Act_unit q l(2) st
        by (auto simp: wp_publish_access_unit_def intro: uplink_invI [where xs = xs and lost = "lost @ l" and b = b])
    qed
  qed
qed (use assms in \<open>cases st; auto simp: uplink_inv_def wp_publish_detections_def wp_stop_def shutdown_def\<close>)+

lemma whip_acts_inv: "uplink_inv st \<Longrightarrow> uplink_inv (whip_acts as st)"
  by (induction as arbitrary: st) (simp_all only: fold.simps id_apply o_apply whip_act_inv)

lemma whip_acts_media:
  "whip_acts as (w, p) = (w', p') \<Longrightarrow>
    media_fields p' = media_fields p \<and> (\<exists>zs. wp_stream w' = wp_stream w @ zs)"
proof (induction as arbitrary: w p)
  case (Cons a as)
  obtain w1 p1 where 1: "whip_act a (w, p) = (w1, p1)" by fastforce
  with Cons.prems have "whip_acts as (w1, p1) = (w', p')" by simp
  from Cons.IH [OF this] whip_act_fields [OF 1] show ?case by auto
qed simp

lemmas whip_acts_fields = whip_acts_media [unfolded media_fields_def prod.inject]

lemma quiet_acts:
  "whip_acts as (w, p) = (w', p') \<Longrightarrow> (\<forall>u. Act_unit u \<notin> set as) \<Longrightarrow>
    bq_queue (wp_media w') = bq_queue (wp_media w) \<and> wp_stream w' = wp_stream w \<and>
    dropped (bq_stats (wp_media w')) = dropped (bq_stats (wp_media w))"
proof (induction as arbitrary: w p)
  case (Cons a as)
  obtain w1 p1 where 1: "whip_act a (w, p) = (w1, p1)" by fastforce
  then have "bq_queue (wp_media w1) = bq_queue (wp_media w) \<and> wp_stream w1 = wp_stream w \<and>
      dropped (bq_stats (wp_media w1)) = dropped (bq_stats (wp_media w))"
    using Cons.prems(2)
    by (cases a) (auto simp: wp_publish_detections_def wp_stop_def shutdown_def split: if_splits)
  with Cons.IH [of w1 p1] Cons.prems 1 show ?case by simp
qed simp

lemma send_unit_fields:
  assumes "send_unit env u (w, p) = (r, w', p')"
  shows "wp_stream w' = wp_stream w" "wp_media w' = wp_media w" "up_sources p' = up_sources p @ [u]"
    "up_awaiting p' = up_awaiting p" "up_observed p' = up_observed p"
    "\<exists>t. up_track p' = up_track p @ [t] \<and> carries_unit t u"
  using assms
  by (auto simp: send_unit_def wp_note_def carries_unit_def Let_def split: send_outcome.splits prod.splits if_splits)

lemma forward_unit_stream: "forward_unit env u (w, p) = (r, w', p') \<Longrightarrow> wp_stream w' = wp_stream w"
  using send_unit_fields(1) by (fastforce simp: forward_unit_def Let_def split: if_splits)

text \<open>The unit that a pass takes, on the state left by the pop.\<close>

lemma forward_unit_inv:
  assumes inv: "unbroken xs (up_sources p) b" "list_all2 carries_unit (up_track p) (up_sources p)"
    and chain: "up_waiting p \<or> b \<and> dropped (bq_stats (wp_media w)) = up_observed p + of_nat (length lost)"
    and stream: "wp_stream w = xs @ lost @ u # bq_queue (wp_media w)" "length lost < 2 ^ 64"
    and fwd: "forward_unit env u (w, p) = (r, w', p')"
  shows "uplink_inv (w', p')"
proof -
  define p1 where "p1 = p\<lparr>up_waiting := up_waiting p \<or> au_discontinuity u \<or> dropped (bq_stats (wp_media w)) \<noteq> up_observed p,
    up_observed := dropped (bq_stats (wp_media w))\<rparr>"
  have run: "(if up_waiting p1 \<and> \<not> au_keyframe u then (Loop_running, w, p1) else send_unit env u (w, p1)) = (r, w', p')"
    using fwd by (simp only: forward_unit_def Let_def prod.case p1_def)
  obtain b' where skip: "unbroken (xs @ lost) (up_sources p) b'" using cont_skips [OF inv(1)] by blast
  have split: "wp_stream w = ((xs @ lost) @ [u]) @ [] @ bq_queue (wp_media w)" using stream(1) by simp
  show ?thesis
  proof (cases "up_waiting p1 \<and> \<not> au_keyframe u")
    case True
    then have "w' = w" "p' = p1" using run by simp_all
    then show ?thesis
      using True cont_skip [OF skip, of u] split inv(2)
      by (intro uplink_invI [where xs = "(xs @ lost) @ [u]" and lost = "[]" and b = False]) (simp_all add: p1_def)
  next
    case False
    then have send: "send_unit env u (w, p1) = (r, w', p')" using run by (simp only: if_False)
    have "unbroken ((xs @ lost) @ [u]) (up_sources p @ [u]) True"
    proof (cases "au_keyframe u")
      case True
      then show ?thesis by (rule cont_key [OF skip])
    next
      case not_key: False
      then have "\<not> up_waiting p" "\<not> au_discontinuity u" "dropped (bq_stats (wp_media w)) = up_observed p"
        using False by (auto simp: p1_def)
      with chain have "b" "(of_nat (length lost) :: u64) = 0" by auto
      then have "b" "lost = []" using stream(2) by (auto simp: of_nat_word_zero)
      then show ?thesis using cont_next inv(1) \<open>\<not> au_discontinuity u\<close> by auto
    qed
    then show ?thesis
      using send_unit_fields [OF send] split inv(2)
      by (intro uplink_invI [where xs = "(xs @ lost) @ [u]" and lost = "[]" and b = True])
         (auto simp: p1_def intro: list_all2_appendI)
  qed
qed

lemma uplink_inv_resume:
  "uplink_inv (w, p) \<Longrightarrow>
    uplink_inv (w, (if up_awaiting p then p\<lparr>up_waiting := True, up_awaiting := False\<rparr> else p)
      \<lparr>up_opened := True, up_closed_at := None\<rparr>)"
  by (auto simp: uplink_inv_def)

lemma open_pass_inv:
  assumes inv: "uplink_inv (w0, p0)" and pass: "open_pass env (w0, p0) = (r, w', p')"
    and quiet: "\<forall>u. Act_unit u \<notin> set (ue_reading env)" and small: "length (wp_stream w') < 2 ^ 64"
  shows "uplink_inv (w', p') \<and> (\<exists>zs. wp_stream w' = wp_stream w0 @ zs)"
proof -
  let ?p1 = "(if up_awaiting p0 then p0\<lparr>up_waiting := True, up_awaiting := False\<rparr> else p0)
      \<lparr>up_opened := True, up_closed_at := None\<rparr>"
  obtain w1 p2 where acts: "whip_acts (ue_waiting env) (w0, ?p1) = (w1, p2)" by fastforce
  obtain x q where pop: "pop_for (wp_media w1) = (x, q)" by fastforce
  obtain dq sel where drain: "drain_detections (wp_detections w1) (up_selector p2) = (dq, sel)" by fastforce
  define w2 where "w2 = w1\<lparr>wp_media := q, wp_detections := dq\<rparr>"
  define p3 where "p3 = p2\<lparr>up_selector := sel\<rparr>"
  obtain w3 p4 where read: "whip_acts (ue_reading env) (w2, p3) = (w3, p4)" by fastforce
  have run: "(r, w', p') = (case x of None \<Rightarrow> (Loop_running, w2, p3) | Some u \<Rightarrow> forward_unit env u (w3, p4))"
    using pass acts pop drain read by (cases x) (auto simp: open_pass_def w2_def p3_def Let_def)
  have "uplink_inv (w1, p2)"
    using whip_acts_inv [OF uplink_inv_resume [OF inv], of "ue_waiting env"] acts by simp
  then obtain xs lost b where i: "wp_stream w1 = xs @ lost @ bq_queue (wp_media w1)" "unbroken xs (up_sources p2) b"
    "up_waiting p2 \<or> up_awaiting p2 \<or> b \<and> dropped (bq_stats (wp_media w1)) = up_observed p2 + of_nat (length lost)"
    "list_all2 carries_unit (up_track p2) (up_sources p2)"
    by (rule uplink_invE)
  have chain: "up_waiting p2 \<or> b \<and> dropped (bq_stats (wp_media w1)) = up_observed p2 + of_nat (length lost)"
    using i(3) whip_acts_fields [OF acts] by (auto split: if_splits)
  note ps = pop_for_stream [OF pop]
  have grows: "\<exists>zs. wp_stream w1 = wp_stream w0 @ zs" using whip_acts_fields [OF acts] by simp
  show ?thesis
  proof (cases x)
    case None
    then have "w' = w2" "p' = p3" using run by auto
    moreover have "uplink_inv (w2, p3)"
      using i chain ps None by (intro uplink_invI [where xs = xs and lost = lost and b = b]) (auto simp: w2_def p3_def)
    ultimately show ?thesis using grows by (simp add: w2_def)
  next
    case (Some u)
    have q: "bq_queue (wp_media w3) = bq_queue q" "wp_stream w3 = wp_stream w1"
      "dropped (bq_stats (wp_media w3)) = dropped (bq_stats (wp_media w1))"
      using quiet_acts [OF read quiet] ps by (auto simp: w2_def)
    have fwd: "forward_unit env u (w3, p4) = (r, w', p')" using run Some by simp
    have stream: "wp_stream w3 = xs @ lost @ u # bq_queue (wp_media w3)" using i(1) ps q Some by simp
    moreover have same: "wp_stream w' = wp_stream w3" by (rule forward_unit_stream [OF fwd])
    ultimately have "length lost < 2 ^ 64" using small by simp
    with forward_unit_inv [OF _ _ _ stream _ fwd, of b] i chain q whip_acts_fields [OF read] grows same
    show ?thesis by (auto simp: p3_def)
  qed
qed

lemma uplink_inv_media:
  "media_fields p' = media_fields p \<Longrightarrow> uplink_inv (w, p') = uplink_inv (w, p)"
  by (simp add: uplink_inv_def media_fields_def)

lemma closed_pass_result:
  assumes "closed_pass env (w, p) = (r, w', p')"
  shows "wp_stream w' = wp_stream w"
    and "r \<noteq> Loop_running \<Longrightarrow> w' = w \<and> media_fields p' = media_fields p"
    and "r = Loop_running \<Longrightarrow> w' = (if up_awaiting p then w else w\<lparr>wp_media := snd (discard_all (wp_media w))\<rparr>) \<and>
      media_fields p' = media_fields (p\<lparr>up_awaiting := True\<rparr>)"
  using assms by (auto simp: closed_pass_def media_fields_def Let_def split: if_splits)

lemma closed_pass_inv:
  assumes "uplink_inv (w, p)" "closed_pass env (w, p) = (r, w', p')"
  shows "uplink_inv (w', p')"
proof (cases "r = Loop_running")
  case False
  then show ?thesis using closed_pass_result(2) [OF assms(2)] assms(1) uplink_inv_media by metis
next
  case True
  from assms(1) obtain xs lost b where i: "wp_stream w = xs @ lost @ bq_queue (wp_media w)" "unbroken xs (up_sources p) b"
    "list_all2 carries_unit (up_track p) (up_sources p)" by (rule uplink_invE)
  then have "uplink_inv (w', p\<lparr>up_awaiting := True\<rparr>)"
    using closed_pass_result(3) [OF assms(2) True]
    by (intro uplink_invI [where xs = xs and lost = "lost @ (if up_awaiting p then [] else bq_queue (wp_media w))" and b = b])
       (simp_all add: discard_all_def)
  then show ?thesis using closed_pass_result(3) [OF assms(2) True] uplink_inv_media by metis
qed

lemma open_pass_grows:
  assumes "open_pass env (w0, p0) = (r, w', p')"
  shows "\<exists>zs. wp_stream w' = wp_stream w0 @ zs"
proof -
  let ?p1 = "(if up_awaiting p0 then p0\<lparr>up_waiting := True, up_awaiting := False\<rparr> else p0)
      \<lparr>up_opened := True, up_closed_at := None\<rparr>"
  obtain w1 p2 where acts: "whip_acts (ue_waiting env) (w0, ?p1) = (w1, p2)" by fastforce
  obtain x q where pop: "pop_for (wp_media w1) = (x, q)" by fastforce
  obtain dq sel where drain: "drain_detections (wp_detections w1) (up_selector p2) = (dq, sel)" by fastforce
  let ?s = "(w1\<lparr>wp_media := q, wp_detections := dq\<rparr>, p2\<lparr>up_selector := sel\<rparr>)"
  obtain w3 p4 where read: "whip_acts (ue_reading env) ?s = (w3, p4)" by fastforce
  have "wp_stream w' = wp_stream w1 \<or> wp_stream w' = wp_stream w3"
    using assms acts pop drain read forward_unit_stream [of env _ w3 p4 r w' p']
    by (cases x) (auto simp: open_pass_def Let_def)
  then show ?thesis using whip_acts_fields [OF acts] whip_acts_fields [OF read] by auto
qed

lemma uplink_pass_cases:
  assumes "uplink_pass env st = (r, w', p')"
  obtains (ended) "r \<noteq> Loop_running" "(w', p') = whip_acts (ue_before env) st"
  | (closed) w p where "(w, p) = whip_acts (ue_between env) (whip_acts (ue_before env) st)"
      "closed_pass env (w, p) = (r, w', p')"
  | (opened) w p where "(w, p) = whip_acts (ue_between env) (whip_acts (ue_before env) st)"
      "open_pass env (w, p) = (r, w', p')"
proof -
  obtain w p where 1: "whip_acts (ue_before env) st = (w, p)" by fastforce
  obtain w1 p1 where 2: "whip_acts (ue_between env) (w, p) = (w1, p1)" by fastforce
  from assms have "r \<noteq> Loop_running \<and> (w', p') = (w, p) \<or> closed_pass env (w1, p1) = (r, w', p') \<or>
      open_pass env (w1, p1) = (r, w', p')"
    by (auto simp: uplink_pass_def 1 2 split: if_splits)
  then show ?thesis using ended closed [of w1 p1] opened [of w1 p1] 1 2 by simp blast
qed

lemma acts_grow: "(w', p') = whip_acts as st \<Longrightarrow> \<exists>zs. wp_stream w' = wp_stream (fst st) @ zs"
  using whip_acts_fields [of as "fst st" "snd st" w' p'] by simp

lemma acts_grow2:
  "(w', p') = whip_acts bs (whip_acts as st) \<Longrightarrow> \<exists>zs. wp_stream w' = wp_stream (fst st) @ zs"
  using acts_grow [of "fst (whip_acts as st)" "snd (whip_acts as st)" as st]
    acts_grow [of w' p' bs "whip_acts as st"] by auto

lemma uplink_pass_grows:
  assumes "uplink_pass env st = (r, w', p')"
  shows "\<exists>zs. wp_stream w' = wp_stream (fst st) @ zs"
  using assms
proof (cases rule: uplink_pass_cases)
  case (closed w p)
  then show ?thesis using acts_grow2 [OF closed(1)] closed_pass_result(1) by metis
next
  case (opened w p)
  then show ?thesis using acts_grow2 [OF opened(1)] open_pass_grows [OF opened(2)] by auto
qed (rule acts_grow)

lemma uplink_pass_inv:
  assumes "uplink_inv st" "uplink_pass env st = (r, w', p')" "\<forall>u. Act_unit u \<notin> set (ue_reading env)"
    "length (wp_stream w') < 2 ^ 64"
  shows "uplink_inv (w', p')"
  using assms(2)
proof (cases rule: uplink_pass_cases)
  case ended
  then show ?thesis using whip_acts_inv [OF assms(1)] by simp
next
  case (closed w p)
  then show ?thesis using closed_pass_inv whip_acts_inv assms(1) by metis
next
  case (opened w p)
  then show ?thesis using open_pass_inv [OF _ opened(2)] whip_acts_inv assms by metis
qed

lemma uplink_loop_grows: "uplink_loop envs st = (r, w', p') \<Longrightarrow> \<exists>zs. wp_stream w' = wp_stream (fst st) @ zs"
proof (induction envs arbitrary: st)
  case (Cons env envs)
  obtain x w1 p1 where 1: "uplink_pass env st = (x, w1, p1)" by (cases "uplink_pass env st") auto
  from uplink_pass_grows [OF 1] Cons.IH [of "(w1, p1)"] Cons.prems 1 show ?case by (cases x) auto
qed auto

lemma uplink_loop_inv:
  assumes "uplink_inv st" "uplink_loop envs st = (r, w', p')" "length (wp_stream w') < 2 ^ 64"
    "\<forall>env \<in> set envs. \<forall>u. Act_unit u \<notin> set (ue_reading env)"
  shows "uplink_inv (w', p')"
  using assms
proof (induction envs arbitrary: st)
  case (Cons env envs)
  obtain x w1 p1 where 1: "uplink_pass env st = (x, w1, p1)" by (cases "uplink_pass env st") auto
  show ?case
  proof (cases "x = Loop_running")
    case True
    then have rest: "uplink_loop envs (w1, p1) = (r, w', p')" using Cons.prems(2) 1 by simp
    from uplink_loop_grows [OF rest] have "length (wp_stream w1) < 2 ^ 64" using Cons.prems(3) by auto
    then have "uplink_inv (w1, p1)" using uplink_pass_inv [OF Cons.prems(1) 1] Cons.prems(4) by simp
    then show ?thesis using Cons.IH [OF _ rest] Cons.prems by simp
  next
    case False
    then have "(w', p') = (w1, p1)" using Cons.prems(2) 1 by (cases x) auto
    then show ?thesis using uplink_pass_inv [OF Cons.prems(1) 1] Cons.prems by simp
  qed
qed simp

text \<open>The part of an attempt before the loop.\<close>

fun opening_state :: "open_result \<Rightarrow> whip_publisher \<times> uplink" where
  "opening_state (Opening_waits w p) = (w, p)"
| "opening_state (Opening_returned w p) = (w, p)"
| "opening_state (Opening_threw e w p) = (w, p)"
| "opening_state (Opening_done w p) = (w, p)"

lemma whip_gather_acts: "\<exists>as. snd (whip_gather deadline turns st) = whip_acts as st"
proof (induction turns arbitrary: st)
  case Nil
  show ?case by (rule exI [of _ "[]"]) simp
next
  case (Cons t turns)
  obtain acts now1 now2 where t: "t = (acts, now1, now2)" by (cases t) auto
  obtain w p where 1: "whip_acts acts st = (w, p)" by fastforce
  from Cons.IH [of "(w, p)"] obtain bs where 2: "snd (whip_gather deadline turns (w, p)) = whip_acts bs (w, p)"
    by blast
  show ?case
    by (rule exI [of _ "acts @ (if wait_for_gathering deadline [(up_peer p, wp_stopping w, now1, now2)] = None then bs else [])"])
       (auto simp: t 1 2 split: option.splits)
qed

lemma open_uplink_acts:
  obtains as where "opening_state (open_uplink env st) = whip_acts as st" "\<forall>w p. open_uplink env st \<noteq> Opening_done w p"
  | as sdp where "open_uplink env st = post_offer env sdp (whip_acts as st)"
proof -
  obtain r w p where g: "whip_gather (ae_now env + seconds 5) (ae_gather env) st = (r, w, p)"
    by (cases "whip_gather (ae_now env + seconds 5) (ae_gather env) st") auto
  from whip_gather_acts [of "ae_now env + seconds 5" "ae_gather env" st] g
  obtain as where as: "(w, p) = whip_acts as st" by auto
  obtain w1 p1 where bs: "whip_acts (ae_gathered env) (w, p) = (w1, p1)" by fastforce
  then have both: "whip_acts (as @ ae_gathered env) st = (w1, p1)" using as by simp
  show ?thesis
  proof (cases "ae_local_error env = None \<and> r = Some True \<and> \<not> wp_stopping w1 \<and> ae_offer env \<noteq> None")
    case True
    then show ?thesis using that(2) [of "the (ae_offer env)" "as @ ae_gathered env"] g bs both
      by (auto simp: open_uplink_def)
  next
    case False
    then have "opening_state (open_uplink env st) \<in> {st, (w, p), (w1, p1)} \<and>
        (\<forall>w p. open_uplink env st \<noteq> Opening_done w p)"
      using g bs by (auto simp: open_uplink_def split: option.splits)
    then show ?thesis using that(1) [of "[]"] that(1) [of as] that(1) [of "as @ ae_gathered env"] as both by auto
  qed
qed

lemma send_request_fields:
  "send_request t rq w = (res, w') \<Longrightarrow> wp_stream w' = wp_stream w \<and> wp_media w' = wp_media w"
  by (auto simp: send_request_def split: if_splits)

lemma post_offer_inv:
  assumes "uplink_inv (w, p)"
  shows "uplink_inv (opening_state (post_offer env sdp (w, p)))"
proof -
  obtain res w1 where r: "send_request (ae_post env) (build_request (whip_url (wp_config w)) ''POST'' sdp (wp_token w)) w = (res, w1)"
    by fastforce
  from assms obtain xs lost b where i: "wp_stream w = xs @ lost @ bq_queue (wp_media w)" "unbroken xs (up_sources p) b"
    "list_all2 carries_unit (up_track p) (up_sources p)" by (rule uplink_invE)
  have "uplink_inv (w1, p)" using assms send_request_fields [OF r] by (simp add: uplink_inv_def)
  moreover have "uplink_inv (w1, p\<lparr>up_location := l\<rparr>)" for l
    using calculation by (simp add: uplink_inv_def)
  moreover have "uplink_inv (wp_note lv x w1, q)"
    if "up_waiting q" "up_sources q = up_sources p" "up_track q = up_track p" for lv x q
    using that i send_request_fields [OF r] by (intro uplink_invI [where xs = xs and lost = lost and b = b]) (simp_all add: wp_note_def)
  ultimately show ?thesis
    by (auto simp: post_offer_def r Let_def split: sum.splits option.splits)
qed

lemma open_uplink_inv: "uplink_inv st \<Longrightarrow> uplink_inv (opening_state (open_uplink env st))"
  by (rule open_uplink_acts [of env st]) (metis whip_acts_inv post_offer_inv prod.collapse)+

lemma close_resource_fields:
  "wp_stream (close_resource env (w, p)) = wp_stream w" "wp_media (close_resource env (w, p)) = wp_media w"
  by (auto simp: close_resource_def wp_note_def send_request_def Let_def split: sum.splits)

text \<open>How an attempt ends: before the peer exists, before the loop, or in it; then the resource is closed
  unless the attempt returned before it asked for one or is still inside.\<close>

lemma run_attempt_result:
  assumes "run_attempt env passes st = (r, w', p)"
  obtains (before) v where "(v, p) = opening_state (open_uplink env st)" "\<forall>a b. open_uplink env st \<noteq> Opening_done a b"
      "w' = (if r = Attempt_running \<or> r = Attempt_returned then v else close_resource env (v, p))"
      "r = Attempt_returned \<Longrightarrow> \<exists>a b. open_uplink env st = Opening_returned a b"
  | (inside) v0 q0 x v where "open_uplink env st = Opening_done v0 q0" "uplink_loop passes (v0, q0) = (x, v, p)"
      "w' = (if r = Attempt_running then v else close_resource env (v, p))"
proof (cases "open_uplink env st")
  case (Opening_done v0 q0)
  obtain x v q where l: "uplink_loop passes (v0, q0) = (x, v, q)" by (cases "uplink_loop passes (v0, q0)") auto
  have "q = p \<and> w' = (if r = Attempt_running then v else close_resource env (v, p))"
    using assms Opening_done l by (cases x) (auto simp: run_attempt_def)
  then show ?thesis using inside Opening_done l by blast
next
  case (Opening_waits v q)
  then show ?thesis using assms by (intro before [of v]) (simp_all add: run_attempt_def)
next
  case (Opening_returned v q)
  then show ?thesis using assms by (intro before [of v]) (simp_all add: run_attempt_def)
next
  case (Opening_threw e v q)
  then show ?thesis using assms by (intro before [of v]) (auto simp: run_attempt_def)
qed

lemma publish_once_result:
  assumes "publish_once env passes w = (r, w', p)"
  obtains (unstarted) "r \<noteq> Attempt_running" "p = new_uplink w'" "wp_stream w' = wp_stream w" "wp_media w' = wp_media w"
      "wp_requests w' = wp_requests w" "wp_config w' = wp_config w"
  | (attempt) w2 where "run_attempt env passes (w2, new_uplink w2) = (r, w', p)" "wp_stream w2 = wp_stream w"
      "wp_media w2 = wp_media w" "wp_requests w2 = wp_requests w" "wp_config w2 = wp_config w"
      "wp_token w2 = load_token (ae_token env)"
proof -
  define w1 where "w1 = w\<lparr>wp_token := load_token (ae_token env)\<rparr>"
  define w2 where "w2 = w1\<lparr>wp_peer_state := ''new'', wp_ice_state := ''new'', wp_conn_error := []\<rparr>"
  have same: "wp_stream v = wp_stream w \<and> wp_media v = wp_media w \<and> wp_requests v = wp_requests w \<and>
      wp_config v = wp_config w \<and> wp_token v = load_token (ae_token env)" if "v = w1 \<or> v = w2" for v
    using that by (auto simp: w1_def w2_def)
  have run: "(r, w', p) = (if wp_token w1 = []
      then (Attempt_threw (Std_exception ''WHIP_TOKEN is unavailable''), w1, new_uplink w1)
      else case ae_setup_error env of Some e \<Rightarrow> (Attempt_threw e, w2, new_uplink w2)
        | None \<Rightarrow> run_attempt env passes (w2, new_uplink w2))"
    using assms by (simp only: publish_once_def Let_def w1_def w2_def)
  show thesis
  proof (cases "wp_token w1 = [] \<or> ae_setup_error env \<noteq> None")
    case True
    then have "r \<noteq> Attempt_running" "w' = w1 \<or> w' = w2" "p = new_uplink w'"
      using run by (auto split: if_splits)
    then show thesis using unstarted same by blast
  next
    case False
    then have "run_attempt env passes (w2, new_uplink w2) = (r, w', p)" using run by simp
    then show thesis using attempt same by blast
  qed
qed

lemma publish_once_inv:
  assumes "suffix (bq_queue (wp_media w)) (wp_stream w)" "publish_once env passes w = (r, w', p)"
    "length (wp_stream w') < 2 ^ 64" "\<forall>pass \<in> set passes. \<forall>u. Act_unit u \<notin> set (ue_reading pass)"
  shows "uplink_inv (w', p)"
proof -
  have start: "uplink_inv (v, new_uplink v)" if "wp_stream v = wp_stream w" "wp_media v = wp_media w" for v
  proof -
    from assms(1) obtain ys where ys: "wp_stream w = ys @ bq_queue (wp_media w)" by (auto elim: suffixE)
    obtain b where "unbroken ys [] b" using cont_none by blast
    with ys that show ?thesis
      by (intro uplink_invI [where xs = ys and lost = "[]" and b = b]) (simp_all add: new_uplink_def)
  qed
  have closed: "uplink_inv (close_resource e (v, q), q)" if "uplink_inv (v, q)" for e v q
    using that by (simp add: uplink_inv_def close_resource_fields)
  from assms(2) show ?thesis
  proof (cases rule: publish_once_result)
    case unstarted
    then show ?thesis using start by simp
  next
    case (attempt w2)
    have opened: "uplink_inv (opening_state (open_uplink env (w2, new_uplink w2)))"
      by (rule open_uplink_inv [OF start]) (use attempt in simp_all)
    from attempt(1) show ?thesis
    proof (cases rule: run_attempt_result)
      case (before v)
      then show ?thesis using opened closed by (metis (full_types))
    next
      case (inside v0 q0 x v)
      then have "length (wp_stream v) < 2 ^ 64" using assms(3) by (simp add: close_resource_fields split: if_splits)
      then have "uplink_inv (v, p)" using uplink_loop_inv [OF _ inside(2)] opened inside(1) assms(4) by simp
      then show ?thesis using inside(3) closed by simp
    qed
  qed
qed

section \<open>Requests\<close>

definition request_fields :: "whip_publisher \<times> uplink \<Rightarrow> _" where
  "request_fields st = (wp_requests (fst st), wp_config (fst st), wp_token (fst st), up_location (snd st))"

lemma whip_acts_requests [simp]: "request_fields (whip_acts as st) = request_fields st"
proof (induction as arbitrary: st)
  case (Cons a as)
  have "request_fields (whip_act a st) = request_fields st"
    by (cases st; cases a)
       (auto simp: request_fields_def wp_publish_access_unit_def wp_publish_detections_def wp_stop_def split: prod.splits)
  then show ?case using Cons by simp
qed simp

lemma send_unit_requests: "send_unit env u st = (r, st') \<Longrightarrow> request_fields st' = request_fields st"
  by (cases st) (auto simp: send_unit_def request_fields_def wp_note_def Let_def
      split: send_outcome.splits prod.splits if_splits)

lemma forward_unit_requests: "forward_unit env u st = (r, st') \<Longrightarrow> request_fields st' = request_fields st"
  using send_unit_requests [of env u _ r st']
  by (cases st) (fastforce simp: forward_unit_def request_fields_def Let_def split: if_splits)

lemma open_pass_requests:
  assumes "open_pass env (w0, p0) = (r, st')"
  shows "request_fields st' = request_fields (w0, p0)"
proof -
  let ?p1 = "(if up_awaiting p0 then p0\<lparr>up_waiting := True, up_awaiting := False\<rparr> else p0)
      \<lparr>up_opened := True, up_closed_at := None\<rparr>"
  obtain w1 p2 where acts: "whip_acts (ue_waiting env) (w0, ?p1) = (w1, p2)" by fastforce
  obtain x q where pop: "pop_for (wp_media w1) = (x, q)" by fastforce
  obtain dq sel where drain: "drain_detections (wp_detections w1) (up_selector p2) = (dq, sel)" by fastforce
  let ?s = "(w1\<lparr>wp_media := q, wp_detections := dq\<rparr>, p2\<lparr>up_selector := sel\<rparr>)"
  have "(r, st') = (case x of None \<Rightarrow> (Loop_running, ?s)
      | Some u \<Rightarrow> forward_unit env u (whip_acts (ue_reading env) ?s))"
    using assms acts pop drain by (cases x) (simp_all add: open_pass_def)
  then have "request_fields st' = request_fields ?s"
    using forward_unit_requests [of env _ "whip_acts (ue_reading env) ?s" r st'] by (cases x) simp_all
  also have "\<dots> = request_fields (w1, p2)" by (simp add: request_fields_def)
  also have "\<dots> = request_fields (w0, ?p1)" using whip_acts_requests [of "ue_waiting env" "(w0, ?p1)"] acts by simp
  finally show ?thesis by (simp add: request_fields_def)
qed

lemma closed_pass_requests: "closed_pass env (w, p) = (r, st') \<Longrightarrow> request_fields st' = request_fields (w, p)"
  by (auto simp: closed_pass_def request_fields_def Let_def split: if_splits)

lemma uplink_loop_requests: "uplink_loop envs st = (r, st') \<Longrightarrow> request_fields st' = request_fields st"
proof (induction envs arbitrary: st)
  case (Cons env envs)
  obtain x w1 p1 where 1: "uplink_pass env st = (x, w1, p1)" by (cases "uplink_pass env st") auto
  then have "request_fields (w1, p1) = request_fields st"
  proof (cases rule: uplink_pass_cases)
    case (closed w p)
    then show ?thesis using closed_pass_requests [OF closed(2)] by simp
  next
    case (opened w p)
    then show ?thesis using open_pass_requests [OF opened(2)] by simp
  qed simp
  then show ?case using Cons 1 by (cases x) auto
qed simp

text \<open>The resource the endpoint's answer to the offer names, if the publisher accepts it.\<close>

definition created_resource :: "string \<Rightarrow> transfer \<Rightarrow> string option" where
  "created_resource url post =
     (case perform post of
        Inl e \<Rightarrow> None
      | Inr r \<Rightarrow>
          if hr_status r = 201
          then (case whip_resource_url url (hr_location r) of Inl e \<Rightarrow> None | Inr l \<Rightarrow> Some l) else None)"

lemma whip_resource_url_nonempty: "whip_resource_url endpoint location = Inr url \<Longrightarrow> url \<noteq> []"
  by (auto simp: whip_resource_url_def Let_def split: if_splits)

lemma post_offer_requests:
  assumes "up_location p = []"
  shows "request_fields (opening_state (post_offer env sdp (w, p))) =
    (wp_requests w @ (if tr_init_ok (ae_post env) then [build_request (whip_url (wp_config w)) ''POST'' sdp (wp_token w)] else []),
     wp_config w, wp_token w, case created_resource (whip_url (wp_config w)) (ae_post env) of None \<Rightarrow> [] | Some l \<Rightarrow> l)"
  using assms
  by (auto simp: post_offer_def send_request_def created_resource_def request_fields_def wp_note_def Let_def
      split: sum.splits option.splits)

definition cleanup_request :: "attempt_env \<Rightarrow> string \<Rightarrow> string \<Rightarrow> http_request" where
  "cleanup_request env url token =
     build_request url ''DELETE'' []
       (if load_token (ae_delete_token env) = [] then token else load_token (ae_delete_token env))"

lemma close_resource_requests:
  "wp_requests (close_resource env (w, p)) = wp_requests w @
     (if up_location p \<noteq> [] \<and> tr_init_ok (ae_delete env) then [cleanup_request env (up_location p) (wp_token w)] else [])"
  "wp_config (close_resource env (w, p)) = wp_config w" "wp_token (close_resource env (w, p)) = wp_token w"
  by (auto simp: close_resource_def cleanup_request_def wp_note_def send_request_def Let_def split: sum.splits)

text \<open>The requests of an attempt that got as far as the offer.\<close>

definition offer_requests :: "attempt_env \<Rightarrow> string \<Rightarrow> string \<Rightarrow> string \<Rightarrow> http_request list" where
  "offer_requests env url token sdp =
     (if tr_init_ok (ae_post env) then [build_request url ''POST'' sdp token] else []) @
     (case created_resource url (ae_post env) of
        None \<Rightarrow> []
      | Some l \<Rightarrow> if tr_init_ok (ae_delete env) then [cleanup_request env l token] else [])"

lemma posted_requests:
  assumes "request_fields (v, p) = request_fields (opening_state (post_offer env sdp (whip_acts as (w, p0))))"
    and "up_location p0 = []"
  shows "wp_requests (close_resource env (v, p)) = wp_requests w @ offer_requests env (whip_url (wp_config w)) (wp_token w) sdp \<and>
    wp_config v = wp_config w \<and> wp_token v = wp_token w \<and> (\<exists>new. wp_requests v = wp_requests w @ new)"
proof -
  obtain w1 p1 where a: "whip_acts as (w, p0) = (w1, p1)" by fastforce
  then have f: "wp_requests w1 = wp_requests w" "wp_config w1 = wp_config w" "wp_token w1 = wp_token w" "up_location p1 = []"
    using whip_acts_requests [of as "(w, p0)"] assms(2) by (simp_all add: request_fields_def)
  have "created_resource u t \<noteq> Some []" for u t
    using whip_resource_url_nonempty by (auto simp: created_resource_def split: sum.splits if_splits)
  then show ?thesis
    using assms(1) post_offer_requests [OF f(4), of env sdp w1] a f
    by (auto simp: request_fields_def close_resource_requests offer_requests_def split: option.splits)
qed

lemma run_attempt_requests:
  assumes run: "run_attempt env passes (w, p0) = (r, w', p)" and new: "up_location p0 = []"
  shows "wp_config w' = wp_config w \<and> wp_token w' = wp_token w \<and>
    (wp_requests w' = wp_requests w \<or>
     (\<exists>sdp new. wp_requests w' = wp_requests w @ new \<and>
        prefix new (offer_requests env (whip_url (wp_config w)) (wp_token w) sdp) \<and>
        (r \<noteq> Attempt_running \<longrightarrow> new = offer_requests env (whip_url (wp_config w)) (wp_token w) sdp)))"
proof (cases "\<exists>as. opening_state (open_uplink env (w, p0)) = whip_acts as (w, p0) \<and>
    (\<forall>a b. open_uplink env (w, p0) \<noteq> Opening_done a b)")
  case True
  then obtain as where as: "opening_state (open_uplink env (w, p0)) = whip_acts as (w, p0)"
    "\<forall>a b. open_uplink env (w, p0) \<noteq> Opening_done a b" by blast
  from run obtain v where v: "(v, p) = opening_state (open_uplink env (w, p0))" "w' = v \<or> w' = close_resource env (v, p)"
    by (cases rule: run_attempt_result) (use as(2) in auto)
  have "request_fields (v, p) = request_fields (w, p0)" using v(1) as(1) by simp
  then show ?thesis using v(2) new by (auto simp: request_fields_def close_resource_requests)
next
  case False
  then obtain as sdp where o: "open_uplink env (w, p0) = post_offer env sdp (whip_acts as (w, p0))"
    by (metis open_uplink_acts)
  from run obtain v where v: "request_fields (v, p) = request_fields (opening_state (open_uplink env (w, p0)))"
    "w' = (if r = Attempt_running then v else close_resource env (v, p))"
  proof (cases rule: run_attempt_result)
    case (before v)
    have "r \<noteq> Attempt_returned" using before(4) o
      by (auto simp: post_offer_def Let_def split: prod.splits sum.splits option.splits if_splits)
    then show ?thesis using that [of v] before by simp
  next
    case (inside v0 q0 x v)
    then show ?thesis using that uplink_loop_requests [OF inside(2)] by simp
  qed
  then have p: "wp_requests (close_resource env (v, p)) = wp_requests w @ offer_requests env (whip_url (wp_config w)) (wp_token w) sdp"
    "wp_config v = wp_config w" "wp_token v = wp_token w" "\<exists>new. wp_requests v = wp_requests w @ new"
    using posted_requests [of v p env sdp as w p0] o new by auto
  moreover have "prefix (wp_requests v) (wp_requests (close_resource env (v, p)))"
    by (simp add: close_resource_requests)
  ultimately show ?thesis using v(2) by (cases "r = Attempt_running") (auto simp: close_resource_requests(2,3))
qed

section \<open>Attempts in a row\<close>

definition queue_of_stream :: "whip_publisher \<Rightarrow> bool" where
  "queue_of_stream w \<longleftrightarrow> suffix (bq_queue (wp_media w)) (wp_stream w)"

lemma whip_acts_queue: "queue_of_stream (fst st) \<Longrightarrow> queue_of_stream (fst (whip_acts as st))"
proof (induction as arbitrary: st)
  case (Cons a as)
  have "queue_of_stream (fst (whip_act a st))"
  proof (cases "\<exists>u. a = Act_unit u")
    case True
    then obtain u where a: "a = Act_unit u" by blast
    obtain ok q where q: "push u (wp_media (fst st)) = (ok, q)" by fastforce
    from Cons.prems obtain ys where "wp_stream (fst st) = ys @ bq_queue (wp_media (fst st))"
      by (auto simp: queue_of_stream_def elim: suffixE)
    with push_stream [OF q] have "suffix (bq_queue q) (wp_stream (fst st) @ (if ok then [u] else []))"
      by (auto simp: suffix_def)
    then show ?thesis using a q Cons.prems
      by (cases st) (auto simp: queue_of_stream_def wp_publish_access_unit_def)
  next
    case False
    then show ?thesis using Cons.prems
      by (cases st; cases a) (auto simp: queue_of_stream_def wp_publish_detections_def wp_stop_def shutdown_def)
  qed
  then show ?case using Cons.IH by simp
qed simp

lemma open_pass_queue:
  assumes "queue_of_stream w0" "open_pass env (w0, p0) = (r, w', p')"
  shows "queue_of_stream w'"
proof -
  let ?p1 = "(if up_awaiting p0 then p0\<lparr>up_waiting := True, up_awaiting := False\<rparr> else p0)
      \<lparr>up_opened := True, up_closed_at := None\<rparr>"
  obtain w1 p2 where acts: "whip_acts (ue_waiting env) (w0, ?p1) = (w1, p2)" by fastforce
  obtain x q where pop: "pop_for (wp_media w1) = (x, q)" by fastforce
  obtain dq sel where drain: "drain_detections (wp_detections w1) (up_selector p2) = (dq, sel)" by fastforce
  let ?s = "(w1\<lparr>wp_media := q, wp_detections := dq\<rparr>, p2\<lparr>up_selector := sel\<rparr>)"
  obtain w3 p4 where read: "whip_acts (ue_reading env) ?s = (w3, p4)" by fastforce
  have "queue_of_stream w1" using whip_acts_queue [of "(w0, ?p1)" "ue_waiting env"] assms(1) acts by simp
  then have "queue_of_stream (fst ?s)"
    using pop_for_stream [OF pop] by (auto simp: queue_of_stream_def suffix_def split: option.splits)
  moreover have "queue_of_stream w3" using whip_acts_queue [OF calculation, of "ue_reading env"] read by simp
  moreover have "w' = fst ?s \<or> (\<exists>u. forward_unit env u (w3, p4) = (r, w', p'))"
    using assms(2) acts pop drain read by (cases x) (auto simp: open_pass_def)
  moreover have "queue_of_stream w'" if "forward_unit env u (w3, p4) = (r, w', p')" "queue_of_stream w3" for u
    using that send_unit_fields(1,2) [of env u w3 _ r w' p']
    by (auto simp: forward_unit_def queue_of_stream_def Let_def split: if_splits)
  ultimately show ?thesis by blast
qed

lemma uplink_loop_queue: "uplink_loop envs st = (r, w', p') \<Longrightarrow> queue_of_stream (fst st) \<Longrightarrow> queue_of_stream w'"
proof (induction envs arbitrary: st)
  case (Cons env envs)
  obtain x w1 p1 where 1: "uplink_pass env st = (x, w1, p1)" by (cases "uplink_pass env st") auto
  then have "queue_of_stream w1"
  proof (cases rule: uplink_pass_cases)
    case (closed w p)
    have "queue_of_stream w" using closed(1) whip_acts_queue Cons.prems(2) by (metis fst_conv)
    then show ?thesis using closed_pass_result(2,3) [OF closed(2)]
      by (cases "x = Loop_running") (auto simp: queue_of_stream_def discard_all_def split: if_splits)
  next
    case (opened w p)
    then show ?thesis using open_pass_queue [OF _ opened(2)] whip_acts_queue Cons.prems(2) by (metis fst_conv)
  qed (use whip_acts_queue Cons.prems(2) in \<open>metis fst_conv\<close>)
  then show ?case using Cons 1 by (cases x) auto
qed simp

lemma post_offer_queue: "queue_of_stream (fst st) \<Longrightarrow> queue_of_stream (fst (opening_state (post_offer env sdp st)))"
  by (cases st) (auto simp: post_offer_def send_request_def queue_of_stream_def wp_note_def Let_def split: sum.splits option.splits)

lemma open_uplink_queue:
  "queue_of_stream (fst st) \<Longrightarrow> queue_of_stream (fst (opening_state (open_uplink env st)))"
  by (rule open_uplink_acts [of env st]) (metis whip_acts_queue post_offer_queue)+

lemma publish_once_queue:
  assumes "publish_once env passes w = (r, w', p)" "queue_of_stream w"
  shows "queue_of_stream w'"
  using assms(1)
proof (cases rule: publish_once_result)
  case unstarted
  then show ?thesis using assms(2) by (simp add: queue_of_stream_def)
next
  case (attempt w2)
  have opened: "queue_of_stream (fst (opening_state (open_uplink env (w2, new_uplink w2))))"
    by (rule open_uplink_queue) (use attempt assms(2) in \<open>simp add: queue_of_stream_def\<close>)
  have closed: "queue_of_stream (close_resource env (v, q)) = queue_of_stream v" for v q
    by (simp add: queue_of_stream_def close_resource_fields)
  from attempt(1) show ?thesis
  proof (cases rule: run_attempt_result)
    case (before v)
    then show ?thesis using opened closed by (metis fst_conv)
  next
    case (inside v0 q0 x v)
    then show ?thesis using uplink_loop_queue [OF inside(2)] opened closed by simp
  qed
qed

lemma note_exception_fields [simp]:
  "wp_requests (note_exception e w) = wp_requests w" "wp_config (note_exception e w) = wp_config w"
  "wp_stopping (note_exception e w) = wp_stopping w"
  by (simp_all add: note_exception_def wp_note_def)

text \<open>How a turn continues after its attempt: the thread ends after an unrecoverable error or when it was
  stopped, and only otherwise starts another attempt, with the media queue emptied before the pause.\<close>

lemma whip_turn_result:
  assumes turn: "whip_turn env passes pause w = (r, w')" and "\<not> wp_stopping w"
    and once: "publish_once env passes w = (x, v, p)"
  shows "wp_requests w' = wp_requests v \<and> wp_config w' = wp_config v"
    and "r = (if x = Attempt_running then Run_inside
              else if wp_stopping v \<or> (\<exists>e. x = Attempt_threw (Unrecoverable e)) then Run_ended else Run_continues)"
    and "r = Run_continues \<Longrightarrow> queue_of_stream w'"
proof -
  let ?u = "case x of Attempt_threw e \<Rightarrow> note_exception e v | _ \<Rightarrow> v"
  let ?s = "?u\<lparr>wp_peer_state := (if wp_stopping ?u then ''stopped'' else ''retrying''),
               wp_ice_state := (if wp_stopping ?u then ''closed'' else ''disconnected'')\<rparr>"
  let ?d = "?s\<lparr>wp_media := snd (discard_all (wp_media ?s))\<rparr>"
  have u: "wp_requests ?u = wp_requests v" "wp_config ?u = wp_config v" "wp_stopping ?u = wp_stopping v"
    by (simp_all split: attempt_result.split)
  have plain: "whip_turn env passes pause w =
      (if wp_stopping v then (Run_ended, ?s) else (Run_continues, fst (whip_acts pause (?d, p))))"
    if "x \<noteq> Attempt_running" "\<forall>e. x \<noteq> Attempt_threw (Unrecoverable e)"
    using that assms(2) once
    by (cases x; simp add: whip_turn_def Let_def split: whip_exn.split)
  have fields: "wp_requests (fst (whip_acts pause (?d, p))) = wp_requests v \<and>
      wp_config (fst (whip_acts pause (?d, p))) = wp_config v"
    using whip_acts_requests [of pause "(?d, p)"] u by (simp add: request_fields_def)
  have queue: "queue_of_stream (fst (whip_acts pause (?d, p)))"
    by (rule whip_acts_queue) (simp add: queue_of_stream_def discard_all_def)
  consider "x = Attempt_running" | e where "x = Attempt_threw (Unrecoverable e)"
    | "x \<noteq> Attempt_running" "\<forall>e. x \<noteq> Attempt_threw (Unrecoverable e)" by blast
  then have "(wp_requests w' = wp_requests v \<and> wp_config w' = wp_config v) \<and>
      r = (if x = Attempt_running then Run_inside
           else if wp_stopping v \<or> (\<exists>e. x = Attempt_threw (Unrecoverable e)) then Run_ended else Run_continues) \<and>
      (r = Run_continues \<longrightarrow> queue_of_stream w')"
  proof cases
    case 3
    then show ?thesis using turn plain fields queue u by (auto split: if_splits)
  qed (use turn once assms(2) in \<open>auto simp: whip_turn_def\<close>)
  then show "wp_requests w' = wp_requests v \<and> wp_config w' = wp_config v"
    "r = (if x = Attempt_running then Run_inside
          else if wp_stopping v \<or> (\<exists>e. x = Attempt_threw (Unrecoverable e)) then Run_ended else Run_continues)"
    "r = Run_continues \<Longrightarrow> queue_of_stream w'" by blast+
qed

lemma whip_run_queue:
  "whip_run ts w = (Run_continues, w') \<Longrightarrow> queue_of_stream w \<Longrightarrow> queue_of_stream w'"
proof (induction ts arbitrary: w)
  case (Cons t ts)
  obtain env passes pause where t: "t = (env, passes, pause)" by (cases t) auto
  obtain r w1 where 1: "whip_turn env passes pause w = (r, w1)" by fastforce
  obtain x v p where once: "publish_once env passes w = (x, v, p)" by (cases "publish_once env passes w") auto
  have "r = Run_continues" using Cons.prems(1) 1 t by (cases r) auto
  moreover have "\<not> wp_stopping w" using calculation 1 by (auto simp: whip_turn_def)
  ultimately have "queue_of_stream w1" using whip_turn_result(3) [OF 1 _ once] by simp
  then show ?case using Cons.IH Cons.prems(1) 1 t \<open>r = Run_continues\<close> by simp
qed simp

section \<open>Properties of the uplink\<close>


text \<open>A concrete uplink: one attempt in which the endpoint accepts the offer and a keyframe is sent.\<close>

definition sample_whip_config :: config where
  "sample_whip_config = (default_config [])\<lparr>cfg_whip := \<lparr>whip_enabled = True, whip_url = ''https://a/w''\<rparr>\<rparr>"

definition sample_publisher :: whip_publisher where
  "sample_publisher =
     \<lparr>wp_config = default_whip, wp_token = [], wp_last_error = [],
      wp_media = \<lparr>bq_capacity = 8, bq_queue = [], bq_stats = zero_stats, bq_shutdown = False\<rparr>,
      wp_detections = \<lparr>bq_capacity = 32, bq_queue = [], bq_stats = zero_stats, bq_shutdown = False\<rparr>,
      wp_stopping = False, wp_units_sent = 0, wp_peer_state = ''disabled'', wp_ice_state = ''disabled'',
      wp_conn_error = [], wp_worker = False, wp_requests = [], wp_log = [], wp_stream = []\<rparr>"

abbreviation sample_whip_ready :: whip_publisher where
  "sample_whip_ready \<equiv> snd (wp_initialize sample_whip_config (Some ''t'', None) True sample_publisher)"

definition sample_transfer :: "int \<Rightarrow> string list \<Rightarrow> transfer" where
  "sample_transfer status headers =
     \<lparr>tr_init_ok = True, tr_polls = [False], tr_headers = headers, tr_chunks = [''v=0''], tr_abort_text = [],
      tr_write_text = [], tr_error = None, tr_status = status\<rparr>"

definition sample_attempt :: attempt_env where
  "sample_attempt =
     \<lparr>ae_token = (Some ''t'', None), ae_setup_error = None, ae_local_error = None, ae_now = 0,
      ae_gather = [([Act_gathering_complete], 1, 2)], ae_gathered = [], ae_offer = Some ''o'',
      ae_post = sample_transfer 201 [''location: r''], ae_answer_error = None, ae_start_timestamp = 0,
      ae_connect_time = 3, ae_delete_token = (None, None), ae_delete = sample_transfer 200 []\<rparr>"

definition sample_pass :: "uplink_act list \<Rightarrow> uplink_act list \<Rightarrow> uplink_env" where
  "sample_pass before arriving =
     \<lparr>ue_before = before, ue_now = 4, ue_between = [], ue_open = True, ue_waiting = arriving, ue_reading = [],
      ue_send = Sent\<rparr>"

lemma sample_initialized:
  "wp_initialize sample_whip_config (Some ''t'', None) True sample_publisher = (True, sample_whip_ready)"
  by (simp add: wp_initialize_def sample_whip_config_def load_token_def Let_def)


lemma sample_header: "receive_header ''location: r'' x = x\<lparr>hr_location := ''r''\<rparr>"
  by (simp add: receive_header_def substr_def to_lower_def byte_def trim_def is_blank_def)

lemma sample_answer:
  "perform (sample_transfer 201 [''location: r'']) = Inr \<lparr>hr_status = 201, hr_body = ''v=0'', hr_location = ''r''\<rparr>"
  by (simp add: perform_def sample_transfer_def sample_header cancel_if_stopping_def receive_body_def)

lemma sample_resource: "whip_resource_url ''https://a/w'' ''r'' = Inr ''https://a/r''"
  by (simp add: whip_resource_url_def find_from_def substr_def rfind_char_def)
lemma sample_ready:
  "sample_whip_ready =
     \<lparr>wp_config = \<lparr>whip_enabled = True, whip_url = ''https://a/w''\<rparr>, wp_token = ''t'', wp_last_error = [],
      wp_media = \<lparr>bq_capacity = 8, bq_queue = [], bq_stats = zero_stats, bq_shutdown = False\<rparr>,
      wp_detections = \<lparr>bq_capacity = 32, bq_queue = [], bq_stats = zero_stats, bq_shutdown = False\<rparr>,
      wp_stopping = False, wp_units_sent = 0, wp_peer_state = ''new'', wp_ice_state = ''new'',
      wp_conn_error = [], wp_worker = False, wp_requests = [], wp_log = [], wp_stream = []\<rparr>"
  by (simp add: wp_initialize_def sample_whip_config_def load_token_def Let_def sample_publisher_def reset_def)

definition sample_post :: http_request where
  "sample_post = build_request ''https://a/w'' ''POST'' ''o'' ''t''"

definition sample_delete :: http_request where
  "sample_delete = build_request ''https://a/r'' ''DELETE'' [] ''t''"

lemma sample_open:
  assumes "whip_url (wp_config w) = ''https://a/w''" "\<not> wp_stopping w" "wp_token w = ''t''"
  shows "open_uplink sample_attempt (w, new_uplink w) =
     Opening_done (wp_note Log_Info ''publisher session created'' (w\<lparr>wp_requests := wp_requests w @ [sample_post]\<rparr>))
       ((new_uplink w)\<lparr>up_location := ''https://a/r'', up_peer := gathered new_peer_state,
          up_observed := dropped (bq_stats (wp_media w)), up_deadline := 15000000003\<rparr>)"
  using assms
  by (simp add: open_uplink_def sample_attempt_def new_uplink_def new_peer_state_def gathered_def post_offer_def
      send_request_def sample_answer sample_resource Let_def sample_post_def) (simp add: sample_transfer_def)

lemma sample_key:
  assumes "bq_queue (wp_media w) = []" "bq_capacity (wp_media w) = 8" "\<not> bq_shutdown (wp_media w)"
    "bq_queue (wp_detections w) = []" "\<not> wp_stopping w" "whip_enabled (wp_config w)"
    "up_peer p = gathered new_peer_state" "pending (up_selector p) = []" "\<not> up_awaiting p"
  shows "\<exists>w' p'. uplink_pass (sample_pass [] [Act_unit (sample_unit True)]) (w, p) = (Loop_running, w', p') \<and>
    wp_stream w' = wp_stream w @ [sample_unit True] \<and> up_sources p' = up_sources p @ [sample_unit True] \<and>
    \<not> wp_stopping w'"
  using assms
  by (simp add: uplink_pass_def sample_pass_def should_reconnect_def is_disconnected_def new_peer_state_def gathered_def
     open_pass_def wp_publish_access_unit_def push_def pop_for_def take_front_def Bounded_Queue.available_def
     drain_detections.simps forward_unit_def sample_unit_def send_unit_def take_for_def wp_note_def Let_def split: prod.split)
lemma sample_run:
  "\<exists>w p. publish_once sample_attempt
       [sample_pass [] [Act_unit (sample_unit True)], sample_pass [Act_stop] []] sample_whip_ready = (Attempt_returned, w, p) \<and>
     wp_stream w = [sample_unit True] \<and> up_sources p = [sample_unit True] \<and>
     wp_requests w = [sample_post, sample_delete]"
proof -
  define w0 where "w0 = sample_whip_ready\<lparr>wp_token := ''t'', wp_peer_state := ''new'', wp_ice_state := ''new'', wp_conn_error := []\<rparr>"
  define w1 where "w1 = wp_note Log_Info ''publisher session created'' (w0\<lparr>wp_requests := [sample_post]\<rparr>)"
  define p1 where "p1 = (new_uplink w0)\<lparr>up_location := ''https://a/r'', up_peer := gathered new_peer_state,
          up_observed := dropped (bq_stats (wp_media w0)), up_deadline := 15000000003\<rparr>"
  have open1: "open_uplink sample_attempt (w0, new_uplink w0) = Opening_done w1 p1"
    using sample_open [of w0] by (simp add: w0_def w1_def p1_def sample_ready)
  obtain w2 p2 where pass: "uplink_pass (sample_pass [] [Act_unit (sample_unit True)]) (w1, p1) = (Loop_running, w2, p2)"
    "wp_stream w2 = [sample_unit True]" "up_sources p2 = [sample_unit True]" "\<not> wp_stopping w2"
    using sample_key [of w1 p1]
    by (auto simp: w0_def w1_def p1_def sample_ready wp_note_def new_uplink_def new_selector_def)
  have stop: "uplink_pass (sample_pass [Act_stop] []) (w2, p2) = (Loop_stopped, wp_stop w2, p2)"
    by (simp add: uplink_pass_def sample_pass_def wp_stop_def)
  have loop: "uplink_loop [sample_pass [] [Act_unit (sample_unit True)], sample_pass [Act_stop] []] (w1, p1) =
      (Loop_stopped, wp_stop w2, p2)" using pass(1) stop by simp
  have "request_fields (wp_stop w2, p2) = request_fields (w1, p1)" by (rule uplink_loop_requests [OF loop])
  then have f: "wp_requests (wp_stop w2) = [sample_post]" "wp_token (wp_stop w2) = ''t''" "up_location p2 = ''https://a/r''"
    by (simp_all add: request_fields_def w1_def p1_def w0_def wp_note_def sample_ready)
  have "publish_once sample_attempt [sample_pass [] [Act_unit (sample_unit True)], sample_pass [Act_stop] []] sample_whip_ready =
      run_attempt sample_attempt [sample_pass [] [Act_unit (sample_unit True)], sample_pass [Act_stop] []] (w0, new_uplink w0)"
    by (simp add: publish_once_def sample_attempt_def load_token_def w0_def Let_def)
  also have "\<dots> = (Attempt_returned, close_resource sample_attempt (wp_stop w2, p2), p2)"
    using loop by (simp add: run_attempt_def open1)
  finally show ?thesis
    using f pass(2,3)
    by (simp add: close_resource_fields close_resource_requests wp_stop_def cleanup_request_def sample_delete_def)
       (simp add: sample_attempt_def sample_transfer_def load_token_def)
qed




text \<open>Where a request of the publisher may go.\<close>

definition confined :: "string \<Rightarrow> nat \<Rightarrow> http_request \<Rightarrow> bool" where
  "confined url k rq \<longleftrightarrow> \<not> rq_follow_location rq \<and>
     (rq_url rq = url \<or> prefix (take k url @ [slash]) (rq_url rq))"

lemma offer_requests_confined:
  assumes "find_from (\<lambda>c. c = slash) 8 url = Some k" "rq \<in> set (offer_requests env url token sdp)"
  shows "confined url k rq"
proof -
  have "prefix (take k url @ [slash]) l" if "created_resource url (ae_post env) = Some l" for l
    using that whip_url_same_origin [OF assms(1)] by (auto simp: created_resource_def split: sum.splits if_splits)
  then show ?thesis using assms(2)
    by (auto simp: offer_requests_def confined_def cleanup_request_def build_request_def Let_def
        split: option.splits if_splits)
qed

lemma publish_once_confined:
  assumes "publish_once env passes w = (r, w', p)" "find_from (\<lambda>c. c = slash) 8 (whip_url (wp_config w)) = Some k"
    "list_all (confined (whip_url (wp_config w)) k) (wp_requests w)"
  shows "wp_config w' = wp_config w \<and> list_all (confined (whip_url (wp_config w)) k) (wp_requests w')"
  using assms(1)
proof (cases rule: publish_once_result)
  case unstarted
  then show ?thesis using assms(3) by simp
next
  case (attempt w2)
  have "up_location (new_uplink w2) = []" by (simp add: new_uplink_def)
  from run_attempt_requests [OF attempt(1) this] attempt(4,5) assms(3) show ?thesis
    using offer_requests_confined [OF assms(2)] by (auto simp: list_all_iff) (meson set_mono_prefix subsetD)
qed

lemma whip_run_confined:
  assumes "whip_run ts w = (r, w')" "find_from (\<lambda>c. c = slash) 8 (whip_url (wp_config w)) = Some k"
    "list_all (confined (whip_url (wp_config w)) k) (wp_requests w)"
  shows "list_all (confined (whip_url (wp_config w)) k) (wp_requests w')"
  using assms
proof (induction ts arbitrary: w)
  case (Cons t ts)
  obtain env passes pause where t: "t = (env, passes, pause)" by (cases t) auto
  obtain x w1 where 1: "whip_turn env passes pause w = (x, w1)" by fastforce
  obtain y v p where once: "publish_once env passes w = (y, v, p)" by (cases "publish_once env passes w") auto
  have w1: "wp_config w1 = wp_config w \<and> list_all (confined (whip_url (wp_config w)) k) (wp_requests w1)"
  proof (cases "wp_stopping w")
    case True
    then show ?thesis using 1 Cons.prems(3) by (simp add: whip_turn_def)
  next
    case False
    then show ?thesis
      using whip_turn_result(1) [OF 1 _ once] publish_once_confined [OF once Cons.prems(2,3)] by simp
  qed
  show ?case using Cons.IH [of w1] Cons.prems(1,2) w1 t 1 by (cases x) auto
qed simp



lemma whip_acts_stopping: "wp_stopping (fst st) \<or> Act_stop \<in> set as \<Longrightarrow> wp_stopping (fst (whip_acts as st))"
proof (induction as arbitrary: st)
  case (Cons a as)
  have "wp_stopping (fst (whip_act a st)) \<or> Act_stop \<in> set as"
    using Cons.prems
    by (cases st; cases a) (auto simp: wp_publish_access_unit_def wp_publish_detections_def wp_stop_def split: prod.splits)
  then show ?case using Cons.IH [of "whip_act a st"] by simp
qed simp

lemma uplink_loop_append:
  "uplink_loop (as @ bs) st = (case uplink_loop as st of (Loop_running, st1) \<Rightarrow> uplink_loop bs st1 | r \<Rightarrow> r)"
  by (induction as arbitrary: st) (auto split: loop_result.splits prod.splits)



text \<open>Without the condition on the moment between the pop and the reading of the counter the stream breaks:
  when enough units arrive there for the queue to drop the unit after the keyframe just taken, the drop is
  noted with the keyframe, and the unit after the dropped one is sent as its continuation.\<close>

definition numbered :: "u64 \<Rightarrow> encoded_access_unit" where
  "numbered n = (sample_unit (n = 0))\<lparr>au_sequence := n, au_has_pts := False\<rparr>"

theorem drop_race_breaks_stream:
  "let w = sample_whip_ready\<lparr>wp_media :=
         \<lparr>bq_capacity = 8, bq_queue = map numbered [0, 1, 2, 3, 4, 5, 6, 7], bq_stats = zero_stats, bq_shutdown = False\<rparr>\<rparr>;
       racing = (sample_pass [] [])\<lparr>ue_reading := [Act_unit (numbered 8), Act_unit (numbered 9)]\<rparr>
   in up_sources (snd (snd (uplink_loop [racing, sample_pass [] []] (w, new_uplink w)))) = [numbered 0, numbered 2]"
  by (simp add: sample_ready sample_pass_def new_uplink_def uplink_pass_def should_reconnect_def is_disconnected_def
      new_peer_state_def open_pass_def pop_for_def take_front_def Bounded_Queue.available_def drain_detections.simps
      forward_unit_def send_unit_def wp_publish_access_unit_def push_def zero_stats_def numbered_def sample_unit_def
      wp_note_def Let_def split: prod.split)

end
