(* ===== verification/Gst_Pipeline.thy ===== *)
theory Gst_Pipeline
  imports Config
begin

text \<open>
  \<^verbatim>\<open>gst::Pipeline\<close> of \<^verbatim>\<open>src/video/gstreamer_runtime.cpp\<close>, and the gate that
  keeps GStreamer callbacks out of an object that is closing its pipeline, which
  \<^verbatim>\<open>RtspSource\<close> and \<^verbatim>\<open>H264Encoder\<close> both have
  (\<^verbatim>\<open>begin_callback\<close>, \<^verbatim>\<open>end_callback\<close> and the head of
  \<^verbatim>\<open>close_pipeline\<close>).  The results of GStreamer calls and the clock are arguments.
\<close>

section \<open>The pipeline\<close>

datatype gst_state = State_void | State_null | State_ready | State_paused | State_playing

record gst_pipeline =
  gp_stopped :: bool
  gp_last_error :: string
  gp_flushing :: bool
  gp_log :: "(log_level \<times> string) list"

definition gp_note :: "log_level \<Rightarrow> string \<Rightarrow> gst_pipeline \<Rightarrow> gst_pipeline" where
  "gp_note l text g = g\<lparr>gp_log := gp_log g @ [(l, text)]\<rparr>"

definition gp_fail :: "string \<Rightarrow> gst_pipeline \<Rightarrow> gst_pipeline" where
  "gp_fail text g = gp_note Log_Error text (g\<lparr>gp_last_error := text\<rparr>)"

text \<open>\<^verbatim>\<open>clock_time\<close>, in nanoseconds.\<close>

definition clock_time :: "int \<Rightarrow> duration" where
  "clock_time timeout_ms = milliseconds (max 0 timeout_ms)"

text \<open>The result of the one call that initializes the library, then of every call.\<close>

definition initialize_once :: "(string option) option \<Rightarrow> string \<times> bool" where
  "initialize_once outcome =
     (case outcome of
        None \<Rightarrow> ([], True)
      | Some (Some message) \<Rightarrow> (message, False)
      | Some None \<Rightarrow> (''GStreamer initialization failed'', False))"

definition create_empty :: "bool \<Rightarrow> bool \<Rightarrow> bool \<Rightarrow> gst_pipeline result" where
  "create_empty initialized made has_bus =
     (if \<not> initialized then Inl ''GStreamer must be initialized before creating a pipeline''
      else if \<not> made then Inl ''could not create GstPipeline''
      else if \<not> has_bus then Inl ''pipeline has no GstBus''
      else Inr \<lparr>gp_stopped = True, gp_last_error = [], gp_flushing = False, gp_log = []\<rparr>)"

definition from_launch :: "bool \<Rightarrow> string option \<Rightarrow> bool \<Rightarrow> bool \<Rightarrow> gst_pipeline result" where
  "from_launch initialized parse_error is_pipeline has_bus =
     (if \<not> initialized then Inl ''GStreamer must be initialized before creating a pipeline''
      else case parse_error of
        Some e \<Rightarrow> Inl e
      | None \<Rightarrow>
          if \<not> is_pipeline then Inl ''launch description must create a GstPipeline''
          else if \<not> has_bus then Inl ''pipeline has no GstBus''
          else Inr \<lparr>gp_stopped = True, gp_last_error = [], gp_flushing = False, gp_log = []\<rparr>)"

text \<open>What one turn of the wait in \<^verbatim>\<open>start\<close> reads: the cancellation, the clock before the
  wait for the state, that call's failure flag and state, and the clock after it.\<close>

record start_turn =
  st_cancelled :: bool
  st_before :: time_point
  st_failed :: bool
  st_state :: gst_state
  st_after :: time_point

text \<open>How long a turn waits for the state, in milliseconds.\<close>

definition start_slice :: "time_point \<Rightarrow> start_turn \<Rightarrow> int" where
  "start_slice deadline t =
     max 0 (min 50 (sgn (deadline - st_before t) * (\<bar>deadline - st_before t\<bar> div 1000000)))"

fun start_wait :: "time_point \<Rightarrow> start_turn list \<Rightarrow> gst_pipeline \<Rightarrow> bool option \<times> gst_pipeline" where
  "start_wait deadline [] g = (None, g)"
| "start_wait deadline (t # ts) g =
     (if st_cancelled t then (Some False, g\<lparr>gp_last_error := ''pipeline startup cancelled''\<rparr>)
      else if st_failed t then (Some False, gp_fail ''pipeline failed while entering PLAYING'' g)
      else if st_state t = State_playing then (Some True, gp_note Log_Info ''pipeline entered PLAYING'' g)
      else if st_after t \<ge> deadline
      then (Some False, gp_fail ''pipeline did not enter PLAYING before timeout'' g)
      else start_wait deadline ts g)"

definition gp_start :: "duration \<Rightarrow> bool \<Rightarrow> time_point \<Rightarrow> start_turn list \<Rightarrow> gst_pipeline \<Rightarrow> bool option \<times> gst_pipeline" where
  "gp_start timeout requested now turns g =
     (let g1 = gp_note Log_Info ''pipeline state PLAYING requested''
                 (g\<lparr>gp_last_error := [], gp_flushing := False, gp_stopped := False\<rparr>)
      in if \<not> requested then (Some False, gp_fail ''failed to request PLAYING state'' g1)
         else start_wait (now + timeout) turns g1)"

datatype bus_message = Msg_none | Msg_error "string option" | Msg_eos | Msg_state bool gst_state gst_state

datatype bus_poll = Poll_none | Poll_error string | Poll_eos string | Poll_state gst_state gst_state

fun state_name :: "gst_state \<Rightarrow> string" where
  "state_name State_void = ''VOID_PENDING''"
| "state_name State_null = ''NULL''"
| "state_name State_ready = ''READY''"
| "state_name State_paused = ''PAUSED''"
| "state_name State_playing = ''PLAYING''"

fun gp_poll :: "bus_message \<Rightarrow> gst_pipeline \<Rightarrow> bus_poll \<times> gst_pipeline" where
  "gp_poll Msg_none g = (Poll_none, g)"
| "gp_poll (Msg_error detail) g =
     (let d = (case detail of Some e \<Rightarrow> e | None \<Rightarrow> ''unknown GStreamer error'')
      in (Poll_error d, gp_fail d g))"
| "gp_poll Msg_eos g = (Poll_eos ''end of stream'', gp_note Log_Info ''end of stream'' g)"
| "gp_poll (Msg_state own old new) g =
     (Poll_state old new,
      if own then gp_note Log_Info (''pipeline state '' @ state_name old @ '' -> '' @ state_name new) g else g)"

text \<open>\<^verbatim>\<open>stop\<close>: whether the request and the wait failed, and the state reached.\<close>

definition gp_stop :: "bool \<times> bool \<times> gst_state \<Rightarrow> gst_pipeline \<Rightarrow> bool \<times> gst_pipeline" where
  "gp_stop outcome g =
     (let (request_failed, settle_failed, st) = outcome;
          g1 = gp_note Log_Info ''pipeline state NULL requested'' g
      in if gp_stopped g then (True, g)
         else if request_failed \<or> settle_failed \<or> st \<noteq> State_null
         then (False, gp_fail (if request_failed \<or> settle_failed then ''pipeline failed while entering NULL''
                               else ''pipeline did not enter NULL before timeout'') g1)
         else (True, gp_note Log_Info ''pipeline entered NULL'' (g1\<lparr>gp_stopped := True, gp_last_error := []\<rparr>)
                 \<lparr>gp_flushing := True\<rparr>))"

text \<open>The destructor: the flag says whether the element's reference is released to GStreamer; it is kept
  when the element could not be stopped.\<close>

definition gp_destroy :: "bool \<times> bool \<times> gst_state \<Rightarrow> bool \<times> bool \<times> gst_state \<Rightarrow> gst_pipeline \<Rightarrow> bool \<times> gst_pipeline" where
  "gp_destroy first second g =
     (let (ok, g1) = gp_stop first g;
          g2 = (if ok then g1 else snd (gp_stop second g1))
      in if gp_stopped g2 then (True, g2)
         else (False, gp_note Log_Error ''pipeline remains referenced after repeated NULL failure'' g2))"

section \<open>The callback gate\<close>

text \<open>What an object with callbacks promises: a callback enters only while the gate is open and is counted
  while it runs, and closing shuts the gate and then waits until the count is zero.  \<open>shut\<close> is
  the first section of \<^verbatim>\<open>close_pipeline\<close>; the wait ends in a state whose count is zero.\<close>

locale callback_gate =
  fixes accepting :: "'s \<Rightarrow> bool" and in_flight :: "'s \<Rightarrow> nat"
    and enter :: "'s \<Rightarrow> bool \<times> 's" and leave :: "'s \<Rightarrow> 's" and shut :: "'s \<Rightarrow> 's" and reopen :: "'s \<Rightarrow> 's"
  assumes enter_open: "accepting s \<Longrightarrow> fst (enter s) \<and> accepting (snd (enter s)) \<and> in_flight (snd (enter s)) = Suc (in_flight s)"
    and enter_shut: "\<not> accepting s \<Longrightarrow> enter s = (False, s)"
    and leave_counts: "0 < in_flight s \<Longrightarrow> in_flight (leave s) = in_flight s - 1 \<and> accepting (leave s) = accepting s"
    and shut_flag: "\<not> accepting (shut s) \<and> in_flight (shut s) = in_flight s"
    and reopen_flag: "accepting (reopen s) \<and> in_flight (reopen s) = in_flight s"
begin

text \<open>Executions: \<open>inside\<close> is the number of callbacks that entered and have not left.\<close>

inductive gate_run :: "'s \<Rightarrow> 's \<Rightarrow> nat \<Rightarrow> bool" for s0 where
  gate_start: "gate_run s0 s0 0"
| gate_enter: "gate_run s0 s n \<Longrightarrow> enter s = (ok, s') \<Longrightarrow> gate_run s0 s' (if ok then Suc n else n)"
| gate_leave: "gate_run s0 s (Suc n) \<Longrightarrow> gate_run s0 (leave s) n"
| gate_shut: "gate_run s0 s n \<Longrightarrow> gate_run s0 (shut s) n"
| gate_reopen: "gate_run s0 s n \<Longrightarrow> gate_run s0 (reopen s) n"

lemma in_flight_counts: "gate_run s0 s n \<Longrightarrow> in_flight s0 = 0 \<Longrightarrow> in_flight s = n"
proof (induction rule: gate_run.induct)
  case (gate_enter s n ok s')
  then show ?case using enter_open [of s] enter_shut [of s] by (cases "accepting s") auto
next
  case (gate_leave s n)
  then show ?case using leave_counts [of s] by simp
qed (simp_all add: shut_flag reopen_flag)

text \<open>When the wait of a closing object ends nobody is inside, and nobody enters until it reopens.\<close>

lemma closed_is_empty:
  assumes "gate_run s0 s n" "in_flight s0 = 0" "\<not> accepting s" "in_flight s = 0"
  shows "n = 0 \<and> enter s = (False, s)"
  using in_flight_counts [OF assms(1,2)] assms(3,4) enter_shut by simp

end

section \<open>Properties\<close>

lemma start_slice_bounds:
  "0 \<le> start_slice deadline t \<and> start_slice deadline t \<le> 50 \<and>
    milliseconds (start_slice deadline t) \<le> max 0 (deadline - st_before t)"
proof (cases "deadline - st_before t \<le> 0")
  case True
  then have "sgn (deadline - st_before t) * (\<bar>deadline - st_before t\<bar> div 1000000) \<le> 0"
    by (simp add: sgn_if pos_imp_zdiv_nonneg_iff)
  then show ?thesis by (simp add: start_slice_def)
next
  case False
  define d where "d = deadline - st_before t"
  have "start_slice deadline t = min 50 (d div 1000000)"
    using False by (simp add: start_slice_def d_def pos_imp_zdiv_nonneg_iff)
  moreover have "0 \<le> d div 1000000" "d div 1000000 * 1000000 \<le> d"
    using False by (simp_all add: d_def pos_imp_zdiv_nonneg_iff minus_mod_eq_div_mult [symmetric])
  ultimately show ?thesis unfolding d_def [symmetric] by (simp add: min_def)
qed

definition decides :: "time_point \<Rightarrow> start_turn \<Rightarrow> bool" where
  "decides deadline t \<longleftrightarrow> st_cancelled t \<or> st_failed t \<or> st_state t = State_playing \<or> st_after t \<ge> deadline"

lemma start_wait_first:
  "start_wait deadline ts g =
     (case find (decides deadline) ts of None \<Rightarrow> (None, g) | Some t \<Rightarrow> start_wait deadline [t] g)"
  by (induction ts) (auto simp: decides_def)

text \<open>starting a pipeline is bounded and reports what happened: a turn never waits longer than 50 ms
  nor past the deadline by a whole millisecond, the wait ends at the first turn that was cancelled, failed,
  reached PLAYING or saw the deadline pass, and it succeeds exactly when that turn reached PLAYING without
  being cancelled or failing.\<close>

theorem pipeline_start_bounded:
  "fst (gp_start timeout True now turns g) =
      (case find (decides (now + timeout)) turns of
         None \<Rightarrow> None
       | Some t \<Rightarrow> Some (\<not> st_cancelled t \<and> \<not> st_failed t \<and> st_state t = State_playing)) \<and>
    (\<forall>t. 0 \<le> start_slice (now + timeout) t \<and> start_slice (now + timeout) t \<le> 50 \<and>
       milliseconds (start_slice (now + timeout) t) \<le> max 0 (now + timeout - st_before t))"
proof -
  have "fst (start_wait (now + timeout) turns h) =
      (case find (decides (now + timeout)) turns of
         None \<Rightarrow> None
       | Some t \<Rightarrow> Some (\<not> st_cancelled t \<and> \<not> st_failed t \<and> st_state t = State_playing))" for h
  proof (cases "find (decides (now + timeout)) turns")
    case (Some t)
    then have "decides (now + timeout) t" by (auto simp: find_Some_iff)
    then show ?thesis using Some start_wait_first [of "now + timeout" turns h] by (auto simp: decides_def)
  qed (simp add: start_wait_first)
  then show ?thesis using start_slice_bounds by (simp add: gp_start_def Let_def)
qed

end
