(* ===== verification/Rtsp_Source.thy ===== *)
theory Rtsp_Source
  imports Gst_Pipeline Api_Json Whip_Policy
begin

text \<open>
  \<^verbatim>\<open>RtspSource\<close> and \<^verbatim>\<open>RtspVideoModule\<close>
  (\<^verbatim>\<open>src/video/rtsp_source.cpp\<close>, \<^verbatim>\<open>src/video/rtsp_video_module.cpp\<close>) and
  \<^verbatim>\<open>IngestRate\<close> of \<^verbatim>\<open>include/skai/metrics.hpp\<close>: the camera input with its
  reconnection loop.  GStreamer is a parameter: the results of its calls, the samples it hands out and
  the callbacks it makes are arguments of the operations that meet them.  A callback whose body runs is
  one action; how the object is kept alive under it is the gate of \<open>Gst_Pipeline\<close>.
\<close>

section \<open>Delivered frame rate\<close>

record ingest_rate =
  ir_first :: "time_point option"
  ir_frames :: u64

definition new_rate :: ingest_rate where
  "new_rate = \<lparr>ir_first = None, ir_frames = 0\<rparr>"

text \<open>A duration in seconds is the double nearest to the count of nanoseconds divided by \<open>10^9\<close>.\<close>

definition seconds_of :: "duration \<Rightarrow> fp" where
  "seconds_of d = fp_div round64 (round64 (of_int d)) (Fin 1000000000)"

definition rate_observe :: "time_point \<Rightarrow> ingest_rate \<Rightarrow> fp option \<times> ingest_rate" where
  "rate_observe now r =
     (case ir_first r of
        None \<Rightarrow> (None, r\<lparr>ir_first := Some now\<rparr>)
      | Some t0 \<Rightarrow>
          let r1 = r\<lparr>ir_frames := ir_frames r + 1\<rparr>; secs = seconds_of (now - t0) in
          if fp_le secs (Fin 0) then (None, r1)
          else (Some (fp_div round64 (round64 (of_nat (unat (ir_frames r1)))) secs),
                if fp_le (Fin 1) secs then r1\<lparr>ir_first := Some now, ir_frames := 0\<rparr> else r1))"

section \<open>Data\<close>

record video_frame =
  vf_sequence :: u64
  vf_timestamp :: time_point
  vf_pts_ns :: u64
  vf_generation :: u64
  vf_width :: int
  vf_height :: int
  vf_stride :: int
  vf_bgr :: "u8 list"

datatype decode_mode = Decode_auto | Decode_software

text \<open>\<open>rs_units\<close> is the queue of encoded units if there is one, \<open>rs_unit_sink\<close> and
  \<open>rs_media_sink\<close> say whether the sinks are set.  \<open>rs_published\<close> and
  \<open>rs_media_calls\<close> record, for the properties, the units published and the calls of the media
  status sink.\<close>

record rtsp_source =
  rs_config :: video_config
  rs_mode :: decode_mode
  rs_enqueue :: bool
  rs_status :: "runtime_status option"
  rs_frames :: "video_frame bounded_queue"
  rs_units :: "encoded_access_unit bounded_queue option"
  rs_unit_sink :: bool
  rs_media_sink :: bool
  rs_worker :: bool
  rs_running :: bool
  rs_pipeline :: bool
  rs_sink :: bool
  rs_encoded_sink :: bool
  rs_accepting :: bool
  rs_in_flight :: nat
  rs_diagnostics :: rtsp_diagnostics
  rs_last_frame :: time_point
  rs_rate :: ingest_rate
  rs_jitterbuffer :: bool
  rs_managers :: nat
  rs_lost :: u64
  rs_late :: u64
  rs_sequence :: u64
  rs_first_unit :: bool
  rs_generation :: u64
  rs_media_known :: bool
  rs_media_available :: bool
  rs_media_reason :: string
  rs_log :: "(log_level \<times> string) list"
  rs_published :: "encoded_access_unit list"
  rs_media_calls :: "(bool \<times> string) list"

definition default_diagnostics :: rtsp_diagnostics where
  "default_diagnostics =
     \<lparr>rd_health = Rtsp_Recovery.Stopped, rd_codec = [], rd_decoder = [], rd_width = 0, rd_height = 0, rd_fps_num = 0,
      rd_fps_den = 1, rd_fps_in = Fin 0, rd_url_configured = False, rd_transport = [], rd_frames_dropped = 0,
      rd_frames_discarded = 0, last_frame_age_ms = -1, packets_lost = 0, packets_late = 0, avg_jitter_ns = 0,
      frames_received = 0, rd_reconnect_count = 0, rd_last_error = []\<rparr>"

abbreviation on_diag :: "(rtsp_diagnostics \<Rightarrow> rtsp_diagnostics) \<Rightarrow> rtsp_source \<Rightarrow> rtsp_source" where
  "on_diag f s \<equiv> s\<lparr>rs_diagnostics := f (rs_diagnostics s)\<rparr>"

definition rs_note :: "log_level \<Rightarrow> string \<Rightarrow> rtsp_source \<Rightarrow> rtsp_source" where
  "rs_note l text s = s\<lparr>rs_log := rs_log s @ [(l, text)]\<rparr>"

definition rs_clear_video :: "rtsp_source \<Rightarrow> rtsp_source" where
  "rs_clear_video s = s\<lparr>rs_status := map_option clear_video (rs_status s)\<rparr>"

section \<open>Metrics text\<close>

definition bool_text :: "bool \<Rightarrow> string" where
  "bool_text b = (if b then ''true'' else ''false'')"

definition serialize_rtsp_metrics :: "rtsp_diagnostics \<Rightarrow> string" where
  \<open>serialize_rtsp_metrics d =
     ''{"url_configured":'' @ bool_text (rd_url_configured d) @
     '',"connected":'' @ bool_text (rd_health d = Connected \<or> rd_health d = Degraded) @
     '',"health":"'' @ source_health_name (rd_health d) @ ''"'' @
     '',"transport":"'' @ rd_transport d @ ''"'' @
     '',"codec":"'' @ rd_codec d @ ''"'' @
     '',"width":'' @ int_to_string (rd_width d) @ '',"height":'' @ int_to_string (rd_height d) @
     '',"fps_in":'' @ ostream_double 6 (rd_fps_in d) @
     '',"frames_received":'' @ to_string (unat (frames_received d)) @
     '',"frames_dropped":'' @ to_string (unat (rd_frames_dropped d)) @
     '',"frames_discarded":'' @ to_string (unat (rd_frames_discarded d)) @
     '',"last_frame_age_ms":'' @ int_to_string (last_frame_age_ms d) @
     '',"reconnect_count":'' @ to_string (unat (rd_reconnect_count d)) @
     '',"packets_lost":'' @ to_string (unat (packets_lost d)) @
     '',"packets_late":'' @ to_string (unat (packets_late d)) @
     '',"avg_jitter_ns":'' @ to_string (unat (avg_jitter_ns d)) @ ''}''\<close>

section \<open>Caps of the encoded stream\<close>

text \<open>The profile and level of the first structure of the caps; no structure when the caps are missing or
  empty.\<close>

definition supported_levels :: "string list" where
  "supported_levels = [''1'', ''1b'', ''1.1'', ''1.2'', ''1.3'', ''2'', ''2.1'', ''2.2'', ''3'', ''3.1'']"

definition browser_compatible_h264_caps :: "(string option \<times> string option) option \<Rightarrow> bool \<times> string" where
  "browser_compatible_h264_caps caps =
     (case caps of
        None \<Rightarrow> (False, ''source H.264 caps are unavailable'')
      | Some (profile, level) \<Rightarrow>
          if profile \<noteq> Some ''constrained-baseline''
          then (False, ''source H.264 must use constrained-baseline profile'')
          else case level of
            None \<Rightarrow> (False, ''source H.264 level is unavailable'')
          | Some l \<Rightarrow>
              if l \<notin> set supported_levels
              then (False, ''source H.264 must use level 3.1 or lower'')
              else (True, []))"

section \<open>Publishing of state\<close>

text \<open>The last argument says whether the sink raises an exception, and its message if it has one.\<close>

definition publish_media_status ::
    "bool \<Rightarrow> string \<Rightarrow> string option option \<Rightarrow> rtsp_source \<Rightarrow> rtsp_source" where
  "publish_media_status ok reason thrown s =
     (if rs_media_known s \<and> rs_media_available s = ok \<and> rs_media_reason s = reason then s
      else
        let s1 = s\<lparr>rs_media_known := True, rs_media_available := ok, rs_media_reason := reason\<rparr> in
        if \<not> rs_media_sink s1 then s1
        else
          let s2 = s1\<lparr>rs_media_calls := rs_media_calls s1 @ [(ok, reason)]\<rparr> in
          case thrown of
            None \<Rightarrow> s2
          | Some (Some e) \<Rightarrow> rs_note Log_Error e s2
          | Some None \<Rightarrow> rs_note Log_Error ''media status sink failed'' s2)"

definition set_error :: "string \<Rightarrow> rtsp_source \<Rightarrow> rtsp_source" where
  "set_error e s =
     rs_note Log_Error e (rs_clear_video (on_diag (\<lambda>d. d\<lparr>rd_health := Rtsp_Recovery.Error, rd_last_error := e\<rparr>) s))"

definition publish_recovery :: "rtsp_recovery \<Rightarrow> rtsp_source \<Rightarrow> rtsp_source" where
  "publish_recovery r s =
     (let s1 = on_diag (\<lambda>d. d\<lparr>rd_health := health r, rd_reconnect_count := reconnect_count r,
                  rd_last_error := (if health r = Connected then [] else rd_last_error d)\<rparr>) s
      in if health r \<noteq> Connected \<and> health r \<noteq> Degraded then rs_clear_video s1 else s1)"

definition diagnostics :: "time_point \<Rightarrow> rtsp_source \<Rightarrow> rtsp_diagnostics" where
  "diagnostics now s =
     (rs_diagnostics s)
       \<lparr>rd_frames_dropped := dropped (bq_stats (rs_frames s)),
        rd_frames_discarded := discarded (bq_stats (rs_frames s)),
        last_frame_age_ms :=
          (if rs_last_frame s \<noteq> 0 then trunc_div (now - rs_last_frame s) 1000000
           else last_frame_age_ms (rs_diagnostics s))\<rparr>"

section \<open>Callbacks\<close>

definition begin_callback :: "rtsp_source \<Rightarrow> bool \<times> rtsp_source" where
  "begin_callback s = (if \<not> rs_accepting s then (False, s) else (True, s\<lparr>rs_in_flight := rs_in_flight s + 1\<rparr>))"

definition end_callback :: "rtsp_source \<Rightarrow> rtsp_source" where
  "end_callback s = s\<lparr>rs_in_flight := rs_in_flight s - 1\<rparr>"

definition on_new_manager :: "rtsp_source \<Rightarrow> rtsp_source" where
  "on_new_manager s =
     (case begin_callback s of
        (False, s1) \<Rightarrow> s1
      | (True, s1) \<Rightarrow> end_callback (s1\<lparr>rs_managers := rs_managers s1 + 1\<rparr>))"

definition on_new_jitterbuffer :: "rtsp_source \<Rightarrow> rtsp_source" where
  "on_new_jitterbuffer s =
     (case begin_callback s of
        (False, s1) \<Rightarrow> s1
      | (True, s1) \<Rightarrow>
          end_callback (s1\<lparr>rs_jitterbuffer := True, rs_lost := reset_counter (rs_lost s1),
                          rs_late := reset_counter (rs_late s1)\<rparr>))"

text \<open>The pad: the name and the encoding of its caps (\<open>None\<close>: no caps, any, or empty), which
  elements the registry has and which can be made, and the results of linking.\<close>

record pad_env =
  pe_caps :: "(string \<times> string option) option"
  pe_plugin :: "string \<Rightarrow> bool"
  pe_make :: "string \<Rightarrow> bool"
  pe_chain :: bool
  pe_pad :: bool

definition elements_for :: "string \<Rightarrow> string \<times> string \<times> string" where
  "elements_for codec =
     (if codec = ''H265'' then (''rtph265depay'', ''h265parse'', ''avdec_h265'')
      else (''rtph264depay'', ''h264parse'', ''avdec_h264''))"

definition chain_elements :: "pad_env \<Rightarrow> rtsp_source \<Rightarrow> string \<Rightarrow> string \<times> bool \<times> string list" where
  "chain_elements env s codec =
     (let (depay, parser, software) = elements_for codec;
          hardware = (rs_mode s = Decode_auto \<and> pe_plugin env ''nvv4l2decoder'' \<and>
                      (pe_plugin env ''nvvidconv'' \<or> pe_plugin env ''nvvideoconvert''));
          decoder = (if hardware then ''nvv4l2decoder'' else software);
          converter = (if hardware then (if pe_plugin env ''nvvidconv'' then ''nvvidconv'' else ''nvvideoconvert'')
                       else ''identity'');
          h264 = (codec = ''H264'' \<and> (rs_units s \<noteq> None \<or> rs_unit_sink s))
      in (decoder, h264,
          [depay, parser, decoder, converter, ''videoconvert'', ''capsfilter'', ''appsink''] @
          (if h264 then [''capsfilter'', ''tee'', ''queue'', ''queue'', ''appsink''] else [])))"

definition connect_rtp_pad :: "pad_env \<Rightarrow> string option option \<Rightarrow> rtsp_source \<Rightarrow> rtsp_source" where
  "connect_rtp_pad env thrown s =
     (case pe_caps env of
        None \<Rightarrow> s
      | Some (name, encoding) \<Rightarrow>
          let codec = (case encoding of None \<Rightarrow> [] | Some c \<Rightarrow> c) in
          if \<not> (name = ''application/x-rtp'' \<and> (codec = ''H264'' \<or> codec = ''H265'')) \<or> rs_sink s then s
          else
            let (decoder, h264, elements) = chain_elements env s codec in
            if \<not> list_all (pe_make env) elements
            then set_error (''RTSP '' @ codec @ '' depay, parser, decoder, or color plugin is unavailable'') s
            else if \<not> pe_chain env then set_error (''could not link RTSP '' @ codec @ '' decode chain'') s
            else if \<not> pe_pad env then set_error (''could not link RTSP '' @ codec @ '' RTP pad'') s
            else
              let s1 = on_diag (\<lambda>d. d\<lparr>rd_codec := codec, rd_decoder := decoder\<rparr>)
                         (s\<lparr>rs_sink := True, rs_encoded_sink := h264\<rparr>)
              in if codec \<noteq> ''H264''
                 then publish_media_status False ''recording and WebRTC require H.264 input'' thrown s1 else s1)"

definition on_rtp_pad :: "pad_env \<Rightarrow> string option option \<Rightarrow> rtsp_source \<Rightarrow> rtsp_source" where
  "on_rtp_pad env thrown s =
     (case begin_callback s of
        (False, s1) \<Rightarrow> s1
      | (True, s1) \<Rightarrow> end_callback (connect_rtp_pad env thrown s1))"

definition rs_request_stop :: "rtsp_source \<Rightarrow> rtsp_source" where
  "rs_request_stop s = s\<lparr>rs_running := False\<rparr>"

datatype rtsp_act =
  Cb_pad pad_env "string option option" | Cb_manager | Cb_jitterbuffer | Request_stop | Consume

text \<open>What other threads do: the callbacks, a stop request, and a consumer taking a frame.\<close>

fun source_act :: "rtsp_act \<Rightarrow> rtsp_source \<Rightarrow> rtsp_source" where
  "source_act (Cb_pad env t) s = on_rtp_pad env t s"
| "source_act Cb_manager s = on_new_manager s"
| "source_act Cb_jitterbuffer s = on_new_jitterbuffer s"
| "source_act Request_stop s = rs_request_stop s"
| "source_act Consume s = s\<lparr>rs_frames := snd (take_front (rs_frames s))\<rparr>"

abbreviation source_acts :: "rtsp_act list \<Rightarrow> rtsp_source \<Rightarrow> rtsp_source" where
  "source_acts \<equiv> fold source_act"

section \<open>The pipeline\<close>

text \<open>The first section of \<^verbatim>\<open>close_pipeline\<close>, and what follows its wait.\<close>

definition shut_callbacks :: "rtsp_source \<Rightarrow> rtsp_source" where
  "shut_callbacks s = s\<lparr>rs_accepting := False\<rparr>"

definition allow_callbacks :: "rtsp_source \<Rightarrow> rtsp_source" where
  "allow_callbacks s = s\<lparr>rs_accepting := True\<rparr>"

definition rs_close_pipeline :: "rtsp_source \<Rightarrow> rtsp_source" where
  "rs_close_pipeline s =
     (shut_callbacks s)\<lparr>rs_managers := 0, rs_jitterbuffer := False, rs_lost := reset_counter (rs_lost s),
        rs_late := reset_counter (rs_late s), rs_sink := False, rs_encoded_sink := False, rs_pipeline := False\<rparr>"

record open_env =
  oe_create_error :: "string option"
  oe_rtspsrc :: bool
  oe_bin_add :: bool
  oe_acts :: "rtsp_act list"
  oe_started :: bool
  oe_start_error :: string
  oe_thrown :: "string option option"

definition rs_open_pipeline :: "open_env \<Rightarrow> rtsp_source \<Rightarrow> string option \<times> rtsp_source" where
  "rs_open_pipeline env s0 =
     (let s1 = publish_media_status False ''RTSP source is reconnecting'' (oe_thrown env)
                 (on_diag (\<lambda>d. d\<lparr>rd_fps_in := Fin 0\<rparr>)
                    (s0\<lparr>rs_sink := False, rs_encoded_sink := False, rs_first_unit := True,
                        rs_generation := rs_generation s0 + 1, rs_rate := new_rate\<rparr>))
      in case oe_create_error env of
           Some e \<Rightarrow> (Some e, s1\<lparr>rs_pipeline := False\<rparr>)
         | None \<Rightarrow>
             let s2 = s1\<lparr>rs_pipeline := True\<rparr> in
             if \<not> oe_rtspsrc env then (Some ''GStreamer rtspsrc plugin is unavailable'', rs_close_pipeline s2)
             else if \<not> oe_bin_add env then (Some ''could not add rtspsrc to RTSP pipeline'', rs_close_pipeline s2)
             else
               let s3 = source_acts (oe_acts env) (allow_callbacks s2) in
               if oe_started env then (None, s3)
               else (Some (if rd_last_error (rs_diagnostics s3) \<noteq> [] then rd_last_error (rs_diagnostics s3)
                           else oe_start_error env), rs_close_pipeline s3))"

section \<open>Samples\<close>

text \<open>A decoded sample: whether its caps, buffer, video info and mapping are there, and what they give.\<close>

record video_sample =
  vs_mapped :: bool
  vs_width :: int
  vs_height :: int
  vs_stride :: int
  vs_pixels :: "u8 list"
  vs_pts :: "u64 option"
  vs_fps :: "int \<times> int"
  vs_now :: time_point

text \<open>The row loop: each \<^verbatim>\<open>memcpy\<close> copies one row into the packed frame.  A read past the end of
  the mapped plane is \<open>None\<close>.\<close>

fun copy_rows :: "nat \<Rightarrow> nat \<Rightarrow> nat \<Rightarrow> u8 list \<Rightarrow> u8 list option" where
  "copy_rows 0 row_bytes stride pixels = Some []"
| "copy_rows (Suc n) row_bytes stride pixels =
     (case copy_rows n row_bytes stride pixels of
        None \<Rightarrow> None
      | Some bytes \<Rightarrow>
          if n * stride + row_bytes \<le> length pixels
          then Some (bytes @ take row_bytes (drop (n * stride) pixels)) else None)"

definition capture_sample ::
    "video_sample \<Rightarrow> rtsp_recovery \<times> rtsp_source \<Rightarrow> (bool \<times> rtsp_recovery \<times> rtsp_source) option" where
  "capture_sample v st =
     (let (r, s) = st in
      if \<not> vs_mapped v \<or> \<not> (vs_width v > 0 \<and> vs_height v > 0 \<and> vs_stride v \<ge> vs_width v * 3)
      then Some (False, r, s)
      else
        case (if rs_enqueue s
              then copy_rows (nat (vs_height v)) (nat (vs_width v * 3)) (nat (vs_stride v)) (vs_pixels v)
              else Some []) of
          None \<Rightarrow> None
        | Some bytes \<Rightarrow>
            let r1 = frame (vs_now v) r;
                (fps, rate) = rate_observe (vs_now v) (rs_rate s);
                d = rs_diagnostics s;
                seq = frames_received d + 1;
                d1 = d\<lparr>frames_received := seq, rd_width := vs_width v, rd_height := vs_height v,
                       rd_fps_num := fst (vs_fps v), rd_fps_den := snd (vs_fps v),
                       rd_fps_in := (case fps of Some f \<Rightarrow> f | None \<Rightarrow> rd_fps_in d)\<rparr>;
                s1 = s\<lparr>rs_rate := rate, rs_diagnostics := d1, rs_last_frame := vs_now v,
                       rs_status := (if fp_less (Fin 0) (rd_fps_in d1)
                                     then map_option (update_video (rd_fps_in d1)) (rs_status s) else rs_status s)\<rparr>;
                fr = \<lparr>vf_sequence = seq, vf_timestamp = vs_now v,
                      vf_pts_ns = (case vs_pts v of Some p \<Rightarrow> p | None \<Rightarrow> 0), vf_generation = rs_generation s,
                      vf_width = vs_width v, vf_height = vs_height v, vf_stride = vs_width v * 3, vf_bgr = bytes\<rparr>;
                s2 = (if rs_enqueue s1 then s1\<lparr>rs_frames := snd (push fr (rs_frames s1))\<rparr> else s1)
            in Some (True, r1, publish_recovery r1 s2))"

record unit_sample =
  us_caps :: "(string option \<times> string option) option"
  us_mapped :: bool
  us_pts :: "u64 option"
  us_dts :: "u64 option"
  us_delta :: bool
  us_discont :: bool
  us_bytes :: "u8 list"
  us_media_thrown :: "string option option"
  us_thrown :: "string option option"

definition make_unit :: "unit_sample \<Rightarrow> rtsp_source \<Rightarrow> encoded_access_unit" where
  "make_unit v s =
     \<lparr>au_sequence = rs_sequence s, au_pts_ns = (case us_pts v of Some p \<Rightarrow> p | None \<Rightarrow> 0),
      au_dts_ns = (case us_dts v of Some p \<Rightarrow> p | None \<Rightarrow> 0), au_has_pts = (us_pts v \<noteq> None),
      au_has_dts = (us_dts v \<noteq> None), au_keyframe = (\<not> us_delta v),
      au_discontinuity = (rs_first_unit s \<or> us_discont v), au_source_generation = rs_generation s,
      au_bytes = us_bytes v\<rparr>"

definition capture_access_unit :: "unit_sample \<Rightarrow> rtsp_source \<Rightarrow> bool \<times> rtsp_source" where
  "capture_access_unit v s =
     (let (ok, reason) = browser_compatible_h264_caps (us_caps v);
          s1 = publish_media_status ok reason (us_media_thrown v) s
      in if \<not> ok \<or> \<not> us_mapped v then (False, s1)
         else
           let s2 = s1\<lparr>rs_sequence := rs_sequence s1 + 1\<rparr>; u = make_unit v s2 in
           if au_bytes u = [] then (False, s2)
           else case us_thrown v of
             Some (Some e) \<Rightarrow> (False, rs_note Log_Error e s2)
           | Some None \<Rightarrow> (False, rs_note Log_Error ''could not publish source H.264 access unit'' s2)
           | None \<Rightarrow>
               (True, s2\<lparr>rs_units := map_option (\<lambda>q. snd (push u q)) (rs_units s2), rs_first_unit := False,
                         rs_published := rs_published s2 @ [u]\<rparr>))"

definition read_jitter_stats ::
    "(u64 \<times> u64 \<times> u64) option \<Rightarrow> time_point \<Rightarrow> rtsp_recovery \<times> rtsp_source \<Rightarrow> rtsp_recovery \<times> rtsp_source" where
  "read_jitter_stats stats now st =
     (let (r, s) = st in
      if \<not> rs_jitterbuffer s then st
      else case stats of
        None \<Rightarrow> st
      | Some (lost, late, jitter) \<Rightarrow>
          let (added_lost, h1) = observe lost (rs_lost s);
              (added_late, h2) = observe late (rs_late s);
              r1 = (if added_lost > 0 then packet_loss now r else r);
              s1 = on_diag (\<lambda>d. d\<lparr>packets_lost := packets_lost d + added_lost,
                                   packets_late := packets_late d + added_late, avg_jitter_ns := jitter\<rparr>)
                     (s\<lparr>rs_lost := h1, rs_late := h2\<rparr>)
          in (r1, if health r1 = Degraded then publish_recovery r1 s1 else s1))"

section \<open>The capture thread\<close>

text \<open>What one turn of the inner loop meets, in the order of the code; \<open>ct_acts\<close> happen before its
  first check, \<open>ct_late_acts\<close> while it polls the bus.\<close>

record capture_turn =
  ct_acts :: "rtsp_act list"
  ct_event :: bus_poll
  ct_late_acts :: "rtsp_act list"
  ct_units :: "unit_sample list"
  ct_sample :: "video_sample option"
  ct_more_units :: "unit_sample list"
  ct_now :: time_point
  ct_stats :: "(u64 \<times> u64 \<times> u64) option"
  ct_stats_now :: time_point

datatype turn_result = Turn_again | Turn_stopped | Turn_failed string | Turn_undefined

definition drain_units :: "bool \<Rightarrow> unit_sample list \<Rightarrow> rtsp_source \<Rightarrow> rtsp_source" where
  "drain_units has_sink vs s = (if has_sink then fold (\<lambda>v s. snd (capture_access_unit v s)) vs s else s)"

definition finish_turn ::
    "capture_turn \<Rightarrow> time_point \<Rightarrow> bool \<Rightarrow> rtsp_recovery \<times> rtsp_source \<Rightarrow>
     turn_result \<times> bool \<times> rtsp_recovery \<times> rtsp_source" where
  "finish_turn env started received st =
     (let (r, s) = read_jitter_stats (ct_stats env) (ct_stats_now env) st in
      if \<not> received \<and> ct_now env - started \<ge> milliseconds (first_frame_timeout_ms (rs_config s))
      then (Turn_failed ''RTSP source did not receive a video frame before timeout'', received, r, s)
      else case check_stall (ct_now env) r of
        (True, r1) \<Rightarrow>
          (Turn_failed ''RTSP source stalled: no fresh frames'', received, r1,
           rs_note Log_Warning ''RTSP source stalled: no fresh frames'' (publish_recovery r1 s))
      | (False, r1) \<Rightarrow> (Turn_again, received, r1, s))"

definition capture_turn ::
    "capture_turn \<Rightarrow> time_point \<Rightarrow> bool \<Rightarrow> rtsp_recovery \<times> rtsp_source \<Rightarrow>
     turn_result \<times> bool \<times> rtsp_recovery \<times> rtsp_source" where
  "capture_turn env started received st =
     (let (r, s0) = st; s = source_acts (ct_acts env) s0 in
      if \<not> rs_running s then (Turn_stopped, received, r, s)
      else if rd_health (rs_diagnostics s) = Rtsp_Recovery.Error
      then (Turn_failed (rd_last_error (rs_diagnostics s)), received, r, s)
      else case ct_event env of
        Poll_error e \<Rightarrow> (Turn_failed e, received, r, s)
      | Poll_eos e \<Rightarrow> (Turn_failed e, received, r, s)
      | _ \<Rightarrow>
          let s1 = source_acts (ct_late_acts env) s; encoded = rs_encoded_sink s1;
              s2 = drain_units encoded (ct_units env) s1
          in case (if rs_sink s1 then ct_sample env else None) of
               None \<Rightarrow> finish_turn env started received (r, drain_units encoded (ct_more_units env) s2)
             | Some v \<Rightarrow>
                 (case capture_sample v (r, s2) of
                    None \<Rightarrow> (Turn_undefined, received, r, s2)
                  | Some (got, r1, s3) \<Rightarrow>
                      finish_turn env started (got \<or> received) (r1, drain_units encoded (ct_more_units env) s3)))"

fun capture_turns ::
    "capture_turn list \<Rightarrow> time_point \<Rightarrow> bool \<Rightarrow> rtsp_recovery \<times> rtsp_source \<Rightarrow> turn_result \<times> rtsp_recovery \<times> rtsp_source" where
  "capture_turns [] started received st = (Turn_again, st)"
| "capture_turns (env # envs) started received st =
     (case capture_turn env started received st of
        (Turn_again, got, st1) \<Rightarrow> capture_turns envs started got st1
      | (res, got, st1) \<Rightarrow> (res, st1))"

text \<open>One turn of the outer loop: what happens during the back-off, the pipeline, the inner turns and the
  clock at each point.\<close>

record loop_turn =
  lt_backoff :: "rtsp_act list"
  lt_retry_now :: time_point
  lt_open :: open_env
  lt_open_failed :: time_point
  lt_started :: time_point
  lt_turns :: "capture_turn list"
  lt_closing :: "rtsp_act list"
  lt_failed :: time_point

datatype loop_status = Loop_again | Loop_ends | Loop_inside | Loop_undefined

definition note_failure :: "string \<Rightarrow> time_point \<Rightarrow> rtsp_recovery \<times> rtsp_source \<Rightarrow> rtsp_recovery \<times> rtsp_source" where
  "note_failure e now st =
     (let (r, s) = st; r1 = fail now r in (r1, publish_recovery r1 (set_error e s)))"

definition after_turns :: "loop_turn \<Rightarrow> turn_result \<times> rtsp_recovery \<times> rtsp_source \<Rightarrow> loop_status \<times> rtsp_recovery \<times> rtsp_source" where
  "after_turns env res =
     (case res of
        (Turn_again, st) \<Rightarrow> (Loop_inside, st)
      | (Turn_undefined, st) \<Rightarrow> (Loop_undefined, st)
      | (Turn_stopped, r, s) \<Rightarrow> (Loop_ends, r, rs_close_pipeline s)
      | (Turn_failed e, r, s) \<Rightarrow>
          let s1 = source_acts (lt_closing env) (rs_close_pipeline s) in
          if \<not> rs_running s1 then (Loop_ends, r, s1)
          else (Loop_again,
                note_failure e (lt_failed env)
                  (r, s1\<lparr>rs_frames := snd (discard_all (rs_frames s1)),
                         rs_units := map_option (\<lambda>q. snd (discard_all q)) (rs_units s1)\<rparr>)))"

definition loop_turn :: "bool \<Rightarrow> loop_turn \<Rightarrow> rtsp_recovery \<times> rtsp_source \<Rightarrow> loop_status \<times> rtsp_recovery \<times> rtsp_source" where
  "loop_turn initial env st =
     (let (r0, s0) = st; s = source_acts (lt_backoff env) s0 in
      if \<not> rs_running s then (Loop_ends, r0, s)
      else
        let r = (if initial then r0 else retry (lt_retry_now env) r0);
            s1 = publish_recovery r (on_diag (\<lambda>d. d\<lparr>rd_codec := [], rd_decoder := []\<rparr>) s)
        in case rs_open_pipeline (lt_open env) s1 of
             (Some e, s2) \<Rightarrow>
               if \<not> rs_running s2 then (Loop_ends, r, s2)
               else (Loop_again, note_failure e (lt_open_failed env) (r, s2))
           | (None, s2) \<Rightarrow> after_turns env (capture_turns (lt_turns env) (lt_started env) False (r, s2)))"

text \<open>The end of \<^verbatim>\<open>capture_loop\<close>.\<close>

definition end_loop :: "rtsp_recovery \<times> rtsp_source \<Rightarrow> rtsp_recovery \<times> rtsp_source" where
  "end_loop st =
     (let (r, s) = st; r1 = stop_recovery r
      in (r1, (publish_recovery r1 (rs_close_pipeline s))\<lparr>rs_running := False\<rparr>))"

fun loop_turns :: "bool \<Rightarrow> loop_turn list \<Rightarrow> rtsp_recovery \<times> rtsp_source \<Rightarrow> loop_status \<times> rtsp_recovery \<times> rtsp_source" where
  "loop_turns initial [] st = (Loop_again, st)"
| "loop_turns initial (env # envs) st =
     (case loop_turn initial env st of
        (Loop_again, st1) \<Rightarrow> loop_turns False envs st1
      | (Loop_ends, st1) \<Rightarrow> (Loop_ends, end_loop st1)
      | (res, st1) \<Rightarrow> (res, st1))"

definition capture_loop :: "loop_turn list \<Rightarrow> rtsp_source \<Rightarrow> loop_status \<times> rtsp_recovery \<times> rtsp_source" where
  "capture_loop envs s =
     (let c = rs_config s;
          r = begin_recovery (new_recovery (milliseconds (stall_timeout_ms c)) (milliseconds (reconnect_delay_ms c))
                (milliseconds (max_reconnect_delay_ms c)))
      in loop_turns True envs (r, s))"

section \<open>Start and stop\<close>

definition rs_start ::
    "config_env \<Rightarrow> video_config \<Rightarrow> bool \<Rightarrow> string option option \<Rightarrow> string option \<Rightarrow> rtsp_source \<Rightarrow> unit result \<times> rtsp_source" where
  "rs_start cenv cfg initialized thrown thread_error s =
     (if rs_worker s then (Inl ''RTSP source is already running'', s)
      else case validate_video_config cenv cfg of
        (False, e) \<Rightarrow> (Inl e, s)
      | (True, _) \<Rightarrow>
          if \<not> initialized then (Inl ''GStreamer must be initialized before the RTSP source'', s)
          else
            let s1 = publish_media_status False ''waiting for a browser-compatible H.264 source'' thrown
                       (rs_clear_video (s\<lparr>rs_config := cfg\<rparr>)\<lparr>rs_sink := False, rs_encoded_sink := False, rs_sequence := 0\<rparr>);
                s2 = s1\<lparr>rs_diagnostics := default_diagnostics\<lparr>rd_health := Connecting,
                          rd_url_configured := (rtsp_url cfg \<noteq> []), rd_transport := transport cfg\<rparr>,
                        rs_last_frame := 0, rs_rate := new_rate\<rparr>
            in case thread_error of
                 Some e \<Rightarrow> (Inl e, s2\<lparr>rs_running := False\<rparr>)
               | None \<Rightarrow> (Inr (), s2\<lparr>rs_running := True, rs_worker := True\<rparr>))"

text \<open>After the thread has ended.\<close>

definition rs_stop :: "rtsp_source \<Rightarrow> rtsp_source" where
  "rs_stop s =
     rs_clear_video (on_diag (\<lambda>d. d\<lparr>rd_health := Rtsp_Recovery.Stopped\<rparr>) ((rs_request_stop s)\<lparr>rs_worker := False\<rparr>))"

section \<open>The lifecycle module\<close>

text \<open>\<^verbatim>\<open>RtspVideoModule\<close>: whether it has a source; \<open>vm_source\<close> is that source, and
  without one it holds the queues and sinks the next source is given.\<close>

record video_module =
  vm_config :: video_config
  vm_present :: bool
  vm_source :: rtsp_source

definition fresh_source :: "rtsp_source \<Rightarrow> rtsp_source" where
  "fresh_source s =
     \<lparr>rs_config = default_video, rs_mode = Decode_auto, rs_enqueue = True, rs_status = rs_status s,
      rs_frames = reset (rs_frames s), rs_units = map_option reset (rs_units s), rs_unit_sink = rs_unit_sink s,
      rs_media_sink = rs_media_sink s, rs_worker = False, rs_running = False, rs_pipeline = False, rs_sink = False,
      rs_encoded_sink = False, rs_accepting = False, rs_in_flight = 0, rs_diagnostics = default_diagnostics,
      rs_last_frame = 0, rs_rate = new_rate, rs_jitterbuffer = False, rs_managers = 0, rs_lost = 0, rs_late = 0,
      rs_sequence = 0, rs_first_unit = True, rs_generation = 0, rs_media_known = False, rs_media_available = False,
      rs_media_reason = [], rs_log = [], rs_published = [], rs_media_calls = []\<rparr>"

definition vm_initialize :: "config \<Rightarrow> video_module \<Rightarrow> bool \<times> video_module" where
  "vm_initialize cfg m =
     (if vm_present m then (False, m)
      else (True, m\<lparr>vm_config := cfg_video cfg, vm_present := True, vm_source := fresh_source (vm_source m)\<rparr>))"

definition vm_start ::
    "config_env \<Rightarrow> bool \<Rightarrow> string option option \<Rightarrow> string option \<Rightarrow> video_module \<Rightarrow> bool \<times> video_module" where
  "vm_start cenv initialized thrown thread_error m =
     (if \<not> vm_present m then (False, m)
      else case rs_start cenv (vm_config m) initialized thrown thread_error (vm_source m) of
        (Inl e, s) \<Rightarrow> (False, m\<lparr>vm_source := rs_note Log_Error e s\<rparr>)
      | (Inr _, s) \<Rightarrow> (True, m\<lparr>vm_source := rs_note Log_Info ''RTSP source started; connecting'' s\<rparr>))"

definition vm_stop :: "video_module \<Rightarrow> video_module" where
  "vm_stop m = (if vm_present m then m\<lparr>vm_source := rs_request_stop (vm_source m)\<rparr> else m)"

definition vm_wait :: "video_module \<Rightarrow> video_module" where
  "vm_wait m =
     (let s = (if vm_present m then rs_stop (vm_source m) else vm_source m);
          s1 = rs_clear_video s
      in m\<lparr>vm_present := False,
           vm_source := s1\<lparr>rs_frames := shutdown (rs_frames s1), rs_units := map_option shutdown (rs_units s1)\<rparr>\<rparr>)"

definition vm_diagnostics :: "time_point \<Rightarrow> video_module \<Rightarrow> rtsp_diagnostics option" where
  "vm_diagnostics now m = (if vm_present m then Some (diagnostics now (vm_source m)) else None)"

text \<open>The gate of the source's callbacks.\<close>

interpretation source_gate: callback_gate rs_accepting rs_in_flight begin_callback end_callback shut_callbacks allow_callbacks
  by unfold_locales (simp_all add: begin_callback_def end_callback_def shut_callbacks_def allow_callbacks_def)

end
