(* ===== verification/Rtsp_Capture.thy ===== *)
theory Rtsp_Capture
  imports Rtsp_Source Preprocess
begin

text \<open>
  What the capture thread of \<open>Rtsp_Source\<close> guarantees: the encoded units it publishes mark every
  restart of the stream, the frames it queues are packed copies that the preprocessing accepts and never
  mix two pipelines, and the API shows video only while the source delivers it.
\<close>

section \<open>Copying a frame\<close>

lemma copy_rows_length: "copy_rows n rb st px = Some bytes \<Longrightarrow> length bytes = n * rb"
  by (induction n arbitrary: bytes) (auto split: option.splits if_splits)

lemma copy_rows_nth:
  "copy_rows n rb st px = Some bytes \<Longrightarrow> row < n \<Longrightarrow> i < rb \<Longrightarrow>
    row * st + i < length px \<and> bytes ! (row * rb + i) = px ! (row * st + i)"
proof (induction n arbitrary: bytes)
  case (Suc n)
  from Suc.prems(1) obtain bs where bs: "copy_rows n rb st px = Some bs" "n * st + rb \<le> length px"
    "bytes = bs @ take rb (drop (n * st) px)" by (auto split: option.splits if_splits)
  note len = copy_rows_length [OF bs(1)]
  show ?case
  proof (cases "row < n")
    case True
    have "row * rb + i < Suc row * rb" using Suc.prems(3) by simp
    also have "\<dots> \<le> n * rb" using True by (intro mult_le_mono1) simp
    finally have "row * rb + i < length bs" using len by simp
    then show ?thesis using Suc.IH [OF bs(1) True Suc.prems(3)] bs(3) by (simp add: nth_append)
  next
    case False
    then have "row = n" using Suc.prems(2) by simp
    then show ?thesis using bs len Suc.prems(3) by (simp add: nth_append)
  qed
qed simp

lemma copy_rows_defined:
  "rb \<le> st \<Longrightarrow> (n - 1) * st + rb \<le> length px \<Longrightarrow> copy_rows n rb st px \<noteq> None"
proof (induction n)
  case (Suc n)
  have "(n - 1) * st + rb \<le> length px" using Suc.prems by (cases n) auto
  then have "copy_rows n rb st px \<noteq> None" using Suc.IH Suc.prems(1) by simp
  then show ?case using Suc.prems(2) by auto
qed simp

section \<open>Invariant\<close>

text \<open>Every unit of a new pipeline that follows a unit of an older one is marked as a discontinuity, and so
  is the first.\<close>

definition marked :: "encoded_access_unit list \<Rightarrow> bool" where
  "marked us \<longleftrightarrow> (us \<noteq> [] \<longrightarrow> au_discontinuity (hd us)) \<and>
     (\<forall>xs u v ys. us = xs @ u # v # ys \<longrightarrow>
        au_source_generation v = au_source_generation u \<or> au_discontinuity v)"

lemma marked_snoc:
  assumes "marked us"
    and "au_discontinuity v \<or> us \<noteq> [] \<and> au_source_generation v = au_source_generation (last us)"
  shows "marked (us @ [v])"
proof (cases us rule: rev_cases)
  case Nil
  then show ?thesis using assms(2) by (auto simp: marked_def append_eq_Cons_conv Cons_eq_append_conv)
next
  case (snoc zs z)
  have "au_source_generation y = au_source_generation x \<or> au_discontinuity y"
    if e: "us @ [v] = xs @ x # y # ys" for xs x y ys
  proof (cases ys rule: rev_cases)
    case Nil
    then have "us = xs @ [x]" "y = v" using e by (auto simp flip: append_assoc)
    then show ?thesis using assms(2) by auto
  next
    case (snoc ws w)
    then have "us = xs @ x # y # ws" using e by auto
    then show ?thesis using assms(1) by (auto simp: marked_def)
  qed
  then show ?thesis using assms(1) snoc by (auto simp: marked_def hd_append)
qed

text \<open>The view of a frame that the detector is given.\<close>

definition frame_view :: "video_frame \<Rightarrow> bgr_image_view" where
  "frame_view f = \<lparr>img_data = Some (vf_bgr f), img_bytes = length (vf_bgr f), img_width = vf_width f,
     img_height = vf_height f, img_stride = vf_stride f\<rparr>"

definition good_frame :: "video_frame \<Rightarrow> bool" where
  "good_frame f \<longleftrightarrow> validate_image (frame_view f) = Inr () \<and> vf_stride f = vf_width f * 3 \<and>
     length (vf_bgr f) = nat (vf_height f) * nat (vf_stride f)"

text \<open>What GStreamer promises of a mapped plane: sizes are C integers, a packed row too, and the last row is
  there.\<close>

definition plane_ok :: "video_sample \<Rightarrow> bool" where
  "plane_ok v \<longleftrightarrow> vs_stride v \<le> int_max \<and> vs_height v \<le> int_max \<and> vs_width v * 3 \<le> int_max \<and>
     (vs_mapped v \<longrightarrow> nat (vs_height v - 1) * nat (vs_stride v) + nat (vs_width v * 3) \<le> length (vs_pixels v))"

lemma packed_frame_good:
  assumes "0 < w" "0 < h" "w * 3 \<le> int_max" "h \<le> int_max" "length bytes = nat h * nat (w * 3)"
    "vf_width f = w" "vf_height f = h" "vf_stride f = w * 3" "vf_bgr f = bytes"
  shows "good_frame f"
proof -
  have rb: "nat (w * 3) = nat w * 3" using assms(1) by (simp add: nat_mult_distrib)
  have "int (nat (h - 1) * (nat w * 3) + nat w * 3) = (h - 1) * (w * 3) + w * 3"
    using assms(1,2) by simp
  also have "\<dots> = h * (w * 3)" by (simp add: algebra_simps)
  finally have exact: "nat (h - 1) * (nat w * 3) + nat w * 3 = nat h * (nat w * 3)"
    using assms(1,2) by (metis int_nat_eq nat_int nat_mult_distrib of_nat_mult rb less_imp_le zero_less_mult_iff)
  have "h * (w * 3) \<le> int_max * int_max" using assms by (intro mult_mono) auto
  then have "nat h * (nat w * 3) \<le> size_max"
    using assms(1,2) rb by (simp add: nat_le_iff flip: nat_mult_distrib rb)
  then have "nat (h - 1) * (nat w * 3) + nat w * 3 \<le> size_max" using exact by simp
  then have "nat (h - 1) \<le> (size_max - nat w * 3) div (nat w * 3)"
    using assms(1) by (simp add: less_eq_div_iff_mult_less_eq)
  then show ?thesis
    using assms exact rb by (simp add: good_frame_def validate_image_def frame_view_def Let_def)
qed

definition video_shown :: "rtsp_source \<Rightarrow> bool" where
  "video_shown s \<longleftrightarrow> (\<exists>st. rs_status s = Some st \<and> video_available st)"

definition delivering :: "source_health \<Rightarrow> bool" where
  "delivering h \<longleftrightarrow> h = Connected \<or> h = Degraded"

definition source_inv :: "rtsp_source \<Rightarrow> bool" where
  "source_inv s \<longleftrightarrow> marked (rs_published s) \<and>
     (rs_first_unit s \<or> rs_published s \<noteq> [] \<and> au_source_generation (last (rs_published s)) = rs_generation s) \<and>
     (\<forall>f \<in> set (bq_queue (rs_frames s)). good_frame f \<and> vf_generation f = rs_generation s) \<and>
     (video_shown s \<longrightarrow> delivering (rd_health (rs_diagnostics s)))"

abbreviation no_frames :: "rtsp_source \<Rightarrow> bool" where
  "no_frames s \<equiv> bq_queue (rs_frames s) = []"

lemma clear_video_shown [simp]: "\<not> video_shown (rs_clear_video s)"
  by (auto simp: video_shown_def rs_clear_video_def clear_video_def)

text \<open>Operations that leave what the invariant is about alone, or only hide the video.\<close>

definition inv_fields :: "rtsp_source \<Rightarrow> _" where
  "inv_fields s = (rs_published s, rs_first_unit s, rs_generation s, rs_frames s, rs_enqueue s)"

lemma source_inv_fields:
  assumes "inv_fields s' = inv_fields s" "source_inv s"
    "video_shown s' \<Longrightarrow> delivering (rd_health (rs_diagnostics s'))"
  shows "source_inv s'"
  using assms by (auto simp: source_inv_def inv_fields_def)

lemma note_inv [simp]: "inv_fields (rs_note l t s) = inv_fields s" "video_shown (rs_note l t s) = video_shown s"
    "rs_diagnostics (rs_note l t s) = rs_diagnostics s" "rs_running (rs_note l t s) = rs_running s"
  by (simp_all add: rs_note_def inv_fields_def video_shown_def)

lemma media_status_inv [simp]:
  "inv_fields (publish_media_status a b c s) = inv_fields s" "video_shown (publish_media_status a b c s) = video_shown s"
  "rs_diagnostics (publish_media_status a b c s) = rs_diagnostics s"
  by (auto simp: publish_media_status_def inv_fields_def video_shown_def rs_note_def Let_def split: option.split)

lemma set_error_inv [simp]: "inv_fields (set_error e s) = inv_fields s" "\<not> video_shown (set_error e s)"
  by (simp_all add: set_error_def) (simp add: inv_fields_def rs_clear_video_def)

lemma publish_recovery_inv [simp]:
  "inv_fields (publish_recovery r s) = inv_fields s"
  "video_shown (publish_recovery r s) \<Longrightarrow> delivering (rd_health (rs_diagnostics (publish_recovery r s)))"
  by (auto simp: publish_recovery_def delivering_def inv_fields_def rs_clear_video_def video_shown_def clear_video_def Let_def split: if_splits)

lemma close_pipeline_inv [simp]:
  "inv_fields (rs_close_pipeline s) = inv_fields s" "video_shown (rs_close_pipeline s) = video_shown s"
  "rs_diagnostics (rs_close_pipeline s) = rs_diagnostics s"
  by (simp_all add: rs_close_pipeline_def shut_callbacks_def inv_fields_def video_shown_def)

lemma connect_pad_cases:
  obtains "connect_rtp_pad env t s = s" | e where "connect_rtp_pad env t s = set_error e s"
  | s1 codec dec h a b where
      "s1 = on_diag (\<lambda>d. d\<lparr>rd_codec := codec, rd_decoder := dec\<rparr>) (s\<lparr>rs_sink := True, rs_encoded_sink := h\<rparr>)"
      "connect_rtp_pad env t s = s1 \<or> connect_rtp_pad env t s = publish_media_status a b t s1"
proof (cases "pe_caps env")
  case None
  then show thesis using that(1) by (simp add: connect_rtp_pad_def)
next
  case (Some caps)
  obtain name enc where caps: "caps = (name, enc)" by fastforce
  define codec where "codec = (case enc of None \<Rightarrow> [] | Some c \<Rightarrow> c)"
  obtain dec h els where chain: "chain_elements env s codec = (dec, h, els)" by (cases "chain_elements env s codec") auto
  define s1 where "s1 = on_diag (\<lambda>d. d\<lparr>rd_codec := codec, rd_decoder := dec\<rparr>) (s\<lparr>rs_sink := True, rs_encoded_sink := h\<rparr>)"
  obtain A B C D E e1 e2 e3 where
    "connect_rtp_pad env t s = (if A then s else if B then set_error e1 s else if C then set_error e2 s
       else if D then set_error e3 s
       else if E then publish_media_status False ''recording and WebRTC require H.264 input'' t s1 else s1)"
    unfolding connect_rtp_pad_def Some caps option.case prod.case Let_def codec_def [symmetric] chain s1_def [symmetric]
    by blast
  then have "connect_rtp_pad env t s = s \<or> (\<exists>e. connect_rtp_pad env t s = set_error e s) \<or>
      connect_rtp_pad env t s = s1 \<or> (\<exists>a b. connect_rtp_pad env t s = publish_media_status a b t s1)" by (metis (full_types))
  then show thesis using that(1,2) that(3) [OF s1_def] by blast
qed

lemma connect_pad_inv:
  "inv_fields (connect_rtp_pad env t s) = inv_fields s \<and>
   (video_shown (connect_rtp_pad env t s) \<longrightarrow> video_shown s \<and>
      rd_health (rs_diagnostics (connect_rtp_pad env t s)) = rd_health (rs_diagnostics s))"
proof (rule connect_pad_cases [of env t s])
  fix s1 codec dec h a b
  assume s1: "s1 = on_diag (\<lambda>d. d\<lparr>rd_codec := codec, rd_decoder := dec\<rparr>) (s\<lparr>rs_sink := True, rs_encoded_sink := h\<rparr>)"
    and c: "connect_rtp_pad env t s = s1 \<or> connect_rtp_pad env t s = publish_media_status a b t s1"
  have "inv_fields s1 = inv_fields s" "video_shown s1 = video_shown s"
    "rd_health (rs_diagnostics s1) = rd_health (rs_diagnostics s)"
    by (simp_all add: s1 inv_fields_def video_shown_def)
  then show ?thesis using c by auto
qed simp_all

lemma source_inv_shown: "source_inv s \<Longrightarrow> video_shown s \<Longrightarrow> delivering (rd_health (rs_diagnostics s))"
  by (simp add: source_inv_def)

lemma connect_inv:
  assumes "source_inv s"
  shows "source_inv (connect_rtp_pad env t s)"
proof -
  note c = connect_pad_inv [of env t s]
  show ?thesis
    by (rule source_inv_fields [OF conjunct1 [OF c] assms]) (use c source_inv_shown [OF assms] in metis)
qed

lemma source_act_inv:
  assumes "source_inv s"
  shows "source_inv (source_act a s) \<and> (no_frames s \<longrightarrow> no_frames (source_act a s))"
proof (cases a)
  case Consume
  then show ?thesis using assms
    by (auto simp: source_inv_def video_shown_def take_front_def split: list.splits)
next
  case (Cb_pad env t)
  show ?thesis
  proof (cases "rs_accepting s")
    case True
    let ?s = "s\<lparr>rs_in_flight := rs_in_flight s + 1\<rparr>"
    have "source_inv ?s" using assms by (simp add: source_inv_def video_shown_def)
    then have "source_inv (connect_rtp_pad env t ?s)" by (rule connect_inv)
    moreover have "rs_frames (connect_rtp_pad env t ?s) = rs_frames s"
      using connect_pad_inv [of env t ?s] by (simp add: inv_fields_def)
    ultimately show ?thesis
      using Cb_pad True by (simp add: on_rtp_pad_def begin_callback_def end_callback_def source_inv_def video_shown_def)
  next
    case False
    then show ?thesis using assms Cb_pad by (simp add: on_rtp_pad_def begin_callback_def)
  qed
qed (use assms in \<open>auto simp: on_new_manager_def on_new_jitterbuffer_def begin_callback_def end_callback_def
       rs_request_stop_def source_inv_def video_shown_def\<close>)

lemma source_acts_inv:
  "source_inv s \<Longrightarrow> source_inv (source_acts as s) \<and> (no_frames s \<longrightarrow> no_frames (source_acts as s))"
  by (induction as arbitrary: s) (simp_all add: source_act_inv)

lemma close_inv: "source_inv s \<Longrightarrow> source_inv (rs_close_pipeline s)"
  by (rule source_inv_fields [of _ s]) (simp_all add: source_inv_shown)

lemma recovery_inv: "source_inv s \<Longrightarrow> source_inv (publish_recovery r s)"
  by (rule source_inv_fields [of _ s]) simp_all

lemma error_inv: "source_inv s \<Longrightarrow> source_inv (set_error e s)"
  by (rule source_inv_fields [of _ s]) simp_all

lemma media_inv: "source_inv s \<Longrightarrow> source_inv (publish_media_status a b c s)"
  by (rule source_inv_fields [of _ s]) (simp_all add: source_inv_shown)

lemma note_source_inv: "source_inv s \<Longrightarrow> source_inv (rs_note l t s)"
  by (rule source_inv_fields [of _ s]) (simp_all add: source_inv_shown)

lemma frames_kept [simp]:
  "rs_frames (rs_close_pipeline s) = rs_frames s" "rs_frames (publish_recovery r s) = rs_frames s"
  "rs_frames (set_error e s) = rs_frames s" "rs_frames (publish_media_status a b c s) = rs_frames s"
  "rs_frames (rs_note l t s) = rs_frames s"
  using close_pipeline_inv(1) [of s] publish_recovery_inv(1) [of r s] set_error_inv(1) [of e s]
    media_status_inv(1) [of a b c s] note_inv(1) [of l t s]
  unfolding inv_fields_def by simp_all

lemma open_pipeline_inv:
  assumes "source_inv s" "no_frames s" "rs_open_pipeline env s = (e, s')"
  shows "source_inv s' \<and> no_frames s'"
proof -
  define s1 where "s1 = on_diag (\<lambda>d. d\<lparr>rd_fps_in := Fin 0\<rparr>)
      (s\<lparr>rs_sink := False, rs_encoded_sink := False, rs_first_unit := True, rs_generation := rs_generation s + 1, rs_rate := new_rate\<rparr>)"
  define s2 where "s2 = publish_media_status False ''RTSP source is reconnecting'' (oe_thrown env) s1"
  have "source_inv s1 \<and> no_frames s1" using assms(1,2) by (simp add: s1_def source_inv_def video_shown_def)
  then have s2: "source_inv s2 \<and> no_frames s2" by (simp add: s2_def media_inv)
  have s3: "source_inv (s2\<lparr>rs_pipeline := b\<rparr>) \<and> no_frames (s2\<lparr>rs_pipeline := b\<rparr>)" for b
    using s2 by (simp add: source_inv_def video_shown_def)
  have "source_inv (allow_callbacks (s2\<lparr>rs_pipeline := True\<rparr>)) \<and> no_frames (allow_callbacks (s2\<lparr>rs_pipeline := True\<rparr>))"
    using s2 by (simp add: allow_callbacks_def source_inv_def video_shown_def)
  then have s4: "source_inv (source_acts (oe_acts env) (allow_callbacks (s2\<lparr>rs_pipeline := True\<rparr>))) \<and>
      no_frames (source_acts (oe_acts env) (allow_callbacks (s2\<lparr>rs_pipeline := True\<rparr>)))"
    using source_acts_inv by blast
  have "s' \<in> {s2\<lparr>rs_pipeline := False\<rparr>, rs_close_pipeline (s2\<lparr>rs_pipeline := True\<rparr>),
      source_acts (oe_acts env) (allow_callbacks (s2\<lparr>rs_pipeline := True\<rparr>)),
      rs_close_pipeline (source_acts (oe_acts env) (allow_callbacks (s2\<lparr>rs_pipeline := True\<rparr>)))}"
    using assms(3) unfolding rs_open_pipeline_def Let_def s1_def [symmetric] s2_def [symmetric]
    by (auto split: option.splits if_splits)
  then show ?thesis using s3 s4 close_inv by auto
qed

lemma capture_access_unit_inv:
  assumes "source_inv s"
  shows "source_inv (snd (capture_access_unit v s)) \<and> rs_frames (snd (capture_access_unit v s)) = rs_frames s"
proof -
  obtain ok reason where c: "browser_compatible_h264_caps (us_caps v) = (ok, reason)" by fastforce
  define s1 where "s1 = publish_media_status ok reason (us_media_thrown v) s"
  define s2 where "s2 = s1\<lparr>rs_sequence := rs_sequence s1 + 1\<rparr>"
  define u where "u = make_unit v s2"
  define s3 where "s3 = s2\<lparr>rs_units := map_option (\<lambda>q. snd (push u q)) (rs_units s2), rs_first_unit := False,
                         rs_published := rs_published s2 @ [u]\<rparr>"
  have s1: "source_inv s1" "rs_frames s1 = rs_frames s" using assms by (simp_all add: s1_def media_inv)
  then have s2: "source_inv s2" "rs_frames s2 = rs_frames s" by (simp_all add: s2_def source_inv_def video_shown_def)
  have "marked (rs_published s2 @ [u])"
    using s2(1) by (intro marked_snoc) (auto simp: source_inv_def u_def make_unit_def)
  then have s3: "source_inv s3" "rs_frames s3 = rs_frames s"
    using s2 by (auto simp: s3_def source_inv_def video_shown_def u_def make_unit_def)
  have "snd (capture_access_unit v s) \<in> {s1, s2, s3} \<union> {rs_note Log_Error e s2 | e. True}"
    unfolding capture_access_unit_def c prod.case Let_def s1_def [symmetric] s2_def [symmetric] u_def [symmetric] s3_def [symmetric]
    by (auto split: option.splits)
  then show ?thesis using s1 s2 s3 note_source_inv by auto
qed

lemma drain_units_inv:
  "source_inv s \<Longrightarrow> source_inv (drain_units b vs s) \<and> rs_frames (drain_units b vs s) = rs_frames s"
proof (induction vs arbitrary: s)
  case (Cons v vs)
  from Cons.IH [of "snd (capture_access_unit v s)"] capture_access_unit_inv [OF Cons.prems, of v] Cons.prems
  show ?case by (simp add: drain_units_def split: if_splits)
qed (simp add: drain_units_def)

lemma frame_health: "delivering (health (frame t r))"
  by (auto simp: delivering_def frame_def split: option.split)

lemma push_subset: "set (bq_queue (snd (push x q))) \<subseteq> insert x (set (bq_queue q))"
  by (cases "bq_queue q") (auto simp: push_def Let_def)

text \<open>The part of \<open>capture_sample\<close> after the checks, with the frame it makes.\<close>

definition sampled_frame :: "video_sample \<Rightarrow> u8 list \<Rightarrow> rtsp_source \<Rightarrow> video_frame" where
  "sampled_frame v bytes s =
     \<lparr>vf_sequence = frames_received (rs_diagnostics s) + 1, vf_timestamp = vs_now v,
      vf_pts_ns = (case vs_pts v of Some p \<Rightarrow> p | None \<Rightarrow> 0), vf_generation = rs_generation s,
      vf_width = vs_width v, vf_height = vs_height v, vf_stride = vs_width v * 3, vf_bgr = bytes\<rparr>"

definition sample_accepted :: "video_sample \<Rightarrow> bool" where
  "sample_accepted v \<longleftrightarrow> vs_mapped v \<and> vs_width v > 0 \<and> vs_height v > 0 \<and> vs_stride v \<ge> vs_width v * 3"

lemma capture_sample_rejects:
  "\<not> sample_accepted v \<Longrightarrow> capture_sample v (r, s) = Some (False, r, s)"
  by (auto simp: capture_sample_def sample_accepted_def)

lemma capture_sample_takes:
  assumes "sample_accepted v"
    and "(if rs_enqueue s then copy_rows (nat (vs_height v)) (nat (vs_width v * 3)) (nat (vs_stride v)) (vs_pixels v)
          else Some []) = Some bytes"
  obtains s1 where "capture_sample v (r, s) =
      Some (True, frame (vs_now v) r, publish_recovery (frame (vs_now v) r)
        (if rs_enqueue s then s1\<lparr>rs_frames := snd (push (sampled_frame v bytes s) (rs_frames s))\<rparr> else s1))"
    and "inv_fields s1 = inv_fields s"
proof -
  obtain fps rate where rate: "rate_observe (vs_now v) (rs_rate s) = (fps, rate)" by fastforce
  define f where "f = (case fps of Some f \<Rightarrow> f | None \<Rightarrow> rd_fps_in (rs_diagnostics s))"
  define s1 where "s1 = s\<lparr>rs_rate := rate,
      rs_diagnostics := (rs_diagnostics s)\<lparr>frames_received := frames_received (rs_diagnostics s) + 1, rd_width := vs_width v, rd_height := vs_height v,
                       rd_fps_num := fst (vs_fps v), rd_fps_den := snd (vs_fps v), rd_fps_in := f\<rparr>, rs_last_frame := vs_now v,
      rs_status := (if fp_less (Fin 0) f then map_option (update_video f) (rs_status s) else rs_status s)\<rparr>"
  have "capture_sample v (r, s) =
      Some (True, frame (vs_now v) r, publish_recovery (frame (vs_now v) r)
        (if rs_enqueue s then s1\<lparr>rs_frames := snd (push (sampled_frame v bytes s) (rs_frames s))\<rparr> else s1))"
    using assms by (simp add: capture_sample_def sample_accepted_def rate s1_def f_def sampled_frame_def Let_def)
  moreover have "inv_fields s1 = inv_fields s" by (simp add: s1_def inv_fields_def)
  ultimately show thesis by (rule that)
qed

lemma capture_sample_inv:
  assumes "source_inv s" "plane_ok v"
  shows "\<exists>got r' s'. capture_sample v (r, s) = Some (got, r', s') \<and> source_inv s'"
proof (cases "sample_accepted v")
  case True
  let ?n = "nat (vs_height v)" and ?rb = "nat (vs_width v * 3)" and ?st = "nat (vs_stride v)"
  have bounds: "0 < vs_width v" "0 < vs_height v" "vs_width v * 3 \<le> int_max" "vs_height v \<le> int_max"
    using True assms(2) by (auto simp: sample_accepted_def plane_ok_def)
  have "copy_rows ?n ?rb ?st (vs_pixels v) \<noteq> None"
    using True assms(2) by (intro copy_rows_defined) (auto simp: sample_accepted_def plane_ok_def nat_diff_distrib)
  then obtain bytes where bytes: "copy_rows ?n ?rb ?st (vs_pixels v) = Some bytes" by auto
  obtain bs where bs: "(if rs_enqueue s then copy_rows ?n ?rb ?st (vs_pixels v) else Some []) = Some bs"
    using bytes by (cases "rs_enqueue s") auto
  from capture_sample_takes [OF True bs, of r] obtain s1 where
    s1: "capture_sample v (r, s) =
      Some (True, frame (vs_now v) r, publish_recovery (frame (vs_now v) r)
        (if rs_enqueue s then s1\<lparr>rs_frames := snd (push (sampled_frame v bs s) (rs_frames s))\<rparr> else s1))"
    "inv_fields s1 = inv_fields s" .
  define s2 where "s2 = (if rs_enqueue s then s1\<lparr>rs_frames := snd (push (sampled_frame v bs s) (rs_frames s))\<rparr> else s1)"
  have fields: "rs_published s2 = rs_published s" "rs_first_unit s2 = rs_first_unit s" "rs_generation s2 = rs_generation s"
    using s1(2) by (auto simp: s2_def inv_fields_def)
  have "good_frame (sampled_frame v bs s)" if "rs_enqueue s"
    using bounds copy_rows_length [OF bytes] bytes bs that
    by (intro packed_frame_good [OF bounds, of bs]) (auto simp: sampled_frame_def)
  then have frames: "\<forall>f \<in> set (bq_queue (rs_frames s2)). good_frame f \<and> vf_generation f = rs_generation s2"
    using assms(1) push_subset [of "sampled_frame v bs s" "rs_frames s"] fields s1(2)
    by (auto simp: s2_def source_inv_def sampled_frame_def inv_fields_def)
  have pub: "inv_fields (publish_recovery (frame (vs_now v) r) s2) = inv_fields s2"
    "video_shown (publish_recovery (frame (vs_now v) r) s2) \<Longrightarrow> delivering (rd_health (rs_diagnostics (publish_recovery (frame (vs_now v) r) s2)))"
    by simp_all
  have "source_inv (publish_recovery (frame (vs_now v) r) s2)"
    using assms(1) frames fields pub by (auto simp: source_inv_def inv_fields_def)
  then show ?thesis using s1(1) by (auto simp: s2_def)
next
  case False
  then show ?thesis using assms(1) capture_sample_rejects by blast
qed

lemma read_jitter_inv:
  assumes "source_inv s" "read_jitter_stats stats now (r, s) = (r', s')"
  shows "source_inv s'"
proof (cases stats)
  case None
  then show ?thesis using assms by (auto simp: read_jitter_stats_def split: if_splits)
next
  case (Some st)
  obtain lost late jitter where st: "st = (lost, late, jitter)" by (cases st) auto
  obtain a h1 b h2 where o: "observe lost (rs_lost s) = (a, h1)" "observe late (rs_late s) = (b, h2)"
    by (metis surj_pair)
  define s1 where "s1 = on_diag (\<lambda>d. d\<lparr>packets_lost := packets_lost d + a, packets_late := packets_late d + b, avg_jitter_ns := jitter\<rparr>)
                     (s\<lparr>rs_lost := h1, rs_late := h2\<rparr>)"
  have "source_inv s1" using assms(1) by (simp add: s1_def source_inv_def video_shown_def)
  moreover have "s' = s \<or> s' = s1 \<or> (\<exists>q. s' = publish_recovery q s1)"
    using assms(2) unfolding read_jitter_stats_def Some st o option.case prod.case Let_def s1_def [symmetric]
    by (auto split: if_splits)
  ultimately show ?thesis using assms(1) recovery_inv by auto
qed

lemma finish_turn_inv:
  assumes "source_inv s" "finish_turn env t0 got (r, s) = (res, got', r', s')"
  shows "source_inv s' \<and> res \<noteq> Turn_undefined"
proof -
  obtain r1 s1 where j: "read_jitter_stats (ct_stats env) (ct_stats_now env) (r, s) = (r1, s1)" by fastforce
  have "source_inv s1" by (rule read_jitter_inv [OF assms(1) j])
  then show ?thesis
    using assms(2) note_source_inv recovery_inv
    by (auto simp: finish_turn_def j split: if_splits prod.splits bool.splits)
qed

definition turn_ok :: "capture_turn \<Rightarrow> bool" where
  "turn_ok env \<longleftrightarrow> (case ct_sample env of None \<Rightarrow> True | Some v \<Rightarrow> plane_ok v)"

lemma capture_turn_inv:
  assumes "source_inv s" "turn_ok env" "capture_turn env t0 got (r, s) = (res, got', r', s')"
  shows "source_inv s' \<and> res \<noteq> Turn_undefined"
proof -
  define s1 where "s1 = source_acts (ct_acts env) s"
  define s2 where "s2 = source_acts (ct_late_acts env) s1"
  define s3 where "s3 = drain_units (rs_encoded_sink s2) (ct_units env) s2"
  have inv: "source_inv s1" "source_inv s2" "source_inv s3"
    using assms(1) by (simp_all add: s1_def s2_def s3_def source_acts_inv drain_units_inv)
  have tail: "source_inv s' \<and> res \<noteq> Turn_undefined"
    if "source_inv s4" "finish_turn env t0 g (r4, drain_units b (ct_more_units env) s4) = (res, got', r', s')" for s4 r4 g b
    using finish_turn_inv [OF conjunct1 [OF drain_units_inv [OF that(1)]] that(2)] .
  have rest: "source_inv s' \<and> res \<noteq> Turn_undefined"
    if run: "(case (if rs_sink s2 then ct_sample env else None) of
               None \<Rightarrow> finish_turn env t0 got (r, drain_units (rs_encoded_sink s2) (ct_more_units env) s3)
             | Some v \<Rightarrow>
                 (case capture_sample v (r, s3) of
                    None \<Rightarrow> (Turn_undefined, got, r, s3)
                  | Some (g, r1, s4) \<Rightarrow>
                      finish_turn env t0 (g \<or> got) (r1, drain_units (rs_encoded_sink s2) (ct_more_units env) s4))) = (res, got', r', s')"
  proof (cases "if rs_sink s2 then ct_sample env else None")
    case None
    then show ?thesis using run tail [OF inv(3)] by simp
  next
    case (Some v)
    then have "plane_ok v" using assms(2) by (simp add: turn_ok_def split: if_splits)
    from capture_sample_inv [OF inv(3) this, of r] obtain g r4 s4
      where "capture_sample v (r, s3) = Some (g, r4, s4)" "source_inv s4" by auto
    then show ?thesis using run Some tail by simp
  qed
  show ?thesis
  proof (cases "rs_running s1 \<and> rd_health (rs_diagnostics s1) \<noteq> Rtsp_Recovery.Error")
    case True
    then show ?thesis
      using assms(3) inv(1) rest unfolding capture_turn_def Let_def prod.case s1_def [symmetric] s2_def [symmetric] s3_def [symmetric]
      by (cases "ct_event env") auto
  next
    case False
    then show ?thesis using assms(3) inv(1) by (auto simp: capture_turn_def s1_def [symmetric] Let_def split: if_splits)
  qed
qed

lemma capture_turns_inv:
  assumes "source_inv s" "list_all turn_ok envs" "capture_turns envs t0 got (r, s) = (res, r', s')"
  shows "source_inv s' \<and> res \<noteq> Turn_undefined"
  using assms
proof (induction envs arbitrary: got r s)
  case (Cons env envs)
  obtain res1 got1 r1 s1 where t: "capture_turn env t0 got (r, s) = (res1, got1, r1, s1)" by (metis surj_pair)
  have i: "source_inv s1 \<and> res1 \<noteq> Turn_undefined"
    using capture_turn_inv [OF Cons.prems(1) _ t] Cons.prems(2) by simp
  show ?case using Cons.IH [of s1 got1 r1] Cons.prems(2,3) i t by (cases res1) auto
qed simp

lemma discard_frames [simp]: "bq_queue (snd (discard_all q)) = []"
  by (simp add: discard_all_def)

lemma note_failure_inv:
  assumes "source_inv s" "note_failure e now (r, s) = (r', s')"
  shows "source_inv s' \<and> rs_frames s' = rs_frames s"
  using assms recovery_inv error_inv by (auto simp: note_failure_def Let_def)

text \<open>A failed pipeline leaves no frame behind for the next one.\<close>

lemma after_turns_inv:
  assumes "source_inv s" "res \<noteq> Turn_undefined" "after_turns env (res, r, s) = (st, r', s')"
  shows "source_inv s' \<and> st \<noteq> Loop_undefined \<and> (st = Loop_again \<longrightarrow> no_frames s')"
proof (cases res)
  case (Turn_failed e)
  define s1 where "s1 = source_acts (lt_closing env) (rs_close_pipeline s)"
  define s2 where "s2 = s1\<lparr>rs_frames := snd (discard_all (rs_frames s1)), rs_units := map_option (\<lambda>q. snd (discard_all q)) (rs_units s1)\<rparr>"
  have s1: "source_inv s1" using source_acts_inv [OF close_inv [OF assms(1)]] by (simp add: s1_def)
  then have s2: "source_inv s2" "no_frames s2" by (simp_all add: s2_def source_inv_def video_shown_def)
  obtain r3 s3 where n: "note_failure e (lt_failed env) (r, s2) = (r3, s3)" by fastforce
  have "s' = s1 \<and> st = Loop_ends \<or> s' = s3 \<and> st = Loop_again"
    using assms(3) n unfolding after_turns_def Turn_failed prod.case turn_result.case Let_def s1_def [symmetric] s2_def [symmetric]
    by (auto split: if_splits)
  then show ?thesis using s1 note_failure_inv [OF s2(1) n] s2(2) by auto
qed (use assms close_inv in \<open>auto simp: after_turns_def\<close>)

definition loop_ok :: "loop_turn \<Rightarrow> bool" where
  "loop_ok env \<longleftrightarrow> list_all turn_ok (lt_turns env)"

lemma loop_turn_inv:
  assumes "source_inv s" "no_frames s" "loop_ok env" "loop_turn initial env (r, s) = (st, r', s')"
  shows "source_inv s' \<and> st \<noteq> Loop_undefined \<and> (st = Loop_again \<longrightarrow> no_frames s')"
proof -
  define s1 where "s1 = source_acts (lt_backoff env) s"
  have s1: "source_inv s1" "no_frames s1" using source_acts_inv [OF assms(1)] assms(2) by (simp_all add: s1_def)
  define r1 where "r1 = (if initial then r else retry (lt_retry_now env) r)"
  define s2 where "s2 = publish_recovery r1 (on_diag (\<lambda>d. d\<lparr>rd_codec := [], rd_decoder := []\<rparr>) s1)"
  have "source_inv (on_diag (\<lambda>d. d\<lparr>rd_codec := [], rd_decoder := []\<rparr>) s1)"
    using s1(1) by (simp add: source_inv_def video_shown_def)
  then have s2: "source_inv s2" "no_frames s2" using s1(2) by (simp_all add: s2_def recovery_inv)
  obtain e s3 where o: "rs_open_pipeline (lt_open env) s2 = (e, s3)" by fastforce
  have s3: "source_inv s3" "no_frames s3" using open_pipeline_inv [OF s2 o] by simp_all
  obtain res r4 s4 where t: "capture_turns (lt_turns env) (lt_started env) False (r1, s3) = (res, r4, s4)" by (metis surj_pair)
  have t_inv: "source_inv s4" "res \<noteq> Turn_undefined"
    using capture_turns_inv [OF s3(1) _ t] assms(3) by (simp_all add: loop_ok_def)
  obtain rn sn where n: "note_failure (the e) (lt_open_failed env) (r1, s3) = (rn, sn)" by fastforce
  have run: "(st, r', s') = (if \<not> rs_running s1 then (Loop_ends, r, s1)
      else case e of Some e' \<Rightarrow> if \<not> rs_running s3 then (Loop_ends, r1, s3)
                               else (Loop_again, note_failure e' (lt_open_failed env) (r1, s3))
           | None \<Rightarrow> after_turns env (res, r4, s4))"
    using assms(4) unfolding loop_turn_def Let_def prod.case s1_def [symmetric] r1_def [symmetric] s2_def [symmetric] o t
    by (cases e) auto
  show ?thesis
  proof (cases e)
    case None
    then have "after_turns env (res, r4, s4) = (st, r', s') \<or> (s' = s1 \<and> st = Loop_ends)"
      using run by (auto split: if_splits)
    then show ?thesis using after_turns_inv [OF t_inv] s1 by blast
  next
    case (Some e')
    then have "s' = s1 \<and> st = Loop_ends \<or> s' = s3 \<and> st = Loop_ends \<or> s' = sn \<and> st = Loop_again"
      using run n by (auto split: if_splits)
    then show ?thesis using note_failure_inv [OF s3(1) n] s3 s1 by auto
  qed
qed

lemma end_loop_inv: "source_inv s \<Longrightarrow> source_inv (snd (end_loop (r, s)))"
  using recovery_inv [OF close_inv] by (simp add: end_loop_def source_inv_def video_shown_def Let_def)

lemma loop_turns_inv:
  assumes "source_inv s" "no_frames s" "list_all loop_ok envs" "loop_turns initial envs (r, s) = (st, r', s')"
  shows "source_inv s' \<and> st \<noteq> Loop_undefined"
  using assms
proof (induction envs arbitrary: initial r s)
  case (Cons env envs)
  obtain st1 r1 s1 where t: "loop_turn initial env (r, s) = (st1, r1, s1)" by (metis surj_pair)
  have i: "source_inv s1" "st1 \<noteq> Loop_undefined" "st1 = Loop_again \<Longrightarrow> no_frames s1"
    using loop_turn_inv [OF Cons.prems(1,2) _ t] Cons.prems(3) by simp_all
  show ?case
  proof (cases st1)
    case Loop_again
    then show ?thesis using Cons.IH [of s1 False r1] Cons.prems(3,4) i t by simp
  next
    case Loop_ends
    then show ?thesis using Cons.prems(4) t end_loop_inv [OF i(1), of r1] by auto
  qed (use Cons.prems(4) t i in auto)
qed simp

section \<open>A source from its module\<close>

text \<open>The source the video module runs, from its initialization to its start.\<close>

definition started_source ::
    "config_env \<Rightarrow> config \<Rightarrow> string option option \<Rightarrow> video_module \<Rightarrow> bool \<times> rtsp_source" where
  "started_source cenv cfg thrown m =
     (let (a, m1) = vm_initialize cfg m; (b, m2) = vm_start cenv True thrown None m1 in (a \<and> b, vm_source m2))"

abbreviation final_source :: "loop_turn list \<Rightarrow> rtsp_source \<Rightarrow> rtsp_source" where
  "final_source envs s \<equiv> snd (snd (capture_loop envs s))"

lemma started_source_inv:
  assumes "fst (started_source cenv cfg thrown m)"
  shows "source_inv (snd (started_source cenv cfg thrown m)) \<and> no_frames (snd (started_source cenv cfg thrown m))"
proof -
  define s0 where "s0 = fresh_source (vm_source m)"
  obtain b e where v: "validate_video_config cenv (cfg_video cfg) = (b, e)" by fastforce
  have ok: "\<not> vm_present m" "b" using assms
    by (auto simp: started_source_def vm_initialize_def vm_start_def rs_start_def v split: prod.splits sum.splits if_splits bool.splits)
  obtain s1 where s1: "inv_fields s1 = inv_fields s0" "\<not> video_shown s1"
    "snd (started_source cenv cfg thrown m) = rs_note Log_Info ''RTSP source started; connecting'' s1"
  proof
    let ?q = "rs_clear_video (s0\<lparr>rs_config := cfg_video cfg\<rparr>)\<lparr>rs_sink := False, rs_encoded_sink := False, rs_sequence := 0\<rparr>"
    let ?p = "publish_media_status False ''waiting for a browser-compatible H.264 source'' thrown ?q"
    let ?s = "?p\<lparr>rs_diagnostics := default_diagnostics\<lparr>rd_health := Connecting,
                          rd_url_configured := (rtsp_url (cfg_video cfg) \<noteq> []), rd_transport := transport (cfg_video cfg)\<rparr>,
                        rs_last_frame := 0, rs_rate := new_rate, rs_running := True, rs_worker := True\<rparr>"
    show "snd (started_source cenv cfg thrown m) = rs_note Log_Info ''RTSP source started; connecting'' ?s"
      using ok v by (simp add: started_source_def vm_initialize_def vm_start_def rs_start_def s0_def fresh_source_def Let_def)
    have "inv_fields ?q = inv_fields s0" by (simp add: inv_fields_def rs_clear_video_def)
    moreover have "\<not> video_shown ?q" by (auto simp: rs_clear_video_def video_shown_def clear_video_def)
    ultimately have "inv_fields ?p = inv_fields s0 \<and> \<not> video_shown ?p" by (simp only: media_status_inv simp_thms)
    then show "inv_fields ?s = inv_fields s0" "\<not> video_shown ?s"
      by (simp_all add: inv_fields_def video_shown_def)
  qed
  have "source_inv s1 \<and> no_frames s1"
    using s1(1,2) by (simp add: source_inv_def inv_fields_def s0_def fresh_source_def reset_def marked_def)
  then show ?thesis using s1(3) note_source_inv by simp
qed

lemma capture_loop_inv:
  assumes "fst (started_source cenv cfg thrown m)" "list_all loop_ok envs"
  shows "source_inv (final_source envs (snd (started_source cenv cfg thrown m))) \<and>
    fst (capture_loop envs (snd (started_source cenv cfg thrown m))) \<noteq> Loop_undefined"
  using loop_turns_inv [OF conjunct1 [OF started_source_inv [OF assms(1)]] conjunct2 [OF started_source_inv [OF assms(1)]] assms(2)]
  by (simp add: capture_loop_def Let_def prod_eq_iff)

section \<open>Properties\<close>

text \<open>C7: every restart of the camera stream is visible to the recorder and to the WebRTC senders: over
  any run of the capture thread of a started source, with any failures, reconnections, samples and callbacks,
  the first published H.264 unit is marked as a discontinuity, and so is every unit whose predecessor came
  from another pipeline.\<close>

theorem units_mark_restarts:
  assumes "fst (started_source cenv cfg thrown m)" "list_all loop_ok envs"
  shows "marked (rs_published (final_source envs (snd (started_source cenv cfg thrown m))))"
  using capture_loop_inv [OF assms] by (simp add: source_inv_def)

text \<open>C17: the frames waiting for the detector are never malformed and never from an earlier pipeline: at any
  point of a run of the capture thread each queued frame is a packed BGR image that the preprocessing accepts
  and carries the generation of the pipeline opened last, and copying rows never reads outside a mapped plane
  as long as the planes are as large as their stride and height say.\<close>

theorem queued_frames_usable:
  assumes "fst (started_source cenv cfg thrown m)" "list_all loop_ok envs"
  shows "fst (capture_loop envs (snd (started_source cenv cfg thrown m))) \<noteq> Loop_undefined \<and>
    (let s = final_source envs (snd (started_source cenv cfg thrown m))
     in \<forall>f \<in> set (bq_queue (rs_frames s)). validate_image (frame_view f) = Inr () \<and>
          vf_stride f = vf_width f * 3 \<and> length (vf_bgr f) = nat (vf_height f) * nat (vf_stride f) \<and>
          vf_generation f = rs_generation s)"
  using capture_loop_inv [OF assms] by (simp add: source_inv_def good_frame_def Let_def)

text \<open>the API never shows video that is not there: whenever the runtime status says video is available
  the source's health is \<^verbatim>\<open>connected\<close> or \<^verbatim>\<open>degraded\<close>, at any point of a run
  of the capture thread; while it is connecting, stalled, reconnecting, in error or stopped the video is
  cleared.\<close>

theorem video_shown_only_live:
  assumes "fst (started_source cenv cfg thrown m)" "list_all loop_ok envs"
    and "s = final_source envs (snd (started_source cenv cfg thrown m))"
    and "rs_status s = Some st" and "video_available st"
  shows "rd_health (rs_diagnostics s) = Connected \<or> rd_health (rs_diagnostics s) = Degraded"
  using capture_loop_inv [OF assms(1,2)] assms(3-5) by (auto simp: source_inv_def video_shown_def delivering_def)

text \<open>a decoded picture is copied row by row into a packed frame: for an accepted sample the newest
  queued frame has the sample's size, its presentation time and the next sequence number, and byte \<open>i\<close> of
  row \<open>row\<close> is that byte of that row of the mapped plane, whatever the padding of the rows.\<close>

theorem frame_copied_exactly:
  assumes "sample_accepted v" "plane_ok v" "rs_enqueue s" "queue_inv (rs_frames s)" "\<not> bq_shutdown (rs_frames s)"
  shows "\<exists>r' s'. capture_sample v (r, s) = Some (True, r', s') \<and>
    (let f = last (bq_queue (rs_frames s')) in
       bq_queue (rs_frames s') \<noteq> [] \<and> vf_width f = vs_width v \<and> vf_height f = vs_height v \<and>
       vf_sequence f = frames_received (rs_diagnostics s) + 1 \<and> vf_pts_ns f = (case vs_pts v of Some p \<Rightarrow> p | None \<Rightarrow> 0) \<and>
       (\<forall>row < nat (vs_height v). \<forall>i < nat (vs_width v * 3).
          vf_bgr f ! (row * nat (vf_stride f) + i) = vs_pixels v ! (row * nat (vs_stride v) + i)))"
proof -
  let ?n = "nat (vs_height v)" and ?rb = "nat (vs_width v * 3)" and ?st = "nat (vs_stride v)"
  have "copy_rows ?n ?rb ?st (vs_pixels v) \<noteq> None"
    using assms(1,2) by (intro copy_rows_defined) (auto simp: sample_accepted_def plane_ok_def nat_diff_distrib)
  then obtain bytes where bytes: "copy_rows ?n ?rb ?st (vs_pixels v) = Some bytes" by auto
  then have "(if rs_enqueue s then copy_rows ?n ?rb ?st (vs_pixels v) else Some []) = Some bytes" using assms(3) by simp
  from capture_sample_takes [OF assms(1) this, of r] obtain s1 where
    run: "capture_sample v (r, s) = Some (True, frame (vs_now v) r, publish_recovery (frame (vs_now v) r)
      (if rs_enqueue s then s1\<lparr>rs_frames := snd (push (sampled_frame v bytes s) (rs_frames s))\<rparr> else s1))" .
  let ?q = "bq_queue (snd (push (sampled_frame v bytes s) (rs_frames s)))"
  have "?q = last_n (bq_capacity (rs_frames s)) (bq_queue (rs_frames s) @ [sampled_frame v bytes s])"
    using push_open_queue [OF assms(5), of "sampled_frame v bytes s"] assms(4) by (simp add: queue_inv_def)
  moreover have "0 < bq_capacity (rs_frames s)" using assms(4) by (simp add: queue_inv_def)
  ultimately have q: "?q \<noteq> []" "last ?q = sampled_frame v bytes s" by (simp_all add: last_n_def)
  show ?thesis
    using run q assms(3) copy_rows_nth [OF bytes] by (simp add: sampled_frame_def Let_def)
qed

section \<open>Witnesses\<close>

text \<open>A source that loses its stream once: its first pipeline delivers one picture and one unit, its second two of each.\<close>

definition blank_source :: rtsp_source where
  "blank_source =
     \<lparr>rs_config = default_video, rs_mode = Decode_auto, rs_enqueue = True, rs_status = Some new_status,
      rs_frames = \<lparr>bq_capacity = 4, bq_queue = [], bq_stats = zero_stats, bq_shutdown = False\<rparr>, rs_units = None, rs_unit_sink = True,
      rs_media_sink = False, rs_worker = False, rs_running = False, rs_pipeline = False, rs_sink = False,
      rs_encoded_sink = False, rs_accepting = False, rs_in_flight = 0, rs_diagnostics = default_diagnostics,
      rs_last_frame = 0, rs_rate = new_rate, rs_jitterbuffer = False, rs_managers = 0, rs_lost = 0, rs_late = 0,
      rs_sequence = 0, rs_first_unit = True, rs_generation = 0, rs_media_known = False, rs_media_available = False,
      rs_media_reason = [], rs_log = [], rs_published = [], rs_media_calls = []\<rparr>"

definition sample_module :: video_module where
  "sample_module = \<lparr>vm_config = default_video, vm_present = False, vm_source = blank_source\<rparr>"

abbreviation sample_started :: rtsp_source where
  "sample_started \<equiv> snd (started_source sample_env (default_config ''web'') None sample_module)"

lemma sample_video_valid: "validate_video_config sample_env (cfg_video (default_config w)) = (True, [])"
proof -
  have "cfg_video (default_config w) = default_video" by (simp add: default_config_def)
  moreover have "validate_video_config sample_env default_video = (True, [])" by code_simp
  ultimately show ?thesis by simp
qed
lemma sample_start: "fst (started_source sample_env (default_config ''web'') None sample_module)"
  by (simp add: started_source_def vm_initialize_def vm_start_def rs_start_def sample_video_valid sample_module_def blank_source_def fresh_source_def Let_def)
definition sample_picture :: "time_point \<Rightarrow> video_sample" where
  "sample_picture t = \<lparr>vs_mapped = True, vs_width = 2, vs_height = 2, vs_stride = 8, vs_pixels = map of_nat [0..<16],
     vs_pts = Some 0, vs_fps = (30, 1), vs_now = t\<rparr>"

definition sample_unit :: unit_sample where
  "sample_unit = \<lparr>us_caps = Some (Some ''constrained-baseline'', Some ''3.1''), us_mapped = True, us_pts = Some 0,
     us_dts = None, us_delta = False, us_discont = False, us_bytes = [0, 0, 1], us_media_thrown = None, us_thrown = None\<rparr>"

definition sample_turn :: "time_point \<Rightarrow> capture_turn" where
  "sample_turn t = \<lparr>ct_acts = [], ct_event = Poll_none, ct_late_acts = [], ct_units = [sample_unit],
     ct_sample = Some (sample_picture t), ct_more_units = [], ct_now = t, ct_stats = None, ct_stats_now = t\<rparr>"

definition sample_pad :: pad_env where
  "sample_pad = \<lparr>pe_caps = Some (''application/x-rtp'', Some ''H264''), pe_plugin = (\<lambda>_. False), pe_make = (\<lambda>_. True),
     pe_chain = True, pe_pad = True\<rparr>"

definition sample_loop :: "time_point \<Rightarrow> capture_turn list \<Rightarrow> loop_turn" where
  "sample_loop t turns = \<lparr>lt_backoff = [], lt_retry_now = t,
     lt_open = \<lparr>oe_create_error = None, oe_rtspsrc = True, oe_bin_add = True, oe_acts = [Cb_pad sample_pad None],
       oe_started = True, oe_start_error = [], oe_thrown = None\<rparr>, lt_open_failed = t, lt_started = t,
     lt_turns = turns, lt_closing = [], lt_failed = t\<rparr>"

definition sample_eos :: capture_turn where
  "sample_eos = (sample_turn 0)\<lparr>ct_event := Poll_eos ''end of stream''\<rparr>"

definition sample_run :: "loop_turn list" where
  "sample_run = [sample_loop 1 [sample_turn 1, sample_eos], sample_loop (seconds 2) [sample_turn (seconds 2), sample_turn (seconds 3)]]"

lemma sample_run_ok: "list_all loop_ok sample_run" by code_simp

lemma sample_run_result:
  "(\<lambda>s. (map (\<lambda>u. (au_source_generation u, au_discontinuity u)) (rs_published s),
      map vf_generation (bq_queue (rs_frames s)), map_option video_available (rs_status s)))
     (final_source sample_run sample_started) = ([(1, True), (2, True), (2, False)], [2, 2], Some True)"
  by code_simp

theorem units_mark_restarts_witness:
  "marked (rs_published (final_source sample_run sample_started)) \<and>
   map (\<lambda>u. (au_source_generation u, au_discontinuity u)) (rs_published (final_source sample_run sample_started)) =
     [(1, True), (2, True), (2, False)]"
proof
  show "marked (rs_published (final_source sample_run sample_started))"
    by (rule units_mark_restarts [OF sample_start sample_run_ok])
qed (use sample_run_result in blast)

theorem queued_frames_usable_witness:
  "list_all (\<lambda>f. validate_image (frame_view f) = Inr ()) (bq_queue (rs_frames (final_source sample_run sample_started))) \<and>
   map vf_generation (bq_queue (rs_frames (final_source sample_run sample_started))) = [2, 2]"
proof
  show "list_all (\<lambda>f. validate_image (frame_view f) = Inr ()) (bq_queue (rs_frames (final_source sample_run sample_started)))"
    using queued_frames_usable [OF sample_start sample_run_ok] by (simp add: list_all_iff Let_def)
qed (use sample_run_result in blast)

theorem video_shown_only_live_witness:
  "delivering (rd_health (rs_diagnostics (final_source sample_run sample_started)))"
proof -
  have "map_option video_available (rs_status (final_source sample_run sample_started)) = Some True"
    using sample_run_result by blast
  then show ?thesis
    using video_shown_only_live [OF sample_start sample_run_ok refl] by (auto simp: delivering_def)
qed

theorem frame_copied_exactly_witness:
  "\<exists>r' s'. capture_sample (sample_picture 1) (new_recovery 1 1 1, blank_source) = Some (True, r', s') \<and>
     bq_queue (rs_frames s') \<noteq> []"
proof -
  have "sample_accepted (sample_picture 1)" "plane_ok (sample_picture 1)" by code_simp+
  moreover have "rs_enqueue blank_source" "queue_inv (rs_frames blank_source)" "\<not> bq_shutdown (rs_frames blank_source)"
    by (simp_all add: blank_source_def queue_inv_def zero_stats_def)
  ultimately show ?thesis
    using frame_copied_exactly [of "sample_picture 1" blank_source "new_recovery 1 1 1"] by (auto simp: Let_def)
qed

end
