(* ===== verification/H264_Encoder.thy ===== *)
theory H264_Encoder
  imports Rtsp_Source Preprocess
begin

text \<open>
  \<^verbatim>\<open>H264Encoder\<close> and \<^verbatim>\<open>H264EncoderModule\<close>
  (\<^verbatim>\<open>src/video/h264_encoder.cpp\<close>, \<^verbatim>\<open>src/video/h264_encoder_module.cpp\<close>): the
  worker that feeds annotated frames to a GStreamer pipeline and the callback that takes the access units
  it produces.  GStreamer is a parameter: the results of its calls, the samples of its sink and its
  scaling of a duration (\<open>scale\<close>, which stands for \<^verbatim>\<open>gst_util_uint64_scale_int\<close> of
  one second) are arguments.  What other threads do between two steps of the worker is a list of actions.
\<close>

section \<open>Data\<close>

record encoder_config =
  ec_bitrate_kbps :: int
  ec_keyframe_interval :: int
  ec_fps_num :: int
  ec_fps_den :: int

definition default_encoder_config :: encoder_config where
  "default_encoder_config = \<lparr>ec_bitrate_kbps = 2000, ec_keyframe_interval = 30, ec_fps_num = 30, ec_fps_den = 1\<rparr>"

record encoder_metrics =
  em_submitted :: u64
  em_rejected :: u64
  em_dropped :: u64
  em_pressure :: u64
  em_encoded :: u64
  em_bytes :: u64
  em_units_dropped :: u64
  em_rebuilds :: u64
  em_age_ms :: int
  em_last_error :: string

definition zero_metrics :: encoder_metrics where
  "zero_metrics = \<lparr>em_submitted = 0, em_rejected = 0, em_dropped = 0, em_pressure = 0, em_encoded = 0, em_bytes = 0,
     em_units_dropped = 0, em_rebuilds = 0, em_age_ms = - 1, em_last_error = []\<rparr>"

text \<open>A buffer handed to the pipeline.\<close>

record input_buffer =
  ib_pts :: u64
  ib_duration :: u64
  ib_sequence :: u64
  ib_bytes :: "u8 list"

text \<open>\<open>he_elements\<close> says whether the two borrowed elements are set.  \<open>he_buffers\<close> and
  \<open>he_units\<close> record, for the properties, the buffers handed to the pipeline and the units
  published.\<close>

record h264_encoder =
  he_config :: encoder_config
  he_input :: "video_frame bounded_queue"
  he_output :: "encoded_access_unit bounded_queue"
  he_status :: "runtime_status option"
  he_sink :: bool
  he_worker :: bool
  he_running :: bool
  he_pipeline :: bool
  he_elements :: bool
  he_accepting :: bool
  he_in_flight :: nat
  he_metrics :: encoder_metrics
  he_unit_time :: time_point
  he_width :: int
  he_height :: int
  he_epoch :: time_point
  he_input_pts :: u64
  he_has_input_pts :: bool
  he_next_discontinuity :: bool
  he_has_output_pts :: bool
  he_has_origin :: bool
  he_output_pts :: u64
  he_raw_origin :: u64
  he_output_origin :: u64
  he_log :: "(log_level \<times> string) list"
  he_buffers :: "input_buffer list"
  he_units :: "encoded_access_unit list"

section \<open>Checks\<close>

definition valid_config :: "encoder_config \<Rightarrow> unit result" where
  "valid_config c =
     (if ec_bitrate_kbps c \<le> 0 \<or> ec_keyframe_interval c \<le> 0 \<or> ec_fps_num c \<le> 0 \<or> ec_fps_den c \<le> 0
      then Inl ''H.264 encoder bitrate, keyframe interval, and frame rate must be positive''
      else if ec_bitrate_kbps c > 14000 then Inl ''H.264 encoder bitrate exceeds constrained-baseline Level 3.1''
      else Inr ())"

definition macroblocks :: "int \<Rightarrow> int \<Rightarrow> int" where
  "macroblocks w h = trunc_div (w + 15) 16 * trunc_div (h + 15) 16"

definition level_3_1_supports :: "video_frame \<Rightarrow> encoder_config \<Rightarrow> unit result" where
  "level_3_1_supports f c =
     (let mbs = macroblocks (vf_width f) (vf_height f) in
      if mbs > 3600 \<or> mbs * ec_fps_num c > 108000 * ec_fps_den c
      then Inl ''encoder frame dimensions and rate exceed constrained-baseline Level 3.1''
      else Inr ())"

definition valid_frame :: "video_frame \<Rightarrow> unit result" where
  "valid_frame f =
     (if vf_width f \<le> 0 \<or> vf_height f \<le> 0 \<or> vf_stride f < 0 \<or> vf_width f > int_max div 3
      then Inl ''encoder frame dimensions or stride are invalid''
      else let row_bytes = nat (vf_width f) * 3; stride = nat (vf_stride f); rows_before_last = nat (vf_height f - 1) in
        if stride < row_bytes \<or> rows_before_last > (size_max - row_bytes) div stride \<or>
           length (vf_bgr f) < rows_before_last * stride + row_bytes
        then Inl ''encoder frame buffer is shorter than its BGR dimensions and stride''
        else Inr ())"

fun encoder_json_escape :: "string \<Rightarrow> string" where
  "encoder_json_escape [] = []"
| "encoder_json_escape (c # s) =
     (if c = CHR 0x5C \<or> c = CHR 0x22 then [CHR 0x5C, c]
      else if c = CHR 0x0A then [CHR 0x5C, CHR ''n'']
      else if c = CHR 0x0D then [CHR 0x5C, CHR ''r'']
      else if c = CHR 0x09 then [CHR 0x5C, CHR ''t'']
      else if byte c < 32 then u_escape c else [c]) @ encoder_json_escape s"

definition serialize_h264_encoder_metrics :: "encoder_metrics \<Rightarrow> string" where
  \<open>serialize_h264_encoder_metrics m =
     ''{"frames_submitted":'' @ to_string (unat (em_submitted m)) @
     '',"frames_rejected":'' @ to_string (unat (em_rejected m)) @
     '',"frames_dropped":'' @ to_string (unat (em_dropped m)) @
     '',"appsrc_pressure_dropped":'' @ to_string (unat (em_pressure m)) @
     '',"access_units_encoded":'' @ to_string (unat (em_encoded m)) @
     '',"bytes_encoded":'' @ to_string (unat (em_bytes m)) @
     '',"access_units_dropped":'' @ to_string (unat (em_units_dropped m)) @
     '',"pipeline_rebuilds":'' @ to_string (unat (em_rebuilds m)) @
     '',"last_access_unit_age_ms":'' @ int_to_string (em_age_ms m) @
     '',"last_error":"'' @ encoder_json_escape (em_last_error m) @ ''"}''\<close>

section \<open>Metrics\<close>

abbreviation on_metrics :: "(encoder_metrics \<Rightarrow> encoder_metrics) \<Rightarrow> h264_encoder \<Rightarrow> h264_encoder" where
  "on_metrics f e \<equiv> e\<lparr>he_metrics := f (he_metrics e)\<rparr>"

definition metrics :: "time_point \<Rightarrow> h264_encoder \<Rightarrow> encoder_metrics" where
  "metrics now e =
     (let m = he_metrics e in
      m\<lparr>em_dropped := dropped (bq_stats (he_input e)) + em_pressure m,
        em_units_dropped := dropped (bq_stats (he_output e)),
        em_age_ms := (if he_unit_time e \<noteq> 0 then trunc_div (now - he_unit_time e) 1000000 else em_age_ms m)\<rparr>)"

definition he_publish_metrics :: "time_point \<Rightarrow> h264_encoder \<Rightarrow> h264_encoder" where
  "he_publish_metrics now e =
     (case he_status e of
        None \<Rightarrow> e
      | Some st \<Rightarrow>
          let m = metrics now e in
          e\<lparr>he_status := Some (update_encoder
              \<lparr>frames_submitted = em_submitted m, frames_rejected = em_rejected m, frames_dropped = em_dropped m,
               appsrc_pressure_dropped = em_pressure m, access_units_encoded = em_encoded m, bytes_encoded = em_bytes m,
               enc_access_units_dropped = em_units_dropped m, last_access_unit_age_ms = em_age_ms m,
               enc_last_error = em_last_error m\<rparr> st)\<rparr>)"

definition he_note :: "log_level \<Rightarrow> string \<Rightarrow> h264_encoder \<Rightarrow> h264_encoder" where
  "he_note l text e = e\<lparr>he_log := he_log e @ [(l, text)]\<rparr>"

definition he_set_error :: "string \<Rightarrow> time_point \<Rightarrow> h264_encoder \<Rightarrow> h264_encoder" where
  "he_set_error err now e =
     he_publish_metrics now (he_note Log_Error err (on_metrics (em_last_error_update (\<lambda>_. err)) e))"

definition count_rejected :: "h264_encoder \<Rightarrow> h264_encoder" where
  "count_rejected e = on_metrics (\<lambda>m. m\<lparr>em_rejected := em_rejected m + 1\<rparr>) e"

section \<open>Callback gate\<close>

definition he_begin_callback :: "h264_encoder \<Rightarrow> bool \<times> h264_encoder" where
  "he_begin_callback e = (if \<not> he_accepting e then (False, e) else (True, e\<lparr>he_in_flight := he_in_flight e + 1\<rparr>))"

definition he_end_callback :: "h264_encoder \<Rightarrow> h264_encoder" where
  "he_end_callback e = e\<lparr>he_in_flight := he_in_flight e - 1\<rparr>"

definition he_shut_callbacks :: "h264_encoder \<Rightarrow> h264_encoder" where
  "he_shut_callbacks e = e\<lparr>he_accepting := False\<rparr>"

definition he_allow_callbacks :: "h264_encoder \<Rightarrow> h264_encoder" where
  "he_allow_callbacks e = e\<lparr>he_accepting := True\<rparr>"

interpretation encoder_gate: callback_gate he_accepting he_in_flight he_begin_callback he_end_callback
    he_shut_callbacks he_allow_callbacks
  by unfold_locales (simp_all add: he_begin_callback_def he_end_callback_def he_shut_callbacks_def he_allow_callbacks_def)

section \<open>Access units\<close>

text \<open>A sample: whether its buffer is there and can be mapped, what the buffer says, whether the access-unit
  sink raises an exception, and the clock when the metrics are updated and when they are published.\<close>

record encoder_sample =
  xs_mapped :: bool
  xs_offset :: "u64 option"
  xs_pts :: "u64 option"
  xs_dts :: "u64 option"
  xs_delta :: bool
  xs_bytes :: "u8 list"
  xs_thrown :: "string option option"
  xs_now :: time_point
  xs_publish_now :: time_point

definition rebase :: "h264_encoder \<Rightarrow> u64 \<Rightarrow> u64" where
  "rebase e raw =
     (if raw \<ge> he_raw_origin e then he_output_origin e + (raw - he_raw_origin e)
      else let delta = he_raw_origin e - raw in
        if he_output_origin e > delta then he_output_origin e - delta else 0)"

text \<open>The section under the timeline lock up to the origin of the pipeline.\<close>

definition set_origin :: "(int \<Rightarrow> int \<Rightarrow> u64) \<Rightarrow> u64 \<Rightarrow> h264_encoder \<Rightarrow> h264_encoder" where
  "set_origin scale pts e =
     (if he_has_origin e then e
      else e\<lparr>he_raw_origin := pts,
             he_output_origin := (if he_has_output_pts e
               then max pts (he_output_pts e + scale (ec_fps_den (he_config e)) (ec_fps_num (he_config e))) else pts),
             he_has_origin := True\<rparr>)"

definition place_unit :: "(int \<Rightarrow> int \<Rightarrow> u64) \<Rightarrow> encoder_sample \<Rightarrow> h264_encoder \<Rightarrow> u64 \<times> u64 \<times> h264_encoder" where
  "place_unit scale v e =
     (let dts = (case xs_dts v of Some d \<Rightarrow> d | None \<Rightarrow> 0) in
      case xs_pts v of
        None \<Rightarrow> (0, dts, e)
      | Some pts \<Rightarrow>
          let e1 = set_origin scale pts e; out = rebase e1 pts in
          (out, if xs_dts v \<noteq> None then rebase e1 dts else dts,
           e1\<lparr>he_output_pts := out, he_has_output_pts := True\<rparr>))"

definition new_unit :: "encoder_sample \<Rightarrow> u64 \<Rightarrow> u64 \<Rightarrow> bool \<Rightarrow> encoded_access_unit" where
  "new_unit v pts dts discontinuity =
     \<lparr>au_sequence = (case xs_offset v of Some i \<Rightarrow> i | None \<Rightarrow> 0), au_pts_ns = pts, au_dts_ns = dts,
      au_has_pts = (xs_pts v \<noteq> None), au_has_dts = (xs_dts v \<noteq> None), au_keyframe = (\<not> xs_delta v),
      au_discontinuity = discontinuity, au_source_generation = 0, au_bytes = xs_bytes v\<rparr>"

definition call_unit_sink :: "encoder_sample \<Rightarrow> h264_encoder \<Rightarrow> h264_encoder" where
  "call_unit_sink v e =
     (if \<not> he_sink e then e else case xs_thrown v of
        None \<Rightarrow> e
      | Some (Some what) \<Rightarrow> he_note Log_Error (''encoded access-unit sink failed: '' @ what) e
      | Some None \<Rightarrow> he_note Log_Error ''encoded access-unit sink failed'' e)"

definition he_capture_sample :: "(int \<Rightarrow> int \<Rightarrow> u64) \<Rightarrow> encoder_sample \<Rightarrow> h264_encoder \<Rightarrow> bool \<times> h264_encoder" where
  "he_capture_sample scale v e =
     (if \<not> xs_mapped v \<or> xs_bytes v = [] then (False, e)
      else
        let (pts, dts, e1) = place_unit scale v e;
            u = new_unit v pts dts (he_next_discontinuity e1);
            e2 = e1\<lparr>he_next_discontinuity := False\<rparr>;
            e3 = call_unit_sink v e2;
            e4 = e3\<lparr>he_output := snd (push u (he_output e3)), he_units := he_units e3 @ [u]\<rparr>;
            e5 = on_metrics (\<lambda>m. m\<lparr>em_encoded := em_encoded m + 1,
                                   em_bytes := em_bytes m + of_nat (length (xs_bytes v))\<rparr>) e4
        in (True, he_publish_metrics (xs_publish_now v) (e5\<lparr>he_unit_time := xs_now v\<rparr>)))"

datatype flow_return = Flow_ok | Flow_flushing | Flow_error

text \<open>\<open>None\<close> is a sink that had no sample to pull.\<close>

definition on_new_sample ::
    "(int \<Rightarrow> int \<Rightarrow> u64) \<Rightarrow> encoder_sample option \<Rightarrow> h264_encoder \<Rightarrow> flow_return \<times> h264_encoder" where
  "on_new_sample scale v e =
     (case he_begin_callback e of
        (False, e1) \<Rightarrow> (Flow_flushing, e1)
      | (True, e1) \<Rightarrow>
          let (captured, e2) = (case v of None \<Rightarrow> (False, e1) | Some s \<Rightarrow> he_capture_sample scale s e1)
          in (if captured then Flow_ok else Flow_error, he_end_callback e2))"

section \<open>The pipeline\<close>

definition he_close_pipeline :: "h264_encoder \<Rightarrow> h264_encoder" where
  "he_close_pipeline e =
     (he_shut_callbacks e)\<lparr>he_elements := False, he_next_discontinuity := True, he_pipeline := False\<rparr>"

record encoder_open_env =
  xo_create_error :: "string option"
  xo_elements :: bool
  xo_linked :: bool
  xo_now :: time_point
  xo_playing :: bool

definition he_open_pipeline :: "video_frame \<Rightarrow> encoder_open_env \<Rightarrow> h264_encoder \<Rightarrow> string option \<times> h264_encoder" where
  "he_open_pipeline f env e =
     (case level_3_1_supports f (he_config e) of
        Inl err \<Rightarrow> (Some err, e)
      | Inr _ \<Rightarrow>
          case xo_create_error env of
            Some err \<Rightarrow> (Some err, e\<lparr>he_pipeline := False\<rparr>)
          | None \<Rightarrow>
              let e1 = e\<lparr>he_pipeline := True\<rparr> in
              if \<not> xo_elements env then (Some ''could not create H.264 encoder pipeline elements'', he_close_pipeline e1)
              else if \<not> xo_linked env then (Some ''could not link H.264 encoder pipeline'', he_close_pipeline e1)
              else
                let e2 = (he_allow_callbacks e1)\<lparr>he_elements := True, he_width := vf_width f, he_height := vf_height f,
                      he_epoch := (if he_epoch e \<noteq> 0 then he_epoch e
                                   else if vf_timestamp f = 0 then xo_now env else vf_timestamp f),
                      he_has_origin := False\<rparr>;
                    e3 = he_note Log_Info ''H.264 pipeline state PLAYING requested'' e2
                in if \<not> xo_playing env
                   then (Some ''failed to request PLAYING state for H.264 encoder pipeline'', he_close_pipeline e3)
                   else (None, e3))"

record submit_env =
  xb_level :: u64
  xb_allocated :: bool
  xb_mapped :: bool
  xb_now :: time_point
  xb_flow :: flow_return

datatype submit_result = Submitted | Pressure | Refused string | Submit_undefined

text \<open>The presentation time of an input buffer.\<close>

definition input_pts :: "time_point \<Rightarrow> h264_encoder \<Rightarrow> u64" where
  "input_pts capture_time e =
     (let pts = (if capture_time > he_epoch e then of_int (capture_time - he_epoch e) else 0) in
      if he_has_input_pts e \<and> pts \<le> he_input_pts e then he_input_pts e + 1 else pts)"

definition submit_frame ::
    "(int \<Rightarrow> int \<Rightarrow> u64) \<Rightarrow> video_frame \<Rightarrow> submit_env \<Rightarrow> h264_encoder \<Rightarrow> submit_result \<times> h264_encoder" where
  "submit_frame scale f env e =
     (case valid_frame f of
        Inl err \<Rightarrow> (Refused err, e)
      | Inr _ \<Rightarrow>
          if vf_width f \<noteq> he_width e \<or> vf_height f \<noteq> he_height e
          then (Refused ''encoder frame dimensions changed after the pipeline started'', e)
          else if xb_level env \<ge> 2 then (Pressure, e)
          else if \<not> xb_allocated env then (Refused ''could not allocate encoder input buffer'', e)
          else if \<not> xb_mapped env then (Refused ''could not map encoder input buffer'', e)
          else case copy_rows (nat (vf_height f)) (nat (vf_width f) * 3) (nat (vf_stride f)) (vf_bgr f) of
            None \<Rightarrow> (Submit_undefined, e)
          | Some bytes \<Rightarrow>
              let pts = input_pts (if vf_timestamp f = 0 then xb_now env else vf_timestamp f) e;
                  b = \<lparr>ib_pts = pts, ib_duration = scale (ec_fps_den (he_config e)) (ec_fps_num (he_config e)),
                       ib_sequence = vf_sequence f, ib_bytes = bytes\<rparr>;
                  e1 = e\<lparr>he_input_pts := pts, he_has_input_pts := True, he_buffers := he_buffers e @ [b]\<rparr>
              in (if xb_flow env \<noteq> Flow_ok then Refused ''H.264 encoder rejected input frame'' else Submitted, e1))"

section \<open>The worker\<close>

datatype encoder_act = Enc_sample "encoder_sample option" | Enc_stop | Enc_frame video_frame | Enc_take | Enc_input_shutdown

definition he_request_stop :: "h264_encoder \<Rightarrow> h264_encoder" where
  "he_request_stop e = e\<lparr>he_running := False\<rparr>"

text \<open>What other threads do: the callback, a stop request, the producer of frames and its shutdown, the
  consumer of units.\<close>

fun do_encoder_act :: "(int \<Rightarrow> int \<Rightarrow> u64) \<Rightarrow> encoder_act \<Rightarrow> h264_encoder \<Rightarrow> h264_encoder" where
  "do_encoder_act scale (Enc_sample v) e = snd (on_new_sample scale v e)"
| "do_encoder_act scale Enc_stop e = he_request_stop e"
| "do_encoder_act scale (Enc_frame f) e = e\<lparr>he_input := snd (push f (he_input e))\<rparr>"
| "do_encoder_act scale Enc_take e = e\<lparr>he_output := snd (take_front (he_output e))\<rparr>"
| "do_encoder_act scale Enc_input_shutdown e = e\<lparr>he_input := shutdown (he_input e)\<rparr>"

abbreviation encoder_acts :: "(int \<Rightarrow> int \<Rightarrow> u64) \<Rightarrow> encoder_act list \<Rightarrow> h264_encoder \<Rightarrow> h264_encoder" where
  "encoder_acts scale \<equiv> fold (do_encoder_act scale)"

text \<open>What one turn of \<^verbatim>\<open>run\<close> meets: the actions before its check, before it polls the bus and
  before it submits, the bus, and the clock at each publication.\<close>

record encode_turn =
  et_acts :: "encoder_act list"
  et_poll_acts :: "encoder_act list"
  et_poll :: bus_poll
  et_submit_acts :: "encoder_act list"
  et_open :: encoder_open_env
  et_submit :: submit_env
  et_idle_now :: time_point
  et_poll_now :: time_point
  et_rebuild_now :: time_point
  et_end_now :: time_point

datatype run_status = Run_again | Run_ends | Run_undefined

definition poll_pipeline :: "encode_turn \<Rightarrow> h264_encoder \<Rightarrow> h264_encoder" where
  "poll_pipeline env e =
     (if \<not> he_pipeline e then e
      else case et_poll env of
        Poll_error d \<Rightarrow> he_close_pipeline (he_set_error d (et_poll_now env) e)
      | _ \<Rightarrow> e)"

definition rebuild_if_resized :: "encode_turn \<Rightarrow> video_frame \<Rightarrow> h264_encoder \<Rightarrow> h264_encoder" where
  "rebuild_if_resized env f e =
     (if he_pipeline e \<and> (vf_width f \<noteq> he_width e \<or> vf_height f \<noteq> he_height e)
      then he_publish_metrics (et_rebuild_now env)
             (on_metrics (\<lambda>m. m\<lparr>em_rebuilds := em_rebuilds m + 1, em_last_error := []\<rparr>) (he_close_pipeline e))
      else e)"

definition reject_frame :: "string \<Rightarrow> time_point \<Rightarrow> h264_encoder \<Rightarrow> h264_encoder" where
  "reject_frame err now e = he_set_error err now (count_rejected e)"

definition count_frame :: "encode_turn \<Rightarrow> bool \<Rightarrow> h264_encoder \<Rightarrow> h264_encoder" where
  "count_frame env was_dropped e =
     he_publish_metrics (et_end_now env)
       (on_metrics (\<lambda>m. if was_dropped then m\<lparr>em_pressure := em_pressure m + 1\<rparr>
                        else m\<lparr>em_submitted := em_submitted m + 1\<rparr>) e)"

text \<open>A turn with a frame, after its validity check.\<close>

definition encode_frame ::
    "(int \<Rightarrow> int \<Rightarrow> u64) \<Rightarrow> encode_turn \<Rightarrow> video_frame \<Rightarrow> h264_encoder \<Rightarrow> run_status \<times> h264_encoder" where
  "encode_frame scale env f e0 =
     (let e1 = rebuild_if_resized env f (poll_pipeline env (encoder_acts scale (et_poll_acts env) e0));
          (failed_open, e2) = (if he_pipeline e1 then (None, e1) else he_open_pipeline f (et_open env) e1)
      in case failed_open of
           Some err \<Rightarrow> (Run_again, reject_frame err (et_end_now env) e2)
         | None \<Rightarrow>
             (case submit_frame scale f (et_submit env) (encoder_acts scale (et_submit_acts env) e2) of
                (Submit_undefined, e3) \<Rightarrow> (Run_undefined, e3)
              | (Refused err, e3) \<Rightarrow> (Run_again, he_close_pipeline (reject_frame err (et_end_now env) e3))
              | (Pressure, e3) \<Rightarrow> (Run_again, count_frame env True e3)
              | (Submitted, e3) \<Rightarrow> (Run_again, count_frame env False e3)))"

definition run_turn :: "(int \<Rightarrow> int \<Rightarrow> u64) \<Rightarrow> encode_turn \<Rightarrow> h264_encoder \<Rightarrow> run_status \<times> h264_encoder" where
  "run_turn scale env e0 =
     (let e = encoder_acts scale (et_acts env) e0 in
      if \<not> he_running e then (Run_ends, e)
      else
        let (fr, q) = pop_for (he_input e); e1 = e\<lparr>he_input := q\<rparr> in
        case fr of
          None \<Rightarrow> if is_shutdown (he_input e1) then (Run_ends, e1)
                  else (Run_again, he_publish_metrics (et_idle_now env) e1)
        | Some f \<Rightarrow>
            (case valid_frame f of
               Inl err \<Rightarrow> (Run_again, reject_frame err (et_end_now env) e1)
             | Inr _ \<Rightarrow> encode_frame scale env f e1))"

fun run_turns :: "(int \<Rightarrow> int \<Rightarrow> u64) \<Rightarrow> encode_turn list \<Rightarrow> h264_encoder \<Rightarrow> run_status \<times> h264_encoder" where
  "run_turns scale [] e = (Run_again, e)"
| "run_turns scale (env # envs) e =
     (case run_turn scale env e of
        (Run_again, e1) \<Rightarrow> run_turns scale envs e1
      | (Run_ends, e1) \<Rightarrow> (Run_ends, he_close_pipeline e1)
      | (Run_undefined, e1) \<Rightarrow> (Run_undefined, e1))"

section \<open>Start and stop\<close>

definition he_start ::
    "encoder_config \<Rightarrow> bool \<Rightarrow> bool \<Rightarrow> time_point \<Rightarrow> string option \<Rightarrow> h264_encoder \<Rightarrow> unit result \<times> h264_encoder" where
  "he_start cfg initialized plugins now thread_error e =
     (if he_worker e then (Inl ''H.264 encoder is already running'', e)
      else case valid_config cfg of
        Inl err \<Rightarrow> (Inl err, e)
      | Inr _ \<Rightarrow>
          if \<not> initialized then (Inl ''GStreamer must be initialized before the H.264 encoder'', e)
          else if \<not> plugins then (Inl ''required GStreamer H.264 encoder plugins are unavailable'', e)
          else
            let e1 = he_publish_metrics now
                  (e\<lparr>he_config := cfg, he_width := 0, he_height := 0, he_epoch := 0, he_input_pts := 0,
                     he_has_input_pts := False, he_next_discontinuity := True, he_has_output_pts := False,
                     he_has_origin := False, he_output_pts := 0, he_metrics := zero_metrics, he_unit_time := 0,
                     he_output := reset (he_output e)\<rparr>)
            in case thread_error of
                 Some err \<Rightarrow> (Inl err, e1\<lparr>he_running := False\<rparr>)
               | None \<Rightarrow> (Inr (), e1\<lparr>he_running := True, he_worker := True\<rparr>))"

text \<open>After the thread has ended.\<close>

definition he_stop :: "time_point \<Rightarrow> h264_encoder \<Rightarrow> h264_encoder" where
  "he_stop now e =
     he_publish_metrics now ((he_request_stop e)\<lparr>he_worker := False, he_output := shutdown (he_output e)\<rparr>)"

section \<open>The lifecycle module\<close>

text \<open>\<^verbatim>\<open>H264EncoderModule\<close>: whether it has an encoder; \<open>xm_encoder\<close> is that encoder, and
  without one it holds the queues, the status and the sink the next encoder is given.\<close>

record encoder_module =
  xm_config :: encoder_config
  xm_present :: bool
  xm_encoder :: h264_encoder
  xm_last_error :: string

definition he_clear_status :: "h264_encoder \<Rightarrow> h264_encoder" where
  "he_clear_status e = e\<lparr>he_status := map_option clear_encoder (he_status e)\<rparr>"

definition fresh_encoder :: "h264_encoder \<Rightarrow> h264_encoder" where
  "fresh_encoder e =
     \<lparr>he_config = default_encoder_config, he_input = he_input e, he_output = he_output e, he_status = he_status e,
      he_sink = he_sink e, he_worker = False, he_running = False, he_pipeline = False, he_elements = False,
      he_accepting = False, he_in_flight = 0, he_metrics = zero_metrics, he_unit_time = 0, he_width = 0, he_height = 0,
      he_epoch = 0, he_input_pts = 0, he_has_input_pts = False, he_next_discontinuity = True, he_has_output_pts = False,
      he_has_origin = False, he_output_pts = 0, he_raw_origin = 0, he_output_origin = 0, he_log = [], he_buffers = [],
      he_units = []\<rparr>"

definition xm_initialize :: "encoder_module \<Rightarrow> bool \<times> encoder_module" where
  "xm_initialize m =
     (if xm_present m then (False, m)
      else
        let e = xm_encoder m; e1 = he_clear_status (e\<lparr>he_output := reset (he_output e)\<rparr>)
        in (True, m\<lparr>xm_present := True, xm_encoder := fresh_encoder e1, xm_last_error := []\<rparr>))"

definition xm_start ::
    "bool \<Rightarrow> bool \<Rightarrow> time_point \<Rightarrow> string option \<Rightarrow> encoder_module \<Rightarrow> bool \<times> encoder_module" where
  "xm_start initialized plugins now thread_error m =
     (if \<not> xm_present m then (False, m)
      else case he_start (xm_config m) initialized plugins now thread_error (xm_encoder m) of
        (Inr _, e) \<Rightarrow> (True, m\<lparr>xm_encoder := e, xm_last_error := []\<rparr>)
      | (Inl err, e) \<Rightarrow> (False, m\<lparr>xm_encoder := he_note Log_Error err e, xm_last_error := err\<rparr>))"

definition xm_stop :: "encoder_module \<Rightarrow> encoder_module" where
  "xm_stop m = (if xm_present m then m\<lparr>xm_encoder := he_request_stop (xm_encoder m)\<rparr> else m)"

text \<open>\<^verbatim>\<open>wait\<close> stops the encoder, and its destructor stops it again.\<close>

definition xm_wait :: "time_point \<Rightarrow> time_point \<Rightarrow> encoder_module \<Rightarrow> encoder_module" where
  "xm_wait now later m =
     (let e = (if xm_present m then he_stop later (he_stop now (xm_encoder m)) else xm_encoder m)
      in m\<lparr>xm_present := False, xm_encoder := he_clear_status e\<rparr>)"

end
