(* ===== verification/Annotator.thy ===== *)
theory Annotator
  imports Rtsp_Source Yolo_Postprocess Json_Value
begin

text \<open>
  \<^verbatim>\<open>src/video/annotator.cpp\<close>: the boxes, labels and metrics drawn into a copy of a frame.
  OpenCV is a parameter: \<open>text_size\<close> stands for \<^verbatim>\<open>cv::getTextSize\<close> (width, height and
  baseline), \<open>paint\<close> for what the drawing calls do to the pixels, and an exception of one of them is
  an argument.  The drawing calls themselves are the list the code makes.
\<close>

section \<open>Data\<close>

record annotation_options =
  ao_enabled :: bool
  ao_show_metrics :: bool
  ao_fps :: fp
  ao_inference_ms :: fp
  ao_box_thickness :: int
  ao_font_scale :: fp

definition default_annotation :: annotation_options where
  "default_annotation = \<lparr>ao_enabled = True, ao_show_metrics = False, ao_fps = Fin 0, ao_inference_ms = Fin 0,
     ao_box_thickness = 2, ao_font_scale = Fin (1/2)\<rparr>"

type_synonym color = "int \<times> int \<times> int"

text \<open>An outline is given by its corners, a filled rectangle by its corner and size, a text by its origin.\<close>

datatype drawing =
    Outline int int int int color int
  | Filled int int int int color
  | Put_text string int int fp

type_synonym text_metrics = "string \<Rightarrow> fp \<Rightarrow> int \<times> int \<times> int"

definition empty_frame :: video_frame where
  "empty_frame = \<lparr>vf_sequence = 0, vf_timestamp = 0, vf_pts_ns = 0, vf_generation = 0, vf_width = 0, vf_height = 0,
     vf_stride = 0, vf_bgr = []\<rparr>"

section \<open>Checks\<close>

definition annotation_valid_frame :: "video_frame \<Rightarrow> unit result" where
  "annotation_valid_frame f =
     (if vf_width f \<le> 0 \<or> vf_height f \<le> 0 \<or> vf_stride f < 0 \<or> vf_width f > int_max div 3
      then Inl ''annotation frame dimensions or stride are invalid''
      else let row_bytes = nat (vf_width f) * 3; stride = nat (vf_stride f) in
        if stride < row_bytes then Inl ''annotation frame stride is shorter than a BGR row''
        else let rows_before_last = nat (vf_height f - 1) in
          if rows_before_last > (size_max - row_bytes) div stride \<or>
             length (vf_bgr f) < rows_before_last * stride + row_bytes
          then Inl ''annotation frame buffer is shorter than its dimensions and stride''
          else Inr ())"

definition valid_options :: "annotation_options \<Rightarrow> unit result" where
  "valid_options ops =
     (if ao_box_thickness ops \<le> 0 \<or> ao_box_thickness ops > 32767 \<or>
         \<not> isfinite (ao_font_scale ops) \<or> fp_le (ao_font_scale ops) (Fin 0) \<or> fp_less (Fin 1000) (ao_font_scale ops) \<or>
         ao_show_metrics ops \<and>
           (\<not> isfinite (ao_fps ops) \<or> \<not> isfinite (ao_inference_ms ops) \<or>
            fp_less (ao_fps ops) (Fin 0) \<or> fp_less (ao_inference_ms ops) (Fin 0))
      then Inl ''annotation style or metrics are invalid'' else Inr ())"

section \<open>Text\<close>

text \<open>A number of a stream in fixed format with \<open>n\<close> decimals.\<close>

definition pad_zeros :: "nat \<Rightarrow> string \<Rightarrow> string" where
  "pad_zeros n s = replicate (n - length s) (CHR ''0'') @ s"

fun fixed_double :: "nat \<Rightarrow> fp \<Rightarrow> string" where
  "fixed_double n (Fin x) =
     (let m = nat (rne (\<bar>x\<bar> * 10 ^ n))
      in (if x < 0 then ''-'' else []) @ to_string (m div 10 ^ n) @ ''.'' @ pad_zeros n (to_string (m mod 10 ^ n)))"
| "fixed_double n PosInf = ''inf''"
| "fixed_double n NegInf = ''-inf''"
| "fixed_double n NaN = ''nan''"

definition detection_label :: "detection \<Rightarrow> string list \<Rightarrow> string" where
  "detection_label d names =
     (let named = det_class d \<ge> 0 \<and> nat (det_class d) < length names \<and> names ! nat (det_class d) \<noteq> [];
          name = (if named then names ! nat (det_class d) else ''class_'' @ int_to_string (det_class d))
      in name @ '' '' @ fixed_double 2 (det_confidence d))"

definition metrics_label :: "annotation_options \<Rightarrow> string" where
  "metrics_label ops = ''FPS '' @ fixed_double 1 (ao_fps ops) @ ''  infer '' @ fixed_double 1 (ao_inference_ms ops) @ '' ms''"

section \<open>Drawing\<close>

definition draw_label ::
    "text_metrics \<Rightarrow> int \<Rightarrow> int \<Rightarrow> int \<Rightarrow> int \<Rightarrow> int \<Rightarrow> string \<Rightarrow> fp \<Rightarrow> color \<Rightarrow> drawing list" where
  "draw_label text_size cols rows left upper bottom label font_scale col =
     (let (tw, th, baseline) = text_size label font_scale;
          label_width = min (cols - left) (tw + 4);
          label_height = min rows (th + baseline + 4);
          label_top = (if upper \<ge> label_height then upper - label_height
                       else if bottom + 1 < 0 then 0 else if rows - label_height < bottom + 1 then rows - label_height
                       else bottom + 1)
      in [Filled left label_top label_width label_height col, Put_text label (left + 2) (label_top + th + 2) font_scale])"

definition draw_metrics :: "text_metrics \<Rightarrow> int \<Rightarrow> int \<Rightarrow> annotation_options \<Rightarrow> drawing list" where
  "draw_metrics text_size cols rows ops =
     (let label = metrics_label ops; (tw, th, baseline) = text_size label (ao_font_scale ops);
          width = min cols (tw + 8); height = min rows (th + baseline + 8)
      in [Filled 0 0 width height (0, 0, 0), Put_text label 4 (th + 4) (ao_font_scale ops)])"

text \<open>The detections that are skipped; an integer is converted to single precision for the comparison.\<close>

definition drawable :: "detection \<Rightarrow> int \<Rightarrow> int \<Rightarrow> bool" where
  "drawable d width height \<longleftrightarrow>
     \<not> (det_class d < 0 \<or> \<not> isfinite (det_confidence d) \<or> \<not> isfinite (det_x1 d) \<or> \<not> isfinite (det_y1 d) \<or>
        \<not> isfinite (det_x2 d) \<or> \<not> isfinite (det_y2 d) \<or>
        fp_le (det_x2 d) (det_x1 d) \<or> fp_le (det_y2 d) (det_y1 d) \<or> fp_le (det_x2 d) (Fin 0) \<or> fp_le (det_y2 d) (Fin 0) \<or>
        fp_le (round32 (of_int width)) (det_x1 d) \<or> fp_le (round32 (of_int height)) (det_y1 d))"

fun floor_fp :: "fp \<Rightarrow> fp" where
  "floor_fp (Fin x) = Fin (of_int \<lfloor>x\<rfloor>)"
| "floor_fp v = v"

fun ceil_fp :: "fp \<Rightarrow> fp" where
  "ceil_fp (Fin x) = Fin (of_int \<lceil>x\<rceil>)"
| "ceil_fp v = v"

text \<open>The conversion of a \<^verbatim>\<open>double\<close> to \<^verbatim>\<open>int\<close>; outside the range of the type it is
  undefined.\<close>

fun int_of_fp :: "fp \<Rightarrow> int option" where
  "int_of_fp (Fin x) =
     (let n = (if 0 \<le> x then \<lfloor>x\<rfloor> else \<lceil>x\<rceil>) in if - int_max - 1 \<le> n \<and> n \<le> int_max then Some n else None)"
| "int_of_fp v = None"

definition low_edge :: "fp \<Rightarrow> int \<Rightarrow> int option" where
  "low_edge v extent = int_of_fp (fp_clamp (floor_fp v) (Fin 0) (Fin (of_int (extent - 1))))"

definition high_edge :: "fp \<Rightarrow> int \<Rightarrow> int option" where
  "high_edge v extent = int_of_fp (fp_clamp (fp_sub round64 (ceil_fp v) (Fin 1)) (Fin 0) (Fin (of_int (extent - 1))))"

definition draw_detection ::
    "text_metrics \<Rightarrow> string list \<Rightarrow> annotation_options \<Rightarrow> int \<Rightarrow> int \<Rightarrow> detection \<Rightarrow> drawing list option" where
  "draw_detection text_size names ops width height d =
     (if \<not> drawable d width height then Some []
      else case (low_edge (det_x1 d) width, low_edge (det_y1 d) height, high_edge (det_x2 d) width, high_edge (det_y2 d) height) of
        (Some left, Some upper, Some right, Some bottom) \<Rightarrow>
          Some (if right < left \<or> bottom < upper then []
                else Outline left upper right bottom (0, 255, 0) (ao_box_thickness ops) #
                  draw_label text_size width height left upper bottom (detection_label d names) (ao_font_scale ops) (0, 255, 0))
      | _ \<Rightarrow> None)"

fun draw_detections ::
    "text_metrics \<Rightarrow> string list \<Rightarrow> annotation_options \<Rightarrow> int \<Rightarrow> int \<Rightarrow> detection list \<Rightarrow> drawing list option" where
  "draw_detections text_size names ops width height [] = Some []"
| "draw_detections text_size names ops width height (d # ds) =
     (case (draw_detection text_size names ops width height d, draw_detections text_size names ops width height ds) of
        (Some a, Some b) \<Rightarrow> Some (a @ b)
      | _ \<Rightarrow> None)"

section \<open>The operation\<close>

datatype annotate_result = Annotated | Annotate_failed string | Annotate_undefined

record cv_env =
  cv_text_size :: text_metrics
  cv_paint :: "drawing list \<Rightarrow> video_frame \<Rightarrow> u8 list"
  cv_thrown :: "string option"

text \<open>\<open>same\<close> says that the output is the source; the frame is the output, whatever the result.\<close>

definition annotate_frame ::
    "cv_env \<Rightarrow> bool \<Rightarrow> video_frame \<Rightarrow> detection_result \<Rightarrow> string list \<Rightarrow> annotation_options \<Rightarrow> annotate_result \<times> drawing list \<times> video_frame" where
  "annotate_frame env same src r names ops =
     (if same then (Annotate_failed ''annotation output must be a distinct frame'', [], src)
      else case annotation_valid_frame src of
        Inl e \<Rightarrow> (Annotate_failed e, [], empty_frame)
      | Inr _ \<Rightarrow>
          if \<not> ao_enabled ops then (Annotated, [], src)
          else if vf_sequence src \<noteq> frame_sequence r
          then (Annotate_failed ''annotation frame and detection sequence do not match'', [], empty_frame)
          else case valid_options ops of
            Inl e \<Rightarrow> (Annotate_failed e, [], empty_frame)
          | Inr _ \<Rightarrow>
              case draw_detections (cv_text_size env) names ops (vf_width src) (vf_height src) (detections r) of
                None \<Rightarrow> (Annotate_undefined, [], src)
              | Some boxes \<Rightarrow>
                  let draws = boxes @ (if ao_show_metrics ops
                                       then draw_metrics (cv_text_size env) (vf_width src) (vf_height src) ops else [])
                  in case cv_thrown env of
                       Some e \<Rightarrow> (Annotate_failed (''OpenCV annotation failed: '' @ e), draws, empty_frame)
                     | None \<Rightarrow> (Annotated, draws, src\<lparr>vf_bgr := cv_paint env draws src\<rparr>))"

section \<open>Properties\<close>

text \<open>What OpenCV's text metrics promise.\<close>

definition text_sizes_ok :: "text_metrics \<Rightarrow> bool" where
  "text_sizes_ok ts \<longleftrightarrow> (\<forall>label scale. case ts label scale of (w, h, b) \<Rightarrow> 0 \<le> w \<and> 0 \<le> h \<and> 0 \<le> b)"

fun inside :: "int \<Rightarrow> int \<Rightarrow> drawing \<Rightarrow> bool" where
  "inside cols rows (Outline l t r b c n) \<longleftrightarrow> 0 \<le> l \<and> l \<le> r \<and> r < cols \<and> 0 \<le> t \<and> t \<le> b \<and> b < rows"
| "inside cols rows (Filled x y w h c) \<longleftrightarrow> 0 \<le> x \<and> 0 < w \<and> x + w \<le> cols \<and> 0 \<le> y \<and> 0 < h \<and> y + h \<le> rows"
| "inside cols rows (Put_text s x y scale) \<longleftrightarrow> 0 \<le> x \<and> 0 \<le> y"

lemma fp_clamp_finite:
  assumes "isfinite v \<or> v = PosInf \<or> v = NegInf" "0 \<le> n"
  obtains x where "fp_clamp v (Fin 0) (Fin (of_int n)) = Fin x" "0 \<le> x" "x \<le> of_int n"
proof -
  have "\<exists>x. fp_clamp v (Fin 0) (Fin (of_int n)) = Fin x \<and> 0 \<le> x \<and> x \<le> of_int n"
    using assms by (cases v) (auto simp: fp_clamp_def)
  then show thesis using that by blast
qed

lemma int_of_clamped:
  assumes "fp_clamp v (Fin 0) (Fin (of_int n)) = Fin x" "0 \<le> x" "x \<le> of_int n" "n \<le> int_max"
  shows "int_of_fp (fp_clamp v (Fin 0) (Fin (of_int n))) = Some \<lfloor>x\<rfloor> \<and> 0 \<le> \<lfloor>x\<rfloor> \<and> \<lfloor>x\<rfloor> \<le> n"
proof -
  have "\<lfloor>x\<rfloor> \<le> n" using assms(3) by (simp add: floor_le_iff)
  then show ?thesis using assms by (simp add: Let_def)
qed

lemma edge_defined:
  assumes "isfinite v" "0 < extent" "extent \<le> int_max"
  shows "\<exists>n. low_edge v extent = Some n \<and> 0 \<le> n \<and> n < extent"
    and "\<exists>n. high_edge v extent = Some n \<and> 0 \<le> n \<and> n < extent"
proof -
  have fin: "isfinite (floor_fp v)" using assms(1) by (cases v) auto
  have sub: "isfinite (fp_sub round64 (ceil_fp v) (Fin 1)) \<or> fp_sub round64 (ceil_fp v) (Fin 1) = PosInf \<or>
      fp_sub round64 (ceil_fp v) (Fin 1) = NegInf"
    using assms(1) by (cases v) (auto simp: fp_sub_def round64_def with_overflow_def)
  have n: "0 \<le> extent - 1" "extent - 1 \<le> int_max" using assms by simp_all
  obtain x where x: "fp_clamp (floor_fp v) (Fin 0) (Fin (of_int (extent - 1))) = Fin x" "0 \<le> x" "x \<le> of_int (extent - 1)"
    using fp_clamp_finite [of "floor_fp v"] fin n(1) by blast
  show "\<exists>n. low_edge v extent = Some n \<and> 0 \<le> n \<and> n < extent"
    using int_of_clamped [OF x n(2)] by (auto simp: low_edge_def)
  obtain y where y: "fp_clamp (fp_sub round64 (ceil_fp v) (Fin 1)) (Fin 0) (Fin (of_int (extent - 1))) = Fin y"
    "0 \<le> y" "y \<le> of_int (extent - 1)"
    using fp_clamp_finite [OF sub n(1)] by blast
  show "\<exists>n. high_edge v extent = Some n \<and> 0 \<le> n \<and> n < extent"
    using int_of_clamped [OF y n(2)] by (auto simp: high_edge_def)
qed

lemma draw_label_inside:
  assumes "text_sizes_ok ts" "0 \<le> left" "left < cols" "0 \<le> upper" "upper \<le> bottom" "bottom < rows"
  shows "list_all (inside cols rows) (draw_label ts cols rows left upper bottom label scale c)"
proof -
  obtain w h b where t: "ts label scale = (w, h, b)" by (metis surj_pair)
  then have "0 \<le> w" "0 \<le> h" "0 \<le> b" using assms(1) unfolding text_sizes_ok_def by (metis (mono_tags, lifting) prod.case)+
  then show ?thesis using assms t by (auto simp: draw_label_def Let_def min_def)
qed

lemma draw_metrics_inside:
  assumes "text_sizes_ok ts" "0 < cols" "0 < rows"
  shows "list_all (inside cols rows) (draw_metrics ts cols rows ops)"
proof -
  obtain w h b where t: "ts (metrics_label ops) (ao_font_scale ops) = (w, h, b)" by (metis surj_pair)
  then have "0 \<le> w" "0 \<le> h" "0 \<le> b" using assms(1) unfolding text_sizes_ok_def by (metis (mono_tags, lifting) prod.case)+
  then show ?thesis using assms t by (auto simp: draw_metrics_def Let_def min_def)
qed

lemma draw_detection_inside:
  assumes "text_sizes_ok ts" "0 < w" "w \<le> int_max" "0 < h" "h \<le> int_max"
  shows "\<exists>ds. draw_detection ts names ops w h d = Some ds \<and> list_all (inside w h) ds"
proof (cases "drawable d w h")
  case True
  then have fin: "isfinite (det_x1 d)" "isfinite (det_y1 d)" "isfinite (det_x2 d)" "isfinite (det_y2 d)"
    by (simp_all add: drawable_def)
  obtain l t r b where e: "low_edge (det_x1 d) w = Some l" "0 \<le> l" "l < w" "low_edge (det_y1 d) h = Some t" "0 \<le> t" "t < h"
    "high_edge (det_x2 d) w = Some r" "r < w" "high_edge (det_y2 d) h = Some b" "b < h"
    using edge_defined(1) [OF fin(1) assms(2,3)] edge_defined(1) [OF fin(2) assms(4,5)]
      edge_defined(2) [OF fin(3) assms(2,3)] edge_defined(2) [OF fin(4) assms(4,5)] by blast
  show ?thesis
    using True e draw_label_inside [OF assms(1) e(2,3,5), of b h] by (auto simp: draw_detection_def not_less)
qed (simp add: draw_detection_def)

lemma draw_detections_inside:
  assumes "text_sizes_ok ts" "0 < w" "w \<le> int_max" "0 < h" "h \<le> int_max"
  shows "\<exists>ds. draw_detections ts names ops w h rs = Some ds \<and> list_all (inside w h) ds"
proof (induction rs)
  case (Cons d rs)
  obtain a where "draw_detection ts names ops w h d = Some a" "list_all (inside w h) a"
    using draw_detection_inside [OF assms] by blast
  with Cons.IH show ?case by auto
qed simp

text \<open>C31: annotating never draws outside the picture and never computes an undefined conversion: for every
  frame, detection (finite or not, inside the picture or not) and option, each box, label and metrics
  rectangle lies within the frame and is not empty, every text origin is at a non-negative position, and
  every conversion of a coordinate to an integer is in range; this needs only that heights are C integers
  and text sizes not negative.\<close>

theorem annotations_inside:
  assumes "text_sizes_ok (cv_text_size env)" "vf_height src \<le> int_max"
  shows "fst (annotate_frame env same src r names ops) \<noteq> Annotate_undefined \<and>
    list_all (inside (vf_width src) (vf_height src)) (fst (snd (annotate_frame env same src r names ops)))"
proof (cases "annotation_valid_frame src = Inr ()")
  case True
  then have dims: "0 < vf_width src" "vf_width src \<le> int_max" "0 < vf_height src"
    by (auto simp: annotation_valid_frame_def Let_def split: if_splits)
  obtain ds where ds: "draw_detections (cv_text_size env) names ops (vf_width src) (vf_height src) (detections r) = Some ds"
    "list_all (inside (vf_width src) (vf_height src)) ds"
    using draw_detections_inside [OF assms(1) dims assms(2)] by blast
  show ?thesis
    using True ds draw_metrics_inside [OF assms(1) dims(1,3)]
    by (auto simp: annotate_frame_def Let_def split: sum.split option.split)
next
  case False
  then show ?thesis by (auto simp: annotate_frame_def split: sum.split)
qed

text \<open>an annotated frame is the source with other pixels only: on success the number, times, generation
  and size of the source are kept, with annotation switched off the output is the source itself, and on
  every failure with a distinct output the output is an empty frame, never a half-drawn one.\<close>

theorem annotation_keeps_frame:
  "case annotate_frame env False src r names ops of
     (Annotated, draws, out) \<Rightarrow> out\<lparr>vf_bgr := vf_bgr src\<rparr> = src \<and> (ao_enabled ops \<or> out = src \<and> draws = [])
   | (Annotate_failed e, draws, out) \<Rightarrow> out = empty_frame
   | (Annotate_undefined, draws, out) \<Rightarrow> out = src"
  by (auto simp: annotate_frame_def Let_def split: sum.split option.split)

definition flat_cv :: cv_env where
  "flat_cv = \<lparr>cv_text_size = (\<lambda>s scale. (int (length s), 8, 2)), cv_paint = (\<lambda>ds f. vf_bgr f), cv_thrown = None\<rparr>"

definition sample_shot :: video_frame where
  "sample_shot = \<lparr>vf_sequence = 1, vf_timestamp = 5, vf_pts_ns = 0, vf_generation = 1, vf_width = 2, vf_height = 2,
     vf_stride = 6, vf_bgr = replicate 12 0\<rparr>"

definition sample_found :: detection_result where
  "sample_found = \<lparr>frame_sequence = 1, detections = [\<lparr>det_class = 0, det_confidence = Fin (1/2), det_x1 = Fin 0, det_y1 = Fin 0,
     det_x2 = Fin 1, det_y2 = Fin 5\<rparr>]\<rparr>"

theorem annotations_inside_witness:
  "list_all (inside 2 2) (fst (snd (annotate_frame flat_cv False sample_shot sample_found [''person''] default_annotation)))"
  using annotations_inside [of flat_cv sample_shot False sample_found "[''person'']" default_annotation]
  by (simp add: text_sizes_ok_def flat_cv_def sample_shot_def)

end
