(* ===== verification/Encoder_Timeline.thy ===== *)
theory Encoder_Timeline
  imports H264_Encoder Rtsp_Capture Annotator
begin

text \<open>
  What the encoder of \<open>H264_Encoder\<close> guarantees: it accepts exactly the frames the detector accepts,
  its level check does not overflow, it accounts for every frame it takes, and the units of all the pipelines
  it builds lie on one increasing timeline.
\<close>

section \<open>Checks\<close>

lemma valid_frame_ok:
  "valid_frame f = Inr () \<longleftrightarrow>
     0 < vf_width f \<and> 0 < vf_height f \<and> 0 \<le> vf_stride f \<and> vf_width f \<le> int_max div 3 \<and>
     nat (vf_width f) * 3 \<le> nat (vf_stride f) \<and>
     nat (vf_height f - 1) \<le> (size_max - nat (vf_width f) * 3) div nat (vf_stride f) \<and>
     nat (vf_height f - 1) * nat (vf_stride f) + nat (vf_width f) * 3 \<le> length (vf_bgr f)"
  by (auto simp: valid_frame_def Let_def)

lemma valid_frame_copies:
  assumes "valid_frame f = Inr ()"
  obtains bytes where "copy_rows (nat (vf_height f)) (nat (vf_width f) * 3) (nat (vf_stride f)) (vf_bgr f) = Some bytes"
proof -
  have "copy_rows (nat (vf_height f)) (nat (vf_width f) * 3) (nat (vf_stride f)) (vf_bgr f) \<noteq> None"
    using assms by (intro copy_rows_defined) (auto simp: valid_frame_ok nat_diff_distrib)
  then show thesis using that by auto
qed

section \<open>What the operations leave alone\<close>

text \<open>The counters of frames and what the input timestamps depend on.\<close>

definition input_side :: "h264_encoder \<Rightarrow> _" where
  "input_side e = (popped (bq_stats (he_input e)), em_submitted (he_metrics e), em_rejected (he_metrics e),
     em_pressure (he_metrics e), he_buffers e, he_input_pts e, he_has_input_pts e)"

lemma publish_input_side [simp]: "input_side (he_publish_metrics now e) = input_side e"
  by (simp add: he_publish_metrics_def input_side_def Let_def split: option.split)

lemma note_input_side [simp]: "input_side (he_note l t e) = input_side e"
  by (simp add: he_note_def input_side_def)

lemma error_input_side [simp]: "input_side (he_set_error err now e) = input_side e"
  unfolding he_set_error_def publish_input_side note_input_side by (simp add: input_side_def)

lemma close_input_side [simp]: "input_side (he_close_pipeline e) = input_side e"
  by (simp add: he_close_pipeline_def he_shut_callbacks_def input_side_def)

lemma open_input_side:
  assumes "he_open_pipeline f env e = (r, e')"
  shows "input_side e' = input_side e"
proof -
  obtain e2 where e2: "input_side e2 = input_side e"
    "e' = e \<or> e' = e\<lparr>he_pipeline := False\<rparr> \<or> e' = he_close_pipeline (e\<lparr>he_pipeline := True\<rparr>) \<or>
     e' = he_close_pipeline (he_note Log_Info ''H.264 pipeline state PLAYING requested'' e2) \<or>
     e' = he_note Log_Info ''H.264 pipeline state PLAYING requested'' e2"
  proof
    let ?e2 = "(he_allow_callbacks (e\<lparr>he_pipeline := True\<rparr>))\<lparr>he_elements := True, he_width := vf_width f, he_height := vf_height f,
                      he_epoch := (if he_epoch e \<noteq> 0 then he_epoch e
                                   else if vf_timestamp f = 0 then xo_now env else vf_timestamp f),
                      he_has_origin := False\<rparr>"
    show "input_side ?e2 = input_side e" by (simp add: he_allow_callbacks_def input_side_def)
    show "e' = e \<or> e' = e\<lparr>he_pipeline := False\<rparr> \<or> e' = he_close_pipeline (e\<lparr>he_pipeline := True\<rparr>) \<or>
      e' = he_close_pipeline (he_note Log_Info ''H.264 pipeline state PLAYING requested'' ?e2) \<or>
      e' = he_note Log_Info ''H.264 pipeline state PLAYING requested'' ?e2"
      using assms unfolding he_open_pipeline_def Let_def by (auto split: sum.splits option.splits if_splits)
  qed
  have "input_side (e\<lparr>he_pipeline := b\<rparr>) = input_side e" for b by (simp add: input_side_def)
  then show ?thesis using e2 by auto
qed

lemma origin_input_side: "input_side (set_origin scale pts e) = input_side e"
  by (simp add: set_origin_def input_side_def)

lemma place_input_side: "place_unit scale v e = (pts, dts, e1) \<Longrightarrow> input_side e1 = input_side e"
  using origin_input_side [of scale _ e]
  by (auto simp: place_unit_def Let_def input_side_def split: option.splits)

lemma sink_only_logs: obtains log where "call_unit_sink v e = e\<lparr>he_log := log\<rparr>"
proof
  show "call_unit_sink v e = e\<lparr>he_log := he_log (call_unit_sink v e)\<rparr>"
    by (simp add: call_unit_sink_def he_note_def split: option.split)
qed

text \<open>The state after a sample with data, from the place of its unit.\<close>

lemma capture_sample_state:
  assumes "xs_mapped v" "xs_bytes v \<noteq> []" "place_unit scale v e = (pts, dts, e1)"
  obtains log q m now where "he_capture_sample scale v e = (True, he_publish_metrics now
    (e1\<lparr>he_next_discontinuity := False, he_log := log, he_output := q,
        he_units := he_units e1 @ [new_unit v pts dts (he_next_discontinuity e1)],
        he_metrics := (he_metrics e1)\<lparr>em_encoded := m, em_bytes := em_bytes (he_metrics e1) + of_nat (length (xs_bytes v))\<rparr>,
        he_unit_time := xs_now v\<rparr>))"
proof -
  obtain log where log: "call_unit_sink v (e1\<lparr>he_next_discontinuity := False\<rparr>) = e1\<lparr>he_next_discontinuity := False, he_log := log\<rparr>"
    using sink_only_logs by metis
  show thesis
    by (rule that) (use assms log in \<open>simp add: he_capture_sample_def Let_def\<close>)
qed

lemma sample_input_side [simp]: "input_side (snd (he_capture_sample scale v e)) = input_side e"
proof (cases "\<not> xs_mapped v \<or> xs_bytes v = []")
  case False
  obtain pts dts e1 where p: "place_unit scale v e = (pts, dts, e1)" by (metis surj_pair)
  from False obtain log q m now where "he_capture_sample scale v e = (True, he_publish_metrics now
    (e1\<lparr>he_next_discontinuity := False, he_log := log, he_output := q,
        he_units := he_units e1 @ [new_unit v pts dts (he_next_discontinuity e1)],
        he_metrics := (he_metrics e1)\<lparr>em_encoded := m, em_bytes := em_bytes (he_metrics e1) + of_nat (length (xs_bytes v))\<rparr>,
        he_unit_time := xs_now v\<rparr>))"
    using capture_sample_state [OF _ _ p] by metis
  then have "input_side (snd (he_capture_sample scale v e)) = input_side e1"
    by (simp only: snd_conv publish_input_side) (simp add: input_side_def)
  then show ?thesis using place_input_side [OF p] by simp
qed (simp add: he_capture_sample_def)

lemma callback_input_side: "input_side (snd (on_new_sample scale v e)) = input_side e"
proof -
  define e1 where "e1 = e\<lparr>he_in_flight := he_in_flight e + 1\<rparr>"
  have e1: "input_side e1 = input_side e" by (simp add: e1_def input_side_def)
  have leave: "input_side (he_end_callback e') = input_side e'" for e' by (simp add: he_end_callback_def input_side_def)
  show ?thesis
  proof (cases "he_accepting e")
    case True
    then have "on_new_sample scale v e = (let (captured, e2) = (case v of None \<Rightarrow> (False, e1) | Some s \<Rightarrow> he_capture_sample scale s e1)
          in (if captured then Flow_ok else Flow_error, he_end_callback e2))"
      unfolding on_new_sample_def he_begin_callback_def e1_def [symmetric] by simp
    then show ?thesis
    proof (cases v)
      case (Some a)
      obtain c e2 where "he_capture_sample scale a e1 = (c, e2)" by fastforce
      moreover have "input_side (snd (he_capture_sample scale a e1)) = input_side e1" by simp
      ultimately show ?thesis using \<open>on_new_sample scale v e = _\<close> Some e1 leave by (simp add: Let_def)
    qed (simp add: e1 leave)
  next
    case False
    then show ?thesis by (simp add: on_new_sample_def he_begin_callback_def)
  qed
qed

lemma act_input_side [simp]: "input_side (do_encoder_act scale a e) = input_side e"
proof (cases a)
  case (Enc_sample v)
  then show ?thesis by (simp add: callback_input_side)
qed (simp_all add: he_request_stop_def input_side_def shutdown_def take_front_def)

lemma acts_input_side [simp]: "input_side (encoder_acts scale as e) = input_side e"
  by (induction as arbitrary: e) simp_all

lemma poll_input_side [simp]: "input_side (poll_pipeline env e) = input_side e"
  by (simp add: poll_pipeline_def split: bus_poll.split)

lemma rebuild_input_side [simp]: "input_side (rebuild_if_resized env f e) = input_side e"
proof -
  have "input_side (on_metrics (\<lambda>m. m\<lparr>em_rebuilds := em_rebuilds m + 1, em_last_error := []\<rparr>) e') = input_side e'" for e'
    by (simp add: input_side_def)
  then show ?thesis by (simp only: rebuild_if_resized_def publish_input_side close_input_side split: if_split) simp
qed

section \<open>Frames in\<close>

text \<open>Consecutive presentation times increase, unless the earlier one is the greatest value of the type.\<close>

definition rising :: "u64 \<Rightarrow> u64 \<Rightarrow> bool" where
  "rising a b \<longleftrightarrow> a < b \<or> a = - 1"

definition input_inv :: "h264_encoder \<Rightarrow> bool" where
  "input_inv e \<longleftrightarrow> popped (bq_stats (he_input e)) =
       em_submitted (he_metrics e) + em_rejected (he_metrics e) + em_pressure (he_metrics e) \<and>
     successively rising (map ib_pts (he_buffers e)) \<and>
     (he_has_input_pts e \<longleftrightarrow> he_buffers e \<noteq> []) \<and> (he_buffers e \<noteq> [] \<longrightarrow> he_input_pts e = ib_pts (last (he_buffers e)))"

lemma input_inv_side: "input_side e' = input_side e \<Longrightarrow> input_inv e' = input_inv e"
  by (simp add: input_inv_def input_side_def)

text \<open>The state between taking a frame and counting it.\<close>

definition input_due :: "h264_encoder \<Rightarrow> bool" where
  "input_due e \<longleftrightarrow> input_inv (count_rejected e)"

lemma input_due_side: "input_side e' = input_side e \<Longrightarrow> input_due e' = input_due e"
  by (simp add: input_due_def input_inv_def input_side_def count_rejected_def)

lemma reject_counts: "input_due e \<Longrightarrow> input_inv (reject_frame err now e)"
  unfolding input_due_def reject_frame_def using input_inv_side error_input_side by blast

lemma count_counts: "input_due e \<Longrightarrow> input_inv (count_frame env b e)"
proof -
  assume "input_due e"
  then have "input_inv (on_metrics (\<lambda>m. if b then m\<lparr>em_pressure := em_pressure m + 1\<rparr> else m\<lparr>em_submitted := em_submitted m + 1\<rparr>) e)"
    by (simp add: input_due_def input_inv_def count_rejected_def)
  then show ?thesis unfolding count_frame_def using input_inv_side publish_input_side by blast
qed

lemma inc_less: "a \<noteq> - 1 \<Longrightarrow> a < a + 1" for a :: u64
proof -
  assume "a \<noteq> - 1"
  then have "1 + a \<noteq> 0" using max_word_wrap by (metis add.commute)
  then show ?thesis using unatSuc [of a] by (simp add: word_less_nat_alt add.commute)
qed

lemma input_pts_rising: "he_has_input_pts e \<Longrightarrow> rising (he_input_pts e) (input_pts t e)"
  by (auto simp: rising_def input_pts_def Let_def not_le intro: inc_less)

lemma submit_due:
  assumes "input_due e" "submit_frame scale f env e = (r, e')" "valid_frame f = Inr ()"
  shows "input_due e' \<and> r \<noteq> Submit_undefined"
proof -
  obtain bytes where bytes: "copy_rows (nat (vf_height f)) (nat (vf_width f) * 3) (nat (vf_stride f)) (vf_bgr f) = Some bytes"
    using valid_frame_copies [OF assms(3)] .
  define pts where "pts = input_pts (if vf_timestamp f = 0 then xb_now env else vf_timestamp f) e"
  define b where "b = \<lparr>ib_pts = pts, ib_duration = scale (ec_fps_den (he_config e)) (ec_fps_num (he_config e)),
                       ib_sequence = vf_sequence f, ib_bytes = bytes\<rparr>"
  define e1 where "e1 = e\<lparr>he_input_pts := pts, he_has_input_pts := True, he_buffers := he_buffers e @ [b]\<rparr>"
  have "he_buffers e \<noteq> [] \<Longrightarrow> rising (ib_pts (last (he_buffers e))) pts"
    using assms(1) input_pts_rising [of e] unfolding pts_def input_due_def input_inv_def count_rejected_def by simp
  then have "input_due e1"
    using assms(1) by (auto simp: input_due_def input_inv_def count_rejected_def e1_def b_def successively_append_iff last_map)
  moreover have "e' = e \<or> e' = e1" "r \<noteq> Submit_undefined"
    using assms(2,3) unfolding submit_frame_def bytes option.case Let_def pts_def [symmetric] b_def [symmetric] e1_def [symmetric]
    by (auto split: if_splits)
  ultimately show ?thesis using assms(1) by auto
qed

lemma encode_frame_inv:
  assumes "input_due e" "valid_frame f = Inr ()" "encode_frame scale env f e = (r, e')"
  shows "input_inv e' \<and> r \<noteq> Run_undefined"
proof -
  define e1 where "e1 = rebuild_if_resized env f (poll_pipeline env (encoder_acts scale (et_poll_acts env) e))"
  have e1: "input_due e1" using assms(1) input_due_side [of e1 e] by (simp add: e1_def)
  obtain err e2 where o: "(if he_pipeline e1 then (None, e1) else he_open_pipeline f (et_open env) e1) = (err, e2)" by fastforce
  then have e2: "input_due e2" using e1 open_input_side input_due_side [of e2 e1] by (auto split: if_splits)
  define e3 where "e3 = encoder_acts scale (et_submit_acts env) e2"
  have e3: "input_due e3" using e2 input_due_side [of e3 e2] by (simp add: e3_def)
  obtain res e4 where s: "submit_frame scale f (et_submit env) e3 = (res, e4)" by fastforce
  note e4 = submit_due [OF e3 s assms(2)]
  have "(r, e') = (case err of Some err \<Rightarrow> (Run_again, reject_frame err (et_end_now env) e2)
         | None \<Rightarrow> (case (res, e4) of
                (Submit_undefined, e3) \<Rightarrow> (Run_undefined, e3)
              | (Refused err, e3) \<Rightarrow> (Run_again, he_close_pipeline (reject_frame err (et_end_now env) e3))
              | (Pressure, e3) \<Rightarrow> (Run_again, count_frame env True e3)
              | (Submitted, e3) \<Rightarrow> (Run_again, count_frame env False e3)))"
    using assms(3) unfolding encode_frame_def Let_def e1_def [symmetric] o prod.case e3_def [symmetric] s by simp
  then show ?thesis
    using e4 reject_counts [OF e2] reject_counts [of e4] count_counts [of e4] input_inv_side [OF close_input_side]
    by (cases err; cases res) auto
qed

lemma encoder_turn_inv:
  assumes "input_inv e" "run_turn scale env e = (r, e')"
  shows "input_inv e' \<and> r \<noteq> Run_undefined"
proof -
  define e1 where "e1 = encoder_acts scale (et_acts env) e"
  have e1: "input_inv e1" using assms(1) input_inv_side [of e1 e] by (simp add: e1_def)
  obtain fr q where q: "pop_for (he_input e1) = (fr, q)" by fastforce
  define e2 where "e2 = e1\<lparr>he_input := q\<rparr>"
  have run: "(r, e') = (if \<not> he_running e1 then (Run_ends, e1) else case fr of
          None \<Rightarrow> if is_shutdown (he_input e2) then (Run_ends, e2) else (Run_again, he_publish_metrics (et_idle_now env) e2)
        | Some f \<Rightarrow> (case valid_frame f of
               Inl err \<Rightarrow> (Run_again, reject_frame err (et_end_now env) e2) | Inr _ \<Rightarrow> encode_frame scale env f e2))"
    using assms(2) unfolding run_turn_def Let_def e1_def [symmetric] q prod.case e2_def [symmetric] by simp
  show ?thesis
  proof (cases fr)
    case None
    then have "popped (bq_stats q) = popped (bq_stats (he_input e1))"
      using q by (auto simp: pop_for_def take_front_def split: if_splits list.splits)
    then have "input_inv e2" using e1 by (simp add: e2_def input_inv_def)
    then show ?thesis using run None e1 input_inv_side [OF publish_input_side] by (auto split: if_splits)
  next
    case (Some f)
    then have "popped (bq_stats q) = popped (bq_stats (he_input e1)) + 1"
      using q by (auto simp: pop_for_def take_front_def split: if_splits list.splits)
    then have due: "input_due e2" using e1 by (simp add: e2_def input_inv_def input_due_def count_rejected_def)
    show ?thesis
    proof (cases "valid_frame f")
      case (Inl err)
      then show ?thesis using run Some e1 reject_counts [OF due] by (auto split: if_splits)
    next
      case (Inr u)
      then have "(r, e') = (Run_ends, e1) \<or> encode_frame scale env f e2 = (r, e')"
        using run Some by (auto split: if_splits)
      then show ?thesis using e1 encode_frame_inv [OF due, of f scale env r e'] Inr by auto
    qed
  qed
qed

lemma run_turns_inv:
  "input_inv e \<Longrightarrow> run_turns scale envs e = (r, e') \<Longrightarrow> input_inv e' \<and> r \<noteq> Run_undefined"
proof (induction envs arbitrary: e)
  case (Cons env envs)
  obtain r1 e1 where t: "run_turn scale env e = (r1, e1)" by fastforce
  show ?case
    using encoder_turn_inv [OF Cons.prems(1) t] Cons.prems(2) Cons.IH [of e1] t input_inv_side [OF close_input_side, of e1]
    by (cases r1) auto
qed simp

section \<open>Units out\<close>

lemma encoder_started:
  assumes "he_start cfg initialized plugins now thread_error e = (Inr (), e')"
  shows "he_config e' = cfg \<and> \<not> he_has_output_pts e' \<and> he_units e' = he_units e \<and> he_next_discontinuity e' \<and>
    input_side e' = (popped (bq_stats (he_input e)), 0, 0, 0, he_buffers e, 0, False) \<and> valid_config cfg = Inr ()"
proof -
  let ?e = "e\<lparr>he_config := cfg, he_width := 0, he_height := 0, he_epoch := 0, he_input_pts := 0,
                     he_has_input_pts := False, he_next_discontinuity := True, he_has_output_pts := False,
                     he_has_origin := False, he_output_pts := 0, he_metrics := zero_metrics, he_unit_time := 0,
                     he_output := reset (he_output e)\<rparr>"
  have e': "e' = he_publish_metrics now ?e\<lparr>he_running := True, he_worker := True\<rparr>" "valid_config cfg = Inr ()"
    using assms by (auto simp: he_start_def Let_def split: if_splits sum.splits option.splits)
  have "input_side e' = input_side (he_publish_metrics now ?e)" by (simp add: e'(1) input_side_def)
  also have "\<dots> = input_side ?e" by (rule publish_input_side)
  finally have "input_side e' = (popped (bq_stats (he_input e)), 0, 0, 0, he_buffers e, 0, False)"
    by (simp add: input_side_def zero_metrics_def)
  then show ?thesis using e' by (simp add: he_publish_metrics_def Let_def split: option.split)
qed

text \<open>One pipeline of the encoder: it is opened for a frame, its sink delivers samples, and it is closed.\<close>

definition pipeline_life ::
    "(int \<Rightarrow> int \<Rightarrow> u64) \<Rightarrow> video_frame \<times> encoder_open_env \<times> encoder_sample list \<Rightarrow> h264_encoder \<Rightarrow> h264_encoder" where
  "pipeline_life scale p e =
     (case p of (f, env, vs) \<Rightarrow>
        he_close_pipeline (fold (\<lambda>v e. snd (on_new_sample scale (Some v) e)) vs (snd (he_open_pipeline f env e))))"

text \<open>A pipeline that opens and delivers at least one sample; its samples have data and rising presentation
  times.\<close>

definition sample_ok :: "encoder_sample \<Rightarrow> bool" where
  "sample_ok v \<longleftrightarrow> xs_mapped v \<and> xs_bytes v \<noteq> [] \<and> xs_pts v \<noteq> None"

definition life_ok :: "encoder_config \<Rightarrow> video_frame \<times> encoder_open_env \<times> encoder_sample list \<Rightarrow> bool" where
  "life_ok cfg p =
     (case p of (f, env, vs) \<Rightarrow>
        level_3_1_supports f cfg = Inr () \<and> xo_create_error env = None \<and> xo_elements env \<and> xo_linked env \<and> xo_playing env \<and>
        vs \<noteq> [] \<and> list_all sample_ok vs \<and> sorted_wrt (<) (map (the \<circ> xs_pts) vs))"

text \<open>The fields the output timeline depends on.\<close>

definition out_side :: "h264_encoder \<Rightarrow> _" where
  "out_side e = (he_config e, he_accepting e, he_has_output_pts e, he_output_pts e, he_units e, he_next_discontinuity e)"

lemma open_life:
  assumes "life_ok (he_config e) (f, env, vs)"
  shows "out_side (snd (he_open_pipeline f env e)) =
      (he_config e, True, he_has_output_pts e, he_output_pts e, he_units e, he_next_discontinuity e) \<and>
    \<not> he_has_origin (snd (he_open_pipeline f env e))"
  using assms by (simp add: life_ok_def he_open_pipeline_def he_allow_callbacks_def he_note_def out_side_def Let_def)

lemma publish_fields [simp]:
  "he_config (he_publish_metrics now e) = he_config e" "he_accepting (he_publish_metrics now e) = he_accepting e"
  "he_has_output_pts (he_publish_metrics now e) = he_has_output_pts e" "he_output_pts (he_publish_metrics now e) = he_output_pts e"
  "he_units (he_publish_metrics now e) = he_units e" "he_next_discontinuity (he_publish_metrics now e) = he_next_discontinuity e"
  "he_has_origin (he_publish_metrics now e) = he_has_origin e" "he_raw_origin (he_publish_metrics now e) = he_raw_origin e"
  "he_output_origin (he_publish_metrics now e) = he_output_origin e"
  by (simp_all add: he_publish_metrics_def Let_def split: option.split)

text \<open>One sample: where its unit is placed.\<close>

lemma sample_step:
  fixes scale :: "int \<Rightarrow> int \<Rightarrow> u64"
  assumes "he_accepting e" "xs_mapped v" "xs_bytes v \<noteq> []" "xs_pts v = Some p"
  defines "e1 \<equiv> set_origin scale p e"
  shows "\<exists>u. let e' = snd (on_new_sample scale (Some v) e) in
    out_side e' = (he_config e, True, True, rebase e1 p, he_units e @ [u], False) \<and>
    he_has_origin e' \<and> he_raw_origin e' = he_raw_origin e1 \<and> he_output_origin e' = he_output_origin e1 \<and>
    au_pts_ns u = rebase e1 p \<and> au_has_pts u \<and> au_discontinuity u = he_next_discontinuity e"
proof -
  define ef where "ef = e\<lparr>he_in_flight := he_in_flight e + 1\<rparr>"
  define f1 where "f1 = set_origin scale p ef"
  have f1: "he_raw_origin f1 = he_raw_origin e1" "he_output_origin f1 = he_output_origin e1" "rebase f1 = rebase e1"
    "he_units f1 = he_units e" "he_config f1 = he_config e" "he_accepting f1" "he_has_origin f1"
    "he_next_discontinuity f1 = he_next_discontinuity e"
    using assms(1) by (auto simp: f1_def ef_def e1_def set_origin_def rebase_def fun_eq_iff Let_def)
  define dts where "dts = (case xs_dts v of Some d \<Rightarrow> rebase f1 d | None \<Rightarrow> 0)"
  define u where "u = new_unit v (rebase f1 p) dts (he_next_discontinuity f1)"
  have place: "place_unit scale v ef = (rebase f1 p, dts, f1\<lparr>he_output_pts := rebase f1 p, he_has_output_pts := True\<rparr>)"
    by (simp add: place_unit_def assms(4) dts_def f1_def [symmetric] Let_def split: option.split)
  obtain log q m now where
    "he_capture_sample scale v ef = (True, he_publish_metrics now
      (f1\<lparr>he_output_pts := rebase f1 p, he_has_output_pts := True, he_next_discontinuity := False, he_log := log, he_output := q,
        he_units := he_units f1 @ [u], he_metrics := (he_metrics f1)\<lparr>em_encoded := m, em_bytes := em_bytes (he_metrics f1) + of_nat (length (xs_bytes v))\<rparr>,
        he_unit_time := xs_now v\<rparr>))"
  proof (rule capture_sample_state [OF assms(2,3) place])
    fix log q m now
    assume "he_capture_sample scale v ef = (True, he_publish_metrics now
      (f1\<lparr>he_output_pts := rebase f1 p, he_has_output_pts := True,
          he_next_discontinuity := False, he_log := log, he_output := q,
          he_units := he_units (f1\<lparr>he_output_pts := rebase f1 p, he_has_output_pts := True\<rparr>) @
            [new_unit v (rebase f1 p) dts (he_next_discontinuity (f1\<lparr>he_output_pts := rebase f1 p, he_has_output_pts := True\<rparr>))],
          he_metrics := (he_metrics (f1\<lparr>he_output_pts := rebase f1 p, he_has_output_pts := True\<rparr>))
            \<lparr>em_encoded := m, em_bytes := em_bytes (he_metrics (f1\<lparr>he_output_pts := rebase f1 p, he_has_output_pts := True\<rparr>)) +
               of_nat (length (xs_bytes v))\<rparr>, he_unit_time := xs_now v\<rparr>))"
    then show thesis by (intro that [of now m q log]) (simp add: u_def)
  qed
  then have "snd (on_new_sample scale (Some v) e) = he_end_callback (he_publish_metrics now
      (f1\<lparr>he_output_pts := rebase f1 p, he_has_output_pts := True, he_next_discontinuity := False, he_log := log, he_output := q,
        he_units := he_units f1 @ [u], he_metrics := (he_metrics f1)\<lparr>em_encoded := m, em_bytes := em_bytes (he_metrics f1) + of_nat (length (xs_bytes v))\<rparr>,
        he_unit_time := xs_now v\<rparr>))"
    using assms(1) unfolding on_new_sample_def he_begin_callback_def ef_def [symmetric] by simp
  then show ?thesis
    using f1 by (auto simp: Let_def out_side_def he_end_callback_def u_def new_unit_def assms(4))
qed

text \<open>The samples of a pipeline after its first: the origin stays, so a unit lies as far after the first as its
  raw time does.\<close>

lemma samples_run:
  assumes "he_accepting e" "he_has_origin e" "list_all sample_ok vs" "\<forall>v \<in> set vs. he_raw_origin e \<le> the (xs_pts v)"
  shows "\<exists>us. let e' = fold (\<lambda>v e. snd (on_new_sample scale (Some v) e)) vs e in
    he_config e' = he_config e \<and> he_units e' = he_units e @ us \<and>
    map au_pts_ns us = map (\<lambda>v. he_output_origin e + (the (xs_pts v) - he_raw_origin e)) vs \<and>
    (vs \<noteq> [] \<longrightarrow> he_has_output_pts e' \<and> he_output_pts e' = he_output_origin e + (the (xs_pts (last vs)) - he_raw_origin e)) \<and>
    (vs = [] \<longrightarrow> he_has_output_pts e' = he_has_output_pts e \<and> he_output_pts e' = he_output_pts e) \<and>
    map au_discontinuity us = (case vs of [] \<Rightarrow> [] | _ # ws \<Rightarrow> he_next_discontinuity e # map (\<lambda>_. False) ws)"
  using assms
proof (induction vs arbitrary: e)
  case (Cons v vs)
  define e1 where "e1 = snd (on_new_sample scale (Some v) e)"
  obtain p where p: "xs_pts v = Some p" "xs_mapped v" "xs_bytes v \<noteq> []" using Cons.prems(3) by (auto simp: sample_ok_def)
  have so: "set_origin scale p e = e" using Cons.prems(2) by (simp add: set_origin_def)
  have r: "rebase e p = he_output_origin e + (p - he_raw_origin e)" using Cons.prems(4) p(1) by (simp add: rebase_def)
  from sample_step [OF Cons.prems(1) p(2,3,1), of scale] obtain u where u:
    "out_side e1 = (he_config e, True, True, he_output_origin e + (p - he_raw_origin e), he_units e @ [u], False)"
    "he_has_origin e1" "he_raw_origin e1 = he_raw_origin e" "he_output_origin e1 = he_output_origin e"
    "au_pts_ns u = he_output_origin e + (p - he_raw_origin e)" "au_discontinuity u = he_next_discontinuity e"
    unfolding Let_def e1_def [symmetric] so r by auto
  have e1: "he_config e1 = he_config e" "he_accepting e1" "he_has_output_pts e1"
    "he_output_pts e1 = he_output_origin e + (p - he_raw_origin e)" "he_units e1 = he_units e @ [u]" "\<not> he_next_discontinuity e1"
    using u(1) by (simp_all add: out_side_def)
  have "\<forall>w \<in> set vs. he_raw_origin e1 \<le> the (xs_pts w)" using Cons.prems(4) u(3) by simp
  from Cons.IH [OF e1(2) u(2) _ this] Cons.prems(3) obtain us where
    us: "let e' = fold (\<lambda>v e. snd (on_new_sample scale (Some v) e)) vs e1 in
    he_config e' = he_config e1 \<and> he_units e' = he_units e1 @ us \<and>
    map au_pts_ns us = map (\<lambda>v. he_output_origin e1 + (the (xs_pts v) - he_raw_origin e1)) vs \<and>
    (vs \<noteq> [] \<longrightarrow> he_has_output_pts e' \<and> he_output_pts e' = he_output_origin e1 + (the (xs_pts (last vs)) - he_raw_origin e1)) \<and>
    (vs = [] \<longrightarrow> he_has_output_pts e' = he_has_output_pts e1 \<and> he_output_pts e' = he_output_pts e1) \<and>
    map au_discontinuity us = (case vs of [] \<Rightarrow> [] | _ # ws \<Rightarrow> he_next_discontinuity e1 # map (\<lambda>_. False) ws)" by auto
  have "map au_discontinuity us = map (\<lambda>_. False) vs" using us e1(6) by (auto simp: Let_def split: list.splits)
  then show ?case
    using us e1 u p(1) by (intro exI [of _ "u # us"]) (auto simp: Let_def e1_def [symmetric])
qed simp

text \<open>Fixing the origin before the first sample changes nothing.\<close>

lemma first_sample_same:
  assumes "xs_pts v = Some p" "xs_mapped v" "xs_bytes v \<noteq> []" "he_accepting e" "e1 = set_origin scale p e"
  shows "snd (on_new_sample scale (Some v) e) = snd (on_new_sample scale (Some v) e1)"
proof -
  define ef where "ef = e\<lparr>he_in_flight := he_in_flight e + 1\<rparr>"
  have ef: "set_origin scale p ef = e1\<lparr>he_in_flight := he_in_flight e1 + 1\<rparr>" "he_accepting e1"
    using assms(4) by (simp_all add: assms(5) ef_def set_origin_def)
  have "place_unit scale v ef = place_unit scale v (e1\<lparr>he_in_flight := he_in_flight e1 + 1\<rparr>)"
    unfolding place_unit_def assms(1) option.case Let_def ef(1) [symmetric] by (simp add: set_origin_def)
  then have "he_capture_sample scale v ef = he_capture_sample scale v (e1\<lparr>he_in_flight := he_in_flight e1 + 1\<rparr>)"
    using assms(2,3) by (simp add: he_capture_sample_def)
  then show ?thesis
    using assms(4) ef(2) unfolding on_new_sample_def he_begin_callback_def ef_def [symmetric] by simp
qed

text \<open>A whole pipeline: the place of its first unit and of the others.\<close>

definition life_origin :: "(int \<Rightarrow> int \<Rightarrow> u64) \<Rightarrow> u64 \<Rightarrow> h264_encoder \<Rightarrow> u64" where
  "life_origin scale p e = he_output_origin (set_origin scale p (e\<lparr>he_has_origin := False\<rparr>))"

lemma life_run:
  fixes scale :: "int \<Rightarrow> int \<Rightarrow> u64"
  assumes "life_ok (he_config e) (f, env, v # vs)" "he_next_discontinuity e"
  defines "p0 \<equiv> the (xs_pts v)" and "org \<equiv> life_origin scale (the (xs_pts v)) e"
  shows "\<exists>us. let e' = pipeline_life scale (f, env, v # vs) e in
    he_config e' = he_config e \<and> he_units e' = he_units e @ us \<and> he_has_output_pts e' \<and> he_next_discontinuity e' \<and>
    map au_pts_ns us = map (\<lambda>v. org + (the (xs_pts v) - p0)) (v # vs) \<and>
    he_output_pts e' = org + (the (xs_pts (last (v # vs))) - p0) \<and> map au_discontinuity us = True # map (\<lambda>_. False) vs"
proof -
  define e0 where "e0 = snd (he_open_pipeline f env e)"
  have open0: "he_config e0 = he_config e" "he_accepting e0" "he_has_output_pts e0 = he_has_output_pts e"
    "he_output_pts e0 = he_output_pts e" "he_units e0 = he_units e" "he_next_discontinuity e0" "\<not> he_has_origin e0"
    using open_life [OF assms(1)] assms(2) by (simp_all add: e0_def out_side_def)
  define e1 where "e1 = set_origin scale p0 e0"
  have e1: "he_config e1 = he_config e" "he_accepting e1" "he_units e1 = he_units e" "he_next_discontinuity e1"
    "he_has_origin e1" "he_raw_origin e1 = p0" "he_output_origin e1 = org"
    using open0 by (simp_all add: e1_def set_origin_def org_def life_origin_def p0_def)
  have ok: "list_all sample_ok (v # vs)" "\<forall>w \<in> set (v # vs). p0 \<le> the (xs_pts w)"
    using assms(1) by (auto simp: life_ok_def p0_def)
  obtain q where q: "xs_pts v = Some q" "xs_mapped v" "xs_bytes v \<noteq> []" using ok(1) by (auto simp: sample_ok_def)
  have same: "snd (on_new_sample scale (Some v) e0) = snd (on_new_sample scale (Some v) e1)"
    by (rule first_sample_same) (simp_all add: q p0_def e1_def open0)
  from samples_run [OF e1(2,5) ok(1), of scale] ok(2) e1(6) obtain us where
    us: "let e' = fold (\<lambda>v e. snd (on_new_sample scale (Some v) e)) (v # vs) e1 in
    he_config e' = he_config e1 \<and> he_units e' = he_units e1 @ us \<and>
    map au_pts_ns us = map (\<lambda>v. org + (the (xs_pts v) - p0)) (v # vs) \<and>
    he_has_output_pts e' \<and> he_output_pts e' = org + (the (xs_pts (last (v # vs))) - p0) \<and>
    map au_discontinuity us = he_next_discontinuity e1 # map (\<lambda>_. False) vs"
    unfolding Let_def e1(6,7) by auto
  show ?thesis
    using us e1 same by (intro exI [of _ us]) (simp add: pipeline_life_def e0_def [symmetric] Let_def he_close_pipeline_def he_shut_callbacks_def)
qed

section \<open>The output timeline\<close>

lemma place_word:
  fixes org p0 p :: u64
  assumes "p0 \<le> p" "unat org + (unat p - unat p0) < 2 ^ 64"
  shows "unat (org + (p - p0)) = unat org + (unat p - unat p0)"
proof -
  have "unat (p - p0) = unat p - unat p0" using assms(1) by (simp add: unat_sub_if' word_le_nat_alt)
  then show ?thesis using assms(2) by (simp add: unat_word_ariths)
qed

lemma sorted_ends:
  assumes "sorted xs" "x \<in> set xs"
  shows "hd xs \<le> x \<and> x \<le> last xs"
proof
  show "hd xs \<le> x" using assms by (cases xs) auto
  show "x \<le> last xs" using assms by (cases xs rule: rev_cases) (auto simp: sorted_append)
qed

definition life_samples :: "video_frame \<times> encoder_open_env \<times> encoder_sample list \<Rightarrow> encoder_sample list" where
  "life_samples p = snd (snd p)"

text \<open>The units of a pipeline whose first unit lies at \<open>org\<close>.\<close>

definition placed :: "u64 \<Rightarrow> video_frame \<times> encoder_open_env \<times> encoder_sample list \<Rightarrow> u64 list" where
  "placed org p = map (\<lambda>v. org + (the (xs_pts v) - the (xs_pts (hd (life_samples p))))) (life_samples p)"

text \<open>How far a pipeline can move the timeline: its greatest raw time and one frame duration.\<close>

definition life_cost :: "(int \<Rightarrow> int \<Rightarrow> u64) \<Rightarrow> encoder_config \<Rightarrow> video_frame \<times> encoder_open_env \<times> encoder_sample list \<Rightarrow> nat" where
  "life_cost scale cfg p =
     unat (the (xs_pts (last (life_samples p)))) + unat (scale (ec_fps_den cfg) (ec_fps_num cfg))"

text \<open>The state between two pipelines; \<open>bound\<close> limits the last time put out.\<close>

definition timeline_inv :: "nat \<Rightarrow> h264_encoder \<Rightarrow> bool" where
  "timeline_inv bound e \<longleftrightarrow> he_next_discontinuity e \<and> sorted_wrt (<) (map au_pts_ns (he_units e)) \<and>
     (he_units e \<noteq> [] \<longrightarrow> he_has_output_pts e) \<and>
     (he_has_output_pts e \<longrightarrow> unat (he_output_pts e) \<le> bound \<and> (\<forall>u \<in> set (he_units e). au_pts_ns u \<le> he_output_pts e))"

lemma life_origin_bounds:
  assumes "timeline_inv bound e" "bound + unat p0 + unat d < 2 ^ 64" "d = scale (ec_fps_den (he_config e)) (ec_fps_num (he_config e))" "0 < d"
  shows "unat (life_origin scale p0 e) \<le> max (unat p0) (bound + unat d) \<and>
    (\<forall>u \<in> set (he_units e). au_pts_ns u < life_origin scale p0 e)"
proof (cases "he_has_output_pts e")
  case True
  then have o: "life_origin scale p0 e = max p0 (he_output_pts e + d)"
    by (simp add: life_origin_def set_origin_def assms(3))
  have b: "unat (he_output_pts e) \<le> bound" "\<forall>u \<in> set (he_units e). au_pts_ns u \<le> he_output_pts e"
    using assms(1) True by (simp_all add: timeline_inv_def)
  have add: "unat (he_output_pts e + d) = unat (he_output_pts e) + unat d"
    using assms(2) b(1) by (simp add: unat_word_ariths)
  then have less: "he_output_pts e < he_output_pts e + d" using assms(4) by (simp add: word_less_nat_alt)
  have "au_pts_ns u < max p0 (he_output_pts e + d)" if "u \<in> set (he_units e)" for u
    using that b(2) less by (meson le_less_trans max.cobounded2 order_less_le_trans)
  moreover have "unat (max p0 (he_output_pts e + d)) \<le> max (unat p0) (bound + unat d)"
    using add b(1) by (auto simp: max_def)
  ultimately show ?thesis using o by simp
next
  case False
  then show ?thesis using assms(1) by (auto simp: timeline_inv_def life_origin_def set_origin_def)
qed

lemma life_timeline:
  assumes "timeline_inv bound e" "life_ok (he_config e) p" "0 < scale (ec_fps_den (he_config e)) (ec_fps_num (he_config e))"
    "bound + life_cost scale (he_config e) p < 2 ^ 64"
  shows "\<exists>org us. let e' = pipeline_life scale p e in
    timeline_inv (bound + life_cost scale (he_config e) p) e' \<and> he_config e' = he_config e \<and> he_units e' = he_units e @ us \<and>
    map au_pts_ns us = placed org p \<and> map au_discontinuity us = True # replicate (length (life_samples p) - 1) False"
proof -
  obtain f env vs where p: "p = (f, env, vs)" by (cases p) auto
  obtain v ws where vs: "vs = v # ws" using assms(2) p by (cases vs) (auto simp: life_ok_def)
  define p0 where "p0 = the (xs_pts v)"
  define top' where "top' = the (xs_pts (last vs))"
  define d where "d = scale (ec_fps_den (he_config e)) (ec_fps_num (he_config e))"
  define org where "org = life_origin scale p0 e"
  define pts where "pts w = org + (the (xs_pts w) - p0)" for w :: encoder_sample
  have sorted: "sorted_wrt (<) (map (the \<circ> xs_pts) vs)" using assms(2) by (simp add: p life_ok_def)
  have range: "p0 \<le> the (xs_pts w) \<and> the (xs_pts w) \<le> top'" if "w \<in> set vs" for w
  proof -
    have "sorted (map (the \<circ> xs_pts) vs)" using sorted by (simp add: strict_sorted_imp_sorted)
    then have "(the \<circ> xs_pts) (hd vs) \<le> (the \<circ> xs_pts) w \<and> (the \<circ> xs_pts) w \<le> (the \<circ> xs_pts) (last vs)"
      using sorted_ends [of "map (the \<circ> xs_pts) vs" "(the \<circ> xs_pts) w"] that vs by (auto simp: hd_map last_map)
    then show ?thesis by (simp add: p0_def top'_def vs)
  qed
  have cost: "bound + unat top' + unat d < 2 ^ 64" using assms(4) by (simp add: life_cost_def life_samples_def p top'_def d_def)
  have le: "unat p0 \<le> unat top'" using range [of v] by (simp add: vs word_le_nat_alt)
  note ob = life_origin_bounds [of bound e p0 d scale, folded org_def]
  have org: "unat org \<le> max (unat p0) (bound + unat d)" "\<forall>u \<in> set (he_units e). au_pts_ns u < org"
    using ob assms(1,3) cost le by (simp_all add: d_def)
  have place: "unat (pts w) = unat org + (unat (the (xs_pts w)) - unat p0)" "unat (pts w) \<le> bound + unat top' + unat d"
    if "w \<in> set vs" for w
  proof -
    have r: "unat p0 \<le> unat (the (xs_pts w))" "unat (the (xs_pts w)) \<le> unat top'" using range [OF that] by (simp_all add: word_le_nat_alt)
    then have b: "unat org + (unat (the (xs_pts w)) - unat p0) \<le> bound + unat top' + unat d" using org(1) by (simp add: max_def split: if_splits)
    show "unat (pts w) = unat org + (unat (the (xs_pts w)) - unat p0)"
      unfolding pts_def by (rule place_word) (use range [OF that] b cost in simp_all)
    then show "unat (pts w) \<le> bound + unat top' + unat d" using b by simp
  qed
  from life_run [of e f env v ws scale] assms(1,2) obtain us where
    us: "he_config (pipeline_life scale p e) = he_config e" "he_units (pipeline_life scale p e) = he_units e @ us"
      "he_has_output_pts (pipeline_life scale p e)" "he_next_discontinuity (pipeline_life scale p e)"
      "map au_pts_ns us = map pts vs" "he_output_pts (pipeline_life scale p e) = pts (last vs)"
      "map au_discontinuity us = True # map (\<lambda>_. False) ws"
    by (auto simp: timeline_inv_def p vs Let_def pts_def org_def p0_def)
  have mono: "pts w \<le> pts (last vs)" if "w \<in> set vs" for w
  proof -
    have "last vs \<in> set vs" by (simp add: vs)
    from place(1) [OF this] place(1) [OF that] range [OF that] show ?thesis by (simp add: word_le_nat_alt diff_le_mono flip: top'_def)
  qed
  have "sorted_wrt (<) (map pts vs)"
    unfolding sorted_wrt_map
  proof (rule sorted_wrt_mono_rel)
    show "sorted_wrt (\<lambda>x y. the (xs_pts x) < the (xs_pts y)) vs" using sorted by (simp add: sorted_wrt_map)
    show "pts x < pts y" if "x \<in> set vs" "y \<in> set vs" "the (xs_pts x) < the (xs_pts y)" for x y
      using that place(1) [of x] place(1) [of y] range [of x] by (auto simp: word_less_nat_alt word_le_nat_alt intro!: diff_less_mono)
  qed
  moreover have "au_pts_ns u < pts w" if "u \<in> set (he_units e)" "w \<in> set vs" for u w
    using org(2) that place(1) [OF that(2)] by (auto simp: word_less_nat_alt)
  ultimately have "sorted_wrt (<) (map au_pts_ns (he_units e @ us))"
    using assms(1) us(5) by (auto simp: timeline_inv_def sorted_wrt_append)
  moreover have "au_pts_ns u \<le> pts (last vs)" if "u \<in> set (he_units e @ us)" for u
  proof -
    have "au_pts_ns u \<in> set (map au_pts_ns us) \<or> u \<in> set (he_units e)" using that by auto
    then show ?thesis
      unfolding us(5) using mono \<open>\<And>u w. u \<in> set (he_units e) \<Longrightarrow> w \<in> set vs \<Longrightarrow> au_pts_ns u < pts w\<close> [of u "last vs"]
      by (auto simp: vs)
  qed
  ultimately have "timeline_inv (bound + life_cost scale (he_config e) p) (pipeline_life scale p e)"
    using us place(2) [of "last vs"] by (auto simp: timeline_inv_def life_cost_def life_samples_def p vs top'_def d_def)
  then show ?thesis
    using us by (intro exI [of _ org] exI [of _ us])
      (simp add: Let_def placed_def life_samples_def p pts_def p0_def vs map_replicate_const)
qed

abbreviation lives :: "(int \<Rightarrow> int \<Rightarrow> u64) \<Rightarrow> (video_frame \<times> encoder_open_env \<times> encoder_sample list) list \<Rightarrow> h264_encoder \<Rightarrow> h264_encoder" where
  "lives scale ps e \<equiv> fold (pipeline_life scale) ps e"

lemma lives_timeline:
  assumes "timeline_inv bound e" "list_all (life_ok (he_config e)) ps"
    "0 < scale (ec_fps_den (he_config e)) (ec_fps_num (he_config e))"
    "bound + (\<Sum>p \<leftarrow> ps. life_cost scale (he_config e) p) < 2 ^ 64"
  shows "\<exists>us orgs. he_units (lives scale ps e) = he_units e @ us \<and>
    sorted_wrt (<) (map au_pts_ns (he_units e @ us)) \<and> length orgs = length ps \<and>
    map au_pts_ns us = concat (map2 placed orgs ps) \<and>
    map au_discontinuity us = concat (map (\<lambda>p. True # replicate (length (life_samples p) - 1) False) ps)"
  using assms
proof (induction ps arbitrary: e bound)
  case Nil
  then show ?case by (auto simp: timeline_inv_def)
next
  case (Cons p ps)
  let ?e = "pipeline_life scale p e"
  from life_timeline [of bound e p scale] Cons.prems obtain org us where
    us: "timeline_inv (bound + life_cost scale (he_config e) p) ?e" "he_config ?e = he_config e" "he_units ?e = he_units e @ us"
      "map au_pts_ns us = placed org p" "map au_discontinuity us = True # replicate (length (life_samples p) - 1) False"
    unfolding Let_def by auto
  from Cons.IH [OF us(1)] us(2) Cons.prems(2-4) obtain us' orgs where
    us': "he_units (lives scale ps ?e) = he_units ?e @ us'" "sorted_wrt (<) (map au_pts_ns (he_units ?e @ us'))"
      "length orgs = length ps" "map au_pts_ns us' = concat (map2 placed orgs ps)"
      "map au_discontinuity us' = concat (map (\<lambda>p. True # replicate (length (life_samples p) - 1) False) ps)"
    by (auto simp: add.assoc)
  then show ?case using us by (intro exI [of _ "us @ us'"] exI [of _ "org # orgs"]) auto
qed

section \<open>Properties\<close>

text \<open>C6: the units the encoder puts out lie on one increasing timeline however often its pipeline is
  rebuilt, although each pipeline may start its raw times anew: over the life of a started encoder with any
  number of pipelines, the presentation times of all units strictly increase, the units of one pipeline keep
  the exact distances of their raw times, and exactly the first unit of each pipeline is marked as a
  discontinuity.  The samples of one pipeline have increasing times, the frame duration is not zero and the
  sum of all the durations fits 64 bits.\<close>

theorem encoder_timeline_increasing:
  assumes "he_start cfg True True now None e0 = (Inr (), e)" "he_units e0 = []" "list_all (life_ok cfg) ps"
    and "0 < scale (ec_fps_den cfg) (ec_fps_num cfg)" "(\<Sum>p \<leftarrow> ps. life_cost scale cfg p) < 2 ^ 64"
  shows "sorted_wrt (<) (map au_pts_ns (he_units (lives scale ps e))) \<and>
    (\<exists>orgs. length orgs = length ps \<and> map au_pts_ns (he_units (lives scale ps e)) = concat (map2 placed orgs ps)) \<and>
    map au_discontinuity (he_units (lives scale ps e)) =
      concat (map (\<lambda>p. True # replicate (length (life_samples p) - 1) False) ps)"
proof -
  have "he_config e = cfg" "timeline_inv 0 e" "he_units e = []"
    using encoder_started [OF assms(1)] assms(2) by (simp_all add: timeline_inv_def)
  then show ?thesis using lives_timeline [of 0 e ps scale] assms(3-5) by auto
qed

text \<open>C20: the encoder accounts for every frame: over any run of a started encoder's worker, whatever the
  pipeline, the callbacks and the producer do, each frame taken from the queue is counted as exactly one of
  submitted, rejected or dropped under pressure (modulo 64 bits), no row is read outside a frame, and the
  presentation times of the buffers handed to the pipeline strictly increase up to the greatest 64-bit
  value.\<close>

theorem encoder_accounts_for_frames:
  assumes "he_start cfg True True now None e0 = (Inr (), e)" "he_buffers e0 = []" "popped (bq_stats (he_input e0)) = 0"
    and "run_turns scale envs e = (r, e')"
  shows "popped (bq_stats (he_input e')) =
      em_submitted (he_metrics e') + em_rejected (he_metrics e') + em_pressure (he_metrics e') \<and>
    r \<noteq> Run_undefined \<and> successively (\<lambda>a b. a < b \<or> a = - 1) (map ib_pts (he_buffers e'))"
proof -
  have "input_inv e" using encoder_started [OF assms(1)] assms(2,3) by (simp add: input_inv_def input_side_def)
  from run_turns_inv [OF this assms(4)] show ?thesis by (auto simp: input_inv_def rising_def [abs_def])
qed

text \<open>the detector, the annotator and the encoder agree on what a frame is: their three checks, each
  written on its own, accept exactly the same frames.\<close>

theorem frame_checks_agree:
  "(valid_frame f = Inr ()) = (validate_image (frame_view f) = Inr ()) \<and>
   (annotation_valid_frame f = Inr ()) = (validate_image (frame_view f) = Inr ())"
proof -
  have "nat (vf_stride f) < nat (vf_width f) * 3 \<or> 0 \<le> vf_stride f" if "0 < vf_width f" using that by auto
  then show ?thesis
    by (auto simp: valid_frame_ok annotation_valid_frame_def validate_image_def frame_view_def Let_def not_less split: if_splits)
qed

text \<open>the check of the H.264 level is exact and stays in range: for sizes and rates that are positive C
  integers every product it computes fits a signed 64-bit integer, and it accepts a frame exactly when the
  macroblocks of its size, rounded up in both directions, are at most 3600 and their rate per second, as a
  real number, at most 108000.\<close>

theorem level_check_exact:
  assumes "0 < vf_width f" "vf_width f \<le> int_max" "0 < vf_height f" "vf_height f \<le> int_max"
    and "0 < ec_fps_num c" "ec_fps_num c \<le> int_max" "0 < ec_fps_den c" "ec_fps_den c \<le> int_max"
  shows "macroblocks (vf_width f) (vf_height f) < 2 ^ 63 \<and> 108000 * ec_fps_den c < 2 ^ 63 \<and>
    (macroblocks (vf_width f) (vf_height f) \<le> 3600 \<longrightarrow> macroblocks (vf_width f) (vf_height f) * ec_fps_num c < 2 ^ 63) \<and>
    (level_3_1_supports f c = Inr () \<longleftrightarrow>
      (let mbs = \<lceil>real_of_int (vf_width f) / 16\<rceil> * \<lceil>real_of_int (vf_height f) / 16\<rceil>
       in mbs \<le> 3600 \<and> real_of_int mbs * (real_of_int (ec_fps_num c) / real_of_int (ec_fps_den c)) \<le> 108000))"
proof -
  have up: "trunc_div (n + 15) 16 = \<lceil>real_of_int n / 16\<rceil>" if "0 < n" for n
  proof -
    have "\<lceil>real_of_int n / 16\<rceil> = - (- n div 16)" using ceiling_divide_eq_div [of n 16] by simp
    then show ?thesis using that by (simp add: trunc_div_def)
  qed
  have mbs: "macroblocks (vf_width f) (vf_height f) = \<lceil>real_of_int (vf_width f) / 16\<rceil> * \<lceil>real_of_int (vf_height f) / 16\<rceil>"
    using assms(1,3) by (simp add: macroblocks_def up)
  have side: "0 \<le> trunc_div (n + 15) 16 \<and> trunc_div (n + 15) 16 \<le> 2 ^ 27" if "0 < n" "n \<le> int_max" for n
    using that by (simp add: trunc_div_def) presburger
  have big: "macroblocks (vf_width f) (vf_height f) \<le> 2 ^ 27 * 2 ^ 27"
    using side [of "vf_width f"] side [of "vf_height f"] assms(1-4) unfolding macroblocks_def by (intro mult_mono) simp_all
  have pos: "0 \<le> macroblocks (vf_width f) (vf_height f)"
    using side [of "vf_width f"] side [of "vf_height f"] assms(1-4) by (simp add: macroblocks_def)
  have small: "macroblocks (vf_width f) (vf_height f) * ec_fps_num c \<le> 3600 * int_max"
    if "macroblocks (vf_width f) (vf_height f) \<le> 3600"
    using that pos assms(5,6) by (intro mult_mono) auto
  define m where "m = macroblocks (vf_width f) (vf_height f)"
  have "real_of_int m * (real_of_int (ec_fps_num c) / real_of_int (ec_fps_den c)) \<le> 108000 \<longleftrightarrow>
      m * ec_fps_num c \<le> 108000 * ec_fps_den c"
    using assms(7) by (simp add: field_simps flip: of_int_mult) linarith
  then have "level_3_1_supports f c = Inr () \<longleftrightarrow> m \<le> 3600 \<and>
      real_of_int m * (real_of_int (ec_fps_num c) / real_of_int (ec_fps_den c)) \<le> 108000"
    by (auto simp: level_3_1_supports_def Let_def m_def)
  then show ?thesis using big small assms(8) mbs by (auto simp: Let_def m_def)
qed

section \<open>Witnesses\<close>

text \<open>An encoder whose pipeline is rebuilt once and starts its raw times anew.\<close>

definition blank_encoder :: h264_encoder where
  "blank_encoder =
     \<lparr>he_config = default_encoder_config, he_input = \<lparr>bq_capacity = 2, bq_queue = [], bq_stats = zero_stats, bq_shutdown = False\<rparr>,
      he_output = \<lparr>bq_capacity = 2, bq_queue = [], bq_stats = zero_stats, bq_shutdown = False\<rparr>, he_status = None,
      he_sink = False, he_worker = False, he_running = False, he_pipeline = False, he_elements = False,
      he_accepting = False, he_in_flight = 0, he_metrics = zero_metrics, he_unit_time = 0, he_width = 0, he_height = 0,
      he_epoch = 0, he_input_pts = 0, he_has_input_pts = False, he_next_discontinuity = True, he_has_output_pts = False,
      he_has_origin = False, he_output_pts = 0, he_raw_origin = 0, he_output_origin = 0, he_log = [], he_buffers = [],
      he_units = []\<rparr>"

definition sample_scale :: "int \<Rightarrow> int \<Rightarrow> u64" where
  "sample_scale den num = of_int (1000000000 * den div num)"

definition small_frame :: video_frame where
  "small_frame = \<lparr>vf_sequence = 1, vf_timestamp = 5, vf_pts_ns = 0, vf_generation = 1, vf_width = 2, vf_height = 2,
     vf_stride = 6, vf_bgr = replicate 12 0\<rparr>"

definition good_open :: encoder_open_env where
  "good_open = \<lparr>xo_create_error = None, xo_elements = True, xo_linked = True, xo_now = 1, xo_playing = True\<rparr>"

definition encoded :: "u64 \<Rightarrow> encoder_sample" where
  "encoded pts = \<lparr>xs_mapped = True, xs_offset = None, xs_pts = Some pts, xs_dts = None, xs_delta = False, xs_bytes = [1],
     xs_thrown = None, xs_now = 1, xs_publish_now = 1\<rparr>"

definition two_lives :: "(video_frame \<times> encoder_open_env \<times> encoder_sample list) list" where
  "two_lives = [(small_frame, good_open, [encoded 100, encoded 200]), (small_frame, good_open, [encoded 50, encoded 90])]"

abbreviation started_encoder :: h264_encoder where
  "started_encoder \<equiv> snd (he_start default_encoder_config True True 1 None blank_encoder)"

lemma blank_starts: "he_start default_encoder_config True True 1 None blank_encoder = (Inr (), started_encoder)"
  unfolding prod_eq_iff by (simp add: he_start_def valid_config_def default_encoder_config_def blank_encoder_def Let_def)

theorem encoder_timeline_increasing_witness:
  "sorted_wrt (<) (map au_pts_ns (he_units (lives sample_scale two_lives started_encoder))) \<and>
   map au_discontinuity (he_units (lives sample_scale two_lives started_encoder)) = [True, False, True, False]"
proof -
  have "list_all (life_ok default_encoder_config) two_lives" by code_simp
  moreover have "0 < sample_scale (ec_fps_den default_encoder_config) (ec_fps_num default_encoder_config)" by code_simp
  moreover have "(\<Sum>p \<leftarrow> two_lives. life_cost sample_scale default_encoder_config p) < 2 ^ 64"
    by (simp add: two_lives_def life_cost_def life_samples_def encoded_def sample_scale_def default_encoder_config_def)
  moreover have "he_units blank_encoder = []" by (simp add: blank_encoder_def)
  moreover have "concat (map (\<lambda>p. True # replicate (length (life_samples p) - 1) False) two_lives) = [True, False, True, False]"
    by (simp add: two_lives_def life_samples_def)
  ultimately show ?thesis using encoder_timeline_increasing [OF blank_starts, of two_lives sample_scale] by simp
qed

definition frame_turn :: encode_turn where
  "frame_turn = \<lparr>et_acts = [Enc_frame small_frame], et_poll_acts = [], et_poll = Poll_none, et_submit_acts = [], et_open = good_open,
     et_submit = \<lparr>xb_level = 0, xb_allocated = True, xb_mapped = True, xb_now = 7, xb_flow = Flow_ok\<rparr>,
     et_idle_now = 1, et_poll_now = 1, et_rebuild_now = 1, et_end_now = 1\<rparr>"

theorem encoder_accounts_for_frames_witness:
  "let e = snd (run_turns sample_scale [frame_turn, frame_turn] started_encoder); m = he_metrics e
   in popped (bq_stats (he_input e)) = em_submitted m + em_rejected m + em_pressure m"
proof -
  have "he_buffers blank_encoder = []" "popped (bq_stats (he_input blank_encoder)) = 0"
    by (simp_all add: blank_encoder_def zero_stats_def)
  then show ?thesis
    using encoder_accounts_for_frames [OF blank_starts _ _ surjective_pairing, of sample_scale "[frame_turn, frame_turn]"]
    by (simp add: Let_def)
qed

theorem level_check_exact_witness:
  "macroblocks 1280 720 < 2 ^ 63 \<and> level_3_1_supports (small_frame\<lparr>vf_width := 1280, vf_height := 720\<rparr>) default_encoder_config = Inr ()"
proof
  show "macroblocks 1280 720 < 2 ^ 63"
    using level_check_exact [of "small_frame\<lparr>vf_width := 1280, vf_height := 720\<rparr>" default_encoder_config]
    by (simp add: default_encoder_config_def)
qed code_simp

end
