(* ===== verification/Yolo_Inference.thy ===== *)
theory Yolo_Inference
  imports Annotator Api_State Alerts Bounded_Queue
begin

text \<open>
  \<^verbatim>\<open>YoloInferenceModule\<close> (\<^verbatim>\<open>src/inference/yolo_inference_module.cpp\<close>): the worker
  that runs the detector on camera frames and publishes what it finds to the API, the event channel, the
  detection sink, the alert worker and the output queue.  The inference backend, OpenCV and the clock are
  parameters; what other threads do between two steps of the worker is a list of actions.
\<close>

section \<open>Names and events\<close>

definition coco_class_names :: "string list" where
  "coco_class_names =
     [''person'', ''bicycle'', ''car'', ''motorcycle'', ''airplane'', ''bus'', ''train'',
      ''truck'', ''boat'', ''traffic light'', ''fire hydrant'', ''stop sign'',
      ''parking meter'', ''bench'', ''bird'', ''cat'', ''dog'', ''horse'', ''sheep'',
      ''cow'', ''elephant'', ''bear'', ''zebra'', ''giraffe'', ''backpack'', ''umbrella'',
      ''handbag'', ''tie'', ''suitcase'', ''frisbee'', ''skis'', ''snowboard'',
      ''sports ball'', ''kite'', ''baseball bat'', ''baseball glove'', ''skateboard'',
      ''surfboard'', ''tennis racket'', ''bottle'', ''wine glass'', ''cup'', ''fork'',
      ''knife'', ''spoon'', ''bowl'', ''banana'', ''apple'', ''sandwich'', ''orange'',
      ''broccoli'', ''carrot'', ''hot dog'', ''pizza'', ''donut'', ''cake'', ''chair'',
      ''couch'', ''potted plant'', ''bed'', ''dining table'', ''toilet'', ''tv'', ''laptop'',
      ''mouse'', ''remote'', ''keyboard'', ''cell phone'', ''microwave'', ''oven'',
      ''toaster'', ''sink'', ''refrigerator'', ''book'', ''clock'', ''vase'', ''scissors'',
      ''teddy bear'', ''hair drier'', ''toothbrush'']"

definition coco_class_name :: "int \<Rightarrow> string" where
  "coco_class_name class_id =
     (if class_id \<ge> 0 \<and> nat class_id < length coco_class_names then coco_class_names ! nat class_id
      else ''class_'' @ int_to_string class_id)"

definition detection_item :: "detection \<Rightarrow> string" where
  \<open>detection_item d =
     ''{"class_id":'' @ int_to_string (det_class d) @
     '',"class_name":"'' @ coco_class_name (det_class d) @
     ''","confidence":'' @ ostream_double 9 (det_confidence d) @
     '',"box":['' @ ostream_double 9 (det_x1 d) @ '','' @ ostream_double 9 (det_y1 d) @ '','' @
     ostream_double 9 (det_x2 d) @ '','' @ ostream_double 9 (det_y2 d) @ '']}''\<close>

definition detection_event_data :: "detection_result \<Rightarrow> video_frame \<Rightarrow> string" where
  \<open>detection_event_data r f =
     ''{"available":true,"frame_sequence":'' @ to_string (unat (frame_sequence r)) @
     '',"pts_ns":'' @ to_string (unat (vf_pts_ns f)) @
     '',"frame_width":'' @ int_to_string (vf_width f) @
     '',"frame_height":'' @ int_to_string (vf_height f) @
     '',"detections":['' @ intersperse_comma (map detection_item (detections r)) @ '']}''\<close>

section \<open>State\<close>

record alert_work =
  aw_detections :: detection_result
  aw_snapshot :: video_frame
  aw_generation :: u64

text \<open>\<open>ym_output\<close> is the queue of annotated frames if there is one, \<open>ym_events\<close> and
  \<open>ym_sink\<close> say whether there is an event channel and a detection sink, \<open>ym_previous\<close> is the
  worker's variable.  \<open>ym_published\<close>, \<open>ym_sunk\<close>, \<open>ym_taken\<close> and
  \<open>ym_given\<close> record, for the properties, the detection events, the calls of the sink, and the numbers
  of the frames taken from the input and put into the output.\<close>

record yolo_module =
  ym_input :: "video_frame bounded_queue"
  ym_output :: "video_frame bounded_queue option"
  ym_alert_queue :: "alert_work bounded_queue"
  ym_status :: "runtime_status option"
  ym_api :: "api_state option"
  ym_events :: bool
  ym_alerts :: "alert_manager option"
  ym_sink :: bool
  ym_annotation :: annotation_options
  ym_detector :: bool
  ym_stopping :: bool
  ym_worker :: bool
  ym_alert_worker :: bool
  ym_previous :: time_point
  ym_log :: "(log_level \<times> string) list"
  ym_published :: "string list"
  ym_sunk :: "(video_frame \<times> detection_dto list) list"
  ym_taken :: "u64 list"
  ym_given :: "u64 list"

definition ym_note :: "log_level \<Rightarrow> string \<Rightarrow> yolo_module \<Rightarrow> yolo_module" where
  "ym_note l text m = m\<lparr>ym_log := ym_log m @ [(l, text)]\<rparr>"

abbreviation on_status :: "(runtime_status \<Rightarrow> runtime_status) \<Rightarrow> yolo_module \<Rightarrow> yolo_module" where
  "on_status f m \<equiv> m\<lparr>ym_status := map_option f (ym_status m)\<rparr>"

definition give_output :: "video_frame \<Rightarrow> yolo_module \<Rightarrow> yolo_module" where
  "give_output f m =
     (case ym_output m of
        None \<Rightarrow> m
      | Some q \<Rightarrow> m\<lparr>ym_output := Some (snd (push f q)), ym_given := ym_given m @ [vf_sequence f]\<rparr>)"

definition publish_detection :: "string \<Rightarrow> yolo_module \<Rightarrow> yolo_module" where
  "publish_detection data m = (if ym_events m then m\<lparr>ym_published := ym_published m @ [data]\<rparr> else m)"

section \<open>Lifecycle\<close>

definition file_name_of :: "string \<Rightarrow> string" where
  "file_name_of path = rev (takeWhile (\<lambda>c. c \<noteq> CHR ''/'') (rev path))"

text \<open>The backend: whether the factory gives one, and the error of loading the engine.\<close>

definition ym_initialize :: "config \<Rightarrow> bool \<Rightarrow> string option \<Rightarrow> yolo_module \<Rightarrow> bool \<times> yolo_module" where
  "ym_initialize cfg made load_error m =
     (if ym_detector m \<or> ym_worker m then (False, m)
      else
        let m1 = on_status clear_detector
              (m\<lparr>ym_input := reset (ym_input m), ym_output := map_option reset (ym_output m),
                 ym_alert_queue := reset (ym_alert_queue m)\<rparr>);
            m2 = m1\<lparr>ym_annotation := (ym_annotation m1)\<lparr>ao_enabled := dc_annotate (cfg_detector cfg), ao_show_metrics := True\<rparr>,
                    ym_alerts := map_option (am_configure (cfg_alerts cfg) (alert_directory (cfg_storage cfg))
                                   (file_name_of (dc_engine (cfg_detector cfg)))) (ym_alerts m1)\<rparr>
        in if \<not> made then (False, ym_note Log_Error ''inference backend unavailable'' m2)
           else case load_error of
             None \<Rightarrow> (True, m2\<lparr>ym_detector := True\<rparr>)
           | Some e \<Rightarrow> (False, ym_note Log_Error e (m2\<lparr>ym_detector := False\<rparr>)))"

definition ym_start :: "yolo_module \<Rightarrow> bool \<times> yolo_module" where
  "ym_start m =
     (if \<not> ym_detector m \<or> ym_worker m then (False, m)
      else (True, m\<lparr>ym_stopping := False, ym_alert_worker := (ym_alerts m \<noteq> None), ym_worker := True, ym_previous := 0\<rparr>))"

definition ym_stop :: "yolo_module \<Rightarrow> yolo_module" where
  "ym_stop m = m\<lparr>ym_stopping := True, ym_input := shutdown (ym_input m), ym_alert_queue := shutdown (ym_alert_queue m)\<rparr>"

text \<open>After both threads have ended.\<close>

definition ym_wait :: "yolo_module \<Rightarrow> yolo_module" where
  "ym_wait m =
     on_status clear_detector
       (m\<lparr>ym_worker := False, ym_alert_worker := False, ym_output := map_option shutdown (ym_output m), ym_detector := False\<rparr>)"

section \<open>The alert worker\<close>

text \<open>One turn of \<^verbatim>\<open>persist_alerts\<close>: what storing answers, the wall clock and the time, and an
  exception of \<^verbatim>\<open>process\<close>.  Without work the turn waits or ends.\<close>

record alert_turn =
  at_store :: "alert_event \<Rightarrow> persist_env"
  at_wall_ms :: int
  at_time :: time_point
  at_thrown :: "string option"

definition snapshot_of :: "video_frame \<Rightarrow> snapshot_frame" where
  "snapshot_of f = \<lparr>sf_width = vf_width f, sf_height = vf_height f, sf_stride = vf_stride f, sf_bytes = length (vf_bgr f)\<rparr>"

definition persist_turn :: "alert_turn \<Rightarrow> yolo_module \<Rightarrow> yolo_module" where
  "persist_turn env m =
     (case pop (ym_alert_queue m) of
        None \<Rightarrow> m
      | Some (None, q) \<Rightarrow> m\<lparr>ym_alert_queue := q\<rparr>
      | Some (Some w, q) \<Rightarrow>
          let m1 = m\<lparr>ym_alert_queue := q\<rparr>;
              inp = \<lparr>fi_result = aw_detections w, fi_width = vf_width (aw_snapshot w), fi_height = vf_height (aw_snapshot w),
                     fi_names = coco_class_names, fi_generation = aw_generation w, fi_wall_ms = at_wall_ms env,
                     fi_time = at_time env\<rparr>
          in case at_thrown env of
               Some e \<Rightarrow> ym_note Log_Error e m1
             | None \<Rightarrow> m1\<lparr>ym_alerts := map_option (\<lambda>a. snd (process (at_store env) (Some (snapshot_of (aw_snapshot w))) inp a)) (ym_alerts m1)\<rparr>)"

section \<open>Other threads\<close>

datatype yolo_act =
    Act_frame video_frame | Act_take | Act_stop | Act_alert alert_turn
  | Act_enable bool | Act_support bool | Act_configure config

text \<open>A call of the API that synchronizes the runtime status.\<close>

definition api_call :: "(api_state \<Rightarrow> runtime_status \<Rightarrow> api_state \<times> runtime_status) \<Rightarrow> yolo_module \<Rightarrow> yolo_module" where
  "api_call f m =
     (case (ym_api m, ym_status m) of
        (Some a, Some st) \<Rightarrow> (case f a st of (a', st') \<Rightarrow> m\<lparr>ym_api := Some a', ym_status := Some st'\<rparr>)
      | (Some a, None) \<Rightarrow> m\<lparr>ym_api := Some (fst (f a new_status))\<rparr>
      | (None, _) \<Rightarrow> m)"

fun do_yolo_act :: "yolo_act \<Rightarrow> yolo_module \<Rightarrow> yolo_module" where
  "do_yolo_act (Act_frame f) m = m\<lparr>ym_input := snd (push f (ym_input m))\<rparr>"
| "do_yolo_act Act_take m = m\<lparr>ym_output := map_option (\<lambda>q. snd (take_front q)) (ym_output m)\<rparr>"
| "do_yolo_act Act_stop m = ym_stop m"
| "do_yolo_act (Act_alert env) m = persist_turn env m"
| "do_yolo_act (Act_enable b) m = api_call (set_detector_enabled b) m"
| "do_yolo_act (Act_support b) m = api_call (set_detector_supported b) m"
| "do_yolo_act (Act_configure cfg) m = api_call (api_configure cfg) m"

abbreviation yolo_acts :: "yolo_act list \<Rightarrow> yolo_module \<Rightarrow> yolo_module" where
  "yolo_acts \<equiv> fold do_yolo_act"

section \<open>The worker\<close>

record inference_timing =
  it_preprocess_wall_ms :: fp
  it_inference_wall_ms :: fp
  it_postprocess_wall_ms :: fp

datatype inference_outcome = Inferred detection_result inference_timing | Inference_failed string | Inference_threw "string option"

text \<open>What one turn meets: the actions before its check, between taking a frame and the second check, and
  while the detector runs; the detector; the clock; the clock of the status; OpenCV.\<close>

record yolo_turn =
  yt_acts :: "yolo_act list"
  yt_pop_acts :: "yolo_act list"
  yt_run_acts :: "yolo_act list"
  yt_outcome :: inference_outcome
  yt_now :: time_point
  yt_status_now :: int
  yt_cv :: cv_env

datatype yolo_status = Yolo_again | Yolo_waits | Yolo_ends | Yolo_undefined

definition invalidate :: "permit_token \<Rightarrow> yolo_module \<Rightarrow> yolo_module" where
  \<open>invalidate permit m =
     (let m1 = (case ym_api m of
          Some a \<Rightarrow>
            (case invalidate_detections permit
                (\<lambda>was_available w. let w1 = on_status clear_detector w
                   in if was_available then publish_detection ''{"available":false}'' w1 else w1) a m of
               (_, a', m') \<Rightarrow> m'\<lparr>ym_api := Some a'\<rparr>)
        | None \<Rightarrow> on_status clear_detector m)
      in m1\<lparr>ym_previous := 0\<rparr>)\<close>

definition inference_error :: "inference_outcome \<Rightarrow> string" where
  "inference_error out =
     (case out of Inference_failed e \<Rightarrow> e | Inference_threw (Some e) \<Rightarrow> e
      | Inference_threw None \<Rightarrow> ''unknown TensorRT inference error'' | Inferred _ _ \<Rightarrow> [])"

definition detection_dtos :: "detection_result \<Rightarrow> detection_dto list" where
  "detection_dtos r =
     map (\<lambda>d. \<lparr>dto_class_id = det_class d, dto_class_name = coco_class_name (det_class d), dto_confidence = det_confidence d,
               dto_x1 = det_x1 d, dto_y1 = det_y1 d, dto_x2 = det_x2 d, dto_y2 = det_y2 d\<rparr>) (detections r)"

definition queue_alert :: "alert_work \<Rightarrow> yolo_module \<Rightarrow> yolo_module" where
  "queue_alert work m =
     (if ym_alerts m = None then m
      else
        let q = snd (push work (ym_alert_queue m)); m1 = m\<lparr>ym_alert_queue := q\<rparr>
        in if dropped (bq_stats q) \<noteq> dropped (bq_stats (ym_alert_queue m))
           then ym_note Log_Error ''alert persistence queue dropped its oldest frame'' m1 else m1)"

text \<open>The closure \<^verbatim>\<open>commit\<close>.\<close>

definition commit_result ::
    "yolo_turn \<Rightarrow> bool \<Rightarrow> video_frame \<Rightarrow> detection_result \<Rightarrow> video_frame \<Rightarrow> alert_work \<Rightarrow> yolo_module \<Rightarrow> yolo_module" where
  "commit_result env has_previous f r annotated work m =
     (let fps = ao_fps (ym_annotation m); ms = ao_inference_ms (ym_annotation m);
          m1 = on_status (if has_previous then update_detector (yt_status_now env) fps ms
                          else update_inference (yt_status_now env) ms) (m\<lparr>ym_previous := yt_now env\<rparr>);
          m2 = publish_detection (detection_event_data r f) m1;
          m3 = (if ym_sink m2 then m2\<lparr>ym_sunk := ym_sunk m2 @ [(f, detection_dtos r)]\<rparr> else m2)
      in give_output annotated (queue_alert work m3))"

definition set_timing :: "yolo_turn \<Rightarrow> inference_timing \<Rightarrow> yolo_module \<Rightarrow> yolo_module" where
  "set_timing env t m =
     (let fps = (if ym_previous m \<noteq> 0 then fp_div round64 (Fin 1) (seconds_of (yt_now env - ym_previous m)) else Fin 0);
          ms = fp_add round64 (fp_add round64 (it_preprocess_wall_ms t) (it_inference_wall_ms t)) (it_postprocess_wall_ms t)
      in m\<lparr>ym_annotation := (ym_annotation m)\<lparr>ao_fps := fps, ao_inference_ms := ms\<rparr>, ym_previous := yt_now env\<rparr>)"

text \<open>The turn after a successful inference.\<close>

definition publish_result ::
    "yolo_turn \<Rightarrow> permit_token \<Rightarrow> video_frame \<Rightarrow> detection_result \<Rightarrow> inference_timing \<Rightarrow> yolo_module \<Rightarrow> yolo_status \<times> yolo_module" where
  "publish_result env permit f r t m =
     (let has_previous = ym_previous m \<noteq> 0; m1 = set_timing env t m;
          (res, _, annotated) = (if ym_output m1 = None then (Annotated, [], empty_frame)
                                 else annotate_frame (yt_cv env) False f r coco_class_names (ym_annotation m1))
      in case res of
           Annotate_undefined \<Rightarrow> (Yolo_undefined, m1)
         | Annotate_failed e \<Rightarrow> (Yolo_again, give_output f (ym_note Log_Error e (invalidate permit m1)))
         | Annotated \<Rightarrow>
             let work = \<lparr>aw_detections = r, aw_snapshot = (if ym_output m1 = None then f else annotated),
                         aw_generation = permit_generation permit\<rparr>;
                 commit = commit_result env has_previous f r annotated work
             in (Yolo_again,
                 case ym_api m1 of
                   None \<Rightarrow> commit m1
                 | Some a \<Rightarrow>
                     (case commit_detections permit (frame_sequence r) (vf_width f) (vf_height f) (vf_pts_ns f)
                             (detection_dtos r) commit a m1 of
                        (True, a', m') \<Rightarrow> m'\<lparr>ym_api := Some a'\<rparr>
                      | (False, a', m') \<Rightarrow> give_output f (m'\<lparr>ym_api := Some a'\<rparr>))))"

definition detect_turn :: "yolo_turn \<Rightarrow> video_frame \<Rightarrow> yolo_module \<Rightarrow> yolo_status \<times> yolo_module" where
  "detect_turn env f m =
     (let permit = (case ym_api m of Some a \<Rightarrow> detector_permit a | None \<Rightarrow> \<lparr>permit_enabled = True, permit_generation = 0\<rparr>) in
      if \<not> permit_enabled permit then (Yolo_again, give_output f (on_status clear_detector m))
      else
        let m1 = yolo_acts (yt_run_acts env) m in
        case yt_outcome env of
          Inferred r t \<Rightarrow> publish_result env permit f r t m1
        | out \<Rightarrow> (Yolo_again, give_output f (ym_note Log_Error (inference_error out) (invalidate permit m1))))"

definition yolo_turn_step :: "yolo_turn \<Rightarrow> yolo_module \<Rightarrow> yolo_status \<times> yolo_module" where
  "yolo_turn_step env m0 =
     (let m = yolo_acts (yt_acts env) m0 in
      if ym_stopping m then (Yolo_ends, m)
      else case pop (ym_input m) of
        None \<Rightarrow> (Yolo_waits, m)
      | Some (None, q) \<Rightarrow> (Yolo_ends, m\<lparr>ym_input := q\<rparr>)
      | Some (Some f, q) \<Rightarrow>
          let m1 = yolo_acts (yt_pop_acts env) (m\<lparr>ym_input := q\<rparr>) in
          if ym_stopping m1 then (Yolo_ends, m1)
          else detect_turn env f (m1\<lparr>ym_taken := ym_taken m1 @ [vf_sequence f]\<rparr>))"

text \<open>A turn that has to wait for a frame is taken again with the actions of the next environment.\<close>

fun yolo_run :: "yolo_turn list \<Rightarrow> yolo_module \<Rightarrow> yolo_status \<times> yolo_module" where
  "yolo_run [] m = (Yolo_again, m)"
| "yolo_run (env # envs) m =
     (case yolo_turn_step env m of
        (Yolo_again, m1) \<Rightarrow> yolo_run envs m1
      | (Yolo_waits, m1) \<Rightarrow> yolo_run envs m1
      | (res, m1) \<Rightarrow> (res, m1))"

end
