(* ===== verification/Yolo_Flow.thy ===== *)
theory Yolo_Flow
  imports Yolo_Inference
begin

text \<open>
  What the worker of \<open>Yolo_Inference\<close> guarantees: every frame it takes leaves once and in order, a
  result is published to all its consumers or to none, and the status never shows a detector that is
  switched off.
\<close>

section \<open>What the steps leave alone\<close>

text \<open>The frames that went through, whether there is an output queue, and the frames still to come.\<close>

definition flow_side :: "yolo_module \<Rightarrow> _" where
  "flow_side m = (ym_taken m, ym_given m, ym_output m = None, ym_input m)"

lemma note_side [simp]: "flow_side (ym_note l t m) = flow_side m"
  by (simp add: ym_note_def flow_side_def)

lemma publish_side [simp]: "flow_side (publish_detection d m) = flow_side m"
  by (simp add: publish_detection_def flow_side_def)

lemma queue_alert_side [simp]: "flow_side (queue_alert w m) = flow_side m"
  by (simp add: queue_alert_def Let_def ym_note_def flow_side_def)

lemma invalidate_side [simp]: "flow_side (invalidate p m) = flow_side m"
  by (auto simp: invalidate_def invalidate_detections_def publish_detection_def flow_side_def Let_def split: option.split)

lemma timing_side [simp]: "flow_side (set_timing env t m) = flow_side m"
  by (simp add: set_timing_def flow_side_def Let_def)

lemma give_side:
  "flow_side (give_output f m) =
     (ym_taken m, if ym_output m = None then ym_given m else ym_given m @ [vf_sequence f], ym_output m = None, ym_input m)"
  by (simp add: give_output_def flow_side_def split: option.split)

lemma commit_side:
  "flow_side (commit_result env hp f r annotated work m) =
     (ym_taken m, if ym_output m = None then ym_given m else ym_given m @ [vf_sequence annotated], ym_output m = None, ym_input m)"
proof -
  define m3 where "m3 = (let m1 = on_status (if hp then update_detector (yt_status_now env) (ao_fps (ym_annotation m)) (ao_inference_ms (ym_annotation m))
                          else update_inference (yt_status_now env) (ao_inference_ms (ym_annotation m))) (m\<lparr>ym_previous := yt_now env\<rparr>);
          m2 = publish_detection (detection_event_data r f) m1
      in if ym_sink m2 then m2\<lparr>ym_sunk := ym_sunk m2 @ [(f, detection_dtos r)]\<rparr> else m2)"
  have "flow_side m3 = flow_side m"
    by (simp add: m3_def Let_def publish_detection_def flow_side_def)
  then have side: "flow_side (queue_alert work m3) = flow_side m" by simp
  have "commit_result env hp f r annotated work m = give_output annotated (queue_alert work m3)"
    by (simp add: commit_result_def m3_def Let_def)
  then show ?thesis using side [unfolded flow_side_def] by (auto simp: give_side)
qed

section \<open>Frames\<close>

abbreviation low_frame :: "video_frame \<Rightarrow> bool" where
  "low_frame f \<equiv> vf_height f \<le> int_max"

definition flow_inv :: "yolo_module \<Rightarrow> bool" where
  "flow_inv m \<longleftrightarrow> (ym_output m \<noteq> None \<longrightarrow> ym_given m = ym_taken m) \<and> (\<forall>f \<in> set (bq_queue (ym_input m)). low_frame f)"

text \<open>The state between taking a frame and giving it away.\<close>

definition flow_due :: "u64 \<Rightarrow> yolo_module \<Rightarrow> bool" where
  "flow_due n m \<longleftrightarrow> (ym_output m \<noteq> None \<longrightarrow> ym_taken m = ym_given m @ [n]) \<and> (\<forall>f \<in> set (bq_queue (ym_input m)). low_frame f)"

lemma flow_inv_side: "flow_side m' = flow_side m \<Longrightarrow> flow_inv m' = flow_inv m"
  by (simp add: flow_inv_def flow_side_def)

lemma flow_due_side: "flow_side m' = flow_side m \<Longrightarrow> flow_due n m' = flow_due n m"
  by (simp add: flow_due_def flow_side_def)

lemma give_flow:
  assumes "flow_due (vf_sequence f) m" "flow_side m' = flow_side m"
  shows "flow_inv (give_output f m')"
proof -
  have "flow_due (vf_sequence f) m'" using assms flow_due_side by blast
  then show ?thesis using give_side [of f m'] by (auto simp: flow_inv_def flow_due_def flow_side_def split: if_splits)
qed

fun act_ok :: "yolo_act \<Rightarrow> bool" where
  "act_ok (Act_frame f) = low_frame f"
| "act_ok _ = True"

definition turn_acts_ok :: "yolo_turn \<Rightarrow> bool" where
  "turn_acts_ok env \<longleftrightarrow> list_all act_ok (yt_acts env @ yt_pop_acts env @ yt_run_acts env)"

lemma push_members: "set (bq_queue (snd (push x q))) \<subseteq> insert x (set (bq_queue q))"
  by (cases "bq_queue q") (auto simp: push_def Let_def)

lemma persist_flow_side: "flow_side (persist_turn env m) = flow_side m"
  by (auto simp: persist_turn_def ym_note_def flow_side_def Let_def split: option.split)

lemma api_call_flow_side: "flow_side (api_call f m) = flow_side m"
  by (auto simp: api_call_def flow_side_def split: option.split prod.split)

lemma act_flow:
  assumes "act_ok a"
  shows "ym_taken (do_yolo_act a m) = ym_taken m" "ym_given (do_yolo_act a m) = ym_given m"
    "(ym_output (do_yolo_act a m) = None) = (ym_output m = None)"
    "\<forall>f \<in> set (bq_queue (ym_input m)). low_frame f \<Longrightarrow> \<forall>f \<in> set (bq_queue (ym_input (do_yolo_act a m))). low_frame f"
proof -
  have "ym_taken (do_yolo_act a m) = ym_taken m \<and> ym_given (do_yolo_act a m) = ym_given m \<and>
    (ym_output (do_yolo_act a m) = None) = (ym_output m = None) \<and>
    ((\<forall>f \<in> set (bq_queue (ym_input m)). low_frame f) \<longrightarrow> (\<forall>f \<in> set (bq_queue (ym_input (do_yolo_act a m))). low_frame f))"
  proof (cases a)
    case (Act_frame f)
    then show ?thesis using assms push_members [of f "ym_input m"] by auto
  next
    case (Act_alert env)
    then show ?thesis using persist_flow_side [of env m] by (simp add: flow_side_def)
  qed (use api_call_flow_side [of _ m] in \<open>auto simp: flow_side_def ym_stop_def shutdown_def\<close>)
  then show "ym_taken (do_yolo_act a m) = ym_taken m" "ym_given (do_yolo_act a m) = ym_given m"
    "(ym_output (do_yolo_act a m) = None) = (ym_output m = None)"
    "\<forall>f \<in> set (bq_queue (ym_input m)). low_frame f \<Longrightarrow> \<forall>f \<in> set (bq_queue (ym_input (do_yolo_act a m))). low_frame f"
    by blast+
qed

lemma acts_flow:
  assumes "list_all act_ok as"
  shows "(flow_inv m \<longrightarrow> flow_inv (yolo_acts as m)) \<and> (flow_due n m \<longrightarrow> flow_due n (yolo_acts as m))"
  using assms
proof (induction as arbitrary: m)
  case (Cons a as)
  have "flow_inv m \<longrightarrow> flow_inv (do_yolo_act a m)" "flow_due n m \<longrightarrow> flow_due n (do_yolo_act a m)"
    using act_flow [of a m] Cons.prems by (auto simp: flow_inv_def flow_due_def)
  then show ?case using Cons.IH [of "do_yolo_act a m"] Cons.prems by auto
qed simp

text \<open>Drawing never hits an undefined conversion for a frame whose height is a C integer.\<close>

lemma annotate_defined:
  assumes "low_frame f"
  shows "fst (annotate_frame env False f r names ops) \<noteq> Annotate_undefined"
proof (cases "annotation_valid_frame f = Inr ()")
  case True
  then have dims: "0 < vf_width f" "vf_width f \<le> int_max" "0 < vf_height f"
    by (auto simp: annotation_valid_frame_def Let_def split: if_splits)
  have "draw_detection ts names ops (vf_width f) (vf_height f) d \<noteq> None" for ts d
  proof (cases "drawable d (vf_width f) (vf_height f)")
    case True
    then show ?thesis
      using edge_defined(1) [of "det_x1 d" "vf_width f"] edge_defined(1) [of "det_y1 d" "vf_height f"]
        edge_defined(2) [of "det_x2 d" "vf_width f"] edge_defined(2) [of "det_y2 d" "vf_height f"] dims assms
      by (auto simp: draw_detection_def drawable_def)
  qed (simp add: draw_detection_def)
  then have "draw_detections ts names ops (vf_width f) (vf_height f) ds \<noteq> None" for ts ds
    by (induction ds) (auto split: option.split)
  from this [of "cv_text_size env" "detections r"] show ?thesis
    by (auto simp: annotate_frame_def Let_def split: sum.split option.split)
qed (auto simp: annotate_frame_def split: sum.split)

lemma annotate_sequence:
  "annotate_frame env False f r names ops = (Annotated, ds, g) \<Longrightarrow> vf_sequence g = vf_sequence f"
  by (auto simp: annotate_frame_def Let_def split: sum.splits option.splits if_splits)

lemma publish_result_flow:
  assumes "flow_due (vf_sequence f) m" "low_frame f" "publish_result env permit f r t m = (res, m')"
  shows "flow_inv m' \<and> res = Yolo_again"
proof -
  define m1 where "m1 = set_timing env t m"
  have m1: "flow_due (vf_sequence f) m1" using assms(1) flow_due_side [OF timing_side] by (simp add: m1_def)
  obtain ar ds g where a: "(if ym_output m1 = None then (Annotated, [], empty_frame)
      else annotate_frame (yt_cv env) False f r coco_class_names (ym_annotation m1)) = (ar, ds, g)" by (metis surj_pair)
  have def: "ar \<noteq> Annotate_undefined"
    using a annotate_defined [OF assms(2), of "yt_cv env" r coco_class_names "ym_annotation m1"] by (auto split: if_splits)
  show ?thesis
  proof (cases ar)
    case (Annotate_failed e)
    then have "res = Yolo_again" "m' = give_output f (ym_note Log_Error e (invalidate permit m1))"
      using assms(3) unfolding publish_result_def Let_def m1_def [symmetric] a prod.case by auto
    then show ?thesis using give_flow [OF m1] by simp
  next
    case Annotated
    define work where "work = \<lparr>aw_detections = r, aw_snapshot = (if ym_output m1 = None then f else g), aw_generation = permit_generation permit\<rparr>"
    define c where "c = commit_result env (ym_previous m \<noteq> 0) f r g work"
    have seq: "ym_output m1 \<noteq> None \<Longrightarrow> vf_sequence g = vf_sequence f" using a Annotated annotate_sequence by (auto split: if_splits)
    have c1: "flow_inv (c m1)"
      using m1 seq commit_side [of env "ym_previous m \<noteq> 0" f r g work m1]
      by (auto simp: c_def flow_inv_def flow_due_def flow_side_def split: if_splits)
    have api: "flow_inv (x\<lparr>ym_api := y\<rparr>) = flow_inv x" "flow_due n (x\<lparr>ym_api := y\<rparr>) = flow_due n x" for x y n
      by (simp_all add: flow_inv_def flow_due_def)
    have out: "res = Yolo_again" "m' = (case ym_api m1 of None \<Rightarrow> c m1
        | Some a \<Rightarrow> (case commit_detections permit (frame_sequence r) (vf_width f) (vf_height f) (vf_pts_ns f) (detection_dtos r) c a m1 of
                        (True, a', m') \<Rightarrow> m'\<lparr>ym_api := Some a'\<rparr> | (False, a', m') \<Rightarrow> give_output f (m'\<lparr>ym_api := Some a'\<rparr>)))"
      using assms(3) Annotated unfolding publish_result_def Let_def m1_def [symmetric] a prod.case work_def [symmetric] c_def [symmetric]
      by auto
    have "flow_inv m'"
    proof (cases "ym_api m1")
      case (Some b)
      have "flow_inv (give_output f (m1\<lparr>ym_api := Some b\<rparr>))"
        using give_flow [of f "m1\<lparr>ym_api := Some b\<rparr>"] m1 api(2) by blast
      then show ?thesis using Some out(2) c1 api(1) by (simp add: commit_detections_def)
    qed (use out c1 in simp)
    then show ?thesis using out(1) by simp
  qed (use def in simp)
qed

lemma detect_turn_flow:
  assumes "flow_due (vf_sequence f) m" "low_frame f" "turn_acts_ok env" "detect_turn env f m = (res, m')"
  shows "flow_inv m' \<and> res = Yolo_again"
proof -
  define permit where "permit = (case ym_api m of Some a \<Rightarrow> detector_permit a | None \<Rightarrow> \<lparr>permit_enabled = True, permit_generation = 0\<rparr>)"
  define m1 where "m1 = yolo_acts (yt_run_acts env) m"
  have m1: "flow_due (vf_sequence f) m1"
    using acts_flow [of "yt_run_acts env"] assms(1,3) by (simp add: m1_def turn_acts_ok_def)
  have "flow_side (on_status clear_detector m) = flow_side m" by (simp add: flow_side_def)
  note off = give_flow [OF assms(1) this]
  have bad: "flow_inv (give_output f (ym_note Log_Error e (invalidate permit m1)))" for e
    using give_flow [OF m1] by simp
  have run: "(res, m') = (if \<not> permit_enabled permit then (Yolo_again, give_output f (on_status clear_detector m))
      else case yt_outcome env of Inferred r t \<Rightarrow> publish_result env permit f r t m1
        | out \<Rightarrow> (Yolo_again, give_output f (ym_note Log_Error (inference_error out) (invalidate permit m1))))"
    using assms(4) unfolding detect_turn_def Let_def permit_def [symmetric] m1_def [symmetric] by simp
  show ?thesis
  proof (cases "yt_outcome env")
    case (Inferred r t)
    then show ?thesis using run off publish_result_flow [OF m1 assms(2), of env permit r t res m'] by (auto split: if_splits)
  qed (use run off bad in \<open>auto split: if_splits\<close>)
qed

lemma yolo_step_flow:
  assumes "flow_inv m" "turn_acts_ok env" "yolo_turn_step env m = (res, m')"
  shows "flow_inv m' \<and> res \<noteq> Yolo_undefined"
proof -
  define m1 where "m1 = yolo_acts (yt_acts env) m"
  have m1: "flow_inv m1" using acts_flow [of "yt_acts env"] assms(1,2) by (simp add: m1_def turn_acts_ok_def)
  show ?thesis
  proof (cases "ym_stopping m1 \<or> pop (ym_input m1) = None")
    case True
    then show ?thesis using assms(3) m1 unfolding yolo_turn_step_def Let_def m1_def [symmetric] by (auto split: if_splits)
  next
    case False
    then obtain fr q where p: "pop (ym_input m1) = Some (fr, q)" by auto
    have sub: "set (bq_queue q) \<subseteq> set (bq_queue (ym_input m1))" "fr \<noteq> None \<Longrightarrow> the fr \<in> set (bq_queue (ym_input m1))"
      using p by (auto simp: pop_def take_front_def split: if_splits list.splits)
    have q: "flow_inv (m1\<lparr>ym_input := q\<rparr>)" using m1 sub(1) by (auto simp: flow_inv_def)
    show ?thesis
    proof (cases fr)
      case None
      then show ?thesis using assms(3) False p q unfolding yolo_turn_step_def Let_def m1_def [symmetric] by auto
    next
      case (Some f)
      define m2 where "m2 = yolo_acts (yt_pop_acts env) (m1\<lparr>ym_input := q\<rparr>)"
      have m2: "flow_inv m2" using acts_flow [of "yt_pop_acts env"] q assms(2) by (simp add: m2_def turn_acts_ok_def)
      then have due: "flow_due (vf_sequence f) (m2\<lparr>ym_taken := ym_taken m2 @ [vf_sequence f]\<rparr>)"
        by (simp add: flow_inv_def flow_due_def)
      have low: "low_frame f" using sub(2) Some m1 by (auto simp: flow_inv_def)
      have "(res, m') = (if ym_stopping m2 then (Yolo_ends, m2) else detect_turn env f (m2\<lparr>ym_taken := ym_taken m2 @ [vf_sequence f]\<rparr>))"
        using assms(3) False p Some unfolding yolo_turn_step_def Let_def m1_def [symmetric] by (auto simp: m2_def)
      then show ?thesis
        using m2 detect_turn_flow [OF due low assms(2), of res m'] by (auto split: if_splits)
    qed
  qed
qed

lemma yolo_run_flow:
  "flow_inv m \<Longrightarrow> list_all turn_acts_ok envs \<Longrightarrow> yolo_run envs m = (res, m') \<Longrightarrow> flow_inv m' \<and> res \<noteq> Yolo_undefined"
proof (induction envs arbitrary: m)
  case (Cons env envs)
  obtain r1 m1 where t: "yolo_turn_step env m = (r1, m1)" by fastforce
  have i: "flow_inv m1 \<and> r1 \<noteq> Yolo_undefined" using yolo_step_flow [OF Cons.prems(1) _ t] Cons.prems(2) by simp
  show ?case using Cons.IH [of m1] Cons.prems(2,3) i t by (cases r1) auto
qed simp

section \<open>Status\<close>

text \<open>With an API bound to the runtime status: a detector that is shown as available is switched on.\<close>

definition shown_inv :: "yolo_module \<Rightarrow> bool" where
  "shown_inv m \<longleftrightarrow>
     (\<exists>a st. ym_api m = Some a \<and> ym_status m = Some st \<and> status_bound a \<and>
        (detector_available st \<longrightarrow> detector_enabled a) \<and> (available (latest a) \<longrightarrow> detector_enabled a))"

lemma shown_side: "ym_api m' = ym_api m \<Longrightarrow> ym_status m' = ym_status m \<Longrightarrow> shown_inv m' = shown_inv m"
  by (simp add: shown_inv_def)

lemma give_shown [simp]: "shown_inv (give_output f m) = shown_inv m"
  by (rule shown_side) (simp_all add: give_output_def split: option.split)

lemma note_shown [simp]: "shown_inv (ym_note l t m) = shown_inv m"
  by (rule shown_side) (simp_all add: ym_note_def)

lemma timing_shown [simp]: "shown_inv (set_timing env t m) = shown_inv m"
  by (rule shown_side) (simp_all add: set_timing_def Let_def)

lemma clear_shown: "shown_inv m \<Longrightarrow> shown_inv (on_status clear_detector m)"
  by (auto simp: shown_inv_def clear_detector_def)

lemma persist_shown: "shown_inv (persist_turn env m) = shown_inv m"
  by (rule shown_side) (auto simp: persist_turn_def ym_note_def Let_def split: option.split)

lemma synchronized_shown:
  assumes "status_bound a" "available (latest a) \<longrightarrow> detector_enabled a" "synchronized a st = (a', st')"
    "m' = m\<lparr>ym_api := Some a', ym_status := Some st'\<rparr>"
  shows "shown_inv m'"
  using assms by (auto simp: shown_inv_def synchronize_runtime_status_def set_detector_expected_def clear_detector_def Let_def split: if_splits)

lemma api_call_shown:
  assumes "shown_inv m" "\<And>a st. status_bound a \<Longrightarrow> available (latest a) \<longrightarrow> detector_enabled a \<Longrightarrow>
      \<exists>b. f a st = synchronized b st \<and> status_bound b \<and> (available (latest b) \<longrightarrow> detector_enabled b)"
  shows "shown_inv (api_call f m)"
proof -
  obtain a st where m: "ym_api m = Some a" "ym_status m = Some st" "status_bound a" "available (latest a) \<longrightarrow> detector_enabled a"
    using assms(1) by (auto simp: shown_inv_def)
  obtain b where b: "f a st = synchronized b st" "status_bound b" "available (latest b) \<longrightarrow> detector_enabled b"
    using assms(2) [OF m(3,4)] by blast
  then have "api_call f m = m\<lparr>ym_api := Some b, ym_status := Some (synchronize_runtime_status b st)\<rparr>"
    using m by (simp add: api_call_def)
  then show ?thesis using synchronized_shown [OF b(2,3) refl] by simp
qed

lemma act_shown:
  assumes "shown_inv m"
  shows "shown_inv (do_yolo_act a m)"
proof (cases a)
  case (Act_alert env)
  then show ?thesis using assms persist_shown by simp
next
  case (Act_enable b)
  then show ?thesis using api_call_shown [OF assms, of "set_detector_enabled b"]
    by (fastforce simp: set_detector_enabled_def no_detections_def)
next
  case (Act_support b)
  then show ?thesis using api_call_shown [OF assms, of "set_detector_supported b"]
    by (fastforce simp: set_detector_supported_def no_detections_def Let_def)
next
  case (Act_configure cfg)
  then show ?thesis using api_call_shown [OF assms, of "api_configure cfg"]
    by (fastforce simp: api_configure_def no_detections_def)
qed (use assms in \<open>auto simp: shown_inv_def ym_stop_def\<close>)

lemma acts_shown: "shown_inv m \<Longrightarrow> shown_inv (yolo_acts as m)"
  by (induction as arbitrary: m) (simp_all add: act_shown)

lemma invalidate_shown:
  assumes "shown_inv m"
  shows "shown_inv (invalidate p m)"
proof -
  obtain a st where m: "ym_api m = Some a" "ym_status m = Some st" using assms by (auto simp: shown_inv_def)
  show ?thesis
    using assms m
    by (auto simp: invalidate_def invalidate_detections_def shown_inv_def publish_detection_def clear_detector_def no_detections_def Let_def)
qed

text \<open>What the closure does to the status, and that it leaves the API alone.\<close>

lemma commit_api: "ym_api (commit_result env hp f r g w m) = ym_api m"
  by (simp add: commit_result_def publish_detection_def queue_alert_def give_output_def ym_note_def Let_def split: option.split)

lemma commit_status: "(ym_status (commit_result env hp f r g w m) = None) = (ym_status m = None)"
  by (simp add: commit_result_def publish_detection_def queue_alert_def give_output_def ym_note_def Let_def split: option.split)

lemma give_fields [simp]:
  "ym_published (give_output f m) = ym_published m" "ym_sunk (give_output f m) = ym_sunk m"
  "ym_alert_queue (give_output f m) = ym_alert_queue m" "ym_status (give_output f m) = ym_status m"
  "ym_api (give_output f m) = ym_api m"
  by (simp_all add: give_output_def split: option.split)

lemma queue_alert_fields [simp]:
  "ym_published (queue_alert w m) = ym_published m" "ym_sunk (queue_alert w m) = ym_sunk m"
  "ym_alert_queue (queue_alert w m) = (if ym_alerts m = None then ym_alert_queue m else snd (push w (ym_alert_queue m)))"
  by (simp_all add: queue_alert_def ym_note_def Let_def)

lemma commit_fields:
  "ym_published (commit_result env hp f r g w m) = ym_published m @ (if ym_events m then [detection_event_data r f] else [])"
  "ym_sunk (commit_result env hp f r g w m) = ym_sunk m @ (if ym_sink m then [(f, detection_dtos r)] else [])"
  "ym_alert_queue (commit_result env hp f r g w m) =
     (if ym_alerts m = None then ym_alert_queue m else snd (push w (ym_alert_queue m)))"
  by (simp_all add: commit_result_def publish_detection_def Let_def)

lemma publish_result_shown:
  assumes "shown_inv m"
  shows "shown_inv (snd (publish_result env permit f r t m))"
proof -
  define m1 where "m1 = set_timing env t m"
  have m1: "shown_inv m1" using assms by (simp add: m1_def)
  then obtain a st where m1': "ym_api m1 = Some a" "ym_status m1 = Some st" "status_bound a" by (auto simp: shown_inv_def)
  obtain ar ds g where an: "(if ym_output m1 = None then (Annotated, [], empty_frame)
      else annotate_frame (yt_cv env) False f r coco_class_names (ym_annotation m1)) = (ar, ds, g)" by (metis surj_pair)
  show ?thesis
  proof (cases ar)
    case Annotated
    define work where "work = \<lparr>aw_detections = r, aw_snapshot = (if ym_output m1 = None then f else g), aw_generation = permit_generation permit\<rparr>"
    define c where "c = commit_result env (ym_previous m \<noteq> 0) f r g work"
    have out: "snd (publish_result env permit f r t m) =
      (case commit_detections permit (frame_sequence r) (vf_width f) (vf_height f) (vf_pts_ns f) (detection_dtos r) c a m1 of
                        (True, a', m') \<Rightarrow> m'\<lparr>ym_api := Some a'\<rparr> | (False, a', m') \<Rightarrow> give_output f (m'\<lparr>ym_api := Some a'\<rparr>))"
      using Annotated m1'(1) unfolding publish_result_def Let_def m1_def [symmetric] an prod.case work_def [symmetric] c_def [symmetric] by simp
    obtain st' where st': "ym_status (c m1) = Some st'" using m1'(2) commit_status [of env "ym_previous m \<noteq> 0" f r g work m1] by (auto simp: c_def)
    have stay: "shown_inv (m1\<lparr>ym_api := Some a\<rparr>)" using m1 m1'(1) by (simp add: shown_inv_def)
    show ?thesis
    proof (cases "\<not> detector_enabled a \<or> permit_generation permit \<noteq> detector_generation a")
      case True
      then show ?thesis unfolding out using stay by (simp add: commit_detections_def)
    next
      case False
      then show ?thesis unfolding out using m1'(3) st' by (simp add: commit_detections_def shown_inv_def)
    qed
  next
    case (Annotate_failed e)
    then have "snd (publish_result env permit f r t m) = give_output f (ym_note Log_Error e (invalidate permit m1))"
      unfolding publish_result_def Let_def m1_def [symmetric] an prod.case by simp
    then show ?thesis using invalidate_shown [OF m1] by simp
  next
    case Annotate_undefined
    then have "snd (publish_result env permit f r t m) = m1" unfolding publish_result_def Let_def m1_def [symmetric] an prod.case by simp
    then show ?thesis using m1 by simp
  qed
qed

lemma yolo_step_shown:
  assumes "shown_inv m"
  shows "shown_inv (snd (yolo_turn_step env m))"
proof -
  define m1 where "m1 = yolo_acts (yt_acts env) m"
  have m1: "shown_inv m1" using assms acts_shown by (simp add: m1_def)
  have queue: "shown_inv (x\<lparr>ym_input := q\<rparr>) = shown_inv x" "shown_inv (x\<lparr>ym_taken := l\<rparr>) = shown_inv x" for x q l
    by (simp_all add: shown_inv_def)
  have detect: "shown_inv (snd (detect_turn env f x))" if "shown_inv x" for f x
  proof -
    have run: "shown_inv (yolo_acts (yt_run_acts env) x)" by (rule acts_shown [OF that])
    show ?thesis
      using clear_shown [OF that] publish_result_shown [OF run] invalidate_shown [OF run]
      by (auto simp: detect_turn_def Let_def split: inference_outcome.split)
  qed
  have "shown_inv (snd (detect_turn env f (y\<lparr>ym_taken := l\<rparr>)))" if "shown_inv y" for f y l
    using detect that queue(2) by blast
  then show ?thesis
    using m1 queue(1) acts_shown [of "m1\<lparr>ym_input := _\<rparr>" "yt_pop_acts env"]
    unfolding yolo_turn_step_def Let_def m1_def [symmetric] by (auto split: option.split)
qed

lemma yolo_run_shown: "shown_inv m \<Longrightarrow> shown_inv (snd (yolo_run envs m))"
proof (induction envs arbitrary: m)
  case (Cons env envs)
  obtain r1 m1 where t: "yolo_turn_step env m = (r1, m1)" by fastforce
  have "shown_inv m1" using yolo_step_shown [OF Cons.prems, of env] t by simp
  then show ?case using Cons.IH [of m1] t by (cases r1) auto
qed simp

section \<open>Properties\<close>

lemma init_start:
  assumes "ym_initialize cfg made load_error m0 = (True, m1)" "ym_start m1 = (True, m2)"
  shows "ym_taken m2 = ym_taken m0" "ym_given m2 = ym_given m0" "bq_queue (ym_input m2) = []" "ym_api m2 = ym_api m0"
    "ym_status m2 = map_option clear_detector (ym_status m0)"
  using assms by (auto simp: ym_initialize_def ym_start_def Let_def reset_def ym_note_def split: if_splits option.splits)


text \<open>C18: a detector that is switched off never looks alive: over any run of a module whose API and status
  belong together, at any point where the runtime status says the detector is available, or the API shows
  detections, the detector is enabled, however the API calls interleave with the worker.\<close>

theorem detector_shown_only_enabled:
  assumes "ym_initialize cfg made load_error m0 = (True, m1)" "ym_start m1 = (True, m2)"
    and "ym_api m0 = Some a0" "status_bound a0" "api_inv a0" "ym_status m0 = Some st0"
  shows "\<exists>a st. ym_api (snd (yolo_run envs m2)) = Some a \<and> ym_status (snd (yolo_run envs m2)) = Some st \<and>
    (detector_available st \<or> available (latest a) \<longrightarrow> detector_enabled a)"
proof -
  have "shown_inv m2"
    using init_start [OF assms(1,2)] assms(3-6) by (simp add: shown_inv_def api_inv_def clear_detector_def)
  then have "shown_inv (snd (yolo_run envs m2))" by (rule yolo_run_shown)
  then show ?thesis by (auto simp: shown_inv_def)
qed


section \<open>Witnesses\<close>

definition blank_yolo :: yolo_module where
  "blank_yolo =
     \<lparr>ym_input = \<lparr>bq_capacity = 2, bq_queue = [], bq_stats = zero_stats, bq_shutdown = False\<rparr>,
      ym_output = Some \<lparr>bq_capacity = 2, bq_queue = [], bq_stats = zero_stats, bq_shutdown = False\<rparr>,
      ym_alert_queue = \<lparr>bq_capacity = 2, bq_queue = [], bq_stats = zero_stats, bq_shutdown = False\<rparr>,
      ym_status = Some new_status, ym_api = Some (new_api_state True None), ym_events = True, ym_alerts = None, ym_sink = True,
      ym_annotation = default_annotation, ym_detector = False, ym_stopping = False, ym_worker = False, ym_alert_worker = False,
      ym_previous = 0, ym_log = [], ym_published = [], ym_sunk = [], ym_taken = [], ym_given = []\<rparr>"

abbreviation loaded_yolo :: yolo_module where
  "loaded_yolo \<equiv> snd (ym_initialize (default_config ''web'') True None blank_yolo)"

abbreviation running_yolo :: yolo_module where
  "running_yolo \<equiv> snd (ym_start loaded_yolo)"

lemma blank_yolo_runs:
  "ym_initialize (default_config ''web'') True None blank_yolo = (True, loaded_yolo)" "ym_start loaded_yolo = (True, running_yolo)"
  unfolding prod_eq_iff by (simp_all add: ym_initialize_def ym_start_def blank_yolo_def Let_def)

definition yolo_env :: "yolo_act list \<Rightarrow> yolo_turn" where
  "yolo_env acts = \<lparr>yt_acts = Act_frame sample_shot # acts, yt_pop_acts = [], yt_run_acts = [],
     yt_outcome = Inferred sample_found \<lparr>it_preprocess_wall_ms = Fin 1, it_inference_wall_ms = Fin 2, it_postprocess_wall_ms = Fin 1\<rparr>,
     yt_now = 1, yt_status_now = 1, yt_cv = flat_cv\<rparr>"

text \<open>A frame that arrives after the detector has been switched off.\<close>

definition off_env :: yolo_turn where
  "off_env = (yolo_env [])\<lparr>yt_acts := [Act_enable False, Act_frame sample_shot]\<rparr>"

abbreviation off_shot :: yolo_module where
  "off_shot \<equiv> snd (yolo_run [off_env] running_yolo)"


theorem detector_shown_only_enabled_witness:
  "\<exists>a st. ym_api off_shot = Some a \<and> ym_status off_shot = Some st \<and>
     detector_enabled a = False \<and> available (latest a) = False \<and> detector_available st = False"
proof -
  have "ym_api blank_yolo = Some (new_api_state True None)" "status_bound (new_api_state True None)" "api_inv (new_api_state True None)"
    "ym_status blank_yolo = Some new_status"
    by (simp_all add: blank_yolo_def new_api_state_def api_inv_def no_detections_def)
  note shown = detector_shown_only_enabled [OF blank_yolo_runs this, of "[off_env]"]
  have "map_option detector_enabled (ym_api off_shot) = Some False" by code_simp
  then show ?thesis using shown by auto
qed


end
