(* ===== verification/Queue_Spec.thy ===== *)
theory Queue_Spec
  imports Bounded_Queue
begin

text \<open>
  An abstract specification of \<open>BoundedQueue\<close>: a window of the newest values with a flag that closes it,
  without counters.  \<open>queue_refines_window\<close> shows that the queue of \<open>Bounded_Queue\<close> has exactly the
  observable executions of its window.
\<close>

section \<open>Specification\<close>

record 'a window =
  win_items :: "'a list"
  win_capacity :: nat
  win_closed :: bool

text \<open>What a window does when an event is observed; \<open>None\<close> when it cannot be.\<close>

fun take_item :: "'a option \<Rightarrow> 'a window \<Rightarrow> 'a window option" where
  "take_item r w =
     (case win_items w of
        [] \<Rightarrow> if r = None then Some w else None
      | x # xs \<Rightarrow> if r = Some x then Some (w\<lparr>win_items := xs\<rparr>) else None)"

fun win_step :: "'a queue_event \<Rightarrow> 'a window \<Rightarrow> 'a window option" where
  "win_step (Pushed x ok) w =
     (if ok = win_closed w then None
      else Some (if ok then w\<lparr>win_items := last_n (win_capacity w) (win_items w @ [x])\<rparr> else w))"
| "win_step (Popped r) w = (if win_items w = [] \<and> \<not> win_closed w then None else take_item r w)"
| "win_step (Timed_pop r) w = take_item r w"
| "win_step Shut_down w = Some (w\<lparr>win_closed := True\<rparr>)"
| "win_step (Discarded n) w = (if n = length (win_items w) then Some (w\<lparr>win_items := []\<rparr>) else None)"
| "win_step Was_reset w = Some (w\<lparr>win_items := [], win_closed := False\<rparr>)"

fun win_run :: "'a queue_event list \<Rightarrow> 'a window \<Rightarrow> 'a window option" where
  "win_run [] w = Some w"
| "win_run (e # es) w = (case win_step e w of None \<Rightarrow> None | Some w' \<Rightarrow> win_run es w')"

lemma win_run_snoc: "win_run (es @ [e]) w = (case win_run es w of None \<Rightarrow> None | Some w' \<Rightarrow> win_step e w')"
  by (induction es arbitrary: w) (auto split: option.split)

section \<open>Refinement\<close>

definition abs_window :: "'a bounded_queue \<Rightarrow> 'a window" where
  "abs_window q = \<lparr>win_items = bq_queue q, win_capacity = bq_capacity q, win_closed = bq_shutdown q\<rparr>"

lemma push_window:
  assumes "queue_inv q"
  shows "abs_window (snd (push x q)) = (if bq_shutdown q then abs_window q
    else (abs_window q)\<lparr>win_items := last_n (bq_capacity q) (bq_queue q @ [x])\<rparr>)"
proof (cases "bq_shutdown q")
  case False
  then show ?thesis using push_open_queue [of q x] assms by (simp add: abs_window_def queue_inv_def)
qed (simp add: push_def)

lemma take_window: "take_item r (abs_window q) = Some w \<longleftrightarrow> fst (take_front q) = r \<and> abs_window (snd (take_front q)) = w"
  by (cases "bq_queue q") (auto simp: take_front_def abs_window_def)

lemma step_window:
  assumes "queue_inv q"
  shows "win_step e (abs_window q) = Some w \<longleftrightarrow> (\<exists>q'. queue_step q e q' \<and> abs_window q' = w)"
proof (cases e)
  case (Pushed x ok)
  have "queue_step q e q' \<longleftrightarrow> push x q = (ok, q')" for q'
    unfolding Pushed by (auto elim: queue_stepE intro: step_push)
  moreover have "(\<exists>q'. push x q = (ok, q') \<and> abs_window q' = w) \<longleftrightarrow> ok = (\<not> bq_shutdown q) \<and> abs_window (snd (push x q)) = w"
    using push_accepted [of x q] by (cases "push x q") auto
  ultimately show ?thesis using push_window [OF assms, of x] by (auto simp: Pushed abs_window_def)
next
  case (Popped r)
  have "queue_step q e q' \<longleftrightarrow> pop q = Some (r, q')" for q' unfolding Popped by (auto elim: queue_stepE intro: step_pop)
  then show ?thesis
    using take_window [of r q w] by (auto simp: Popped pop_def available_def abs_window_def prod_eq_iff split: if_splits)
next
  case (Timed_pop r)
  have "queue_step q e q' \<longleftrightarrow> pop_for q = (r, q')" for q' unfolding Timed_pop by (auto elim: queue_stepE intro: step_pop_for)
  moreover have "pop_for q = take_front q" by (cases "bq_queue q") (auto simp: pop_for_def available_def take_front_def)
  ultimately show ?thesis using take_window [of r q w] by (auto simp: Timed_pop prod_eq_iff)
next
  case Shut_down
  have "queue_step q e q' \<longleftrightarrow> q' = shutdown q" for q' unfolding Shut_down by (auto elim: queue_stepE intro: step_shutdown)
  then show ?thesis by (auto simp: Shut_down shutdown_def abs_window_def)
next
  case (Discarded n)
  have "queue_step q e q' \<longleftrightarrow> discard_all q = (n, q')" for q' unfolding Discarded by (auto elim: queue_stepE intro: step_discard)
  then show ?thesis by (auto simp: Discarded discard_all_def abs_window_def)
next
  case Was_reset
  have "queue_step q e q' \<longleftrightarrow> q' = reset q" for q' unfolding Was_reset by (auto elim: queue_stepE intro: step_reset)
  then show ?thesis by (auto simp: Was_reset reset_def abs_window_def)
qed

lemma queue_run_Nil: "queue_run q [] q' \<longleftrightarrow> q' = q"
proof
  assume "queue_run q [] q'"
  then show "q' = q" by cases auto
qed (auto intro: run_nil)

lemma queue_run_snoc: "queue_run q (es @ [e]) q' \<longleftrightarrow> (\<exists>p. queue_run q es p \<and> queue_step p e q')"
proof
  assume "queue_run q (es @ [e]) q'"
  then show "\<exists>p. queue_run q es p \<and> queue_step p e q'" by cases auto
qed (auto intro: run_snoc)

section \<open>Property\<close>

text \<open>C12: \<^verbatim>\<open>BoundedQueue\<close> is exactly a window of the newest values: from any state its own
  operations can reach, a sequence of observed pushes, pops, timed pops, discards, resets and shutdowns with
  their results is possible for the queue if and only if it is possible for the abstract window of its
  values, capacity and flag, and both end in the same window.\<close>

theorem queue_refines_window:
  assumes "queue_inv q"
  shows "win_run es (abs_window q) = Some w \<longleftrightarrow> (\<exists>q'. queue_run q es q' \<and> abs_window q' = w)"
proof (induction es arbitrary: w rule: rev_induct)
  case Nil
  show ?case by (auto simp: queue_run_Nil)
next
  case (snoc e es)
  show ?case (is "?l \<longleftrightarrow> ?r")
  proof
    assume ?l
    then obtain v where v: "win_run es (abs_window q) = Some v" "win_step e v = Some w"
      by (auto simp: win_run_snoc split: option.splits)
    then obtain p where p: "queue_run q es p" "win_step e (abs_window p) = Some w" using snoc.IH [of v] by auto
    then obtain q' where "queue_step p e q'" "abs_window q' = w" using step_window [OF queue_run_inv [OF p(1) assms], of e w] by auto
    then show ?r using p(1) by (auto simp: queue_run_snoc)
  next
    assume ?r
    then obtain p q' where p: "queue_run q es p" "queue_step p e q'" "abs_window q' = w" by (auto simp: queue_run_snoc)
    then have "win_run es (abs_window q) = Some (abs_window p)" using snoc.IH [of "abs_window p"] by auto
    moreover have "win_step e (abs_window p) = Some w" using step_window [OF queue_run_inv [OF p(1) assms], of e w] p by auto
    ultimately show ?l by (simp add: win_run_snoc)
  qed
qed

definition empty_queue :: "nat bounded_queue" where
  "empty_queue = \<lparr>bq_capacity = 2, bq_queue = [], bq_stats = zero_stats, bq_shutdown = False\<rparr>"

theorem queue_refines_window_witness:
  "\<exists>q'. queue_run empty_queue [Pushed 1 True, Pushed 2 True, Pushed 3 True, Popped (Some 2), Shut_down, Popped (Some 3), Popped None] q' \<and>
     abs_window q' = \<lparr>win_items = [], win_capacity = 2, win_closed = True\<rparr>"
proof -
  have "queue_inv empty_queue" by (simp add: empty_queue_def queue_inv_def zero_stats_def)
  moreover have "win_run [Pushed 1 True, Pushed 2 True, Pushed 3 True, Popped (Some 2), Shut_down, Popped (Some 3), Popped None]
      (abs_window empty_queue) = Some \<lparr>win_items = [], win_capacity = 2, win_closed = True\<rparr>"
    by (simp add: empty_queue_def abs_window_def last_n_def)
  ultimately show ?thesis by (simp only: queue_refines_window)
qed

end
