(* ===== verification/Logging.thy ===== *)
theory Logging
  imports Config Event_Channel
begin

text \<open>
  \<^verbatim>\<open>include/skai/logging.hpp\<close> and \<^verbatim>\<open>src/logging.cpp\<close>: the logger
  every module writes to, and the error sink through which \<^verbatim>\<open>src/main.cpp\<close> turns
  the errors it logs into events for the clients.  The output stream is the text written so far, the
  sink a function on the state \<open>'w\<close> it acts on; \<^verbatim>\<open>Logger::log\<close> swallows
  what the sink throws, so only its effect on that state matters.  The clock is an argument, as in
  \<open>Event_Channel\<close>, whose \<open>timestamp\<close> has the body of the one here.
\<close>

section \<open>Logger\<close>

fun log_level_name :: "log_level \<Rightarrow> string" where
  "log_level_name Log_Trace = ''trace''"
| "log_level_name Log_Debug = ''debug''"
| "log_level_name Log_Info = ''info''"
| "log_level_name Log_Warning = ''warning''"
| "log_level_name Log_Error = ''error''"

text \<open>The order of the enumerators, which \<^verbatim>\<open>operator<\<close> compares.\<close>

fun level_rank :: "log_level \<Rightarrow> nat" where
  "level_rank Log_Trace = 0"
| "level_rank Log_Debug = 1"
| "level_rank Log_Info = 2"
| "level_rank Log_Warning = 3"
| "level_rank Log_Error = 4"

record 'w logger_state =
  lg_output :: string
  lg_minimum :: log_level
  lg_sink :: "(string \<Rightarrow> string \<Rightarrow> 'w \<Rightarrow> 'w) option"

definition new_logger :: "log_level \<Rightarrow> 'w logger_state" where
  "new_logger minimum = \<lparr>lg_output = [], lg_minimum = minimum, lg_sink = None\<rparr>"

definition set_minimum_level :: "log_level \<Rightarrow> 'w logger_state \<Rightarrow> 'w logger_state" where
  "set_minimum_level level lg = lg\<lparr>lg_minimum := level\<rparr>"

definition set_error_sink ::
    "(string \<Rightarrow> string \<Rightarrow> 'w \<Rightarrow> 'w) option \<Rightarrow> 'w logger_state \<Rightarrow> 'w logger_state" where
  "set_error_sink sink lg = lg\<lparr>lg_sink := sink\<rparr>"

fun log_escape :: "string \<Rightarrow> string" where
  "log_escape [] = []"
| "log_escape (c # s) =
     (if c = CHR 0x5C then [CHR 0x5C, CHR 0x5C]
      else if c = CHR 0x22 then [CHR 0x5C, CHR 0x22]
      else if c = CHR 0x0A then [CHR 0x5C, CHR ''n'']
      else if c = CHR 0x0D then [CHR 0x5C, CHR ''r'']
      else if c = CHR 0x09 then [CHR 0x5C, CHR ''t'']
      else [c]) @ log_escape s"

definition log_line :: "string \<Rightarrow> log_level \<Rightarrow> string \<Rightarrow> string \<Rightarrow> string" where
  "log_line ts level md message =
     ''timestamp='' @ [CHR 0x22] @ ts @ [CHR 0x22] @ '' level='' @ log_level_name level @
     '' module='' @ md @ '' message='' @ [CHR 0x22] @ log_escape message @ [CHR 0x22]"

text \<open>One call of \<^verbatim>\<open>Logger::log\<close> and the clock it reads.\<close>

record log_call =
  lc_utc :: string
  lc_ms :: nat
  lc_level :: log_level
  lc_module :: string
  lc_message :: string

abbreviation lc_time :: "log_call \<Rightarrow> string" where
  "lc_time c \<equiv> timestamp (lc_utc c) (lc_ms c)"

definition logger_log :: "log_call \<Rightarrow> 'w logger_state \<times> 'w \<Rightarrow> 'w logger_state \<times> 'w" where
  "logger_log c st =
     (let (lg, w) = st in
      if level_rank (lc_level c) < level_rank (lg_minimum lg) then (lg, w)
      else
        (lg\<lparr>lg_output := lg_output lg @ log_line (lc_time c) (lc_level c) (lc_module c) (lc_message c) @ [CHR 0x0A]\<rparr>,
         case (if lc_level c = Log_Error then lg_sink lg else None) of
           None \<Rightarrow> w
         | Some sink \<Rightarrow> sink (lc_module c) (lc_message c) w))"

abbreviation log_all :: "log_call list \<Rightarrow> 'w logger_state \<times> 'w \<Rightarrow> 'w logger_state \<times> 'w" where
  "log_all cs st \<equiv> fold logger_log cs st"

section \<open>Reading a log back\<close>

text \<open>A reader of the log: it splits the text at line feeds, finds the fields of a line and undoes
  the escapes of the message.\<close>

fun split_lines :: "string \<Rightarrow> string \<Rightarrow> string list" where
  "split_lines acc [] = (if acc = [] then [] else [acc])"
| "split_lines acc (c # s) =
     (if c = CHR 0x0A then acc # split_lines [] s else split_lines (acc @ [c]) s)"

fun strip_prefix :: "string \<Rightarrow> string \<Rightarrow> string option" where
  "strip_prefix [] s = Some s"
| "strip_prefix (p # ps) [] = None"
| "strip_prefix (p # ps) (c # s) = (if p = c then strip_prefix ps s else None)"

definition until :: "char \<Rightarrow> string \<Rightarrow> string \<times> string" where
  "until c s = (takeWhile (\<lambda>x. x \<noteq> c) s, dropWhile (\<lambda>x. x \<noteq> c) s)"

fun log_unescape :: "string \<Rightarrow> (string \<times> string) option" where
  "log_unescape [] = None"
| "log_unescape (c # s) =
     (if c = CHR 0x22 then Some ([], s)
      else if c = CHR 0x5C then
        (case s of
           [] \<Rightarrow> None
         | e # s1 \<Rightarrow>
             map_option (\<lambda>(m, t).
               ((if e = CHR ''n'' then CHR 0x0A else if e = CHR ''r'' then CHR 0x0D
                 else if e = CHR ''t'' then CHR 0x09 else e) # m, t)) (log_unescape s1))
      else map_option (\<lambda>(m, t). (c # m, t)) (log_unescape s))"

definition level_of_name :: "string \<Rightarrow> log_level option" where
  "level_of_name n = find (\<lambda>l. log_level_name l = n) [Log_Trace, Log_Debug, Log_Info, Log_Warning, Log_Error]"

definition read_line :: "string \<Rightarrow> (string \<times> log_level \<times> string \<times> string) option" where
  "read_line s =
     (case strip_prefix (''timestamp='' @ [CHR 0x22]) s of None \<Rightarrow> None | Some s1 \<Rightarrow>
      case until (CHR 0x22) s1 of (ts, s2) \<Rightarrow>
      case strip_prefix ([CHR 0x22] @ '' level='') s2 of None \<Rightarrow> None | Some s3 \<Rightarrow>
      case until (CHR '' '') s3 of (lv, s4) \<Rightarrow>
      case level_of_name lv of None \<Rightarrow> None | Some level \<Rightarrow>
      case strip_prefix '' module='' s4 of None \<Rightarrow> None | Some s5 \<Rightarrow>
      case until (CHR '' '') s5 of (m, s6) \<Rightarrow>
      case strip_prefix ('' message='' @ [CHR 0x22]) s6 of None \<Rightarrow> None | Some s7 \<Rightarrow>
      case log_unescape s7 of
        Some (message, []) \<Rightarrow> Some (ts, level, m, message)
      | _ \<Rightarrow> None)"

text \<open>What a call must hold for its line to be readable: the name of its module is one word and the
  clock's text has no quote and no line feed.  The program's module names are literals of its sources.\<close>

definition readable_call :: "log_call \<Rightarrow> bool" where
  "readable_call c \<longleftrightarrow>
     list_all (\<lambda>x. x \<noteq> CHR 0x22) (lc_time c) \<and> CHR 0x0A \<notin> set (lc_time c) \<and>
     list_all (\<lambda>x. x \<noteq> CHR '' '') (lc_module c) \<and> CHR 0x0A \<notin> set (lc_module c)"

definition admitted :: "log_level \<Rightarrow> log_call list \<Rightarrow> log_call list" where
  "admitted minimum cs = filter (\<lambda>c. level_rank minimum \<le> level_rank (lc_level c)) cs"

section \<open>Lemmas\<close>

lemma strip_prefix_append [simp]: "strip_prefix p (p @ s) = Some s"
  by (induction p) auto

lemma until_append: "list_all (\<lambda>x. x \<noteq> c) s \<Longrightarrow> until c (s @ c # t) = (s, c # t)"
  by (auto simp: until_def list_all_iff takeWhile_append2 dropWhile_append2)

lemma log_unescape_escape: "log_unescape (log_escape s @ CHR 0x22 # t) = Some (s, t)"
  by (induction s) auto

lemma log_escape_one_line: "CHR 0x0A \<notin> set (log_escape s)"
  by (induction s) auto

lemma level_of_name_name: "level_of_name (log_level_name l) = Some l"
  by (cases l) (simp_all add: level_of_name_def)

lemma level_name_word: "list_all (\<lambda>x. x \<noteq> CHR '' '') (log_level_name l)" "CHR 0x0A \<notin> set (log_level_name l)"
  by (cases l; simp)+

lemma read_log_line:
  assumes "list_all (\<lambda>x. x \<noteq> CHR 0x22) ts" and "list_all (\<lambda>x. x \<noteq> CHR '' '') m"
  shows "read_line (log_line ts l m message) = Some (ts, l, m, message)"
proof -
  define s7 where "s7 = log_escape message @ [CHR 0x22]"
  define s6 where "s6 = ('' message='' @ [CHR 0x22]) @ s7"
  define s5 where "s5 = m @ s6"
  define s4 where "s4 = '' module='' @ s5"
  define s3 where "s3 = log_level_name l @ s4"
  define s2 where "s2 = ([CHR 0x22] @ '' level='') @ s3"
  define s1 where "s1 = ts @ s2"
  have line: "log_line ts l m message = (''timestamp='' @ [CHR 0x22]) @ s1"
    by (simp add: log_line_def s1_def s2_def s3_def s4_def s5_def s6_def s7_def)
  have u1: "until (CHR 0x22) s1 = (ts, s2)"
    using until_append [OF assms(1), of "'' level='' @ s3"] by (simp add: s1_def s2_def)
  have u3: "until (CHR '' '') s3 = (log_level_name l, s4)"
    using until_append [OF level_name_word(1), of l "''module='' @ s5"] by (simp add: s3_def s4_def)
  have u5: "until (CHR '' '') s5 = (m, s6)"
    using until_append [OF assms(2), of "''message='' @ [CHR 0x22] @ s7"] by (simp add: s5_def s6_def)
  have u7: "log_unescape s7 = Some (message, [])"
    using log_unescape_escape [of message "[]"] by (simp add: s7_def)
  show ?thesis
    unfolding read_line_def line strip_prefix_append u1 option.case prod.case
    unfolding s2_def strip_prefix_append u3 option.case prod.case level_of_name_name
    unfolding s4_def strip_prefix_append u5 option.case prod.case
    unfolding s6_def strip_prefix_append u7 option.case prod.case by simp
qed

lemma log_line_one_line:
  assumes "CHR 0x0A \<notin> set ts" and "CHR 0x0A \<notin> set m"
  shows "CHR 0x0A \<notin> set (log_line ts l m message)"
  using assms log_escape_one_line [of message] level_name_word(2) [of l] by (auto simp: log_line_def)

lemma split_lines_acc:
  "CHR 0x0A \<notin> set s \<Longrightarrow> split_lines acc (s @ CHR 0x0A # t) = (acc @ s) # split_lines [] t"
  by (induction s arbitrary: acc) auto

lemma split_lines_line: "CHR 0x0A \<notin> set s \<Longrightarrow> split_lines [] (s @ CHR 0x0A # t) = s # split_lines [] t"
  by (simp add: split_lines_acc)

lemma logger_log_parts:
  "lg_minimum (fst (logger_log c st)) = lg_minimum (fst st)" "lg_sink (fst (logger_log c st)) = lg_sink (fst st)"
  by (auto simp: logger_log_def Let_def split: prod.splits)

lemma admitted_Cons:
  "admitted minimum (c # cs) = (if level_rank minimum \<le> level_rank (lc_level c) then [c] else []) @ admitted minimum cs"
  by (simp add: admitted_def)

lemma log_all_parts:
  "lg_minimum (fst (log_all cs st)) = lg_minimum (fst st) \<and> lg_sink (fst (log_all cs st)) = lg_sink (fst st) \<and>
   lg_output (fst (log_all cs st)) = lg_output (fst st) @
     concat (map (\<lambda>c. log_line (lc_time c) (lc_level c) (lc_module c) (lc_message c) @ [CHR 0x0A])
       (admitted (lg_minimum (fst st)) cs))"
proof (induction cs arbitrary: st)
  case Nil
  then show ?case by (simp add: admitted_def)
next
  case (Cons c cs)
  have "lg_output (fst (logger_log c st)) = lg_output (fst st) @
      concat (map (\<lambda>c. log_line (lc_time c) (lc_level c) (lc_module c) (lc_message c) @ [CHR 0x0A])
        (admitted (lg_minimum (fst st)) [c]))"
    by (auto simp: logger_log_def admitted_def Let_def split: prod.splits)
  then show ?case
    using Cons.IH [of "logger_log c st"] by (simp add: logger_log_parts admitted_Cons admitted_def [of _ "[]"])
qed

lemma log_lines_split:
  assumes "\<forall>c \<in> set cs. readable_call c"
  shows "map read_line (split_lines []
      (concat (map (\<lambda>c. log_line (lc_time c) (lc_level c) (lc_module c) (lc_message c) @ [CHR 0x0A]) cs))) =
    map (\<lambda>c. Some (lc_time c, lc_level c, lc_module c, lc_message c)) cs"
  using assms
proof (induction cs)
  case (Cons c cs)
  have one: "CHR 0x0A \<notin> set (log_line (lc_time c) (lc_level c) (lc_module c) (lc_message c))"
    using Cons.prems by (intro log_line_one_line) (simp_all add: readable_call_def)
  have "read_line (log_line (lc_time c) (lc_level c) (lc_module c) (lc_message c)) =
      Some (lc_time c, lc_level c, lc_module c, lc_message c)"
    using Cons.prems by (intro read_log_line) (simp_all add: readable_call_def)
  then show ?case using Cons split_lines_line [OF one] by simp
qed simp

text \<open>C39: whatever messages the modules log, line feeds and quotes included, the log holds exactly one
  line for every call at or above the minimum level, in the order of the calls, and a reader of the
  line gets back the time, the level, the module and the message unchanged.\<close>

theorem log_reads_back:
  assumes "\<forall>c \<in> set cs. readable_call c"
  shows "map read_line (split_lines [] (lg_output (fst (log_all cs (new_logger minimum, w))))) =
    map (\<lambda>c. Some (lc_time c, lc_level c, lc_module c, lc_message c)) (admitted minimum cs)"
proof -
  have "\<forall>c \<in> set (admitted minimum cs). readable_call c" using assms by (simp add: admitted_def)
  from log_lines_split [OF this] show ?thesis
    using log_all_parts [of cs "(new_logger minimum, w)"] by (simp add: new_logger_def)
qed

definition sample_call :: log_call where
  "sample_call = \<lparr>lc_utc = ''2024-01-01T00:00:00'', lc_ms = 5, lc_level = Log_Error, lc_module = ''video'',
     lc_message = ''a'' @ [CHR 0x0A, CHR 0x22] @ ''b''\<rparr>"

theorem log_reads_back_witness:
  "length (split_lines [] (lg_output (fst (log_all [sample_call] (new_logger Log_Info, ()))))) = 1 \<and>
   map read_line (split_lines [] (lg_output (fst (log_all [sample_call] (new_logger Log_Info, ()))))) =
     [Some (lc_time sample_call, Log_Error, ''video'', lc_message sample_call)]"
proof -
  have ok: "\<forall>c \<in> set [sample_call]. readable_call c"
    by (simp add: readable_call_def sample_call_def timestamp_def pad3_def) code_simp
  have lst: "admitted Log_Info [sample_call] = [sample_call]" by (simp add: admitted_def sample_call_def)
  show ?thesis
    using log_reads_back [OF ok, of Log_Info "()"] unfolding lst
    by (auto simp: sample_call_def dest: arg_cong [where f = length])
qed

section \<open>The error sink of the process\<close>

text \<open>The lambda \<^verbatim>\<open>main\<close> installs: every error logged is published as a system
  error event.  The sink reads the clock itself, \<open>clock n\<close> at its \<open>n\<close>-th call.\<close>

definition publish_error ::
    "(nat \<Rightarrow> string \<times> nat) \<Rightarrow> string \<Rightarrow> string \<Rightarrow> 's event_channel \<times> nat \<Rightarrow> 's event_channel \<times> nat" where
  "publish_error clock md message w =
     (let (c, n) = w; (utc, ms) = clock n
      in (snd (publish utc ms SystemError (make_system_error_data md message) c), n + 1))"

definition error_event :: "(nat \<Rightarrow> string \<times> nat) \<Rightarrow> nat \<times> log_call \<Rightarrow> string" where
  "error_event clock x =
     (let (n, c) = x; (utc, ms) = clock n
      in make_event_json utc ms SystemError (make_system_error_data (lc_module c) (lc_message c)))"

definition logged_errors :: "log_call list \<Rightarrow> log_call list" where
  "logged_errors cs = filter (\<lambda>c. lc_level c = Log_Error) cs"

lemma error_passes: "level_rank minimum \<le> 4"
  by (cases minimum) simp_all

lemma publish_error_fold:
  assumes "lg_sink lg = Some (publish_error clock)"
  shows "snd (log_all cs (lg, (c, n))) =
    (fold record_error (map (error_event clock) (enumerate n (logged_errors cs))) c, n + length (logged_errors cs))"
  using assms
proof (induction cs arbitrary: lg c n)
  case Nil
  then show ?case by (simp add: logged_errors_def)
next
  case (Cons x cs)
  show ?case
  proof (cases "lc_level x = Log_Error")
    case True
    have "logger_log x (lg, (c, n)) = (fst (logger_log x (lg, (c, n))), (record_error (error_event clock (n, x)) c, n + 1))"
      using Cons.prems True error_passes [of "lg_minimum lg"]
      by (simp add: logger_log_def publish_error_def publish_def error_event_def Let_def split: prod.splits)
    then show ?thesis
      using Cons.IH [of "fst (logger_log x (lg, (c, n)))" "record_error (error_event clock (n, x)) c" "n + 1"]
        Cons.prems True logger_log_parts(2) [of x "(lg, (c, n))"]
      by (simp add: logged_errors_def)
  next
    case False
    have "logger_log x (lg, (c, n)) = (fst (logger_log x (lg, (c, n))), (c, n))"
      using False by (simp add: logger_log_def)
    then show ?thesis
      using Cons.IH [of "fst (logger_log x (lg, (c, n)))" c n] Cons.prems False logger_log_parts(2) [of x "(lg, (c, n))"]
      by (simp add: logged_errors_def)
  qed
qed

text \<open>the errors a client is shown.  With the sink of the process installed, whatever is logged and
  whatever the minimum level, the event channel keeps the events of the last ten errors, oldest
  first, each with the module and the message of the call.\<close>

theorem logged_errors_kept:
  assumes "lg_sink lg = Some (publish_error clock)"
  shows "recent_errors (fst (snd (log_all cs (lg, (new_channel, 0))))) =
    last_n 10 (map (error_event clock) (enumerate 0 (logged_errors cs)))"
  using publish_error_fold [OF assms, of cs new_channel 0]
    errors.fold_push [of "new_channel :: 'a event_channel" "map (error_event clock) (enumerate 0 (logged_errors cs))"]
  by (simp add: new_channel_def)

theorem logged_errors_kept_witness:
  "recent_errors (fst (snd (log_all [sample_call]
     (set_error_sink (Some (publish_error (\<lambda>n. (''t'', n)))) (new_logger Log_Error), (new_channel :: nat event_channel, 0))))) =
   [error_event (\<lambda>n. (''t'', n)) (0, sample_call)]"
proof -
  have "lg_sink (set_error_sink (Some (publish_error (\<lambda>n. (''t'', n))))
      (new_logger Log_Error :: (nat event_channel \<times> nat) logger_state)) = Some (publish_error (\<lambda>n. (''t'', n)))"
    by (simp add: set_error_sink_def)
  from logged_errors_kept [OF this, of "[sample_call]"] show ?thesis
    by (simp add: logged_errors_def sample_call_def)
qed

end
