(* ===== verification/Command_Line.thy ===== *)
theory Command_Line
  imports Skai_Prelude
begin

text \<open>
  \<^verbatim>\<open>include/skai/cli.hpp\<close> and \<^verbatim>\<open>src/cli.cpp\<close>: the command line of
  the service.  The loop over the arguments is \<open>parse_options\<close>, which carries the result
  built so far; taking the argument of \<^verbatim>\<open>--config\<close> is the \<^verbatim>\<open>++index\<close>
  of the source.  The version text is a parameter of the build.
\<close>

datatype cli_action = Cli_Run | Cli_Exit

record cli_result =
  cli_act :: cli_action
  cli_exit_code :: int
  cli_message :: string
  cli_config_path :: string
  cli_rtsp_test :: bool

definition usage :: string where
  "usage = ''Usage: skai-edge [--help | --version | --rtsp-test] [--config PATH]'' @ [CHR 0x0A]"

definition cli_run :: "string \<Rightarrow> bool \<Rightarrow> cli_result" where
  "cli_run path rtsp =
     \<lparr>cli_act = Cli_Run, cli_exit_code = 0, cli_message = [], cli_config_path = path, cli_rtsp_test = rtsp\<rparr>"

definition cli_exit :: "int \<Rightarrow> string \<Rightarrow> cli_result" where
  "cli_exit code message =
     \<lparr>cli_act = Cli_Exit, cli_exit_code = code, cli_message = message, cli_config_path = [], cli_rtsp_test = False\<rparr>"

definition opt_test :: string where
  "opt_test = ''--rtsp-test''"

definition opt_config :: string where
  "opt_config = ''--config''"

definition opt_help :: string where
  "opt_help = ''--help''"

definition opt_version :: string where
  "opt_version = ''--version''"

definition usage_error :: "string \<Rightarrow> cli_result" where
  "usage_error what = cli_exit 2 (what @ [CHR 0x0A] @ usage)"

definition bad_path :: "string \<Rightarrow> bool" where
  "bad_path p \<longleftrightarrow> p = [] \<or> hd p = CHR ''-''"

fun parse_options :: "string list \<Rightarrow> string \<Rightarrow> bool \<Rightarrow> cli_result" where
  "parse_options [] path rtsp = cli_run path rtsp"
| "parse_options (a # args) path rtsp =
     (if a = opt_test \<and> \<not> rtsp then parse_options args path True
      else if a = opt_test then
        usage_error ''--rtsp-test may be specified only once''
      else if a = opt_config \<and> path = [] then
        (case args of
           [] \<Rightarrow> usage_error ''--config requires a file path''
         | p # rest \<Rightarrow>
             if bad_path p then usage_error ''--config requires a file path''
             else parse_options rest p rtsp)
      else if a = opt_config then usage_error ''--config may be specified only once''
      else usage_error (''Unknown option or arguments: '' @ a))"

definition parse_command_line :: "string \<Rightarrow> string list \<Rightarrow> cli_result" where
  "parse_command_line version args =
     (if args = [] then cli_run [] False
      else if opt_help \<in> set args then cli_exit 0 usage
      else if opt_version \<in> set args then cli_exit 0 (''skai-edge '' @ version @ [CHR 0x0A])
      else parse_options args [] False)"

section \<open>The accepted command lines\<close>

text \<open>The command lines that start the service, as the usage text means them: each option at most
  once, in either order.\<close>

definition command_of :: "string \<Rightarrow> bool \<Rightarrow> string list set" where
  "command_of path rtsp =
     (let t = (if rtsp then [opt_test] else []); c = (if path = [] then [] else [opt_config, path])
      in {t @ c, c @ t})"

lemma options_distinct [simp]:
  "opt_test \<noteq> opt_config" "opt_config \<noteq> opt_test" "opt_help \<noteq> opt_test" "opt_help \<noteq> opt_config"
  "opt_version \<noteq> opt_test" "opt_version \<noteq> opt_config"
  by (simp_all add: opt_test_def opt_config_def opt_help_def opt_version_def)

lemma options_dashed [simp]:
  "bad_path []" "bad_path opt_help" "bad_path opt_version" "bad_path opt_test" "bad_path opt_config"
  by (simp_all add: bad_path_def opt_test_def opt_config_def opt_help_def opt_version_def)

lemma cli_results [simp]:
  "usage_error m \<noteq> cli_run p t"
  "cli_run p t = cli_run p' t' \<longleftrightarrow> p = p' \<and> t = t'" "cli_exit c m \<noteq> cli_run p t" "cli_run p t \<noteq> cli_exit c m"
  by (auto simp: cli_run_def cli_exit_def usage_error_def)

lemma parse_after_config:
  "path \<noteq> [] \<Longrightarrow> parse_options args path rtsp = cli_run p t \<longleftrightarrow>
    p = path \<and> ((args = [] \<and> t = rtsp) \<or> (args = [opt_test] \<and> \<not> rtsp \<and> t))"
proof (induction args arbitrary: rtsp)
  case (Cons a args)
  then show ?case by (cases rtsp) auto
qed auto

declare parse_options.simps(2) [simp del]

lemmas parse_option = parse_options.simps(2)

lemma parse_config:
  "parse_options (opt_config # args) [] rtsp = cli_run p t \<longleftrightarrow>
    (\<exists>rest. args = p # rest \<and> \<not> bad_path p \<and> ((rest = [] \<and> t = rtsp) \<or> (rest = [opt_test] \<and> \<not> rtsp \<and> t)))"
proof (cases args)
  case (Cons q rest)
  have "q \<noteq> []" if "\<not> bad_path q" using that by auto
  then show ?thesis using Cons by (auto simp: parse_option [of opt_config] parse_after_config)
qed (simp add: parse_option)

lemma parse_unknown: "a \<noteq> opt_test \<Longrightarrow> a \<noteq> opt_config \<Longrightarrow> parse_options (a # args) path rtsp \<noteq> cli_run p t"
  by (simp add: parse_option)

lemma parse_after_test:
  "parse_options args [] True = cli_run p t \<longleftrightarrow>
    t \<and> ((args = [] \<and> p = []) \<or> (args = [opt_config, p] \<and> \<not> bad_path p))"
proof (cases args)
  case (Cons a as)
  consider "a = opt_test" | "a = opt_config" | "a \<noteq> opt_test" "a \<noteq> opt_config" by blast
  then show ?thesis
    by cases (use Cons in \<open>auto simp: parse_config parse_unknown parse_option [of opt_test]\<close>)
qed auto

lemma parse_options_run:
  "parse_options args [] False = cli_run p t \<longleftrightarrow> args \<in> command_of p t \<and> (p = [] \<or> \<not> bad_path p)"
proof (cases args)
  case Nil
  then show ?thesis by (auto simp: command_of_def Let_def)
next
  case (Cons a as)
  consider "a = opt_test" | "a = opt_config" | "a \<noteq> opt_test" "a \<noteq> opt_config" by blast
  then show ?thesis
  proof cases
    case 1
    then have "parse_options args [] False = parse_options as [] True" using Cons by (simp add: parse_option)
    then show ?thesis using Cons 1 by (auto simp: parse_after_test command_of_def Let_def)
  next
    case 2
    then show ?thesis using Cons by (auto simp: parse_config command_of_def Let_def)
  next
    case 3
    then show ?thesis using Cons by (auto simp: parse_unknown command_of_def Let_def)
  qed
qed

lemma command_has_no_exit_option:
  "args \<in> command_of p t \<Longrightarrow> p = [] \<or> \<not> bad_path p \<Longrightarrow> opt_help \<notin> set args \<and> opt_version \<notin> set args"
  by (auto simp: command_of_def Let_def split: if_splits)

lemma parse_options_exit:
  "(\<exists>p t. parse_options args path rtsp = cli_run p t) \<or> (\<exists>m. parse_options args path rtsp = usage_error m)"
proof (induction args path rtsp rule: parse_options.induct)
  case (2 a args path rtsp)
  then show ?case by (auto simp: parse_option [of a] split: list.splits)
qed auto

text \<open>the service is started exactly for the command lines of the usage text, at most one
  \<^verbatim>\<open>--rtsp-test\<close> and at most one \<^verbatim>\<open>--config\<close> with a path that is not
  empty and not an option, in either order, and with the path and the flag they give.  Any other
  command line ends the process at once: with code 0 when it asks for the help or the version, and
  with code 2 and the usage text otherwise.\<close>

theorem command_line_exact:
  "(parse_command_line version args = cli_run path rtsp \<longleftrightarrow>
     args \<in> command_of path rtsp \<and> (path = [] \<or> \<not> bad_path path)) \<and>
   ((\<exists>p t. parse_command_line version args = cli_run p t) \<or>
    (if opt_help \<in> set args \<or> opt_version \<in> set args
     then \<exists>m. parse_command_line version args = cli_exit 0 m
     else \<exists>m. parse_command_line version args = usage_error m))"
proof (cases "args = []")
  case True
  then show ?thesis by (auto simp: parse_command_line_def command_of_def Let_def)
next
  case False
  then show ?thesis
    using parse_options_run [of args path rtsp] command_has_no_exit_option [of args path rtsp]
      parse_options_exit [of args "[]" False]
    by (auto simp: parse_command_line_def usage_error_def)
qed

end
