(* ===== verification/Database.thy ===== *)
theory Database
  imports Alert_Repository
begin

text \<open>
  \<^verbatim>\<open>include/skai/storage/database.hpp\<close>, \<^verbatim>\<open>src/storage/database.cpp\<close> and
  the build tool \<^verbatim>\<open>src/storage/database_seed.cpp\<close>: opening the SQLite file of the
  alerts, its migration, and the lifecycle module around it.  What SQLite and the file system answer is
  an environment, one field per call of the source, \<open>None\<close> for success.  The file is what is
  durable: the rows of \<^verbatim>\<open>schema_migrations\<close>, whether the tables of the schema exist, and
  their contents; a transaction changes it only when its \<^verbatim>\<open>COMMIT\<close> succeeds.  Opening
  returns every durable state of the file it passes through, so that a power cut at any point leaves
  one of them.  The tables and statements of the repository are in \<open>Alert_Repository\<close>.
\<close>

section \<open>State\<close>

record db_file =
  df_versions :: "int list option"
  df_schema :: bool
  df_tables :: tables

definition empty_tables :: tables where
  "empty_tables = \<lparr>t_alerts = [], t_detections = []\<rparr>"

definition empty_file :: db_file where
  "empty_file = \<lparr>df_versions = None, df_schema = False, df_tables = empty_tables\<rparr>"

record db_object =
  do_path :: string
  do_path_from_config :: bool
  do_connection :: bool
  do_last_error :: string
  do_operational_error :: string
  do_file :: db_file

definition new_database :: "string \<Rightarrow> db_file \<Rightarrow> db_object" where
  "new_database path f =
     \<lparr>do_path = path, do_path_from_config = (path = []), do_connection = False, do_last_error = [],
      do_operational_error = [], do_file = f\<rparr>"

text \<open>What the repository works on.\<close>

definition repository_view :: "db_object \<Rightarrow> database" where
  "repository_view d =
     \<lparr>db_open = do_connection d, db_tables = df_tables (do_file d), operational_error = do_operational_error d\<rparr>"

record db_env =
  de_directory :: "string option"
  de_open :: "string option option"
  de_foreign_keys :: "string option"
  de_wal_prepare :: "string option"
  de_wal_step :: "string option"
  de_wal_mode :: "string option"
  de_sync_set :: "string option"
  de_sync_value :: "int option"
  de_create :: "string option"
  de_version_prepare :: "string option"
  de_version_step :: "string option"
  de_begin :: "string option"
  de_migrate :: "string option"
  de_insert_prepare :: "string option"
  de_insert_step :: "string option"
  de_commit :: "string option"

section \<open>Migration\<close>

definition current_schema_version :: int where
  "current_schema_version = 1"

text \<open>\<^verbatim>\<open>SELECT COALESCE(MAX(version), 0)\<close>.\<close>

definition max_version :: "db_file \<Rightarrow> int" where
  "max_version f = (case df_versions f of None \<Rightarrow> 0 | Some [] \<Rightarrow> 0 | Some (v # vs) \<Rightarrow> Max (set (v # vs)))"

text \<open>\<^verbatim>\<open>migration_v1\<close> fails when a table of the schema exists already.\<close>

definition migration_v1 :: "db_env \<Rightarrow> db_file \<Rightarrow> string + db_file" where
  "migration_v1 env f =
     (if df_schema f then Inl ''table alerts already exists''
      else case de_migrate env of
             Some e \<Rightarrow> Inl e
           | None \<Rightarrow> Inr (f\<lparr>df_schema := True, df_tables := empty_tables\<rparr>))"

definition record_version :: "db_file \<Rightarrow> db_file" where
  "record_version f = f\<lparr>df_versions := Some ((case df_versions f of None \<Rightarrow> [] | Some vs \<Rightarrow> vs) @ [1])\<rparr>"

text \<open>The result is the error text, \<open>None\<close> for success, with the durable states in order.\<close>

definition migrate_locked :: "db_env \<Rightarrow> db_file \<Rightarrow> string option \<times> db_file list" where
  "migrate_locked env f =
     (case de_create env of
        Some e \<Rightarrow> (Some e, [f])
      | None \<Rightarrow>
          let f1 = f\<lparr>df_versions := Some (case df_versions f of None \<Rightarrow> [] | Some vs \<Rightarrow> vs)\<rparr> in
          case de_version_prepare env of
            Some e \<Rightarrow> (Some e, [f, f1])
          | None \<Rightarrow>
              case de_version_step env of
                Some e \<Rightarrow> (Some e, [f, f1])
              | None \<Rightarrow>
                  if max_version f1 > current_schema_version
                  then (Some ''database schema is newer than this application'', [f, f1])
                  else if max_version f1 = current_schema_version then (None, [f, f1])
                  else case de_begin env of
                    Some e \<Rightarrow> (Some e, [f, f1])
                  | None \<Rightarrow>
                      case migration_v1 env f1 of
                        Inl e \<Rightarrow> (Some e, [f, f1])
                      | Inr f2 \<Rightarrow>
                          let error = (case de_insert_prepare env of Some e \<Rightarrow> e
                                       | None \<Rightarrow> (case de_insert_step env of Some e \<Rightarrow> e | None \<Rightarrow> []));
                              f3 = (if de_insert_prepare env = None \<and> de_insert_step env = None
                                    then record_version f2 else f2)
                          in if error \<noteq> [] then (Some error, [f, f1])
                             else case de_commit env of
                               Some e \<Rightarrow> (Some e, [f, f1])
                             | None \<Rightarrow> (None, [f, f1, f3]))"

section \<open>Opening\<close>

definition ascii_lower :: "char \<Rightarrow> char" where
  "ascii_lower c = (if of_char c \<in> {65..90 :: nat} then char_of (of_char c + 32 :: nat) else c)"

text \<open>The pragmas of a database that is not in memory; the result is the error text, empty for
  success.\<close>

definition wal_error :: "db_env \<Rightarrow> string" where
  "wal_error env =
     (case de_wal_prepare env of
        Some e \<Rightarrow> e
      | None \<Rightarrow>
          case de_wal_step env of
            Some e \<Rightarrow> e
          | None \<Rightarrow>
              let selected = (case de_wal_mode env of Some v \<Rightarrow> v | None \<Rightarrow> []) in
              if map ascii_lower selected \<noteq> ''wal''
              then ''could not enable WAL journal mode; SQLite selected '' @ [CHR 0x27] @ selected @ [CHR 0x27]
              else [])"

definition pragma_error :: "db_env \<Rightarrow> string" where
  "pragma_error env =
     (let e1 = wal_error env;
          e2 = (if e1 = [] then
                  (case de_sync_set env of Some e \<Rightarrow> ''could not set SQLite synchronous policy: '' @ e | None \<Rightarrow> [])
                else e1)
      in if e2 = [] \<and> de_sync_value env \<noteq> Some 2 then ''SQLite synchronous policy is not FULL'' else e2)"

definition memory_path :: string where
  "memory_path = '':memory:''"

text \<open>Closing the connection of a database in memory discards its contents.\<close>

definition closed_file :: "db_object \<Rightarrow> db_file \<Rightarrow> db_file" where
  "closed_file d f = (if do_path d = memory_path then empty_file else f)"

text \<open>\<^verbatim>\<open>open_locked\<close>: the error text, the object and the durable states of the file.  A
  parent path exists exactly when the path has a separator.\<close>

definition open_locked :: "db_env \<Rightarrow> db_object \<Rightarrow> string option \<times> db_object \<times> db_file list" where
  "open_locked env d =
     (let f = do_file d in
      if do_connection d then (None, d, [f])
      else if do_path d = [] then (Some ''database path must not be empty'', d, [f])
      else case (if do_path d \<noteq> memory_path \<and> CHR ''/'' \<in> set (do_path d) then de_directory env else None) of
        Some e \<Rightarrow> (Some (''could not create database directory: '' @ e), d, [f])
      | None \<Rightarrow>
          case de_open env of
            Some m \<Rightarrow> (Some (case m of Some e \<Rightarrow> e | None \<Rightarrow> ''could not open database''), d, [f])
          | None \<Rightarrow>
              case de_foreign_keys env of
                Some e \<Rightarrow> (Some e, d, [f])
              | None \<Rightarrow>
                  let error = (if do_path d \<noteq> memory_path then pragma_error env else []) in
                  if error \<noteq> [] then (Some error, d, [f])
                  else case migrate_locked env f of
                    (Some e, fs) \<Rightarrow> (Some e, d\<lparr>do_file := closed_file d (last fs)\<rparr>, fs)
                  | (None, fs) \<Rightarrow>
                      (None, d\<lparr>do_connection := True, do_operational_error := [], do_file := last fs\<rparr>, fs))"

definition close_database :: "db_object \<Rightarrow> db_object" where
  "close_database d =
     (if do_connection d then d\<lparr>do_connection := False, do_file := closed_file d (do_file d)\<rparr> else d)"

section \<open>The module\<close>

definition database_initialize :: "db_env \<Rightarrow> config \<Rightarrow> db_object \<Rightarrow> bool \<times> db_object \<times> db_file list" where
  "database_initialize env cfg d =
     (let d1 = d\<lparr>do_last_error := []\<rparr> in
      if do_connection d1 then (False, d1\<lparr>do_last_error := ''database is already open''\<rparr>, [do_file d1])
      else
        let d2 = (if do_path_from_config d1 then d1\<lparr>do_path := database_path (cfg_storage cfg)\<rparr> else d1)
        in case open_locked env d2 of
             (None, d3, fs) \<Rightarrow> (True, d3, fs)
           | (Some e, d3, fs) \<Rightarrow> (False, d3\<lparr>do_last_error := e\<rparr>, fs))"

definition database_start :: "db_object \<Rightarrow> bool" where
  "database_start d = do_connection d"

definition database_wait :: "db_object \<Rightarrow> db_object" where
  "database_wait d = close_database d"

text \<open>The two queries of \<^verbatim>\<open>schema_version\<close> have the failures of the migration's.\<close>

definition schema_version :: "db_env \<Rightarrow> db_object \<Rightarrow> int \<times> string" where
  "schema_version env d =
     (if \<not> do_connection d then (- 1, ''database is not open'')
      else case de_version_prepare env of
        Some e \<Rightarrow> (- 1, e)
      | None \<Rightarrow> (case de_version_step env of Some e \<Rightarrow> (- 1, e) | None \<Rightarrow> (max_version (do_file d), [])))"

text \<open>The seed tool: its exit code, what it writes to the error stream and the file it leaves.\<close>

definition seed_main :: "db_env \<Rightarrow> string list \<Rightarrow> db_file \<Rightarrow> int \<times> string \<times> db_file" where
  "seed_main env args f =
     (case args of
        [p] \<Rightarrow>
          (case open_locked env (new_database p f) of
             (Some e, d, _) \<Rightarrow> (1, e @ [CHR 0x0A], do_file d)
           | (None, d, _) \<Rightarrow> (0, [], do_file (close_database d)))
      | _ \<Rightarrow> (2, [], f))"

section \<open>Durable states of the file\<close>

text \<open>What the SQLite documentation says of \<^verbatim>\<open>sqlite3_errmsg\<close>: the text describes the
  error, so it is not empty.\<close>

definition sqlite_messages :: "db_env \<Rightarrow> bool" where
  "sqlite_messages env \<longleftrightarrow> de_insert_prepare env \<noteq> Some [] \<and> de_insert_step env \<noteq> Some []"

definition file_ok :: "db_file \<Rightarrow> bool" where
  "file_ok f \<longleftrightarrow>
     (case df_versions f of None \<Rightarrow> \<not> df_schema f | Some vs \<Rightarrow> (\<forall>v \<in> set vs. 1 \<le> v) \<and> (df_schema f \<longleftrightarrow> vs \<noteq> [])) \<and>
     (df_schema f \<or> df_tables f = empty_tables)"

text \<open>The states the file of a database can be in: a new file, what any opening of it leaves on the
  disk at any point, whatever fails, and what the repository writes to its tables.\<close>

inductive file_reach :: "db_file \<Rightarrow> bool" where
  file_new: "file_reach empty_file"
| file_opened: "file_reach (do_file d) \<Longrightarrow> sqlite_messages env \<Longrightarrow> g \<in> set (snd (snd (open_locked env d))) \<Longrightarrow> file_reach g"
| file_written: "file_reach f \<Longrightarrow> df_schema f \<Longrightarrow> file_reach (f\<lparr>df_tables := t\<rparr>)"

lemma max_version_schema: "file_ok f \<Longrightarrow> if df_schema f then 1 \<le> max_version f else max_version f = 0"
  by (auto simp: file_ok_def max_version_def Max_ge_iff split: option.splits list.splits)

lemma file_ok_empty: "file_ok empty_file"
  by (simp add: file_ok_def empty_file_def)

text \<open>The file with its table of migrations.\<close>

definition with_versions :: "db_file \<Rightarrow> db_file" where
  "with_versions f = f\<lparr>df_versions := Some (case df_versions f of None \<Rightarrow> [] | Some vs \<Rightarrow> vs)\<rparr>"

lemma with_versions_ok: "file_ok f \<Longrightarrow> file_ok (with_versions f)"
  by (auto simp: file_ok_def with_versions_def split: option.splits)

lemma with_versions_same:
  "max_version (with_versions f) = max_version f" "df_schema (with_versions f) = df_schema f"
  "df_tables (with_versions f) = df_tables f"
  by (auto simp: with_versions_def max_version_def split: option.splits list.splits)

text \<open>The file after the whole migration.\<close>

definition migrated :: "db_file \<Rightarrow> db_file" where
  "migrated f = record_version ((with_versions f)\<lparr>df_schema := True, df_tables := empty_tables\<rparr>)"

lemma migrated_ok:
  assumes "file_ok f" and "\<not> df_schema f"
  shows "file_ok (migrated f) \<and> max_version (migrated f) = 1 \<and> df_schema (migrated f) \<and> df_tables (migrated f) = df_tables f"
  using assms by (auto simp: file_ok_def migrated_def record_version_def with_versions_def max_version_def split: option.splits)

lemma migrate_locked_cases:
  assumes "migrate_locked env f = (e, fs)" and "sqlite_messages env"
  shows "(e \<noteq> None \<and> (fs = [f] \<or> fs = [f, with_versions f])) \<or>
    (e = None \<and> fs = [f, with_versions f] \<and> max_version f = 1) \<or>
    (e = None \<and> fs = [f, with_versions f, migrated f] \<and> max_version f < 1 \<and> \<not> df_schema f)"
  using assms with_versions_same [of f]
  by (auto simp: migrate_locked_def with_versions_def [symmetric] current_schema_version_def migration_v1_def
      migrated_def sqlite_messages_def Let_def split: option.splits if_splits)

lemma open_locked_cases:
  assumes "open_locked env d = (e, d', fs)" and "sqlite_messages env" and "\<not> do_connection d"
  shows "(e \<noteq> None \<and> \<not> do_connection d' \<and> (fs = [do_file d] \<or> fs = [do_file d, with_versions (do_file d)])) \<or>
    (e = None \<and> do_connection d' \<and> do_file d' = last fs \<and>
      ((fs = [do_file d, with_versions (do_file d)] \<and> max_version (do_file d) = 1) \<or>
       (fs = [do_file d, with_versions (do_file d), migrated (do_file d)] \<and> max_version (do_file d) < 1 \<and> \<not> df_schema (do_file d))))"
proof -
  obtain r gs where m: "migrate_locked env (do_file d) = (r, gs)" by fastforce
  show ?thesis
    using assms m migrate_locked_cases [OF m assms(2)]
    by (auto simp: open_locked_def Let_def split: option.splits if_splits) metis+
qed

lemma open_locked_files_ok:
  assumes "file_ok (do_file d)" and "sqlite_messages env" and "g \<in> set (snd (snd (open_locked env d)))"
  shows "file_ok g"
proof (cases "do_connection d")
  case True
  then show ?thesis using assms by (simp add: open_locked_def)
next
  case False
  obtain e d' fs where o: "open_locked env d = (e, d', fs)" by (cases "open_locked env d")
  show ?thesis
    using open_locked_cases [OF o assms(2) False] assms(1,3) o with_versions_ok migrated_ok by auto
qed

lemma file_reach_ok: "file_reach f \<Longrightarrow> file_ok f"
proof (induction rule: file_reach.induct)
  case (file_written f t)
  then show ?case by (simp add: file_ok_def split: option.splits)
qed (auto intro: file_ok_empty open_locked_files_ok)

text \<open>C27: opening the database migrates it all or nothing.  Whatever calls of SQLite or the file
  system fail, and wherever the power is cut, every state the file passes through has the alerts it
  had before and is either still at its old version or completely at version 1.  When the opening
  succeeds the connection is open on a file with the schema, at version 1; when it fails the connection
  is closed.\<close>

theorem migration_all_or_nothing:
  assumes "file_reach (do_file d)" and "sqlite_messages env" and "\<not> do_connection d"
    and "open_locked env d = (e, d', fs)"
  shows "list_all (\<lambda>g. df_tables g = df_tables (do_file d) \<and>
      ((max_version g = max_version (do_file d) \<and> df_schema g = df_schema (do_file d)) \<or>
       (\<not> df_schema (do_file d) \<and> max_version g = 1 \<and> df_schema g))) fs \<and>
    do_connection d' = (e = None) \<and>
    (if e = None then do_file d' = last fs \<and> df_schema (do_file d') \<and> max_version (do_file d') = 1
     else max_version (last fs) = max_version (do_file d))"
proof -
  have ok: "file_ok (do_file d)" by (rule file_reach_ok [OF assms(1)])
  show ?thesis
    using open_locked_cases [OF assms(4,2,3)] migrated_ok [OF ok] max_version_schema [OF ok]
      with_versions_same [of "do_file d"]
    by (auto split: if_splits)
qed

definition sample_db_env :: db_env where
  "sample_db_env = \<lparr>de_directory = None, de_open = None, de_foreign_keys = None, de_wal_prepare = None,
     de_wal_step = None, de_wal_mode = Some ''wal'', de_sync_set = None, de_sync_value = Some 2, de_create = None,
     de_version_prepare = None, de_version_step = None, de_begin = None, de_migrate = None,
     de_insert_prepare = None, de_insert_step = None, de_commit = None\<rparr>"

theorem migration_all_or_nothing_witness:
  "fst (open_locked sample_db_env (new_database ''/a.db'' empty_file)) = None \<and>
   df_schema (do_file (fst (snd (open_locked sample_db_env (new_database ''/a.db'' empty_file)))))"
proof -
  let ?d = "new_database ''/a.db'' empty_file"
  obtain e d' fs where o: "open_locked sample_db_env ?d = (e, d', fs)" by (cases "open_locked sample_db_env ?d")
  have "fst (open_locked sample_db_env ?d) = None" by code_simp
  then have "e = None" using o by simp
  moreover have "file_reach (do_file ?d)" "\<not> do_connection ?d" "sqlite_messages sample_db_env"
    by (simp_all add: new_database_def file_new sqlite_messages_def sample_db_env_def)
  ultimately show ?thesis using migration_all_or_nothing [of ?d sample_db_env e d' fs] o by auto
qed

end
