(* ===== verification/Preprocess_Cuda.thy ===== *)
theory Preprocess_Cuda
  imports Preprocess
begin

text \<open>
  The device code of \<^verbatim>\<open>src/inference/preprocess_cuda.cu\<close>: the kernel that letterboxes a frame
  into the input tensor of the network, with one thread for every element of a plane, and the proof
  that it computes the tensor of the CPU routine of \<open>Preprocess\<close>.

  Memory accesses are checked as there.  What the CUDA toolchain does is a parameter: \<open>mix\<close> is the
  value the compiled code gives for \<^verbatim>\<open>a * (1 - w) + b * w\<close>, which the compiler may contract to
  fused operations; the order in which the threads of a launch run is any order of the threads of the
  grid.
\<close>

section \<open>The kernel\<close>

definition channel_at :: "u8 list \<Rightarrow> int \<Rightarrow> int \<Rightarrow> int \<Rightarrow> nat \<Rightarrow> fp option" where
  "channel_at source stride x y channel =
     (let i = nat y * nat stride + nat x * 3 + channel in
      if i < length source then Some (round32 (of_nat (unat (source ! i)))) else None)"

definition bilinear_channel ::
    "(fp \<Rightarrow> fp \<Rightarrow> fp \<Rightarrow> fp) \<Rightarrow> u8 list \<Rightarrow> int \<Rightarrow> int \<Rightarrow> int \<Rightarrow> fp \<Rightarrow> fp \<Rightarrow> nat \<Rightarrow> fp option" where
  "bilinear_channel mix source stride sw sh sx sy channel =
     (let floor_x = fp_floor sx; floor_y = fp_floor sy;
          wx = fp_sub round32 sx (round32 (of_int floor_x));
          wy = fp_sub round32 sy (round32 (of_int floor_y));
          x0 = max 0 (min floor_x (sw - 1)); x1 = max 0 (min (floor_x + 1) (sw - 1));
          y0 = max 0 (min floor_y (sh - 1)); y1 = max 0 (min (floor_y + 1) (sh - 1))
      in case (channel_at source stride x0 y0 channel, channel_at source stride x1 y0 channel,
               channel_at source stride x0 y1 channel, channel_at source stride x1 y1 channel) of
           (Some a, Some b, Some c, Some d) \<Rightarrow> Some (mix (mix a b wx) (mix c d wx) wy)
         | _ \<Rightarrow> None)"

definition pad_value :: fp where
  "pad_value = fp_div round32 (Fin 114) (Fin 255)"

definition in_picture :: "preprocess_plan \<Rightarrow> int \<Rightarrow> int \<Rightarrow> bool" where
  "in_picture plan x y \<longleftrightarrow>
     \<not> (x < pad_left plan \<or> x \<ge> pad_left plan + resized_width plan \<or>
        y < pad_top plan \<or> y \<ge> pad_top plan + resized_height plan)"

definition kernel_thread ::
    "(fp \<Rightarrow> fp \<Rightarrow> fp \<Rightarrow> fp) \<Rightarrow> u8 list \<Rightarrow> int \<Rightarrow> preprocess_plan \<Rightarrow> int \<times> int \<Rightarrow> fp list \<Rightarrow> fp list option" where
  "kernel_thread mix source stride plan xy out =
     (let (x, y) = xy in
      if x \<ge> plan_width plan \<or> y \<ge> plan_height plan then Some out
      else
        let plane = nat (plan_width plan) * nat (plan_height plan);
            offset = nat y * nat (plan_width plan) + nat x
        in if \<not> in_picture plan x y then
             Option.bind (write_at offset pad_value out) (\<lambda>o1.
             Option.bind (write_at (plane + offset) pad_value o1) (\<lambda>o2.
               write_at (2 * plane + offset) pad_value o2))
           else
             let sx = source_coordinate (x - pad_left plan) (source_width plan) (resized_width plan);
                 sy = source_coordinate (y - pad_top plan) (source_height plan) (resized_height plan);
                 put = (\<lambda>channel i buf. Option.bind
                         (bilinear_channel mix source stride (source_width plan) (source_height plan) sx sy channel)
                         (\<lambda>v. write_at i (fp_div round32 v (Fin 255)) buf))
             in Option.bind (put 2 offset out) (\<lambda>o1.
                Option.bind (put 1 (plane + offset) o1) (\<lambda>o2. put 0 (2 * plane + offset) o2)))"

definition preprocess_kernel ::
    "(fp \<Rightarrow> fp \<Rightarrow> fp \<Rightarrow> fp) \<Rightarrow> u8 list \<Rightarrow> int \<Rightarrow> preprocess_plan \<Rightarrow> (int \<times> int) list \<Rightarrow> fp list \<Rightarrow> fp list option" where
  "preprocess_kernel mix source stride plan threads out = for_each (kernel_thread mix source stride plan) threads out"

text \<open>The threads of the launch: blocks of 16 by 16, as many as cover the tensor.\<close>

definition grid_threads :: "preprocess_plan \<Rightarrow> (int \<times> int) list" where
  "grid_threads plan =
     (let gx = (nat (plan_width plan) + 16 - 1) div 16; gy = (nat (plan_height plan) + 16 - 1) div 16
      in map (\<lambda>((bx, by), (tx, ty)). (int (bx * 16 + tx), int (by * 16 + ty)))
           (List.product (List.product [0..<gx] [0..<gy]) (List.product [0..<16] [0..<16])))"

section \<open>Writing an array at given indices\<close>

definition upd :: "nat \<times> 'a \<Rightarrow> 'a list \<Rightarrow> 'a list" where
  "upd iv xs = xs[fst iv := snd iv]"

lemma length_fold_upd [simp]: "length (fold upd ws xs) = length xs"
  by (induction ws arbitrary: xs) (auto simp: upd_def)

lemma fold_upd_nth:
  assumes "\<forall>(i, v) \<in> set ws. v = g i" and "i < length xs"
  shows "fold upd ws xs ! i = (if i \<in> fst ` set ws then g i else xs ! i)"
  using assms by (induction ws arbitrary: xs) (auto simp: upd_def nth_list_update)

lemma fold_upd_all:
  assumes "\<forall>(i, v) \<in> set ws. v = g i" and "\<forall>i < length xs. i \<in> fst ` set ws \<or> xs ! i = g i"
  shows "fold upd ws xs = map g [0..<length xs]"
  using assms(2) by (intro nth_equalityI) (auto simp: fold_upd_nth [OF assms(1)])

lemma for_each_fold_upd:
  assumes "\<And>x s. x \<in> set xs \<Longrightarrow> length s = n \<Longrightarrow> f x s = Some (fold upd (w x) s)" and "length s = n"
  shows "for_each f xs s = Some (fold upd (concat (map w xs)) s)"
  using assms by (induction xs arbitrary: s) auto

text \<open>Three writes in a row, one in each plane.\<close>

definition three_writes :: "nat \<Rightarrow> nat \<Rightarrow> (nat \<Rightarrow> 'a) \<Rightarrow> (nat \<times> 'a) list" where
  "three_writes plane offset v = [(offset, v 0), (plane + offset, v 1), (2 * plane + offset, v 2)]"

lemma write_three:
  assumes "offset < plane" and "length out = plane * 3"
  shows "Option.bind (write_at offset (v 0) out) (\<lambda>o1. Option.bind (write_at (plane + offset) (v 1) o1) (\<lambda>o2.
      write_at (2 * plane + offset) (v 2) o2)) = Some (fold upd (three_writes plane offset v) out)"
  using assms by (simp add: write_at_def three_writes_def upd_def)

section \<open>The tensor, element by element\<close>

text \<open>Element \<open>i\<close> of the tensor of a frame: plane, row and column are digits of \<open>i\<close>.\<close>

definition picture_value :: "bgr_image_view \<Rightarrow> preprocess_plan \<Rightarrow> nat \<Rightarrow> int \<Rightarrow> int \<Rightarrow> fp" where
  "picture_value img plan p x y =
     fp_div round32 (the (sample_channel img
       (source_coordinate (x - pad_left plan) (source_width plan) (resized_width plan))
       (source_coordinate (y - pad_top plan) (source_height plan) (resized_height plan)) (2 - p))) (Fin 255)"

definition tensor_value :: "bgr_image_view \<Rightarrow> preprocess_plan \<Rightarrow> nat \<Rightarrow> fp" where
  "tensor_value img plan i =
     (let width = nat (plan_width plan); plane = width * nat (plan_height plan);
          x = int (i mod plane mod width); y = int (i mod plane div width)
      in if in_picture plan x y then picture_value img plan (i div plane) x y else pad_value)"

definition cell_value :: "bgr_image_view \<Rightarrow> preprocess_plan \<Rightarrow> int \<times> int \<Rightarrow> nat \<Rightarrow> fp" where
  "cell_value img plan xy p =
     (if in_picture plan (fst xy) (snd xy) then picture_value img plan p (fst xy) (snd xy) else pad_value)"

abbreviation plane_of :: "preprocess_plan \<Rightarrow> nat" where
  "plane_of plan \<equiv> nat (plan_width plan) * nat (plan_height plan)"

abbreviation offset_of :: "preprocess_plan \<Rightarrow> int \<times> int \<Rightarrow> nat" where
  "offset_of plan xy \<equiv> nat (snd xy) * nat (plan_width plan) + nat (fst xy)"

definition in_tensor :: "preprocess_plan \<Rightarrow> int \<times> int \<Rightarrow> bool" where
  "in_tensor plan xy \<longleftrightarrow> 0 \<le> fst xy \<and> fst xy < plan_width plan \<and> 0 \<le> snd xy \<and> snd xy < plan_height plan"

definition cell_writes :: "bgr_image_view \<Rightarrow> preprocess_plan \<Rightarrow> int \<times> int \<Rightarrow> (nat \<times> fp) list" where
  "cell_writes img plan xy = three_writes (plane_of plan) (offset_of plan xy) (cell_value img plan xy)"

lemma offset_digits:
  assumes "in_tensor plan xy"
  shows "offset_of plan xy < plane_of plan" "offset_of plan xy mod nat (plan_width plan) = nat (fst xy)"
    "offset_of plan xy div nat (plan_width plan) = nat (snd xy)"
  using assms tensor_offset [of "fst xy" "plan_width plan" "snd xy" "plan_height plan"]
  by (auto simp: in_tensor_def)

lemma plane_digits:
  fixes r p :: nat
  assumes "r < p"
  shows "r div p = 0" "r mod p = r" "(p + r) div p = 1" "(p + r) mod p = r" "(2 * p + r) div p = 2" "(2 * p + r) mod p = r"
  using assms by (simp_all add: div_add_self1)

lemma cell_writes_value:
  assumes "in_tensor plan xy"
  shows "\<forall>(i, v) \<in> set (cell_writes img plan xy). v = tensor_value img plan i"
proof -
  note d = plane_digits [OF offset_digits(1) [OF assms]]
  have xy: "int (nat (fst xy)) = fst xy" "int (nat (snd xy)) = snd xy" "0 \<le> fst xy" "0 \<le> snd xy"
    "nat (fst xy) mod nat (plan_width plan) = nat (fst xy)" "nat (fst xy) div nat (plan_width plan) = 0"
    using assms by (auto simp: in_tensor_def)
  show ?thesis
    by (simp add: cell_writes_def three_writes_def tensor_value_def cell_value_def Let_def d
        offset_digits(2,3) [OF assms] xy)
qed

lemma tensor_index:
  assumes "i < plane_of plan * 3"
  obtains xy where "in_tensor plan xy" "i \<in> fst ` set (cell_writes img plan xy)"
    "xy = (int (i mod plane_of plan mod nat (plan_width plan)), int (i mod plane_of plan div nat (plan_width plan)))"
proof -
  let ?p = "plane_of plan" and ?w = "nat (plan_width plan)"
  let ?xy = "(int (i mod ?p mod ?w), int (i mod ?p div ?w))"
  have "?p \<noteq> 0" using assms by (metis mult_0 not_less0)
  then have p: "0 < ?p" "0 < ?w" by simp_all
  have "i mod ?p div ?w < nat (plan_height plan)"
    using p by (simp add: less_mult_imp_div_less mult.commute [of ?w])
  moreover have "i mod ?p mod ?w < ?w" using p by simp
  ultimately have inside: "in_tensor plan ?xy" by (auto simp: in_tensor_def zless_nat_eq_int_zless)
  have off: "offset_of plan ?xy = i mod ?p" by simp
  have "i div ?p < 3" using assms by (simp add: less_mult_imp_div_less mult.commute)
  then consider "i div ?p = 0" | "i div ?p = 1" | "i div ?p = 2" by linarith
  then have "i = i mod ?p \<or> i = ?p + i mod ?p \<or> i = 2 * ?p + i mod ?p"
    by cases (use div_mult_mod_eq [of i ?p] in simp_all)
  then have "i \<in> fst ` set (cell_writes img plan ?xy)"
    unfolding cell_writes_def three_writes_def off by auto
  with inside show thesis using that by blast
qed

section \<open>The CPU routine\<close>

lemma write_pixel_writes:
  assumes "validate_image img = Inr u" and "img_data img = Some bytes" and "length bytes = img_bytes img"
    and "in_tensor plan (x, y)" and "in_picture plan x y" and "length out = plane_of plan * 3"
  shows "write_pixel img plan y x out = Some (fold upd (cell_writes img plan (x, y)) out)"
proof -
  let ?sx = "source_coordinate (x - pad_left plan) (source_width plan) (resized_width plan)"
    and ?sy = "source_coordinate (y - pad_top plan) (source_height plan) (resized_height plan)"
  have b: "Option.bind (sample_channel img ?sx ?sy c) f = f (the (sample_channel img ?sx ?sy c))" if "c < 3" for c f
    using sample_channel_in_bounds [OF assms(1-3) that, of ?sx ?sy] by auto
  have b3: "Option.bind (sample_channel img ?sx ?sy 2) f = f (the (sample_channel img ?sx ?sy 2))"
    "Option.bind (sample_channel img ?sx ?sy 1) f = f (the (sample_channel img ?sx ?sy 1))"
    "Option.bind (sample_channel img ?sx ?sy 0) f = f (the (sample_channel img ?sx ?sy 0))" for f
    by (rule b; simp)+
  have v: "cell_value img plan (x, y) = (\<lambda>p. picture_value img plan p x y)"
    using assms(5) by (simp add: cell_value_def fun_eq_iff)
  have off: "offset_of plan (x, y) < plane_of plan" by (rule offset_digits(1) [OF assms(4)])
  show ?thesis
    unfolding write_pixel_def Let_def b3 cell_writes_def v
    using write_three [OF off assms(6), of "\<lambda>p. picture_value img plan p x y"]
    by (simp add: picture_value_def mult.commute)
qed

lemma picture_in_tensor:
  "plan_matches img plan \<Longrightarrow> in_picture plan x y \<Longrightarrow> in_tensor plan (x, y)"
  by (auto simp: plan_matches_def in_picture_def in_tensor_def)

lemma tensor_value_outside:
  assumes "i < plane_of plan * 3" and "\<not> in_picture plan (int (i mod plane_of plan mod nat (plan_width plan)))
      (int (i mod plane_of plan div nat (plan_width plan)))"
  shows "tensor_value img plan i = pad_value"
  using assms by (simp add: tensor_value_def Let_def)

lemma cpu_tensor:
  assumes "validate_image img = Inr u" and "img_data img = Some bytes" and "length bytes = img_bytes img"
    and "plan_matches img plan" and "nat (plan_height plan) \<le> size_max div nat (plan_width plan) div 3"
  shows "preprocess_cpu img plan = Inr (Some (map (tensor_value img plan) [0..<plane_of plan * 3]))"
proof -
  let ?xs = "[pad_left plan..pad_left plan + resized_width plan - 1]"
    and ?ys = "[pad_top plan..pad_top plan + resized_height plan - 1]"
    and ?blank = "replicate (plane_of plan * 3) pad_value"
  define row where "row y = concat (map (\<lambda>x. cell_writes img plan (x, y)) ?xs)" for y
  define ws where "ws = concat (map row ?ys)"
  have pic: "in_picture plan x y" if "x \<in> set ?xs" "y \<in> set ?ys" for x y
    using that by (auto simp: in_picture_def)
  have r: "for_each (write_pixel img plan y) ?xs s = Some (fold upd (row y) s)"
    if "y \<in> set ?ys" "length s = plane_of plan * 3" for y s
    unfolding row_def
    by (rule for_each_fold_upd [OF _ that(2)])
      (metis pic that(1) write_pixel_writes [OF assms(1-3)] picture_in_tensor [OF assms(4)])
  have run: "for_each (\<lambda>y. for_each (write_pixel img plan y) ?xs) ?ys ?blank = Some (fold upd ws ?blank)"
    unfolding ws_def by (rule for_each_fold_upd [of _ "plane_of plan * 3"]) (simp_all add: r)
  have good: "\<forall>(i, v) \<in> set ws. v = tensor_value img plan i"
    using cell_writes_value picture_in_tensor [OF assms(4)] pic unfolding ws_def row_def by fastforce
  have "i \<in> fst ` set ws \<or> ?blank ! i = tensor_value img plan i" if i: "i < plane_of plan * 3" for i
  proof -
    obtain xy where xy: "in_tensor plan xy" "i \<in> fst ` set (cell_writes img plan xy)"
      "xy = (int (i mod plane_of plan mod nat (plan_width plan)), int (i mod plane_of plan div nat (plan_width plan)))"
      using tensor_index [OF i] by blast
    show ?thesis
    proof (cases "in_picture plan (fst xy) (snd xy)")
      case True
      then have "fst xy \<in> set ?xs" "snd xy \<in> set ?ys" by (auto simp: in_picture_def)
      then have "set (cell_writes img plan (fst xy, snd xy)) \<subseteq> set ws" unfolding ws_def row_def by force
      then show ?thesis using xy(2) by auto
    qed (use i xy(3) tensor_value_outside in simp)
  qed
  then have "fold upd ws ?blank = map (tensor_value img plan) [0..<length ?blank]"
    by (intro fold_upd_all [OF good]) simp
  then show ?thesis
    using assms run by (simp add: preprocess_cpu_def pad_value_def Let_def)
qed

section \<open>The kernel\<close>

text \<open>The expression as written, every operation rounded.\<close>

definition plain_mix :: "fp \<Rightarrow> fp \<Rightarrow> fp \<Rightarrow> fp" where
  "plain_mix a b w = fp_add round32 (fp_mul round32 a (fp_sub round32 (Fin 1) w)) (fp_mul round32 b w)"

text \<open>What the documentation of \<^verbatim>\<open>cudaMemcpy2DAsync\<close> says of a copy with the same pitch on
  both sides: the first \<open>w\<close> bytes of each row arrive; nothing is said of the bytes between the
  rows.\<close>

definition copies_rows :: "(u8 list \<Rightarrow> nat \<Rightarrow> nat \<Rightarrow> nat \<Rightarrow> u8 list \<Rightarrow> u8 list) \<Rightarrow> bool" where
  "copies_rows up \<longleftrightarrow>
     (\<forall>src pitch w rows dst. w \<le> pitch \<and> rows * pitch \<le> length dst \<longrightarrow>
        length (up src pitch w rows dst) = length dst \<and>
        (\<forall>r < rows. \<forall>b < w. up src pitch w rows dst ! (r * pitch + b) = src ! (r * pitch + b)))"

abbreviation uploaded ::
    "(u8 list \<Rightarrow> nat \<Rightarrow> nat \<Rightarrow> nat \<Rightarrow> u8 list \<Rightarrow> u8 list) \<Rightarrow> bgr_image_view \<Rightarrow> u8 list \<Rightarrow> u8 list" where
  "uploaded up img staging \<equiv>
     up (the (img_data img)) (nat (img_stride img)) (nat (img_width img) * 3) (nat (img_height img)) staging"

lemma uploaded_channel:
  assumes "validate_image img = Inr u" and "img_data img = Some bytes" and "length bytes = img_bytes img"
    and "copies_rows up" and "nat (img_stride img) * nat (img_height img) \<le> length staging"
    and "0 \<le> x" "x < img_width img" "0 \<le> y" "y < img_height img" "c < 3"
  shows "channel_at (uploaded up img staging) (img_stride img) x y c = pixel img x y c"
proof -
  let ?s = "nat (img_stride img)" and ?b = "nat x * 3 + c"
  have dims: "nat (img_width img) * 3 \<le> ?s"
    using assms(1) by (auto simp: validate_image_def Let_def split: if_splits)
  have b: "?b < nat (img_width img) * 3" and r: "nat y < nat (img_height img)" using assms(6-10) by auto
  have up: "length (uploaded up img staging) = length staging"
    "uploaded up img staging ! (nat y * ?s + ?b) = bytes ! (nat y * ?s + ?b)"
    using assms(4) [unfolded copies_rows_def, rule_format, of "nat (img_width img) * 3" ?s "nat (img_height img)" staging bytes]
      assms(2,5) dims b r by (simp_all add: mult.commute [of "nat (img_height img)"])
  have "nat y * ?s + ?b < Suc (nat y) * ?s" using b dims by simp
  also have "\<dots> \<le> nat (img_height img) * ?s" using Suc_leI [OF r] by (rule mult_le_mono1)
  finally have i: "nat y * ?s + ?b < length staging" using assms(5) by (simp add: mult.commute)
  obtain v where "pixel img x y c = Some v" using pixel_in_bounds [OF assms(1-3,6-10)] by blast
  then have "nat y * ?s + ?b < length bytes" using assms(2) by (simp add: pixel_def Let_def add.assoc split: if_splits)
  then show ?thesis using i up assms(2) by (simp add: channel_at_def pixel_def Let_def add.assoc)
qed

lemma max_min_clamp: "0 \<le> hi \<Longrightarrow> max 0 (min v hi) = clamp_int v 0 hi"
  by (simp add: clamp_int_def max_def min_def)

lemma bilinear_sample:
  assumes "\<And>x y. 0 \<le> x \<Longrightarrow> x < img_width img \<Longrightarrow> 0 \<le> y \<Longrightarrow> y < img_height img \<Longrightarrow>
      channel_at source stride x y c = pixel img x y c"
    and "0 < img_width img" "0 < img_height img"
  shows "bilinear_channel plain_mix source stride (img_width img) (img_height img) sx sy c = sample_channel img sx sy c"
proof -
  have same: "channel_at source stride (clamp_int i 0 (img_width img - 1)) (clamp_int j 0 (img_height img - 1)) c =
      pixel img (clamp_int i 0 (img_width img - 1)) (clamp_int j 0 (img_height img - 1)) c" for i j
    using assms(2,3) by (intro assms(1)) (auto simp: clamp_int_def)
  have clamp: "max 0 (min v (img_width img - 1)) = clamp_int v 0 (img_width img - 1)"
    "max 0 (min v (img_height img - 1)) = clamp_int v 0 (img_height img - 1)" for v
    using assms(2,3) by (simp_all add: max_min_clamp)
  show ?thesis
    unfolding bilinear_channel_def sample_channel_def Let_def clamp same plain_mix_def ..
qed

definition thread_writes :: "bgr_image_view \<Rightarrow> preprocess_plan \<Rightarrow> int \<times> int \<Rightarrow> (nat \<times> fp) list" where
  "thread_writes img plan xy = (if in_tensor plan xy then cell_writes img plan xy else [])"

lemma kernel_thread_writes:
  assumes "validate_image img = Inr u" and "img_data img = Some bytes" and "length bytes = img_bytes img"
    and "copies_rows up" and "nat (img_stride img) * nat (img_height img) \<le> length staging"
    and "plan_matches img plan" and "0 \<le> fst xy" "0 \<le> snd xy" and "length out = plane_of plan * 3"
  shows "kernel_thread plain_mix (uploaded up img staging) (img_stride img) plan xy out =
    Some (fold upd (thread_writes img plan xy) out)"
proof (cases "in_tensor plan xy")
  case False
  then show ?thesis using assms(7,8) by (cases xy) (auto simp: kernel_thread_def thread_writes_def in_tensor_def)
next
  case True
  obtain x y where xy: "xy = (x, y)" by (cases xy)
  have dims: "0 < img_width img" "0 < img_height img" "source_width plan = img_width img" "source_height plan = img_height img"
    using assms(1,6) by (auto simp: validate_image_def plan_matches_def split: if_splits)
  have off: "offset_of plan (x, y) < plane_of plan" using offset_digits(1) [OF True] xy by simp
  have range: "\<not> (x \<ge> plan_width plan \<or> y \<ge> plan_height plan)" using True xy by (auto simp: in_tensor_def)
  show ?thesis
  proof (cases "in_picture plan x y")
    case False
    have v: "cell_value img plan (x, y) = (\<lambda>p. pad_value)" using False by (simp add: cell_value_def fun_eq_iff)
    show ?thesis
      using write_three [OF off assms(9), of "\<lambda>p. pad_value"] False range True
      by (simp add: kernel_thread_def thread_writes_def cell_writes_def v xy Let_def)
  next
    case pic: True
    have same: "bilinear_channel plain_mix (uploaded up img staging) (img_stride img) (img_width img) (img_height img) sx sy c =
        sample_channel img sx sy c" if "c < 3" for sx sy c
      by (rule bilinear_sample [OF uploaded_channel [OF assms(1-5)]]) (use that dims in simp_all)
    have "kernel_thread plain_mix (uploaded up img staging) (img_stride img) plan xy out = write_pixel img plan y x out"
      using pic range by (simp add: kernel_thread_def write_pixel_def xy Let_def same dims mult.commute [of "plane_of plan"])
    then show ?thesis
      using write_pixel_writes [OF assms(1-3) _ pic assms(9)] True xy by (simp add: thread_writes_def)
  qed
qed

lemma grid_threads_cover: "in_tensor plan xy \<Longrightarrow> xy \<in> set (grid_threads plan)"
proof -
  assume a: "in_tensor plan xy"
  define x y where "x = nat (fst xy)" and "y = nat (snd xy)"
  have xy: "xy = (int (x div 16 * 16 + x mod 16), int (y div 16 * 16 + y mod 16))"
    using a unfolding x_def y_def div_mult_mod_eq by (simp add: in_tensor_def prod_eq_iff)
  have "x < nat (plan_width plan)" "y < nat (plan_height plan)" using a by (auto simp: in_tensor_def x_def y_def)
  then have "x div 16 < (nat (plan_width plan) + 16 - 1) div 16" "y div 16 < (nat (plan_height plan) + 16 - 1) div 16"
    by simp_all
  moreover have "x mod 16 < 16" "y mod 16 < 16" by simp_all
  ultimately show ?thesis
    unfolding grid_threads_def Let_def set_map
    by (intro image_eqI [of _ _ "((x div 16, y div 16), (x mod 16, y mod 16))"]) (simp_all add: xy zdiv_int zmod_int)
qed

lemma grid_threads_nonneg: "xy \<in> set (grid_threads plan) \<Longrightarrow> 0 \<le> fst xy \<and> 0 \<le> snd xy"
  by (auto simp: grid_threads_def Let_def)

lemma kernel_tensor:
  assumes "validate_image img = Inr u" and "img_data img = Some bytes" and "length bytes = img_bytes img"
    and "copies_rows up" and "nat (img_stride img) * nat (img_height img) \<le> length staging"
    and "plan_matches img plan" and "set threads = set (grid_threads plan)" and "length out = plane_of plan * 3"
  shows "preprocess_kernel plain_mix (uploaded up img staging) (img_stride img) plan threads out =
    Some (map (tensor_value img plan) [0..<plane_of plan * 3])"
proof -
  let ?ws = "concat (map (thread_writes img plan) threads)"
  have run: "preprocess_kernel plain_mix (uploaded up img staging) (img_stride img) plan threads out = Some (fold upd ?ws out)"
    unfolding preprocess_kernel_def
    by (rule for_each_fold_upd [OF _ assms(8)])
      (use kernel_thread_writes [OF assms(1-6)] grid_threads_nonneg assms(7) in blast)
  have good: "\<forall>(i, v) \<in> set ?ws. v = tensor_value img plan i"
    using cell_writes_value by (fastforce simp: thread_writes_def)
  have "i \<in> fst ` set ?ws" if "i < length out" for i
  proof -
    have "i < plane_of plan * 3" using that assms(8) by simp
    then obtain xy where xy: "in_tensor plan xy" "i \<in> fst ` set (cell_writes img plan xy)"
      using tensor_index by blast
    then have "xy \<in> set threads" using grid_threads_cover assms(7) by simp
    then have "set (thread_writes img plan xy) \<subseteq> set ?ws" by auto
    then show ?thesis using xy by (auto simp: thread_writes_def)
  qed
  then have "fold upd ?ws out = map (tensor_value img plan) [0..<length out]"
    by (intro fold_upd_all [OF good]) blast
  then show ?thesis using run assms(8) by simp
qed

lemma cuda_cpu_tensor:
  assumes "make_preprocess_plan img tw th = Inr plan" and "img_data img = Some bytes" and "length bytes = img_bytes img"
    and "img_height img \<le> int_max" and "tw \<le> int_max" and "th \<le> int_max"
    and "copies_rows up" and "nat (img_stride img) * nat (img_height img) \<le> length staging"
    and "set threads = set (grid_threads plan)" and "length out = nat tw * nat th * 3"
  shows "\<exists>tensor. preprocess_kernel plain_mix (uploaded up img staging) (img_stride img) plan threads out = Some tensor \<and>
    preprocess_cpu img plan = Inr (Some tensor)"
proof -
  have ok: "validate_image img = Inr ()" and pos: "0 < tw" "0 < th"
    using assms(1) by (auto simp: make_preprocess_plan_def Let_def split: sum.splits if_splits)
  have plan: "plan_matches img plan" "plan_width plan = tw" "plan_height plan = th"
    using plan_accepted_by_users [OF assms(1,4-6)] by simp_all
  have "nat tw \<le> 2147483647" "nat th \<le> 2147483647" using assms(5,6) by simp_all
  then have "nat tw * 3 * nat th \<le> (2147483647 * 3) * 2147483647" by (intro mult_le_mono) simp_all
  also have "\<dots> \<le> size_max" by simp
  finally have "nat th * (nat tw * 3) \<le> size_max" by (simp only: mult.commute)
  then have "nat th \<le> size_max div (nat tw * 3)" using pos by (simp add: less_eq_div_iff_mult_less_eq)
  then have "nat (plan_height plan) \<le> size_max div nat (plan_width plan) div 3"
    by (simp add: plan div_mult2_eq)
  from cpu_tensor [OF ok assms(2,3) plan(1) this]
    kernel_tensor [OF ok assms(2,3,7,8) plan(1) assms(9)] assms(10)
  show ?thesis by (simp add: plan)
qed

text \<open>the kernel on the GPU computes the tensor of the CPU routine.  For a frame whose buffer has the
  size it claims and the plan made for it, whatever order the threads of the grid run in, and whatever the
  staging buffer and the tensor held before, no thread reads or writes out of bounds and the tensor it
  leaves is the one of \<^verbatim>\<open>preprocess_cpu\<close>, bit for bit, as long as the upload copies the rows
  and the compiler rounds every operation.\<close>

theorem cuda_matches_cpu:
  assumes "make_preprocess_plan img tw th = Inr plan" and "img_data img = Some bytes" and "length bytes = img_bytes img"
    and "img_height img \<le> int_max" and "tw \<le> int_max" and "th \<le> int_max"
    and "copies_rows up" and "nat (img_stride img) * nat (img_height img) \<le> length staging"
    and "set threads = set (grid_threads plan)" and "length out = nat tw * nat th * 3"
  shows "\<exists>tensor. preprocess_kernel plain_mix (uploaded up img staging) (img_stride img) plan threads out = Some tensor \<and>
    preprocess_cpu img plan = Inr (Some tensor)"
  by (rule cuda_cpu_tensor [OF assms])

definition copy_rows_2d :: "u8 list \<Rightarrow> nat \<Rightarrow> nat \<Rightarrow> nat \<Rightarrow> u8 list \<Rightarrow> u8 list" where
  "copy_rows_2d src pitch w rows dst = map (\<lambda>i. if i < rows * pitch then src ! i else dst ! i) [0..<length dst]"

lemma index_in_rows:
  fixes r b w :: nat
  assumes "r < rows" "b < w" "w \<le> pitch"
  shows "r * pitch + b < rows * pitch"
proof -
  have "r * pitch + b < Suc r * pitch" using assms by simp
  also have "\<dots> \<le> rows * pitch" using Suc_leI [OF assms(1)] by (rule mult_le_mono1)
  finally show ?thesis .
qed

lemma copy_rows_2d_copies: "copies_rows copy_rows_2d"
  unfolding copies_rows_def
proof (intro allI impI conjI)
  fix src dst :: "u8 list" and pitch w rows r b :: nat
  assume d: "w \<le> pitch \<and> rows * pitch \<le> length dst" and rb: "r < rows" "b < w"
  have "r * pitch + b < rows * pitch" by (rule index_in_rows [OF rb conjunct1 [OF d]])
  then show "copy_rows_2d src pitch w rows dst ! (r * pitch + b) = src ! (r * pitch + b)"
    using d by (simp add: copy_rows_2d_def)
qed (simp add: copy_rows_2d_def)

theorem cuda_matches_cpu_witness:
  "\<exists>plan tensor. make_preprocess_plan sample_image 2 1 = Inr plan \<and>
     preprocess_kernel plain_mix (uploaded copy_rows_2d sample_image [7, 7, 7]) 3 plan (rev (grid_threads plan))
       (replicate 6 NaN) = Some tensor \<and> preprocess_cpu sample_image plan = Inr (Some tensor)"
proof -
  obtain plan where p: "make_preprocess_plan sample_image 2 1 = Inr plan"
    by (simp add: make_preprocess_plan_def validate_image_def sample_image_def Let_def)
  have img: "img_data sample_image = Some [1, 2, 3]" "length [1, 2, 3 :: u8] = img_bytes sample_image"
    "img_height sample_image \<le> int_max" "img_stride sample_image = 3" "img_height sample_image = 1"
    by (simp_all add: sample_image_def)
  from cuda_matches_cpu [OF p img(1-3) _ _ copy_rows_2d_copies, of "[7, 7, 7]" "rev (grid_threads plan)" "replicate 6 NaN"] p img
  show ?thesis by auto
qed

end
