(* ===== verification/Tensor_Rt.thy ===== *)
theory Tensor_Rt
  imports Tensor_Layout Cpp_Float Config
begin

text \<open>
  \<^verbatim>\<open>src/inference/tensorrt_engine.cpp\<close> and \<^verbatim>\<open>src/inference/tensorrt_logger.cpp\<close>:
  loading a serialized TensorRT engine, with the device memory and the CUDA stream it owns.  What TensorRT,
  CUDA and the file answer is an environment.  The device keeps the allocations and streams that are
  alive, so that what a failed load leaves behind is part of the state; the memory of a new allocation
  holds whatever the environment says.
\<close>

section \<open>TensorRtLogger\<close>

datatype trt_severity = Trt_internal_error | Trt_error | Trt_warning | Trt_info | Trt_verbose

text \<open>The last error kept, and the lines given to the logger of the service.\<close>

record trt_logger =
  tl_last_error :: string
  tl_lines :: "(log_level \<times> string) list"

definition new_trt_logger :: trt_logger where
  "new_trt_logger = \<lparr>tl_last_error = [], tl_lines = []\<rparr>"

definition trt_log :: "trt_severity \<times> string option \<Rightarrow> trt_logger \<Rightarrow> trt_logger" where
  "trt_log sm lg =
     (let (severity, message) = sm;
          failure = (severity = Trt_internal_error \<or> severity = Trt_error);
          level = (if failure then Log_Error else if severity = Trt_warning then Log_Warning
                   else if severity = Trt_info then Log_Info else Log_Debug);
          lg1 = (if failure
                 then lg\<lparr>tl_last_error := (case message of Some m \<Rightarrow> m | None \<Rightarrow> ''unknown TensorRT error'')\<rparr> else lg)
      in lg1\<lparr>tl_lines := tl_lines lg1 @ [(level, case message of Some m \<Rightarrow> m | None \<Rightarrow> ''unknown TensorRT message'')]\<rparr>)"

abbreviation last_error_of :: "(trt_severity \<times> string option) list \<Rightarrow> string" where
  "last_error_of messages \<equiv> tl_last_error (fold trt_log messages new_trt_logger)"

section \<open>TensorRtBootstrap\<close>

text \<open>The messages are those the plugin registration logs; the logger of the bootstrap lives on.\<close>

record bootstrap =
  bs_logger :: trt_logger
  bs_initialized :: bool

definition initialize_standard_plugins ::
    "bool \<Rightarrow> (trt_severity \<times> string option) list \<Rightarrow> bootstrap \<Rightarrow> string option \<times> bootstrap" where
  "initialize_standard_plugins registered messages b =
     (if bs_initialized b then (None, b)
      else
        let b1 = b\<lparr>bs_logger := fold trt_log messages (bs_logger b)\<rparr> in
        if \<not> registered then
          let detail = tl_last_error (bs_logger b1) in
          (Some (''failed to register NVIDIA plugins in the process TensorRT registry'' @
                 (if detail \<noteq> [] then '': '' @ detail else [])), b1)
        else (None, b1\<lparr>bs_initialized := True\<rparr>))"

section \<open>The device\<close>

record gpu =
  gp_next :: nat
  gp_buffers :: "(nat \<times> u64) list"
  gp_streams :: "nat list"
  gp_memory :: "nat \<Rightarrow> fp list"

definition gpu_malloc :: "(nat \<Rightarrow> fp) \<Rightarrow> u64 \<Rightarrow> gpu \<Rightarrow> nat \<times> gpu" where
  "gpu_malloc fill bytes g =
     (gp_next g,
      g\<lparr>gp_next := gp_next g + 1, gp_buffers := gp_buffers g @ [(gp_next g, bytes)],
        gp_memory := (gp_memory g)(gp_next g := map fill [0..<unat bytes div 4])\<rparr>)"

definition gpu_free :: "nat \<Rightarrow> gpu \<Rightarrow> gpu" where
  "gpu_free a g = g\<lparr>gp_buffers := filter (\<lambda>(b, n). b \<noteq> a) (gp_buffers g)\<rparr>"

definition gpu_stream :: "gpu \<Rightarrow> nat \<times> gpu" where
  "gpu_stream g = (gp_next g, g\<lparr>gp_next := gp_next g + 1, gp_streams := gp_streams g @ [gp_next g]\<rparr>)"

definition gpu_destroy_stream :: "nat \<Rightarrow> gpu \<Rightarrow> gpu" where
  "gpu_destroy_stream s g = g\<lparr>gp_streams := filter (\<lambda>t. t \<noteq> s) (gp_streams g)\<rparr>"

section \<open>TensorRtEngine\<close>

datatype trt_data_type = K_FLOAT | K_HALF | K_INT8 | K_INT32 | K_BOOL | K_UINT8 | K_FP8 | K_BF16 | K_INT64 | K_other

fun tensor_type :: "trt_data_type \<Rightarrow> string \<times> u64" where
  "tensor_type K_FLOAT = (''FP32'', 4)"
| "tensor_type K_HALF = (''FP16'', 2)"
| "tensor_type K_INT8 = (''INT8'', 1)"
| "tensor_type K_INT32 = (''INT32'', 4)"
| "tensor_type K_BOOL = (''BOOL'', 1)"
| "tensor_type K_UINT8 = (''UINT8'', 1)"
| "tensor_type K_FP8 = (''FP8'', 1)"
| "tensor_type K_BF16 = (''BF16'', 2)"
| "tensor_type K_INT64 = (''INT64'', 8)"
| "tensor_type K_other = ([], 0)"

text \<open>Reading the file: whether it opens, the position of its end, and the bytes read.\<close>

record engine_file =
  ef_opens :: bool
  ef_length :: int
  ef_bytes :: "u8 list option"

definition quoted :: "string \<Rightarrow> string" where
  "quoted s = [CHR 0x27] @ s @ [CHR 0x27]"

definition read_engine_file :: "engine_file \<Rightarrow> string \<Rightarrow> u8 list result" where
  "read_engine_file f path =
     (if \<not> ef_opens f then Inl (''cannot open TensorRT engine '' @ quoted path)
      else if ef_length f \<le> 0 then Inl (''TensorRT engine '' @ quoted path @ '' is empty or unreadable'')
      else if ef_length f > 18446744073709551615 then Inl (''TensorRT engine '' @ quoted path @ '' is too large'')
      else case ef_bytes f of
        None \<Rightarrow> Inl (''cannot read TensorRT engine '' @ quoted path)
      | Some bytes \<Rightarrow> Inr bytes)"

text \<open>What TensorRT answers about one tensor of the engine.\<close>

datatype io_mode = Io_input | Io_output | Io_none

record io_tensor =
  io_name :: "string option"
  io_mode_of :: io_mode
  io_dims :: "int list option"
  io_type :: trt_data_type
  io_on_device :: bool
  io_linear_format :: bool
  io_vectorized_dim :: int

record native_engine =
  ne_tensors :: "io_tensor list"
  ne_name :: "string option"

record engine_env =
  te_file :: engine_file
  te_runtime :: bool
  te_messages :: "(trt_severity \<times> string option) list"
  te_engine :: "native_engine option"
  te_stream :: "string option"
  te_malloc :: "nat \<Rightarrow> string option"
  te_fill :: "nat \<Rightarrow> nat \<Rightarrow> fp"

record engine_state =
  es_tensors :: "tensor_info list"
  es_buffers :: "nat list"
  es_name :: string
  es_stream :: nat

text \<open>One turn of the description loop; invalid dimensions (a negative count or more than
  \<^verbatim>\<open>MAX_DIMS\<close>) are \<open>None\<close>.\<close>

definition describe :: "io_tensor \<Rightarrow> tensor_description result" where
  "describe t =
     (case io_name t of
        None \<Rightarrow> Inl ''engine has an unnamed I/O tensor''
      | Some name \<Rightarrow>
          if io_mode_of t = Io_none then Inl (tensor_error name '' has no input/output mode'')
          else case io_dims t of
            None \<Rightarrow> Inl (tensor_error name '' has invalid dimensions'')
          | Some dims \<Rightarrow>
              Inr \<lparr>td_name = name, td_input = (io_mode_of t = Io_input), td_shape = dims,
                   td_data_type = fst (tensor_type (io_type t)), component_bytes = snd (tensor_type (io_type t)),
                   td_device = io_on_device t, td_linear = (io_linear_format t \<and> io_vectorized_dim t = - 1)\<rparr>)"

fun describe_all :: "io_tensor list \<Rightarrow> tensor_description list result" where
  "describe_all [] = Inr []"
| "describe_all (t # ts) =
     (case describe t of
        Inl e \<Rightarrow> Inl e
      | Inr d \<Rightarrow> (case describe_all ts of Inl e \<Rightarrow> Inl e | Inr ds \<Rightarrow> Inr (d # ds)))"

text \<open>The destructor of the state.\<close>

definition release :: "engine_state \<Rightarrow> gpu \<Rightarrow> gpu" where
  "release s g = gpu_destroy_stream (es_stream s) (fold gpu_free (es_buffers s) g)"

definition unload :: "engine_state option \<times> gpu \<Rightarrow> engine_state option \<times> gpu" where
  "unload eg = (None, case fst eg of None \<Rightarrow> snd eg | Some s \<Rightarrow> release s (snd eg))"

fun allocate :: "engine_env \<Rightarrow> nat \<Rightarrow> tensor_info list \<Rightarrow> nat list \<Rightarrow> gpu \<Rightarrow> string option \<times> nat list \<times> gpu" where
  "allocate env i [] buffers g = (None, buffers, g)"
| "allocate env i (t # ts) buffers g =
     (case te_malloc env i of
        Some e \<Rightarrow>
          (Some (''cannot allocate CUDA buffer for tensor '' @ quoted (ti_name t) @ '' ('' @
                 to_string (unat (ti_bytes t)) @ '' bytes): '' @ e), buffers, g)
      | None \<Rightarrow>
          let (a, g1) = gpu_malloc (te_fill env i) (ti_bytes t) g in allocate env (i + 1) ts (buffers @ [a]) g1)"

definition engine_load ::
    "engine_env \<Rightarrow> string \<Rightarrow> engine_state option \<times> gpu \<Rightarrow> string option \<times> engine_state option \<times> gpu" where
  "engine_load env path eg =
     (let g = snd (unload eg) in
      case read_engine_file (te_file env) path of
        Inl e \<Rightarrow> (Some e, None, g)
      | Inr _ \<Rightarrow>
          if \<not> te_runtime env then (Some ''failed to create TensorRT runtime'', None, g)
          else case te_engine env of
            None \<Rightarrow>
              let detail = last_error_of (te_messages env) in
              (Some (''cannot deserialize TensorRT engine '' @ quoted path @
                 ''; it may be corrupt or incompatible with this TensorRT version, GPU, or plugins'' @
                 (if detail \<noteq> [] then '': '' @ detail else [])), None, g)
          | Some native \<Rightarrow>
              case describe_all (ne_tensors native) of
                Inl e \<Rightarrow> (Some e, None, g)
              | Inr ds \<Rightarrow>
                  case validate_tensor_layout ds of
                    Inl e \<Rightarrow> (Some (''incompatible TensorRT engine '' @ quoted path @ '': '' @ e), None, g)
                  | Inr tensors \<Rightarrow>
                      case te_stream env of
                        Some e \<Rightarrow> (Some (''cannot create CUDA stream for engine '' @ quoted path @ '': '' @ e), None, g)
                      | None \<Rightarrow>
                          let (stream, g1) = gpu_stream g;
                              (err, buffers, g2) = allocate env 0 tensors [] g1;
                              s = \<lparr>es_tensors = tensors, es_buffers = buffers,
                                   es_name = (case ne_name native of Some n \<Rightarrow> n | None \<Rightarrow> []), es_stream = stream\<rparr>
                          in case err of
                               Some e \<Rightarrow> (Some e, None, release s g2)
                             | None \<Rightarrow> (None, Some s, g2))"

definition engine_tensors :: "engine_state option \<Rightarrow> tensor_info list" where
  "engine_tensors e = (case e of None \<Rightarrow> [] | Some s \<Rightarrow> es_tensors s)"

definition engine_name :: "engine_state option \<Rightarrow> string" where
  "engine_name e = (case e of None \<Rightarrow> [] | Some s \<Rightarrow> es_name s)"

definition device_buffer :: "string \<Rightarrow> engine_state option \<Rightarrow> nat option" where
  "device_buffer name e =
     (case e of
        None \<Rightarrow> None
      | Some s \<Rightarrow> map_option (\<lambda>i. es_buffers s ! i) (index_where (\<lambda>t. ti_name t = name) (es_tensors s)))"

definition engine_stream :: "engine_state option \<Rightarrow> nat option" where
  "engine_stream e = map_option es_stream e"

definition version_text :: "nat \<Rightarrow> nat \<Rightarrow> nat \<Rightarrow> string" where
  "version_text major minor patch = to_string major @ ''.'' @ to_string minor @ ''.'' @ to_string patch"

section \<open>Ownership of device memory\<close>

text \<open>A device whose addresses and streams were all handed out before.\<close>

definition gpu_ok :: "gpu \<Rightarrow> bool" where
  "gpu_ok g \<longleftrightarrow> (\<forall>a \<in> fst ` set (gp_buffers g). a < gp_next g) \<and> (\<forall>s \<in> set (gp_streams g). s < gp_next g)"

text \<open>The engine owns one buffer for each tensor, of its size, and its stream.\<close>

definition owned_buffers :: "engine_state option \<Rightarrow> (nat \<times> u64) list" where
  "owned_buffers e = (case e of None \<Rightarrow> [] | Some s \<Rightarrow> zip (es_buffers s) (map ti_bytes (es_tensors s)))"

definition owned_streams :: "engine_state option \<Rightarrow> nat list" where
  "owned_streams e = (case e of None \<Rightarrow> [] | Some s \<Rightarrow> [es_stream s])"

text \<open>Everything alive on the device is either foreign or owned by the engine.\<close>

definition engine_owns :: "(nat \<times> u64) list \<Rightarrow> nat list \<Rightarrow> engine_state option \<times> gpu \<Rightarrow> bool" where
  "engine_owns bs ss eg \<longleftrightarrow>
     gpu_ok (snd eg) \<and> gp_buffers (snd eg) = bs @ owned_buffers (fst eg) \<and> gp_streams (snd eg) = ss @ owned_streams (fst eg) \<and>
     list_all (\<lambda>s. length (es_buffers s) = length (es_tensors s) \<and> set (es_buffers s) \<inter> fst ` set bs = {} \<and> es_stream s \<notin> set ss)
       (case fst eg of None \<Rightarrow> [] | Some s \<Rightarrow> [s])"

lemma fold_gpu_free:
  "fold gpu_free as g = g\<lparr>gp_buffers := filter (\<lambda>(b, n). b \<notin> set as) (gp_buffers g)\<rparr>"
proof (induction as arbitrary: g)
  case (Cons a as)
  then show ?case
    by (auto simp: gpu_free_def intro!: arg_cong [where f = "\<lambda>x. g\<lparr>gp_buffers := x\<rparr>"] filter_cong)
qed (simp add: filter_True case_prod_beta)

lemma release_eq:
  "release s g = g\<lparr>gp_buffers := filter (\<lambda>(b, n). b \<notin> set (es_buffers s)) (gp_buffers g),
     gp_streams := filter (\<lambda>t. t \<noteq> es_stream s) (gp_streams g)\<rparr>"
  by (simp add: release_def gpu_destroy_stream_def fold_gpu_free)

lemma filter_owned:
  "filter (\<lambda>(b, n). b \<notin> set as) (zip as ns) = []" "fst ` set bs \<inter> set as = {} \<Longrightarrow> filter (\<lambda>(b, n). b \<notin> set as) bs = bs"
  by (auto simp: filter_empty_conv filter_id_conv dest: set_zip_leftD)

lemma release_owned:
  assumes "engine_owns bs ss (Some s, g)"
  shows "engine_owns bs ss (None, release s g)"
  using assms filter_owned(1) [of "es_buffers s"] filter_owned(2) [of bs "es_buffers s"]
  by (auto simp: engine_owns_def release_eq owned_buffers_def owned_streams_def gpu_ok_def list_all_iff filter_id_conv Int_commute)

lemma unload_owned: "engine_owns bs ss eg \<Longrightarrow> engine_owns bs ss (unload eg)"
  using release_owned by (cases eg; cases "fst eg") (auto simp: unload_def)

lemma allocate_owned:
  assumes "allocate env i ts buffers g = (err, buffers', g')" and "gpu_ok g"
  shows "\<exists>new. buffers' = buffers @ new \<and> gpu_ok g' \<and> gp_streams g' = gp_streams g \<and> gp_next g \<le> gp_next g' \<and>
    gp_buffers g' = gp_buffers g @ zip new (map ti_bytes ts) \<and> length new \<le> length ts \<and>
    (\<forall>a \<in> set new. gp_next g \<le> a \<and> a < gp_next g') \<and> (err = None \<longrightarrow> length new = length ts)"
  using assms
proof (induction env i ts buffers g arbitrary: err buffers' g' rule: allocate.induct)
  case (1 env i buffers g)
  then show ?case by (intro exI [of _ "[]"]) simp
next
  case (2 env i t ts buffers g)
  show ?case
  proof (cases "te_malloc env i")
    case (Some e)
    then show ?thesis using 2(2,3) by (intro exI [of _ "[]"]) auto
  next
    case None
    obtain a g1 where m: "gpu_malloc (te_fill env i) (ti_bytes t) g = (a, g1)" by fastforce
    have g1: "a = gp_next g" "gpu_ok g1" "gp_streams g1 = gp_streams g" "gp_next g1 = gp_next g + 1"
      "gp_buffers g1 = gp_buffers g @ [(a, ti_bytes t)]"
      using m 2(3) by (fastforce simp: gpu_malloc_def gpu_ok_def less_Suc_eq)+
    have "allocate env (i + 1) ts (buffers @ [a]) g1 = (err, buffers', g')" using 2(2) None m by simp
    from 2(1) [OF None m [symmetric] refl this g1(2)] obtain new where
      "buffers' = (buffers @ [a]) @ new \<and> gpu_ok g' \<and> gp_streams g' = gp_streams g1 \<and> gp_next g1 \<le> gp_next g' \<and>
        gp_buffers g' = gp_buffers g1 @ zip new (map ti_bytes ts) \<and> length new \<le> length ts \<and>
        (\<forall>a \<in> set new. gp_next g1 \<le> a \<and> a < gp_next g') \<and> (err = None \<longrightarrow> length new = length ts)" by blast
    then show ?thesis using g1 by (intro exI [of _ "a # new"]) auto
  qed
qed

lemma gpu_stream_ok:
  "gpu_ok g \<Longrightarrow> gpu_stream g = (s, g1) \<Longrightarrow>
    s = gp_next g \<and> gpu_ok g1 \<and> gp_buffers g1 = gp_buffers g \<and> gp_streams g1 = gp_streams g @ [s] \<and> gp_next g \<le> gp_next g1"
  by (fastforce simp: gpu_stream_def gpu_ok_def less_Suc_eq)

lemma below_next:
  assumes "gpu_ok g"
  shows "a \<in> fst ` set (gp_buffers g) \<Longrightarrow> a < gp_next g" "t \<in> set (gp_streams g) \<Longrightarrow> t < gp_next g"
  using assms by (auto simp: gpu_ok_def)

text \<open>The last steps of a load, from a device on which the engine owns nothing.\<close>

lemma allocation_owned:
  assumes "engine_owns bs ss (None, g)" and "gpu_stream g = (stream, g1)"
    and "allocate env 0 tensors [] g1 = (err, buffers, g2)"
    and "s = \<lparr>es_tensors = tensors, es_buffers = buffers, es_name = name, es_stream = stream\<rparr>"
  shows "if err = None then engine_owns bs ss (Some s, g2) else engine_owns bs ss (None, release s g2)"
proof -
  have g: "gpu_ok g" "gp_buffers g = bs" "gp_streams g = ss"
    using assms(1) by (simp_all add: engine_owns_def owned_buffers_def owned_streams_def)
  note g1 = gpu_stream_ok [OF g(1) assms(2)]
  obtain new where new: "buffers = new" "gpu_ok g2" "gp_streams g2 = ss @ [stream]"
    "gp_buffers g2 = bs @ zip new (map ti_bytes tensors)" "\<forall>a \<in> set new. gp_next g1 \<le> a" "err = None \<longrightarrow> length new = length tensors"
    using allocate_owned [OF assms(3)] g1 g by auto
  have apart: "fst ` set bs \<inter> set new = {}" "stream \<notin> set ss"
    using below_next [OF g(1)] g new(5) g1 by fastforce+
  have drop: "filter (\<lambda>(b, n). b \<notin> set new) (bs @ zip new (map ti_bytes tensors)) = bs"
    "filter (\<lambda>t. t \<noteq> stream) (ss @ [stream]) = ss"
    using filter_owned(1) [of new] filter_owned(2) [OF apart(1)] apart(2) by (auto simp: filter_id_conv)
  show ?thesis
  proof (cases err)
    case None
    then show ?thesis
      using new apart by (auto simp: engine_owns_def owned_buffers_def owned_streams_def assms(4))
  next
    case (Some e)
    then show ?thesis
      using new g drop by (auto simp: engine_owns_def owned_buffers_def owned_streams_def assms(4) release_eq gpu_ok_def list_all_iff)
  qed
qed

text \<open>The buffer found for the name of a tensor.\<close>

definition buffers_found :: "engine_state option \<times> gpu \<Rightarrow> string \<Rightarrow> bool" where
  "buffers_found eg name \<longleftrightarrow>
     (case find (\<lambda>t. ti_name t = name) (engine_tensors (fst eg)) of
        None \<Rightarrow> device_buffer name (fst eg) = None
      | Some t \<Rightarrow> \<exists>a. device_buffer name (fst eg) = Some a \<and> (a, ti_bytes t) \<in> set (gp_buffers (snd eg)))"

lemma index_where_find:
  "case find P xs of None \<Rightarrow> index_where P xs = None | Some x \<Rightarrow> \<exists>i < length xs. index_where P xs = Some i \<and> xs ! i = x"
  by (induction xs) (auto split: option.splits)

lemma owned_buffers_found:
  assumes "engine_owns bs ss (e, g)"
  shows "buffers_found (e, g) name"
proof (cases e)
  case None
  then show ?thesis by (simp add: buffers_found_def engine_tensors_def device_buffer_def)
next
  case (Some s)
  have len: "length (es_buffers s) = length (es_tensors s)" and b: "gp_buffers g = bs @ zip (es_buffers s) (map ti_bytes (es_tensors s))"
    using assms Some by (auto simp: engine_owns_def owned_buffers_def)
  have "(es_buffers s ! i, ti_bytes (es_tensors s ! i)) \<in> set (gp_buffers g)" if "i < length (es_tensors s)" for i
    using that len unfolding b by (auto simp: in_set_zip)
  then show ?thesis
    using index_where_find [of "\<lambda>t. ti_name t = name" "es_tensors s"] Some
    by (auto simp: buffers_found_def engine_tensors_def device_buffer_def split: option.splits)
qed

text \<open>C38: loading an engine leaks nothing.  From any state of the device in which the engine owns its
  buffers and its stream, a load, wherever it fails, leaves exactly the foreign allocations and streams
  alive, the old engine's being released; when it succeeds there are, in addition, one buffer for every
  tensor, of the exact size of the tensor, and one stream, and looking a tensor up by its name finds
  its buffer.\<close>

theorem engine_load_leaks_nothing:
  assumes "engine_owns bs ss eg" and "engine_load env path eg = (err, e, g)"
  shows "engine_owns bs ss (e, g) \<and> (e = None \<longleftrightarrow> err \<noteq> None) \<and> buffers_found (e, g) name"
proof -
  have u: "engine_owns bs ss (None, snd (unload eg))"
    using unload_owned [OF assms(1)] by (simp add: unload_def)
  have "engine_owns bs ss (e, g) \<and> (e = None \<longleftrightarrow> err \<noteq> None)"
    using assms(2) u allocation_owned [OF u]
    by (auto simp: engine_load_def Let_def split: sum.splits option.splits if_splits prod.splits)
  then show ?thesis using owned_buffers_found by blast
qed

definition sample_io :: "string \<Rightarrow> io_mode \<Rightarrow> int list \<Rightarrow> io_tensor" where
  "sample_io name mode dims = \<lparr>io_name = Some name, io_mode_of = mode, io_dims = Some dims, io_type = K_FLOAT,
     io_on_device = True, io_linear_format = True, io_vectorized_dim = - 1\<rparr>"

definition sample_engine_env :: "(nat \<Rightarrow> string option) \<Rightarrow> engine_env" where
  "sample_engine_env malloc =
     \<lparr>te_file = \<lparr>ef_opens = True, ef_length = 1, ef_bytes = Some [0]\<rparr>, te_runtime = True, te_messages = [],
      te_engine = Some \<lparr>ne_tensors = [sample_io ''images'' Io_input [1, 3, 1, 2], sample_io ''output0'' Io_output [1, 5, 1]],
                        ne_name = None\<rparr>,
      te_stream = None, te_malloc = malloc, te_fill = (\<lambda>_ _. NaN)\<rparr>"

definition sample_gpu :: gpu where
  "sample_gpu = \<lparr>gp_next = 1, gp_buffers = [(0, 8)], gp_streams = [], gp_memory = (\<lambda>_. [])\<rparr>"

theorem engine_load_leaks_nothing_witness:
  "\<exists>e g err. engine_load (sample_engine_env (\<lambda>i. if i = 1 then Some ''out of memory'' else None)) ''e'' (None, sample_gpu) = (Some err, e, g) \<and>
     gp_buffers g = [(0, 8)] \<and> gp_streams g = []"
proof -
  let ?env = "sample_engine_env (\<lambda>i. if i = 1 then Some ''out of memory'' else None)"
  obtain err e g where l: "engine_load ?env ''e'' (None, sample_gpu) = (err, e, g)" by (cases "engine_load ?env ''e'' (None, sample_gpu)")
  have o: "engine_owns [(0, 8)] [] (None, sample_gpu)"
    by (simp add: engine_owns_def gpu_ok_def sample_gpu_def owned_buffers_def owned_streams_def)
  have "fst (engine_load ?env ''e'' (None, sample_gpu)) \<noteq> None" by code_simp
  then have "err \<noteq> None" using l by simp
  then show ?thesis
    using engine_load_leaks_nothing [OF o l] l
    by (auto simp: engine_owns_def owned_buffers_def owned_streams_def)
qed

end
