(* ===== verification/Yolo_Detector.thy ===== *)
theory Yolo_Detector
  imports Tensor_Rt Preprocess_Cuda Yolo_Inference
begin

text \<open>
  \<^verbatim>\<open>CudaPreprocessor::run\<close> of \<^verbatim>\<open>src/inference/preprocess_cuda.cu\<close>,
  \<^verbatim>\<open>src/inference/yolo_detector.cpp\<close> and \<^verbatim>\<open>src/inference/inference_backend.cpp\<close>: the
  detector on the GPU, from a frame to its detections.  The calls of CUDA and TensorRT are outcomes of an
  environment; what the network computes from its input tensor is the parameter \<open>ve_network\<close>, each
  element of the output from the whole input.  The
  result is the \<open>inference_outcome\<close> the inference module of \<open>Yolo_Inference\<close> works with.
\<close>

section \<open>CudaPreprocessor\<close>

record cuda_preprocessor =
  cp_staging :: "nat option"
  cp_staging_bytes :: nat
  cp_contents :: "u8 list"
  cp_start :: bool
  cp_end :: bool

definition new_preprocessor :: cuda_preprocessor where
  "new_preprocessor = \<lparr>cp_staging = None, cp_staging_bytes = 0, cp_contents = [], cp_start = False, cp_end = False\<rparr>"

record cuda_env =
  ce_malloc :: "string option"
  ce_fill :: "nat \<Rightarrow> u8"
  ce_start_event :: "string option"
  ce_end_event :: "string option"
  ce_record_start :: "string option"
  ce_upload_error :: "string option"
  ce_upload :: "u8 list \<Rightarrow> nat \<Rightarrow> nat \<Rightarrow> nat \<Rightarrow> u8 list \<Rightarrow> u8 list"
  ce_mix :: "fp \<Rightarrow> fp \<Rightarrow> fp \<Rightarrow> fp"
  ce_threads :: "preprocess_plan \<Rightarrow> (int \<times> int) list"
  ce_launch :: "string option"
  ce_record_end :: "string option"
  ce_sync :: "string option"
  ce_elapsed :: "string option"
  ce_gpu_ms :: fp
  ce_wall_ms :: fp

text \<open>\<open>Pre_undefined\<close> is an access out of bounds by the kernel.\<close>

datatype pre_result = Pre_done preprocess_plan | Pre_failed string | Pre_undefined

definition cuda_error :: "string \<Rightarrow> string \<Rightarrow> string" where
  "cuda_error operation e = operation @ '': '' @ e"

definition input_binding :: "string \<Rightarrow> tensor_info list \<Rightarrow> tensor_info option" where
  "input_binding name tensors = find (\<lambda>t. ti_name t = name \<and> ti_input t) tensors"

definition wrong_input :: "tensor_info \<Rightarrow> bool" where
  "wrong_input t \<longleftrightarrow>
     ti_data_type t \<noteq> ''FP32'' \<or> length (ti_shape t) \<noteq> 4 \<or> ti_shape t ! 0 \<noteq> 1 \<or> ti_shape t ! 1 \<noteq> 3 \<or>
     ti_shape t ! 2 > int_max \<or> ti_shape t ! 3 > int_max"

text \<open>The staging buffer grows to the size of the frame; its old memory is freed first.\<close>

definition grow_staging :: "cuda_env \<Rightarrow> nat \<Rightarrow> cuda_preprocessor \<times> gpu \<Rightarrow> string option \<times> cuda_preprocessor \<times> gpu" where
  "grow_staging env required cg =
     (let (cp, g) = cg in
      if required > cp_staging_bytes cp then
        let g1 = (case cp_staging cp of None \<Rightarrow> g | Some a \<Rightarrow> gpu_free a g);
            cp1 = cp\<lparr>cp_staging := None, cp_staging_bytes := 0, cp_contents := []\<rparr>
        in case ce_malloc env of
             Some e \<Rightarrow> (Some (cuda_error ''cannot allocate BGR CUDA staging buffer'' e), cp1, g1)
           | None \<Rightarrow>
               let (a, g2) = gpu_malloc (\<lambda>_. NaN) (of_nat required) g1
               in (None, cp1\<lparr>cp_staging := Some a, cp_staging_bytes := required,
                             cp_contents := map (ce_fill env) [0..<required]\<rparr>, g2)
      else (None, cp, g))"

definition make_events :: "cuda_env \<Rightarrow> cuda_preprocessor \<Rightarrow> string option \<times> cuda_preprocessor" where
  "make_events env cp =
     (if \<not> cp_start cp \<and> ce_start_event env \<noteq> None
      then (Some (cuda_error ''cannot create CUDA start event'' (the (ce_start_event env))), cp)
      else let cp1 = cp\<lparr>cp_start := True\<rparr> in
        if \<not> cp_end cp1 \<and> ce_end_event env \<noteq> None
        then (Some (cuda_error ''cannot create CUDA end event'' (the (ce_end_event env))), cp1)
        else (None, cp1\<lparr>cp_end := True\<rparr>))"

text \<open>From the recording of the start event to the measured time; the kernel writes the buffer
  \<open>out\<close> of the input tensor.\<close>

definition launch ::
    "cuda_env \<Rightarrow> bgr_image_view \<Rightarrow> preprocess_plan \<Rightarrow> nat \<Rightarrow> cuda_preprocessor \<Rightarrow> gpu \<Rightarrow> pre_result \<times> cuda_preprocessor \<times> gpu" where
  "launch env img plan out cp g =
     (case ce_record_start env of
        Some e \<Rightarrow> (Pre_failed (cuda_error ''cannot start CUDA timing'' e), cp, g)
      | None \<Rightarrow>
          case ce_upload_error env of
            Some e \<Rightarrow> (Pre_failed (cuda_error ''cannot upload BGR frame'' e), cp, g)
          | None \<Rightarrow>
              let cp1 = cp\<lparr>cp_contents := uploaded (ce_upload env) img (cp_contents cp)\<rparr> in
              case ce_launch env of
                Some e \<Rightarrow> (Pre_failed (cuda_error ''cannot launch CUDA preprocessing'' e), cp1, g)
              | None \<Rightarrow>
                  case preprocess_kernel (ce_mix env) (cp_contents cp1) (img_stride img) plan (ce_threads env plan) (gp_memory g out) of
                    None \<Rightarrow> (Pre_undefined, cp1, g)
                  | Some tensor \<Rightarrow>
                      let g1 = g\<lparr>gp_memory := (gp_memory g)(out := tensor)\<rparr> in
                      case ce_record_end env of
                        Some e \<Rightarrow> (Pre_failed (cuda_error ''cannot stop CUDA timing'' e), cp1, g1)
                      | None \<Rightarrow>
                          case ce_sync env of
                            Some e \<Rightarrow> (Pre_failed (cuda_error ''CUDA preprocessing did not complete'' e), cp1, g1)
                          | None \<Rightarrow>
                              case ce_elapsed env of
                                Some e \<Rightarrow> (Pre_failed (cuda_error ''cannot measure CUDA preprocessing'' e), cp1, g1)
                              | None \<Rightarrow> (Pre_done plan, cp1, g1))"

definition cuda_preprocess ::
    "cuda_env \<Rightarrow> bgr_image_view \<Rightarrow> engine_state option \<Rightarrow> string \<Rightarrow> cuda_preprocessor \<times> gpu \<Rightarrow>
     pre_result \<times> cuda_preprocessor \<times> gpu" where
  "cuda_preprocess env img e input_name cg =
     (let (cp, g) = cg in
      if e = None then (Pre_failed ''TensorRT engine is not loaded'', cp, g)
      else case input_binding input_name (engine_tensors e) of
        None \<Rightarrow> (Pre_failed (''TensorRT input tensor '' @ quoted input_name @ '' is unavailable''), cp, g)
      | Some binding \<Rightarrow>
          if wrong_input binding
          then (Pre_failed (''TensorRT input '' @ quoted input_name @ '' must be FP32 NCHW [1,3,H,W]''), cp, g)
          else case make_preprocess_plan img (ti_shape binding ! 3) (ti_shape binding ! 2) of
            Inl err \<Rightarrow> (Pre_failed err, cp, g)
          | Inr plan \<Rightarrow>
              case (device_buffer input_name e, engine_stream e) of
                (Some out, Some stream) \<Rightarrow>
                  let stride = nat (img_stride img); height = nat (img_height img) in
                  if height > size_max div stride then (Pre_failed ''BGR upload size overflow'', cp, g)
                  else (case grow_staging env (stride * height) (cp, g) of
                          (Some err, cp1, g1) \<Rightarrow> (Pre_failed err, cp1, g1)
                        | (None, cp1, g1) \<Rightarrow>
                            (case make_events env cp1 of
                               (Some err, cp2) \<Rightarrow> (Pre_failed err, cp2, g1)
                             | (None, cp2) \<Rightarrow> launch env img plan out cp2 g1))
              | _ \<Rightarrow> (Pre_failed ''TensorRT input buffer or CUDA stream is unavailable'', cp, g))"

section \<open>YoloDetector\<close>

definition valid_detector_config :: "yolo_postprocess_config \<Rightarrow> bool" where
  "valid_detector_config cfg \<longleftrightarrow>
     isfinite (confidence_threshold cfg) \<and> isfinite (nms_iou_threshold cfg) \<and>
     fp_le (Fin 0) (confidence_threshold cfg) \<and> fp_le (confidence_threshold cfg) (Fin 1) \<and>
     fp_le (Fin 0) (nms_iou_threshold cfg) \<and> fp_le (nms_iou_threshold cfg) (Fin 1) \<and> max_detections cfg > 0"

text \<open>The state of a loaded detector: the shape of its output and the host copy of it.\<close>

record detector_state =
  ds_channels :: int
  ds_candidates :: int
  ds_output :: "fp list"

record yolo_detector =
  yd_config :: yolo_postprocess_config
  yd_bootstrap :: bootstrap
  yd_engine :: "engine_state option"
  yd_pre :: cuda_preprocessor
  yd_state :: "detector_state option"
  yd_gpu :: gpu

definition new_detector :: "yolo_postprocess_config \<Rightarrow> gpu \<Rightarrow> yolo_detector" where
  "new_detector cfg g =
     \<lparr>yd_config = cfg, yd_bootstrap = \<lparr>bs_logger = new_trt_logger, bs_initialized = False\<rparr>, yd_engine = None,
      yd_pre = new_preprocessor, yd_state = None, yd_gpu = g\<rparr>"

record load_env =
  le_registered :: bool
  le_messages :: "(trt_severity \<times> string option) list"
  le_engine :: engine_env
  le_context :: bool
  le_bind_input :: bool
  le_bind_output :: bool
  le_start_event :: "string option"
  le_end_event :: "string option"

definition output_binding :: "string \<Rightarrow> tensor_info list \<Rightarrow> tensor_info option" where
  "output_binding name tensors = find (\<lambda>t. ti_name t = name \<and> \<not> ti_input t) tensors"

text \<open>The condition of the long \<^verbatim>\<open>if\<close>; the product is that of two \<^verbatim>\<open>size_t\<close> values
  below \<open>2 ^ 31\<close>.\<close>

definition yolo_shapes :: "tensor_info list \<Rightarrow> (tensor_info \<times> tensor_info) option" where
  "yolo_shapes tensors =
     (case (input_binding ''images'' tensors, output_binding ''output0'' tensors) of
        (Some i, Some out) \<Rightarrow>
          if length tensors \<noteq> 2 \<or> ti_data_type i \<noteq> ''FP32'' \<or> length (ti_shape i) \<noteq> 4 \<or>
             ti_shape i ! 0 \<noteq> 1 \<or> ti_shape i ! 1 \<noteq> 3 \<or> ti_shape i ! 2 \<le> 0 \<or> ti_shape i ! 3 \<le> 0 \<or>
             ti_shape i ! 2 > int_max \<or> ti_shape i ! 3 > int_max \<or>
             ti_data_type out \<noteq> ''FP32'' \<or> length (ti_shape out) \<noteq> 3 \<or> ti_shape out ! 0 \<noteq> 1 \<or> ti_shape out ! 1 \<le> 4 \<or>
             ti_shape out ! 2 \<le> 0 \<or> ti_shape out ! 1 > int_max \<or> ti_shape out ! 2 > int_max \<or>
             unat (ti_bytes out) div 4 \<noteq> nat (ti_shape out ! 1) * nat (ti_shape out ! 2)
          then None else Some (i, out)
      | _ \<Rightarrow> None)"

definition drop_engine :: "yolo_detector \<Rightarrow> yolo_detector" where
  "drop_engine d = (let (e, g) = unload (yd_engine d, yd_gpu d) in d\<lparr>yd_engine := e, yd_gpu := g\<rparr>)"

definition detector_load :: "load_env \<Rightarrow> string \<Rightarrow> yolo_detector \<Rightarrow> string option \<times> yolo_detector" where
  "detector_load env path d0 =
     (let d = drop_engine (d0\<lparr>yd_state := None\<rparr>) in
      if \<not> valid_detector_config (yd_config d)
      then (Some ''YOLO confidence/NMS threshold or max detections is invalid'', d)
      else case initialize_standard_plugins (le_registered env) (le_messages env) (yd_bootstrap d) of
        (Some e, b) \<Rightarrow> (Some e, d\<lparr>yd_bootstrap := b\<rparr>)
      | (None, b) \<Rightarrow>
          case engine_load (le_engine env) path (yd_engine d, yd_gpu d) of
            (Some e, en, g) \<Rightarrow> (Some e, d\<lparr>yd_bootstrap := b, yd_engine := en, yd_gpu := g\<rparr>)
          | (None, en, g) \<Rightarrow>
              let d1 = d\<lparr>yd_bootstrap := b, yd_engine := en, yd_gpu := g\<rparr> in
              case yolo_shapes (engine_tensors en) of
                None \<Rightarrow>
                  (Some (''YOLO engine must have FP32 images [1,3,H,W] and '' @ ''output0 [1,4+classes,candidates]''),
                   drop_engine d1)
              | Some (i, out) \<Rightarrow>
                  if \<not> le_context env \<or> \<not> le_bind_input env \<or> \<not> le_bind_output env
                  then (Some ''cannot create or bind YOLO TensorRT execution context'', drop_engine d1)
                  else case le_start_event env of
                    Some e \<Rightarrow> (Some (cuda_error ''cannot create inference start event'' e), drop_engine d1)
                  | None \<Rightarrow>
                      case le_end_event env of
                        Some e \<Rightarrow> (Some (cuda_error ''cannot create inference end event'' e), drop_engine d1)
                      | None \<Rightarrow>
                          (None, d1\<lparr>yd_state := Some \<lparr>ds_channels = ti_shape out ! 1, ds_candidates = ti_shape out ! 2,
                                     ds_output = replicate (unat (ti_bytes out) div 4) (Fin 0)\<rparr>\<rparr>))"

record run_env =
  ve_cuda :: cuda_env
  ve_record_start :: "string option"
  ve_enqueue :: bool
  ve_network :: "fp list \<Rightarrow> nat \<Rightarrow> fp"
  ve_record_end :: "string option"
  ve_copy :: "string option"
  ve_sync :: "string option"
  ve_elapsed :: "string option"
  ve_wall_ms :: fp
  ve_post_ms :: fp

datatype detect_result = Detect_done inference_outcome | Detect_undefined

definition view_of :: "detector_state \<Rightarrow> yolo_output_view" where
  "view_of s = \<lparr>out_data = Some (ds_output s), out_elements = length (ds_output s), out_channels = ds_channels s,
     out_candidates = ds_candidates s\<rparr>"

text \<open>The execution of the network on the stream and the copy of its output to the host; the first
  component is the error.\<close>

definition infer :: "run_env \<Rightarrow> detector_state \<Rightarrow> yolo_detector \<Rightarrow> string option \<times> detector_state" where
  "infer env s d =
     (case ve_record_start env of
        Some e \<Rightarrow> (Some (cuda_error ''cannot start inference timing'' e), s)
      | None \<Rightarrow>
          if \<not> ve_enqueue env then (Some ''YOLO TensorRT enqueueV3 failed'', s)
          else case ve_record_end env of
            Some e \<Rightarrow> (Some (cuda_error ''cannot stop inference timing'' e), s)
          | None \<Rightarrow>
              case ve_copy env of
                Some e \<Rightarrow> (Some (cuda_error ''cannot copy YOLO output to host'' e), s)
              | None \<Rightarrow>
                  let input = gp_memory (yd_gpu d) (the (device_buffer ''images'' (yd_engine d)));
                      s1 = s\<lparr>ds_output := map (ve_network env input) [0..<length (ds_output s)]\<rparr>
                  in case ve_sync env of
                       Some e \<Rightarrow> (Some (cuda_error ''YOLO inference did not complete'' e), s1)
                     | None \<Rightarrow>
                         (case ve_elapsed env of
                            Some e \<Rightarrow> (Some (cuda_error ''cannot measure YOLO inference'' e), s1)
                          | None \<Rightarrow> (None, s1)))"

definition detector_run :: "run_env \<Rightarrow> bgr_image_view \<Rightarrow> u64 \<Rightarrow> yolo_detector \<Rightarrow> detect_result \<times> yolo_detector" where
  "detector_run env img sequence d =
     (case yd_state d of
        None \<Rightarrow> (Detect_done (Inference_failed ''YOLO engine is not loaded''), d)
      | Some s \<Rightarrow>
          case cuda_preprocess (ve_cuda env) img (yd_engine d) ''images'' (yd_pre d, yd_gpu d) of
            (Pre_undefined, cp, g) \<Rightarrow> (Detect_undefined, d\<lparr>yd_pre := cp, yd_gpu := g\<rparr>)
          | (Pre_failed e, cp, g) \<Rightarrow> (Detect_done (Inference_failed e), d\<lparr>yd_pre := cp, yd_gpu := g\<rparr>)
          | (Pre_done plan, cp, g) \<Rightarrow>
              let d1 = d\<lparr>yd_pre := cp, yd_gpu := g\<rparr> in
              case infer env s d1 of
                (Some e, s1) \<Rightarrow> (Detect_done (Inference_failed e), d1\<lparr>yd_state := Some s1\<rparr>)
              | (None, s1) \<Rightarrow>
                  (case postprocess_yolo (view_of s1) plan (yd_config d1) sequence of
                     Inl e \<Rightarrow> (Detect_done (Inference_failed e), d1\<lparr>yd_state := Some s1\<rparr>)
                   | Inr r \<Rightarrow>
                       (Detect_done (Inferred r \<lparr>it_preprocess_wall_ms = ce_wall_ms (ve_cuda env),
                          it_inference_wall_ms = ve_wall_ms env, it_postprocess_wall_ms = ve_post_ms env\<rparr>),
                        d1\<lparr>yd_state := Some s1\<rparr>)))"

text \<open>\<^verbatim>\<open>TensorRtBackend\<close>: the detector with the thresholds of the configuration, narrowed to
  \<^verbatim>\<open>float\<close>, and at most 300 detections.\<close>

definition backend_config :: "detector_config \<Rightarrow> yolo_postprocess_config" where
  "backend_config c =
     \<lparr>confidence_threshold = fp_narrow (dc_confidence c), nms_iou_threshold = fp_narrow (dc_nms c), max_detections = 300\<rparr>"

definition make_inference_backend :: "bool \<Rightarrow> detector_config \<Rightarrow> gpu \<Rightarrow> yolo_detector option" where
  "make_inference_backend built c g = (if built then Some (new_detector (backend_config c) g) else None)"

section \<open>The buffers of a loaded engine\<close>

lemma allocate_memory:
  assumes "allocate env i ts buffers g = (None, buffers', g')"
  shows "\<exists>new. buffers' = buffers @ new \<and> length new = length ts \<and> gp_next g \<le> gp_next g' \<and>
    (\<forall>a < gp_next g. gp_memory g' a = gp_memory g a) \<and>
    (\<forall>k < length ts. new ! k < gp_next g' \<and> length (gp_memory g' (new ! k)) = unat (ti_bytes (ts ! k)) div 4)"
  using assms
proof (induction env i ts buffers g arbitrary: buffers' g' rule: allocate.induct)
  case (2 env i t ts buffers g)
  obtain a g1 where m: "gpu_malloc (te_fill env i) (ti_bytes t) g = (a, g1)" by fastforce
  have none: "te_malloc env i = None" using 2(2) by (auto split: option.splits)
  then have "allocate env (i + 1) ts (buffers @ [a]) g1 = (None, buffers', g')" using 2(2) m by simp
  from 2(1) [OF none m [symmetric] refl this] obtain new where
    new: "buffers' = (buffers @ [a]) @ new" "length new = length ts" "gp_next g1 \<le> gp_next g'"
      "\<forall>b < gp_next g1. gp_memory g' b = gp_memory g1 b"
      "\<forall>k < length ts. new ! k < gp_next g' \<and> length (gp_memory g' (new ! k)) = unat (ti_bytes (ts ! k)) div 4"
    by blast
  have g1: "a = gp_next g" "gp_next g1 = gp_next g + 1" "length (gp_memory g1 a) = unat (ti_bytes t) div 4"
    "\<forall>b < gp_next g. gp_memory g1 b = gp_memory g b"
    using m by (auto simp: gpu_malloc_def)
  have "gp_memory g' a = gp_memory g1 a" "\<forall>b < gp_next g. gp_memory g' b = gp_memory g b" using new(4) g1 by simp_all
  then show ?case
    using new(1-3,5) g1 by (intro exI [of _ "a # new"]) (auto simp: nth_Cons split: nat.splits)
qed simp

text \<open>TensorRT reports dimensions as 64-bit integers.\<close>

definition int64_dims :: "engine_env \<Rightarrow> bool" where
  "int64_dims env \<longleftrightarrow>
     (case te_engine env of
        None \<Rightarrow> True
      | Some n \<Rightarrow> list_all (\<lambda>t. case io_dims t of None \<Rightarrow> True | Some ds \<Rightarrow> list_all (\<lambda>d. - (2 ^ 63) \<le> d \<and> d < 2 ^ 63) ds) (ne_tensors n))"

lemma describe_tensor:
  assumes "describe t = Inr d"
  shows "io_dims t = Some (td_shape d)" "td_data_type d = ''FP32'' \<Longrightarrow> component_bytes d = 4"
  using assms by (auto simp: describe_def split: option.splits if_splits) (cases "io_type t"; simp)

lemma describe_all_from: "describe_all ts = Inr ds \<Longrightarrow> d \<in> set ds \<Longrightarrow> \<exists>t \<in> set ts. describe t = Inr d"
  by (induction ts arbitrary: ds) (auto split: sum.splits)

lemma engine_load_success:
  assumes "engine_load env path eg = (None, e, g)"
  obtains s n ds where "e = Some s" "te_engine env = Some n" "describe_all (ne_tensors n) = Inr ds"
    "validate_tensor_layout ds = Inr (es_tensors s)" "length (es_buffers s) = length (es_tensors s)"
    "\<forall>k < length (es_tensors s). es_buffers s ! k < gp_next g \<and>
        length (gp_memory g (es_buffers s ! k)) = unat (ti_bytes (es_tensors s ! k)) div 4"
proof -
  obtain n ds ts stream g1 buffers name where n: "te_engine env = Some n" "describe_all (ne_tensors n) = Inr ds"
    "validate_tensor_layout ds = Inr ts" "allocate env 0 ts [] g1 = (None, buffers, g)"
    "e = Some \<lparr>es_tensors = ts, es_buffers = buffers, es_name = name, es_stream = stream\<rparr>"
    using assms by (auto simp: engine_load_def Let_def split: sum.splits option.splits if_splits prod.splits)
  from allocate_memory [OF n(4)] that n show thesis by auto
qed

lemma loaded_int64:
  assumes "te_engine env = Some n" "describe_all (ne_tensors n) = Inr ds" and "int64_dims env"
  shows "list_all int64_shape ds"
proof -
  have "int64_shape d" if d: "d \<in> set ds" for d
  proof -
    obtain io where "io \<in> set (ne_tensors n)" "io_dims io = Some (td_shape d)"
      using describe_all_from [OF assms(2) d] describe_tensor(1) by blast
    then show ?thesis using assms(1,3) by (auto simp: int64_dims_def int64_shape_def list_all_iff split: option.splits)
  qed
  then show ?thesis by (simp add: list_all_iff)
qed

lemma loaded_tensor_size:
  assumes "te_engine env = Some n" "describe_all (ne_tensors n) = Inr ds" "validate_tensor_layout ds = Inr ts"
    and "int64_dims env" and "t \<in> set ts" and "ti_data_type t = ''FP32''"
  shows "int (unat (ti_bytes t)) = 4 * prod_list (ti_shape t)"
proof -
  have acc: "list_all usable ds" "ts = map info_of ds"
    using accepted_layout [OF loaded_int64 [OF assms(1,2,4)] assms(3)] by simp_all
  then obtain d where d: "d \<in> set ds" "t = info_of d" "usable d" using assms(5) by (auto simp: list_all_iff)
  then have "component_bytes d = 4"
    using describe_all_from [OF assms(2) d(1)] describe_tensor(2) assms(6) by (auto simp: info_of_def)
  then show ?thesis using info_of_bytes [OF d(3)] d(2) by (simp add: exact_bytes_def info_of_def)
qed

lemma loaded_names_distinct:
  assumes "te_engine env = Some n" "describe_all (ne_tensors n) = Inr ds" "validate_tensor_layout ds = Inr ts" "int64_dims env"
  shows "distinct (map ti_name ts)"
  using accepted_layout [OF loaded_int64 [OF assms(1,2,4)] assms(3)] by blast

text \<open>The input buffer of an engine with the shapes of the network holds exactly its input tensor.\<close>

definition input_ready :: "engine_state option \<Rightarrow> gpu \<Rightarrow> tensor_info \<Rightarrow> nat \<Rightarrow> bool" where
  "input_ready e g i a \<longleftrightarrow>
     device_buffer ''images'' e = Some a \<and> a < gp_next g \<and>
     length (gp_memory g a) = nat (ti_shape i ! 3) * nat (ti_shape i ! 2) * 3"

lemma find_distinct:
  assumes "distinct (map f xs)" "x \<in> set xs"
  shows "find (\<lambda>y. f y = f x) xs = Some x"
  using assms by (induction xs) (auto simp: image_iff)

lemma shape_product:
  fixes ds :: "int list"
  assumes "length ds = 4" "ds ! 0 = 1" "ds ! 1 = 3"
  shows "prod_list ds = 3 * (ds ! 2 * ds ! 3)"
  using assms by (auto simp: numeral_eq_Suc length_Suc_conv)

lemma yolo_shapesD:
  assumes "yolo_shapes tensors = Some (i, out)"
  shows "input_binding ''images'' tensors = Some i" "output_binding ''output0'' tensors = Some out"
    "i \<in> set tensors" "ti_name i = ''images''" "ti_data_type i = ''FP32''" "\<not> wrong_input i" "length (ti_shape i) = 4"
    "ti_shape i ! 0 = 1" "ti_shape i ! 1 = 3" "0 < ti_shape i ! 2" "0 < ti_shape i ! 3" "ti_shape i ! 2 \<le> int_max"
    "ti_shape i ! 3 \<le> int_max" "unat (ti_bytes out) div 4 = nat (ti_shape out ! 1) * nat (ti_shape out ! 2)"
  using assms
  by (auto simp: yolo_shapes_def input_binding_def wrong_input_def find_Some_iff split: option.splits if_splits)

lemma loaded_input_ready:
  assumes "engine_load env path eg = (None, e, g)" and "int64_dims env"
    and "yolo_shapes (engine_tensors e) = Some (i, out)"
  shows "\<exists>a. input_ready e g i a"
proof -
  obtain s n ds where s: "e = Some s" "te_engine env = Some n" "describe_all (ne_tensors n) = Inr ds"
    "validate_tensor_layout ds = Inr (es_tensors s)" "length (es_buffers s) = length (es_tensors s)"
    "\<forall>k < length (es_tensors s). es_buffers s ! k < gp_next g \<and>
        length (gp_memory g (es_buffers s ! k)) = unat (ti_bytes (es_tensors s ! k)) div 4"
    by (rule engine_load_success [OF assms(1)])
  note y = yolo_shapesD [OF assms(3)]
  have i: "i \<in> set (es_tensors s)" using y(3) s(1) by (simp add: engine_tensors_def)
  have "find (\<lambda>t. ti_name t = ''images'') (es_tensors s) = Some i"
    using find_distinct [OF loaded_names_distinct [OF s(2-4) assms(2)] i] y(4) by simp
  then obtain k where k: "k < length (es_tensors s)" "index_where (\<lambda>t. ti_name t = ''images'') (es_tensors s) = Some k"
    "es_tensors s ! k = i"
    using index_where_find [of "\<lambda>t. ti_name t = ''images''" "es_tensors s"] by auto
  have "int (unat (ti_bytes i)) = int (4 * (nat (ti_shape i ! 3) * nat (ti_shape i ! 2) * 3))"
    using loaded_tensor_size [OF s(2-4) assms(2) i y(5)] shape_product [OF y(7-9)] y(10,11) by simp
  then have "unat (ti_bytes i) = 4 * (nat (ti_shape i ! 3) * nat (ti_shape i ! 2) * 3)" by (simp only: of_nat_eq_iff)
  then show ?thesis using s k by (intro exI [of _ "es_buffers s ! k"]) (auto simp: input_ready_def device_buffer_def)
qed

section \<open>Preprocessing on the device\<close>

text \<open>What is assumed of a run: the kernel's arithmetic is not contracted, the upload copies the rows, every
  thread of the grid runs, and the frame's buffer has the size it claims.\<close>

definition cuda_ok :: "cuda_env \<Rightarrow> bool" where
  "cuda_ok env \<longleftrightarrow> ce_mix env = plain_mix \<and> copies_rows (ce_upload env) \<and>
     (\<forall>plan. set (ce_threads env plan) = set (grid_threads plan))"

definition image_ok :: "bgr_image_view \<Rightarrow> bool" where
  "image_ok img \<longleftrightarrow> img_height img \<le> int_max \<and>
     (case img_data img of None \<Rightarrow> True | Some bytes \<Rightarrow> length bytes = img_bytes img)"

definition staging_ok :: "cuda_preprocessor \<Rightarrow> bool" where
  "staging_ok cp \<longleftrightarrow> length (cp_contents cp) = cp_staging_bytes cp"

lemma grow_staging_effect:
  assumes "grow_staging env required (cp, g) = (err, cp1, g1)" and "staging_ok cp"
  shows "staging_ok cp1 \<and> gp_next g \<le> gp_next g1 \<and> (\<forall>a < gp_next g. gp_memory g1 a = gp_memory g a) \<and>
    (err = None \<longrightarrow> required \<le> length (cp_contents cp1))"
  using assms
  by (auto simp: grow_staging_def staging_ok_def gpu_malloc_def gpu_free_def Let_def split: if_splits option.splits)

lemma make_events_effect:
  "make_events env cp = (err, cp1) \<Longrightarrow> cp_contents cp1 = cp_contents cp \<and> cp_staging_bytes cp1 = cp_staging_bytes cp"
  by (auto simp: make_events_def Let_def split: if_splits)

lemma plan_of_valid_image:
  assumes "make_preprocess_plan img tw th = Inr plan"
  obtains bytes where "img_data img = Some bytes" "nat (img_width img) * 3 \<le> nat (img_stride img)"
proof -
  have "validate_image img = Inr ()"
    using assms by (auto simp: make_preprocess_plan_def split: sum.splits)
  then show thesis using that by (auto simp: validate_image_def Let_def split: if_splits)
qed

lemma kernel_thread_length: "kernel_thread mix source stride plan xy out = Some out' \<Longrightarrow> length out' = length out"
  by (auto simp: kernel_thread_def write_at_def Let_def bind_eq_Some_conv split: prod.splits if_splits)

lemma preprocess_kernel_length:
  "preprocess_kernel mix source stride plan threads out = Some out' \<Longrightarrow> length out' = length out"
  unfolding preprocess_kernel_def
  by (induction threads arbitrary: out) (auto simp: bind_eq_Some_conv dest: kernel_thread_length)

text \<open>The buffer \<open>a\<close> keeps its size, and after a success it holds the tensor of the CPU routine.\<close>

definition preprocessed :: "bgr_image_view \<Rightarrow> tensor_info \<Rightarrow> nat \<Rightarrow> gpu \<Rightarrow> pre_result \<times> cuda_preprocessor \<times> gpu \<Rightarrow> bool" where
  "preprocessed img i a g result \<longleftrightarrow>
     (let (r, cp', g') = result in
      r \<noteq> Pre_undefined \<and> staging_ok cp' \<and> gp_next g \<le> gp_next g' \<and> length (gp_memory g' a) = length (gp_memory g a) \<and>
      (case r of
         Pre_done plan \<Rightarrow>
           make_preprocess_plan img (ti_shape i ! 3) (ti_shape i ! 2) = Inr plan \<and>
           preprocess_cpu img plan = Inr (Some (gp_memory g' a))
       | _ \<Rightarrow> True))"

lemma launch_preprocessed:
  assumes "cuda_ok env" "image_ok img" "staging_ok cp"
    and "nat (img_stride img) * nat (img_height img) \<le> length (cp_contents cp)"
    and "make_preprocess_plan img (ti_shape i ! 3) (ti_shape i ! 2) = Inr plan"
    and "ti_shape i ! 2 \<le> int_max" "ti_shape i ! 3 \<le> int_max"
    and "length (gp_memory g a) = nat (ti_shape i ! 3) * nat (ti_shape i ! 2) * 3"
  shows "preprocessed img i a g (launch env img plan a cp g)"
proof -
  obtain bytes where bytes: "img_data img = Some bytes" "nat (img_width img) * 3 \<le> nat (img_stride img)"
    by (rule plan_of_valid_image [OF assms(5)])
  have up: "length (uploaded (ce_upload env) img (cp_contents cp)) = length (cp_contents cp)"
    using assms(1,4) bytes(2) unfolding cuda_ok_def copies_rows_def by (simp add: mult.commute)
  obtain tensor where t: "preprocess_kernel (ce_mix env) (uploaded (ce_upload env) img (cp_contents cp)) (img_stride img) plan
      (ce_threads env plan) (gp_memory g a) = Some tensor" "preprocess_cpu img plan = Inr (Some tensor)"
    using cuda_cpu_tensor [OF assms(5) bytes(1) _ _ assms(7,6) _ assms(4) _ assms(8), of "ce_upload env" "ce_threads env plan"]
      assms(1,2) bytes(1) by (auto simp: cuda_ok_def image_ok_def)
  have len: "length tensor = length (gp_memory g a)" by (rule preprocess_kernel_length [OF t(1)])
  show ?thesis
    using t len up assms(3,5)
    by (auto simp: launch_def preprocessed_def staging_ok_def Let_def split: option.splits)
qed

lemma preprocessed_later:
  assumes "preprocessed img i a g1 r" and "gp_next g \<le> gp_next g1" and "gp_memory g1 a = gp_memory g a"
  shows "preprocessed img i a g r"
  using assms by (auto simp: preprocessed_def Let_def split: prod.splits)

lemma cuda_preprocess_correct:
  assumes "cuda_ok env" "image_ok img" "staging_ok cp"
    and "yolo_shapes (engine_tensors e) = Some (i, out)" and "input_ready e g i a"
  shows "preprocessed img i a g (cuda_preprocess env img e ''images'' (cp, g))"
proof -
  have failed: "preprocessed img i a g (Pre_failed err, cp, g)" for err using assms(3) by (simp add: preprocessed_def)
  note y = yolo_shapesD [OF assms(4)]
  have a: "device_buffer ''images'' e = Some a" "a < gp_next g"
    "length (gp_memory g a) = nat (ti_shape i ! 3) * nat (ti_shape i ! 2) * 3"
    using assms(5) by (simp_all add: input_ready_def)
  have e: "e \<noteq> None" "\<exists>stream. engine_stream e = Some stream"
    using a(1) by (auto simp: device_buffer_def engine_stream_def split: option.splits)
  let ?required = "nat (img_stride img) * nat (img_height img)"
  have rest: "preprocessed img i a g
      (case grow_staging env ?required (cp, g) of
         (Some err, cp1, g1) \<Rightarrow> (Pre_failed err, cp1, g1)
       | (None, cp1, g1) \<Rightarrow>
           (case make_events env cp1 of
              (Some err, cp2) \<Rightarrow> (Pre_failed err, cp2, g1)
            | (None, cp2) \<Rightarrow> launch env img plan a cp2 g1))"
    if plan: "make_preprocess_plan img (ti_shape i ! 3) (ti_shape i ! 2) = Inr plan" for plan
  proof -
    obtain err cp1 g1 where gs: "grow_staging env ?required (cp, g) = (err, cp1, g1)" by (cases "grow_staging env ?required (cp, g)")
    note g1 = grow_staging_effect [OF gs assms(3)]
    obtain err2 cp2 where me: "make_events env cp1 = (err2, cp2)" by fastforce
    note cp2 = make_events_effect [OF me]
    have st: "staging_ok cp2" using g1 cp2 by (simp add: staging_ok_def)
    have mem: "gp_memory g1 a = gp_memory g a" using g1 a(2) by simp
    have "preprocessed img i a g1 (launch env img plan a cp2 g1)" if "err = None"
      by (rule launch_preprocessed [OF assms(1,2) st _ plan y(12,13)]) (use g1 cp2 that mem a(3) in simp_all)
    then show ?thesis
      using gs me g1 st mem preprocessed_later [of img i a g1 _ g]
      by (auto simp: preprocessed_def split: option.splits)
  qed
  obtain stream where stream: "engine_stream e = Some stream" using e(2) by blast
  show ?thesis
    using failed rest e(1) y(1,6) a(1) stream
    by (auto simp: cuda_preprocess_def Let_def split: sum.splits)
qed

section \<open>The detector\<close>

definition detector_inv :: "yolo_postprocess_config \<Rightarrow> yolo_detector \<Rightarrow> bool" where
  "detector_inv cfg d \<longleftrightarrow>
     yd_config d = cfg \<and> staging_ok (yd_pre d) \<and>
     (case yd_state d of
        None \<Rightarrow> True
      | Some s \<Rightarrow>
          \<exists>i out a. yolo_shapes (engine_tensors (yd_engine d)) = Some (i, out) \<and> input_ready (yd_engine d) (yd_gpu d) i a \<and>
            ds_channels s = ti_shape out ! 1 \<and> ds_candidates s = ti_shape out ! 2 \<and>
            length (ds_output s) = nat (ti_shape out ! 1) * nat (ti_shape out ! 2))"

lemma drop_engine_inv: "yd_state d = None \<Longrightarrow> detector_inv cfg d \<Longrightarrow> detector_inv cfg (drop_engine d)"
  by (simp add: detector_inv_def drop_engine_def Let_def split: prod.splits)

lemma detector_load_inv:
  assumes "detector_inv cfg d" and "int64_dims (le_engine env)"
  shows "detector_inv cfg (snd (detector_load env path d))"
proof -
  have keep: "detector_inv cfg d' \<Longrightarrow> yd_state d' = None \<Longrightarrow>
      detector_inv cfg (d'\<lparr>yd_bootstrap := b\<rparr>) \<and> detector_inv cfg (d'\<lparr>yd_bootstrap := b, yd_engine := e, yd_gpu := g\<rparr>) \<and>
      yd_state (d'\<lparr>yd_bootstrap := b, yd_engine := e, yd_gpu := g\<rparr>) = None" for d' b e g
    by (simp add: detector_inv_def)
  define d1 where "d1 = drop_engine (d\<lparr>yd_state := None\<rparr>)"
  have d1: "detector_inv cfg d1" "yd_state d1 = None"
    using assms(1) by (simp_all add: d1_def drop_engine_def detector_inv_def Let_def split: prod.splits)
  obtain ep b where plugins: "initialize_standard_plugins (le_registered env) (le_messages env) (yd_bootstrap d1) = (ep, b)" by fastforce
  obtain err e g where load: "engine_load (le_engine env) path (yd_engine d1, yd_gpu d1) = (err, e, g)"
    by (cases "engine_load (le_engine env) path (yd_engine d1, yd_gpu d1)")
  let ?d2 = "d1\<lparr>yd_bootstrap := b, yd_engine := e, yd_gpu := g\<rparr>"
  note k = keep [OF d1, where b = b and e = e and g = g]
  have ready: "detector_inv cfg (?d2\<lparr>yd_state := Some \<lparr>ds_channels = ti_shape out ! 1, ds_candidates = ti_shape out ! 2,
      ds_output = replicate (unat (ti_bytes out) div 4) (Fin 0)\<rparr>\<rparr>)"
    if s: "err = None" "yolo_shapes (engine_tensors e) = Some (i, out)" for i out
  proof -
    obtain a where "input_ready e g i a" using loaded_input_ready [of "le_engine env" path _ e g] load s assms(2) by blast
    then show ?thesis using s(2) d1(1) yolo_shapesD(14) [OF s(2)] by (auto simp: detector_inv_def)
  qed
  have "detector_inv cfg (drop_engine ?d2)" using drop_engine_inv k by blast
  then show ?thesis
    unfolding detector_load_def d1_def [symmetric] Let_def plugins
    using d1 k ready load by (auto split: option.splits)
qed

lemma infer_output:
  assumes "infer env s d = (err, s1)"
  shows "ds_channels s1 = ds_channels s \<and> ds_candidates s1 = ds_candidates s \<and> length (ds_output s1) = length (ds_output s) \<and>
    (err = None \<longrightarrow> ds_output s1 = map (ve_network env (gp_memory (yd_gpu d) (the (device_buffer ''images'' (yd_engine d)))))
       [0..<length (ds_output s)])"
  using assms by (auto simp: infer_def Let_def split: option.splits if_splits)

text \<open>What a run answers for a detector with engine \<open>e\<close>: a detection result is the postprocessing of what the
  network computes from the CPU routine's tensor of the frame.\<close>

definition reference_result ::
    "run_env \<Rightarrow> yolo_postprocess_config \<Rightarrow> engine_state option \<Rightarrow> bgr_image_view \<Rightarrow> u64 \<Rightarrow> detection_result \<Rightarrow> bool" where
  "reference_result env cfg e img sequence r \<longleftrightarrow>
     (\<exists>i out plan tensor n.
        yolo_shapes (engine_tensors e) = Some (i, out) \<and>
        make_preprocess_plan img (ti_shape i ! 3) (ti_shape i ! 2) = Inr plan \<and>
        preprocess_cpu img plan = Inr (Some tensor) \<and>
        n = nat (ti_shape out ! 1) * nat (ti_shape out ! 2) \<and>
        postprocess_yolo \<lparr>out_data = Some (map (ve_network env tensor) [0..<n]), out_elements = n,
          out_channels = ti_shape out ! 1, out_candidates = ti_shape out ! 2\<rparr> plan cfg sequence = Inr r)"

lemma detector_run_inv:
  assumes "detector_inv cfg d" "cuda_ok (ve_cuda env)" "image_ok img" "detector_run env img sequence d = (result, d')"
  shows "detector_inv cfg d' \<and> yd_engine d' = yd_engine d \<and> result \<noteq> Detect_undefined \<and>
    (case result of Detect_done (Inferred r t) \<Rightarrow> reference_result env cfg (yd_engine d) img sequence r | _ \<Rightarrow> True)"
proof (cases "yd_state d")
  case None
  then show ?thesis using assms(1,4) by (auto simp: detector_run_def)
next
  case (Some s)
  have cfg: "yd_config d = cfg" "staging_ok (yd_pre d)" using assms(1) by (simp_all add: detector_inv_def)
  obtain i out a where i: "yolo_shapes (engine_tensors (yd_engine d)) = Some (i, out)"
    "input_ready (yd_engine d) (yd_gpu d) i a" "ds_channels s = ti_shape out ! 1" "ds_candidates s = ti_shape out ! 2"
    "length (ds_output s) = nat (ti_shape out ! 1) * nat (ti_shape out ! 2)"
    using assms(1) Some by (auto simp: detector_inv_def)
  obtain r cp g where run: "cuda_preprocess (ve_cuda env) img (yd_engine d) ''images'' (yd_pre d, yd_gpu d) = (r, cp, g)"
    by (cases "cuda_preprocess (ve_cuda env) img (yd_engine d) ''images'' (yd_pre d, yd_gpu d)")
  have pre: "r \<noteq> Pre_undefined" "staging_ok cp" "input_ready (yd_engine d) g i a"
    "r = Pre_done plan \<Longrightarrow> make_preprocess_plan img (ti_shape i ! 3) (ti_shape i ! 2) = Inr plan \<and>
       preprocess_cpu img plan = Inr (Some (gp_memory g a))" for plan
    using cuda_preprocess_correct [OF assms(2,3) cfg(2) i(1,2)] i(2) run
    by (auto simp: preprocessed_def input_ready_def)
  let ?d1 = "d\<lparr>yd_pre := cp, yd_gpu := g\<rparr>"
  obtain err s1 where inf: "infer env s ?d1 = (err, s1)" by fastforce
  note s1 = infer_output [OF inf]
  have inv: "detector_inv cfg (?d1\<lparr>yd_state := Some s1\<rparr>)" "detector_inv cfg ?d1"
    using cfg(1) pre(2,3) i s1 Some by (auto simp: detector_inv_def)
  have out: "err = None \<Longrightarrow> view_of s1 = \<lparr>out_data = Some (map (ve_network env (gp_memory g a)) [0..<nat (ti_shape out ! 1) * nat (ti_shape out ! 2)]),
      out_elements = nat (ti_shape out ! 1) * nat (ti_shape out ! 2), out_channels = ti_shape out ! 1, out_candidates = ti_shape out ! 2\<rparr>"
    using s1 i pre(3) by (simp add: view_of_def input_ready_def)
  have ref: "reference_result env cfg (yd_engine d) img sequence x"
    if "r = Pre_done plan" "err = None" "postprocess_yolo (view_of s1) plan cfg sequence = Inr x" for plan x
    using that pre(4) i(1) out unfolding reference_result_def by auto
  show ?thesis
    using assms(4) Some run inf inv pre(1) ref cfg(1)
    by (auto simp: detector_run_def Let_def split: pre_result.splits option.splits sum.splits)
qed

text \<open>The calls of the inference module on its backend.\<close>

datatype detector_call =
    Call_load load_env string
  | Call_run run_env bgr_image_view u64

fun detector_step :: "detector_call \<Rightarrow> yolo_detector \<Rightarrow> yolo_detector" where
  "detector_step (Call_load env path) d = snd (detector_load env path d)"
| "detector_step (Call_run env img sequence) d = snd (detector_run env img sequence d)"

fun call_ok :: "detector_call \<Rightarrow> bool" where
  "call_ok (Call_load env path) = int64_dims (le_engine env)"
| "call_ok (Call_run env img sequence) = (cuda_ok (ve_cuda env) \<and> image_ok img)"

lemma detector_steps_inv:
  "detector_inv cfg d \<Longrightarrow> list_all call_ok cs \<Longrightarrow> detector_inv cfg (fold detector_step cs d)"
proof (induction cs arbitrary: d)
  case (Cons c cs)
  have "detector_inv cfg (detector_step c d)"
  proof (cases c)
    case (Call_load env path)
    then show ?thesis using Cons.prems detector_load_inv by simp
  next
    case (Call_run env img sequence)
    then show ?thesis
      using Cons.prems detector_run_inv [of cfg d env img sequence] by (cases "detector_run env img sequence d") auto
  qed
  then show ?case using Cons by simp
qed simp


definition sample_cuda :: cuda_env where
  "sample_cuda =
     \<lparr>ce_malloc = None, ce_fill = (\<lambda>_. 0), ce_start_event = None, ce_end_event = None, ce_record_start = None,
      ce_upload_error = None, ce_upload = copy_rows_2d, ce_mix = plain_mix, ce_threads = grid_threads, ce_launch = None,
      ce_record_end = None, ce_sync = None, ce_elapsed = None, ce_gpu_ms = Fin 1, ce_wall_ms = Fin 1\<rparr>"

definition sample_run_env :: run_env where
  "sample_run_env =
     \<lparr>ve_cuda = sample_cuda, ve_record_start = None, ve_enqueue = True, ve_network = (\<lambda>tensor i. if i < 4 then Fin 1 else tensor ! 0),
      ve_record_end = None, ve_copy = None, ve_sync = None, ve_elapsed = None, ve_wall_ms = Fin 1, ve_post_ms = Fin 1\<rparr>"

definition sample_load_env :: load_env where
  "sample_load_env =
     \<lparr>le_registered = True, le_messages = [], le_engine = sample_engine_env (\<lambda>_. None), le_context = True,
      le_bind_input = True, le_bind_output = True, le_start_event = None, le_end_event = None\<rparr>"

definition sample_detector :: yolo_detector where
  "sample_detector =
     fold detector_step [Call_load sample_load_env ''e'', Call_run sample_run_env sample_image 1]
       (new_detector \<lparr>confidence_threshold = Fin (1/2), nms_iou_threshold = Fin (1/2), max_detections = 300\<rparr> sample_gpu)"


end
