(* ===== verification/Runtime.thy ===== *)
theory Runtime
  imports Application Database Logging Command_Line Whip_Uplink WebRtc_Manager Yolo_Inference
begin

text \<open>
  \<^verbatim>\<open>src/runtime.cpp\<close>, \<^verbatim>\<open>src/main.cpp\<close> and
  \<^verbatim>\<open>src/webrtc/ice_runtime_module.cpp\<close>: the wiring of the components and the process around
  them.  \<open>runtime_world\<close> is the shared state the constructor of \<^verbatim>\<open>Runtime\<close> creates, with the
  states of the other theories for its parts; the lambdas the constructor hands to the modules are
  functions on it.  The modules themselves are the arguments of \<open>Application\<close>, any functions on this
  state.  The steady clock is part of the state, since the health probes read it.
\<close>

section \<open>The shared state and the callbacks between modules\<close>

record runtime_world =
  rw_clock :: int
  rw_inference_frames :: "video_frame bounded_queue"
  rw_encoded_units :: "encoded_access_unit bounded_queue"
  rw_status :: runtime_status
  rw_api :: api_state
  rw_gps :: "gps_fix option"
  rw_recording :: recording_controller
  rw_webrtc :: manager
  rw_whip :: whip_publisher
  rw_video :: "rtsp_diagnostics option"
  rw_database :: database
  rw_serving :: bool

definition waiting_for_source :: string where
  "waiting_for_source = ''waiting for a browser-compatible H.264 source''"

text \<open>What the constructor does to the objects it has created: both consumers of the video start
  without media, and a build without inference says so.\<close>

definition no_backend :: "runtime_world \<Rightarrow> runtime_world \<times> (log_level \<times> string \<times> string) list" where
  "no_backend w =
     (let (a, st) = set_detector_supported False (rw_api w) (rw_status w)
      in (w\<lparr>rw_api := a, rw_status := st\<rparr>,
          [(Log_Warning, ''detector'', ''service built without TensorRT/CUDA inference support'')]))"

definition wire :: "time_point \<Rightarrow> route \<Rightarrow> bool \<Rightarrow> runtime_world \<Rightarrow> runtime_world \<times> (log_level \<times> string \<times> string) list" where
  "wire now rt backend w =
     (let w1 = w\<lparr>rw_recording := set_media_available False waiting_for_source (rw_recording w),
                 rw_webrtc := set_media_available_manager now rt False waiting_for_source (rw_webrtc w)\<rparr>
      in if backend then (w1, []) else no_backend w1)"

text \<open>The callbacks the video module gets: for every access unit, and for every change of the media.\<close>

definition unit_sink :: "encoded_access_unit \<Rightarrow> runtime_world \<Rightarrow> runtime_world" where
  "unit_sink u w =
     w\<lparr>rw_webrtc := publish_access_unit u (rw_webrtc w), rw_whip := wp_publish_access_unit u (rw_whip w)\<rparr>"

definition media_sink :: "time_point \<Rightarrow> route \<Rightarrow> bool \<Rightarrow> string \<Rightarrow> runtime_world \<Rightarrow> runtime_world" where
  "media_sink now rt avail reason w =
     w\<lparr>rw_recording := set_media_available avail reason (rw_recording w),
       rw_webrtc := set_media_available_manager now rt avail reason (rw_webrtc w)\<rparr>"

text \<open>The callback of the detector.\<close>

definition sei_result_of :: "video_frame \<Rightarrow> detection_dto list \<Rightarrow> sei_source_result" where
  "sei_result_of f ds =
     \<lparr>src_pts_ns = vf_pts_ns f, src_generation = vf_generation f,
      src_boxes = map (\<lambda>d. normalize_sei_box (dto_x1 d) (dto_y1 d) (dto_x2 d) (dto_y2 d) (vf_width f) (vf_height f)
                             (dto_class_name d) (dto_confidence d)) ds\<rparr>"

definition detection_sink :: "video_frame \<Rightarrow> detection_dto list \<Rightarrow> runtime_world \<Rightarrow> runtime_world" where
  "detection_sink f ds w = w\<lparr>rw_whip := wp_publish_detections (sei_result_of f ds) (rw_whip w)\<rparr>"

definition runtime_metrics :: "runtime_world \<Rightarrow> metrics_snapshot" where
  "runtime_metrics w =
     no_metrics\<lparr>ms_rtsp := rw_video w, inference_queue := bq_stats (rw_inference_frames w),
       inference_queue_depth := length (bq_queue (rw_inference_frames w)),
       encoded_queue := bq_stats (rw_encoded_units w), encoded_queue_depth := length (bq_queue (rw_encoded_units w)),
       ms_whip := wp_metrics (rw_whip w)\<rparr>"

section \<open>Health probes\<close>

definition media_of :: "manager \<Rightarrow> webrtc_media" where
  "media_of m = \<lparr>wd_enabled = (m_enabled m \<and> \<not> m_stopping m), wd_media_available = m_media_available m, wd_media_unavailable_reason = m_reason m\<rparr>"

fun runtime_probe :: "config \<Rightarrow> health_component \<Rightarrow> runtime_world \<Rightarrow> probe_outcome" where
  "runtime_probe cfg VideoSource w = Healthy (video_health (rw_video w) (stall_timeout_ms (cfg_video cfg)))"
| "runtime_probe cfg Detector w =
     Healthy (detector_health (detector_supported (rw_api w)) (detector_enabled (rw_api w))
       (status_snapshot (rw_clock w) (rw_status w)))"
| "runtime_probe cfg Encoder w =
     Healthy (encoder_health (status_snapshot (rw_clock w) (rw_status w)) (m_media_available (rw_webrtc w))
       (rc_enabled (cfg_recording cfg) \<or> wrc_enabled (cfg_webrtc cfg) \<or> whip_enabled (cfg_whip cfg)))"
| "runtime_probe cfg Recorder w =
     Healthy (recorder_health (rc_status (rw_recording w)) (requested (rw_recording w)) (rc_enabled (cfg_recording cfg)))"
| "runtime_probe cfg Gps w = Healthy (gps_health (gc_enabled (cfg_gps cfg)) (rw_gps w))"
| "runtime_probe cfg Web w = Healthy (web_health (rw_serving w))"
| "runtime_probe cfg WebRtc w = Healthy (webrtc_health (media_of (rw_webrtc w)) (wp_metrics (rw_whip w)))"
| "runtime_probe cfg Database w = Healthy (database_health (health_error (rw_database w)))"


definition critical_component :: "health_component \<Rightarrow> bool" where
  "critical_component c \<longleftrightarrow> c = Web \<or> c = Database"

definition set_probes :: "config \<Rightarrow> runtime_world watchdog \<Rightarrow> runtime_world watchdog" where
  "set_probes cfg wd =
     fold (\<lambda>c. set_probe c (runtime_probe cfg c) (critical_component c)) all_health_components wd"

section \<open>Runtime\<close>

record runtime =
  rn_app :: "runtime_world application"
  rn_watchdog :: "runtime_world watchdog"

definition new_runtime :: "string \<Rightarrow> runtime_world modules \<Rightarrow> string \<Rightarrow> log_level \<Rightarrow> runtime_world \<Rightarrow> runtime" where
  "new_runtime path ms web_root level w =
     \<lparr>rn_app = new_application path ms web_root level w, rn_watchdog = new_watchdog\<rparr>"

definition on_running :: "bool \<Rightarrow> runtime_world application \<Rightarrow> runtime_world application" where
  "on_running running a = a\<lparr>world := (world a)\<lparr>rw_status := set_running running (rw_status (world a))\<rparr>\<rparr>"

definition runtime_initialize :: "config_env \<Rightarrow> (string \<Rightarrow> file_read) \<Rightarrow> runtime \<Rightarrow> bool \<times> runtime" where
  "runtime_initialize env read_file r =
     (case Application.initialize env read_file (rn_app r) of
        (False, a) \<Rightarrow> (False, r\<lparr>rn_app := a\<rparr>)
      | (True, a) \<Rightarrow> (True, r\<lparr>rn_app := a, rn_watchdog := set_probes (app_config a) (rn_watchdog r)\<rparr>))"

definition runtime_start :: "time_point \<Rightarrow> runtime \<Rightarrow> bool \<times> runtime" where
  "runtime_start now r =
     (case Application.start (rn_app r) of
        (False, a) \<Rightarrow> (False, r\<lparr>rn_app := a\<rparr>)
      | (True, a) \<Rightarrow>
          let a1 = on_running True a
          in (True, r\<lparr>rn_app := a1, rn_watchdog := wd_start (world a1) now (rn_watchdog r)\<rparr>))"

definition runtime_stop :: "runtime \<Rightarrow> runtime" where
  "runtime_stop r =
     r\<lparr>rn_watchdog := wd_stop (rn_watchdog r), rn_app := Application.stop (on_running False (rn_app r))\<rparr>"

definition runtime_wait :: "runtime \<Rightarrow> runtime option" where
  "runtime_wait r = map_option (\<lambda>a. r\<lparr>rn_app := a\<rparr>) (Application.wait (rn_app r))"

definition runtime_destroy :: "runtime \<Rightarrow> runtime option" where
  "runtime_destroy r = runtime_wait (runtime_stop r)"

section \<open>The process\<close>

text \<open>What the process meets after its command line: the signal mask, GStreamer, the signals.  A pass of
  the diagnostic loop waits a second for a signal.\<close>

datatype signal_wait = Got_signal | No_signal | Wait_failed

record process_env =
  pr_mask :: bool
  pr_gstreamer :: "string option"
  pr_config :: config_env
  pr_read :: "string \<Rightarrow> file_read"
  pr_source :: "string option"
  pr_waits :: "signal_wait list"
  pr_now :: time_point
  pr_sigwait :: bool

text \<open>The diagnostic loop: \<open>None\<close> while it still runs.  Each pass prints a line of metrics.\<close>

fun test_loop :: "signal_wait list \<Rightarrow> nat \<Rightarrow> (int \<times> nat) option" where
  "test_loop [] printed = None"
| "test_loop (x # xs) printed =
     (case x of
        Got_signal \<Rightarrow> Some (0, printed + 1)
      | Wait_failed \<Rightarrow> Some (1, printed + 1)
      | No_signal \<Rightarrow> test_loop xs (printed + 1))"

definition rtsp_test :: "process_env \<Rightarrow> string \<Rightarrow> (int \<times> (log_level \<times> string \<times> string) list) option" where
  "rtsp_test env path =
     (case (if path = [] then Inr (default_config (web_root_default (pr_config env)))
            else load_config (pr_config env) (pr_read env) path) of
        Inl e \<Rightarrow> Some (2, [(Log_Error, ''config'', e)])
      | Inr c \<Rightarrow>
          case pr_source env of
            Some e \<Rightarrow> Some (2, [(Log_Error, ''video'', e)])
          | None \<Rightarrow>
              map_option (\<lambda>(code, printed).
                (code, [(Log_Info, ''video'', ''rtsp-test ready''),
                        if code = 0 then (Log_Info, ''video'', ''rtsp-test stopped'')
                        else (Log_Error, ''core'', ''failed to wait for shutdown signal'')])) (test_loop (pr_waits env) 0))"

text \<open>The service, from the initialization of the runtime to the end of its destructor, which runs when
  \<^verbatim>\<open>main\<close> returns; \<open>None\<close> is a call that blocks.\<close>

definition service ::
    "process_env \<Rightarrow> runtime \<Rightarrow> (int \<times> (log_level \<times> string \<times> string) list \<times> runtime) option" where
  "service env r =
     (case runtime_initialize (pr_config env) (pr_read env) r of
        (False, r1) \<Rightarrow>
          map_option (\<lambda>r2. (2, [(Log_Error, last_error_module (rn_app r1), last_error (rn_app r1))], r2)) (runtime_destroy r1)
      | (True, r1) \<Rightarrow>
          case runtime_start (pr_now env) r1 of
            (False, r2) \<Rightarrow>
              map_option (\<lambda>r3. (1, [(Log_Error, last_error_module (rn_app r2), last_error (rn_app r2))], r3)) (runtime_destroy r2)
          | (True, r2) \<Rightarrow>
              let ready = (Log_Info, ''core'', ''skai-edge ready'') in
              Option.bind (runtime_wait (runtime_stop r2)) (\<lambda>r3.
                if \<not> pr_sigwait env
                then map_option (\<lambda>r4. (1, [ready, (Log_Error, ''core'', ''failed to wait for shutdown signal'')], r4))
                       (runtime_destroy r3)
                else map_option (\<lambda>r4. (0, [ready, (Log_Info, ''core'', ''skai-edge stopped'')], r4)) (runtime_destroy r3)))"

datatype process_end =
    Usage_exit int string
  | Early_exit int "(log_level \<times> string \<times> string) list"
  | Test_exit int "(log_level \<times> string \<times> string) list"
  | Service_exit int "(log_level \<times> string \<times> string) list" runtime

definition main :: "process_env \<Rightarrow> string \<Rightarrow> (string \<Rightarrow> runtime) \<Rightarrow> string list \<Rightarrow> process_end option" where
  "main env version create args =
     (let cli = parse_command_line version args in
      if cli_act cli = Cli_Exit then Some (Usage_exit (cli_exit_code cli) (cli_message cli))
      else if \<not> pr_mask env
      then Some (Early_exit 1 [(Log_Error, ''core'', ''failed to configure shutdown signals'')])
      else case pr_gstreamer env of
        Some e \<Rightarrow> Some (Early_exit 1 [(Log_Error, ''gstreamer'', e)])
      | None \<Rightarrow>
          if cli_rtsp_test cli
          then map_option (\<lambda>(code, l). Test_exit code l) (rtsp_test env (cli_config_path cli))
          else map_option (\<lambda>(code, l, r). Service_exit code l r) (service env (create (cli_config_path cli))))"

section \<open>IceRuntimeModule\<close>

text \<open>The process-wide settings of the ICE library, and the lines the module logs.\<close>

record ice_runtime =
  ic_interfaces :: "string list"
  ic_verbosity :: int
  ic_sink :: bool
  ic_error :: string
  ic_log :: "(log_level \<times> string \<times> string) list"

fun join_names :: "string list \<Rightarrow> string" where
  "join_names [] = []"
| "join_names [n] = n"
| "join_names (n # ns) = n @ '','' @ join_names ns"

definition ice_initialize :: "(string \<Rightarrow> bool) \<Rightarrow> webrtc_config \<Rightarrow> ice_runtime \<Rightarrow> bool \<times> ice_runtime" where
  "ice_initialize on_host c s =
     (let s1 = s\<lparr>ic_error := []\<rparr>; names = host_interfaces c in
      if wrc_enabled c \<and> \<not> list_ex on_host names
      then (False, s1\<lparr>ic_error := ''webrtc.host_interfaces has no interface present on this host: ['' @ join_names names @ '']''\<rparr>)
      else (True, s1\<lparr>ic_interfaces := names, ic_verbosity := ice_log_verbosity c, ic_sink := True,
             ic_log := ic_log s1 @ [(Log_Info, ''webrtc'',
               (if wrc_enabled c then ''configured'' else ''disabled'') @ '' mode=lan-only'' @ '' host interfaces=['' @
               join_names names @ ''] ice_log_verbosity='' @ int_to_string (ice_log_verbosity c))]\<rparr>))"

text \<open>A message of the ICE library, once the sink is set.\<close>

definition ice_message :: "int \<Rightarrow> string \<Rightarrow> ice_runtime \<Rightarrow> ice_runtime" where
  "ice_message detail message s =
     (let failure = (sublist ''FAILED'' message \<or> sublist ''failed'' message \<or> sublist ''error'' message)
      in if \<not> ic_sink s then s
         else s\<lparr>ic_log := ic_log s @ [(if failure then Log_Error else if detail > 1 then Log_Debug else Log_Info, ''ice'', message)]\<rparr>)"

definition ice_stop :: "ice_runtime \<Rightarrow> ice_runtime" where
  "ice_stop s = s\<lparr>ic_sink := False\<rparr>"

section \<open>A runtime\<close>

definition sample_world :: runtime_world where
  "sample_world =
     \<lparr>rw_clock = 0,
      rw_inference_frames = \<lparr>bq_capacity = 2, bq_queue = [], bq_stats = zero_stats, bq_shutdown = False\<rparr>,
      rw_encoded_units = \<lparr>bq_capacity = 120, bq_queue = [], bq_stats = zero_stats, bq_shutdown = False\<rparr>,
      rw_status = new_status, rw_api = new_api_state True None, rw_gps = None, rw_recording = new_controller,
      rw_webrtc = new_manager 0, rw_whip = sample_publisher, rw_video = None,
      rw_database = \<lparr>db_open = False, db_tables = empty_tables, operational_error = []\<rparr>, rw_serving = False\<rparr>"

definition sample_storage :: "runtime_world lifecycle_module" where
  "sample_storage =
     \<lparr>m_initialize = (\<lambda>c w. (Some True, w\<lparr>rw_database := (rw_database w)\<lparr>db_open := True\<rparr>\<rparr>)), m_start = (\<lambda>w. (Some True, w)),
      m_stop = (\<lambda>w. w), m_wait = (\<lambda>w. w\<lparr>rw_database := (rw_database w)\<lparr>db_open := False\<rparr>\<rparr>), m_last_error = (\<lambda>w. [])\<rparr>"

definition sample_web :: "runtime_world lifecycle_module" where
  "sample_web =
     \<lparr>m_initialize = (\<lambda>c w. (Some True, w)), m_start = (\<lambda>w. (Some True, w\<lparr>rw_serving := True\<rparr>)),
      m_stop = (\<lambda>w. w\<lparr>rw_serving := False\<rparr>), m_wait = (\<lambda>w. w), m_last_error = (\<lambda>w. [])\<rparr>"

definition sample_runtime :: runtime where
  "sample_runtime =
     new_runtime [] \<lparr>mod_storage = Some sample_storage, mod_webrtc = None, mod_whip = None, mod_web = Some sample_web,
       mod_encoder = None, mod_detector = None, mod_recording = None, mod_video = None, mod_gps = None\<rparr> [] Log_Info sample_world"

lemma sample_runtime_initializes: "fst (runtime_initialize sample_env (\<lambda>_. Open_failed) sample_runtime)"
  by (simp add: runtime_initialize_def sample_runtime_def new_runtime_def new_application_def Application.initialize_def
      ordered_def sample_storage_def sample_web_def try_action_def)

lemma sample_runtime_starts: "fst (runtime_start 0 (snd (runtime_initialize sample_env (\<lambda>_. Open_failed) sample_runtime)))"
  by (simp add: runtime_initialize_def sample_runtime_def new_runtime_def new_application_def Application.initialize_def
      ordered_def sample_storage_def sample_web_def try_action_def runtime_start_def Application.start_def Let_def)

section \<open>Shutdown\<close>

lemma on_running_inv [simp]: "app_inv (on_running b a) = app_inv a" "state (on_running b a) = state a"
  by (cases "state a"; simp add: on_running_def app_inv_def)+

lemma runtime_destroy_clean:
  assumes "app_inv (rn_app r)"
  obtains r' where "runtime_destroy r = Some r'" "app_inv (rn_app r')" "state (rn_app r') = New" "\<not> wd_worker (rn_watchdog r')"
proof -
  have i: "app_inv (on_running False (rn_app r))" using assms by simp
  obtain a where a: "Application.wait (Application.stop (on_running False (rn_app r))) = Some a" using wait_stop [OF i] by blast
  have "app_inv a \<and> state a = New" by (rule wait_inv [OF stop_inv [OF i] a])
  then show thesis
    using that a by (simp add: runtime_destroy_def runtime_wait_def runtime_stop_def wd_stop_def)
qed

lemma runtime_initialize_inv:
  assumes "runtime_initialize env rf r = (ok, r1)" and "app_inv (rn_app r)"
  shows "app_inv (rn_app r1)"
  using assms initialize_inv [OF assms(2), of env rf]
  by (auto simp: runtime_initialize_def split: prod.splits bool.splits)

lemma runtime_start_inv:
  assumes "runtime_start now r = (ok, r1)" and "app_inv (rn_app r)"
  shows "app_inv (rn_app r1)"
  using assms start_inv [OF assms(2)]
  by (auto simp: runtime_start_def Let_def split: prod.splits bool.splits)

definition service_code :: "process_env \<Rightarrow> runtime \<Rightarrow> int" where
  "service_code env r =
     (let (initialized, r1) = runtime_initialize (pr_config env) (pr_read env) r in
      if \<not> initialized then 2
      else if \<not> fst (runtime_start (pr_now env) r1) \<or> \<not> pr_sigwait env then 1 else 0)"

text \<open>C11: the service always shuts down completely.  Whatever its modules do, and whether the
  configuration, the initialization of a module, the start of a module or the wait for a signal fails,
  the process returns, with code 2 for a failed initialization, 1 for a failed start or wait and 0
  otherwise; at its end no module is up, every one that was initialized has been stopped and joined in
  the order the lifecycle contract demands, and the watchdog does not run.\<close>

theorem service_shuts_down:
  "\<exists>l r. service env (new_runtime path ms web_root level w) =
      Some (service_code env (new_runtime path ms web_root level w), l, r) \<and>
    state (rn_app r) = New \<and> active (rn_app r) = [] \<and> replay (calls (rn_app r)) (Up []) = Some (Up []) \<and>
    wd_worker (rn_watchdog r) = False"
proof -
  let ?r = "new_runtime path ms web_root level w"
  have i0: "app_inv (rn_app ?r)" using new_application_inv by (simp add: new_runtime_def)
  obtain ok1 r1 where 1: "runtime_initialize (pr_config env) (pr_read env) ?r = (ok1, r1)" by fastforce
  have i1: "app_inv (rn_app r1)" by (rule runtime_initialize_inv [OF 1 i0])
  obtain ok2 r2 where 2: "runtime_start (pr_now env) r1 = (ok2, r2)" by fastforce
  have i2: "app_inv (rn_app r2)" by (rule runtime_start_inv [OF 2 i1])
  obtain d1 where d1: "runtime_destroy r1 = Some d1" "app_inv (rn_app d1)" "state (rn_app d1) = New" "\<not> wd_worker (rn_watchdog d1)"
    by (rule runtime_destroy_clean [OF i1])
  obtain d2 where d2: "runtime_destroy r2 = Some d2" "app_inv (rn_app d2)" "state (rn_app d2) = New" "\<not> wd_worker (rn_watchdog d2)"
    by (rule runtime_destroy_clean [OF i2])
  obtain d3 where d3: "runtime_destroy d2 = Some d3" "app_inv (rn_app d3)" "state (rn_app d3) = New" "\<not> wd_worker (rn_watchdog d3)"
    by (rule runtime_destroy_clean [OF d2(2)])
  have w2: "runtime_wait (runtime_stop r2) = Some d2" using d2(1) by (simp add: runtime_destroy_def)
  show ?thesis
    using 1 2 d1 d2 d3 w2
    by (cases ok1; cases ok2) (auto simp: service_def service_code_def app_inv_def)
qed

section \<open>Health of the running service\<close>

lemma set_probes_entry:
  "we_probe (wd_entries (set_probes cfg wd) c) = Some (runtime_probe cfg c) \<and>
   we_critical (wd_entries (set_probes cfg wd) c) = critical_component c \<and>
   lifecycle (set_probes cfg wd) = lifecycle wd \<and> wd_worker (set_probes cfg wd) = wd_worker wd"
  by (cases c) (simp_all add: set_probes_def all_health_components_def set_probe_def)

lemma observe_runtime: "observe_component w (wd_entries (set_probes cfg wd) c) =
    (case runtime_probe cfg c w of Healthy h \<Rightarrow> h | Threw e \<Rightarrow> reports H_Failed e | Threw_unknown \<Rightarrow> reports H_Failed ''probe failed'')"
  using set_probes_entry [of cfg wd c] by (simp add: observe_component_def)

lemma tick_entries:
  "we_probe (wd_entries (tick w t wd) c) = we_probe (wd_entries wd c)"
  "we_critical (wd_entries (tick w t wd) c) = we_critical (wd_entries wd c)"
  by (simp_all add: tick_def Let_def)

abbreviation probed_state :: "config \<Rightarrow> runtime_world \<Rightarrow> health_component \<Rightarrow> health_state" where
  "probed_state cfg w c \<equiv> (case runtime_probe cfg c w of Healthy h \<Rightarrow> h_state h | _ \<Rightarrow> H_Failed)"

lemma probed_failed:
  "(\<exists>c. probed_state cfg w c = H_Failed \<and> critical_component c) \<longleftrightarrow> \<not> rw_serving w \<or> health_error (rw_database w) \<noteq> []"
proof -
  have "(\<exists>c. P c \<and> critical_component c) \<longleftrightarrow> P Web \<or> P Database" for P
    unfolding critical_component_def by blast
  then have "(\<exists>c. probed_state cfg w c = H_Failed \<and> critical_component c) \<longleftrightarrow>
      probed_state cfg w Web = H_Failed \<or> probed_state cfg w Database = H_Failed" .
  then show ?thesis by (simp add: web_health_def database_health_def)
qed


abbreviation sample_started :: runtime where
  "sample_started \<equiv> snd (runtime_start 0 (snd (runtime_initialize sample_env (\<lambda>_. Open_failed) sample_runtime)))"


section \<open>Media\<close>

text \<open>The calls that reach the consumers of the video while the service runs: the callbacks of the video
  module and the detector, and the requests of the web interface.\<close>

datatype media_call =
    Call_unit encoded_access_unit
  | Call_media time_point route bool string
  | Call_detections video_frame "detection_dto list"
  | Call_record_start
  | Call_record_stop
  | Call_recorder_active string
  | Call_recorder_stopped
  | Call_recorder_error string
  | Call_whep request_env string
  | Call_delete time_point route string
  | Call_maintenance time_point route

fun media_step :: "media_call \<Rightarrow> runtime_world \<Rightarrow> runtime_world" where
  "media_step (Call_unit u) w = unit_sink u w"
| "media_step (Call_media now rt avail reason) w = media_sink now rt avail reason w"
| "media_step (Call_detections f ds) w = detection_sink f ds w"
| "media_step Call_record_start w = w\<lparr>rw_recording := snd (rc_start (rw_recording w))\<rparr>"
| "media_step Call_record_stop w = w\<lparr>rw_recording := snd (rc_stop (rw_recording w))\<rparr>"
| "media_step (Call_recorder_active path) w = w\<lparr>rw_recording := set_active path (rw_recording w)\<rparr>"
| "media_step Call_recorder_stopped w = w\<lparr>rw_recording := set_stopped (rw_recording w)\<rparr>"
| "media_step (Call_recorder_error e) w = w\<lparr>rw_recording := Recording.set_error e (rw_recording w)\<rparr>"
| "media_step (Call_whep env text) w = w\<lparr>rw_webrtc := snd (create_session env text (rw_webrtc w))\<rparr>"
| "media_step (Call_delete now rt i) w = w\<lparr>rw_webrtc := snd (close_session now rt i (rw_webrtc w))\<rparr>"
| "media_step (Call_maintenance now rt) w = w\<lparr>rw_webrtc := snd (cleanup_stale_sessions now rt (rw_webrtc w))\<rparr>"

definition recorder_media :: "recording_controller \<Rightarrow> bool \<times> string" where
  "recorder_media k = (media_available k, media_unavailable_reason k)"

definition manager_media :: "manager \<Rightarrow> bool \<times> string" where
  "manager_media m = (m_media_available m, m_reason m)"

lemma recorder_media_frame [simp]:
  "recorder_media (snd (rc_start k)) = recorder_media k" "recorder_media (snd (rc_stop k)) = recorder_media k"
  "recorder_media (set_active path k) = recorder_media k" "recorder_media (set_stopped k) = recorder_media k"
  "recorder_media (Recording.set_error e k) = recorder_media k"
  "recorder_media (set_media_available avail reason k) = (avail, if avail then [] else reason)"
  by (simp_all add: recorder_media_def rc_start_def rc_stop_def set_active_def set_stopped_def Recording.set_error_def
      set_media_available_def Let_def)

lemma manager_media_on_session [simp]:
  "manager_media (on_session h f m) = manager_media m"
  "manager_media (remember_closed now rt h reason m) = manager_media m"
  by (simp_all add: manager_media_def on_session_def remember_closed_def Let_def)

lemma manager_media_fold: "(\<And>x m. manager_media (f x m) = manager_media m) \<Longrightarrow> manager_media (fold f xs m) = manager_media m"
  by (induction xs arbitrary: m) simp_all

lemma manager_media_remember [simp]: "manager_media (remember_all now rt hs m) = manager_media m"
  unfolding remember_all_def by (rule manager_media_fold) auto

lemma manager_media_take_session: "take_session sid reason m = (h, m') \<Longrightarrow> manager_media m' = manager_media m"
  by (auto simp: take_session_def manager_media_def split: option.splits)

lemma manager_media_take_stale: "take_stale_loop now hs m = (l, m') \<Longrightarrow> manager_media m' = manager_media m"
  by (induction now hs m arbitrary: l m' rule: take_stale_loop.induct)
    (auto simp: Let_def manager_media_def split: if_splits prod.splits)

lemma manager_media_close [simp]: "manager_media (snd (close_session now rt sid m)) = manager_media m"
  using manager_media_take_session [of sid "''client_delete''" m]
  by (auto simp: close_session_def split: prod.splits option.splits)

lemma manager_media_cleanup [simp]: "manager_media (snd (cleanup_stale_sessions now rt m)) = manager_media m"
  using manager_media_take_stale [of now "m_table m" m]
  by (auto simp: cleanup_stale_sessions_def take_stale_def split: prod.splits)

lemma manager_media_unit [simp]: "manager_media (publish_access_unit u m) = manager_media m"
proof -
  have "manager_media (fold (\<lambda>(k, h). on_session h (enqueue u)) hs m') = manager_media m'" for hs :: "(string \<times> nat) list" and m'
    by (rule manager_media_fold) auto
  moreover have "manager_media (m\<lparr>m_keyframe := k\<rparr>) = manager_media m" for k by (simp add: manager_media_def)
  ultimately show ?thesis by (simp add: publish_access_unit_def Let_def)
qed

lemma manager_media_set [simp]:
  "manager_media (set_media_available_manager now rt avail reason m) = (avail, if avail then [] else reason)"
  by (auto simp: set_media_available_manager_def take_unavailable_def take_all_def Let_def split: prod.splits)
    (auto simp: manager_media_def split: if_splits)

lemma manager_media_fail: "manager_media (fail_session env h message m) = manager_media m"
proof -
  have "manager_media (m\<lparr>m_signaling_errors := n\<rparr>) = manager_media m" for n by (simp add: manager_media_def)
  then show ?thesis
    using manager_media_take_session [of "s_id (m_heap m h)" "''signaling_failure''" "m\<lparr>m_signaling_errors := m_signaling_errors m + 1\<rparr>"]
    by (auto simp: fail_session_def take_failed_def split: prod.splits option.splits)
qed

lemma manager_media_start: "manager_media (snd (start_session env h answer m)) = manager_media m"
  by (auto simp: start_session_def confirm_def Let_def split: prod.splits bool.splits)

lemma manager_media_reserve: "reserve i cr m = (r, m') \<Longrightarrow> manager_media m' = manager_media m"
  by (auto simp: reserve_def manager_media_def split: if_splits sum.splits)

lemma manager_media_create [simp]: "manager_media (snd (create_session env text m)) = manager_media m"
  by (auto simp: create_session_def Let_def manager_media_fail manager_media_start split: prod.splits sum.splits
      dest!: manager_media_reserve)

lemma media_step_agree:
  "recorder_media (rw_recording w) = manager_media (rw_webrtc w) \<Longrightarrow>
   recorder_media (rw_recording (media_step c w)) = manager_media (rw_webrtc (media_step c w))"
  by (cases c) (simp_all add: unit_sink_def media_sink_def detection_sink_def)

lemma wire_agree:
  "recorder_media (rw_recording (fst (wire now rt backend w))) = manager_media (rw_webrtc (fst (wire now rt backend w)))"
  by (simp add: wire_def no_backend_def Let_def split: prod.splits)

lemma fold_agree:
  "recorder_media (rw_recording w) = manager_media (rw_webrtc w) \<Longrightarrow>
   recorder_media (rw_recording (fold media_step cs w)) = manager_media (rw_webrtc (fold media_step cs w))"
  by (induction cs arbitrary: w) (simp_all add: media_step_agree)

lemma create_without_media:
  assumes "\<not> m_media_available m" "text \<noteq> []"
  shows "\<exists>e. fst (create_session env text m) = Inl (E_Disabled, e)"
proof -
  have "\<not> m_media_available (snd (cleanup_stale_sessions (re_now env) (re_route env) m))"
    using manager_media_cleanup [of "re_now env" "re_route env" m] assms(1) by (simp add: manager_media_def)
  then show ?thesis using assms(2) by (auto simp: create_session_def reserve_def Let_def)
qed


definition sample_calls :: "media_call list" where
  "sample_calls = [Call_media 0 (re_route (sample_request ''a'')) True [], Call_record_start,
     Call_media 0 (re_route (sample_request ''a'')) False ''H.264 lost'']"


end
