(* ===== verification/Http_Lifecycle.thy ===== *)
theory Http_Lifecycle
  imports Http_Server
begin

text \<open>
  The lifecycle of \<^verbatim>\<open>src/web/http_server.cpp\<close>: the listening socket, the thread that runs the
  \<^verbatim>\<open>io_context\<close>, the shutdown that is posted to it, and the end of that thread.  The thread is a
  step relation: each step is one handler that the context runs, or the return of
  \<^verbatim>\<open>context.run()\<close>.  What the sessions do in between is \<open>Http_Server\<close> and
  \<open>Web_Socket\<close>; here they are entries of the list of clients.
\<close>

section \<open>State\<close>

text \<open>\<open>ht_accepting\<close>: an accept is outstanding; \<open>ht_posted\<close>: shutdown handlers not yet run;
  \<open>ht_told\<close>: the clients whose \<^verbatim>\<open>stop\<close> the handler called; \<open>ht_running\<close>: the thread is in
  \<^verbatim>\<open>context.run()\<close>.\<close>

record http_state =
  ht_files :: static_files
  ht_limit :: nat
  ht_port :: int
  ht_started :: time_point
  ht_open :: bool
  ht_accepting :: bool
  ht_sessions :: "nat list"
  ht_posted :: nat
  ht_timer :: bool
  ht_told :: "nat list"
  ht_stopped :: bool
  ht_worker :: bool
  ht_running :: bool

record http_server =
  sv_web :: web_state
  sv_serving :: bool
  sv_state :: "http_state option"
  sv_log :: "(log_level \<times> string \<times> string) list"

definition new_server :: "web_state \<Rightarrow> http_server" where
  "new_server st =
     (let (api, status) = bind_runtime_status True (w_api st) (w_status st)
      in \<lparr>sv_web = st\<lparr>w_api := api, w_status := status\<rparr>, sv_serving = False, sv_state = None, sv_log = []\<rparr>)"

abbreviation say :: "log_level \<Rightarrow> string \<Rightarrow> http_server \<Rightarrow> http_server" where
  "say level message sv \<equiv> sv\<lparr>sv_log := sv_log sv @ [(level, ''web'', message)]\<rparr>"

section \<open>Operations\<close>

text \<open>What the listening socket answers: whether the address is one, the first error of opening, binding and
  listening, and the port.\<close>

record listen_env =
  li_now :: time_point
  li_route :: route
  li_files :: file_system
  li_address :: "string \<Rightarrow> bool"
  li_error :: "string option"
  li_port :: int

definition fresh_state :: "listen_env \<Rightarrow> config \<Rightarrow> http_state" where
  "fresh_state env c =
     \<lparr>ht_files = new_static_files (li_files env) (wc_root (cfg_web c)), ht_limit = signaling_limit (max_peers (cfg_webrtc c)),
      ht_port = li_port env, ht_started = 0, ht_open = True, ht_accepting = False, ht_sessions = [], ht_posted = 0,
      ht_timer = False, ht_told = [], ht_stopped = False, ht_worker = False, ht_running = False\<rparr>"

definition http_initialize :: "listen_env \<Rightarrow> config \<Rightarrow> http_server \<Rightarrow> bool \<times> http_server" where
  "http_initialize env c sv =
     (if sv_state sv \<noteq> None then (False, sv)
      else
        let (api, status) = api_configure c (w_api (sv_web sv)) (w_status (sv_web sv));
            sv1 = sv\<lparr>sv_web := (sv_web sv)\<lparr>w_api := api, w_status := status\<rparr>\<rparr>;
            next_state = fresh_state env c
        in if sf_error (ht_files next_state) \<noteq> [] then (False, say Log_Error (sf_error (ht_files next_state)) sv1)
           else if \<not> li_address env (wc_bind (cfg_web c)) then (False, say Log_Error ''web.bind must be an IP address'' sv1)
           else case li_error env of
             Some e \<Rightarrow> (False, say Log_Error (''cannot listen: '' @ e) sv1)
           | None \<Rightarrow>
               (True, sv1\<lparr>sv_web := (sv_web sv1)\<lparr>w_webrtc :=
                        map_option (configure_manager (li_now env) (li_route env) (cfg_webrtc c)) (w_webrtc (sv_web sv1))\<rparr>,
                      sv_state := Some next_state\<rparr>))"

definition http_start :: "time_point \<Rightarrow> http_server \<Rightarrow> bool \<times> http_server" where
  "http_start now sv =
     (case sv_state sv of
        None \<Rightarrow> (False, sv)
      | Some h \<Rightarrow>
          if ht_worker h then (False, sv)
          else (True, say Log_Info (''HTTP server started on port '' @ int_to_string (ht_port h))
                 (sv\<lparr>sv_serving := True, sv_state := Some (h\<lparr>ht_started := now, ht_accepting := True, ht_worker := True, ht_running := True\<rparr>)\<rparr>)))"

text \<open>\<open>posts\<close> is whether posting the handler succeeds; otherwise the context is stopped at once.\<close>

definition http_stop :: "time_point \<Rightarrow> route \<Rightarrow> bool \<Rightarrow> http_server \<Rightarrow> http_server" where
  "http_stop now rt posts sv =
     (let sv1 = sv\<lparr>sv_web := (sv_web sv)\<lparr>w_webrtc := map_option (shutdown_manager now rt) (w_webrtc (sv_web sv))\<rparr>\<rparr> in
      case sv_state sv1 of
        None \<Rightarrow> sv1
      | Some h \<Rightarrow>
          sv1\<lparr>sv_state := Some
            (if \<not> ht_worker h then h\<lparr>ht_open := False, ht_stopped := True\<rparr>
             else if posts then h\<lparr>ht_posted := ht_posted h + 1\<rparr> else h\<lparr>ht_stopped := True\<rparr>)\<rparr>)"

text \<open>\<open>None\<close> is a call that blocks until the thread ends.\<close>

definition http_wait :: "http_server \<Rightarrow> http_server option" where
  "http_wait sv =
     (case sv_state sv of
        None \<Rightarrow> Some sv
      | Some h \<Rightarrow> if ht_worker h \<and> ht_running h then None else Some (sv\<lparr>sv_state := None\<rparr>))"

definition http_port :: "http_server \<Rightarrow> int" where
  "http_port sv = (case sv_state sv of None \<Rightarrow> 0 | Some h \<Rightarrow> ht_port h)"

section \<open>The thread\<close>

datatype accept_outcome = Accepted | Accept_aborted | Accept_failed string

definition on_accepted :: "accept_outcome \<Rightarrow> http_server \<Rightarrow> http_server" where
  "on_accepted outcome sv =
     (let sv1 = (case outcome of Accept_failed e \<Rightarrow> say Log_Error e sv | _ \<Rightarrow> sv)
      in sv1\<lparr>sv_state := map_option (\<lambda>h. h\<lparr>ht_accepting := ht_open h\<rparr>) (sv_state sv1)\<rparr>)"

definition shutdown_handler :: "(nat \<Rightarrow> bool) \<Rightarrow> http_state \<Rightarrow> http_state" where
  "shutdown_handler alive h =
     (let live = drop_expired alive (ht_sessions h);
          h1 = h\<lparr>ht_posted := ht_posted h - 1, ht_open := False, ht_sessions := live, ht_told := ht_told h @ live\<rparr>
      in if live = [] then h1\<lparr>ht_stopped := True\<rparr> else h1\<lparr>ht_timer := True\<rparr>)"

definition timer_handler :: "http_state \<Rightarrow> http_state" where
  "timer_handler h = h\<lparr>ht_timer := False, ht_stopped := True\<rparr>"

text \<open>A handler runs while the context is not stopped.\<close>

abbreviation in_loop :: "http_state \<Rightarrow> bool" where
  "in_loop h \<equiv> ht_running h \<and> \<not> ht_stopped h"

text \<open>The steps that bring the shutdown forward, and all steps of the thread.\<close>

inductive shutdown_step :: "http_server \<Rightarrow> http_server \<Rightarrow> bool" where
  step_posted: "sv_state sv = Some h \<Longrightarrow> in_loop h \<Longrightarrow> 0 < ht_posted h \<Longrightarrow>
    shutdown_step sv (sv\<lparr>sv_state := Some (shutdown_handler alive h)\<rparr>)"
| step_timer: "sv_state sv = Some h \<Longrightarrow> in_loop h \<Longrightarrow> ht_timer h \<Longrightarrow>
    shutdown_step sv (sv\<lparr>sv_state := Some (timer_handler h)\<rparr>)"
| step_return: "sv_state sv = Some h \<Longrightarrow> ht_running h \<Longrightarrow> ht_stopped h \<Longrightarrow>
    shutdown_step sv (sv\<lparr>sv_serving := False, sv_state := Some (h\<lparr>ht_running := False\<rparr>)\<rparr>)"

inductive thread_step :: "http_server \<Rightarrow> http_server \<Rightarrow> bool" where
  step_shutdown: "shutdown_step sv sv' \<Longrightarrow> thread_step sv sv'"
| step_accept: "sv_state sv = Some h \<Longrightarrow> in_loop h \<Longrightarrow> ht_accepting h \<Longrightarrow> thread_step sv (on_accepted outcome sv)"
| step_register: "sv_state sv = Some h \<Longrightarrow> in_loop h \<Longrightarrow>
    thread_step sv (sv\<lparr>sv_state := Some (h\<lparr>ht_sessions := register_session alive n (ht_sessions h)\<rparr>)\<rparr>)"
| step_unregister: "sv_state sv = Some h \<Longrightarrow> in_loop h \<Longrightarrow>
    thread_step sv (sv\<lparr>sv_state := Some (h\<lparr>ht_sessions := unregister_session alive n (ht_sessions h)\<rparr>)\<rparr>)"
| step_request: "sv_state sv = Some h \<Longrightarrow> in_loop h \<Longrightarrow> thread_step sv (sv\<lparr>sv_web := st\<rparr>)"

inductive_cases shutdown_stepE: "shutdown_step sv sv'"

inductive_cases thread_stepE: "thread_step sv sv'"

text \<open>The states of a server; the operations are called by one thread, in any order.\<close>

inductive server_states :: "http_server \<Rightarrow> bool" where
  server_new: "server_states (new_server st)"
| server_initialize: "server_states sv \<Longrightarrow> server_states (snd (http_initialize env c sv))"
| server_starts: "server_states sv \<Longrightarrow> server_states (snd (http_start now sv))"
| server_stop: "server_states sv \<Longrightarrow> server_states (http_stop now rt posts sv)"
| server_wait: "server_states sv \<Longrightarrow> http_wait sv = Some sv' \<Longrightarrow> server_states sv'"
| server_thread: "server_states sv \<Longrightarrow> thread_step sv sv' \<Longrightarrow> server_states sv'"

section \<open>Shutdown\<close>

definition loop_runs :: "http_server \<Rightarrow> bool" where
  "loop_runs sv \<longleftrightarrow> (case sv_state sv of None \<Rightarrow> False | Some h \<Rightarrow> ht_running h)"

definition server_inv :: "http_server \<Rightarrow> bool" where
  "server_inv sv \<longleftrightarrow> sv_serving sv = loop_runs sv \<and>
     (case sv_state sv of None \<Rightarrow> True | Some h \<Rightarrow> ht_running h \<longrightarrow> ht_worker h)"

text \<open>A shutdown is under way: nothing but handlers that end the loop is needed.\<close>

definition ending :: "http_server \<Rightarrow> bool" where
  "ending sv \<longleftrightarrow> (case sv_state sv of None \<Rightarrow> True | Some h \<Rightarrow> ht_running h \<longrightarrow> 0 < ht_posted h \<or> ht_timer h \<or> ht_stopped h)"

definition shutdown_left :: "http_server \<Rightarrow> nat" where
  "shutdown_left sv =
     (case sv_state sv of
        None \<Rightarrow> 0
      | Some h \<Rightarrow> (if ht_running h then 1 else 0) + (if ht_stopped h then 0 else 1 + 2 * ht_posted h + (if ht_timer h then 1 else 0)))"

lemma shutdown_step_progress:
  assumes "shutdown_step sv sv'" "ending sv"
  shows "ending sv' \<and> shutdown_left sv' < shutdown_left sv"
  using assms
  by (cases rule: shutdown_step.cases)
    (auto simp: ending_def shutdown_left_def shutdown_handler_def timer_handler_def Let_def)

lemma thread_step_ending:
  assumes "thread_step sv sv'" "ending sv"
  shows "ending sv' \<and> shutdown_left sv' \<le> shutdown_left sv"
  using assms(1)
proof (cases rule: thread_step.cases)
  case step_shutdown
  then show ?thesis using shutdown_step_progress [OF _ assms(2)] less_imp_le by blast
next
  case (step_accept h outcome)
  then show ?thesis using assms(2) by (auto simp: ending_def shutdown_left_def on_accepted_def Let_def split: accept_outcome.splits)
qed (use assms(2) in \<open>auto simp: ending_def shutdown_left_def\<close>)

lemma shutdown_enabled:
  assumes "ending sv" "loop_runs sv"
  shows "\<exists>sv'. shutdown_step sv sv'"
proof -
  obtain h where h: "sv_state sv = Some h" "ht_running h" using assms(2) by (auto simp: loop_runs_def split: option.splits)
  show ?thesis
  proof (cases "ht_stopped h")
    case True
    then show ?thesis using h step_return by blast
  next
    case False
    then have "0 < ht_posted h \<or> ht_timer h" using assms(1) h by (simp add: ending_def)
    then show ?thesis using h False step_posted step_timer by blast
  qed
qed

lemma server_inv_states: "server_states sv \<Longrightarrow> server_inv sv"
proof (induction rule: server_states.induct)
  case (server_initialize sv env c)
  then show ?case
    by (auto simp: http_initialize_def server_inv_def loop_runs_def fresh_state_def Let_def split: prod.splits option.splits if_splits)
next
  case (server_thread sv sv')
  from server_thread(2) show ?case
  proof (cases rule: thread_step.cases)
    case step_shutdown
    then show ?thesis using server_thread(3)
      by (cases rule: shutdown_step.cases)
        (auto simp: server_inv_def loop_runs_def shutdown_handler_def timer_handler_def Let_def)
  next
    case (step_accept h outcome)
    then show ?thesis using server_thread(3)
      by (auto simp: server_inv_def loop_runs_def on_accepted_def Let_def split: accept_outcome.splits)
  qed (use server_thread(3) in \<open>auto simp: server_inv_def loop_runs_def\<close>)
qed (auto simp: server_inv_def loop_runs_def new_server_def http_start_def http_stop_def http_wait_def Let_def split: option.splits if_splits prod.splits)

lemma stop_ending: "server_states sv \<Longrightarrow> ending (http_stop now rt posts sv)"
  using server_inv_states [of sv]
  by (auto simp: ending_def http_stop_def server_inv_def Let_def split: option.splits)

text \<open>C15: a stop of the HTTP server always completes.  From any state the operations and the thread can
  reach, and whatever handlers run after the stop, as long as the thread is in its loop one of the three
  steps of the shutdown is enabled, each of them brings the end strictly nearer and no other handler moves it
  away; so the thread ends under every fair schedule.  Once it has ended the server is not reported as
  serving, \<^verbatim>\<open>wait\<close> returns and the server can be initialized again.\<close>

theorem http_stop_completes:
  assumes "server_states sv" and "thread_step\<^sup>*\<^sup>* (http_stop now rt posts sv) sv'"
  shows "(loop_runs sv' \<longrightarrow> (\<exists>sv''. shutdown_step sv' sv'')) \<and>
    (\<forall>sv''. shutdown_step sv' sv'' \<longrightarrow> shutdown_left sv'' < shutdown_left sv') \<and>
    (\<forall>sv''. thread_step sv' sv'' \<longrightarrow> shutdown_left sv'' \<le> shutdown_left sv') \<and>
    (\<not> loop_runs sv' \<longrightarrow> \<not> sv_serving sv' \<and> (\<exists>sv''. http_wait sv' = Some sv'' \<and> sv_state sv'' = None))"
proof -
  have states: "server_states sv'"
    using assms(2) by (induction rule: rtranclp_induct) (use assms(1) server_stop server_thread in blast)+
  have e: "ending sv'"
    using assms(2) by (induction rule: rtranclp_induct) (use stop_ending [OF assms(1)] thread_step_ending in blast)+
  have "\<not> sv_serving sv' \<and> (\<exists>sv''. http_wait sv' = Some sv'' \<and> sv_state sv'' = None)" if "\<not> loop_runs sv'"
    using server_inv_states [OF states] that
    by (auto simp: server_inv_def loop_runs_def http_wait_def split: option.splits)
  then show ?thesis using shutdown_enabled [OF e] shutdown_step_progress [OF _ e] thread_step_ending [OF _ e] by blast
qed

definition sample_listen :: listen_env where
  "sample_listen =
     \<lparr>li_now = 0, li_route = re_route (sample_request []), li_files = sample_files\<lparr>fs_canonical := (\<lambda>p. if p = ''/w'' then Some p else None)\<rparr>,
      li_address = (\<lambda>_. True), li_error = None, li_port = 8080\<rparr>"

definition sample_server :: http_server where
  "sample_server =
     snd (http_start 0 (snd (http_initialize sample_listen (default_config ''/w'') (new_server sample_state))))"

lemma sample_root: "sf_error (new_static_files (li_files sample_listen) ''/w'') = []"
  by (simp add: sample_listen_def sample_files_def new_static_files_def asset_names_def load_asset_def join_path_def)

theorem http_stop_completes_witness:
  "\<exists>sv. shutdown_step (http_stop 0 (re_route (sample_request [])) True sample_server) sv"
proof -
  have s: "server_states sample_server"
    unfolding sample_server_def by (intro server_starts server_initialize server_new)
  have "loop_runs (http_stop 0 (re_route (sample_request [])) True sample_server)"
    using sample_root
    by (simp add: loop_runs_def http_stop_def sample_server_def http_start_def http_initialize_def new_server_def
        fresh_state_def default_config_def default_web_def sample_listen_def Let_def split: prod.splits)
  then show ?thesis using http_stop_completes [OF s rtranclp.rtrancl_refl] by blast
qed

end
