(* ===== verification/Metrics_Sampler.thy ===== *)
theory Metrics_Sampler
  imports Api_Json Rtsp_Source
begin

text \<open>
  \<^verbatim>\<open>SystemMetricsSampler::sample\<close> of \<^verbatim>\<open>src/metrics.cpp\<close>.  What the operating
  system answers is an environment; the search for an existing directory, a loop whose end depends on
  it, is a partial function.
\<close>

section \<open>Paths\<close>

text \<open>\<^verbatim>\<open>path::parent_path\<close> of a POSIX path with a single root slash: the last component and the
  slashes before it are dropped, a root directory stays.\<close>

definition parent_path :: "string \<Rightarrow> string" where
  "parent_path p =
     (let q = rev (dropWhile (\<lambda>c. c \<noteq> CHR ''/'') (rev p)); r = rev (dropWhile (\<lambda>c. c = CHR ''/'') (rev q))
      in if r = [] \<and> q \<noteq> [] then ''/'' else r)"

section \<open>Sampling\<close>

record sampler =
  sp_disk_path :: string
  sp_previous_wall :: "time_point option"
  sp_previous_cpu :: fp

definition new_sampler :: "string \<Rightarrow> sampler" where
  "new_sampler path = \<lparr>sp_disk_path = path, sp_previous_wall = None, sp_previous_cpu = Fin 0\<rparr>"

text \<open>The files of \<^verbatim>\<open>/proc\<close> and \<^verbatim>\<open>/sys\<close> as what reading their numbers gives, the
  processor times of \<^verbatim>\<open>getrusage\<close> as seconds and microseconds of user and system time.\<close>

record sample_env =
  se_statm :: "(u64 \<times> u64) option"
  se_page_size :: int
  se_usage :: "((int \<times> int) \<times> (int \<times> int)) option"
  se_now :: time_point
  se_gpu_load :: "int option"
  se_absolute :: "string \<Rightarrow> string option"
  se_exists :: "string \<Rightarrow> bool"
  se_space :: "string \<Rightarrow> u64 option"

definition rss_bytes :: "sample_env \<Rightarrow> u64 option" where
  "rss_bytes env =
     (case se_statm env of
        None \<Rightarrow> None
      | Some (pages, resident) \<Rightarrow> if se_page_size env > 0 then Some (resident * of_int (se_page_size env)) else None)"

definition cpu_seconds :: "(int \<times> int) \<times> (int \<times> int) \<Rightarrow> fp" where
  "cpu_seconds usage =
     (let ((user_s, user_us), (system_s, system_us)) = usage
      in fp_add round64 (round64 (of_int (user_s + system_s)))
           (fp_div round64 (round64 (of_int (user_us + system_us))) (Fin 1000000)))"

definition sample_cpu :: "sample_env \<Rightarrow> sampler \<Rightarrow> fp option \<times> sampler" where
  "sample_cpu env s =
     (case se_usage env of
        None \<Rightarrow> (None, s)
      | Some usage \<Rightarrow>
          let cpu = cpu_seconds usage;
              percent =
                (case sp_previous_wall s of
                   None \<Rightarrow> None
                 | Some previous \<Rightarrow>
                     let elapsed = seconds_of (se_now env - previous) in
                     if fp_less (Fin 0) elapsed
                     then Some (fp_div round64 (fp_mul round64 (Fin 100) (fp_sub round64 cpu (sp_previous_cpu s))) elapsed)
                     else None)
          in (percent, s\<lparr>sp_previous_wall := Some (se_now env), sp_previous_cpu := cpu\<rparr>))"

definition sample_gpu_load :: "sample_env \<Rightarrow> fp option" where
  "sample_gpu_load env =
     (case se_gpu_load env of
        None \<Rightarrow> None
      | Some permille \<Rightarrow>
          if permille \<ge> 0 \<and> permille \<le> 1000 then Some (fp_div round64 (Fin (of_int permille)) (Fin 10)) else None)"

text \<open>The loop up the directories; \<open>None\<close> is a loop that does not end.\<close>

partial_function (option) existing_directory :: "(string \<Rightarrow> bool) \<Rightarrow> string \<Rightarrow> string option" where
  "existing_directory exists p =
     (if p \<noteq> [] \<and> \<not> exists p then existing_directory exists (parent_path p) else Some p)"

definition sample_disk :: "sample_env \<Rightarrow> sampler \<Rightarrow> u64 option option" where
  "sample_disk env s =
     (case se_absolute env (sp_disk_path s) of
        None \<Rightarrow> Some None
      | Some p \<Rightarrow> map_option (\<lambda>d. if d = [] then None else se_space env d) (existing_directory (se_exists env) p))"

definition sample :: "sample_env \<Rightarrow> sampler \<Rightarrow> (system_metrics \<times> sampler) option" where
  "sample env s =
     (let (cpu, s1) = sample_cpu env s in
      map_option (\<lambda>disk. (\<lparr>memory_rss_bytes = rss_bytes env, cpu_percent = cpu, gpu_percent = sample_gpu_load env,
                           disk_free_bytes = disk\<rparr>, s1)) (sample_disk env s))"

section \<open>Properties\<close>

lemma parent_path_shorter:
  assumes "p \<noteq> []" "p \<noteq> ''/''" "hd p = CHR ''/''"
  shows "length (parent_path p) < length p \<and> parent_path p \<noteq> [] \<and> hd (parent_path p) = CHR ''/'' \<and> prefix (parent_path p) p"
proof -
  define q where "q = rev (dropWhile (\<lambda>c. c \<noteq> CHR ''/'') (rev p))"
  define r where "r = rev (dropWhile (\<lambda>c. c = CHR ''/'') (rev q))"
  have qp: "prefix q p" unfolding q_def by (metis suffix_dropWhile suffix_to_prefix rev_rev_ident)
  have rq: "prefix r q" unfolding r_def by (metis suffix_dropWhile suffix_to_prefix rev_rev_ident)
  have q: "q \<noteq> []" "last q = CHR ''/''"
  proof -
    have "\<exists>c \<in> set (rev p). c = CHR ''/''" using assms(1,3) by (metis hd_in_set set_rev)
    then have "dropWhile (\<lambda>c. c \<noteq> CHR ''/'') (rev p) \<noteq> []" by (auto simp: dropWhile_eq_Nil_conv)
    then show "q \<noteq> []" "last q = CHR ''/''" using hd_dropWhile [of "\<lambda>c. c \<noteq> CHR ''/''" "rev p"] by (auto simp: q_def last_rev)
  qed
  have len: "length r < length q"
  proof -
    have "rev q \<noteq> []" "hd (rev q) = CHR ''/''" using q by (simp_all add: hd_rev)
    then have "length (dropWhile (\<lambda>c. c = CHR ''/'') (rev q)) < length (rev q)"
      by (cases "rev q") (auto simp: length_dropWhile_le le_imp_less_Suc)
    then show ?thesis by (simp add: r_def)
  qed
  have pp: "parent_path p = (if r = [] \<and> q \<noteq> [] then ''/'' else r)" by (simp only: parent_path_def Let_def q_def r_def)
  have qlen: "length q \<le> length p" using qp by (rule prefix_length_le)
  have p1: "prefix ''/'' p" using assms(1,3) by (cases p) auto
  show ?thesis
  proof (cases "r = []")
    case True
    then have "parent_path p = ''/''" using q(1) pp by simp
    moreover have "1 < length p" using assms by (cases p; cases "tl p") auto
    ultimately show ?thesis using p1 by simp
  next
    case False
    have rp: "prefix r p" using rq qp by (rule prefix_order.order_trans)
    then have "hd r = hd p" using False by (auto simp: prefix_def)
    then show ?thesis using pp rp False len qlen assms(3) by simp
  qed
qed

lemma existing_directory_found:
  assumes "exists ''/''" and "p \<noteq> []" and "hd p = CHR ''/''"
  shows "\<exists>d. existing_directory exists p = Some d \<and> exists d \<and> prefix d p \<and> d \<noteq> []"
  using assms(2,3)
proof (induction "length p" arbitrary: p rule: less_induct)
  case less
  show ?case
  proof (cases "exists p")
    case True
    then show ?thesis using less.prems by (subst existing_directory.simps) auto
  next
    case False
    then have "p \<noteq> ''/''" using assms(1) by auto
    note up = parent_path_shorter [OF less.prems(1) this less.prems(2)]
    obtain d where "existing_directory exists (parent_path p) = Some d" "exists d" "prefix d (parent_path p)" "d \<noteq> []"
      using less.hyps [of "parent_path p"] up by blast
    moreover have "existing_directory exists p = existing_directory exists (parent_path p)"
      using False less.prems(1) by (subst existing_directory.simps) simp
    ultimately show ?thesis using up prefix_order.order_trans by metis
  qed
qed

lemma gpu_load_percent:
  assumes "sample_gpu_load env = Some x"
  shows "\<exists>v. x = Fin v \<and> 0 \<le> v \<and> v \<le> 100"
proof -
  obtain permille where p: "se_gpu_load env = Some permille" "0 \<le> permille" "permille \<le> 1000"
    "x = fp_div round64 (Fin (of_int permille)) (Fin 10)"
    using assms by (auto simp: sample_gpu_load_def split: option.splits if_splits)
  have "0 \<le> (of_int permille / 10 :: real)" "of_int permille / 10 \<le> (of_nat 100 :: real)" using p(2,3) by simp_all
  then obtain r where "round64 (of_int permille / 10) = Fin r" "0 \<le> r" "r \<le> of_nat 100"
    using f64.rnd_nat_range [of 100 "of_int permille / 10"] by auto
  then show ?thesis using p(4) by (simp add: fp_div_def)
qed

text \<open>sampling always ends.  If the file system has a root, the search for a directory of the recordings
  ends at an existing ancestor of their absolute path, so a sample is returned for every answer of the
  operating system, with the free space of that ancestor and a GPU load between 0 and 100 percent.\<close>

theorem sample_completes:
  assumes "se_exists env ''/''" and "case se_absolute env (sp_disk_path s) of None \<Rightarrow> True | Some p \<Rightarrow> p \<noteq> [] \<and> hd p = CHR ''/''"
  shows "\<exists>m s'. sample env s = Some (m, s') \<and>
    (case se_absolute env (sp_disk_path s) of
       None \<Rightarrow> disk_free_bytes m = None
     | Some p \<Rightarrow> \<exists>d. prefix d p \<and> se_exists env d \<and> disk_free_bytes m = se_space env d) \<and>
    (case gpu_percent m of None \<Rightarrow> True | Some x \<Rightarrow> \<exists>v. x = Fin v \<and> 0 \<le> v \<and> v \<le> 100)"
proof -
  obtain disk where disk: "sample_disk env s = Some disk"
    "case se_absolute env (sp_disk_path s) of None \<Rightarrow> disk = None
     | Some p \<Rightarrow> \<exists>d. prefix d p \<and> se_exists env d \<and> disk = se_space env d"
  proof (cases "se_absolute env (sp_disk_path s)")
    case (Some p)
    obtain d where "existing_directory (se_exists env) p = Some d" "se_exists env d" "prefix d p" "d \<noteq> []"
      using existing_directory_found [of "se_exists env" p] assms Some by auto
    then show thesis using that [of "se_space env d"] Some by (auto simp: sample_disk_def)
  qed (simp add: that sample_disk_def)
  then show ?thesis
    using gpu_load_percent [of env]
    by (cases "sample_cpu env s") (auto simp: sample_def split: option.splits)
qed

definition sample_system :: sample_env where
  "sample_system =
     \<lparr>se_statm = Some (10, 3), se_page_size = 4096, se_usage = Some ((1, 0), (0, 500000)), se_now = 0, se_gpu_load = Some 1001,
      se_absolute = (\<lambda>p. Some (''/srv/'' @ p)), se_exists = (\<lambda>p. p = ''/''), se_space = (\<lambda>_. Some 7)\<rparr>"

theorem sample_completes_witness:
  "\<exists>m s'. sample sample_system (new_sampler ''recordings'') = Some (m, s') \<and> disk_free_bytes m = Some 7"
proof -
  have e: "se_exists sample_system ''/''" "sp_disk_path (new_sampler ''recordings'') = ''recordings''"
    "se_absolute sample_system ''recordings'' = Some ''/srv/recordings''" "se_space sample_system d = Some 7" for d
    by (simp_all add: sample_system_def new_sampler_def)
  show ?thesis
    using sample_completes [OF e(1), of "new_sampler ''recordings''"] e by auto
qed

end
