(* ===== verification/Spec2Isabelle.thy ===== *)
theory Spec2Isabelle
  imports Bounded_Queue Event_Channel Rtsp_Recovery Whip_Policy Detection_Sei Application Recording
    Preprocess Yolo_Postprocess Health Alerts Api_State Http_Server Nack_Responder Alert_Cleanup
    Tensor_Layout Whip_Uplink Rtsp_Capture Encoder_Timeline Yolo_Flow Queue_Spec Logging Command_Line Database Preprocess_Cuda Tensor_Rt Yolo_Detector
    Runtime Http_Lifecycle Metrics_Sampler
begin

text \<open>
  A verification development for skai-edge-native, the service of an edge camera: it captures an RTSP
  stream, runs a YOLO network on it, raises alerts, records, and serves the video and its results to
  browsers (WHEP) and to a media server (WHIP).  Paths below are relative to the repository's \<^verbatim>\<open>src\<close>
  directory.

  \<^bold>\<open>The program.\<close>  \<^verbatim>\<open>main.cpp\<close> parses the command line and runs a \<^verbatim>\<open>Runtime\<close>, which creates the shared
  objects (two bounded queues, the status registers, the API state, the recording controller, the WebRTC
  manager, the alert repository, the event channel) and gives them to the modules that \<^verbatim>\<open>Application\<close>
  brings up and tears down in a fixed order: storage, webrtc, whip, web, encoder, detector, recording,
  video, gps.  The capture thread of the video module decodes frames into the inference queue and hands
  access units to the recorder, the WebRTC manager and the WHIP publisher; the detector takes frames,
  commits results to the API state and the event channel, and gives them to the alert manager and, as SEI
  messages, to the WHIP publisher; the web server answers requests from the same objects and streams
  events to WebSocket clients; the watchdog polls the health of all of them.

  \<^bold>\<open>How it is modelled.\<close>  A class is a record of its members; a method is a function from that record to
  its result and the new record, whole, with the guards and early returns of the source in their order.  An
  error is a value (\<^verbatim>\<open>result\<close> is a message or a value; \<^verbatim>\<open>option\<close> where the source returns a flag).  A method
  that holds its object's mutex is one step; where the source takes the mutex several times the sections
  are separate definitions, and interleavings are sequences of them.  Threads and event loops are functions
  of one pass, or step relations (\<^verbatim>\<open>queue_run\<close>, \<^verbatim>\<open>manager_step\<close>, \<^verbatim>\<open>ws_step\<close>, \<^verbatim>\<open>thread_step\<close>), over which
  invariants are proved by induction.  Unsigned counters that may wrap are words, sizes are naturals, times
  are integers in nanoseconds.  \<^verbatim>\<open>float\<close> and \<^verbatim>\<open>double\<close> are the values of \<^verbatim>\<open>Cpp_Float\<close>, rounded at every
  operation.  Code outside the repository is a parameter: the answers of GStreamer, SQLite, Boost,
  libdatachannel, curl, yaml-cpp, OpenCV, TensorRT, CUDA and the operating system are fields of environment
  records or arguments, and what a theorem needs of them is a named hypothesis (\<^verbatim>\<open>sqlite_messages\<close>,
  \<^verbatim>\<open>copies_rows\<close>, \<^verbatim>\<open>cuda_ok\<close>, \<^verbatim>\<open>int64_dims\<close>, \<^verbatim>\<open>image_ok\<close>), for each of which a witness gives an instance.
  Definitions are executable; loops over data are structural, \<^verbatim>\<open>evict\<close> and the other loops with a measure
  have termination proofs, and the loops that may run forever (\<^verbatim>\<open>existing_directory\<close>, the waits of
  \<^verbatim>\<open>Application\<close> and \<^verbatim>\<open>Runtime\<close>) give \<^verbatim>\<open>None\<close> when they do not return, with a theorem that says when they do.
  Worker loops run over a finite list of what their passes meet, which is arbitrary, so no bound is chosen.

  \<^bold>\<open>Shared theories.\<close>
  \<^item> \<^verbatim>\<open>Skai_Prelude\<close>: types, strings, list lemmas, and the locales \<^verbatim>\<open>drop_oldest_buffer\<close> (a buffer that drops its
    oldest element when full; interpreted as \<^verbatim>\<open>bq\<close> for the bounded queue, \<^verbatim>\<open>eq\<close> for the event queue and
    \<^verbatim>\<open>errors\<close> for the recent errors of the event channel) and \<^verbatim>\<open>strict_weak_order\<close> (what a comparison passed to
    \<^verbatim>\<open>std::sort\<close> has to satisfy and what the sorted list then is; interpreted as \<^verbatim>\<open>newest\<close> and \<^verbatim>\<open>oldest\<close> for the
    alert rows, \<^verbatim>\<open>confidence_order\<close> for the candidates, \<^verbatim>\<open>due_order\<close> for inference results, \<^verbatim>\<open>file_age\<close> for the
    quota).
  \<^item> \<^verbatim>\<open>Cpp_Float\<close>: IEEE rounding; the locale \<^verbatim>\<open>fp_rounding\<close> with the interpretations \<^verbatim>\<open>f64\<close> and \<^verbatim>\<open>f32\<close>.
  \<^item> \<^verbatim>\<open>Gst_Pipeline\<close>: the pipeline wrapper of \<^verbatim>\<open>video/gstreamer_runtime.cpp\<close>, and the locale \<^verbatim>\<open>callback_gate\<close>,
    which says when no callback is inside an object that closes its pipeline; interpreted as \<^verbatim>\<open>source_gate\<close>
    for \<^verbatim>\<open>RtspSource\<close> and \<^verbatim>\<open>encoder_gate\<close> for \<^verbatim>\<open>H264Encoder\<close>.
  \<^item> \<^verbatim>\<open>Json_Text\<close>, \<^verbatim>\<open>Json_Value\<close>: the string encoders of the program, number formatting, and a JSON grammar.

  \<^bold>\<open>Core.\<close>
  \<^item> \<^verbatim>\<open>Bounded_Queue\<close> (\<^verbatim>\<open>core/bounded_queue.hpp\<close>): the queue; nothing is lost or duplicated, counters add up.
    \<^verbatim>\<open>Queue_Spec\<close> is its abstract specification, the window of the newest values, with the refinement.
  \<^item> \<^verbatim>\<open>Event_Channel\<close> (\<^verbatim>\<open>events.cpp\<close>), \<^verbatim>\<open>Api_State\<close> (\<^verbatim>\<open>api_state.hpp\<close>), \<^verbatim>\<open>Health\<close> (\<^verbatim>\<open>status.hpp\<close>, \<^verbatim>\<open>health.cpp\<close>,
    \<^verbatim>\<open>gps\<close>): publishing and inboxes, generations of the detector state, component health and watchdog.
  \<^item> \<^verbatim>\<open>Config\<close> (\<^verbatim>\<open>config.cpp\<close>): every check and default; an accepted configuration is valid.
  \<^item> \<^verbatim>\<open>Logging\<close> (\<^verbatim>\<open>logging.cpp\<close>), \<^verbatim>\<open>Command_Line\<close> (\<^verbatim>\<open>cli.cpp\<close>), \<^verbatim>\<open>Metrics_Sampler\<close> (\<^verbatim>\<open>metrics.cpp\<close>): the log can be
    read back unchanged, the accepted command lines are exactly those of the usage text, sampling ends.
  \<^item> \<^verbatim>\<open>Application\<close> (\<^verbatim>\<open>application.cpp\<close>): the lifecycle; the calls on modules follow the contract of
    \<^verbatim>\<open>LifecycleModule\<close> whatever fails, and startup is all or nothing.
  \<^item> \<^verbatim>\<open>Runtime\<close> (\<^verbatim>\<open>runtime.cpp\<close>, \<^verbatim>\<open>main.cpp\<close>, \<^verbatim>\<open>webrtc/ice_runtime_module.cpp\<close>): the wiring; the process always shuts
    down, the health report is that of the wired objects, and the consumers of the video agree about it.

  \<^bold>\<open>Video.\<close>
  \<^item> \<^verbatim>\<open>Rtsp_Recovery\<close>, \<^verbatim>\<open>Rtsp_Source\<close>, \<^verbatim>\<open>Rtsp_Capture\<close> (\<^verbatim>\<open>video/rtsp_source.cpp\<close>, \<^verbatim>\<open>rtsp_video_module.cpp\<close>): the retry
    policy, the capture thread, and what it guarantees of units and frames.
  \<^item> \<^verbatim>\<open>Annotator\<close>, \<^verbatim>\<open>H264_Encoder\<close>, \<^verbatim>\<open>Encoder_Timeline\<close> (\<^verbatim>\<open>video/annotator.cpp\<close>, \<^verbatim>\<open>h264_encoder.cpp\<close>,
    \<^verbatim>\<open>h264_encoder_module.cpp\<close>): drawing inside the frame, the encoder, its single increasing timeline and its
    accounting of frames.
  \<^item> \<^verbatim>\<open>Recording\<close> (\<^verbatim>\<open>video/recording.cpp\<close>): controller, worker and quota; recordings are decodable from their
    first unit.

  \<^bold>\<open>Inference.\<close>
  \<^item> \<^verbatim>\<open>Preprocess\<close>, \<^verbatim>\<open>Tensor_Layout\<close>, \<^verbatim>\<open>Yolo_Postprocess\<close> (\<^verbatim>\<open>inference\<close>): the letterbox, the check of an engine's
    tensors, decoding and non-maximum suppression, with memory safety and exact arithmetic.
  \<^item> \<^verbatim>\<open>Tensor_Rt\<close>, \<^verbatim>\<open>Preprocess_Cuda\<close>, \<^verbatim>\<open>Yolo_Detector\<close> (\<^verbatim>\<open>tensorrt_engine.cpp\<close>, \<^verbatim>\<open>preprocess_cuda.cu\<close>,
    \<^verbatim>\<open>yolo_detector.cpp\<close>, \<^verbatim>\<open>inference_backend.cpp\<close>): device memory is not leaked, the kernel computes the CPU
    routine's tensor, and the detector computes the reference pipeline.  The equality with the CPU routine
    is for a kernel compiled without contraction to fused operations (\<^verbatim>\<open>plain_mix\<close>).
  \<^item> \<^verbatim>\<open>Yolo_Inference\<close>, \<^verbatim>\<open>Yolo_Flow\<close> (\<^verbatim>\<open>yolo_inference_module.cpp\<close>): the workers, and that a result is shown
    everywhere or nowhere.

  \<^bold>\<open>Alerts and storage.\<close>
  \<^item> \<^verbatim>\<open>Alerts\<close>, \<^verbatim>\<open>Alert_Cleanup\<close> (\<^verbatim>\<open>alerts/alert_manager.cpp\<close>): when a rule fires, storing, and the two-phase
    deletion with its recovery after a crash at any step.
  \<^item> \<^verbatim>\<open>Alert_Repository\<close>, \<^verbatim>\<open>Database\<close> (\<^verbatim>\<open>storage\<close>): statements over explicit tables, atomic insertion, and a
    migration that is all or nothing under every failure.

  \<^bold>\<open>Web and WebRTC.\<close>
  \<^item> \<^verbatim>\<open>Api_Json\<close>, \<^verbatim>\<open>Router\<close>, \<^verbatim>\<open>Static_Files\<close>, \<^verbatim>\<open>Http_Server\<close>, \<^verbatim>\<open>Http_Lifecycle\<close>, \<^verbatim>\<open>Web_Socket\<close> (\<^verbatim>\<open>web\<close>): the bodies are
    JSON, which requests change what, files stay inside the web root, sessions are bounded, a stop completes.
  \<^item> \<^verbatim>\<open>WebRtc_Session\<close>, \<^verbatim>\<open>WebRtc_Manager\<close>, \<^verbatim>\<open>Nack_Responder\<close> (\<^verbatim>\<open>webrtc/webrtc_manager.cpp\<close>): one peer, the session
    table with its accounting, retransmission.
  \<^item> \<^verbatim>\<open>Whip_Policy\<close>, \<^verbatim>\<open>Whip_Publisher\<close>, \<^verbatim>\<open>Whip_Uplink\<close>, \<^verbatim>\<open>Detection_Sei\<close> (\<^verbatim>\<open>webrtc/whip_*.cpp\<close>,
    \<^verbatim>\<open>webrtc/detection_sei.cpp\<close>): the uplink, its retries and cleanup, decodable units, the confined token,
    and the SEI messages.

  \<^bold>\<open>Not modelled.\<close>  The libraries named above and the operating system; the text of some log lines and of
  the published alert event; destructors and accessors that only release or return a member; the pixels
  that OpenCV draws; data races, since every shared access of the modelled code is under a mutex or atomic
  and is taken as one step; time that passes inside a step; exhaustion of memory.  The conversion of a
  floating-point value to \<^verbatim>\<open>int\<close> has no range limit, and the sign of zero is not represented.
\<close>

end
